(* ===== verification/Txm_Prelude.thy ===== *)
theory Txm_Prelude
  imports
    "HOL-Library.Word"
    "HOL-Library.AList"
    "HOL-Library.List_Lexorder"
    "HOL-Library.Multiset"
    "HOL-Library.Sublist"
begin

text \<open>
  The shared vocabulary of the development: Rust's fixed-width integers as words with their
  saturating operations, byte strings and the little/big-endian encodings of the standard
  library, \<open>Result\<close> as a sum type, \<open>HashMap\<close> as an association list with distinct keys
  (the order of the list is the iteration order of the map, which Rust leaves unspecified),
  and the lemmas on sums, association lists and encodings that the components share.

  Plain \<open>+\<close>, \<open>-\<close> and \<open>*\<close> of the source are word operations: the workspace sets no
  \<open>overflow-checks\<close>, so the release build wraps. The theorems that claim a numeric result
  state the bounds under which nothing wraps.
\<close>

named_theorems sat_simps "saturating operations read through unat"
named_theorems codec_simps "round trips of byte encodings"

section \<open>Machine integers\<close>

type_synonym u8 = "8 word"
type_synonym u16 = "16 word"
type_synonym u32 = "32 word"
type_synonym u64 = "64 word"
type_synonym u128 = "128 word"
type_synonym bytes = "8 word list"

definition sat_add :: "'a::len word \<Rightarrow> 'a word \<Rightarrow> 'a word" where
  "sat_add a b = (if unat a + unat b < 2 ^ LENGTH('a) then a + b else - 1)"

definition sat_sub :: "'a::len word \<Rightarrow> 'a word \<Rightarrow> 'a word" where
  "sat_sub a b = (if b \<le> a then a - b else 0)"

definition sat_mul :: "'a::len word \<Rightarrow> 'a word \<Rightarrow> 'a word" where
  "sat_mul a b = (if unat a * unat b < 2 ^ LENGTH('a) then a * b else - 1)"

lemma unat_minus_one_word: "unat (- 1 :: 'a::len word) = 2 ^ LENGTH('a) - 1"
  by (simp add: unsigned_minus_1_eq_mask mask_eq_exp_minus_1)

lemma unat_sat_add [sat_simps]:
  "unat (sat_add a (b :: 'a::len word)) = min (unat a + unat b) (2 ^ LENGTH('a) - 1)"
proof (cases "unat a + unat b < 2 ^ LENGTH('a)")
  case True
  then show ?thesis by (simp add: sat_add_def unat_word_ariths)
next
  case False
  then show ?thesis by (simp add: sat_add_def unat_minus_one_word)
qed

lemma unat_sat_sub [sat_simps]: "unat (sat_sub a b) = unat a - unat b"
  by (auto simp: sat_sub_def unat_sub word_le_nat_alt)

lemma unat_sat_mul [sat_simps]:
  "unat (sat_mul a (b :: 'a::len word)) = min (unat a * unat b) (2 ^ LENGTH('a) - 1)"
proof (cases "unat a * unat b < 2 ^ LENGTH('a)")
  case True
  then show ?thesis by (simp add: sat_mul_def unat_word_ariths)
next
  case False
  then show ?thesis by (simp add: sat_mul_def unat_minus_one_word)
qed

lemma sat_add_0 [simp]: "sat_add 0 x = x" "sat_add x 0 = x"
  using unsigned_less [of x, where ?'a = nat] by (simp_all add: sat_add_def)

lemma min_sat_assoc: "min (min (a + min m M) M + r) M = min (a + (m + r)) (M :: nat)"
  by (simp add: min_def)

lemma unat_u64_lt: "unat (x :: u64) < 2 ^ 64"
  using unsigned_less [of x, where ?'a = nat] by simp

lemma unat_u32_lt: "unat (x :: u32) < 2 ^ 32"
  using unsigned_less [of x, where ?'a = nat] by simp

lemma unat_u64_le: "unat (x :: u64) \<le> 2 ^ 64 - 1"
  using unat_u64_lt [of x] by linarith

lemma unat_u8_lt: "unat (x :: u8) < 256"
  using unsigned_less [of x, where ?'a = nat] by simp

lemma unat_of_nat_u64: "n < 2 ^ 64 \<Longrightarrow> unat (of_nat n :: u64) = n"
  by (simp add: unat_of_nat take_bit_nat_eq_self_iff)

lemma unat_of_nat_u8: "n < 256 \<Longrightarrow> unat (of_nat n :: u8) = n"
  by (simp add: unat_of_nat take_bit_nat_eq_self_iff)

text \<open>The saturating sum \<open>iter().fold(0, |s, x| s.saturating_add(x))\<close>.\<close>

definition sat_sum :: "u64 list \<Rightarrow> u64" where
  "sat_sum xs = foldl sat_add 0 xs"

lemma unat_foldl_sat_add:
  "unat (foldl sat_add (a :: u64) xs) = min (unat a + sum_list (map unat xs)) (2 ^ 64 - 1)"
proof (induction xs arbitrary: a)
  case Nil
  show ?case using unat_u64_le [of a] by simp
next
  case (Cons x xs)
  show ?case by (simp add: Cons.IH unat_sat_add min_def)
qed

lemma unat_sat_sum [sat_simps]:
  "unat (sat_sum xs) = min (sum_list (map unat xs)) (2 ^ 64 - 1)"
  by (simp add: sat_sum_def unat_foldl_sat_add)

section \<open>Results\<close>

type_synonym ('a, 'e) result = "'e + 'a"

abbreviation Ok :: "'a \<Rightarrow> 'e + 'a" where "Ok \<equiv> Inr"
abbreviation Err :: "'e \<Rightarrow> 'e + 'a" where "Err \<equiv> Inl"

definition res_bind :: "'e + 'a \<Rightarrow> ('a \<Rightarrow> 'e + 'b) \<Rightarrow> 'e + 'b" where
  "res_bind r f = (case r of Inl e \<Rightarrow> Inl e | Inr x \<Rightarrow> f x)"

definition map_err :: "('e \<Rightarrow> 'f) \<Rightarrow> 'e + 'a \<Rightarrow> 'f + 'a" where
  "map_err g r = (case r of Inl e \<Rightarrow> Inl (g e) | Inr x \<Rightarrow> Inr x)"

definition ok_or :: "'a option \<Rightarrow> 'e \<Rightarrow> 'e + 'a" where
  "ok_or x e = (case x of None \<Rightarrow> Inl e | Some y \<Rightarrow> Inr y)"

lemma res_bind_simps [simp]:
  "res_bind (Ok x) f = f x" "res_bind (Err e) f = Err e"
  by (simp_all add: res_bind_def)

lemma map_err_simps [simp]:
  "map_err g (Ok x) = Ok x" "map_err g (Err e) = Err (g e)"
  by (simp_all add: map_err_def)

lemma ok_or_simps [simp]:
  "ok_or (Some x) e = Ok x" "ok_or None e = Err e"
  by (simp_all add: ok_or_def)

lemma res_bind_Ok_iff: "res_bind r f = Ok y \<longleftrightarrow> (\<exists>x. r = Ok x \<and> f x = Ok y)"
  by (cases r) auto

lemma map_err_Ok_iff [simp]: "map_err g r = Ok x \<longleftrightarrow> r = Ok x"
  by (cases r) auto

lemma ok_or_Ok_iff [simp]: "ok_or x e = Ok y \<longleftrightarrow> x = Some y"
  by (cases x) auto

lemma not_Err_unit [simp]: "(\<forall>e. (r :: 'e + unit) \<noteq> Err e) \<longleftrightarrow> r = Ok ()"
  by (cases r) auto

section \<open>Byte encodings of the standard library\<close>

fun nat_le :: "nat \<Rightarrow> nat \<Rightarrow> bytes" where
  "nat_le 0 x = []"
| "nat_le (Suc n) x = of_nat (x mod 256) # nat_le n (x div 256)"

fun le_nat :: "bytes \<Rightarrow> nat" where
  "le_nat [] = 0"
| "le_nat (b # bs) = unat b + 256 * le_nat bs"

definition u16_to_le :: "u16 \<Rightarrow> bytes" where "u16_to_le x = nat_le 2 (unat x)"
definition u32_to_le :: "u32 \<Rightarrow> bytes" where "u32_to_le x = nat_le 4 (unat x)"
definition u64_to_le :: "u64 \<Rightarrow> bytes" where "u64_to_le x = nat_le 8 (unat x)"
definition u64_from_le :: "bytes \<Rightarrow> u64" where "u64_from_le bs = of_nat (le_nat bs)"
definition u16_to_be :: "u16 \<Rightarrow> bytes" where "u16_to_be x = rev (nat_le 2 (unat x))"
definition u32_to_be :: "u32 \<Rightarrow> bytes" where "u32_to_be x = rev (nat_le 4 (unat x))"
definition u64_to_be :: "u64 \<Rightarrow> bytes" where "u64_to_be x = rev (nat_le 8 (unat x))"
definition u16_from_be :: "bytes \<Rightarrow> u16" where "u16_from_be bs = of_nat (le_nat (rev bs))"
definition u32_from_be :: "bytes \<Rightarrow> u32" where "u32_from_be bs = of_nat (le_nat (rev bs))"
definition u64_from_be :: "bytes \<Rightarrow> u64" where "u64_from_be bs = of_nat (le_nat (rev bs))"

lemma length_nat_le [simp]: "length (nat_le n x) = n"
  by (induction n arbitrary: x) auto

lemma le_nat_nat_le: "le_nat (nat_le n x) = x mod 256 ^ n"
proof (induction n arbitrary: x)
  case 0
  show ?case by simp
next
  case (Suc n)
  have "le_nat (nat_le (Suc n) x) = x mod 256 + 256 * (x div 256 mod 256 ^ n)"
    using Suc.IH by (simp add: unat_of_nat_u8)
  also have "\<dots> = x mod (256 * 256 ^ n)"
    by (simp add: mod_mult2_eq)
  finally show ?case by simp
qed

lemma le_nat_bound: "le_nat bs < 256 ^ length bs"
proof (induction bs)
  case Nil
  show ?case by simp
next
  case (Cons b bs)
  have "unat b + 256 * le_nat bs < 256 * (le_nat bs + 1)"
    using unat_u8_lt [of b] by simp
  also have "\<dots> \<le> 256 * 256 ^ length bs"
    using Cons.IH by (intro mult_le_mono2) simp
  finally show ?case by simp
qed

lemma nat_le_le_nat: "nat_le (length bs) (le_nat bs) = bs"
proof (induction bs)
  case Nil
  show ?case by simp
next
  case (Cons b bs)
  have "(unat b + 256 * le_nat bs) mod 256 = unat b"
    and "(unat b + 256 * le_nat bs) div 256 = le_nat bs"
    using unat_u8_lt [of b] by simp_all
  then show ?case using Cons.IH by simp
qed

lemma length_int_bytes [simp]:
  "length (u16_to_le a) = 2" "length (u32_to_le b) = 4" "length (u64_to_le c) = 8"
  "length (u16_to_be a) = 2" "length (u32_to_be b) = 4" "length (u64_to_be c) = 8"
  by (simp_all add: u16_to_le_def u32_to_le_def u64_to_le_def u16_to_be_def u32_to_be_def
      u64_to_be_def)

lemma u64_le_roundtrip [codec_simps]: "u64_from_le (u64_to_le x) = x"
  using unat_u64_lt [of x] by (simp add: u64_from_le_def u64_to_le_def le_nat_nat_le)

lemma u64_be_roundtrip [codec_simps]: "u64_from_be (u64_to_be x) = x"
  using unat_u64_lt [of x] by (simp add: u64_from_be_def u64_to_be_def le_nat_nat_le)

lemma u32_be_roundtrip [codec_simps]: "u32_from_be (u32_to_be x) = x"
  using unsigned_less [of x, where ?'a = nat] by (simp add: u32_from_be_def u32_to_be_def le_nat_nat_le)

lemma u16_be_roundtrip [codec_simps]: "u16_from_be (u16_to_be x) = x"
  using unsigned_less [of x, where ?'a = nat] by (simp add: u16_from_be_def u16_to_be_def le_nat_nat_le)

lemma le_nat_append: "le_nat (xs @ ys) = le_nat xs + 256 ^ length xs * le_nat ys"
  by (induction xs) (auto simp: algebra_simps)

lemma le_nat_replicate_0 [simp]: "le_nat (replicate n 0) = 0"
  by (induction n) auto

text \<open>Big-endian keys of one length compare as the numbers they encode.\<close>

lemma be_less_iff:
  "length xs = length ys \<Longrightarrow> xs < ys \<longleftrightarrow> le_nat (rev xs) < le_nat (rev ys)"
proof (induction xs ys rule: list_induct2)
  case Nil
  show ?case by simp
next
  case (Cons x xs y ys)
  let ?P = "256 ^ length ys :: nat"
  have len: "length xs = length ys" by (rule Cons.hyps)
  have xb: "le_nat (rev xs) < ?P" using le_nat_bound [of "rev xs"] len by simp
  have yb: "le_nat (rev ys) < ?P" using le_nat_bound [of "rev ys"] by simp
  have vx: "le_nat (rev (x # xs)) = le_nat (rev xs) + ?P * unat x"
    and vy: "le_nat (rev (y # ys)) = le_nat (rev ys) + ?P * unat y"
    using len by (simp_all add: le_nat_append)
  consider "x < y" | "x = y" | "y < x" by (rule linorder_cases)
  then show ?case
  proof cases
    case 1
    then have "unat x + 1 \<le> unat y" by (simp add: word_less_nat_alt)
    then have "?P * (unat x + 1) \<le> ?P * unat y" by (rule mult_le_mono2)
    with 1 xb vx vy show ?thesis by (simp add: Cons_less_Cons algebra_simps)
  next
    case 2
    with Cons.IH vx vy show ?thesis by (simp add: Cons_less_Cons)
  next
    case 3
    then have "unat y + 1 \<le> unat x" by (simp add: word_less_nat_alt)
    then have "?P * (unat y + 1) \<le> ?P * unat x" by (rule mult_le_mono2)
    with 3 yb vx vy show ?thesis by (auto simp: Cons_less_Cons algebra_simps)
  qed
qed

section \<open>Strings\<close>

text \<open>A Rust string is its sequence of UTF-8 bytes; a \<open>char\<close> of HOL is one byte.\<close>

definition str_bytes :: "string \<Rightarrow> bytes" where
  "str_bytes s = map of_char s"

definition bytes_str :: "bytes \<Rightarrow> string" where
  "bytes_str bs = map (\<lambda>b. char_of (unat b)) bs"

lemma length_str_bytes [simp]: "length (str_bytes s) = length s"
  by (simp add: str_bytes_def)

lemma unat_of_char: "unat (of_char c :: u8) = of_char c"
proof -
  have "(of_char c :: nat) mod 256 = of_char c" by (metis char_of_char of_char_of)
  then have "(of_char c :: nat) < 256" by (metis mod_less_divisor zero_less_numeral)
  moreover have "(of_char c :: u8) = of_nat (of_char c)" by (simp add: of_nat_of_char)
  ultimately show ?thesis by (metis unat_of_nat_u8)
qed

lemma bytes_str_str_bytes [codec_simps]: "bytes_str (str_bytes s) = s"
  by (induction s) (simp_all add: bytes_str_def str_bytes_def unat_of_char)

lemma str_bytes_inject [simp]: "str_bytes s = str_bytes t \<longleftrightarrow> s = t"
  by (metis bytes_str_str_bytes)

text \<open>Decimal printing of an unsigned integer (\<open>format!\<close> of a \<open>u64\<close>).\<close>

fun show_nat :: "nat \<Rightarrow> string" where
  "show_nat n = (if n < 10 then [char_of (48 + n)]
                 else show_nat (n div 10) @ [char_of (48 + n mod 10)])"

declare show_nat.simps [simp del]

section \<open>Hash maps\<close>

type_synonym ('k, 'v) hashmap = "('k \<times> 'v) list"

abbreviation hm_ok :: "('k, 'v) hashmap \<Rightarrow> bool" where
  "hm_ok m \<equiv> distinct (map fst m)"

abbreviation hm_get :: "('k, 'v) hashmap \<Rightarrow> 'k \<Rightarrow> 'v option" where
  "hm_get m k \<equiv> map_of m k"

abbreviation hm_insert :: "'k \<Rightarrow> 'v \<Rightarrow> ('k, 'v) hashmap \<Rightarrow> ('k, 'v) hashmap" where
  "hm_insert \<equiv> AList.update"

abbreviation hm_remove :: "'k \<Rightarrow> ('k, 'v) hashmap \<Rightarrow> ('k, 'v) hashmap" where
  "hm_remove \<equiv> AList.delete"

lemma hm_get_insert [simp]: "hm_get (hm_insert k v m) = (hm_get m)(k \<mapsto> v)"
  by (rule AList.update_conv')

lemma hm_get_remove [simp]: "hm_get (hm_remove k m) = (hm_get m)(k := None)"
  by (rule AList.delete_conv')

lemma hm_ok_insert [simp]: "hm_ok m \<Longrightarrow> hm_ok (hm_insert k v m)"
  by (rule AList.distinct_update)

lemma hm_ok_remove [simp]: "hm_ok m \<Longrightarrow> hm_ok (hm_remove k m)"
  by (rule AList.distinct_delete)

lemma hm_ok_get_iff: "hm_ok m \<Longrightarrow> hm_get m k = Some v \<longleftrightarrow> (k, v) \<in> set m"
  by (rule map_of_eq_Some_iff)

text \<open>The sum of a measure over the values of a map, and how the updates change it.\<close>

definition hm_sum :: "('v \<Rightarrow> nat) \<Rightarrow> ('k, 'v) hashmap \<Rightarrow> nat" where
  "hm_sum f m = sum_list (map (f \<circ> snd) m)"

lemma hm_sum_simps [simp]:
  "hm_sum f [] = 0" "hm_sum f (p # m) = f (snd p) + hm_sum f m"
  by (simp_all add: hm_sum_def)

lemma hm_sum_insert_new: "hm_get m k = None \<Longrightarrow> hm_sum f (hm_insert k v m) = hm_sum f m + f v"
  by (induction m) auto

lemma hm_sum_insert_old:
  "hm_ok m \<Longrightarrow> hm_get m k = Some w \<Longrightarrow> hm_sum f (hm_insert k v m) + f w = hm_sum f m + f v"
  by (induction m) auto

lemma hm_sum_insert_le: "hm_sum f (hm_insert k v m) \<le> hm_sum f m + f v"
  by (induction m) auto

lemma hm_remove_absent: "hm_get m k = None \<Longrightarrow> hm_remove k m = m"
  by (induction m) auto

lemma hm_sum_remove: "hm_ok m \<Longrightarrow> hm_get m k = Some w \<Longrightarrow> hm_sum f (hm_remove k m) + f w = hm_sum f m"
proof (induction m)
  case Nil
  then show ?case by simp
next
  case (Cons p m)
  show ?case
  proof (cases "fst p = k")
    case True
    with Cons.prems(1) have "k \<notin> set (map fst m)" by auto
    then have "hm_get m k = None" by (simp only: map_of_eq_None_iff) auto
    then have "hm_remove k m = m" by (rule hm_remove_absent)
    with True Cons.prems(2) show ?thesis by (cases p) simp
  next
    case False
    with Cons show ?thesis by (cases p) auto
  qed
qed

lemma hm_sum_member: "hm_get m k = Some w \<Longrightarrow> f w \<le> hm_sum f m"
  by (induction m) (auto split: if_splits)

text \<open>\<open>*map.get(k).unwrap_or(&0)\<close>, also the value read by \<open>entry(k).or_insert(0)\<close>.\<close>

definition get_or_0 :: "('k, u64) hashmap \<Rightarrow> 'k \<Rightarrow> u64" where
  "get_or_0 m k = (case hm_get m k of None \<Rightarrow> 0 | Some v \<Rightarrow> v)"

lemma get_or_0_insert: "get_or_0 (hm_insert k v m) k' = (if k' = k then v else get_or_0 m k')"
  by (simp add: get_or_0_def)

lemma hm_sum_get_or_0: "unat (get_or_0 m k) \<le> hm_sum unat m"
  by (auto simp: get_or_0_def hm_sum_member [where f = unat] split: option.splits)

text \<open>\<open>for x in xs { *m.entry(f(x)).or_default() += g(x) }\<close>\<close>

definition hm_accumulate :: "('a \<Rightarrow> 'k) \<Rightarrow> ('a \<Rightarrow> u64) \<Rightarrow> ('k, u64) hashmap \<Rightarrow> 'a list \<Rightarrow> ('k, u64) hashmap" where
  "hm_accumulate f g m xs = foldl (\<lambda>m x. hm_insert (f x) (get_or_0 m (f x) + g x) m) m xs"

lemma hm_sum_add:
  assumes "hm_ok m"
  shows "hm_sum unat (hm_insert k v m) + unat (get_or_0 m k) = hm_sum unat m + unat v"
proof (cases "hm_get m k")
  case None
  then show ?thesis by (simp add: get_or_0_def hm_sum_insert_new)
next
  case (Some w)
  then show ?thesis using assms by (simp add: get_or_0_def hm_sum_insert_old)
qed

text \<open>Below \<open>2 ^ 64\<close> in total, every entry is the sum of its group.\<close>

lemma hm_accumulate_correct:
  assumes "hm_ok m" and "hm_sum unat m + sum_list (map (unat \<circ> g) xs) < 2 ^ 64"
  shows "hm_ok (hm_accumulate f g m xs)
    \<and> hm_sum unat (hm_accumulate f g m xs) = hm_sum unat m + sum_list (map (unat \<circ> g) xs)
    \<and> (\<forall>k. unat (get_or_0 (hm_accumulate f g m xs) k)
          = unat (get_or_0 m k) + sum_list (map (unat \<circ> g) (filter (\<lambda>x. f x = k) xs)))
    \<and> fst ` set (hm_accumulate f g m xs) = fst ` set m \<union> f ` set xs"
  using assms
proof (induction xs arbitrary: m)
  case Nil
  then show ?case by (simp add: hm_accumulate_def)
next
  case (Cons x xs)
  let ?m = "hm_insert (f x) (get_or_0 m (f x) + g x) m"
  have step: "hm_accumulate f g m (x # xs) = hm_accumulate f g ?m xs" by (simp add: hm_accumulate_def)
  have val: "unat (get_or_0 m (f x) + g x) = unat (get_or_0 m (f x)) + unat (g x)"
    using Cons.prems(2) hm_sum_get_or_0 [of m "f x"] by (simp add: unat_word_ariths)
  have sum: "hm_sum unat ?m = hm_sum unat m + unat (g x)"
    using hm_sum_add [OF Cons.prems(1), of "f x" "get_or_0 m (f x) + g x"] val by simp
  have "hm_ok ?m" "hm_sum unat ?m + sum_list (map (unat \<circ> g) xs) < 2 ^ 64"
    using Cons.prems sum by (simp_all add: comp_def)
  note IH = Cons.IH [OF this]
  have "fst ` set ?m = insert (f x) (fst ` set m)" by (simp add: dom_update)
  with IH sum val show ?case unfolding step by (auto simp: get_or_0_insert)
qed

section \<open>Lists\<close>

lemma take_append_len [simp]: "length xs = n \<Longrightarrow> take n (xs @ ys) = xs"
  by simp

lemma drop_append_len [simp]: "length xs = n \<Longrightarrow> drop n (xs @ ys) = ys"
  by simp

lemma sum_list_diff:
  fixes f g :: "'a \<Rightarrow> nat"
  assumes "\<forall>x \<in> set xs. g x \<le> f x"
  shows "sum_list (map (\<lambda>x. f x - g x) xs) + sum_list (map g xs) = sum_list (map f xs)"
  using assms
proof (induction xs)
  case Nil
  show ?case by simp
next
  case (Cons a xs)
  then have "g a \<le> f a" by simp
  with Cons show ?case by simp
qed

end
