(* ===== verification/Chain_Params.thy ===== *)
theory Chain_Params
  imports Txm_Prelude
begin

text \<open>
  Consensus parameters and the emission schedule: \<open>crates/tensorium-core/src/chain.rs\<close> and
  \<open>crates/tensorium-core/src/emission.rs\<close>. The networks are the constants of the source; the
  closed-form supply loop \<open>emitted_supply_until_height\<close> is proved equal to the sum of the block
  rewards it stands for, and the mainnet supply cap follows.
\<close>

section \<open>Parameters\<close>

definition COIN :: u64 where "COIN = 100000000"
definition MAX_HALVING_ERAS :: u32 where "MAX_HALVING_ERAS = 10"
definition TOTAL_SUPPLY_COINS :: u64 where "TOTAL_SUPPLY_COINS = 33000000"
definition TOTAL_SUPPLY_ATOMS :: u64 where "TOTAL_SUPPLY_ATOMS = TOTAL_SUPPLY_COINS * COIN"
definition MINING_ALLOCATION_COINS :: u64 where "MINING_ALLOCATION_COINS = TOTAL_SUPPLY_COINS"
definition MINING_ALLOCATION_ATOMS :: u64 where
  "MINING_ALLOCATION_ATOMS = MINING_ALLOCATION_COINS * COIN"

datatype ChainNetwork = Testnet | Mainnet

record ConsensusParams =
  network :: ChainNetwork
  params_chain_id :: string
  target_block_seconds :: u64
  halving_interval_blocks :: u64
  max_halving_eras :: u32
  total_supply_atoms :: u64
  founder_allocation_atoms :: u64
  mining_allocation_atoms :: u64
  genesis_allocations :: "(string \<times> u64) list"
  founder_address :: string
  initial_reward_atoms :: u64
  initial_leading_zero_bits :: u8
  min_leading_zero_bits :: u8
  max_leading_zero_bits :: u8
  difficulty_adjustment_window :: u64
  difficulty_retarget_activation_height :: u64
  coinbase_maturity_blocks :: u64
  max_future_block_time_seconds :: u64
  max_block_bytes :: u64

definition blocks_per_year :: "u64 \<Rightarrow> u64" where
  "blocks_per_year t = 365 * 24 * 60 * 60 div t"

definition testnet :: ConsensusParams where
  "testnet = \<lparr>
     network = Testnet,
     params_chain_id = ''tensorium-testnet-0'',
     target_block_seconds = 60,
     halving_interval_blocks = 1051200,
     max_halving_eras = MAX_HALVING_ERAS,
     total_supply_atoms = 33000000 * COIN,
     founder_allocation_atoms = 1000000 * COIN,
     mining_allocation_atoms = 32000000 * COIN,
     genesis_allocations = [],
     founder_address = '''',
     initial_reward_atoms = 1523557865,
     initial_leading_zero_bits = 20,
     min_leading_zero_bits = 8,
     max_leading_zero_bits = 36,
     difficulty_adjustment_window = 60,
     difficulty_retarget_activation_height = - 1,
     coinbase_maturity_blocks = 10,
     max_future_block_time_seconds = 2 * 60 * 60,
     max_block_bytes = 1000000 \<rparr>"

definition mainnet :: ConsensusParams where
  "mainnet = \<lparr>
     network = Mainnet,
     params_chain_id = ''tensorium-mainnet'',
     target_block_seconds = 60,
     halving_interval_blocks = 2102400,
     max_halving_eras = MAX_HALVING_ERAS,
     total_supply_atoms = TOTAL_SUPPLY_ATOMS,
     founder_allocation_atoms = 0,
     mining_allocation_atoms = MINING_ALLOCATION_ATOMS,
     genesis_allocations = [],
     founder_address = '''',
     initial_reward_atoms = 785584523,
     initial_leading_zero_bits = 42,
     min_leading_zero_bits = 34,
     max_leading_zero_bits = 58,
     difficulty_adjustment_window = 60,
     difficulty_retarget_activation_height = 2,
     coinbase_maturity_blocks = 10,
     max_future_block_time_seconds = 2 * 60 * 60,
     max_block_bytes = 1000000 \<rparr>"

definition TESTNET :: ConsensusParams where "TESTNET = testnet"
definition MAINNET :: ConsensusParams where "MAINNET = mainnet"

definition TEST_PARAMS :: ConsensusParams where
  "TEST_PARAMS = testnet\<lparr>
     network := Testnet,
     params_chain_id := ''tensorium-testnet-0'',
     initial_leading_zero_bits := 8,
     min_leading_zero_bits := 4,
     max_leading_zero_bits := 16,
     founder_address := '''',
     genesis_allocations := [] \<rparr>"

lemmas mainnet_defs = MAINNET_def mainnet_def MAX_HALVING_ERAS_def TOTAL_SUPPLY_ATOMS_def
  TOTAL_SUPPLY_COINS_def MINING_ALLOCATION_ATOMS_def MINING_ALLOCATION_COINS_def COIN_def

lemmas testnet_defs = TESTNET_def TEST_PARAMS_def testnet_def MAX_HALVING_ERAS_def COIN_def

section \<open>Emission\<close>

definition emission_era :: "ConsensusParams \<Rightarrow> u64 \<Rightarrow> u32" where
  "emission_era p height = ucast (height div halving_interval_blocks p)"

definition reward_at_height :: "ConsensusParams \<Rightarrow> u64 \<Rightarrow> u64" where
  "reward_at_height p height =
     (let era = emission_era p height in
      if max_halving_eras p \<le> era then 0
      else drop_bit (unat era) (initial_reward_atoms p))"

fun emitted_loop :: "ConsensusParams \<Rightarrow> nat list \<Rightarrow> u64 \<Rightarrow> u64 \<Rightarrow> u64" where
  "emitted_loop p [] remaining emitted = emitted"
| "emitted_loop p (era # eras) remaining emitted =
     (if remaining = 0 then emitted
      else
        let blocks = min remaining (halving_interval_blocks p);
            reward = drop_bit era (initial_reward_atoms p)
        in emitted_loop p eras (remaining - blocks) (sat_add emitted (sat_mul blocks reward)))"

definition emitted_supply_until_height :: "ConsensusParams \<Rightarrow> u64 \<Rightarrow> u64" where
  "emitted_supply_until_height p exclusive_height =
     min (emitted_loop p [0..<unat (max_halving_eras p)] exclusive_height 0)
         (mining_allocation_atoms p)"

text \<open>The reward of a block in era \<open>e\<close>, as a natural number.\<close>

definition era_reward :: "ConsensusParams \<Rightarrow> nat \<Rightarrow> nat" where
  "era_reward p e = (if e < unat (max_halving_eras p) then unat (initial_reward_atoms p) div 2 ^ e else 0)"

lemma unat_drop_bit: "unat (drop_bit n (w :: 'a::len word)) = unat w div 2 ^ n"
  by (metis drop_bit_eq_div drop_bit_take_bit take_bit_length_eq unsigned_drop_bit_eq
      unsigned_take_bit_eq)

lemma unat_reward_at_height:
  assumes "unat h div unat (halving_interval_blocks p) < 2 ^ 32"
  shows "unat (reward_at_height p h) = era_reward p (unat h div unat (halving_interval_blocks p))"
proof -
  have "unat (emission_era p h) = unat h div unat (halving_interval_blocks p)"
    using assms by (simp add: emission_era_def unsigned_ucast_eq unat_div take_bit_nat_eq_self_iff)
  then show ?thesis
    by (simp add: reward_at_height_def Let_def era_reward_def word_le_nat_alt unat_drop_bit)
qed

text \<open>Splitting the first era off a sum of rewards.\<close>

lemma sum_lessThan_add:
  fixes f :: "nat \<Rightarrow> nat"
  shows "(\<Sum>h<a + b. f h) = (\<Sum>h<a. f h) + (\<Sum>h<b. f (a + h))"
  by (induction b) auto

lemma sum_era_step:
  fixes g :: "nat \<Rightarrow> nat"
  assumes "0 < I"
  shows "(\<Sum>h<r. g (h div I)) = min r I * g 0 + (\<Sum>h<r - min r I. g (Suc (h div I)))"
proof (cases "r \<le> I")
  case True
  then have "(\<Sum>h<r. g (h div I)) = (\<Sum>h<r. g 0)"
    by (intro sum.cong) auto
  with True show ?thesis by simp
next
  case False
  then have r: "r = I + (r - I)" by simp
  have "(\<Sum>h<r. g (h div I)) = (\<Sum>h<I. g (h div I)) + (\<Sum>h<r - I. g ((I + h) div I))"
    by (subst r) (rule sum_lessThan_add)
  also have "(\<Sum>h<I. g (h div I)) = I * g 0" by simp
  also have "(\<Sum>h<r - I. g ((I + h) div I)) = (\<Sum>h<r - I. g (Suc (h div I)))"
    using assms by (intro sum.cong) (auto simp: div_add_self1)
  finally show ?thesis using False by simp
qed

lemma unat_emitted_loop:
  assumes "halving_interval_blocks p \<noteq> 0" and "e \<le> unat (max_halving_eras p)"
  shows "unat (emitted_loop p [e..<unat (max_halving_eras p)] r acc) =
    min (unat acc + (\<Sum>h<unat r. era_reward p (e + h div unat (halving_interval_blocks p))))
        (2 ^ 64 - 1)"
  using assms(2)
proof (induction "unat (max_halving_eras p) - e" arbitrary: e r acc)
  case 0
  then have "e = unat (max_halving_eras p)" by simp
  then show ?case using unat_u64_le [of acc] by (simp add: era_reward_def)
next
  case (Suc k)
  let ?E = "unat (max_halving_eras p)"
  let ?I = "unat (halving_interval_blocks p)"
  from Suc.hyps(2) have e: "e < ?E" by simp
  have I: "0 < ?I" using assms(1) by (simp add: unat_gt_0)
  show ?case
  proof (cases "r = 0")
    case True
    with e show ?thesis using unat_u64_le [of acc] by (simp add: upt_conv_Cons)
  next
    case False
    let ?b = "min r (halving_interval_blocks p)"
    let ?R = "drop_bit e (initial_reward_atoms p)"
    let ?rest = "\<Sum>h<unat r - min (unat r) ?I. era_reward p (Suc e + h div ?I)"
    have b: "unat ?b = min (unat r) ?I" by (simp add: min_def word_le_nat_alt)
    have R: "unat ?R = era_reward p e" using e by (simp add: era_reward_def unat_drop_bit)
    have rb: "unat (r - ?b) = unat r - min (unat r) ?I"
      by (simp add: unat_sub b)
    have split: "(\<Sum>h<unat r. era_reward p (e + h div ?I)) = min (unat r) ?I * era_reward p e + ?rest"
      using sum_era_step [OF I, where r = "unat r" and g = "\<lambda>i. era_reward p (e + i)"] by simp
    have "unat (emitted_loop p [e..<?E] r acc) =
        unat (emitted_loop p [Suc e..<?E] (r - ?b) (sat_add acc (sat_mul ?b ?R)))"
      using False e by (simp add: upt_conv_Cons Let_def)
    also have "\<dots> = min (unat (sat_add acc (sat_mul ?b ?R)) + ?rest) (2 ^ 64 - 1)"
      using Suc.hyps(1) [of "Suc e"] Suc.hyps(2) e rb by simp
    also have "\<dots> = min (unat acc + (min (unat r) ?I * era_reward p e + ?rest)) (2 ^ 64 - 1)"
      by (simp add: unat_sat_add unat_sat_mul b R del: of_nat_numeral) (rule min_sat_assoc)
    finally show ?thesis by (simp only: split)
  qed
qed

text \<open>The sum of the rewards of all blocks below a height, and its bound by the eras.\<close>

definition reward_sum :: "ConsensusParams \<Rightarrow> nat \<Rightarrow> nat" where
  "reward_sum p n = (\<Sum>h<n. unat (reward_at_height p (of_nat h)))"

lemma reward_sum_Suc: "reward_sum p (Suc n) = reward_sum p n + unat (reward_at_height p (of_nat n))"
  by (simp add: reward_sum_def)

lemma reward_sum_mono: "n \<le> m \<Longrightarrow> reward_sum p n \<le> reward_sum p m"
  unfolding reward_sum_def by (intro sum_mono2) auto

lemma reward_sum_eras:
  assumes "n \<le> 2 ^ 64" and "n div unat (halving_interval_blocks p) < 2 ^ 32"
  shows "reward_sum p n = (\<Sum>h<n. era_reward p (h div unat (halving_interval_blocks p)))"
  unfolding reward_sum_def
proof (rule sum.cong [OF refl])
  fix h assume "h \<in> {..<n}"
  then have h: "h < n" by simp
  then have u: "unat (of_nat h :: u64) = h" using assms(1) by (simp add: unat_of_nat_u64)
  have "h div unat (halving_interval_blocks p) \<le> n div unat (halving_interval_blocks p)"
    using h by (simp add: div_le_mono)
  with assms(2) have "h div unat (halving_interval_blocks p) < 2 ^ 32" by linarith
  then show "unat (reward_at_height p (of_nat h)) = era_reward p (h div unat (halving_interval_blocks p))"
    using unat_reward_at_height [of "of_nat h" p] u by simp
qed

lemma sum_era_bound:
  fixes g :: "nat \<Rightarrow> nat"
  assumes "0 < I" and "\<And>e. E \<le> e \<Longrightarrow> g e = 0"
  shows "(\<Sum>h<n. g (h div I)) \<le> I * (\<Sum>e<E. g e)"
  using assms(2)
proof (induction E arbitrary: g n)
  case 0
  then show ?case by simp
next
  case (Suc E)
  have "(\<Sum>h<n. g (h div I)) = min n I * g 0 + (\<Sum>h<n - min n I. g (Suc (h div I)))"
    using assms(1) by (rule sum_era_step)
  also have "\<dots> \<le> I * g 0 + I * (\<Sum>e<E. g (Suc e))"
    using Suc.IH [of "\<lambda>e. g (Suc e)"] Suc.prems by (intro add_mono mult_le_mono1) auto
  also have "\<dots> = I * (\<Sum>e<Suc E. g e)"
    by (simp only: sum.lessThan_Suc_shift distrib_left)
  finally show ?case .
qed

text \<open>
  The closed-form supply loop \<open>emitted_supply_until_height\<close> is exactly the sum of the
  rewards \<open>reward_at_height\<close> grants to the blocks below the height, cut off at the width of a
  \<open>u64\<close> and at the mining allocation. The height must lie before the era number leaves a \<open>u32\<close>
  (\<open>emission_era\<close> truncates with \<open>as u32\<close>).
\<close>

theorem emitted_supply_is_reward_sum:
  assumes "halving_interval_blocks p \<noteq> 0"
    and "unat n div unat (halving_interval_blocks p) < 2 ^ 32"
  shows "unat (emitted_supply_until_height p n) =
    min (min (reward_sum p (unat n)) (2 ^ 64 - 1)) (unat (mining_allocation_atoms p))"
proof -
  have "reward_sum p (unat n) = (\<Sum>h<unat n. era_reward p (h div unat (halving_interval_blocks p)))"
    using assms(2) unat_u64_lt [of n] by (intro reward_sum_eras) auto
  then have "unat (emitted_loop p [0..<unat (max_halving_eras p)] n 0) =
      min (reward_sum p (unat n)) (2 ^ 64 - 1)"
    using unat_emitted_loop [OF assms(1), of 0 n 0] by simp
  then show ?thesis
    by (simp add: emitted_supply_until_height_def min_def word_le_nat_alt)
qed

theorem emitted_supply_is_reward_sum_witness:
  "unat (emitted_supply_until_height MAINNET 5) =
    min (min (reward_sum MAINNET 5) (2 ^ 64 - 1)) (unat (mining_allocation_atoms MAINNET))"
  using emitted_supply_is_reward_sum [of MAINNET 5] by (simp add: mainnet_defs)

lemma mainnet_reward_bound:
  assumes "n div 2102400 < 2 ^ 32" and "n \<le> 2 ^ 64"
  shows "reward_sum MAINNET n \<le> 3299999986972800"
proof -
  have I: "unat (halving_interval_blocks MAINNET) = 2102400" by (simp add: mainnet_defs)
  have "reward_sum MAINNET n = (\<Sum>h<n. era_reward MAINNET (h div 2102400))"
    using reward_sum_eras [of n MAINNET] assms I by simp
  also have "\<dots> \<le> 2102400 * (\<Sum>e<10. era_reward MAINNET e)"
    by (rule sum_era_bound) (auto simp: era_reward_def mainnet_defs)
  also have "\<dots> = 3299999986972800"
    by (simp add: era_reward_def mainnet_defs lessThan_nat_numeral lessThan_Suc)
  finally show ?thesis .
qed

text \<open>
  The mainnet supply cap: however many blocks are mined (up to the height where the era
  number leaves a \<open>u32\<close>), the rewards granted add up to at most \<open>3_299_999_986_972_800\<close> atoms,
  which is below the mining allocation of 33 million coins, and the cap is reached after ten eras.
\<close>

theorem mainnet_supply_cap:
  assumes "n div 2102400 < 2 ^ 32" and "n \<le> 2 ^ 64"
  shows "reward_sum MAINNET n \<le> 3299999986972800 \<and>
    3299999986972800 \<le> unat (mining_allocation_atoms MAINNET) \<and>
    emitted_supply_until_height MAINNET (2102400 * 10) = 3299999986972800"
proof (intro conjI)
  show "reward_sum MAINNET n \<le> 3299999986972800" using assms by (rule mainnet_reward_bound)
  show "3299999986972800 \<le> unat (mining_allocation_atoms MAINNET)"
    by (simp add: mainnet_defs)
  show "emitted_supply_until_height MAINNET (2102400 * 10) = 3299999986972800"
    by (simp add: emitted_supply_until_height_def mainnet_defs upt_rec sat_add_def sat_mul_def)
qed

theorem mainnet_supply_cap_witness:
  "reward_sum MAINNET 1000 \<le> 3299999986972800 \<and>
    3299999986972800 \<le> unat (mining_allocation_atoms MAINNET) \<and>
    emitted_supply_until_height MAINNET (2102400 * 10) = 3299999986972800"
  using mainnet_supply_cap [of 1000] by simp

end
