(* ===== verification/Ext_Crates.thy ===== *)
theory Ext_Crates
  imports Txm_Prelude
begin

text \<open>
  The third-party crates the program calls, as one record of functions that every definition
  using them takes as its argument: \<open>sha2\<close> (\<open>Sha256::digest\<close>), \<open>blake2\<close> (\<open>Blake2b256\<close>), \<open>k256\<close>
  (key and signature parsing, ECDSA verification and signing), \<open>bech32\<close> and \<open>hex\<close>. Parsed keys and
  signatures are represented by byte strings. What the code relies on is stated as the named
  predicates below; \<open>demo_ext\<close> is a concrete record that satisfies them, used by the witnesses.
  The theory also holds \<open>Hash256\<close> (\<open>crates/tensorium-core/src/hash.rs\<close>).
\<close>

record ext =
  sha256 :: "bytes \<Rightarrow> bytes"
  blake2b256 :: "bytes \<Rightarrow> bytes"
  vk_from_sec1 :: "bytes \<Rightarrow> bytes option"
  sig_from_der :: "bytes \<Rightarrow> bytes option"
  vk_verify :: "bytes \<Rightarrow> bytes \<Rightarrow> bytes \<Rightarrow> bool"
  sk_from_slice :: "bytes \<Rightarrow> bytes option"
  sk_sign_der :: "bytes \<Rightarrow> bytes \<Rightarrow> bytes"
  sk_public :: "bytes \<Rightarrow> bytes"
  bech32_encode :: "string \<Rightarrow> nat list \<Rightarrow> string option"
  bech32_decode :: "string \<Rightarrow> (string \<times> nat list) option"
  to_base32 :: "bytes \<Rightarrow> nat list"
  from_base32 :: "nat list \<Rightarrow> bytes option"
  hex_encode :: "bytes \<Rightarrow> string"
  hex_decode :: "string \<Rightarrow> bytes option"

section \<open>What the code relies on\<close>

text \<open>Both digests are 32 bytes long.\<close>

definition digest_len :: "ext \<Rightarrow> bool" where
  "digest_len X \<longleftrightarrow> (\<forall>bs. length (sha256 X bs) = 32) \<and> (\<forall>bs. length (blake2b256 X bs) = 32)"

text \<open>Base-32 packing is invertible; encoding under one of the two prefixes of the program
  succeeds and decodes to the prefix and the data.\<close>

definition bech32_laws :: "ext \<Rightarrow> bool" where
  "bech32_laws X \<longleftrightarrow>
     (\<forall>bs. from_base32 X (to_base32 X bs) = Some bs) \<and>
     (\<forall>hrp \<in> {''txm'', ''txms''}. \<forall>bs. \<exists>s.
        bech32_encode X hrp (to_base32 X bs) = Some s \<and>
        bech32_decode X s = Some (hrp, to_base32 X bs))"

text \<open>Hexadecimal encoding: two lower-case digits per byte, and decoding inverts it.\<close>

definition hex_digit :: "nat \<Rightarrow> char" where
  "hex_digit n = char_of (if n < 10 then 48 + n else 87 + n)"

definition hex_byte :: "u8 \<Rightarrow> string" where
  "hex_byte b = [hex_digit (unat b div 16), hex_digit (unat b mod 16)]"

definition hex_string :: "bytes \<Rightarrow> string" where
  "hex_string bs = concat (map hex_byte bs)"

definition hex_laws :: "ext \<Rightarrow> bool" where
  "hex_laws X \<longleftrightarrow>
     (\<forall>bs. hex_encode X bs = hex_string bs) \<and> (\<forall>bs. hex_decode X (hex_string bs) = Some bs)"

section \<open>A concrete instance\<close>

definition demo_digest :: "bytes \<Rightarrow> bytes" where
  "demo_digest bs = nat_le 32 (foldl (\<lambda>a b. (a * 257 + unat b + 1) mod 2 ^ 64) 0 bs)"

definition demo_decode :: "string \<Rightarrow> (string \<times> nat list) option" where
  "demo_decode s =
     (let hrp = takeWhile (\<lambda>c. c \<noteq> CHR ''1'') s; rest = dropWhile (\<lambda>c. c \<noteq> CHR ''1'') s in
      if rest = [] then None else Some (hrp, map of_char (tl rest)))"

definition hex_val :: "char \<Rightarrow> nat" where
  "hex_val c = (let n = of_char c in if n < 58 then n - 48 else n - 87)"

fun demo_unhex :: "string \<Rightarrow> bytes" where
  "demo_unhex (a # b # s) = of_nat (16 * hex_val a + hex_val b) # demo_unhex s"
| "demo_unhex _ = []"

definition demo_ext :: ext where
  "demo_ext = \<lparr>
     sha256 = demo_digest,
     blake2b256 = demo_digest,
     vk_from_sec1 = Some,
     sig_from_der = (\<lambda>s. if s = [] then None else Some s),
     vk_verify = (\<lambda>vk msg sg. sg = vk @ take 4 msg),
     sk_from_slice = Some,
     sk_sign_der = (\<lambda>sk msg. sk @ take 4 msg),
     sk_public = (\<lambda>sk. sk),
     bech32_encode = (\<lambda>hrp d. Some (hrp @ [CHR ''1''] @ map char_of d)),
     bech32_decode = demo_decode,
     to_base32 = map unat,
     from_base32 = (\<lambda>d. Some (map of_nat d)),
     hex_encode = hex_string,
     hex_decode = (\<lambda>s. Some (demo_unhex s)) \<rparr>"

lemma demo_digest_len [simp]: "digest_len demo_ext"
  by (simp add: digest_len_def demo_ext_def demo_digest_def)

lemma of_char_char_of_unat: "of_char (char_of (unat (b :: u8)) :: char) = unat b"
  using unat_u8_lt [of b] by simp

lemma demo_bech32_laws [simp]: "bech32_laws demo_ext"
proof -
  have "from_base32 demo_ext (to_base32 demo_ext bs) = Some bs" for bs
    by (simp add: demo_ext_def comp_def)
  moreover have "demo_decode (hrp @ CHR ''1'' # map char_of (map unat (bs :: bytes)))
      = Some (hrp, map unat bs)" if "hrp \<in> {''txm'', ''txms''}" for hrp bs
    using that by (auto simp: demo_decode_def Let_def unat_u8_lt comp_def)
  ultimately show ?thesis
    by (auto simp: bech32_laws_def demo_ext_def)
qed

lemma hex_val_digit: "n < 16 \<Longrightarrow> hex_val (hex_digit n) = n"
  by (simp add: hex_val_def hex_digit_def Let_def)

lemma demo_unhex_string: "demo_unhex (hex_string bs) = bs"
proof (induction bs)
  case Nil
  show ?case by (simp add: hex_string_def)
next
  case (Cons b bs)
  have "16 * (unat b div 16) + unat b mod 16 = unat b" by simp
  moreover have "unat b div 16 < 16" using unat_u8_lt [of b] by linarith
  ultimately show ?case using Cons.IH
    by (simp add: hex_string_def hex_byte_def hex_val_digit)
qed

lemma demo_hex_laws [simp]: "hex_laws demo_ext"
  by (simp add: hex_laws_def demo_ext_def demo_unhex_string)

lemma hex_string_inject: "hex_string a = hex_string b \<longleftrightarrow> a = b"
  by (metis demo_unhex_string)

lemma hex_encode_inject: "hex_laws X \<Longrightarrow> hex_encode X a = hex_encode X b \<longleftrightarrow> a = b"
  by (simp add: hex_laws_def hex_string_inject)

section \<open>Hash256\<close>

datatype Hash256 = Hash256 (hash_bytes: bytes)

definition hash_ok :: "Hash256 \<Rightarrow> bool" where
  "hash_ok h \<longleftrightarrow> length (hash_bytes h) = 32"

definition ZERO :: Hash256 where "ZERO = Hash256 (replicate 32 0)"

definition double_sha256 :: "ext \<Rightarrow> bytes \<Rightarrow> Hash256" where
  "double_sha256 X bs = (let first = sha256 X bs; second = sha256 X first in Hash256 second)"

text \<open>\<open>u8::leading_zeros\<close>.\<close>

definition u8_leading_zeros :: "u8 \<Rightarrow> nat" where
  "u8_leading_zeros b =
     (let n = unat b in
      if 128 \<le> n then 0 else if 64 \<le> n then 1 else if 32 \<le> n then 2 else if 16 \<le> n then 3
      else if 8 \<le> n then 4 else if 4 \<le> n then 5 else if 2 \<le> n then 6 else if 1 \<le> n then 7 else 8)"

fun leading_zero_bits_loop :: "bytes \<Rightarrow> nat \<Rightarrow> nat" where
  "leading_zero_bits_loop [] bits = bits"
| "leading_zero_bits_loop (byte # rest) bits =
     (if byte = 0 then leading_zero_bits_loop rest (bits + 8)
      else bits + u8_leading_zeros byte)"

text \<open>The source counts in a \<open>u32\<close>; 32 bytes give at most 256 bits, so a natural number is exact.\<close>

definition hash_leading_zero_bits :: "Hash256 \<Rightarrow> nat" where
  "hash_leading_zero_bits h = leading_zero_bits_loop (hash_bytes h) 0"

definition to_hex :: "ext \<Rightarrow> Hash256 \<Rightarrow> string" where
  "to_hex X h = hex_encode X (hash_bytes h)"

lemma double_sha256_ok: "digest_len X \<Longrightarrow> hash_ok (double_sha256 X bs)"
  by (simp add: digest_len_def hash_ok_def double_sha256_def)

lemma ZERO_ok [simp]: "hash_ok ZERO"
  by (simp add: hash_ok_def ZERO_def)

lemma to_hex_inject: "hex_laws X \<Longrightarrow> to_hex X a = to_hex X b \<longleftrightarrow> a = b"
  by (cases a; cases b) (simp add: to_hex_def hex_encode_inject)

text \<open>A non-zero byte with \<open>z\<close> leading zeros is below \<open>2 ^ (8 - z)\<close> and at least half of that.\<close>

lemma u8_leading_zeros_bounds:
  assumes "b \<noteq> 0"
  shows "u8_leading_zeros b < 8 \<and> 2 ^ (7 - u8_leading_zeros b) \<le> unat b
    \<and> unat b < 2 ^ (8 - u8_leading_zeros b)"
proof -
  have "unat b < 256" "unat b \<noteq> 0" using assms unat_u8_lt [of b] by (simp_all add: unat_eq_zero)
  then show ?thesis by (simp add: u8_leading_zeros_def Let_def)
qed

end
