(* ===== verification/Script_Standard.thy ===== *)
theory Script_Standard
  imports Ext_Crates
begin

text \<open>
  Opcodes and script templates: \<open>crates/tensorium-core/src/script/mod.rs\<close> and
  \<open>crates/tensorium-core/src/script/standard.rs\<close>. A builder whose source asserts its argument
  returns an option, \<open>None\<close> being the assertion's panic. A parser that indexes its argument
  returns an \<open>outcome\<close> where an index can be out of range.
\<close>

section \<open>Opcodes, limits and errors\<close>

definition OP_0 :: u8 where "OP_0 = 0x00"
definition OP_DUP :: u8 where "OP_DUP = 0x76"
definition OP_DROP :: u8 where "OP_DROP = 0x75"
definition OP_2DROP :: u8 where "OP_2DROP = 0x6f"
definition OP_SWAP :: u8 where "OP_SWAP = 0x7c"
definition OP_SHA256 :: u8 where "OP_SHA256 = 0xa8"
definition OP_HASH160 :: u8 where "OP_HASH160 = 0xa9"
definition OP_CHECKSIG :: u8 where "OP_CHECKSIG = 0xac"
definition OP_CHECKMULTISIG :: u8 where "OP_CHECKMULTISIG = 0xae"
definition OP_CHECKMULTISIGVERIFY :: u8 where "OP_CHECKMULTISIGVERIFY = 0xaf"
definition OP_1 :: u8 where "OP_1 = 0x51"
definition OP_16 :: u8 where "OP_16 = 0x60"
definition OP_EQUAL :: u8 where "OP_EQUAL = 0x87"
definition OP_EQUALVERIFY :: u8 where "OP_EQUALVERIFY = 0x88"
definition OP_VERIFY :: u8 where "OP_VERIFY = 0x69"
definition OP_IF :: u8 where "OP_IF = 0x63"
definition OP_ELSE :: u8 where "OP_ELSE = 0x67"
definition OP_ENDIF :: u8 where "OP_ENDIF = 0x68"
definition OP_RETURN :: u8 where "OP_RETURN = 0x6a"
definition OP_CHECKLOCKTIMEVERIFY :: u8 where "OP_CHECKLOCKTIMEVERIFY = 0xb1"
definition MAX_STACK_DEPTH :: nat where "MAX_STACK_DEPTH = 100"
definition MAX_SCRIPT_SIZE :: nat where "MAX_SCRIPT_SIZE = 10000"
definition MAX_ELEMENT_SIZE :: nat where "MAX_ELEMENT_SIZE = 520"

lemmas opcode_defs = OP_0_def OP_DUP_def OP_DROP_def OP_2DROP_def OP_SWAP_def OP_SHA256_def
  OP_HASH160_def OP_CHECKSIG_def OP_CHECKMULTISIG_def OP_CHECKMULTISIGVERIFY_def OP_1_def OP_16_def
  OP_EQUAL_def OP_EQUALVERIFY_def OP_VERIFY_def OP_IF_def OP_ELSE_def OP_ENDIF_def OP_RETURN_def
  OP_CHECKLOCKTIMEVERIFY_def

lemmas limit_defs = MAX_STACK_DEPTH_def MAX_SCRIPT_SIZE_def MAX_ELEMENT_SIZE_def

datatype ScriptError =
    StackOverflow
  | StackUnderflow
  | ScriptTooLarge
  | ElementTooLarge
  | InvalidOpcode u8
  | InvalidSignature
  | InvalidKey
  | InvalidAddress
  | CheckSigFailed
  | VerifyFailed
  | UnexpectedEndOfScript
  | ScriptInSigContainsChecksig
  | LockTimeNotMet
  | P2shHashMismatch

definition ADDRESS_HRP :: string where "ADDRESS_HRP = ''txm''"
definition P2SH_HRP :: string where "P2SH_HRP = ''txms''"

section \<open>Pay to public key hash\<close>

definition p2pkh_script :: "bytes \<Rightarrow> bytes option" where
  "p2pkh_script hash20 =
     (if length hash20 = 20
      then Some ([OP_DUP, OP_HASH160, 0x14] @ hash20 @ [OP_EQUALVERIFY, OP_CHECKSIG])
      else None)"

definition p2pkh_from_address :: "ext \<Rightarrow> string \<Rightarrow> (bytes, ScriptError) result" where
  "p2pkh_from_address X addr =
     (case bech32_decode X addr of
        None \<Rightarrow> Err InvalidAddress
      | Some (hrp, data) \<Rightarrow>
          if hrp \<noteq> ADDRESS_HRP then Err InvalidAddress
          else case from_base32 X data of
                 None \<Rightarrow> Err InvalidAddress
               | Some hash20 \<Rightarrow>
                   if length hash20 \<noteq> 20 then Err InvalidAddress
                   else Ok (the (p2pkh_script hash20)))"

definition p2pkh_from_pubkey :: "ext \<Rightarrow> bytes \<Rightarrow> bytes option" where
  "p2pkh_from_pubkey X pubkey_bytes = p2pkh_script (take 20 (sha256 X pubkey_bytes))"

text \<open>\<open>s.push(x.len() as u8); s.extend_from_slice(x)\<close>: one length byte, then the data.\<close>

definition push_data :: "bytes \<Rightarrow> bytes" where
  "push_data d = of_nat (length d) # d"

definition p2pkh_script_sig :: "bytes \<Rightarrow> bytes \<Rightarrow> bytes" where
  "p2pkh_script_sig der_sig pubkey = push_data der_sig @ push_data pubkey"

section \<open>Pay to script hash\<close>

definition p2sh_script :: "bytes \<Rightarrow> bytes option" where
  "p2sh_script hash20 =
     (if length hash20 = 20 then Some ([OP_HASH160, 0x14] @ hash20 @ [OP_EQUAL]) else None)"

definition p2sh_script_from_redeem :: "ext \<Rightarrow> bytes \<Rightarrow> bytes option" where
  "p2sh_script_from_redeem X redeem_script = p2sh_script (take 20 (sha256 X redeem_script))"

definition p2sh_address_from_hash :: "ext \<Rightarrow> bytes \<Rightarrow> string option" where
  "p2sh_address_from_hash X hash20 = bech32_encode X P2SH_HRP (to_base32 X hash20)"

definition p2sh_address_from_redeem :: "ext \<Rightarrow> bytes \<Rightarrow> string option" where
  "p2sh_address_from_redeem X redeem_script =
     p2sh_address_from_hash X (take 20 (sha256 X redeem_script))"

definition p2sh_hash_from_address :: "ext \<Rightarrow> string \<Rightarrow> (bytes, ScriptError) result" where
  "p2sh_hash_from_address X addr =
     (case bech32_decode X addr of
        None \<Rightarrow> Err InvalidAddress
      | Some (hrp, data) \<Rightarrow>
          if hrp \<noteq> P2SH_HRP then Err InvalidAddress
          else case from_base32 X data of
                 None \<Rightarrow> Err InvalidAddress
               | Some bs \<Rightarrow> if length bs \<noteq> 20 then Err InvalidAddress else Ok bs)"

definition extract_p2sh_hash :: "bytes \<Rightarrow> bytes option" where
  "extract_p2sh_hash spk =
     (if length spk \<noteq> 23 \<or> spk ! 0 \<noteq> OP_HASH160 \<or> spk ! 1 \<noteq> 0x14 \<or> spk ! 22 \<noteq> OP_EQUAL
      then None
      else Some (take 20 (drop 2 spk)))"

text \<open>The \<open>expect\<close> in \<open>p2sh_address_from_hash\<close> is its \<open>None\<close>, which \<open>bech32_laws\<close> excludes.\<close>

definition extract_address :: "ext \<Rightarrow> bytes \<Rightarrow> string option" where
  "extract_address X script_pubkey =
     (case extract_p2sh_hash script_pubkey of
        Some hash20 \<Rightarrow> p2sh_address_from_hash X hash20
      | None \<Rightarrow>
          if length script_pubkey = 25
             \<and> script_pubkey ! 0 = OP_DUP
             \<and> script_pubkey ! 1 = OP_HASH160
             \<and> script_pubkey ! 2 = 0x14
             \<and> script_pubkey ! 23 = OP_EQUALVERIFY
             \<and> script_pubkey ! 24 = OP_CHECKSIG
          then bech32_encode X ADDRESS_HRP (to_base32 X (take 20 (drop 3 script_pubkey)))
          else None)"

definition p2sh_multisig_script_sig :: "bytes list \<Rightarrow> bytes \<Rightarrow> bytes option" where
  "p2sh_multisig_script_sig sigs redeem_script =
     (let s = concat (map push_data sigs); rlen = length redeem_script in
      if rlen \<le> 0x4b then Some (s @ [of_nat rlen] @ redeem_script)
      else if rlen \<le> 0xff then Some (s @ [0x4c, of_nat rlen] @ redeem_script)
      else None)"

section \<open>Bare multisig\<close>

definition multisig_script :: "u8 \<Rightarrow> bytes list \<Rightarrow> (bytes, ScriptError) result" where
  "multisig_script m pubkeys =
     (let n = length pubkeys in
      if m = 0 \<or> n = 0 \<or> unat m > n \<or> n > 16 then Err InvalidKey
      else if \<exists>pk \<in> set pubkeys. length pk \<noteq> 33 then Err InvalidKey
      else Ok ([OP_1 - 1 + m] @ concat (map (\<lambda>pk. 0x21 # pk) pubkeys)
               @ [OP_1 - 1 + of_nat n, OP_CHECKMULTISIG]))"

definition multisig_script_sig :: "bytes list \<Rightarrow> bytes" where
  "multisig_script_sig sigs = concat (map push_data sigs)"

function extract_multisig_loop :: "bytes \<Rightarrow> nat \<Rightarrow> bytes list \<Rightarrow> (nat \<times> bytes list) option" where
  "extract_multisig_loop spk i pubkeys =
     (if i < length spk - 2 then
        if spk ! i \<noteq> 0x21 then None
        else let end_ix = i + 1 + 33 in
             if end_ix > length spk then None
             else extract_multisig_loop spk end_ix (pubkeys @ [take 33 (drop (i + 1) spk)])
      else Some (i, pubkeys))"
  by pat_completeness auto
termination
  by (relation "measure (\<lambda>(spk, i, _). length spk - i)") auto

declare extract_multisig_loop.simps [simp del]

definition extract_multisig :: "bytes \<Rightarrow> (u8 \<times> bytes list) option" where
  "extract_multisig spk =
     (if length spk < 37 then None
      else let first = spk ! 0; lst = spk ! (length spk - 1) in
        if lst \<noteq> OP_CHECKMULTISIG then None
        else if first < 0x51 \<or> first > 0x60 then None
        else let m = first - 0x50 in
          case extract_multisig_loop spk 1 [] of
            None \<Rightarrow> None
          | Some (i, pubkeys) \<Rightarrow>
              if \<not> i < length spk then None
              else let n_byte = spk ! i in
                if n_byte < 0x51 \<or> n_byte > 0x60 then None
                else let n = n_byte - 0x50 in
                  if length pubkeys \<noteq> unat n \<or> m > n then None
                  else Some (m, pubkeys))"

section \<open>Time locks\<close>

fun locktime_len :: "bytes \<Rightarrow> nat \<Rightarrow> nat" where
  "locktime_len bs len = (if 1 < len \<and> bs ! (len - 1) = 0 then locktime_len bs (len - 1) else len)"

declare locktime_len.simps [simp del]

definition encode_locktime :: "u64 \<Rightarrow> bytes" where
  "encode_locktime locktime =
     (let bs = u64_to_le locktime in take (locktime_len bs 8) bs)"

text \<open>\<open>let mut buf = [0u8; 8]; buf[..n].copy_from_slice(x); u64::from_le_bytes(buf)\<close>.\<close>

definition u64_from_le_padded :: "bytes \<Rightarrow> u64" where
  "u64_from_le_padded bs = u64_from_le (bs @ replicate (8 - length bs) 0)"

definition htlc_script :: "bytes \<Rightarrow> bytes \<Rightarrow> bytes \<Rightarrow> u64 \<Rightarrow> bytes" where
  "htlc_script hash recipient_hash refund_hash locktime =
     (let lt = encode_locktime locktime in
      [OP_IF, OP_SHA256, 0x20] @ hash
      @ [OP_EQUALVERIFY, OP_DUP, OP_HASH160, 0x14] @ recipient_hash
      @ [OP_EQUALVERIFY, OP_CHECKSIG, OP_ELSE, of_nat (length lt)] @ lt
      @ [OP_CHECKLOCKTIMEVERIFY, OP_DROP, OP_DUP, OP_HASH160, 0x14] @ refund_hash
      @ [OP_EQUALVERIFY, OP_CHECKSIG, OP_ENDIF])"

definition htlc_claim_script_sig :: "bytes \<Rightarrow> bytes \<Rightarrow> bytes \<Rightarrow> bytes option" where
  "htlc_claim_script_sig der_sig pubkey preimage =
     (if length preimage \<le> 75
      then Some (push_data der_sig @ push_data pubkey @ push_data preimage @ [OP_1])
      else None)"

definition htlc_refund_script_sig :: "bytes \<Rightarrow> bytes \<Rightarrow> bytes" where
  "htlc_refund_script_sig der_sig pubkey = push_data der_sig @ push_data pubkey @ [OP_0]"

text \<open>\<open>Panic\<close> is an index out of range.\<close>

datatype 'a outcome = Panic | Ret 'a

definition extract_htlc :: "bytes \<Rightarrow> (bytes \<times> bytes \<times> bytes \<times> u64) option outcome" where
  "extract_htlc spk =
     (if length spk < 62 then Ret None
      else if spk ! 0 \<noteq> OP_IF \<or> spk ! 1 \<noteq> OP_SHA256 \<or> spk ! 2 \<noteq> 0x20 then Ret None
      else let hash = take 32 (drop 3 spk) in
      if spk ! 35 \<noteq> OP_EQUALVERIFY \<or> spk ! 36 \<noteq> OP_DUP \<or> spk ! 37 \<noteq> OP_HASH160 \<or> spk ! 38 \<noteq> 0x14
      then Ret None
      else let recipient_hash = take 20 (drop 39 spk) in
      if spk ! 59 \<noteq> OP_EQUALVERIFY \<or> spk ! 60 \<noteq> OP_CHECKSIG \<or> spk ! 61 \<noteq> OP_ELSE then Ret None
      else if length spk \<le> 62 then Panic
      else let lt_len = unat (spk ! 62) in
      if lt_len = 0 \<or> lt_len > 8 then Ret None
      else let lt_start = 63; lt_end = lt_start + lt_len in
      if length spk \<noteq> lt_end + 28 then Ret None
      else let locktime = u64_from_le_padded (take lt_len (drop lt_start spk)); i = lt_end in
      if spk ! i \<noteq> OP_CHECKLOCKTIMEVERIFY \<or> spk ! (i + 1) \<noteq> OP_DROP \<or> spk ! (i + 2) \<noteq> OP_DUP
         \<or> spk ! (i + 3) \<noteq> OP_HASH160 \<or> spk ! (i + 4) \<noteq> 0x14
      then Ret None
      else let r_start = i + 5; r_end = r_start + 20; refund_hash = take 20 (drop r_start spk) in
      if spk ! r_end \<noteq> OP_EQUALVERIFY \<or> spk ! (r_end + 1) \<noteq> OP_CHECKSIG \<or> spk ! (r_end + 2) \<noteq> OP_ENDIF
      then Ret None
      else Ret (Some (hash, recipient_hash, refund_hash, locktime)))"

definition cltv_p2pkh_script :: "u64 \<Rightarrow> bytes \<Rightarrow> bytes" where
  "cltv_p2pkh_script locktime hash20 =
     (let lt = encode_locktime locktime in
      [of_nat (length lt)] @ lt
      @ [OP_CHECKLOCKTIMEVERIFY, OP_DROP, OP_DUP, OP_HASH160, 0x14] @ hash20
      @ [OP_EQUALVERIFY, OP_CHECKSIG])"

definition extract_cltv_p2pkh :: "bytes \<Rightarrow> (u64 \<times> bytes) option" where
  "extract_cltv_p2pkh spk =
     (if spk = [] then None
      else let lt_len = unat (spk ! 0) in
      if lt_len = 0 \<or> lt_len > 8 then None
      else if length spk \<noteq> 1 + lt_len + 5 + 20 + 2 then None
      else let lt_buf = take lt_len (drop 1 spk); i = 1 + lt_len in
      if spk ! i \<noteq> OP_CHECKLOCKTIMEVERIFY \<or> spk ! (i + 1) \<noteq> OP_DROP \<or> spk ! (i + 2) \<noteq> OP_DUP
         \<or> spk ! (i + 3) \<noteq> OP_HASH160 \<or> spk ! (i + 4) \<noteq> 0x14
      then None
      else let h_start = i + 5; hash20 = take 20 (drop h_start spk) in
      if spk ! (h_start + 20) \<noteq> OP_EQUALVERIFY \<or> spk ! (h_start + 21) \<noteq> OP_CHECKSIG then None
      else Some (u64_from_le_padded lt_buf, hash20))"

section \<open>Round trips\<close>

lemma length_push_data [simp]: "length (push_data d) = Suc (length d)"
  by (simp add: push_data_def)

lemma locktime_len_bounds:
  assumes "1 \<le> len"
  shows "1 \<le> locktime_len bs len \<and> locktime_len bs len \<le> len
    \<and> (\<forall>j. locktime_len bs len \<le> j \<and> j < len \<longrightarrow> bs ! j = 0)"
  using assms
proof (induction bs len rule: locktime_len.induct)
  case (1 bs len)
  show ?case
  proof (cases "1 < len \<and> bs ! (len - 1) = 0")
    case True
    then have IH: "1 \<le> locktime_len bs (len - 1) \<and> locktime_len bs (len - 1) \<le> len - 1
        \<and> (\<forall>j. locktime_len bs (len - 1) \<le> j \<and> j < len - 1 \<longrightarrow> bs ! j = 0)"
      using "1.IH" by auto
    have "bs ! j = 0" if "locktime_len bs (len - 1) \<le> j" "j < len" for j
      using IH True that by (cases "j = len - 1") auto
    with True IH show ?thesis by (auto simp: locktime_len.simps [of bs len])
  next
    case False
    with "1.prems" show ?thesis by (auto simp: locktime_len.simps [of bs len])
  qed
qed

lemma encode_locktime_length: "1 \<le> length (encode_locktime l) \<and> length (encode_locktime l) \<le> 8"
  using locktime_len_bounds [of 8 "u64_to_le l"] by (simp add: encode_locktime_def Let_def)

lemma encode_locktime_padded:
  "encode_locktime l @ replicate (8 - length (encode_locktime l)) 0 = u64_to_le l"
proof -
  let ?bs = "u64_to_le l"
  let ?n = "locktime_len ?bs 8"
  have n: "?n \<le> 8" "\<forall>j. ?n \<le> j \<and> j < 8 \<longrightarrow> ?bs ! j = 0"
    using locktime_len_bounds [of 8 ?bs] by auto
  have "drop ?n ?bs = replicate (8 - ?n) 0"
    using n by (intro nth_equalityI) auto
  then have "?bs = take ?n ?bs @ replicate (8 - ?n) 0"
    by (metis append_take_drop_id)
  then show ?thesis using n(1) by (simp add: encode_locktime_def Let_def)
qed

lemma locktime_roundtrip [codec_simps]: "u64_from_le_padded (encode_locktime l) = l"
  by (simp add: u64_from_le_padded_def encode_locktime_padded u64_le_roundtrip)

lemma unat_locktime_length: "unat (of_nat (length (encode_locktime l)) :: u8) = length (encode_locktime l)"
  using encode_locktime_length [of l] by (intro unat_of_nat_u8) linarith

text \<open>
  Parsing inverts building for hash-time-locked contracts and for vesting outputs: the
  locktime is stored in its minimal little-endian form and comes back exactly, for every \<open>u64\<close>.
\<close>

theorem htlc_script_roundtrip:
  assumes "length hash = 32" and "length recipient_hash = 20" and "length refund_hash = 20"
  shows "extract_htlc (htlc_script hash recipient_hash refund_hash locktime)
      = Ret (Some (hash, recipient_hash, refund_hash, locktime)) \<and>
    extract_cltv_p2pkh (cltv_p2pkh_script locktime recipient_hash) = Some (locktime, recipient_hash)"
proof -
  have lt: "length (encode_locktime locktime) \<noteq> 0" "\<not> 8 < length (encode_locktime locktime)"
    using encode_locktime_length [of locktime] by auto
  have "extract_htlc (htlc_script hash recipient_hash refund_hash locktime)
      = Ret (Some (hash, recipient_hash, refund_hash, locktime))"
    using assms lt
    by (simp add: htlc_script_def extract_htlc_def Let_def nth_append unat_locktime_length
        locktime_roundtrip drop_Cons')
  moreover have "extract_cltv_p2pkh (cltv_p2pkh_script locktime recipient_hash)
      = Some (locktime, recipient_hash)"
    using assms lt
    by (simp add: cltv_p2pkh_script_def extract_cltv_p2pkh_def Let_def nth_append
        unat_locktime_length locktime_roundtrip drop_Cons')
  ultimately show ?thesis by simp
qed

theorem htlc_script_roundtrip_witness:
  "extract_htlc (htlc_script (replicate 32 7) (replicate 20 8) (replicate 20 9) 500000)
      = Ret (Some (replicate 32 7, replicate 20 8, replicate 20 9, 500000)) \<and>
    extract_cltv_p2pkh (cltv_p2pkh_script 500000 (replicate 20 8)) = Some (500000, replicate 20 8)"
  by (rule htlc_script_roundtrip) simp_all

text \<open>
  \<open>extract_htlc\<close> is not total: on a 62-byte script with the right claim-branch prefix it reads
  \<open>spk[62]\<close>, one past the end, and panics (its length guard is \<open>len() < 62\<close>). No other length panics.
\<close>

theorem extract_htlc_panics_only_at_62:
  "(extract_htlc spk = Panic \<longrightarrow> length spk = 62) \<and>
   extract_htlc ([OP_IF, OP_SHA256, 0x20] @ replicate 32 0
      @ [OP_EQUALVERIFY, OP_DUP, OP_HASH160, 0x14] @ replicate 20 0
      @ [OP_EQUALVERIFY, OP_CHECKSIG, OP_ELSE]) = Panic"
proof
  show "extract_htlc spk = Panic \<longrightarrow> length spk = 62"
    by (auto simp: extract_htlc_def Let_def split: if_splits)
  show "extract_htlc ([OP_IF, OP_SHA256, 0x20] @ replicate 32 0
      @ [OP_EQUALVERIFY, OP_DUP, OP_HASH160, 0x14] @ replicate 20 0
      @ [OP_EQUALVERIFY, OP_CHECKSIG, OP_ELSE]) = Panic"
    by (simp add: extract_htlc_def Let_def nth_append)
qed

theorem extract_htlc_panics_only_at_62_witness:
  "length ([OP_IF, OP_SHA256, 0x20] @ replicate 32 0
      @ [OP_EQUALVERIFY, OP_DUP, OP_HASH160, 0x14] @ replicate 20 0
      @ [OP_EQUALVERIFY, OP_CHECKSIG, OP_ELSE]) = 62"
  using extract_htlc_panics_only_at_62 by blast

text \<open>Bare multisig: the key loop walks over the pushes of the script it was built from.\<close>

lemma multisig_pushes_length:
  "\<forall>pk \<in> set pks. length pk = 33 \<Longrightarrow> length (concat (map (\<lambda>pk. (0x21 :: u8) # pk) pks)) = 34 * length pks"
  by (induction pks) auto

lemma extract_multisig_loop_pushes:
  assumes "\<forall>pk \<in> set pks. length pk = 33"
  shows "extract_multisig_loop (pre @ concat (map (\<lambda>pk. 0x21 # pk) pks) @ [a, b]) (length pre) acc
    = Some (length pre + 34 * length pks, acc @ pks)"
  using assms
proof (induction pks arbitrary: pre acc)
  case Nil
  then show ?case by (simp add: extract_multisig_loop.simps)
next
  case (Cons pk pks)
  let ?spk = "pre @ concat (map (\<lambda>pk. 0x21 # pk) (pk # pks)) @ [a, b]"
  have len: "length pk = 33" using Cons.prems by simp
  have assoc: "?spk = (pre @ 0x21 # pk) @ concat (map (\<lambda>pk. 0x21 # pk) pks) @ [a, b]" by simp
  have "extract_multisig_loop ?spk (length pre) acc =
      extract_multisig_loop ?spk (length pre + 34) (acc @ [pk])"
    by (subst extract_multisig_loop.simps) (simp add: len nth_append Let_def add.commute)
  also have "\<dots> = Some (length pre + 34 + 34 * length pks, (acc @ [pk]) @ pks)"
    using Cons.IH [of "pre @ 0x21 # pk" "acc @ [pk]"] Cons.prems len by (simp add: assoc)
  finally show ?case by simp
qed

lemma unat_op_small: "n \<le> 16 \<Longrightarrow> unat (0x50 + of_nat n :: u8) = 80 + n"
  by (simp add: unat_word_ariths unat_of_nat_u8)

text \<open>
  A bare multisig script parses back to its threshold and its keys in order, for every
  argument the builder accepts.
\<close>

theorem multisig_script_roundtrip:
  assumes "multisig_script m pubkeys = Ok s"
  shows "extract_multisig s = Some (m, pubkeys)"
proof -
  let ?n = "length pubkeys"
  let ?body = "concat (map (\<lambda>pk. (0x21 :: u8) # pk) pubkeys)"
  have m: "m \<noteq> 0" "unat m \<le> ?n" "0 < ?n" "?n \<le> 16"
    and keys: "\<forall>pk \<in> set pubkeys. length pk = 33"
    and s: "s = [0x50 + m] @ ?body @ [0x50 + of_nat ?n, OP_CHECKMULTISIG]"
    using assms by (auto simp: multisig_script_def Let_def OP_1_def split: if_splits)
  have len: "length s = 34 * ?n + 3" using s multisig_pushes_length [OF keys] by simp
  have mm: "m = of_nat (unat m)" by simp
  have um: "unat (0x50 + m) = 80 + unat m"
    by (subst mm) (rule unat_op_small, use m in linarith)
  have um': "0x51 \<le> 0x50 + m" "0x50 + m \<le> 0x60"
    using um m by (simp_all add: word_le_nat_alt unat_gt_0 Suc_le_eq)
  have un: "unat (0x50 + of_nat ?n :: u8) = 80 + ?n" by (rule unat_op_small) (rule m)
  have un': "0x51 \<le> (0x50 + of_nat ?n :: u8)" "0x50 + of_nat ?n \<le> (0x60 :: u8)"
    using un m by (simp_all add: word_le_nat_alt Suc_le_eq)
  have loop: "extract_multisig_loop s 1 [] = Some (1 + 34 * ?n, pubkeys)"
    using extract_multisig_loop_pushes [OF keys, of "[0x50 + m]" "0x50 + of_nat ?n" OP_CHECKMULTISIG "[]"]
    by (simp add: s)
  have nth: "s ! 0 = 0x50 + m" "s ! (length s - 1) = OP_CHECKMULTISIG"
      "s ! Suc (34 * ?n) = 0x50 + of_nat ?n"
    using multisig_pushes_length [OF keys] by (simp_all add: s nth_append)
  have le: "\<not> (of_nat ?n :: u8) < m"
    using m by (simp add: word_less_nat_alt unat_of_nat_u8)
  have cnt: "?n = unat (of_nat ?n :: u8)" using m by (simp add: unat_of_nat_u8)
  show ?thesis
    unfolding extract_multisig_def Let_def loop nth
    using len m(3) um' un' le cnt by (simp add: linorder_not_less not_less nth)
qed

theorem multisig_script_roundtrip_witness:
  "\<exists>s. multisig_script 2 [replicate 33 2, replicate 33 3] = Ok s \<and>
       extract_multisig s = Some (2, [replicate 33 2, replicate 33 3])"
proof -
  obtain s where s: "multisig_script 2 [replicate 33 2, replicate 33 3] = Ok s"
    by (simp add: multisig_script_def)
  then show ?thesis using multisig_script_roundtrip [OF s] by blast
qed

text \<open>
  Addresses and scripts correspond: the locking script built from an address yields that
  20-byte hash's address again, for both address kinds.
\<close>

theorem address_script_roundtrip:
  assumes "bech32_laws X" and "length h = 20"
  shows "(\<exists>a. bech32_encode X ADDRESS_HRP (to_base32 X h) = Some a \<and>
            p2pkh_from_address X a = Ok (the (p2pkh_script h)) \<and>
            extract_address X (the (p2pkh_script h)) = Some a) \<and>
         (\<exists>b. p2sh_address_from_hash X h = Some b \<and>
            p2sh_hash_from_address X b = Ok h \<and>
            extract_address X (the (p2sh_script h)) = Some b)"
proof -
  obtain a where a: "bech32_encode X ''txm'' (to_base32 X h) = Some a"
      "bech32_decode X a = Some (''txm'', to_base32 X h)"
    using assms(1) unfolding bech32_laws_def by blast
  obtain b where b: "bech32_encode X ''txms'' (to_base32 X h) = Some b"
      "bech32_decode X b = Some (''txms'', to_base32 X h)"
    using assms(1) unfolding bech32_laws_def by blast
  have h: "from_base32 X (to_base32 X h) = Some h" using assms(1) by (simp add: bech32_laws_def)
  have "extract_address X (the (p2pkh_script h)) = Some a"
    using assms(2) a by (simp add: extract_address_def extract_p2sh_hash_def p2pkh_script_def
        nth_append ADDRESS_HRP_def)
  moreover have "extract_address X (the (p2sh_script h)) = Some b"
    using assms(2) b by (simp add: extract_address_def extract_p2sh_hash_def p2sh_script_def
        nth_append p2sh_address_from_hash_def P2SH_HRP_def)
  ultimately show ?thesis
    using a b h assms(2)
    by (simp add: p2pkh_from_address_def p2sh_hash_from_address_def p2sh_address_from_hash_def
        ADDRESS_HRP_def P2SH_HRP_def)
qed

theorem address_script_roundtrip_witness:
  "\<exists>a. p2pkh_from_address demo_ext a = Ok (the (p2pkh_script (replicate 20 5)))"
  using address_script_roundtrip [OF demo_bech32_laws, of "replicate 20 5"] by auto

end
