(* ===== verification/Block_Model.thy ===== *)
theory Block_Model
  imports Chain_Params Script_Standard
begin

text \<open>
  Transactions, headers and blocks (\<open>crates/tensorium-core/src/block.rs\<close>), the TensorHash
  proof-of-work function (\<open>crates/tensorium-tensorhash/src/lib.rs\<close>) and the work check and nonce
  search (\<open>crates/tensorium-core/src/pow.rs\<close>).
\<close>

unbundle bit_operations_syntax

section \<open>Transactions\<close>

record OutPoint =
  op_txid :: Hash256
  output_index :: u32

record TxInput =
  previous_output :: OutPoint
  signature_script :: bytes

record TxOutput =
  value_atoms :: u64
  script_pubkey :: bytes

record Transaction =
  tx_id :: Hash256
  inputs :: "TxInput list"
  outputs :: "TxOutput list"
  payload :: bytes

definition input_bytes :: "TxInput \<Rightarrow> bytes" where
  "input_bytes i = hash_bytes (op_txid (previous_output i))
     @ u32_to_le (output_index (previous_output i)) @ signature_script i"

definition output_bytes :: "TxOutput \<Rightarrow> bytes" where
  "output_bytes o' = u64_to_le (value_atoms o') @ script_pubkey o'"

definition transaction_id :: "ext \<Rightarrow> TxInput list \<Rightarrow> TxOutput list \<Rightarrow> bytes \<Rightarrow> Hash256" where
  "transaction_id X ins outs pl =
     double_sha256 X (concat (map input_bytes ins) @ concat (map output_bytes outs) @ pl)"

text \<open>\<open>p2pkh_from_address(..).unwrap_or_default()\<close>.\<close>

definition address_script_or_default :: "ext \<Rightarrow> string \<Rightarrow> bytes" where
  "address_script_or_default X a = (case p2pkh_from_address X a of Ok s \<Rightarrow> s | Err _ \<Rightarrow> [])"

definition coinbase_payload :: "u64 \<Rightarrow> u64 \<Rightarrow> string \<Rightarrow> bytes" where
  "coinbase_payload h reward miner =
     str_bytes (''coinbase:'' @ show_nat (unat h) @ '':'' @ show_nat (unat reward) @ '':'' @ miner)"

definition coinbase :: "ext \<Rightarrow> u64 \<Rightarrow> u64 \<Rightarrow> string \<Rightarrow> Transaction" where
  "coinbase X h reward_atoms miner =
     (let pl = coinbase_payload h reward_atoms miner;
          outs = (if reward_atoms = 0 then []
                  else [\<lparr> value_atoms = reward_atoms,
                         script_pubkey = address_script_or_default X miner \<rparr>])
      in \<lparr> tx_id = transaction_id X [] outs pl, inputs = [], outputs = outs, payload = pl \<rparr>)"

definition genesis_coinbase ::
  "ext \<Rightarrow> u64 \<Rightarrow> string \<Rightarrow> u64 \<Rightarrow> string \<Rightarrow> (string \<times> u64) list \<Rightarrow> Transaction" where
  "genesis_coinbase X reward_atoms miner founder_atoms founder_addr allocations =
     (let pl = coinbase_payload 0 reward_atoms miner;
          reward_out = (if reward_atoms > 0
                        then [\<lparr> value_atoms = reward_atoms,
                               script_pubkey = address_script_or_default X miner \<rparr>]
                        else []);
          premint = (if allocations \<noteq> []
                     then map (\<lambda>(addr, atoms). \<lparr> value_atoms = atoms,
                                script_pubkey = address_script_or_default X addr \<rparr>)
                            (filter (\<lambda>(addr, atoms). atoms > 0) allocations)
                     else if founder_atoms > 0 \<and> founder_addr \<noteq> []
                     then [\<lparr> value_atoms = founder_atoms,
                            script_pubkey = address_script_or_default X founder_addr \<rparr>]
                     else []);
          outs = reward_out @ premint
      in \<lparr> tx_id = transaction_id X [] outs pl, inputs = [], outputs = outs, payload = pl \<rparr>)"

definition is_coinbase :: "Transaction \<Rightarrow> bool" where
  "is_coinbase tx \<longleftrightarrow> inputs tx = [] \<and> prefix (str_bytes ''coinbase:'') (payload tx)"

definition total_output_atoms :: "Transaction \<Rightarrow> u64" where
  "total_output_atoms tx = sat_sum (map value_atoms (outputs tx))"

definition payment :: "ext \<Rightarrow> TxInput list \<Rightarrow> TxOutput list \<Rightarrow> Transaction" where
  "payment X ins outs =
     (let pl = str_bytes ''payment:v1''
      in \<lparr> tx_id = transaction_id X ins outs pl, inputs = ins, outputs = outs, payload = pl \<rparr>)"

definition refresh_id :: "ext \<Rightarrow> Transaction \<Rightarrow> Transaction" where
  "refresh_id X tx = tx\<lparr> tx_id := transaction_id X (inputs tx) (outputs tx) (payload tx) \<rparr>"

definition signature_hash :: "ext \<Rightarrow> Transaction \<Rightarrow> Hash256" where
  "signature_hash X tx =
     (let unsigned = map (\<lambda>i. \<lparr> previous_output = previous_output i, signature_script = [] \<rparr>) (inputs tx)
      in transaction_id X unsigned (outputs tx) (payload tx))"

section \<open>Headers and blocks\<close>

record BlockHeader =
  version :: u32
  chain_id :: string
  height :: u64
  previous_hash :: Hash256
  merkle_root :: Hash256
  timestamp_seconds :: u64
  leading_zero_bits :: u8
  nonce :: u64

definition pow_prefix_bytes :: "BlockHeader \<Rightarrow> bytes" where
  "pow_prefix_bytes h =
     u32_to_le (version h) @ str_bytes (chain_id h) @ u64_to_le (height h)
     @ hash_bytes (previous_hash h) @ hash_bytes (merkle_root h)
     @ u64_to_le (timestamp_seconds h) @ [leading_zero_bits h]"

definition header_hash :: "ext \<Rightarrow> BlockHeader \<Rightarrow> Hash256" where
  "header_hash X h =
     double_sha256 X
       (u32_to_le (version h) @ str_bytes (chain_id h) @ u64_to_le (height h)
        @ hash_bytes (previous_hash h) @ hash_bytes (merkle_root h)
        @ u64_to_le (timestamp_seconds h) @ [leading_zero_bits h] @ u64_to_le (nonce h))"

record Block =
  header :: BlockHeader
  transactions :: "Transaction list"

definition block_hash :: "ext \<Rightarrow> Block \<Rightarrow> Hash256" where
  "block_hash X b = header_hash X (header b)"

fun merkle_layer :: "ext \<Rightarrow> Hash256 list \<Rightarrow> Hash256 list" where
  "merkle_layer X [] = []"
| "merkle_layer X [l] = [double_sha256 X (hash_bytes l @ hash_bytes l)]"
| "merkle_layer X (l # r # rest) =
     double_sha256 X (hash_bytes l @ hash_bytes r) # merkle_layer X rest"

lemma length_merkle_layer: "length (merkle_layer X ls) = (length ls + 1) div 2"
  by (induction X ls rule: merkle_layer.induct) auto

function merkle_loop :: "ext \<Rightarrow> Hash256 list \<Rightarrow> Hash256 list" where
  "merkle_loop X layer = (if 1 < length layer then merkle_loop X (merkle_layer X layer) else layer)"
  by pat_completeness auto
termination
  by (relation "measure (\<lambda>(X, layer). length layer)") (auto simp: length_merkle_layer)

declare merkle_loop.simps [simp del]

definition merkle_root_of :: "ext \<Rightarrow> Transaction list \<Rightarrow> Hash256" where
  "merkle_root_of X txs = (if txs = [] then ZERO else merkle_loop X (map tx_id txs) ! 0)"

definition genesis_block :: "ext \<Rightarrow> string \<Rightarrow> u64 \<Rightarrow> u8 \<Rightarrow> Block" where
  "genesis_block X cid timestamp bits =
     (let tx = coinbase X 0 0 ''genesis'' in
      \<lparr> header = \<lparr> version = 1, chain_id = cid, height = 0, previous_hash = ZERO,
           merkle_root = merkle_root_of X [tx], timestamp_seconds = timestamp,
           leading_zero_bits = bits, nonce = 0 \<rparr>,
        transactions = [tx] \<rparr>)"

section \<open>TensorHash\<close>

definition DATASET_N :: u64 where "DATASET_N = 600000000"
definition EPOCH_LENGTH :: u64 where "EPOCH_LENGTH = 8192"
definition TENSOR_K :: nat where "TENSOR_K = 32"

definition dataset_element :: "ext \<Rightarrow> bytes \<Rightarrow> u64 \<Rightarrow> bytes" where
  "dataset_element X epoch_seed index = blake2b256 X (epoch_seed @ u64_to_le index)"

definition bytes_to_u64x4 :: "bytes \<Rightarrow> u64 list" where
  "bytes_to_u64x4 bs = map (\<lambda>i. u64_from_le (take 8 (drop (i * 8) bs))) [0..<4]"

definition u64x4_to_bytes :: "u64 list \<Rightarrow> bytes" where
  "u64x4_to_bytes ws = concat (map u64_to_le ws)"

definition tensor_mix :: "u64 list \<Rightarrow> u64 list \<Rightarrow> u64 list" where
  "tensor_mix acc elem =
     map (\<lambda>m. acc ! m * (elem ! m OR 1) + word_rotl 13 (elem ! ((m + 1) mod 4))) [0..<4]"

definition dataset_index :: "ext \<Rightarrow> bytes \<Rightarrow> nat \<Rightarrow> u64" where
  "dataset_index X digest j =
     u64_from_le (take 8 (blake2b256 X (digest @ u64_to_le (of_nat j)))) mod DATASET_N"

definition tensor_pow_hash :: "ext \<Rightarrow> bytes \<Rightarrow> u64 \<Rightarrow> bytes \<Rightarrow> bytes" where
  "tensor_pow_hash X header_bytes nonce_v epoch_seed =
     (let digest = blake2b256 X (header_bytes @ u64_to_le nonce_v);
          acc = fold (\<lambda>j acc. tensor_mix acc
                    (bytes_to_u64x4 (dataset_element X epoch_seed (dataset_index X digest j))))
                  [0..<TENSOR_K] (bytes_to_u64x4 digest)
      in blake2b256 X (header_bytes @ u64_to_le nonce_v @ u64x4_to_bytes acc))"

definition pow_hash :: "ext \<Rightarrow> BlockHeader \<Rightarrow> Hash256 \<Rightarrow> Hash256" where
  "pow_hash X h epoch_seed =
     Hash256 (tensor_pow_hash X (pow_prefix_bytes h) (nonce h) (hash_bytes epoch_seed))"

section \<open>Proof of work\<close>

definition hash_meets_work :: "Hash256 \<Rightarrow> u8 \<Rightarrow> bool" where
  "hash_meets_work h bits \<longleftrightarrow> unat bits \<le> hash_leading_zero_bits h"

definition header_meets_work :: "ext \<Rightarrow> BlockHeader \<Rightarrow> Hash256 \<Rightarrow> bool" where
  "header_meets_work X h epoch_seed = hash_meets_work (pow_hash X h epoch_seed) (leading_zero_bits h)"

fun mine_loop :: "ext \<Rightarrow> BlockHeader \<Rightarrow> Hash256 \<Rightarrow> nat \<Rightarrow> nat \<Rightarrow> BlockHeader option" where
  "mine_loop X h seed n 0 = None"
| "mine_loop X h seed n (Suc k) =
     (let h' = h\<lparr> nonce := of_nat n \<rparr> in
      if header_meets_work X h' seed then Some h' else mine_loop X h seed (Suc n) k)"

text \<open>\<open>for nonce in 0..=max_nonce\<close>: \<open>max_nonce + 1\<close> attempts, starting at 0.\<close>

definition mine_header :: "ext \<Rightarrow> BlockHeader \<Rightarrow> Hash256 \<Rightarrow> u64 \<Rightarrow> BlockHeader option" where
  "mine_header X h seed max_nonce = mine_loop X h seed 0 (Suc (unat max_nonce))"

section \<open>Lemmas\<close>

lemma header_hash_prefix:
  "header_hash X h = double_sha256 X (pow_prefix_bytes h @ u64_to_le (nonce h))"
  by (simp add: header_hash_def pow_prefix_bytes_def)

lemma length_merkle_loop: "ls \<noteq> [] \<Longrightarrow> length (merkle_loop X ls) = 1"
proof (induction X ls rule: merkle_loop.induct)
  case (1 X layer)
  show ?case
  proof (cases "1 < length layer")
    case True
    then have "merkle_layer X layer \<noteq> []"
      using length_merkle_layer [of X layer] by auto
    with True "1.IH" show ?thesis by (simp add: merkle_loop.simps [of X layer])
  next
    case False
    with "1.prems" have "length layer = 1" by (cases layer) auto
    with False show ?thesis by (simp add: merkle_loop.simps [of X layer])
  qed
qed

lemma pow_hash_ok: "digest_len X \<Longrightarrow> hash_ok (pow_hash X h seed)"
  by (simp add: digest_len_def hash_ok_def pow_hash_def tensor_pow_hash_def Let_def)

text \<open>Leading zero bits read off the big-endian value of a byte string.\<close>

lemma leading_zero_bits_loop_ge: "bits \<le> leading_zero_bits_loop bs bits"
  by (induction bs arbitrary: bits) (auto intro: add_leD1 le_trans [OF le_add1])

lemma leading_zero_bits_loop_iff:
  "z \<le> 8 * length bs \<Longrightarrow>
    acc + z \<le> leading_zero_bits_loop bs acc \<longleftrightarrow> le_nat (rev bs) < 2 ^ (8 * length bs - z)"
proof (induction bs arbitrary: z acc)
  case Nil
  then show ?case by simp
next
  case (Cons byte bs)
  let ?n = "length bs"
  have P: "(256 :: nat) ^ ?n = 2 ^ (8 * ?n)" by (simp add: power_mult)
  have rest: "le_nat (rev bs) < 2 ^ (8 * ?n)" using le_nat_bound [of "rev bs"] P by simp
  have v: "le_nat (rev (byte # bs)) = le_nat (rev bs) + 2 ^ (8 * ?n) * unat byte"
    using P by (simp add: le_nat_append)
  show ?case
  proof (cases "byte = 0")
    case True
    show ?thesis
    proof (cases "8 \<le> z")
      case z8: True
      have "acc + z \<le> leading_zero_bits_loop (byte # bs) acc \<longleftrightarrow>
          (acc + 8) + (z - 8) \<le> leading_zero_bits_loop bs (acc + 8)"
        using True z8 by simp
      also have "\<dots> \<longleftrightarrow> le_nat (rev bs) < 2 ^ (8 * ?n - (z - 8))"
        using Cons.prems z8 by (intro Cons.IH) simp
      finally show ?thesis using v True z8 Cons.prems by (simp add: algebra_simps)
    next
      case False
      have "(2 :: nat) ^ (8 * ?n) \<le> 2 ^ (8 * length (byte # bs) - z)"
        using False by (intro power_increasing) auto
      with rest have "le_nat (rev bs) < 2 ^ (8 * length (byte # bs) - z)" by (rule less_le_trans)
      moreover have "acc + z \<le> leading_zero_bits_loop bs (acc + 8)"
        using leading_zero_bits_loop_ge [of "acc + 8" bs] False by simp
      ultimately show ?thesis using v True by simp
    qed
  next
    case False
    note lz = u8_leading_zeros_bounds [OF False]
    let ?lz = "u8_leading_zeros byte"
    have lhs: "acc + z \<le> leading_zero_bits_loop (byte # bs) acc \<longleftrightarrow> z \<le> ?lz"
      using False by simp
    show ?thesis
    proof (cases "z \<le> ?lz")
      case True
      have "unat byte + 1 \<le> 2 ^ (8 - ?lz)" using lz by simp
      also have "(2 :: nat) ^ (8 - ?lz) \<le> 2 ^ (8 - z)" using True by (intro power_increasing) auto
      finally have "2 ^ (8 * ?n) * (unat byte + 1) \<le> 2 ^ (8 * ?n) * 2 ^ (8 - z)"
        by (rule mult_le_mono2)
      also have "\<dots> = (2 :: nat) ^ (8 * length (byte # bs) - z)"
        using True lz by (simp add: power_add [symmetric])
      finally have "le_nat (rev (byte # bs)) < 2 ^ (8 * length (byte # bs) - z)"
        using rest v by simp
      with True lhs show ?thesis by simp
    next
      case z: False
      have "8 * length (byte # bs) - z \<le> 8 * ?n + (7 - ?lz)" using z lz by simp
      then have "(2 :: nat) ^ (8 * length (byte # bs) - z) \<le> 2 ^ (8 * ?n + (7 - ?lz))"
        by (rule power_increasing) simp
      also have "\<dots> = 2 ^ (8 * ?n) * 2 ^ (7 - ?lz)" by (rule power_add)
      also have "\<dots> \<le> 2 ^ (8 * ?n) * unat byte" using lz by simp
      finally have "\<not> le_nat (rev (byte # bs)) < 2 ^ (8 * length (byte # bs) - z)"
        using v by simp
      with z lhs show ?thesis by simp
    qed
  qed
qed

text \<open>
  The byte loop that counts leading zeros decides the usual proof-of-work inequality: a hash
  meets a difficulty of \<open>bits\<close> exactly when its 256-bit big-endian value is below \<open>2^(256 - bits)\<close>.
\<close>

theorem hash_meets_work_iff:
  assumes "hash_ok h"
  shows "hash_meets_work h bits \<longleftrightarrow> le_nat (rev (hash_bytes h)) < 2 ^ (256 - unat bits)"
  using leading_zero_bits_loop_iff [of "unat bits" "hash_bytes h" 0] assms unat_u8_lt [of bits]
  by (simp add: hash_meets_work_def hash_leading_zero_bits_def hash_ok_def)

theorem hash_meets_work_iff_witness:
  "hash_meets_work (Hash256 (0 # 0x1f # replicate 30 0xff)) 11 \<longleftrightarrow>
    le_nat (rev (hash_bytes (Hash256 (0 # 0x1f # replicate 30 0xff)))) < 2 ^ (256 - unat (11 :: u8))"
  by (rule hash_meets_work_iff) (simp add: hash_ok_def)

lemma mine_loop_Some:
  "mine_loop X h seed n k = Some h' \<longleftrightarrow>
    (\<exists>m. n \<le> m \<and> m < n + k \<and> h' = h\<lparr>nonce := of_nat m\<rparr> \<and> header_meets_work X h' seed \<and>
      (\<forall>j. n \<le> j \<and> j < m \<longrightarrow> \<not> header_meets_work X (h\<lparr>nonce := of_nat j\<rparr>) seed))"
proof (induction k arbitrary: n)
  case 0
  show ?case by auto
next
  case (Suc k)
  show ?case
  proof (cases "header_meets_work X (h\<lparr>nonce := of_nat n\<rparr>) seed")
    case True
    then show ?thesis by (auto simp: Let_def) (metis le_neq_implies_less le_refl)
  next
    case False
    have "m = n \<or> Suc n \<le> m" if "n \<le> m" for m using that by auto
    with False Suc.IH [of "Suc n"] show ?thesis
      by (simp add: Let_def) (metis Suc_leD add_Suc_right add_Suc not_less_eq_eq le_antisym)
  qed
qed

text \<open>
  The nonce search is exhaustive and stops at the first hit: it returns the header with the
  least nonce in \<open>0..=max_nonce\<close> that meets the work, and returns nothing exactly when none does.
\<close>

theorem mine_header_least:
  "mine_header X h seed max_nonce = Some h' \<longleftrightarrow>
    (\<exists>m. m \<le> unat max_nonce \<and> h' = h\<lparr>nonce := of_nat m\<rparr> \<and> header_meets_work X h' seed \<and>
      (\<forall>j. j < m \<longrightarrow> \<not> header_meets_work X (h\<lparr>nonce := of_nat j\<rparr>) seed))"
  unfolding mine_header_def mine_loop_Some by (simp add: less_Suc_eq_le)

theorem mine_header_least_witness:
  "(\<exists>h'. mine_header demo_ext (header (genesis_block demo_ext ''c'' 1 0)) ZERO 3 = Some h') \<longleftrightarrow>
    (\<exists>h' m. m \<le> unat (3 :: u64) \<and> h' = header (genesis_block demo_ext ''c'' 1 0)\<lparr>nonce := of_nat m\<rparr> \<and>
      header_meets_work demo_ext h' ZERO \<and>
      (\<forall>j. j < m \<longrightarrow>
         \<not> header_meets_work demo_ext (header (genesis_block demo_ext ''c'' 1 0)\<lparr>nonce := of_nat j\<rparr>) ZERO))"
  by (simp only: mine_header_least)

text \<open>Multiplication by an odd word is injective.\<close>

lemma odd_mult_inject:
  fixes a b e :: u64
  assumes "a * (e OR 1) = b * (e OR 1)"
  shows "a = b"
proof -
  let ?o = "uint (e OR 1)"
  have "bit ?o 0" by (simp only: bit_uint_iff bit_or_iff) simp
  then have odd: "odd ?o" by (simp add: bit_0)
  have "uint (a * (e OR 1)) = uint (b * (e OR 1))" using assms by simp
  then have "(uint a * ?o) mod 2 ^ 64 = (uint b * ?o) mod 2 ^ 64" by (simp add: uint_word_ariths)
  then have "2 ^ 64 dvd uint a * ?o - uint b * ?o" by (simp add: mod_eq_dvd_iff)
  then have "2 ^ 64 dvd (uint a - uint b) * ?o" by (simp add: algebra_simps)
  moreover have "coprime (2 ^ 64) ?o"
    using odd by (simp only: coprime_power_left_iff coprime_left_2_iff_odd simp_thms)
  ultimately have "2 ^ 64 dvd uint a - uint b" by (simp add: coprime_dvd_mult_left_iff)
  then have "uint a mod 2 ^ 64 = uint b mod 2 ^ 64" by (simp add: mod_eq_dvd_iff)
  then show ?thesis using uint_lt2p [of a] uint_lt2p [of b] by (simp add: word_uint_eq_iff)
qed

text \<open>
  One TensorMix step loses nothing of the accumulator: for a fixed dataset element, distinct
  4-lane accumulators stay distinct (each lane is multiplied by an odd number modulo \<open>2^64\<close>).
\<close>

theorem tensor_mix_injective:
  assumes "length a = 4" and "length b = 4" and "tensor_mix a e = tensor_mix b e"
  shows "a = b"
proof (rule nth_equalityI)
  show "length a = length b" using assms by simp
  fix m assume "m < length a"
  then have m: "m \<in> set [0..<4]" using assms by simp
  with assms(3) have "a ! m * (e ! m OR 1) = b ! m * (e ! m OR 1)"
    by (auto simp: tensor_mix_def)
  then show "a ! m = b ! m" by (rule odd_mult_inject)
qed

theorem tensor_mix_injective_witness:
  "tensor_mix [1, 2, 3, 4] [5, 6, 7, 8] \<noteq> tensor_mix [1, 2, 3, 5] [5, 6, 7, 8]"
  using tensor_mix_injective [of "[1, 2, 3, 4]" "[1, 2, 3, 5]" "[5, 6, 7, 8]"] by auto

text \<open>
  The transaction id and the signature hash commit to the concatenation of the fields, not to
  their boundaries: bytes can be moved from the start of the payload to the end of the last
  output's script without changing either hash, whatever the digest function is.
\<close>

theorem signature_hash_boundary_ambiguous:
  "signature_hash X \<lparr> tx_id = i, inputs = ins,
      outputs = outs @ [\<lparr> value_atoms = v, script_pubkey = s \<rparr>], payload = p @ q \<rparr>
   = signature_hash X \<lparr> tx_id = i, inputs = ins,
      outputs = outs @ [\<lparr> value_atoms = v, script_pubkey = s @ p \<rparr>], payload = q \<rparr>"
  by (simp add: signature_hash_def transaction_id_def output_bytes_def)

lemma merkle_layer_double_last:
  "odd (length ls) \<Longrightarrow> merkle_layer X (ls @ [last ls]) = merkle_layer X ls"
  by (induction X ls rule: merkle_layer.induct) auto

text \<open>
  The merkle root does not determine the transaction list. It reads only the declared ids
  (never recomputed from the contents), and a list of odd length above one has the same root as
  the list with its last transaction repeated.
\<close>

theorem merkle_root_ambiguous:
  "(map tx_id txs = map tx_id txs' \<longrightarrow> merkle_root_of X txs = merkle_root_of X txs') \<and>
   (odd (length txs) \<and> 1 < length txs \<longrightarrow>
      merkle_root_of X (txs @ [last txs]) = merkle_root_of X txs)"
proof (intro conjI impI)
  assume "map tx_id txs = map tx_id txs'"
  then show "merkle_root_of X txs = merkle_root_of X txs'"
    by (auto simp: merkle_root_of_def)
next
  assume a: "odd (length txs) \<and> 1 < length txs"
  then have ne: "txs \<noteq> []" by auto
  let ?ls = "map tx_id txs"
  have "merkle_loop X (?ls @ [last ?ls]) = merkle_loop X (merkle_layer X (?ls @ [last ?ls]))"
    using ne by (subst merkle_loop.simps) simp
  also have "\<dots> = merkle_loop X (merkle_layer X ?ls)"
    using a merkle_layer_double_last [of ?ls X] by simp
  also have "\<dots> = merkle_loop X ?ls"
    using a by (simp add: merkle_loop.simps [of X ?ls])
  finally show "merkle_root_of X (txs @ [last txs]) = merkle_root_of X txs"
    using ne by (simp add: merkle_root_of_def last_map)
qed

theorem merkle_root_ambiguous_witness:
  "merkle_root_of demo_ext
      ([coinbase demo_ext 1 5 ''a'', coinbase demo_ext 2 5 ''b'', coinbase demo_ext 3 5 ''c'']
       @ [coinbase demo_ext 3 5 ''c''])
   = merkle_root_of demo_ext
      [coinbase demo_ext 1 5 ''a'', coinbase demo_ext 2 5 ''b'', coinbase demo_ext 3 5 ''c'']"
  using merkle_root_ambiguous
    [of "[coinbase demo_ext 1 5 ''a'', coinbase demo_ext 2 5 ''b'', coinbase demo_ext 3 5 ''c'']"
        "[]" demo_ext]
  by simp

end
