(* ===== verification/Block_Validation.thy ===== *)
theory Block_Validation
  imports Block_Model
begin

text \<open>
  Difficulty retargeting (\<open>crates/tensorium-core/src/difficulty.rs\<close>) and the context-dependent
  block checks (\<open>crates/tensorium-core/src/validation.rs\<close>). \<open>next.clamp(min, max)\<close> asserts
  \<open>min <= max\<close>; every network of \<open>chain.rs\<close> satisfies it and the theorems assume it.
\<close>

section \<open>Difficulty\<close>

record DifficultySample =
  first_timestamp_seconds :: u64
  last_timestamp_seconds :: u64
  current_leading_zero_bits :: u8
  block_count :: u64

definition clamp :: "'a::linorder \<Rightarrow> 'a \<Rightarrow> 'a \<Rightarrow> 'a" where
  "clamp x lo hi = (if x < lo then lo else if x > hi then hi else x)"

definition next_leading_zero_bits :: "ConsensusParams \<Rightarrow> DifficultySample \<Rightarrow> u8" where
  "next_leading_zero_bits p sample =
     (let expected = sat_mul (target_block_seconds p) (max (block_count sample) 1);
          actual = max (sat_sub (last_timestamp_seconds sample) (first_timestamp_seconds sample)) 1;
          next = (if actual < expected div 2 then sat_add (current_leading_zero_bits sample) 1
                  else if actual > expected * 2 then sat_sub (current_leading_zero_bits sample) 1
                  else current_leading_zero_bits sample)
      in clamp next (min_leading_zero_bits p) (max_leading_zero_bits p))"

definition expected_leading_zero_bits :: "ConsensusParams \<Rightarrow> u64 \<Rightarrow> DifficultySample option \<Rightarrow> u8" where
  "expected_leading_zero_bits p h sample =
     (if h < difficulty_retarget_activation_height p then initial_leading_zero_bits p
      else case sample of
             Some s \<Rightarrow> next_leading_zero_bits p s
           | None \<Rightarrow> initial_leading_zero_bits p)"

definition difficulty_params_ok :: "ConsensusParams \<Rightarrow> bool" where
  "difficulty_params_ok p \<longleftrightarrow>
     min_leading_zero_bits p \<le> initial_leading_zero_bits p
     \<and> initial_leading_zero_bits p \<le> max_leading_zero_bits p"

lemma networks_difficulty_ok [simp]:
  "difficulty_params_ok MAINNET" "difficulty_params_ok TESTNET" "difficulty_params_ok TEST_PARAMS"
  by (simp_all add: difficulty_params_ok_def mainnet_defs testnet_defs)

lemma clamp_bounds: "lo \<le> hi \<Longrightarrow> lo \<le> clamp x lo hi \<and> clamp x lo hi \<le> hi"
  by (auto simp: clamp_def)

lemma expected_bits_bounds:
  assumes "difficulty_params_ok p"
  shows "min_leading_zero_bits p \<le> expected_leading_zero_bits p h s
    \<and> expected_leading_zero_bits p h s \<le> max_leading_zero_bits p"
  using assms clamp_bounds [of "min_leading_zero_bits p" "max_leading_zero_bits p"]
  by (auto simp: expected_leading_zero_bits_def next_leading_zero_bits_def difficulty_params_ok_def Let_def
      split: option.splits)

lemma unat_max: "unat (max (a :: 'a::len word) b) = max (unat a) (unat b)"
  by (simp add: max_def word_le_nat_alt)

lemma unat_clamp: "unat (clamp (x :: 'a::len word) lo hi) = clamp (unat x) (unat lo) (unat hi)"
  by (simp add: clamp_def word_less_nat_alt)

text \<open>
  C34. Retargeting is what the specification says it is, in exact arithmetic: from a difficulty
  within the network's bounds, a window that took less than half its expected time raises the
  difficulty by one bit, one that took more than double lowers it by one, any other leaves it, and
  the result stays within the bounds. Backwards timestamps count as one second. The bound on the
  expected time excludes the wrap-around of \<open>expected * 2\<close>.
\<close>

theorem next_leading_zero_bits_spec:
  fixes p :: ConsensusParams and s :: DifficultySample
  defines "E \<equiv> unat (target_block_seconds p) * max (unat (block_count s)) 1"
    and "A \<equiv> max (unat (last_timestamp_seconds s) - unat (first_timestamp_seconds s)) 1"
    and "c \<equiv> unat (current_leading_zero_bits s)"
  assumes "min_leading_zero_bits p \<le> current_leading_zero_bits s"
    and "current_leading_zero_bits s \<le> max_leading_zero_bits p"
    and "2 * E < 2 ^ 64"
  shows "unat (next_leading_zero_bits p s) =
    (if A < E div 2 then min (c + 1) (unat (max_leading_zero_bits p))
     else if 2 * E < A then max (c - 1) (unat (min_leading_zero_bits p))
     else c)"
proof -
  let ?expected = "sat_mul (target_block_seconds p) (max (block_count s) 1)"
  let ?actual = "max (sat_sub (last_timestamp_seconds s) (first_timestamp_seconds s)) 1"
  have E: "unat ?expected = E" using assms(6) by (simp add: unat_sat_mul unat_max E_def)
  have A: "unat ?actual = A" by (simp add: unat_sat_sub unat_max A_def)
  have half: "?actual < ?expected div 2 \<longleftrightarrow> A < E div 2"
    by (simp add: word_less_nat_alt A E unat_div)
  have "unat (?expected * 2) = 2 * E" using assms(6) E by (simp add: unat_word_ariths mult.commute)
  then have dbl: "?expected * 2 < ?actual \<longleftrightarrow> 2 * E < A" by (simp add: word_less_nat_alt A)
  have b: "unat (min_leading_zero_bits p) \<le> c" "c \<le> unat (max_leading_zero_bits p)"
    "unat (max_leading_zero_bits p) \<le> 255"
    using assms(4,5) unat_u8_lt [of "max_leading_zero_bits p"] by (simp_all add: c_def word_le_nat_alt)
  have "unat (next_leading_zero_bits p s) =
      clamp (if A < E div 2 then min (c + 1) 255 else if 2 * E < A then c - 1 else c)
        (unat (min_leading_zero_bits p)) (unat (max_leading_zero_bits p))"
    unfolding next_leading_zero_bits_def Let_def unat_clamp half dbl
    by (simp add: unat_sat_add unat_sat_sub c_def)
  then show ?thesis using b by (auto simp: clamp_def)
qed

theorem next_leading_zero_bits_spec_witness:
  "unat (next_leading_zero_bits MAINNET
     \<lparr> first_timestamp_seconds = 0, last_timestamp_seconds = 1000, current_leading_zero_bits = 42, block_count = 60 \<rparr>) = 43"
  using next_leading_zero_bits_spec [of MAINNET "\<lparr> first_timestamp_seconds = 0, last_timestamp_seconds = 1000,
      current_leading_zero_bits = 42, block_count = 60 \<rparr>"]
  by (simp add: mainnet_defs)

section \<open>Block validation\<close>

datatype ValidationError =
    WrongChainId
  | WrongHeight
  | WrongPreviousHash
  | FutureTimestamp
  | InvalidMerkleRoot
  | InvalidProofOfWork
  | UnexpectedDifficulty
  | ValidationMissingCoinbase
  | FirstTransactionNotCoinbase

definition validate_coinbase :: "ConsensusParams \<Rightarrow> Block \<Rightarrow> (unit, ValidationError) result" where
  "validate_coinbase p b =
     (case transactions b of
        [] \<Rightarrow> Err ValidationMissingCoinbase
      | cb # _ \<Rightarrow> if \<not> is_coinbase cb then Err FirstTransactionNotCoinbase else Ok ())"

definition next_height :: "Block option \<Rightarrow> u64" where
  "next_height parent = (case parent of None \<Rightarrow> 0 | Some pb \<Rightarrow> height (header pb) + 1)"

definition validate_block ::
  "ext \<Rightarrow> ConsensusParams \<Rightarrow> Block option \<Rightarrow> Block \<Rightarrow> u64 \<Rightarrow> u8 \<Rightarrow> Hash256 \<Rightarrow> (unit, ValidationError) result" where
  "validate_block X p parent b now_seconds expected_bits epoch_seed =
     (if chain_id (header b) \<noteq> params_chain_id p then Err WrongChainId
      else if height (header b) \<noteq> next_height parent then Err WrongHeight
      else if (case parent of None \<Rightarrow> False | Some pb \<Rightarrow> previous_hash (header b) \<noteq> block_hash X pb)
      then Err WrongPreviousHash
      else if timestamp_seconds (header b) > now_seconds + max_future_block_time_seconds p
      then Err FutureTimestamp
      else if merkle_root (header b) \<noteq> merkle_root_of X (transactions b) then Err InvalidMerkleRoot
      else if leading_zero_bits (header b) \<noteq> expected_bits then Err UnexpectedDifficulty
      else if \<not> header_meets_work X (header b) epoch_seed then Err InvalidProofOfWork
      else validate_coinbase p b)"

lemma validate_block_Ok_iff:
  "validate_block X p parent b now bits seed = Ok () \<longleftrightarrow>
     chain_id (header b) = params_chain_id p \<and> height (header b) = next_height parent
     \<and> (\<forall>pb. parent = Some pb \<longrightarrow> previous_hash (header b) = block_hash X pb)
     \<and> timestamp_seconds (header b) \<le> now + max_future_block_time_seconds p
     \<and> merkle_root (header b) = merkle_root_of X (transactions b)
     \<and> leading_zero_bits (header b) = bits \<and> header_meets_work X (header b) seed
     \<and> (\<exists>cb txs. transactions b = cb # txs \<and> is_coinbase cb)"
  by (auto simp: validate_block_def validate_coinbase_def not_less split: option.splits list.splits if_splits)

end
