(* ===== verification/Script_VM.thy ===== *)
theory Script_VM
  imports Block_Model
begin

text \<open>
  The script interpreter: \<open>crates/tensorium-core/src/script/vm.rs\<close>. The stack is a list whose head is
  the end of the source's \<open>Vec\<close> (the top); likewise the stack of open conditionals. The interpreter
  loop \<open>while i < script.len()\<close> is a function on the rest of the script, \<open>script[i..]\<close>; it terminates
  because every iteration consumes at least one byte.
\<close>

section \<open>The interpreter\<close>

record ScriptContext =
  sig_hash :: Hash256
  block_height :: u64

type_synonym stack = "bytes list"

definition is_p2sh :: "bytes \<Rightarrow> bool" where
  "is_p2sh spk \<longleftrightarrow> length spk = 23 \<and> spk ! 0 = OP_HASH160 \<and> spk ! 1 = 0x14 \<and> spk ! 22 = OP_EQUAL"

definition is_truthy :: "bytes \<Rightarrow> bool" where
  "is_truthy item \<longleftrightarrow> item \<noteq> [] \<and> (\<exists>b \<in> set item. b \<noteq> 0)"

definition executing :: "bool list \<Rightarrow> bool" where
  "executing if_stack \<longleftrightarrow> if_stack = [] \<or> hd if_stack"

definition push_element :: "bytes \<Rightarrow> stack \<Rightarrow> (stack, ScriptError) result" where
  "push_element data st =
     (if length data > MAX_ELEMENT_SIZE then Err ElementTooLarge
      else if length st \<ge> MAX_STACK_DEPTH then Err StackOverflow
      else Ok (data # st))"

definition bool_item :: "bool \<Rightarrow> bytes" where
  "bool_item ok = (if ok then [0x01] else [])"

definition exec_checksig :: "ext \<Rightarrow> ScriptContext \<Rightarrow> bool \<Rightarrow> stack \<Rightarrow> (stack, ScriptError) result" where
  "exec_checksig X ctx allow_checksig st =
     (if \<not> allow_checksig then Err ScriptInSigContainsChecksig
      else case st of
        pubkey_bytes # sig_bytes # st' \<Rightarrow>
          (case vk_from_sec1 X pubkey_bytes of
             None \<Rightarrow> Err InvalidKey
           | Some vk \<Rightarrow>
               case sig_from_der X sig_bytes of
                 None \<Rightarrow> Err InvalidSignature
               | Some sg \<Rightarrow> Ok (bool_item (vk_verify X vk (hash_bytes (sig_hash ctx)) sg) # st'))
      | _ \<Rightarrow> Err StackUnderflow)"

text \<open>The inner \<open>while pub_idx < pubkeys.len()\<close>: the keys left after the first one that verifies.\<close>

fun multisig_find :: "ext \<Rightarrow> bytes \<Rightarrow> bytes \<Rightarrow> bytes list \<Rightarrow> bytes list option" where
  "multisig_find X msg sg [] = None"
| "multisig_find X msg sg (pk_bytes # pubkeys) =
     (case vk_from_sec1 X pk_bytes of
        Some vk \<Rightarrow> if vk_verify X vk msg sg then Some pubkeys else multisig_find X msg sg pubkeys
      | None \<Rightarrow> multisig_find X msg sg pubkeys)"

fun multisig_match :: "ext \<Rightarrow> bytes \<Rightarrow> bytes list \<Rightarrow> bytes list \<Rightarrow> bool" where
  "multisig_match X msg [] pubkeys = True"
| "multisig_match X msg (sig_bytes # sigs) pubkeys =
     (case sig_from_der X sig_bytes of
        None \<Rightarrow> False
      | Some sg \<Rightarrow>
          (case multisig_find X msg sg pubkeys of
             None \<Rightarrow> False
           | Some rest \<Rightarrow> multisig_match X msg sigs rest))"

definition exec_checkmultisig ::
  "ext \<Rightarrow> ScriptContext \<Rightarrow> bool \<Rightarrow> u8 \<Rightarrow> stack \<Rightarrow> (stack, ScriptError) result" where
  "exec_checkmultisig X ctx allow_checksig op st =
     (if \<not> allow_checksig then Err ScriptInSigContainsChecksig
      else case st of
        [] \<Rightarrow> Err StackUnderflow
      | n_item # st1 \<Rightarrow>
        if n_item = [] then Err (InvalidOpcode op)
        else let n = unat (hd n_item) in
        if n > 16 then Err (InvalidOpcode op)
        else if length st1 < n then Err StackUnderflow
        else let pubkeys = rev (take n st1) in
        case drop n st1 of
          [] \<Rightarrow> Err StackUnderflow
        | m_item # st2 \<Rightarrow>
          if m_item = [] then Err (InvalidOpcode op)
          else let m = unat (hd m_item) in
          if m > n then Err (InvalidOpcode op)
          else if length st2 < m then Err StackUnderflow
          else let sigs = rev (take m st2); st3 = drop m st2;
                   all_matched = multisig_match X (hash_bytes (sig_hash ctx)) sigs pubkeys in
          if op = OP_CHECKMULTISIGVERIFY
          then if \<not> all_matched then Err VerifyFailed else Ok st3
          else if length st3 \<ge> MAX_STACK_DEPTH then Err StackOverflow
          else Ok (bool_item all_matched # st3))"

definition exec_checklocktime :: "ScriptContext \<Rightarrow> stack \<Rightarrow> (stack, ScriptError) result" where
  "exec_checklocktime ctx st =
     (case st of
        [] \<Rightarrow> Err StackUnderflow
      | item # _ \<Rightarrow>
          if length item > 8 then Err LockTimeNotMet
          else if block_height ctx < u64_from_le_padded item then Err LockTimeNotMet
          else Ok st)"

definition exec_op :: "ext \<Rightarrow> ScriptContext \<Rightarrow> bool \<Rightarrow> u8 \<Rightarrow> stack \<Rightarrow> (stack, ScriptError) result" where
  "exec_op X ctx allow_checksig op st =
     (if op = OP_RETURN then Err VerifyFailed
      else if op = OP_DUP then
        (case st of [] \<Rightarrow> Err StackUnderflow
         | item # _ \<Rightarrow> if length st \<ge> MAX_STACK_DEPTH then Err StackOverflow else Ok (item # st))
      else if op = OP_DROP then
        (case st of [] \<Rightarrow> Err StackUnderflow | _ # st' \<Rightarrow> Ok st')
      else if op = OP_2DROP then
        (case st of _ # _ # st' \<Rightarrow> Ok st' | _ \<Rightarrow> Err StackUnderflow)
      else if op = OP_SWAP then
        (case st of a # b # st' \<Rightarrow> Ok (b # a # st') | _ \<Rightarrow> Err StackUnderflow)
      else if op = OP_SHA256 then
        (case st of [] \<Rightarrow> Err StackUnderflow | item # st' \<Rightarrow> Ok (sha256 X item # st'))
      else if op = OP_HASH160 then
        (case st of [] \<Rightarrow> Err StackUnderflow | item # st' \<Rightarrow> Ok (take 20 (sha256 X item) # st'))
      else if op = OP_CHECKSIG then exec_checksig X ctx allow_checksig st
      else if op = OP_EQUAL then
        (case st of b # a # st' \<Rightarrow> Ok (bool_item (a = b) # st') | _ \<Rightarrow> Err StackUnderflow)
      else if op = OP_EQUALVERIFY then
        (case st of b # a # st' \<Rightarrow> if a \<noteq> b then Err VerifyFailed else Ok st'
         | _ \<Rightarrow> Err StackUnderflow)
      else if op = OP_VERIFY then
        (case st of [] \<Rightarrow> Err StackUnderflow
         | item # st' \<Rightarrow> if \<not> is_truthy item then Err VerifyFailed else Ok st')
      else if 0x51 \<le> op \<and> op \<le> 0x60 then
        (if length st \<ge> MAX_STACK_DEPTH then Err StackOverflow else Ok ([op - 0x50] # st))
      else if op = OP_CHECKMULTISIG \<or> op = OP_CHECKMULTISIGVERIFY then
        exec_checkmultisig X ctx allow_checksig op st
      else if op = OP_0 then
        (if length st \<ge> MAX_STACK_DEPTH then Err StackOverflow else Ok ([] # st))
      else if op = OP_CHECKLOCKTIMEVERIFY then exec_checklocktime ctx st
      else Err (InvalidOpcode op))"

function run_loop ::
  "ext \<Rightarrow> ScriptContext \<Rightarrow> bool \<Rightarrow> bytes \<Rightarrow> bool list \<Rightarrow> stack \<Rightarrow> (stack, ScriptError) result" where
  "run_loop X ctx allow [] if_stack st = Ok st"
| "run_loop X ctx allow (op # rest) if_stack st =
     (if 0x01 \<le> op \<and> op \<le> 0x4b then
        let n = unat op in
        if n > length rest then Err UnexpectedEndOfScript
        else if executing if_stack
        then (case push_element (take n rest) st of
                Err e \<Rightarrow> Err e
              | Ok st' \<Rightarrow> run_loop X ctx allow (drop n rest) if_stack st')
        else run_loop X ctx allow (drop n rest) if_stack st
      else if op = 0x4c then
        (case rest of
           [] \<Rightarrow> Err UnexpectedEndOfScript
         | len # rest' \<Rightarrow>
             let n = unat len in
             if n > length rest' then Err UnexpectedEndOfScript
             else if executing if_stack
             then (case push_element (take n rest') st of
                     Err e \<Rightarrow> Err e
                   | Ok st' \<Rightarrow> run_loop X ctx allow (drop n rest') if_stack st')
             else run_loop X ctx allow (drop n rest') if_stack st)
      else if op = OP_IF then
        (if executing if_stack
         then (case st of
                 [] \<Rightarrow> Err StackUnderflow
               | item # st' \<Rightarrow> run_loop X ctx allow rest (is_truthy item # if_stack) st')
         else run_loop X ctx allow rest (False # if_stack) st)
      else if op = OP_ELSE then
        (case if_stack of
           [] \<Rightarrow> run_loop X ctx allow rest [] st
         | b # if_stack' \<Rightarrow> run_loop X ctx allow rest ((\<not> b) # if_stack') st)
      else if op = OP_ENDIF then run_loop X ctx allow rest (tl if_stack) st
      else if \<not> executing if_stack then run_loop X ctx allow rest if_stack st
      else (case exec_op X ctx allow op st of
              Err e \<Rightarrow> Err e
            | Ok st' \<Rightarrow> run_loop X ctx allow rest if_stack st'))"
  by pat_completeness auto
termination
  by (relation "measure (\<lambda>(X, ctx, allow, script, ifs, st). length script)") auto

declare run_loop.simps(2) [simp del]

definition run :: "ext \<Rightarrow> stack \<Rightarrow> bytes \<Rightarrow> ScriptContext \<Rightarrow> bool \<Rightarrow> (stack, ScriptError) result" where
  "run X st script ctx allow_checksig = run_loop X ctx allow_checksig script [] st"

definition stack_top_truthy :: "stack \<Rightarrow> bool" where
  "stack_top_truthy st = (case st of [] \<Rightarrow> False | item # _ \<Rightarrow> is_truthy item)"

definition execute :: "ext \<Rightarrow> bytes \<Rightarrow> bytes \<Rightarrow> ScriptContext \<Rightarrow> (bool, ScriptError) result" where
  "execute X script_sig script_pk ctx =
     (if length script_sig + length script_pk > MAX_SCRIPT_SIZE then Err ScriptTooLarge
      else case run X [] script_sig ctx False of
        Err e \<Rightarrow> Err e
      | Ok st \<Rightarrow>
          if is_p2sh script_pk then
            (case st of
               [] \<Rightarrow> Err StackUnderflow
             | redeem_script # st' \<Rightarrow>
                 let computed = take 20 (sha256 X redeem_script);
                     expected = take 20 (drop 2 script_pk) in
                 if computed \<noteq> expected then Err P2shHashMismatch
                 else case run X st' redeem_script ctx True of
                        Err e \<Rightarrow> Err e
                      | Ok st'' \<Rightarrow> Ok (stack_top_truthy st''))
          else
            (case run X st script_pk ctx True of
               Err e \<Rightarrow> Err e
             | Ok st' \<Rightarrow> Ok (stack_top_truthy st')))"

section \<open>Stepping rules\<close>

text \<open>One rule per kind of instruction, over an executing branch; the proofs about concrete
  templates rewrite with these.\<close>

lemma run_push:
  assumes "length d = n" and "1 \<le> n" and "n \<le> 75" and "executing ifs"
  shows "run_loop X ctx allow (of_nat n # d @ rest) ifs st =
    (if length st \<ge> MAX_STACK_DEPTH then Err StackOverflow
     else run_loop X ctx allow rest ifs (d # st))"
proof -
  have u: "unat (of_nat n :: u8) = n" using assms by (intro unat_of_nat_u8) simp
  then have "0x01 \<le> (of_nat n :: u8)" "(of_nat n :: u8) \<le> 0x4b"
    using assms by (simp_all add: word_le_nat_alt)
  with assms u show ?thesis
    by (simp add: run_loop.simps(2) push_element_def MAX_ELEMENT_SIZE_def Let_def)
qed

lemma run_push_skip:
  assumes "length d = n" and "1 \<le> n" and "n \<le> 75" and "\<not> executing ifs"
  shows "run_loop X ctx allow (of_nat n # d @ rest) ifs st = run_loop X ctx allow rest ifs st"
proof -
  have u: "unat (of_nat n :: u8) = n" using assms by (intro unat_of_nat_u8) simp
  then have "0x01 \<le> (of_nat n :: u8)" "(of_nat n :: u8) \<le> 0x4b"
    using assms by (simp_all add: word_le_nat_alt)
  with assms u show ?thesis
    by (simp add: run_loop.simps(2) Let_def)
qed

definition plain_op :: "u8 \<Rightarrow> bool" where
  "plain_op op \<longleftrightarrow> \<not> (0x01 \<le> op \<and> op \<le> 0x4b) \<and> op \<noteq> 0x4c \<and> op \<noteq> OP_IF \<and> op \<noteq> OP_ELSE \<and> op \<noteq> OP_ENDIF"

lemma run_plain:
  "plain_op op \<Longrightarrow> executing ifs \<Longrightarrow>
    run_loop X ctx allow (op # rest) ifs st =
      res_bind (exec_op X ctx allow op st) (run_loop X ctx allow rest ifs)"
  by (auto simp: run_loop.simps(2) plain_op_def split: sum.splits)

lemma run_plain_skip:
  "plain_op op \<Longrightarrow> \<not> executing ifs \<Longrightarrow>
    run_loop X ctx allow (op # rest) ifs st = run_loop X ctx allow rest ifs st"
  by (auto simp: run_loop.simps(2) plain_op_def)

lemma run_control:
  "run_loop X ctx allow (OP_IF # rest) ifs st =
    (if executing ifs then (case st of [] \<Rightarrow> Err StackUnderflow
       | item # st' \<Rightarrow> run_loop X ctx allow rest (is_truthy item # ifs) st')
     else run_loop X ctx allow rest (False # ifs) st)"
  "run_loop X ctx allow (OP_ELSE # rest) (b # ifs) st = run_loop X ctx allow rest ((\<not> b) # ifs) st"
  "run_loop X ctx allow (OP_ENDIF # rest) ifs st = run_loop X ctx allow rest (tl ifs) st"
  by (simp_all add: run_loop.simps(2) opcode_defs)

lemma executing_simps [simp]: "executing []" "executing (b # bs) = b"
  by (simp_all add: executing_def)

lemma plain_ops [simp]:
  "plain_op OP_RETURN" "plain_op OP_DUP" "plain_op OP_DROP" "plain_op OP_SHA256" "plain_op OP_HASH160"
  "plain_op OP_CHECKSIG" "plain_op OP_EQUAL" "plain_op OP_EQUALVERIFY"
  "plain_op OP_CHECKLOCKTIMEVERIFY" "plain_op OP_0" "plain_op OP_1" "plain_op OP_CHECKMULTISIG"
  by (simp_all add: plain_op_def opcode_defs)

lemma exec_op_simps:
  "exec_op X ctx allow OP_RETURN st = Err VerifyFailed"
  "exec_op X ctx allow OP_DUP st = (case st of [] \<Rightarrow> Err StackUnderflow
     | item # _ \<Rightarrow> if length st \<ge> MAX_STACK_DEPTH then Err StackOverflow else Ok (item # st))"
  "exec_op X ctx allow OP_DROP st = (case st of [] \<Rightarrow> Err StackUnderflow | _ # st' \<Rightarrow> Ok st')"
  "exec_op X ctx allow OP_SHA256 st = (case st of [] \<Rightarrow> Err StackUnderflow | item # st' \<Rightarrow> Ok (sha256 X item # st'))"
  "exec_op X ctx allow OP_HASH160 st = (case st of [] \<Rightarrow> Err StackUnderflow | item # st' \<Rightarrow> Ok (take 20 (sha256 X item) # st'))"
  "exec_op X ctx allow OP_CHECKSIG st = exec_checksig X ctx allow st"
  "exec_op X ctx allow OP_EQUALVERIFY st = (case st of b # a # st' \<Rightarrow> if a \<noteq> b then Err VerifyFailed else Ok st'
     | _ \<Rightarrow> Err StackUnderflow)"
  "exec_op X ctx allow OP_CHECKLOCKTIMEVERIFY st = exec_checklocktime ctx st"
  "exec_op X ctx allow OP_0 st = (if length st \<ge> MAX_STACK_DEPTH then Err StackOverflow else Ok ([] # st))"
  "exec_op X ctx allow OP_1 st = (if length st \<ge> MAX_STACK_DEPTH then Err StackOverflow else Ok ([1] # st))"
  by (simp_all add: exec_op_def opcode_defs)

lemmas run_steps = run_plain run_plain_skip run_control exec_op_simps

end
