(* ===== verification/Script_Security.thy ===== *)
theory Script_Security
  imports Script_VM
begin

text \<open>
  What the interpreter guarantees: its resource limits, and for each standard locking script what
  an accepted spend proves. The security statements quantify over every unlocking script, not only
  the one the wallet builds.
\<close>

section \<open>Resource limits\<close>

definition stack_ok :: "stack \<Rightarrow> bool" where
  "stack_ok st \<longleftrightarrow> length st \<le> MAX_STACK_DEPTH \<and> (\<forall>e \<in> set st. length e \<le> MAX_ELEMENT_SIZE)"

lemma bool_item_length [simp]: "length (bool_item b) \<le> MAX_ELEMENT_SIZE"
  by (simp add: bool_item_def MAX_ELEMENT_SIZE_def)

lemma stack_ok_Cons:
  "stack_ok (e # st) \<longleftrightarrow> length st < MAX_STACK_DEPTH \<and> length e \<le> MAX_ELEMENT_SIZE \<and> stack_ok st"
  by (auto simp: stack_ok_def)

lemma stack_ok_drop: "stack_ok st \<Longrightarrow> stack_ok (drop n st)"
  by (auto simp: stack_ok_def dest: in_set_dropD)

lemma push_element_ok: "push_element d st = Ok st' \<Longrightarrow> stack_ok st \<Longrightarrow> stack_ok st'"
  by (auto simp: push_element_def stack_ok_Cons split: if_splits)

lemma exec_checksig_ok: "exec_checksig X ctx a st = Ok st' \<Longrightarrow> stack_ok st \<Longrightarrow> stack_ok st'"
  by (auto simp: exec_checksig_def stack_ok_Cons split: if_splits list.splits option.splits)

lemma exec_checkmultisig_ok:
  assumes "exec_checkmultisig X ctx a op st = Ok st'" and "stack_ok st"
  shows "stack_ok st'"
proof -
  obtain n_item st1 where st: "st = n_item # st1"
    using assms(1) by (auto simp: exec_checkmultisig_def split: if_splits list.splits)
  let ?n = "unat (hd n_item)"
  obtain m_item st2 where d: "drop ?n st1 = m_item # st2"
    using assms(1) by (auto simp: exec_checkmultisig_def Let_def st split: if_splits list.splits)
  let ?m = "unat (hd m_item)"
  have "stack_ok (drop ?n st1)" using assms(2) by (simp add: st stack_ok_Cons stack_ok_drop)
  then have "stack_ok (drop ?m st2)" by (simp add: d stack_ok_Cons stack_ok_drop)
  moreover have "st' = drop ?m st2 \<or> (\<exists>b. st' = bool_item b # drop ?m st2 \<and> length (drop ?m st2) < MAX_STACK_DEPTH)"
    using assms(1) by (auto simp: exec_checkmultisig_def Let_def st d split: if_splits)
  ultimately show ?thesis by (auto simp: stack_ok_Cons)
qed

lemma exec_op_ok:
  assumes "digest_len X" and "exec_op X ctx a op st = Ok st'" and "stack_ok st"
  shows "stack_ok st'"
proof -
  have sha: "length (sha256 X d) \<le> MAX_ELEMENT_SIZE" for d
    using assms(1) by (simp add: digest_len_def MAX_ELEMENT_SIZE_def)
  have one: "Suc 0 \<le> MAX_ELEMENT_SIZE" "20 \<le> MAX_ELEMENT_SIZE"
    by (simp_all add: MAX_ELEMENT_SIZE_def)
  show ?thesis
    using assms(2,3) sha one
    by (auto simp: exec_op_def stack_ok_Cons exec_checklocktime_def min_def
        split: if_splits list.splits dest: exec_checksig_ok exec_checkmultisig_ok)
qed

text \<open>One iteration of the loop: what is left of the script is shorter, and the stack is unchanged,
  pushed to, popped by a conditional, or changed by one opcode.\<close>

definition stack_step :: "ext \<Rightarrow> ScriptContext \<Rightarrow> bool \<Rightarrow> stack \<Rightarrow> stack \<Rightarrow> bool" where
  "stack_step X ctx allow st st1 \<longleftrightarrow>
     st1 = st \<or> (\<exists>d. push_element d st = Ok st1) \<or> (\<exists>item. st = item # st1)
     \<or> (\<exists>op. exec_op X ctx allow op st = Ok st1)"

lemma stack_step_intros:
  "stack_step X ctx allow st st"
  "push_element d st = Ok st1 \<Longrightarrow> stack_step X ctx allow st st1"
  "stack_step X ctx allow (item # st1) st1"
  "exec_op X ctx allow op st = Ok st1 \<Longrightarrow> stack_step X ctx allow st st1"
  by (auto simp: stack_step_def)

definition loop_next ::
  "ext \<Rightarrow> ScriptContext \<Rightarrow> bool \<Rightarrow> nat \<Rightarrow> stack \<Rightarrow> stack \<Rightarrow> bool" where
  "loop_next X ctx allow n st st' \<longleftrightarrow>
     (\<exists>rest' ifs' st1. length rest' \<le> n \<and> run_loop X ctx allow rest' ifs' st1 = Ok st'
        \<and> stack_step X ctx allow st st1)"

lemma loop_nextI:
  "run_loop X ctx allow rest' ifs' st1 = Ok st' \<Longrightarrow> length rest' \<le> n \<Longrightarrow>
    stack_step X ctx allow st st1 \<Longrightarrow> loop_next X ctx allow n st st'"
  by (auto simp: loop_next_def)

lemma loop_next_push:
  assumes "(if n > length r then Err UnexpectedEndOfScript
        else if executing ifs
        then (case push_element (take n r) st of
                Err e \<Rightarrow> Err e
              | Ok st' \<Rightarrow> run_loop X ctx allow (drop n r) ifs st')
        else run_loop X ctx allow (drop n r) ifs st) = Ok st'"
    and "length r \<le> k"
  shows "loop_next X ctx allow k st st'"
proof (cases "executing ifs")
  case True
  with assms(1) obtain st1 where "push_element (take n r) st = Ok st1"
    and "run_loop X ctx allow (drop n r) ifs st1 = Ok st'"
    by (auto split: if_splits sum.splits)
  with assms(2) show ?thesis
    by (intro loop_nextI [where rest' = "drop n r"]) (auto intro: stack_step_intros)
next
  case False
  with assms show ?thesis
    by (intro loop_nextI [where rest' = "drop n r"]) (auto intro: stack_step_intros split: if_splits)
qed

lemma run_loop_step:
  assumes "run_loop X ctx allow (op # rest) ifs st = Ok st'"
  shows "loop_next X ctx allow (length rest) st st'"
proof -
  consider (push) "0x01 \<le> op \<and> op \<le> 0x4b" | (push1) "op = 0x4c"
    | (control) "op = OP_IF \<or> op = OP_ELSE \<or> op = OP_ENDIF" | (plain) "plain_op op"
    unfolding plain_op_def by blast
  then show ?thesis
  proof cases
    case push
    with assms show ?thesis
      by (simp only: run_loop.simps(2) Let_def simp_thms if_True) (erule loop_next_push, rule order_refl)
  next
    case push1
    then have "\<not> (0x01 \<le> op \<and> op \<le> 0x4b)" by simp
    with assms push1 show ?thesis
      by (simp only: run_loop.simps(2) Let_def simp_thms if_True if_False split: list.splits)
        (auto elim!: loop_next_push)
  next
    case control
    then show ?thesis
    proof (elim disjE)
      assume "op = OP_IF"
      with assms show ?thesis
        by (auto simp: run_control intro: loop_nextI stack_step_intros split: if_splits list.splits)
    next
      assume "op = OP_ELSE"
      with assms show ?thesis
        by (auto simp: run_loop.simps(2) opcode_defs intro: loop_nextI stack_step_intros split: list.splits)
    next
      assume "op = OP_ENDIF"
      with assms show ?thesis by (auto simp: run_control intro: loop_nextI stack_step_intros)
    qed
  next
    case plain
    with assms show ?thesis
      by (cases "executing ifs")
        (auto simp: run_plain run_plain_skip res_bind_Ok_iff intro: loop_nextI stack_step_intros)
  qed
qed

lemma run_loop_invariant:
  assumes "run_loop X ctx allow script ifs st = Ok st'" and "P st"
    and step: "\<And>st st1. stack_step X ctx allow st st1 \<Longrightarrow> P st \<Longrightarrow> P st1"
  shows "P st'"
  using assms(1,2)
proof (induction script arbitrary: ifs st rule: length_induct)
  case (1 script)
  show ?case
  proof (cases script)
    case Nil
    with "1.prems" show ?thesis by simp
  next
    case (Cons c rest)
    with "1.prems"(1) have "loop_next X ctx allow (length rest) st st'" by (auto intro: run_loop_step)
    then obtain rest' ifs' st1 where "length rest' \<le> length rest"
      and "run_loop X ctx allow rest' ifs' st1 = Ok st'" and "stack_step X ctx allow st st1"
      by (auto simp: loop_next_def)
    with "1.IH" "1.prems"(2) step Cons show ?thesis by (metis le_imp_less_Suc length_Cons)
  qed
qed

text \<open>
  Script execution keeps its resource limits: from an empty stack (or any stack within the
  limits) no instruction sequence ever leaves more than \<open>MAX_STACK_DEPTH\<close> items or an item longer
  than \<open>MAX_ELEMENT_SIZE\<close>, although several opcodes push without their own check.
\<close>

theorem run_keeps_limits:
  assumes "digest_len X" and "run_loop X ctx allow script ifs st = Ok st'" and "stack_ok st"
  shows "stack_ok st'"
  using assms(2,3)
  by (rule run_loop_invariant [where P = stack_ok])
    (auto simp: stack_step_def stack_ok_Cons intro: push_element_ok exec_op_ok [OF assms(1)])

theorem run_keeps_limits_witness:
  "\<exists>st'. run_loop demo_ext \<lparr> sig_hash = ZERO, block_height = 0 \<rparr> True [OP_1, OP_DUP] [] [] = Ok st' \<and> stack_ok st'"
proof -
  have r: "run_loop demo_ext \<lparr> sig_hash = ZERO, block_height = 0 \<rparr> True [OP_1, OP_DUP] [] [] = Ok [[1], [1]]"
    by (simp add: run_steps MAX_STACK_DEPTH_def)
  show ?thesis using r run_keeps_limits [OF demo_digest_len r] by (simp add: stack_ok_def)
qed

section \<open>What an accepted spend proves\<close>

text \<open>The transaction was signed by a key that hashes to \<open>h\<close>.\<close>

definition key_signed :: "ext \<Rightarrow> ScriptContext \<Rightarrow> bytes \<Rightarrow> bool" where
  "key_signed X ctx h \<longleftrightarrow>
     (\<exists>pk der vk sg. take 20 (sha256 X pk) = h \<and> vk_from_sec1 X pk = Some vk
        \<and> sig_from_der X der = Some sg \<and> vk_verify X vk (hash_bytes (sig_hash ctx)) sg)"

definition p2pkh_tail :: "bytes \<Rightarrow> bytes" where
  "p2pkh_tail h = [OP_DUP, OP_HASH160, 0x14] @ h @ [OP_EQUALVERIFY, OP_CHECKSIG]"

lemma is_truthy_bool_item [simp]: "is_truthy (bool_item b) = b"
  by (simp add: is_truthy_def bool_item_def)

lemma run_push20:
  "length h = 20 \<Longrightarrow> executing ifs \<Longrightarrow>
    run_loop X ctx allow (0x14 # h @ rest) ifs st =
      (if length st \<ge> MAX_STACK_DEPTH then Err StackOverflow else run_loop X ctx allow rest ifs (h # st))"
  using run_push [of h 20 ifs] by simp

lemma run_push20_skip:
  "length h = 20 \<Longrightarrow> \<not> executing ifs \<Longrightarrow>
    run_loop X ctx allow (0x14 # h @ rest) ifs st = run_loop X ctx allow rest ifs st"
  using run_push_skip [of h 20 ifs] by simp

lemma run_push32:
  "length h = 32 \<Longrightarrow> executing ifs \<Longrightarrow>
    run_loop X ctx allow (0x20 # h @ rest) ifs st =
      (if length st \<ge> MAX_STACK_DEPTH then Err StackOverflow else run_loop X ctx allow rest ifs (h # st))"
  using run_push [of h 32 ifs] by simp

lemma run_push32_skip:
  "length h = 32 \<Longrightarrow> \<not> executing ifs \<Longrightarrow>
    run_loop X ctx allow (0x20 # h @ rest) ifs st = run_loop X ctx allow rest ifs st"
  using run_push_skip [of h 32 ifs] by simp

lemma run_push_locktime:
  "executing ifs \<Longrightarrow>
    run_loop X ctx allow (of_nat (length (encode_locktime l)) # encode_locktime l @ rest) ifs st =
      (if length st \<ge> MAX_STACK_DEPTH then Err StackOverflow
       else run_loop X ctx allow rest ifs (encode_locktime l # st))"
  "\<not> executing ifs \<Longrightarrow>
    run_loop X ctx allow (of_nat (length (encode_locktime l)) # encode_locktime l @ rest) ifs st =
      run_loop X ctx allow rest ifs st"
  using encode_locktime_length [of l] by (auto simp: run_push run_push_skip)

lemma run_locktime_gate:
  assumes "run_loop X ctx allow (OP_CHECKLOCKTIMEVERIFY # OP_DROP # rest) ifs (encode_locktime l # st) = Ok st'"
    and "executing ifs"
  shows "l \<le> block_height ctx \<and> run_loop X ctx allow rest ifs st = Ok st'"
  using assms encode_locktime_length [of l]
  by (auto simp: run_steps exec_checklocktime_def locktime_roundtrip split: if_splits)

lemma run_p2pkh_skip:
  "length h = 20 \<Longrightarrow> \<not> executing ifs \<Longrightarrow>
    run_loop X ctx allow (p2pkh_tail h @ rest) ifs st = run_loop X ctx allow rest ifs st"
  by (simp add: p2pkh_tail_def run_steps run_push20_skip)

lemma run_p2pkh_tail:
  assumes "run_loop X ctx allow (p2pkh_tail h @ rest) ifs st = Ok st'"
    and "length h = 20" and "executing ifs"
  shows "\<exists>b st0. run_loop X ctx allow rest ifs (bool_item b # st0) = Ok st' \<and> (b \<longrightarrow> key_signed X ctx h)"
proof -
  obtain pk st1 where st: "st = pk # st1"
    using assms by (cases st) (auto simp: p2pkh_tail_def run_steps)
  have eq: "take 20 (sha256 X pk) = h"
    and r: "res_bind (exec_checksig X ctx allow (pk # st1)) (run_loop X ctx allow rest ifs) = Ok st'"
    using assms
    by (simp_all add: st p2pkh_tail_def run_steps run_push20 split: if_splits)
  from r obtain der st0 vk sg where "vk_from_sec1 X pk = Some vk" "sig_from_der X der = Some sg"
    and "run_loop X ctx allow rest ifs (bool_item (vk_verify X vk (hash_bytes (sig_hash ctx)) sg) # st0) = Ok st'"
    by (auto simp: exec_checksig_def res_bind_Ok_iff split: if_splits list.splits option.splits)
  with eq show ?thesis
    by (intro exI [of _ "vk_verify X vk (hash_bytes (sig_hash ctx)) sg"] exI [of _ st0])
      (auto simp: key_signed_def)
qed

lemma run_p2pkh_end:
  assumes "run_loop X ctx allow (p2pkh_tail h) [] st = Ok st'" and "stack_top_truthy st'" and "length h = 20"
  shows "key_signed X ctx h"
  using run_p2pkh_tail [of X ctx allow h "[]" "[]" st st'] assms by (auto simp: stack_top_truthy_def)

lemma execute_run:
  assumes "execute X script_sig spk ctx = Ok True" and "\<not> is_p2sh spk"
  obtains st st' where "run_loop X ctx True spk [] st = Ok st'" and "stack_top_truthy st'"
  using assms by (auto simp: execute_def run_def split: if_splits sum.splits)

lemma stack_top_truthy_Cons [simp]: "stack_top_truthy (item # st) = is_truthy item"
  by (simp add: stack_top_truthy_def)

lemma p2pkh_sound:
  assumes "p2pkh_script h = Some spk" and ex: "execute X script_sig spk ctx = Ok True"
  shows "key_signed X ctx h"
proof -
  from assms(1) have h: "length h = 20" and eq: "spk = p2pkh_tail h"
    by (auto simp: p2pkh_script_def p2pkh_tail_def split: if_splits)
  then have "\<not> is_p2sh spk" by (simp add: is_p2sh_def p2pkh_tail_def)
  with ex obtain st st' where "run_loop X ctx True spk [] st = Ok st'" "stack_top_truthy st'"
    by (rule execute_run)
  with h show ?thesis unfolding eq by (auto intro: run_p2pkh_end)
qed

lemma cltv_sound:
  assumes "length h = 20" and ex: "execute X script_sig (cltv_p2pkh_script lt h) ctx = Ok True"
  shows "lt \<le> block_height ctx \<and> key_signed X ctx h"
proof -
  let ?lt = "encode_locktime lt"
  let ?spk = "cltv_p2pkh_script lt h"
  have len: "1 \<le> length ?lt" "length ?lt \<le> 8" using encode_locktime_length by auto
  have eq: "?spk = of_nat (length ?lt) # ?lt @ [OP_CHECKLOCKTIMEVERIFY, OP_DROP] @ p2pkh_tail h"
    by (simp add: cltv_p2pkh_script_def p2pkh_tail_def Let_def)
  have "\<not> is_p2sh ?spk" using assms len by (simp add: eq p2pkh_tail_def is_p2sh_def)
  with ex obtain st st' where r: "run_loop X ctx True ?spk [] st = Ok st'" "stack_top_truthy st'"
    by (rule execute_run)
  then have "run_loop X ctx True ([OP_CHECKLOCKTIMEVERIFY, OP_DROP] @ p2pkh_tail h) [] (?lt # st) = Ok st'"
    by (simp add: eq run_push_locktime split: if_splits)
  then have "lt \<le> block_height ctx" "run_loop X ctx True (p2pkh_tail h) [] st = Ok st'"
    by (auto dest: run_locktime_gate)
  with r(2) assms show ?thesis by (auto intro: run_p2pkh_end)
qed

text \<open>
  Theft resistance of the standard outputs, against every unlocking script: a spend of a
  pay-to-public-key-hash output is accepted only if some key hashing to the locked hash signed the
  transaction, and a vesting (CLTV) output needs in addition that the height reached the locktime.
\<close>

theorem p2pkh_soundness:
  assumes "length h = 20"
  shows "(p2pkh_script h = Some spk \<and> execute X script_sig spk ctx = Ok True \<longrightarrow> key_signed X ctx h) \<and>
    (execute X script_sig (cltv_p2pkh_script lt h) ctx = Ok True \<longrightarrow>
       lt \<le> block_height ctx \<and> key_signed X ctx h)"
  using p2pkh_sound cltv_sound [OF assms] by blast


section \<open>Completeness\<close>

lemma run_push_data:
  assumes "1 \<le> length d" and "length d \<le> 75" and "executing ifs"
  shows "run_loop X ctx allow (push_data d @ rest) ifs st =
    (if length st \<ge> MAX_STACK_DEPTH then Err StackOverflow else run_loop X ctx allow rest ifs (d # st))"
  using assms by (simp add: push_data_def run_push)

text \<open>A key and a signature that unlock the hash \<open>h\<close>, short enough for a one-byte push.\<close>

definition unlocks :: "ext \<Rightarrow> ScriptContext \<Rightarrow> bytes \<Rightarrow> bytes \<Rightarrow> bytes \<Rightarrow> bool" where
  "unlocks X ctx pk der h \<longleftrightarrow>
     (\<exists>vk sg. vk_from_sec1 X pk = Some vk \<and> sig_from_der X der = Some sg
        \<and> vk_verify X vk (hash_bytes (sig_hash ctx)) sg)
     \<and> take 20 (sha256 X pk) = h \<and> length h = 20
     \<and> 1 \<le> length pk \<and> length pk \<le> 75 \<and> 1 \<le> length der \<and> length der \<le> 75"

lemma run_p2pkh_accept:
  assumes "unlocks X ctx pk der h" and "executing ifs" and "length st < 90"
  shows "run_loop X ctx True (p2pkh_tail h @ rest) ifs (pk # der # st)
    = run_loop X ctx True rest ifs (bool_item True # st)"
  using assms
  by (auto simp: unlocks_def p2pkh_tail_def run_steps run_push20 exec_checksig_def MAX_STACK_DEPTH_def)

lemma run_script_sig:
  assumes "unlocks X ctx pk der h"
  shows "run_loop X ctx False (push_data der @ push_data pk @ rest) [] [] = run_loop X ctx False rest [] [pk, der]"
  using assms by (simp add: unlocks_def run_push_data MAX_STACK_DEPTH_def)

lemma htlc_split:
  "htlc_script hash recipient refund lt =
    [OP_IF, OP_SHA256] @ (0x20 # hash @ OP_EQUALVERIFY # p2pkh_tail recipient @
      OP_ELSE # of_nat (length (encode_locktime lt)) # encode_locktime lt
      @ OP_CHECKLOCKTIMEVERIFY # OP_DROP # p2pkh_tail refund @ [OP_ENDIF])"
  by (simp add: htlc_script_def p2pkh_tail_def Let_def)

lemma length_p2pkh_tail [simp]: "length (p2pkh_tail h) = length h + 5"
  by (simp add: p2pkh_tail_def)

lemma execute_accept:
  assumes "run_loop X ctx False script_sig [] [] = Ok st" and "run_loop X ctx True spk [] st = Ok (bool_item True # st')"
    and "\<not> is_p2sh spk" and "length script_sig + length spk \<le> MAX_SCRIPT_SIZE"
  shows "execute X script_sig spk ctx = Ok True"
  using assms by (simp add: execute_def run_def)

lemma p2pkh_accepts:
  assumes "unlocks X ctx pk der h" and "p2pkh_script h = Some spk"
  shows "execute X (p2pkh_script_sig der pk) spk ctx = Ok True"
proof (rule execute_accept)
  from assms have h: "length h = 20" and spk: "spk = p2pkh_tail h"
    by (auto simp: unlocks_def p2pkh_script_def p2pkh_tail_def)
  show "run_loop X ctx False (p2pkh_script_sig der pk) [] [] = Ok [pk, der]"
    using run_script_sig [OF assms(1), of "[]"] by (simp add: p2pkh_script_sig_def)
  show "run_loop X ctx True spk [] [pk, der] = Ok (bool_item True # [])"
    using run_p2pkh_accept [OF assms(1), of "[]" "[]" "[]"] by (simp add: spk)
  show "\<not> is_p2sh spk" using h by (simp add: spk is_p2sh_def)
  show "length (p2pkh_script_sig der pk) + length spk \<le> MAX_SCRIPT_SIZE"
    using assms(1) h by (simp add: p2pkh_script_sig_def spk unlocks_def MAX_SCRIPT_SIZE_def)
qed

lemma cltv_accepts:
  assumes "unlocks X ctx pk der h" and "lt \<le> block_height ctx"
  shows "execute X (p2pkh_script_sig der pk) (cltv_p2pkh_script lt h) ctx = Ok True"
proof (rule execute_accept)
  have h: "length h = 20" using assms(1) by (simp add: unlocks_def)
  let ?lt = "encode_locktime lt" and ?spk = "cltv_p2pkh_script lt h"
  have len: "1 \<le> length ?lt" "length ?lt \<le> 8" using encode_locktime_length by auto
  have eq: "?spk = of_nat (length ?lt) # ?lt @ [OP_CHECKLOCKTIMEVERIFY, OP_DROP] @ p2pkh_tail h"
    by (simp add: cltv_p2pkh_script_def p2pkh_tail_def Let_def)
  have gate: "exec_checklocktime ctx (?lt # st) = Ok (?lt # st)" for st
    using assms(2) len by (simp add: exec_checklocktime_def locktime_roundtrip)
  show "run_loop X ctx False (p2pkh_script_sig der pk) [] [] = Ok [pk, der]"
    using run_script_sig [OF assms(1), of "[]"] by (simp add: p2pkh_script_sig_def)
  show "run_loop X ctx True ?spk [] [pk, der] = Ok (bool_item True # [])"
    using run_p2pkh_accept [OF assms(1), of "[]" "[]" "[]"]
    by (simp add: eq run_push_locktime run_steps gate MAX_STACK_DEPTH_def)
  show "\<not> is_p2sh ?spk" using h len by (simp add: eq p2pkh_tail_def is_p2sh_def)
  show "length (p2pkh_script_sig der pk) + length ?spk \<le> MAX_SCRIPT_SIZE"
    using assms(1) h len by (simp add: p2pkh_script_sig_def eq unlocks_def MAX_SCRIPT_SIZE_def)
qed

lemma htlc_claim_accepts:
  assumes "unlocks X ctx pk der h" and "digest_len X" and "length other = 20" and "1 \<le> length preimage"
    and "htlc_claim_script_sig der pk preimage = Some claim"
  shows "execute X claim (htlc_script (sha256 X preimage) h other lt) ctx = Ok True"
proof (rule execute_accept)
  from assms(5) have pre: "length preimage \<le> 75"
    and claim: "claim = push_data der @ push_data pk @ push_data preimage @ [OP_1]"
    by (auto simp: htlc_claim_script_sig_def split: if_splits)
  have h: "length h = 20" using assms(1) by (simp add: unlocks_def)
  have sha: "length (sha256 X preimage) = 32" using assms(2) by (simp add: digest_len_def)
  let ?spk = "htlc_script (sha256 X preimage) h other lt"
  show "run_loop X ctx False claim [] [] = Ok [[1], preimage, pk, der]"
    using run_script_sig [OF assms(1)] assms(4) pre
    by (simp add: claim run_push_data run_steps MAX_STACK_DEPTH_def)
  show "run_loop X ctx True ?spk [] [[1], preimage, pk, der] = Ok (bool_item True # [])"
    using assms(3) sha
    by (simp add: htlc_split run_steps run_push32 is_truthy_def MAX_STACK_DEPTH_def
        run_p2pkh_accept [OF assms(1)] run_push_locktime run_p2pkh_skip)
  show "\<not> is_p2sh ?spk" using h sha by (simp add: htlc_split is_p2sh_def)
  show "length claim + length ?spk \<le> MAX_SCRIPT_SIZE"
    using assms(1,3) h sha pre encode_locktime_length [of lt]
    by (simp add: claim htlc_split unlocks_def MAX_SCRIPT_SIZE_def)
qed

lemma htlc_refund_accepts:
  assumes "unlocks X ctx pk der h" and "length hash = 32" and "length other = 20" and "lt \<le> block_height ctx"
  shows "execute X (htlc_refund_script_sig der pk) (htlc_script hash other h lt) ctx = Ok True"
proof (rule execute_accept)
  have h: "length h = 20" using assms(1) by (simp add: unlocks_def)
  let ?spk = "htlc_script hash other h lt"
  have gate: "exec_checklocktime ctx (encode_locktime lt # st) = Ok (encode_locktime lt # st)" for st
    using assms(4) encode_locktime_length [of lt] by (simp add: exec_checklocktime_def locktime_roundtrip)
  show "run_loop X ctx False (htlc_refund_script_sig der pk) [] [] = Ok [[], pk, der]"
    using run_script_sig [OF assms(1)]
    by (simp add: htlc_refund_script_sig_def run_steps MAX_STACK_DEPTH_def)
  show "run_loop X ctx True ?spk [] [[], pk, der] = Ok (bool_item True # [])"
    using assms(2,3)
    by (simp add: htlc_split run_steps run_push32_skip is_truthy_def MAX_STACK_DEPTH_def gate
        run_p2pkh_accept [OF assms(1)] run_push_locktime run_p2pkh_skip)
  show "\<not> is_p2sh ?spk" using h assms(2) by (simp add: htlc_split is_p2sh_def)
  show "length (htlc_refund_script_sig der pk) + length ?spk \<le> MAX_SCRIPT_SIZE"
    using assms(1-3) h encode_locktime_length [of lt]
    by (simp add: htlc_refund_script_sig_def htlc_split unlocks_def MAX_SCRIPT_SIZE_def)
qed

text \<open>
  The wallet's unlocking scripts work: with a parsable key that hashes to the locked hash and
  a valid signature, the standard \<open>p2pkh_script_sig\<close> is accepted; the HTLC claim script is
  accepted with the preimage at any height, the HTLC refund script from the locktime on.
\<close>

theorem standard_spends_accepted:
  assumes "unlocks X ctx pk der h" and "digest_len X" and "length other = 20"
    and "1 \<le> length preimage" and "length hash = 32"
  shows "(p2pkh_script h = Some spk \<longrightarrow> execute X (p2pkh_script_sig der pk) spk ctx = Ok True) \<and>
    (htlc_claim_script_sig der pk preimage = Some claim \<longrightarrow>
      execute X claim (htlc_script (sha256 X preimage) h other lt) ctx = Ok True) \<and>
    (lt \<le> block_height ctx \<longrightarrow>
      execute X (htlc_refund_script_sig der pk) (htlc_script hash other h lt) ctx = Ok True)"
  using p2pkh_accepts [OF assms(1)] htlc_claim_accepts [OF assms(1-4)]
    htlc_refund_accepts [OF assms(1,5,3)] by blast

text \<open>A concrete signer for the witnesses: the key \<open>[7]\<close>, its hash and its signature.\<close>

definition demo_ctx :: ScriptContext where
  "demo_ctx = \<lparr> sig_hash = ZERO, block_height = 9 \<rparr>"

definition demo_hash :: bytes where
  "demo_hash = take 20 (sha256 demo_ext [7])"

definition demo_sig :: bytes where
  "demo_sig = [7, 0, 0, 0, 0]"

lemma demo_hash_length [simp]: "length demo_hash = 20"
  using demo_digest_len by (simp add: demo_hash_def digest_len_def)

lemma demo_unlocks [simp]: "unlocks demo_ext demo_ctx [7] demo_sig demo_hash"
  by (simp add: unlocks_def demo_hash_def [symmetric])
    (simp add: demo_ext_def demo_ctx_def demo_sig_def ZERO_def numeral_eq_Suc)

theorem p2pkh_soundness_witness:
  "\<exists>spk script_sig. p2pkh_script demo_hash = Some spk \<and> execute demo_ext script_sig spk demo_ctx = Ok True
    \<and> key_signed demo_ext demo_ctx demo_hash"
proof -
  have spk: "p2pkh_script demo_hash = Some (p2pkh_tail demo_hash)"
    by (simp add: p2pkh_script_def p2pkh_tail_def)
  from p2pkh_accepts [OF demo_unlocks spk] p2pkh_soundness [OF demo_hash_length] spk
  show ?thesis by blast
qed


theorem standard_spends_accepted_witness:
  "execute demo_ext (p2pkh_script_sig demo_sig [7]) (p2pkh_tail demo_hash) demo_ctx = Ok True \<and>
    execute demo_ext (htlc_refund_script_sig demo_sig [7])
      (htlc_script (replicate 32 1) (replicate 20 2) demo_hash 8) demo_ctx = Ok True"
  using standard_spends_accepted [OF demo_unlocks demo_digest_len, of "replicate 20 2" "[5]" "replicate 32 1"
      "p2pkh_tail demo_hash" _ 8]
  by (simp add: p2pkh_script_def p2pkh_tail_def demo_ctx_def)

section \<open>Script hashes, data outputs and multisig\<close>

text \<open>
  A pay-to-script-hash output is a lock on the script's hash: whatever the unlocking script,
  an accepted spend ran a redeem script with the locked hash to a true result. A data output
  (a script that begins with \<open>OP_RETURN\<close>) can never be spent.
\<close>

theorem p2sh_hash_lock:
  "(p2sh_script h = Some spk \<and> execute X script_sig spk ctx = Ok True \<longrightarrow>
      (\<exists>redeem st st'. take 20 (sha256 X redeem) = h \<and> run X st redeem ctx True = Ok st'
         \<and> stack_top_truthy st')) \<and>
    execute X script_sig (OP_RETURN # data) ctx \<noteq> Ok True"
proof (rule conjI)
  show "p2sh_script h = Some spk \<and> execute X script_sig spk ctx = Ok True \<longrightarrow>
      (\<exists>redeem st st'. take 20 (sha256 X redeem) = h \<and> run X st redeem ctx True = Ok st'
         \<and> stack_top_truthy st')"
  proof (rule impI, elim conjE)
    assume "p2sh_script h = Some spk" and ex: "execute X script_sig spk ctx = Ok True"
    then have h: "length h = 20" and spk: "spk = [OP_HASH160, 0x14] @ h @ [OP_EQUAL]"
      by (auto simp: p2sh_script_def split: if_splits)
    then have p: "is_p2sh spk" "take 20 (drop 2 spk) = h" by (simp_all add: is_p2sh_def nth_append)
    from ex show "\<exists>redeem st st'. take 20 (sha256 X redeem) = h \<and> run X st redeem ctx True = Ok st' \<and> stack_top_truthy st'"
      by (auto simp: execute_def p split: if_splits sum.splits list.splits)
  qed
  have "\<not> is_p2sh (OP_RETURN # data)" by (simp add: is_p2sh_def opcode_defs)
  then show "execute X script_sig (OP_RETURN # data) ctx \<noteq> Ok True"
    by (auto simp: execute_def run_def run_steps split: sum.splits)
qed

theorem p2sh_hash_lock_witness:
  "p2sh_script (take 20 (sha256 demo_ext [OP_1])) = Some (the (p2sh_script (take 20 (sha256 demo_ext [OP_1]))))
    \<and> execute demo_ext (push_data [OP_1]) (the (p2sh_script (take 20 (sha256 demo_ext [OP_1])))) demo_ctx = Ok True
    \<and> (\<exists>redeem st st'. take 20 (sha256 demo_ext redeem) = take 20 (sha256 demo_ext [OP_1])
        \<and> run demo_ext st redeem demo_ctx True = Ok st' \<and> stack_top_truthy st')"
proof -
  let ?h = "take 20 (sha256 demo_ext [OP_1])"
  have len: "length ?h = 20" using demo_digest_len by (simp add: digest_len_def)
  have spk: "p2sh_script ?h = Some ([OP_HASH160, 0x14] @ ?h @ [OP_EQUAL])"
    using len by (simp add: p2sh_script_def)
  have p: "is_p2sh ([OP_HASH160, 0x14] @ ?h @ [OP_EQUAL])" using len by (simp add: is_p2sh_def nth_append)
  have "execute demo_ext (push_data [OP_1]) ([OP_HASH160, 0x14] @ ?h @ [OP_EQUAL]) demo_ctx = Ok True"
    using p len run_push_data [of "[OP_1]" "[]" demo_ext demo_ctx False "[]" "[]"]
    by (simp add: execute_def run_def run_steps MAX_SCRIPT_SIZE_def MAX_STACK_DEPTH_def is_truthy_def)
  with spk p2sh_hash_lock [of ?h "[OP_HASH160, 0x14] @ ?h @ [OP_EQUAL]" demo_ext "push_data [OP_1]" demo_ctx]
  show ?thesis by simp
qed

text \<open>A signature is valid for a key.\<close>

definition sig_valid :: "ext \<Rightarrow> bytes \<Rightarrow> bytes \<Rightarrow> bytes \<Rightarrow> bool" where
  "sig_valid X msg sig_bytes pk \<longleftrightarrow>
     (\<exists>sg vk. sig_from_der X sig_bytes = Some sg \<and> vk_from_sec1 X pk = Some vk \<and> vk_verify X vk msg sg)"

lemma multisig_find_spec:
  assumes "sig_from_der X s = Some sg"
  shows "(case multisig_find X msg sg pks of
      None \<Rightarrow> (\<forall>pk \<in> set pks. \<not> sig_valid X msg s pk)
    | Some rest \<Rightarrow> (\<exists>skipped pk. pks = skipped @ pk # rest \<and> sig_valid X msg s pk
        \<and> (\<forall>q \<in> set skipped. \<not> sig_valid X msg s q)))"
proof (induction pks)
  case Nil
  show ?case by simp
next
  case (Cons pk pks)
  show ?case
  proof (cases "sig_valid X msg s pk")
    case True
    then have "multisig_find X msg sg (pk # pks) = Some pks" using assms by (auto simp: sig_valid_def)
    with True show ?thesis by (auto intro: exI [of _ "[]"])
  next
    case False
    then have eq: "multisig_find X msg sg (pk # pks) = multisig_find X msg sg pks"
      using assms by (auto simp: sig_valid_def split: option.splits)
    show ?thesis
    proof (cases "multisig_find X msg sg pks")
      case None
      with Cons.IH False eq show ?thesis by simp
    next
      case (Some rest)
      with Cons.IH obtain skipped q where "pks = skipped @ q # rest" "sig_valid X msg s q"
        "\<forall>r \<in> set skipped. \<not> sig_valid X msg s r" by auto
      with Some False eq show ?thesis by (auto intro!: exI [of _ "pk # skipped"])
    qed
  qed
qed

lemma subseq_Cons_split:
  assumes "subseq (k # ks) (skipped @ pk # rest)" and "k \<notin> set skipped"
  shows "subseq ks rest"
  using assms
proof (induction skipped)
  case Nil
  then show ?case by (metis append_Nil subseq_Cons2_neq subseq_Cons' subseq_Cons2')
next
  case (Cons a skipped)
  then show ?case by (metis append_Cons list.set_intros(1) list.set_intros(2) subseq_Cons2_neq)
qed

lemma multisig_match_iff:
  "multisig_match X msg sigs pks \<longleftrightarrow> (\<exists>ks. subseq ks pks \<and> list_all2 (sig_valid X msg) sigs ks)"
proof (induction sigs arbitrary: pks)
  case Nil
  show ?case by auto
next
  case (Cons s sigs)
  show ?case
  proof (cases "sig_from_der X s")
    case None
    then show ?thesis by (auto simp: sig_valid_def list_all2_Cons1)
  next
    case (Some sg)
    note spec = multisig_find_spec [OF Some, where msg = msg and pks = pks]
    show ?thesis
    proof (cases "multisig_find X msg sg pks")
      case None
      have "k \<in> set pks" if "subseq (k # ks) pks" for k ks
        using list_emb_set [OF that, of k] by auto
      with spec Some None show ?thesis by (auto simp: list_all2_Cons1)
    next
      case (Some rest)
      with spec obtain skipped pk where pks: "pks = skipped @ pk # rest" and pk: "sig_valid X msg s pk"
        and skip: "\<forall>q \<in> set skipped. \<not> sig_valid X msg s q" by auto
      have "(\<exists>ks. subseq ks rest \<and> list_all2 (sig_valid X msg) sigs ks) \<longleftrightarrow>
          (\<exists>ks. subseq ks pks \<and> list_all2 (sig_valid X msg) (s # sigs) ks)" (is "?L \<longleftrightarrow> ?R")
      proof
        assume ?L
        then obtain ks where "subseq ks rest" "list_all2 (sig_valid X msg) sigs ks" by blast
        with pk show ?R by (intro exI [of _ "pk # ks"]) (auto simp: pks)
      next
        assume ?R
        then obtain k ks where "subseq (k # ks) pks" "sig_valid X msg s k" "list_all2 (sig_valid X msg) sigs ks"
          by (auto simp: list_all2_Cons1)
        with skip show ?L using subseq_Cons_split [of k ks skipped pk rest] by (auto simp: pks)
      qed
      with Some \<open>sig_from_der X s = Some sg\<close> Cons.IH show ?thesis by simp
    qed
  qed
qed

lemma exec_op_checkmultisig:
  "exec_op X ctx allow OP_CHECKMULTISIG st = exec_checkmultisig X ctx allow OP_CHECKMULTISIG st"
  by (simp add: exec_op_def opcode_defs)

lemma run_small_int:
  assumes "1 \<le> unat k" and "unat k \<le> 16" and "executing ifs"
  shows "run_loop X ctx allow ((OP_1 - 1 + k) # rest) ifs st =
    (if length st \<ge> MAX_STACK_DEPTH then Err StackOverflow else run_loop X ctx allow rest ifs ([k] # st))"
proof -
  have u: "unat (0x50 + k) = 80 + unat k" using assms unat_op_small [of "unat k"] by simp
  then have r: "0x51 \<le> 0x50 + k" "0x50 + k \<le> 0x60" using assms by (simp_all add: word_le_nat_alt)
  have neq: "0x50 + k \<noteq> c" if "unat c < 81 \<or> 96 < unat c" for c
    using u assms(1,2) that by auto
  have "plain_op (0x50 + k)" using r by (auto simp: plain_op_def opcode_defs neq word_le_nat_alt u)
  moreover have "exec_op X ctx allow (0x50 + k) st =
      (if length st \<ge> MAX_STACK_DEPTH then Err StackOverflow else Ok ([k] # st))"
    using r by (simp add: exec_op_def opcode_defs neq)
  ultimately show ?thesis using assms(3) by (simp add: run_plain opcode_defs)
qed

lemma run_key_pushes:
  assumes "\<forall>pk \<in> set pks. length pk = 33" and "executing ifs"
    and "run_loop X ctx allow (concat (map (\<lambda>pk. 0x21 # pk) pks) @ rest) ifs st = Ok st'"
  shows "run_loop X ctx allow rest ifs (rev pks @ st) = Ok st'"
  using assms
proof (induction pks arbitrary: st)
  case Nil
  then show ?case by simp
next
  case (Cons pk pks)
  have "run_loop X ctx allow (0x21 # pk @ (concat (map (\<lambda>pk. 0x21 # pk) pks) @ rest)) ifs st = Ok st'"
    using Cons.prems(3) by simp
  then have "run_loop X ctx allow (concat (map (\<lambda>pk. 0x21 # pk) pks) @ rest) ifs (pk # st) = Ok st'"
    using run_push [of pk 33 ifs] Cons.prems(1,2) by (simp split: if_splits)
  with Cons.IH Cons.prems show ?case by simp
qed

text \<open>
  C32. A bare \<open>m\<close>-of-\<open>n\<close> multisig output needs \<open>m\<close> signatures by \<open>m\<close> of its keys, at distinct
  positions and in key order, whatever the unlocking script; the greedy matching loop of
  \<open>OP_CHECKMULTISIG\<close> accepts exactly when such an assignment of keys to signatures exists.
\<close>

theorem multisig_soundness:
  assumes "multisig_script m pubkeys = Ok spk" and "execute X script_sig spk ctx = Ok True"
  shows "(\<exists>sigs ks. length sigs = unat m \<and> subseq ks pubkeys
      \<and> list_all2 (sig_valid X (hash_bytes (sig_hash ctx))) sigs ks) \<and>
    (\<forall>msg sigs. multisig_match X msg sigs pubkeys =
      (\<exists>ks. subseq ks pubkeys \<and> list_all2 (sig_valid X msg) sigs ks))"
proof (intro conjI allI)
  show "multisig_match X msg sigs pubkeys = (\<exists>ks. subseq ks pubkeys \<and> list_all2 (sig_valid X msg) sigs ks)"
    for msg sigs by (rule multisig_match_iff)
  let ?n = "length pubkeys"
  from assms(1) have m: "1 \<le> unat m" "unat m \<le> ?n" and n: "1 \<le> ?n" "?n \<le> 16"
    and pks: "\<forall>pk \<in> set pubkeys. length pk = 33"
    and spk: "spk = [OP_1 - 1 + m] @ concat (map (\<lambda>pk. 0x21 # pk) pubkeys) @ [OP_1 - 1 + of_nat ?n, OP_CHECKMULTISIG]"
    by (auto simp: multisig_script_def Let_def Suc_le_eq unat_gt_0 split: if_splits)
  have un: "unat (of_nat ?n :: u8) = ?n" using n by (simp add: unat_of_nat_u8)
  have "unat (OP_1 - 1 + m) = 80 + unat m"
    using m n unat_op_small [of "unat m"] by (simp add: OP_1_def)
  then have "OP_1 - 1 + m \<noteq> OP_HASH160" using m n by (auto simp: opcode_defs)
  then have "\<not> is_p2sh spk" by (simp add: spk is_p2sh_def)
  with assms(2) obtain st st' where r: "run_loop X ctx True spk [] st = Ok st'" and top: "stack_top_truthy st'"
    by (rule execute_run)
  from r m n have "run_loop X ctx True (concat (map (\<lambda>pk. 0x21 # pk) pubkeys)
      @ [OP_1 - 1 + of_nat ?n, OP_CHECKMULTISIG]) [] ([m] # st) = Ok st'"
    by (simp only: spk append_Cons append_Nil) (simp add: run_small_int split: if_splits)
  from run_key_pushes [OF pks _ this]
  have "run_loop X ctx True ((OP_1 - 1 + of_nat ?n) # [OP_CHECKMULTISIG]) [] (rev pubkeys @ [m] # st) = Ok st'"
    by simp
  then have "run_loop X ctx True [OP_CHECKMULTISIG] [] ([of_nat ?n] # rev pubkeys @ [m] # st) = Ok st'"
    using n un by (simp add: run_small_int split: if_splits)
  then have "exec_checkmultisig X ctx True OP_CHECKMULTISIG ([of_nat ?n] # rev pubkeys @ [m] # st) = Ok st'"
    by (simp add: run_plain res_bind_Ok_iff exec_op_checkmultisig)
  with un m n top have "multisig_match X (hash_bytes (sig_hash ctx)) (rev (take (unat m) st)) pubkeys"
    and "unat m \<le> length st"
    by (auto simp: exec_checkmultisig_def Let_def opcode_defs split: if_splits)
  then obtain ks where "subseq ks pubkeys" "length (rev (take (unat m) st)) = unat m"
    "list_all2 (sig_valid X (hash_bytes (sig_hash ctx))) (rev (take (unat m) st)) ks"
    by (auto simp: multisig_match_iff)
  then show "\<exists>sigs ks. length sigs = unat m \<and> subseq ks pubkeys
    \<and> list_all2 (sig_valid X (hash_bytes (sig_hash ctx))) sigs ks" by blast
qed

lemma run_multisig_one:
  assumes "length pk = 33" and "sig_valid X (hash_bytes (sig_hash ctx)) sg pk"
  shows "run_loop X ctx True ((OP_1 - 1 + 1) # 0x21 # pk @ (OP_1 - 1 + 1) # [OP_CHECKMULTISIG]) [] [sg]
    = Ok [bool_item True]"
proof -
  have "multisig_match X (hash_bytes (sig_hash ctx)) [sg] [pk]"
    using assms(2) by (auto simp: multisig_match_iff intro!: exI [of _ "[pk]"])
  then have op: "exec_checkmultisig X ctx True OP_CHECKMULTISIG [[1], pk, [1], sg] = Ok [bool_item True]"
    by (simp add: exec_checkmultisig_def opcode_defs MAX_STACK_DEPTH_def)
  show ?thesis
    using run_push [of pk 33 "[]" X ctx True] run_small_int [of 1 "[]" X ctx True] assms(1)
    by (simp add: run_plain exec_op_checkmultisig op MAX_STACK_DEPTH_def)
qed

theorem multisig_soundness_witness:
  "\<exists>spk script_sig. multisig_script 1 [replicate 33 7] = Ok spk
    \<and> execute demo_ext script_sig spk demo_ctx = Ok True
    \<and> (\<exists>sigs ks. length sigs = unat (1 :: u8) \<and> subseq ks [replicate 33 7]
        \<and> list_all2 (sig_valid demo_ext (hash_bytes (sig_hash demo_ctx))) sigs ks)"
proof -
  let ?pk = "replicate 33 7 :: bytes"
  let ?sg = "?pk @ replicate 4 0"
  let ?spk = "(OP_1 - 1 + 1) # 0x21 # ?pk @ (OP_1 - 1 + 1) # [OP_CHECKMULTISIG]"
  have spk: "multisig_script 1 [?pk] = Ok ?spk" by (simp add: multisig_script_def)
  have valid: "sig_valid demo_ext (hash_bytes (sig_hash demo_ctx)) ?sg ?pk"
    by (simp add: sig_valid_def demo_ext_def demo_ctx_def ZERO_def)
  have ex: "execute demo_ext (push_data ?sg) ?spk demo_ctx = Ok True"
  proof (rule execute_accept)
    show "run_loop demo_ext demo_ctx False (push_data ?sg) [] [] = Ok [?sg]"
      using run_push_data [of ?sg "[]" demo_ext demo_ctx False "[]" "[]"] by (simp add: MAX_STACK_DEPTH_def)
    show "run_loop demo_ext demo_ctx True ?spk [] [?sg] = Ok [bool_item True]"
      using valid by (intro run_multisig_one) simp_all
  qed (simp_all add: is_p2sh_def MAX_SCRIPT_SIZE_def opcode_defs)
  show ?thesis using multisig_soundness [OF spk ex] spk ex by blast
qed

section \<open>Nested conditionals\<close>

text \<open>Only the innermost conditional decides whether code runs. The \<open>OP_ELSE\<close> of a conditional
  inside a branch that is skipped therefore runs: \<open>OP_0 OP_IF OP_IF OP_ELSE OP_1 OP_ENDIF OP_ENDIF\<close>
  leaves a true value, although the outer branch is not taken.\<close>

lemma nested_else_in_skipped_branch_runs:
  "run_loop X ctx allow [OP_0, OP_IF, OP_IF, OP_ELSE, OP_1, OP_ENDIF, OP_ENDIF] [] [] = Ok [[1]]"
  by (simp add: run_steps is_truthy_def MAX_STACK_DEPTH_def)

section \<open>Height\<close>

text \<open>A larger height only lifts time locks: a script accepted at some height stays accepted.\<close>

definition later :: "ScriptContext \<Rightarrow> ScriptContext \<Rightarrow> bool" where
  "later ctx ctx' \<longleftrightarrow> sig_hash ctx' = sig_hash ctx \<and> block_height ctx \<le> block_height ctx'"

lemma exec_op_later:
  assumes "later ctx ctx'" and "exec_op X ctx allow op st = Ok st'"
  shows "exec_op X ctx' allow op st = Ok st'"
proof (cases "op = OP_CHECKLOCKTIMEVERIFY")
  case True
  with assms show ?thesis
    by (auto simp: exec_op_simps exec_checklocktime_def later_def split: list.splits if_splits)
next
  case False
  have sh: "sig_hash ctx' = sig_hash ctx" using assms(1) by (simp add: later_def)
  have "exec_checksig X ctx' allow st = exec_checksig X ctx allow st"
    and "exec_checkmultisig X ctx' allow op st = exec_checkmultisig X ctx allow op st"
    unfolding exec_checksig_def exec_checkmultisig_def sh by (rule refl)+
  with False assms(2) show ?thesis by (simp only: exec_op_def if_False)
qed

lemma run_loop_later:
  assumes "later ctx ctx'" and "run_loop X ctx allow script ifs st = Ok st'"
  shows "run_loop X ctx' allow script ifs st = Ok st'"
  using assms(2)
proof (induction script arbitrary: ifs st rule: length_induct)
  case (1 script)
  then have IH: "run_loop X ctx' allow s ifs st = Ok st'"
    if "length s < length script" "run_loop X ctx allow s ifs st = Ok st'" for s ifs st
    using that by blast
  show ?case
  proof (cases script)
    case Nil
    with "1.prems" show ?thesis by simp
  next
    case (Cons op rest)
    consider (push) "0x01 \<le> op \<and> op \<le> 0x4b" | (push1) "op = 0x4c"
      | (cif) "op = OP_IF" | (celse) "op = OP_ELSE" | (cend) "op = OP_ENDIF" | (plain) "plain_op op"
      unfolding plain_op_def by blast
    then show ?thesis
    proof cases
      case push
      with "1.prems" IH show ?thesis
        by (simp add: Cons run_loop.simps(2) Let_def split: if_splits sum.splits)
    next
      case push1
      with "1.prems" IH show ?thesis
        by (cases rest) (simp_all add: Cons run_loop.simps(2) Let_def split: if_splits sum.splits)
    next
      case cif
      with "1.prems" IH show ?thesis by (cases st) (simp_all add: Cons run_control split: if_splits)
    next
      case celse
      with "1.prems" IH show ?thesis
        by (cases ifs) (simp_all add: Cons run_loop.simps(2) opcode_defs)
    next
      case cend
      with "1.prems" IH show ?thesis by (simp add: Cons run_control)
    next
      case plain
      with "1.prems" IH show ?thesis
        by (cases "executing ifs") (auto simp: Cons run_plain run_plain_skip res_bind_Ok_iff exec_op_later [OF assms(1)])
    qed
  qed
qed

lemma execute_later:
  assumes "later ctx ctx'" and "execute X script_sig spk ctx = Ok ok"
  shows "execute X script_sig spk ctx' = Ok ok"
  using assms(2) run_loop_later [OF assms(1)]
  by (auto simp: execute_def run_def Let_def split: if_splits sum.splits list.splits) 

end
