(* ===== verification/Utxo_Set.thy ===== *)
theory Utxo_Set
  imports Block_Validation Script_Security
begin

text \<open>
  The set of unspent outputs: \<open>crates/tensorium-core/src/utxo.rs\<close>. The map of entries is an
  association list; \<open>apply_block\<close> mutates it only in its last phase, so an error leaves the set as
  it was and the model returns the new set in \<open>Ok\<close>.
\<close>

section \<open>The set and its operations\<close>

record UtxoEntry =
  entry_output :: TxOutput
  created_height :: u64
  entry_coinbase :: bool

type_synonym utxo_map = "(OutPoint, UtxoEntry) hashmap"

datatype UtxoError =
    MissingInput
  | DuplicateInput
  | MissingCoinbase
  | CoinbaseOutputTooHigh
  | UtxoInvalidSignature
  | ImmatureCoinbaseSpend
  | OutputExceedsInput

definition total_atoms :: "utxo_map \<Rightarrow> u64" where
  "total_atoms m = sat_sum (map (value_atoms \<circ> entry_output \<circ> snd) m)"

text \<open>The checks on one input, shared by \<open>validate_transaction\<close> and \<open>apply_block\<close>, whose source repeats
  them; \<open>look\<close> is the lookup in the set.\<close>

definition immature :: "ConsensusParams \<Rightarrow> u64 \<Rightarrow> UtxoEntry \<Rightarrow> bool" where
  "immature p h e \<longleftrightarrow> entry_coinbase e \<and> h < sat_add (created_height e) (coinbase_maturity_blocks p)"

definition check_input ::
  "ext \<Rightarrow> ConsensusParams \<Rightarrow> (OutPoint \<Rightarrow> UtxoEntry option) \<Rightarrow> u64 \<Rightarrow> Transaction \<Rightarrow> TxInput \<Rightarrow> (u64, UtxoError) result" where
  "check_input X p look h tx i =
     (case look (previous_output i) of
        None \<Rightarrow> Err MissingInput
      | Some e \<Rightarrow>
          if immature p h e then Err ImmatureCoinbaseSpend
          else case execute X (signature_script i) (script_pubkey (entry_output e))
                      \<lparr> sig_hash = signature_hash X tx, block_height = h \<rparr> of
                 Err _ \<Rightarrow> Err UtxoInvalidSignature
               | Ok ok \<Rightarrow> if \<not> ok then Err UtxoInvalidSignature else Ok (value_atoms (entry_output e)))"

text \<open>The loop over the inputs of a transaction: the outpoints seen so far and the saturating sum.\<close>

fun check_inputs ::
  "ext \<Rightarrow> ConsensusParams \<Rightarrow> (OutPoint \<Rightarrow> UtxoEntry option) \<Rightarrow> u64 \<Rightarrow> Transaction \<Rightarrow> TxInput list
    \<Rightarrow> OutPoint list \<Rightarrow> u64 \<Rightarrow> (OutPoint list \<times> u64, UtxoError) result" where
  "check_inputs X p look h tx [] seen acc = Ok (seen, acc)"
| "check_inputs X p look h tx (i # is) seen acc =
     (if previous_output i \<in> set seen then Err DuplicateInput
      else case check_input X p look h tx i of
             Err e \<Rightarrow> Err e
           | Ok v \<Rightarrow> check_inputs X p look h tx is (previous_output i # seen) (sat_add acc v))"

definition validate_transaction ::
  "ext \<Rightarrow> ConsensusParams \<Rightarrow> (OutPoint \<Rightarrow> UtxoEntry option) \<Rightarrow> u64 \<Rightarrow> Transaction \<Rightarrow> (u64, UtxoError) result" where
  "validate_transaction X p look tip_height tx =
     (case check_inputs X p look tip_height tx (inputs tx) [] 0 of
        Err e \<Rightarrow> Err e
      | Ok (_, input_sum) \<Rightarrow>
          let output_sum = total_output_atoms tx in
          if output_sum > input_sum then Err OutputExceedsInput
          else Ok (sat_sub input_sum output_sum))"

text \<open>Phase 1 of \<open>apply_block\<close>: the non-coinbase transactions, with one \<open>seen\<close> for the whole block.\<close>

fun check_txs ::
  "ext \<Rightarrow> ConsensusParams \<Rightarrow> (OutPoint \<Rightarrow> UtxoEntry option) \<Rightarrow> u64 \<Rightarrow> Transaction list
    \<Rightarrow> OutPoint list \<Rightarrow> u64 \<Rightarrow> (u64, UtxoError) result" where
  "check_txs X p look h [] seen fees = Ok fees"
| "check_txs X p look h (tx # txs) seen fees =
     (case check_inputs X p look h tx (inputs tx) seen 0 of
        Err e \<Rightarrow> Err e
      | Ok (seen', input_sum) \<Rightarrow>
          let output_sum = total_output_atoms tx in
          if output_sum > input_sum then Err OutputExceedsInput
          else check_txs X p look h txs seen' (sat_add fees (sat_sub input_sum output_sum)))"

text \<open>Phase 2: the coinbase limit. \<open>iter().map(..).sum()\<close> is the plain wrapping sum.\<close>

definition premint_atoms :: "ConsensusParams \<Rightarrow> u64" where
  "premint_atoms p =
     (if genesis_allocations p \<noteq> [] then sum_list (map snd (genesis_allocations p))
      else founder_allocation_atoms p)"

definition has_genesis_premint :: "ConsensusParams \<Rightarrow> u64 \<Rightarrow> bool" where
  "has_genesis_premint p h \<longleftrightarrow> h = 0 \<and> (genesis_allocations p \<noteq> [] \<or> founder_address p \<noteq> [])"

definition max_coinbase_atoms :: "ConsensusParams \<Rightarrow> u64 \<Rightarrow> u64 \<Rightarrow> u64" where
  "max_coinbase_atoms p h total_fees =
     (if has_genesis_premint p h
      then sat_add (sat_add (reward_at_height p 0) (premint_atoms p)) total_fees
      else sat_add (reward_at_height p h) total_fees)"

text \<open>Phase 3: the outpoints a block spends and the entries it creates, in order.\<close>

definition spent_outpoints :: "Transaction list \<Rightarrow> OutPoint list" where
  "spent_outpoints txs = concat (map (\<lambda>tx. map previous_output (inputs tx)) txs)"

definition is_op_return :: "bytes \<Rightarrow> bool" where
  "is_op_return spk \<longleftrightarrow> spk \<noteq> [] \<and> hd spk = OP_RETURN"

fun tx_entries :: "Transaction \<Rightarrow> u64 \<Rightarrow> nat \<Rightarrow> TxOutput list \<Rightarrow> (OutPoint \<times> UtxoEntry) list" where
  "tx_entries tx h index [] = []"
| "tx_entries tx h index (out # outs) =
     (if is_op_return (script_pubkey out) then tx_entries tx h (Suc index) outs
      else (\<lparr> op_txid = tx_id tx, output_index = of_nat index \<rparr>,
            \<lparr> entry_output = out, created_height = h, entry_coinbase = is_coinbase tx \<rparr>)
           # tx_entries tx h (Suc index) outs)"

definition created_entries :: "Block \<Rightarrow> (OutPoint \<times> UtxoEntry) list" where
  "created_entries b =
     concat (map (\<lambda>tx. tx_entries tx (height (header b)) 0 (outputs tx)) (transactions b))"

definition apply_delta :: "Block \<Rightarrow> utxo_map \<Rightarrow> utxo_map" where
  "apply_delta b m =
     fold (\<lambda>(op, e). hm_insert op e) (created_entries b)
       (fold hm_remove (spent_outpoints (tl (transactions b))) m)"

definition check_block ::
  "ext \<Rightarrow> ConsensusParams \<Rightarrow> (OutPoint \<Rightarrow> UtxoEntry option) \<Rightarrow> Block \<Rightarrow> (unit, UtxoError) result" where
  "check_block X p look b =
     (case transactions b of
        [] \<Rightarrow> Err MissingCoinbase
      | coinbase_tx # txs \<Rightarrow>
          (case check_txs X p look (height (header b)) txs [] 0 of
             Err e \<Rightarrow> Err e
           | Ok total_fees \<Rightarrow>
               if total_output_atoms coinbase_tx > max_coinbase_atoms p (height (header b)) total_fees
               then Err CoinbaseOutputTooHigh
               else Ok ()))"

definition apply_block :: "ext \<Rightarrow> ConsensusParams \<Rightarrow> utxo_map \<Rightarrow> Block \<Rightarrow> (utxo_map, UtxoError) result" where
  "apply_block X p m b =
     (case check_block X p (hm_get m) b of
        Err e \<Rightarrow> Err e
      | Ok _ \<Rightarrow> Ok (apply_delta b m))"

section \<open>Inputs\<close>

text \<open>What the checks on the inputs establish, without the loop.\<close>

definition input_ok :: "ext \<Rightarrow> ConsensusParams \<Rightarrow> (OutPoint \<Rightarrow> UtxoEntry option) \<Rightarrow> u64 \<Rightarrow> Transaction \<Rightarrow> TxInput \<Rightarrow> bool" where
  "input_ok X p look h tx i \<longleftrightarrow>
     (\<exists>e. look (previous_output i) = Some e \<and> \<not> immature p h e
        \<and> execute X (signature_script i) (script_pubkey (entry_output e))
            \<lparr> sig_hash = signature_hash X tx, block_height = h \<rparr> = Ok True)"

definition entry_value :: "(OutPoint \<Rightarrow> UtxoEntry option) \<Rightarrow> OutPoint \<Rightarrow> nat" where
  "entry_value look op = (case look op of None \<Rightarrow> 0 | Some e \<Rightarrow> unat (value_atoms (entry_output e)))"

definition input_value :: "(OutPoint \<Rightarrow> UtxoEntry option) \<Rightarrow> Transaction \<Rightarrow> nat" where
  "input_value look tx = sum_list (map (entry_value look \<circ> previous_output) (inputs tx))"

definition output_value :: "Transaction \<Rightarrow> nat" where
  "output_value tx = sum_list (map (unat \<circ> value_atoms) (outputs tx))"

lemma check_input_Ok_iff:
  "check_input X p look h tx i = Ok v \<longleftrightarrow>
    input_ok X p look h tx i \<and> unat v = entry_value look (previous_output i)"
  by (auto simp: check_input_def input_ok_def entry_value_def word_unat_eq_iff
      split: option.splits sum.splits if_splits)

lemma unat_total_output_atoms: "unat (total_output_atoms tx) = min (output_value tx) (2 ^ 64 - 1)"
  by (simp add: total_output_atoms_def unat_sat_sum output_value_def comp_def)

lemma check_inputs_Ok_iff:
  "check_inputs X p look h tx is seen acc = Ok (seen', v) \<longleftrightarrow>
    (\<forall>i \<in> set is. input_ok X p look h tx i) \<and> distinct (map previous_output is)
    \<and> set (map previous_output is) \<inter> set seen = {}
    \<and> seen' = rev (map previous_output is) @ seen
    \<and> unat v = min (unat acc + sum_list (map (entry_value look \<circ> previous_output) is)) (2 ^ 64 - 1)"
proof (induction "is" arbitrary: seen acc)
  case Nil
  show ?case using unat_u64_le [of acc] by (auto simp: min_def word_unat_eq_iff)
next
  case (Cons i "is")
  show ?case
  proof (cases "previous_output i \<notin> set seen \<and> input_ok X p look h tx i")
    case False
    then show ?thesis
      by (auto split: sum.splits simp: check_input_Ok_iff)
  next
    case True
    then obtain w where w: "check_input X p look h tx i = Ok w" "unat w = entry_value look (previous_output i)"
      by (auto simp: input_ok_def check_input_def entry_value_def)
    have "min (unat acc + entry_value look (previous_output i)) (2 ^ 64 - 1) + s = s'
        \<Longrightarrow> min s' (2 ^ 64 - 1) = min (unat acc + (entry_value look (previous_output i) + s)) (2 ^ 64 - 1)" for s s'
      by (auto simp: min_def)
    with True w show ?thesis by (auto simp: Cons.IH unat_sat_add)
  qed
qed

section \<open>Blocks\<close>

lemma len64: "LENGTH(64) = 64"
  by simp

lemma spent_outpoints_simps [simp]:
  "spent_outpoints [] = []"
  "spent_outpoints (tx # txs) = map previous_output (inputs tx) @ spent_outpoints txs"
  by (simp_all add: spent_outpoints_def)

lemma check_txs_Ok_iff:
  "check_txs X p look h txs seen fees = Ok tot \<longleftrightarrow>
    (\<forall>tx \<in> set txs. \<forall>i \<in> set (inputs tx). input_ok X p look h tx i)
    \<and> distinct (spent_outpoints txs) \<and> set (spent_outpoints txs) \<inter> set seen = {}
    \<and> (\<forall>tx \<in> set txs. min (output_value tx) (2 ^ 64 - 1) \<le> input_value look tx)
    \<and> unat tot = min (unat fees + sum_list (map (\<lambda>tx.
        min (input_value look tx) (2 ^ 64 - 1) - min (output_value tx) (2 ^ 64 - 1)) txs)) (2 ^ 64 - 1)"
proof (induction txs arbitrary: seen fees)
  case Nil
  show ?case using unat_u64_le [of fees] by (auto simp: min_def word_unat_eq_iff)
next
  case (Cons tx txs)
  let ?M = "2 ^ 64 - 1 :: nat"
  let ?ops = "map previous_output (inputs tx)"
  let ?ins_ok = "(\<forall>i \<in> set (inputs tx). input_ok X p look h tx i) \<and> distinct ?ops \<and> set ?ops \<inter> set seen = {}"
  have "unat (of_nat (min (input_value look tx) ?M) :: u64) = min (input_value look tx) ?M"
    by (intro unat_of_nat_u64) simp
  then obtain v :: u64 where v: "unat v = min (input_value look tx) ?M" by blast
  have ins: "check_inputs X p look h tx (inputs tx) seen 0 = Ok (seen', w) \<longleftrightarrow>
      ?ins_ok \<and> seen' = rev ?ops @ seen \<and> w = v" for seen' w
    by (auto simp: check_inputs_Ok_iff input_value_def word_unat_eq_iff v)
  have le: "total_output_atoms tx \<le> v \<longleftrightarrow> min (output_value tx) ?M \<le> input_value look tx"
    by (auto simp: word_le_nat_alt unat_total_output_atoms v)
  have fee: "unat (sat_sub v (total_output_atoms tx)) = min (input_value look tx) ?M - min (output_value tx) ?M"
    by (simp only: unat_sat_sub v unat_total_output_atoms)
  show ?case
  proof (cases "?ins_ok \<and> total_output_atoms tx \<le> v")
    case True
    then have "check_inputs X p look h tx (inputs tx) seen 0 = Ok (rev ?ops @ seen, v)"
      using ins by blast
    with True have "check_txs X p look h (tx # txs) seen fees =
        check_txs X p look h txs (rev ?ops @ seen) (sat_add fees (sat_sub v (total_output_atoms tx)))"
      by (simp add: Let_def leD)
    moreover have "min (min (f + a) M + t) M = min (f + (a + t)) M" for f a t M :: nat
      by (simp add: min_def)
    moreover have "set (spent_outpoints txs) \<inter> set (rev ?ops @ seen) = {} \<longleftrightarrow>
        set ?ops \<inter> set (spent_outpoints txs) = {} \<and> set (spent_outpoints txs) \<inter> set seen = {}"
      by auto
    ultimately show ?thesis using True
      by (simp only: Cons.IH le unat_sat_add fee len64 spent_outpoints_simps distinct_append list.set
          set_append Int_Un_distrib2 Un_empty ball_simps simp_thms list.map sum_list.Cons) blast
  next
    case False
    then have "check_txs X p look h (tx # txs) seen fees \<noteq> Ok tot"
      using ins by (auto split: sum.splits if_splits prod.splits simp: Let_def not_less)
    with False show ?thesis by (auto simp: le)
  qed
qed

text \<open>The money in a set, as a natural number.\<close>

definition money :: "utxo_map \<Rightarrow> nat" where
  "money m = hm_sum (unat \<circ> value_atoms \<circ> entry_output) m"

lemma unat_total_atoms: "unat (total_atoms m) = min (money m) (2 ^ 64 - 1)"
  by (simp add: total_atoms_def unat_sat_sum money_def hm_sum_def comp_def)

lemma hm_ok_fold_remove: "hm_ok m \<Longrightarrow> hm_ok (fold hm_remove ops m)"
  by (induction ops arbitrary: m) auto

lemma hm_ok_fold_insert: "hm_ok m \<Longrightarrow> hm_ok (fold (\<lambda>(k, v). hm_insert k v) kvs m)"
  by (induction kvs arbitrary: m) auto

lemma hm_get_fold_remove: "hm_get (fold hm_remove ops m) k = (if k \<in> set ops then None else hm_get m k)"
  by (induction ops arbitrary: m) auto

lemma hm_get_fold_insert:
  "hm_get (fold (\<lambda>(k, v). hm_insert k v) kvs m) k =
    (case hm_get (rev kvs) k of Some v \<Rightarrow> Some v | None \<Rightarrow> hm_get m k)"
  by (induction kvs arbitrary: m) (auto simp: map_add_def split: option.splits)

lemma hm_sum_fold_insert_le:
  "hm_sum f (fold (\<lambda>(k, v). hm_insert k v) kvs m) \<le> hm_sum f m + sum_list (map (f \<circ> snd) kvs)"
proof (induction kvs arbitrary: m)
  case Nil
  show ?case by simp
next
  case (Cons kv kvs)
  have "hm_sum f (fold (\<lambda>(k, v). hm_insert k v) (kv # kvs) m)
      \<le> hm_sum f (hm_insert (fst kv) (snd kv) m) + sum_list (map (f \<circ> snd) kvs)"
    using Cons.IH [of "hm_insert (fst kv) (snd kv) m"] by (cases kv) (simp add: comp_def)
  also have "hm_sum f (hm_insert (fst kv) (snd kv) m) \<le> hm_sum f m + f (snd kv)"
    by (rule hm_sum_insert_le)
  finally show ?case by (simp add: ac_simps)
qed

lemma money_fold_remove:
  assumes "hm_ok m" and "distinct ops" and "\<forall>op \<in> set ops. hm_get m op \<noteq> None"
  shows "money (fold hm_remove ops m) + sum_list (map (entry_value (hm_get m)) ops) = money m"
  using assms
proof (induction ops arbitrary: m)
  case Nil
  show ?case by simp
next
  case (Cons op ops)
  let ?m = "hm_remove op m"
  from Cons.prems obtain e where e: "hm_get m op = Some e" by auto
  have eq: "map (entry_value (hm_get ?m)) ops = map (entry_value (hm_get m)) ops"
    using Cons.prems(2) by (auto simp: entry_value_def)
  have "money (fold hm_remove ops ?m) + sum_list (map (entry_value (hm_get ?m)) ops) = money ?m"
    using Cons.prems by (intro Cons.IH) auto
  then have "money (fold hm_remove ops ?m) + sum_list (map (entry_value (hm_get m)) ops) = money ?m"
    by (simp only: eq)
  moreover have "money ?m + entry_value (hm_get m) op = money m"
    using hm_sum_remove [OF Cons.prems(1) e, of "unat \<circ> value_atoms \<circ> entry_output"]
    by (simp add: money_def entry_value_def e)
  ultimately show ?case by simp
qed

lemma tx_entries_value:
  "sum_list (map (unat \<circ> value_atoms \<circ> entry_output \<circ> snd) (tx_entries tx h n outs))
    \<le> sum_list (map (unat \<circ> value_atoms) outs)"
  by (induction outs arbitrary: n) (auto intro: trans_le_add2)

lemma created_entries_value:
  "sum_list (map (unat \<circ> value_atoms \<circ> entry_output \<circ> snd) (created_entries b))
    \<le> sum_list (map output_value (transactions b))"
proof -
  have "sum_list (map (unat \<circ> value_atoms \<circ> entry_output \<circ> snd)
        (concat (map (\<lambda>tx. tx_entries tx h 0 (outputs tx)) txs)))
      \<le> sum_list (map output_value txs)" for h txs
  proof (induction txs)
    case Nil
    show ?case by simp
  next
    case (Cons tx txs)
    then show ?case
      by (simp only: concat.simps list.map map_append sum_list_append sum_list.Cons output_value_def)
        (intro add_mono tx_entries_value)
  qed
  then show ?thesis by (simp add: created_entries_def)
qed

lemma sum_input_value:
  "sum_list (map (entry_value look) (spent_outpoints txs)) = sum_list (map (input_value look) txs)"
  by (induction txs) (auto simp: input_value_def)

lemma input_ok_present:
  assumes "\<forall>tx \<in> set txs. \<forall>i \<in> set (inputs tx). input_ok X p look h tx i"
  shows "\<forall>op \<in> set (spent_outpoints txs). look op \<noteq> None"
proof
  fix op assume "op \<in> set (spent_outpoints txs)"
  then obtain tx i where "tx \<in> set txs" "i \<in> set (inputs tx)" "op = previous_output i"
    by (auto simp: spent_outpoints_def)
  with assms have "input_ok X p look h tx i" by blast
  with \<open>op = previous_output i\<close> show "look op \<noteq> None" by (auto simp: input_ok_def)
qed

lemma apply_block_OkE:
  assumes "apply_block X p m b = Ok m'"
  obtains cb txs fees where "transactions b = cb # txs"
    and "check_txs X p (hm_get m) (height (header b)) txs [] 0 = Ok fees"
    and "total_output_atoms cb \<le> max_coinbase_atoms p (height (header b)) fees"
    and "m' = apply_delta b m"
proof -
  from assms have chk: "check_block X p (hm_get m) b = Ok ()" and m': "m' = apply_delta b m"
    by (simp_all add: apply_block_def split: sum.splits)
  from chk obtain cb txs where b: "transactions b = cb # txs"
    by (cases "transactions b") (simp_all add: check_block_def)
  from chk obtain fees where "check_txs X p (hm_get m) (height (header b)) txs [] 0 = Ok fees"
    by (cases "check_txs X p (hm_get m) (height (header b)) txs [] 0") (simp_all add: check_block_def b)
  with chk b m' that show ?thesis by (simp add: check_block_def not_less split: if_splits)
qed

text \<open>What the block may create: its reward, and at height 0 the premint.\<close>

definition block_subsidy :: "ConsensusParams \<Rightarrow> u64 \<Rightarrow> nat" where
  "block_subsidy p h =
     unat (reward_at_height p h) + (if has_genesis_premint p h then unat (premint_atoms p) else 0)"

lemma max_coinbase_le: "unat (max_coinbase_atoms p h fees) \<le> block_subsidy p h + unat fees"
  by (auto simp: max_coinbase_atoms_def block_subsidy_def unat_sat_add has_genesis_premint_def)

lemma apply_block_money:
  assumes "apply_block X p m b = Ok m'" and "hm_ok m"
    and "money m + block_subsidy p (height (header b)) < 2 ^ 64 - 1"
  shows "money m' \<le> money m + block_subsidy p (height (header b)) \<and> hm_ok m'"
proof -
  let ?M = "2 ^ 64 - 1 :: nat" and ?h = "height (header b)"
  from assms(1) obtain cb txs fees where b: "transactions b = cb # txs"
    and chk: "check_txs X p (hm_get m) ?h txs [] 0 = Ok fees"
    and cb: "total_output_atoms cb \<le> max_coinbase_atoms p ?h fees" and m': "m' = apply_delta b m"
    by (rule apply_block_OkE)
  let ?in = "sum_list (map (input_value (hm_get m)) txs)" and ?out = "sum_list (map output_value txs)"
  let ?ops = "spent_outpoints txs"
  note ok = chk [unfolded check_txs_Ok_iff]
  have present: "\<forall>op \<in> set ?ops. hm_get m op \<noteq> None"
    using ok by (intro input_ok_present) blast
  have spent: "money (fold hm_remove ?ops m) + ?in = money m"
    using money_fold_remove [OF assms(2) _ present] ok by (simp add: sum_input_value)
  have exact: "input_value (hm_get m) tx < ?M" "output_value tx \<le> input_value (hm_get m) tx" if "tx \<in> set txs" for tx
  proof -
    have "input_value (hm_get m) tx \<le> ?in" using that by (simp add: member_le_sum_list)
    with spent assms(3) show "input_value (hm_get m) tx < ?M" by linarith
    moreover have "min (output_value tx) ?M \<le> input_value (hm_get m) tx" using ok that by blast
    ultimately show "output_value tx \<le> input_value (hm_get m) tx" by (auto simp: min_def split: if_splits)
  qed
  have "map (\<lambda>tx. min (input_value (hm_get m) tx) ?M - min (output_value tx) ?M) txs
      = map (\<lambda>tx. input_value (hm_get m) tx - output_value tx) txs"
    using exact by (auto simp: min_def dest: order.strict_implies_order)
  moreover have "unat fees \<le> sum_list (map (\<lambda>tx. min (input_value (hm_get m) tx) ?M - min (output_value tx) ?M) txs)"
    using ok by (simp only: unsigned_0 add_0 min.cobounded1)
  ultimately have "unat fees \<le> sum_list (map (\<lambda>tx. input_value (hm_get m) tx - output_value tx) txs)"
    by (simp only:)
  moreover have "sum_list (map (\<lambda>tx. input_value (hm_get m) tx - output_value tx) txs) + ?out = ?in"
    using exact(2) by (intro sum_list_diff) blast
  ultimately have fees: "unat fees + ?out \<le> ?in" by linarith
  have "min (output_value cb) ?M \<le> block_subsidy p ?h + unat fees"
    using cb max_coinbase_le [of p ?h fees] by (simp add: word_le_nat_alt unat_total_output_atoms)
  moreover have "block_subsidy p ?h + unat fees < ?M" using fees spent assms(3) by linarith
  ultimately have cbv: "output_value cb \<le> block_subsidy p ?h + unat fees" by (auto simp: min_def split: if_splits)
  have "money m' \<le> money (fold hm_remove ?ops m) + sum_list (map output_value (transactions b))"
    using hm_sum_fold_insert_le [of "unat \<circ> value_atoms \<circ> entry_output" "created_entries b" "fold hm_remove ?ops m"]
      created_entries_value [of b]
    by (simp add: m' apply_delta_def b money_def comp_assoc)
  with cbv fees spent have "money m' \<le> money m + block_subsidy p ?h" by (simp add: b)
  moreover have "hm_ok m'" unfolding m' apply_delta_def using assms(2)
    by (intro hm_ok_fold_insert hm_ok_fold_remove)
  ultimately show ?thesis by simp
qed

text \<open>
  C7. No inflation: applying a block to a well-formed set adds at most the block reward (plus, in
  the genesis block, the premint) to the money in the set, whatever transactions the block
  contains; the map stays well-formed. The bound on the money keeps the saturating sums exact.
\<close>

theorem apply_block_supply:
  assumes "apply_block X p m b = Ok m'" and "hm_ok m"
    and "money m + block_subsidy p (height (header b)) < 2 ^ 64 - 1"
  shows "money m' \<le> money m + block_subsidy p (height (header b)) \<and> hm_ok m'"
  using assms by (rule apply_block_money)

text \<open>A well-formed empty set and a block with nothing but a coinbase, for the witnesses.\<close>

definition demo_tx :: Transaction where
  "demo_tx = \<lparr> tx_id = Hash256 (replicate 32 5), inputs = [],
     outputs = [\<lparr> value_atoms = 100, script_pubkey = [OP_1] \<rparr>], payload = str_bytes ''coinbase:0'' \<rparr>"

definition demo_block :: Block where
  "demo_block = \<lparr> header = \<lparr> version = 1, chain_id = ''tensorium-mainnet'', height = 0,
       previous_hash = ZERO, merkle_root = ZERO, timestamp_seconds = 0, leading_zero_bits = 0, nonce = 0 \<rparr>,
     transactions = [demo_tx] \<rparr>"

lemma mainnet_reward_0 [simp]: "reward_at_height MAINNET 0 = 785584523"
  by (simp add: reward_at_height_def emission_era_def mainnet_defs)

lemma mainnet_no_premint [simp]: "\<not> has_genesis_premint MAINNET h"
  by (simp add: has_genesis_premint_def mainnet_defs)

lemma demo_block_height [simp]: "height (header demo_block) = 0"
  by (simp add: demo_block_def)

lemma demo_apply: "apply_block X MAINNET m demo_block = Ok (apply_delta demo_block m)"
proof -
  have "max_coinbase_atoms MAINNET 0 0 = 785584523"
    by (simp add: max_coinbase_atoms_def sat_add_def)
  then show ?thesis
    by (simp add: apply_block_def check_block_def demo_block_def demo_tx_def
        total_output_atoms_def sat_sum_def sat_add_def)
qed

theorem apply_block_supply_witness:
  "money (apply_delta demo_block []) \<le> money [] + block_subsidy MAINNET 0 \<and> hm_ok (apply_delta demo_block [])"
  using apply_block_supply [OF demo_apply, of "[]"]
  by (simp add: money_def block_subsidy_def)

section \<open>What a block changes\<close>

text \<open>The last entry a block creates at an outpoint.\<close>

definition created_at :: "Block \<Rightarrow> OutPoint \<Rightarrow> UtxoEntry option" where
  "created_at b = hm_get (rev (created_entries b))"

lemma hm_get_apply_delta:
  "hm_get (apply_delta b m) op =
    (case created_at b op of Some e \<Rightarrow> Some e
     | None \<Rightarrow> if op \<in> set (spent_outpoints (tl (transactions b))) then None else hm_get m op)"
  by (simp add: apply_delta_def hm_get_fold_insert hm_get_fold_remove created_at_def split: option.splits)

text \<open>
  C8. No double spend, and nothing else moves: in an accepted block no outpoint is spent twice
  (by one transaction or by two), every spent outpoint is in the set and its script accepted the
  spend, afterwards the spent outpoints are gone and the created ones present, and every outpoint
  the block neither spends nor creates keeps its entry.
\<close>

theorem apply_block_effect:
  assumes "apply_block X p m b = Ok m'"
  shows "distinct (spent_outpoints (tl (transactions b))) \<and>
    (\<forall>tx \<in> set (tl (transactions b)). \<forall>i \<in> set (inputs tx). input_ok X p (hm_get m) (height (header b)) tx i) \<and>
    (\<forall>op. hm_get m' op = (case created_at b op of Some e \<Rightarrow> Some e
       | None \<Rightarrow> if op \<in> set (spent_outpoints (tl (transactions b))) then None else hm_get m op))"
proof -
  from assms obtain cb txs fees where "transactions b = cb # txs"
    and chk: "check_txs X p (hm_get m) (height (header b)) txs [] 0 = Ok fees" and "m' = apply_delta b m"
    by (rule apply_block_OkE)
  then show ?thesis using hm_get_apply_delta [of b m] chk [unfolded check_txs_Ok_iff] by simp
qed

theorem apply_block_effect_witness:
  "(\<forall>op. hm_get (apply_delta demo_block []) op = (case created_at demo_block op of Some e \<Rightarrow> Some e
       | None \<Rightarrow> if op \<in> set (spent_outpoints (tl (transactions demo_block))) then None else hm_get [] op))"
  using apply_block_effect [OF demo_apply [of demo_ext "[]"]] by blast

text \<open>
  C9. Theft resistance at the ledger: when an accepted block spends a pay-to-public-key-hash
  output, a key with the locked hash signed the spending transaction's signature hash; when it
  spends a vesting output, the block's height has in addition reached the locktime.
\<close>

theorem block_spend_authorised:
  assumes "apply_block X p m b = Ok m'" and "tx \<in> set (tl (transactions b))" and "i \<in> set (inputs tx)"
    and "hm_get m (previous_output i) = Some e"
  defines "ctx \<equiv> \<lparr> sig_hash = signature_hash X tx, block_height = height (header b) \<rparr>"
  shows "(p2pkh_script h = Some (script_pubkey (entry_output e)) \<longrightarrow> key_signed X ctx h) \<and>
    (length h = 20 \<and> script_pubkey (entry_output e) = cltv_p2pkh_script lt h \<longrightarrow>
       lt \<le> height (header b) \<and> key_signed X ctx h)"
proof -
  from assms(1) obtain cb txs fees where b: "transactions b = cb # txs"
    and chk: "check_txs X p (hm_get m) (height (header b)) txs [] 0 = Ok fees"
    by (rule apply_block_OkE)
  then have "input_ok X p (hm_get m) (height (header b)) tx i"
    using assms(2,3) chk [unfolded check_txs_Ok_iff] by simp
  then have ex: "execute X (signature_script i) (script_pubkey (entry_output e)) ctx = Ok True"
    using assms(4) by (simp add: input_ok_def ctx_def)
  show ?thesis
    using p2pkh_sound [of h "script_pubkey (entry_output e)" X "signature_script i" ctx] ex
      cltv_sound [of h X "signature_script i" lt ctx] by (auto simp: ctx_def)
qed

text \<open>A spend of a pay-to-public-key-hash output by its owner, for the witnesses.\<close>

definition demo_op :: OutPoint where
  "demo_op = \<lparr> op_txid = Hash256 (replicate 32 5), output_index = 0 \<rparr>"

definition demo_entry :: UtxoEntry where
  "demo_entry = \<lparr> entry_output = \<lparr> value_atoms = 50, script_pubkey = p2pkh_tail demo_hash \<rparr>,
     created_height = 0, entry_coinbase = False \<rparr>"

definition demo_map :: utxo_map where
  "demo_map = [(demo_op, demo_entry)]"

definition demo_unsigned :: Transaction where
  "demo_unsigned = \<lparr> tx_id = ZERO, inputs = [\<lparr> previous_output = demo_op, signature_script = [] \<rparr>],
     outputs = [\<lparr> value_atoms = 40, script_pubkey = [OP_1] \<rparr>], payload = [] \<rparr>"

definition demo_der :: bytes where
  "demo_der = 7 # take 4 (hash_bytes (signature_hash demo_ext demo_unsigned))"

definition demo_spend :: Transaction where
  "demo_spend = demo_unsigned\<lparr> inputs := [\<lparr> previous_output = demo_op,
     signature_script = p2pkh_script_sig demo_der [7] \<rparr>] \<rparr>"

definition demo_spend_block :: Block where
  "demo_spend_block = demo_block\<lparr> transactions := [demo_tx, demo_spend] \<rparr>"

lemma demo_spend_hash: "signature_hash X demo_spend = signature_hash X demo_unsigned"
  by (simp add: signature_hash_def demo_spend_def demo_unsigned_def)

lemma demo_spend_unlocks:
  "unlocks demo_ext \<lparr> sig_hash = signature_hash demo_ext demo_unsigned, block_height = h \<rparr> [7] demo_der demo_hash"
  by (simp add: unlocks_def demo_hash_def [symmetric])
    (simp add: demo_ext_def demo_der_def)

lemma demo_spend_input:
  "previous_output (hd (inputs demo_spend)) = demo_op"
  "signature_script (hd (inputs demo_spend)) = p2pkh_script_sig demo_der [7]"
  by (simp_all add: demo_spend_def)

lemma demo_check_spend_at:
  assumes "look demo_op = Some e" and "script_pubkey (entry_output e) = p2pkh_tail demo_hash" and "\<not> entry_coinbase e"
  shows "check_input demo_ext p look h demo_spend (hd (inputs demo_spend)) = Ok (value_atoms (entry_output e))"
proof -
  have "p2pkh_script demo_hash = Some (p2pkh_tail demo_hash)"
    by (simp add: p2pkh_script_def p2pkh_tail_def)
  note p2pkh_accepts [OF demo_spend_unlocks this]
  then show ?thesis
    using assms by (simp add: check_input_def demo_spend_hash demo_spend_input immature_def)
qed

lemma demo_check_spend:
  "check_input demo_ext MAINNET (hm_get demo_map) h demo_spend (hd (inputs demo_spend)) = Ok 50"
  using demo_check_spend_at [of "hm_get demo_map" demo_entry] by (simp add: demo_map_def demo_entry_def)

lemma demo_spend_apply:
  "apply_block demo_ext MAINNET demo_map demo_spend_block
    = Ok (apply_delta demo_spend_block demo_map)"
proof -
  have ins: "inputs demo_spend = [hd (inputs demo_spend)]" by (simp add: demo_spend_def)
  have "check_inputs demo_ext MAINNET (hm_get demo_map) h demo_spend (inputs demo_spend) [] 0
      = Ok ([demo_op], 50)" for h
    using demo_check_spend [of h]
    by (subst ins) (simp add: sat_add_def demo_spend_def)
  moreover have "total_output_atoms demo_spend = 40" "total_output_atoms demo_tx = 100"
    by (simp_all add: total_output_atoms_def sat_sum_def sat_add_def demo_spend_def demo_unsigned_def demo_tx_def)
  ultimately show ?thesis
    by (simp add: apply_block_def check_block_def demo_spend_block_def sat_add_def sat_sub_def max_coinbase_atoms_def)
qed

theorem block_spend_authorised_witness:
  "key_signed demo_ext \<lparr> sig_hash = signature_hash demo_ext demo_spend, block_height = 0 \<rparr> demo_hash"
proof -
  have "p2pkh_script demo_hash = Some (script_pubkey (entry_output demo_entry))"
    by (simp add: p2pkh_script_def p2pkh_tail_def demo_entry_def)
  then show ?thesis
    using block_spend_authorised [OF demo_spend_apply, of demo_spend "hd (inputs demo_spend)" demo_entry demo_hash]
    by (simp add: demo_spend_block_def) (simp add: demo_spend_def demo_map_def)
qed

definition tx_fee :: "(OutPoint \<Rightarrow> UtxoEntry option) \<Rightarrow> Transaction \<Rightarrow> nat" where
  "tx_fee look tx = min (input_value look tx) (2 ^ 64 - 1) - min (output_value tx) (2 ^ 64 - 1)"

definition tx_ok :: "ext \<Rightarrow> ConsensusParams \<Rightarrow> (OutPoint \<Rightarrow> UtxoEntry option) \<Rightarrow> u64 \<Rightarrow> Transaction \<Rightarrow> bool" where
  "tx_ok X p look h tx \<longleftrightarrow> (\<forall>i \<in> set (inputs tx). input_ok X p look h tx i)
     \<and> distinct (map previous_output (inputs tx))
     \<and> min (output_value tx) (2 ^ 64 - 1) \<le> input_value look tx"

lemma validate_transaction_check:
  "validate_transaction X p look h tx = check_txs X p look h [tx] [] 0"
  by (auto simp: validate_transaction_def Let_def split: sum.splits prod.splits)

lemma validate_transaction_Ok_iff:
  "validate_transaction X p look h tx = Ok fee \<longleftrightarrow> tx_ok X p look h tx \<and> unat fee = tx_fee look tx"
proof -
  have "min (tx_fee look tx) (2 ^ 64 - 1) = tx_fee look tx" by (simp add: tx_fee_def)
  then show ?thesis
    unfolding validate_transaction_check check_txs_Ok_iff
    by (auto simp: tx_ok_def tx_fee_def)
qed

lemma check_txs_tx_ok:
  "check_txs X p look h txs [] 0 = Ok tot \<longleftrightarrow>
    distinct (spent_outpoints txs) \<and> (\<forall>tx \<in> set txs. tx_ok X p look h tx)
    \<and> unat tot = min (sum_list (map (tx_fee look) txs)) (2 ^ 64 - 1)"
proof -
  have "distinct (spent_outpoints txs) \<Longrightarrow> \<forall>tx \<in> set txs. distinct (map previous_output (inputs tx))"
    by (induction txs) auto
  then show ?thesis by (simp only: check_txs_Ok_iff tx_ok_def tx_fee_def [abs_def]) auto
qed

lemma fees_of_list_all2:
  "list_all2 (\<lambda>tx fee. validate_transaction X p look h tx = Ok fee) txs fees \<longleftrightarrow>
    (\<forall>tx \<in> set txs. tx_ok X p look h tx) \<and> map unat fees = map (tx_fee look) txs"
  by (induction txs arbitrary: fees)
    (auto simp: list_all2_Cons1 validate_transaction_Ok_iff map_eq_Cons_conv)

lemma tx_fees_exist: "\<exists>fees :: u64 list. map unat fees = map (tx_fee look) txs"
proof
  have "unat (of_nat (tx_fee look tx) :: u64) = tx_fee look tx" for tx
    by (intro unat_of_nat_u64) (simp add: tx_fee_def)
  then show "map unat (map (\<lambda>tx. of_nat (tx_fee look tx) :: u64) txs) = map (tx_fee look) txs" by simp
qed

lemma apply_block_ok_iff:
  "(\<exists>m'. apply_block X p m b = Ok m') \<longleftrightarrow>
    (\<exists>cb txs fees. transactions b = cb # txs \<and> distinct (spent_outpoints txs)
       \<and> list_all2 (\<lambda>tx fee. validate_transaction X p (hm_get m) (height (header b)) tx = Ok fee) txs fees
       \<and> total_output_atoms cb \<le> max_coinbase_atoms p (height (header b)) (sat_sum fees))"
proof -
  let ?h = "height (header b)" and ?look = "hm_get m"
  have fees: "check_txs X p ?look ?h txs [] 0 = Ok tot \<longleftrightarrow>
      (\<exists>fees. distinct (spent_outpoints txs)
        \<and> list_all2 (\<lambda>tx fee. validate_transaction X p ?look ?h tx = Ok fee) txs fees \<and> tot = sat_sum fees)" for txs tot
    using tx_fees_exist [of ?look txs]
    by (auto simp: check_txs_tx_ok fees_of_list_all2 word_unat_eq_iff [of tot] unat_sat_sum)
  have "(\<exists>m'. apply_block X p m b = Ok m') \<longleftrightarrow> (\<exists>cb txs tot. transactions b = cb # txs
      \<and> check_txs X p ?look ?h txs [] 0 = Ok tot \<and> total_output_atoms cb \<le> max_coinbase_atoms p ?h tot)"
    by (auto simp: apply_block_def check_block_def not_less split: list.splits sum.splits)
  then show ?thesis unfolding fees by blast
qed

text \<open>
  The mempool check and the block check are one rule: a block is accepted exactly when it has
  a first transaction, every other transaction passes \<open>validate_transaction\<close> at the block's height
  against the same set, no outpoint is claimed by two of them, and the first transaction pays out
  at most the reward plus the (saturating) sum of the fees \<open>validate_transaction\<close> reports.
\<close>

theorem apply_block_iff_validate_transactions:
  "(\<exists>m'. apply_block X p m b = Ok m') \<longleftrightarrow>
    (\<exists>cb txs fees. transactions b = cb # txs \<and> distinct (spent_outpoints txs)
       \<and> list_all2 (\<lambda>tx fee. validate_transaction X p (hm_get m) (height (header b)) tx = Ok fee) txs fees
       \<and> total_output_atoms cb \<le> max_coinbase_atoms p (height (header b)) (sat_sum fees))"
  by (rule apply_block_ok_iff)

section \<open>Checks read only the referenced entries\<close>

text \<open>
  The interface that lets a client validate against a partial set: a check that reads the entries
  of \<open>refs\<close> only. The chain state seeds a temporary set with the inputs a block references
  (\<open>validate_block_utxo\<close>), the node with the inputs of one transaction (\<open>seed_utxos_for_tx\<close>).
\<close>

definition seed_entries :: "(OutPoint \<Rightarrow> UtxoEntry option) \<Rightarrow> OutPoint list \<Rightarrow> utxo_map" where
  "seed_entries look ops =
     fold (\<lambda>op m. case look op of Some e \<Rightarrow> hm_insert op e m | None \<Rightarrow> m) ops []"

lemma hm_get_seed_entries: "hm_get (seed_entries look ops) op = (if op \<in> set ops then look op else None)"
proof -
  have "hm_get (fold (\<lambda>op m. case look op of Some e \<Rightarrow> hm_insert op e m | None \<Rightarrow> m) ops m) op
      = (if op \<in> set ops \<and> look op \<noteq> None then look op else hm_get m op)" for m
    by (induction ops arbitrary: m) (auto split: option.splits)
  then show ?thesis by (auto simp: seed_entries_def)
qed

locale reads_only =
  fixes check :: "(OutPoint \<Rightarrow> UtxoEntry option) \<Rightarrow> 'a \<Rightarrow> 'r"
    and refs :: "'a \<Rightarrow> OutPoint list"
  assumes agree: "(\<And>op. op \<in> set (refs a) \<Longrightarrow> look op = look' op) \<Longrightarrow> check look a = check look' a"
begin

lemma seeded: "check (hm_get (seed_entries look (refs a))) a = check look a"
  by (rule agree) (simp add: hm_get_seed_entries)

lemma unrelated_insert: "op \<notin> set (refs a) \<Longrightarrow> check (look(op := v)) a = check look a"
  by (rule agree) auto

lemma seeded_superset: "set (refs a) \<subseteq> set ops \<Longrightarrow> check (hm_get (seed_entries look ops)) a = check look a"
  by (rule agree) (auto simp: hm_get_seed_entries)

end

lemma check_inputs_agree:
  assumes "\<And>op. op \<in> set (map previous_output is) \<Longrightarrow> look op = look' op"
  shows "check_inputs X p look h tx is seen acc = check_inputs X p look' h tx is seen acc"
  using assms
proof (induction "is" arbitrary: seen acc)
  case Nil
  show ?case by simp
next
  case (Cons i "is")
  have "check_input X p look h tx i = check_input X p look' h tx i"
    using Cons.prems [of "previous_output i"] by (simp add: check_input_def)
  with Cons show ?case by (simp split: sum.splits)
qed

lemma check_txs_agree:
  assumes "\<And>op. op \<in> set (spent_outpoints txs) \<Longrightarrow> look op = look' op"
  shows "check_txs X p look h txs seen fees = check_txs X p look' h txs seen fees"
  using assms
proof (induction txs arbitrary: seen fees)
  case Nil
  show ?case by simp
next
  case (Cons tx txs)
  have "check_inputs X p look h tx (inputs tx) seen 0 = check_inputs X p look' h tx (inputs tx) seen 0"
    using Cons.prems by (intro check_inputs_agree) simp
  with Cons show ?case by (simp add: Let_def split: sum.splits prod.splits)
qed

definition tx_refs :: "Transaction \<Rightarrow> OutPoint list" where
  "tx_refs tx = map previous_output (inputs tx)"

definition block_refs :: "Block \<Rightarrow> OutPoint list" where
  "block_refs b = spent_outpoints (tl (transactions b))"

interpretation tx_view: reads_only "\<lambda>look tx. validate_transaction X p look h tx" tx_refs for X p h
proof
  fix tx :: Transaction and look look' :: "OutPoint \<Rightarrow> UtxoEntry option"
  assume "\<And>op. op \<in> set (tx_refs tx) \<Longrightarrow> look op = look' op"
  then have "check_inputs X p look h tx (inputs tx) [] 0 = check_inputs X p look' h tx (inputs tx) [] 0"
    by (intro check_inputs_agree) (simp add: tx_refs_def)
  then show "validate_transaction X p look h tx = validate_transaction X p look' h tx"
    by (simp add: validate_transaction_def)
qed

interpretation block_view: reads_only "\<lambda>look b. check_block X p look b" block_refs for X p
proof
  fix b :: Block and look look' :: "OutPoint \<Rightarrow> UtxoEntry option"
  assume "\<And>op. op \<in> set (block_refs b) \<Longrightarrow> look op = look' op"
  then show "check_block X p look b = check_block X p look' b"
    using check_txs_agree [of "tl (transactions b)" look look' X p]
    by (cases "transactions b") (simp_all add: check_block_def block_refs_def)
qed

section \<open>Declared transaction ids\<close>

text \<open>
  The ledger trusts the id a transaction declares: no check recomputes it. A block whose
  first transaction declares the id of an existing output is applied, and the entry at that
  outpoint, which nobody spent or signed for, is replaced by the block's own output.
\<close>

theorem declared_id_overwrites_entry:
  assumes "hm_get m \<lparr> op_txid = t, output_index = 0 \<rparr> = Some e"
    and "transactions b = [cb]" and "tx_id cb = t" and "outputs cb = [out]"
    and "\<not> is_op_return (script_pubkey out)"
    and "value_atoms out \<le> reward_at_height p (height (header b))" and "0 < height (header b)"
  shows "\<exists>m'. apply_block X p m b = Ok m' \<and> spent_outpoints (tl (transactions b)) = [] \<and>
    hm_get m' \<lparr> op_txid = t, output_index = 0 \<rparr> =
      Some \<lparr> entry_output = out, created_height = height (header b), entry_coinbase = is_coinbase cb \<rparr>"
proof -
  have "max_coinbase_atoms p (height (header b)) 0 = reward_at_height p (height (header b))"
    using assms(7) by (auto simp: max_coinbase_atoms_def has_genesis_premint_def)
  moreover have "total_output_atoms cb = value_atoms out"
    by (simp add: total_output_atoms_def sat_sum_def assms(4))
  ultimately have "apply_block X p m b = Ok (apply_delta b m)"
    using assms(2,6) by (simp add: apply_block_def check_block_def leD)
  moreover have "created_at b \<lparr> op_txid = t, output_index = 0 \<rparr> =
      Some \<lparr> entry_output = out, created_height = height (header b), entry_coinbase = is_coinbase cb \<rparr>"
    using assms(2-5) by (simp add: created_at_def created_entries_def)
  ultimately show ?thesis using assms(2) by (auto simp: hm_get_apply_delta)
qed

theorem declared_id_overwrites_entry_witness:
  "\<exists>m'. apply_block demo_ext MAINNET demo_map (demo_block\<lparr> header := (header demo_block)\<lparr> height := 1 \<rparr> \<rparr>) = Ok m'
    \<and> hm_get m' demo_op \<noteq> hm_get demo_map demo_op"
proof -
  let ?b = "demo_block\<lparr> header := (header demo_block)\<lparr> height := 1 \<rparr> \<rparr>"
  have get: "hm_get demo_map \<lparr> op_txid = Hash256 (replicate 32 5), output_index = 0 \<rparr> = Some demo_entry"
    by (simp add: demo_map_def demo_op_def)
  have r: "reward_at_height MAINNET 1 = 785584523"
    by (simp add: reward_at_height_def emission_era_def mainnet_defs)
  show ?thesis
    using declared_id_overwrites_entry [OF get, of ?b demo_tx "hd (outputs demo_tx)" MAINNET demo_ext] get
    by (auto simp: r demo_block_def demo_tx_def is_op_return_def opcode_defs demo_op_def demo_entry_def)
qed

end
