(* ===== verification/Storage_Keys.thy ===== *)
theory Storage_Keys
  imports Utxo_Set
begin

text \<open>
  The key encodings of the database, \<open>crates/tensorium-core/src/storage/mod.rs\<close>: heights as eight
  big-endian bytes, outpoints as 36 bytes. The values of the block and UTXO column families are
  written with \<open>bincode\<close>, whose decoding inverts its encoding; the model of the database keeps the
  decoded values.
\<close>

section \<open>The encodings\<close>

definition META_TIP :: bytes where "META_TIP = str_bytes ''tip''"
definition META_HEIGHT :: bytes where "META_HEIGHT = str_bytes ''height''"
definition META_CHAIN_ID :: bytes where "META_CHAIN_ID = str_bytes ''chain_id''"
definition META_UTXO_TIP :: bytes where "META_UTXO_TIP = str_bytes ''utxo_tip''"

definition encode_height :: "u64 \<Rightarrow> bytes" where
  "encode_height h = u64_to_be h"

text \<open>\<open>try_into().expect(..)\<close> panics unless the key has eight bytes.\<close>

definition decode_height :: "bytes \<Rightarrow> u64 option" where
  "decode_height b = (if length b = 8 then Some (u64_from_be b) else None)"

definition encode_outpoint :: "OutPoint \<Rightarrow> bytes" where
  "encode_outpoint op = hash_bytes (op_txid op) @ u32_to_be (output_index op)"

text \<open>The slices \<open>bytes[..32]\<close> and \<open>bytes[32..36]\<close> panic on a shorter key.\<close>

definition decode_outpoint :: "bytes \<Rightarrow> OutPoint option" where
  "decode_outpoint b =
     (if 36 \<le> length b
      then Some \<lparr> op_txid = Hash256 (take 32 b), output_index = u32_from_be (take 4 (drop 32 b)) \<rparr>
      else None)"

text \<open>An \<open>OutPoint\<close> of the source holds exactly 32 hash bytes.\<close>

definition outpoint_ok :: "OutPoint \<Rightarrow> bool" where
  "outpoint_ok op \<longleftrightarrow> hash_ok (op_txid op)"

lemmas meta_keys = META_TIP_def META_HEIGHT_def META_CHAIN_ID_def META_UTXO_TIP_def

lemma meta_keys_distinct [simp]:
  "META_TIP \<noteq> META_HEIGHT" "META_TIP \<noteq> META_CHAIN_ID" "META_TIP \<noteq> META_UTXO_TIP"
  "META_HEIGHT \<noteq> META_TIP" "META_CHAIN_ID \<noteq> META_TIP" "META_UTXO_TIP \<noteq> META_TIP"
  "META_UTXO_TIP \<noteq> META_HEIGHT" "META_UTXO_TIP \<noteq> META_CHAIN_ID"
  "META_HEIGHT \<noteq> META_UTXO_TIP" "META_CHAIN_ID \<noteq> META_UTXO_TIP"
  by (simp_all add: meta_keys)

section \<open>Key codecs\<close>

text \<open>
  What the column families need of their keys: distinct keys for distinct values, and for the
  canonical chain that the byte order of the keys is the order of the values, because
  \<open>canonical_blocks_iter\<close> relies on the iteration order of the database.
\<close>

locale key_codec =
  fixes enc :: "'a \<Rightarrow> bytes" and dec :: "bytes \<Rightarrow> 'a option" and wf :: "'a \<Rightarrow> bool"
  assumes dec_enc: "wf a \<Longrightarrow> dec (enc a) = Some a"
begin

lemma enc_inject: "wf a \<Longrightarrow> wf b \<Longrightarrow> enc a = enc b \<longleftrightarrow> a = b"
  by (metis dec_enc option.inject)

lemma inj_enc: "inj_on enc {a. wf a}"
  by (rule inj_onI) (simp add: enc_inject)

text \<open>A column family keyed through the codec behaves as a map on the well-formed values.\<close>

lemma get_put: "wf a \<Longrightarrow> wf b \<Longrightarrow> hm_get (hm_insert (enc a) v m) (enc b) = (if a = b then Some v else hm_get m (enc b))"
  by (auto simp: enc_inject)

lemma get_delete: "wf a \<Longrightarrow> wf b \<Longrightarrow> hm_get (hm_remove (enc a) m) (enc b) = (if a = b then None else hm_get m (enc b))"
  by (auto simp: enc_inject)

lemma get_puts:
  assumes "wf b" and "\<forall>kv \<in> set kvs. wf (fst kv)"
  shows "hm_get (fold (\<lambda>(k, v). hm_insert (enc k) v) kvs m) (enc b) =
    (case hm_get (rev kvs) b of Some v \<Rightarrow> Some v | None \<Rightarrow> hm_get m (enc b))"
  using assms
proof (induction kvs arbitrary: m)
  case Nil
  show ?case by simp
next
  case (Cons kv kvs)
  obtain k v where kv: "kv = (k, v)" by (cases kv)
  show ?case using Cons.prems Cons.IH [of "hm_insert (enc k) v m"]
    by (auto simp: kv enc_inject map_add_def split: option.splits)
qed

lemma get_deletes:
  assumes "wf b" and "\<forall>k \<in> set ks. wf k"
  shows "hm_get (fold (\<lambda>k. hm_remove (enc k)) ks m) (enc b) = (if b \<in> set ks then None else hm_get m (enc b))"
  using assms by (induction ks arbitrary: m) (auto simp: enc_inject)

end

locale ordered_key_codec = key_codec enc dec wf
  for enc :: "'a::linorder \<Rightarrow> bytes" and dec wf +
  assumes enc_less: "wf a \<Longrightarrow> wf b \<Longrightarrow> enc a < enc b \<longleftrightarrow> a < b"
begin

lemma enc_mono_sorted: "\<forall>a \<in> set as. wf a \<Longrightarrow> sorted_wrt (<) as \<Longrightarrow> sorted_wrt (<) (map enc as)"
  by (induction as) (auto simp: enc_less)

text \<open>Reading a column family in key order gives the entries in the order of their values.\<close>

lemma scan_sorted:
  assumes "\<forall>a \<in> set (map fst kvs). wf a" and "sorted_wrt (<) (map fst kvs)"
    and "hm_ok m" and "set m = set (map (\<lambda>(k, v). (enc k, v)) kvs)"
  shows "sort_key fst m = map (\<lambda>(k, v). (enc k, v)) kvs"
proof -
  let ?l = "map (\<lambda>(k, v). (enc k, v)) kvs"
  have keys: "map fst ?l = map enc (map fst kvs)" by auto
  have sw: "sorted_wrt (<) (map fst ?l)" unfolding keys using assms(1,2) by (rule enc_mono_sorted)
  then have sorted: "sorted (map fst ?l)" and dist: "distinct (map fst ?l)"
    by (simp_all add: strict_sorted_iff)
  have "mset m = mset ?l"
    using assms(3,4) dist by (metis distinct_map set_eq_iff_mset_eq_distinct)
  moreover have "inj_on fst (set m)" using assms(3) by (simp add: distinct_map)
  ultimately show ?thesis
    using sorted by (metis properties_for_sort_key sort_key_inj_key_eq)
qed

end

interpretation height_key: ordered_key_codec encode_height decode_height "\<lambda>_. True"
proof
  show "decode_height (encode_height a) = Some a" for a
    by (simp add: decode_height_def encode_height_def u64_be_roundtrip)
  show "encode_height a < encode_height b \<longleftrightarrow> a < b" for a b :: u64
    using unat_u64_lt [of a] unat_u64_lt [of b]
    by (simp add: encode_height_def u64_to_be_def be_less_iff le_nat_nat_le word_less_nat_alt)
qed

interpretation outpoint_key: key_codec encode_outpoint decode_outpoint outpoint_ok
proof
  fix a :: OutPoint assume "outpoint_ok a"
  then show "decode_outpoint (encode_outpoint a) = Some a"
    by (cases a; cases "op_txid a")
      (simp add: decode_outpoint_def encode_outpoint_def outpoint_ok_def hash_ok_def u32_be_roundtrip)
qed

text \<open>
  The database keys are faithful: decoding inverts encoding for heights and outpoints, so
  distinct outpoints never share a UTXO entry, and the byte order of height keys is the numeric
  order of the heights, which the forward scan of the canonical chain relies on.
\<close>

theorem storage_keys_faithful:
  "decode_height (encode_height h) = Some h \<and>
    (outpoint_ok op \<longrightarrow> decode_outpoint (encode_outpoint op) = Some op) \<and>
    (outpoint_ok op \<and> outpoint_ok op' \<longrightarrow> (encode_outpoint op = encode_outpoint op' \<longleftrightarrow> op = op')) \<and>
    (encode_height h < encode_height h' \<longleftrightarrow> h < h')"
  by (simp add: height_key.dec_enc height_key.enc_less outpoint_key.dec_enc outpoint_key.enc_inject)

theorem storage_keys_faithful_witness:
  "outpoint_ok demo_op \<and> decode_outpoint (encode_outpoint demo_op) = Some demo_op"
  using storage_keys_faithful [of 0 demo_op demo_op 0] by (simp add: outpoint_ok_def demo_op_def hash_ok_def)

end
