(* ===== verification/Chain_State.thy ===== *)
theory Chain_State
  imports Storage_Keys
begin

text \<open>
  The chain database and fork choice: \<open>crates/tensorium-core/src/state.rs\<close> and
  \<open>storage/migration.rs\<close>. A column family is an association list from key bytes; its iterator
  visits the keys in byte order. A write batch is the list of its operations, applied in order.
  The loops that follow \<open>previous_hash\<close> need not end on an arbitrary database, so they are partial
  functions: \<open>None\<close> is a loop that does not return. Fallible operations return the state together
  with the result, because \<open>submit_block\<close> stores a block before it validates its transactions.
\<close>

section \<open>The database\<close>

record ChainState =
  cf_blocks :: "(bytes, Block) hashmap"
  cf_canonical :: "(bytes, bytes) hashmap"
  cf_meta :: "(bytes, bytes) hashmap"
  cf_utxo :: "(bytes, UtxoEntry) hashmap"
  tip_cache :: "Block option"
  height_cache :: "u64 option"
  last_disconnected :: "Block list"

datatype StateError =
    GenesisAlreadyExists
  | MissingGenesis
  | MiningFailed
  | AlreadyKnown
  | UnknownParent
  | Validation ValidationError
  | Utxo UtxoError

datatype WriteOp =
    PutBlock bytes Block
  | PutCanonical bytes bytes
  | DeleteCanonical bytes
  | PutMeta bytes bytes
  | PutUtxo bytes UtxoEntry
  | DeleteUtxo bytes

fun write_op :: "WriteOp \<Rightarrow> ChainState \<Rightarrow> ChainState" where
  "write_op (PutBlock k v) s = s\<lparr> cf_blocks := hm_insert k v (cf_blocks s) \<rparr>"
| "write_op (PutCanonical k v) s = s\<lparr> cf_canonical := hm_insert k v (cf_canonical s) \<rparr>"
| "write_op (DeleteCanonical k) s = s\<lparr> cf_canonical := hm_remove k (cf_canonical s) \<rparr>"
| "write_op (PutMeta k v) s = s\<lparr> cf_meta := hm_insert k v (cf_meta s) \<rparr>"
| "write_op (PutUtxo k v) s = s\<lparr> cf_utxo := hm_insert k v (cf_utxo s) \<rparr>"
| "write_op (DeleteUtxo k) s = s\<lparr> cf_utxo := hm_remove k (cf_utxo s) \<rparr>"

definition write_batch :: "WriteOp list \<Rightarrow> ChainState \<Rightarrow> ChainState" where
  "write_batch batch s = fold write_op batch s"

definition cf_scan :: "(bytes, 'v) hashmap \<Rightarrow> (bytes \<times> 'v) list" where
  "cf_scan m = sort_key fst m"

definition new_state :: ChainState where
  "new_state = \<lparr> cf_blocks = [], cf_canonical = [], cf_meta = [], cf_utxo = [],
     tip_cache = None, height_cache = None, last_disconnected = [] \<rparr>"

definition get_block_by_hash :: "ChainState \<Rightarrow> Hash256 \<Rightarrow> Block option" where
  "get_block_by_hash s h = hm_get (cf_blocks s) (hash_bytes h)"

definition block_known :: "ChainState \<Rightarrow> Hash256 \<Rightarrow> bool" where
  "block_known s h \<longleftrightarrow> hm_get (cf_blocks s) (hash_bytes h) \<noteq> None"

definition utxo_get :: "ChainState \<Rightarrow> OutPoint \<Rightarrow> UtxoEntry option" where
  "utxo_get s op = hm_get (cf_utxo s) (encode_outpoint op)"

definition utxo_lookup :: "ChainState \<Rightarrow> OutPoint \<Rightarrow> UtxoEntry option" where
  "utxo_lookup s op = utxo_get s op"

text \<open>\<open>bytes.try_into().ok().map(Hash256)\<close>: a hash, if there are 32 bytes.\<close>

definition to_hash :: "bytes \<Rightarrow> Hash256 option" where
  "to_hash b = (if length b = 32 then Some (Hash256 b) else None)"

definition read_meta_utxo_tip :: "ChainState \<Rightarrow> Hash256 option" where
  "read_meta_utxo_tip s = Option.bind (hm_get (cf_meta s) META_UTXO_TIP) to_hash"

definition get_block_by_height :: "ChainState \<Rightarrow> u64 \<Rightarrow> Block option" where
  "get_block_by_height s h =
     Option.bind (hm_get (cf_canonical s) (encode_height h)) (\<lambda>hb.
     Option.bind (to_hash hb) (get_block_by_hash s))"

definition utxos_for_script :: "ChainState \<Rightarrow> bytes \<Rightarrow> (OutPoint \<times> UtxoEntry) list" where
  "utxos_for_script s script =
     map (\<lambda>(k, e). (the (decode_outpoint k), e))
       (filter (\<lambda>(k, e). script_pubkey (entry_output e) = script) (cf_scan (cf_utxo s)))"

definition tip_hash :: "ext \<Rightarrow> ChainState \<Rightarrow> Hash256" where
  "tip_hash X s = (case tip_cache s of Some b \<Rightarrow> block_hash X b | None \<Rightarrow> ZERO)"

definition chain_block_count :: "ChainState \<Rightarrow> nat" where
  "chain_block_count s = (case height_cache s of Some h \<Rightarrow> unat h + 1 | None \<Rightarrow> 0)"

definition canonical_blocks_iter :: "ChainState \<Rightarrow> Block list" where
  "canonical_blocks_iter s =
     List.map_filter (\<lambda>(k, hb). Option.bind (to_hash hb) (get_block_by_hash s)) (cf_scan (cf_canonical s))"

text \<open>A stored tip of other than 32 bytes would panic in \<open>expect\<close>; it is treated as absent.\<close>

definition reload_caches :: "ChainState \<Rightarrow> ChainState" where
  "reload_caches s =
     (case hm_get (cf_meta s) META_TIP of
        None \<Rightarrow> s
      | Some tip_bytes \<Rightarrow>
          (case Option.bind (to_hash tip_bytes) (get_block_by_hash s) of
             None \<Rightarrow> s
           | Some b \<Rightarrow> s\<lparr> height_cache := Some (height (header b)), tip_cache := Some b \<rparr>))"

definition take_reorg_requeue_candidates :: "ChainState \<Rightarrow> Transaction list \<times> ChainState" where
  "take_reorg_requeue_candidates s =
     (filter (\<lambda>tx. \<not> is_coinbase tx) (concat (map transactions (last_disconnected s))),
      s\<lparr> last_disconnected := [] \<rparr>)"

definition epoch_seed_for_height :: "ext \<Rightarrow> ChainState \<Rightarrow> u64 \<Rightarrow> Hash256" where
  "epoch_seed_for_height X s h =
     (let epoch = h div EPOCH_LENGTH in
      if epoch = 0 then ZERO
      else case get_block_by_height s (epoch * EPOCH_LENGTH - 1) of
             Some b \<Rightarrow> block_hash X b
           | None \<Rightarrow> ZERO)"

section \<open>Following the parents\<close>

partial_function (option) chain_work_loop ::
  "(bytes, Block) hashmap \<Rightarrow> Hash256 \<Rightarrow> u128 \<Rightarrow> u128 option" where
  "chain_work_loop bs tip work =
     (case hm_get bs (hash_bytes tip) of
        None \<Rightarrow> Some work
      | Some b \<Rightarrow>
          let work' = sat_add work (push_bit (unat (leading_zero_bits (header b)) mod 128) 1) in
          if previous_hash (header b) = ZERO then Some work'
          else chain_work_loop bs (previous_hash (header b)) work')"

definition chain_work :: "ChainState \<Rightarrow> Hash256 \<Rightarrow> u128 option" where
  "chain_work s tip = chain_work_loop (cf_blocks s) tip 0"

partial_function (option) build_chain_loop ::
  "(bytes, Block) hashmap \<Rightarrow> Hash256 \<Rightarrow> Block list \<Rightarrow> Block list option" where
  "build_chain_loop bs cur chain =
     (case hm_get bs (hash_bytes cur) of
        None \<Rightarrow> Some chain
      | Some b \<Rightarrow>
          if previous_hash (header b) = ZERO then Some (chain @ [b])
          else build_chain_loop bs (previous_hash (header b)) (chain @ [b]))"

definition build_canonical_chain :: "ChainState \<Rightarrow> Hash256 \<Rightarrow> Block list option" where
  "build_canonical_chain s tip = map_option rev (build_chain_loop (cf_blocks s) tip [])"

text \<open>The two ancestor walks of \<open>expected_leading_zero_bits_for\<close>.\<close>

partial_function (option) bootstrap_walk ::
  "(bytes, Block) hashmap \<Rightarrow> u64 \<Rightarrow> u64 \<Rightarrow> Block option \<Rightarrow> Block option
    \<Rightarrow> (Block option \<times> Block option) option" where
  "bootstrap_walk bs h activation cur lst =
     (case cur of
        None \<Rightarrow> Some (None, lst)
      | Some b \<Rightarrow>
          let lst' = (if height (header b) = h - 1 \<and> lst = None then Some b else lst) in
          if height (header b) = activation then Some (Some b, lst')
          else bootstrap_walk bs h activation (hm_get bs (hash_bytes (previous_hash (header b)))) lst')"

partial_function (option) window_walk ::
  "(bytes, Block) hashmap \<Rightarrow> u64 \<Rightarrow> u64 \<Rightarrow> Block option \<Rightarrow> Block option
    \<Rightarrow> (Block option \<times> Block option) option" where
  "window_walk bs window_start window_end cur lst =
     (case cur of
        None \<Rightarrow> Some (None, lst)
      | Some b \<Rightarrow>
          let h = height (header b); lst' = (if h = window_end then Some b else lst) in
          if h \<le> window_start then Some (if h = window_start then Some b else None, lst')
          else window_walk bs window_start window_end (hm_get bs (hash_bytes (previous_hash (header b)))) lst')"

definition bootstrap_sample :: "Block option \<times> Block option \<Rightarrow> DifficultySample option" where
  "bootstrap_sample fl =
     (case fl of
        (Some f, Some l) \<Rightarrow> Some \<lparr>
          first_timestamp_seconds = timestamp_seconds (header f),
          last_timestamp_seconds = timestamp_seconds (header l),
          current_leading_zero_bits = leading_zero_bits (header l),
          block_count = sat_sub (height (header l)) (height (header f)) + 1 \<rparr>
      | _ \<Rightarrow> None)"

definition window_sample :: "u64 \<Rightarrow> u64 \<Rightarrow> Block option \<times> Block option \<Rightarrow> DifficultySample option" where
  "window_sample window_start window_end fl =
     (case fl of
        (Some f, Some l) \<Rightarrow> Some \<lparr>
          first_timestamp_seconds = timestamp_seconds (header f),
          last_timestamp_seconds = timestamp_seconds (header l),
          current_leading_zero_bits = leading_zero_bits (header l),
          block_count = sat_sub window_end window_start + 1 \<rparr>
      | _ \<Rightarrow> None)"

definition expected_leading_zero_bits_for :: "ChainState \<Rightarrow> ConsensusParams \<Rightarrow> Block option \<Rightarrow> u8 option" where
  "expected_leading_zero_bits_for s p parent =
     (let h = next_height parent; activation = difficulty_retarget_activation_height p;
          sample =
            (if h < activation then Some None
             else
               let window = max (difficulty_adjustment_window p) 1; epoch = (h - activation) div window in
               if epoch = 0 then
                 (if sat_add activation 2 \<le> h
                  then map_option bootstrap_sample (bootstrap_walk (cf_blocks s) h activation parent None)
                  else Some None)
               else
                 let window_start = activation + (epoch - 1) * window;
                     window_end = window_start + window - 1 in
                 map_option (window_sample window_start window_end)
                   (window_walk (cf_blocks s) window_start window_end parent None))
      in map_option (expected_leading_zero_bits p h) sample)"

section \<open>Producing blocks\<close>

definition candidate_block_for ::
  "ext \<Rightarrow> ConsensusParams \<Rightarrow> Block option \<Rightarrow> u64 \<Rightarrow> string \<Rightarrow> Transaction list \<Rightarrow> u64 \<Rightarrow> Block" where
  "candidate_block_for X p parent timestamp miner extra_txs total_fees =
     (let h = next_height parent;
          prev = (case parent of None \<Rightarrow> ZERO | Some pb \<Rightarrow> block_hash X pb);
          reward = sat_add (reward_at_height p h) total_fees;
          coinbase_tx =
            (if h = 0 \<and> (genesis_allocations p \<noteq> [] \<or> founder_address p \<noteq> [])
             then genesis_coinbase X reward miner (founder_allocation_atoms p) (founder_address p)
                    (genesis_allocations p)
             else coinbase X h reward miner);
          txs = coinbase_tx # extra_txs
      in \<lparr> header = \<lparr> version = 1, chain_id = params_chain_id p, height = h, previous_hash = prev,
             merkle_root = merkle_root_of X txs, timestamp_seconds = timestamp,
             leading_zero_bits = initial_leading_zero_bits p, nonce = 0 \<rparr>,
           transactions = txs \<rparr>)"

definition mine_candidate_block ::
  "ext \<Rightarrow> ConsensusParams \<Rightarrow> Block option \<Rightarrow> u64 \<Rightarrow> string \<Rightarrow> u64 \<Rightarrow> u8 \<Rightarrow> Hash256 \<Rightarrow> (Block, StateError) result" where
  "mine_candidate_block X p parent timestamp miner max_nonce bits epoch_seed =
     (let b = candidate_block_for X p parent timestamp miner [] 0;
          hdr = (header b)\<lparr> leading_zero_bits := bits \<rparr> in
      case mine_header X hdr epoch_seed max_nonce of
        None \<Rightarrow> Err MiningFailed
      | Some mined \<Rightarrow> Ok \<lparr> header = mined, transactions = transactions b \<rparr>)"

definition put_block_batch :: "ext \<Rightarrow> Block \<Rightarrow> WriteOp list" where
  "put_block_batch X b =
     (let h = hash_bytes (block_hash X b) in
      [PutBlock h b,
       PutCanonical (encode_height (height (header b))) h,
       PutMeta META_TIP h,
       PutMeta META_HEIGHT (encode_height (height (header b))),
       PutMeta META_CHAIN_ID (str_bytes (chain_id (header b)))])"

text \<open>Storing a freshly produced tip: the batch, then the caches.\<close>

definition install_tip :: "ext \<Rightarrow> Block \<Rightarrow> ChainState \<Rightarrow> ChainState" where
  "install_tip X b s =
     (write_batch (put_block_batch X b) s)\<lparr> tip_cache := Some b, height_cache := Some (height (header b)) \<rparr>"

definition init_genesis ::
  "ext \<Rightarrow> ConsensusParams \<Rightarrow> u64 \<Rightarrow> u64 \<Rightarrow> ChainState \<Rightarrow> (ChainState \<times> (Block, StateError) result) option" where
  "init_genesis X p timestamp max_nonce s =
     (if height_cache s \<noteq> None then Some (s, Err GenesisAlreadyExists)
      else
        map_option (\<lambda>bits.
          let seed = epoch_seed_for_height X s 0 in
          case mine_candidate_block X p None timestamp ''genesis'' max_nonce bits seed of
            Err e \<Rightarrow> (s, Err e)
          | Ok b \<Rightarrow>
              (case validate_block X p None b timestamp bits seed of
                 Err e \<Rightarrow> (s, Err (Validation e))
               | Ok _ \<Rightarrow> (install_tip X b s, Ok b)))
          (expected_leading_zero_bits_for s p None))"

definition init_genesis_nonce ::
  "ext \<Rightarrow> ConsensusParams \<Rightarrow> u64 \<Rightarrow> u64 \<Rightarrow> ChainState \<Rightarrow> (ChainState \<times> (Block, StateError) result) option" where
  "init_genesis_nonce X p timestamp genesis_nonce s =
     (if height_cache s \<noteq> None then Some (s, Err GenesisAlreadyExists)
      else
        map_option (\<lambda>bits.
          let seed = epoch_seed_for_height X s 0;
              c = candidate_block_for X p None timestamp ''genesis'' [] 0;
              b = c\<lparr> header := (header c)\<lparr> leading_zero_bits := bits, nonce := genesis_nonce \<rparr> \<rparr> in
          if \<not> header_meets_work X (header b) seed then (s, Err MiningFailed)
          else
            (case validate_block X p None b timestamp bits seed of
               Err e \<Rightarrow> (s, Err (Validation e))
             | Ok _ \<Rightarrow> (install_tip X b s, Ok b)))
          (expected_leading_zero_bits_for s p None))"

definition mine_next_block ::
  "ext \<Rightarrow> ConsensusParams \<Rightarrow> u64 \<Rightarrow> string \<Rightarrow> u64 \<Rightarrow> ChainState \<Rightarrow> (ChainState \<times> (Block, StateError) result) option" where
  "mine_next_block X p timestamp miner max_nonce s =
     (case tip_cache s of
        None \<Rightarrow> Some (s, Err MissingGenesis)
      | Some parent \<Rightarrow>
          map_option (\<lambda>bits.
            let seed = epoch_seed_for_height X s (height (header parent) + 1) in
            case mine_candidate_block X p (Some parent) timestamp miner max_nonce bits seed of
              Err e \<Rightarrow> (s, Err e)
            | Ok b \<Rightarrow>
                (case validate_block X p (Some parent) b timestamp bits seed of
                   Err e \<Rightarrow> (s, Err (Validation e))
                 | Ok _ \<Rightarrow> (install_tip X b s, Ok b)))
            (expected_leading_zero_bits_for s p (Some parent)))"

definition candidate_block_with_mempool ::
  "ext \<Rightarrow> ConsensusParams \<Rightarrow> u64 \<Rightarrow> string \<Rightarrow> Transaction list \<Rightarrow> u64 \<Rightarrow> ChainState \<Rightarrow> (Block, StateError) result option" where
  "candidate_block_with_mempool X p timestamp miner extra_txs total_fees s =
     (case tip_cache s of
        None \<Rightarrow> Some (Err MissingGenesis)
      | Some parent \<Rightarrow>
          map_option (\<lambda>bits.
            let b = candidate_block_for X p (Some parent) timestamp miner extra_txs total_fees in
            Ok (b\<lparr> header := (header b)\<lparr> leading_zero_bits := bits \<rparr> \<rparr>))
            (expected_leading_zero_bits_for s p (Some parent)))"

definition candidate_block :: "ext \<Rightarrow> ConsensusParams \<Rightarrow> u64 \<Rightarrow> string \<Rightarrow> ChainState \<Rightarrow> (Block, StateError) result option" where
  "candidate_block X p timestamp miner s = candidate_block_with_mempool X p timestamp miner [] 0 s"

section \<open>The persistent UTXO set\<close>

fun replay_utxo_from :: "ext \<Rightarrow> ConsensusParams \<Rightarrow> utxo_map \<Rightarrow> Block list \<Rightarrow> (utxo_map, UtxoError) result" where
  "replay_utxo_from X p uset [] = Ok uset"
| "replay_utxo_from X p uset (b # bs) =
     (case apply_block X p uset b of Err e \<Rightarrow> Err e | Ok uset' \<Rightarrow> replay_utxo_from X p uset' bs)"

definition replay_utxo :: "ext \<Rightarrow> ConsensusParams \<Rightarrow> Block list \<Rightarrow> (utxo_map, StateError) result" where
  "replay_utxo X p chain = map_err Utxo (replay_utxo_from X p [] chain)"

definition rewrite_utxo_into_batch :: "ChainState \<Rightarrow> utxo_map \<Rightarrow> Hash256 \<Rightarrow> WriteOp list" where
  "rewrite_utxo_into_batch s uset utxo_tip =
     map (\<lambda>(k, _). DeleteUtxo k) (cf_scan (cf_utxo s))
     @ map (\<lambda>(op, e). PutUtxo (encode_outpoint op) e) uset
     @ [PutMeta META_UTXO_TIP (hash_bytes utxo_tip)]"

definition validate_block_utxo :: "ext \<Rightarrow> ConsensusParams \<Rightarrow> ChainState \<Rightarrow> Block \<Rightarrow> (unit, StateError) result" where
  "validate_block_utxo X p s b =
     (case apply_block X p (seed_entries (utxo_get s) (spent_outpoints (tl (transactions b)))) b of
        Err e \<Rightarrow> Err (Utxo e)
      | Ok _ \<Rightarrow> Ok ())"

definition apply_utxo_delta_to_batch :: "Block \<Rightarrow> WriteOp list" where
  "apply_utxo_delta_to_batch b =
     map (\<lambda>op. DeleteUtxo (encode_outpoint op)) (spent_outpoints (tl (transactions b)))
     @ map (\<lambda>(op, e). PutUtxo (encode_outpoint op) e) (created_entries b)"

definition ensure_utxo_synced ::
  "ext \<Rightarrow> ConsensusParams \<Rightarrow> ChainState \<Rightarrow> ChainState \<times> (unit, StateError) result" where
  "ensure_utxo_synced X p s =
     (case tip_cache s of
        None \<Rightarrow> (s, Ok ())
      | Some b \<Rightarrow>
          if read_meta_utxo_tip s = Some (block_hash X b) then (s, Ok ())
          else case replay_utxo X p (canonical_blocks_iter s) of
                 Err e \<Rightarrow> (s, Err e)
               | Ok uset \<Rightarrow> (write_batch (rewrite_utxo_into_batch s uset (block_hash X b)) s, Ok ()))"

section \<open>Fork choice\<close>

text \<open>The fast path of \<open>submit_block\<close>: the block extends the tip.\<close>

definition extend_tip ::
  "ext \<Rightarrow> ConsensusParams \<Rightarrow> Block \<Rightarrow> ChainState \<Rightarrow> ChainState \<times> (Block, StateError) result" where
  "extend_tip X p b s =
     (case validate_block_utxo X p s b of
        Err e \<Rightarrow> (s, Err e)
      | Ok _ \<Rightarrow>
          let h = hash_bytes (block_hash X b);
              batch = [PutCanonical (encode_height (height (header b))) h]
                @ apply_utxo_delta_to_batch b
                @ [PutMeta META_TIP h, PutMeta META_HEIGHT (encode_height (height (header b))),
                   PutMeta META_UTXO_TIP h]
          in ((write_batch batch s)\<lparr> tip_cache := Some b, height_cache := Some (height (header b)) \<rparr>, Ok b))"

text \<open>\<open>old.iter().zip(new.iter()).take_while(|(a, b)| a.hash() == b.hash()).count()\<close>.\<close>

fun fork_index :: "ext \<Rightarrow> Block list \<Rightarrow> Block list \<Rightarrow> nat" where
  "fork_index X (a # as) (b # bs) = (if block_hash X a = block_hash X b then Suc (fork_index X as bs) else 0)"
| "fork_index X _ _ = 0"

text \<open>The heights \<open>(height + 1)..=old_height\<close>. At \<open>height = u64::MAX\<close> the start wraps to 0.\<close>

definition stale_heights :: "u64 \<Rightarrow> u64 \<Rightarrow> u64 list" where
  "stale_heights h old_h = map of_nat [unat (h + 1)..<Suc (unat old_h)]"

definition reorg_to ::
  "ext \<Rightarrow> ConsensusParams \<Rightarrow> Block \<Rightarrow> Hash256 \<Rightarrow> Block list \<Rightarrow> ChainState
    \<Rightarrow> (ChainState \<times> (Block, StateError) result) option" where
  "reorg_to X p b old_tip new_canonical s =
     (case replay_utxo X p new_canonical of
        Err e \<Rightarrow> Some (s, Err e)
      | Ok uset \<Rightarrow>
          Option.bind (build_canonical_chain s old_tip) (\<lambda>old_canonical.
          let bh = block_hash X b;
              h = (if new_canonical = [] then 0 else height (header (last new_canonical)));
              old_h = (case height_cache s of Some x \<Rightarrow> x | None \<Rightarrow> 0);
              s1 = s\<lparr> last_disconnected := drop (fork_index X old_canonical new_canonical) old_canonical \<rparr>;
              batch = map (\<lambda>c. PutCanonical (encode_height (height (header c))) (hash_bytes (block_hash X c))) new_canonical
                @ map (\<lambda>i. DeleteCanonical (encode_height i)) (stale_heights h old_h)
                @ [PutMeta META_TIP (hash_bytes bh), PutMeta META_HEIGHT (encode_height h)]
                @ rewrite_utxo_into_batch s1 uset bh
          in Some ((write_batch batch s1)\<lparr> tip_cache := Some b, height_cache := Some h \<rparr>, Ok b)))"

definition fork_choice ::
  "ext \<Rightarrow> ConsensusParams \<Rightarrow> Block \<Rightarrow> ChainState \<Rightarrow> (ChainState \<times> (Block, StateError) result) option" where
  "fork_choice X p b s =
     (let old_tip = tip_hash X s in
      Option.bind (chain_work s (block_hash X b)) (\<lambda>new_work.
      Option.bind (chain_work s old_tip) (\<lambda>old_work.
        let s1 = s\<lparr> last_disconnected := [] \<rparr> in
        if new_work > old_work then
          if previous_hash (header b) = old_tip then Some (extend_tip X p b s1)
          else
            Option.bind (build_canonical_chain s1 (block_hash X b)) (\<lambda>new_canonical.
              reorg_to X p b old_tip new_canonical s1)
        else Some (s1, Ok b))))"

definition submit_block ::
  "ext \<Rightarrow> ConsensusParams \<Rightarrow> Block \<Rightarrow> u64 \<Rightarrow> ChainState \<Rightarrow> (ChainState \<times> (Block, StateError) result) option" where
  "submit_block X p b now_seconds s0 =
     (if block_known s0 (block_hash X b) then Some (s0, Err AlreadyKnown)
      else case ensure_utxo_synced X p s0 of
        (s, Err e) \<Rightarrow> Some (s, Err e)
      | (s, Ok _) \<Rightarrow>
        (case get_block_by_hash s (previous_hash (header b)) of
           None \<Rightarrow> Some (s, Err UnknownParent)
         | Some parent \<Rightarrow>
             Option.bind (expected_leading_zero_bits_for s p (Some parent)) (\<lambda>bits.
               case validate_block X p (Some parent) b now_seconds bits
                      (epoch_seed_for_height X s (height (header b))) of
                 Err e \<Rightarrow> Some (s, Err (Validation e))
               | Ok _ \<Rightarrow>
                   fork_choice X p b
                     (s\<lparr> cf_blocks := hm_insert (hash_bytes (block_hash X b)) b (cf_blocks s) \<rparr>))))"

end
