(* ===== verification/Mem_Pool.thy ===== *)
theory Mem_Pool
  imports Chain_State
begin

text \<open>
  The pool of unconfirmed transactions: \<open>crates/tensorium-core/src/mempool.rs\<close>. The pool is a hash
  map keyed by the hexadecimal transaction id; the order of the association list is the iteration
  order of the map, on which ties between equal fees depend.
\<close>

section \<open>The pool and its operations\<close>

definition MIN_RELAY_FEE_ATOMS :: u64 where "MIN_RELAY_FEE_ATOMS = 10000"
definition PRIORITY_FEE_ATOMS :: u64 where "PRIORITY_FEE_ATOMS = 100000"
definition MAX_MEMPOOL_TXS :: nat where "MAX_MEMPOOL_TXS = 5000"

record MempoolEntry =
  entry_tx :: Transaction
  fee_atoms :: u64

type_synonym mempool = "(string, MempoolEntry) hashmap"

datatype MempoolError =
    CoinbaseNotAllowed
  | MempoolAlreadyKnown
  | PendingConflict
  | FeeTooLow u64 u64
  | MempoolFull u64 nat
  | InvalidTransaction UtxoError

definition conflicts_with_pending :: "mempool \<Rightarrow> Transaction \<Rightarrow> bool" where
  "conflicts_with_pending pending tx \<longleftrightarrow>
     (\<exists>(k, e) \<in> set pending. \<exists>i \<in> set (inputs (entry_tx e)). previous_output i \<in> set (tx_refs tx))"

text \<open>\<open>min_by_key\<close>: the first entry, in iteration order, with the least fee.\<close>

fun lowest_fee :: "mempool \<Rightarrow> (string \<times> u64) option" where
  "lowest_fee [] = None"
| "lowest_fee ((k, e) # pending) =
     (case lowest_fee pending of
        None \<Rightarrow> Some (k, fee_atoms e)
      | Some (k', f') \<Rightarrow> if f' < fee_atoms e then Some (k', f') else Some (k, fee_atoms e))"

definition mempool_add ::
  "ext \<Rightarrow> ConsensusParams \<Rightarrow> (OutPoint \<Rightarrow> UtxoEntry option) \<Rightarrow> mempool \<Rightarrow> Transaction \<Rightarrow> u64 \<Rightarrow> (mempool, MempoolError) result" where
  "mempool_add X p utxos pending tx tip_height =
     (let key = to_hex X (tx_id tx) in
      if is_coinbase tx then Err CoinbaseNotAllowed
      else if hm_get pending key \<noteq> None then Err MempoolAlreadyKnown
      else if conflicts_with_pending pending tx then Err PendingConflict
      else case validate_transaction X p utxos tip_height tx of
        Err e \<Rightarrow> Err (InvalidTransaction e)
      | Ok fee \<Rightarrow>
          if fee < MIN_RELAY_FEE_ATOMS then Err (FeeTooLow fee MIN_RELAY_FEE_ATOMS)
          else
            let entry = \<lparr> entry_tx = tx, fee_atoms = fee \<rparr> in
            if length pending \<ge> MAX_MEMPOOL_TXS then
              (case lowest_fee pending of
                 Some (low_key, low_fee) \<Rightarrow>
                   if fee > low_fee then Ok (hm_insert key entry (hm_remove low_key pending))
                   else Err (MempoolFull fee MAX_MEMPOOL_TXS)
               | None \<Rightarrow> Err (MempoolFull fee MAX_MEMPOOL_TXS))
            else Ok (hm_insert key entry pending))"

text \<open>\<open>sort_by(|a, b| b.fee_atoms.cmp(&a.fee_atoms))\<close>: a stable sort by descending fee.\<close>

definition by_fee_desc :: "MempoolEntry list \<Rightarrow> MempoolEntry list" where
  "by_fee_desc es = sort_key (\<lambda>e. - 1 - fee_atoms e) es"

fun select_loop :: "MempoolEntry list \<Rightarrow> OutPoint set \<Rightarrow> Transaction list \<Rightarrow> u64 \<Rightarrow> Transaction list \<times> u64" where
  "select_loop [] spent selected fees = (selected, fees)"
| "select_loop (e # es) spent selected fees =
     (if \<exists>i \<in> set (inputs (entry_tx e)). previous_output i \<in> spent
      then select_loop es spent selected fees
      else select_loop es (spent \<union> set (tx_refs (entry_tx e))) (selected @ [entry_tx e])
             (sat_add fees (fee_atoms e)))"

definition select_for_block :: "mempool \<Rightarrow> Transaction list \<times> u64" where
  "select_for_block pending = select_loop (by_fee_desc (map snd pending)) {} [] 0"

definition remove_confirmed :: "ext \<Rightarrow> mempool \<Rightarrow> Block \<Rightarrow> mempool" where
  "remove_confirmed X pending b =
     (let confirmed_ids = set (map (to_hex X \<circ> tx_id) (transactions b));
          spent = set (spent_outpoints (transactions b)) in
      filter (\<lambda>(txid, e). txid \<notin> confirmed_ids
        \<and> \<not> (\<exists>i \<in> set (inputs (entry_tx e)). previous_output i \<in> spent)) pending)"

definition is_known :: "mempool \<Rightarrow> string \<Rightarrow> bool" where
  "is_known pending txid_hex \<longleftrightarrow> hm_get pending txid_hex \<noteq> None"

record FeeStats =
  count :: u64
  total_fee_atoms :: u64
  min_fee_atoms :: u64
  max_fee_atoms :: u64
  median_fee_atoms :: u64
  min_relay_fee_atoms :: u64
  priority_fee_atoms :: u64

definition fee_stats :: "mempool \<Rightarrow> FeeStats" where
  "fee_stats pending =
     (if pending = [] then
        \<lparr> count = 0, total_fee_atoms = 0, min_fee_atoms = 0, max_fee_atoms = 0, median_fee_atoms = 0,
          min_relay_fee_atoms = MIN_RELAY_FEE_ATOMS, priority_fee_atoms = PRIORITY_FEE_ATOMS \<rparr>
      else
        let fees = sort (map (fee_atoms \<circ> snd) pending) in
        \<lparr> count = of_nat (length pending), total_fee_atoms = sum_list fees, min_fee_atoms = hd fees,
          max_fee_atoms = last fees, median_fee_atoms = fees ! (length fees div 2),
          min_relay_fee_atoms = MIN_RELAY_FEE_ATOMS, priority_fee_atoms = PRIORITY_FEE_ATOMS \<rparr>)"

datatype CongestionLevel = Low | Medium | High

record FeeTiers =
  slow_atoms :: u64
  normal_atoms :: u64
  fast_atoms :: u64
  congestion_level :: CongestionLevel
  mempool_count :: u64

definition fee_tiers :: "mempool \<Rightarrow> FeeTiers" where
  "fee_tiers pending =
     (let slow_floor = MIN_RELAY_FEE_ATOMS; normal_floor = MIN_RELAY_FEE_ATOMS * 2;
          fast_floor = MIN_RELAY_FEE_ATOMS * 10;
          n = length pending;
          level = (if n < 5 then Low else if n < 20 then Medium else High);
          fees = sort (map (fee_atoms \<circ> snd) pending);
          (slow, normal, fast) =
            (case level of
               High \<Rightarrow> (max (fees ! (n * 25 div 100)) slow_floor, max (fees ! (n * 50 div 100)) normal_floor,
                         max (fees ! (n * 75 div 100)) fast_floor)
             | _ \<Rightarrow> (slow_floor, normal_floor, fast_floor))
      in \<lparr> slow_atoms = slow, normal_atoms = normal, fast_atoms = fast, congestion_level = level,
           mempool_count = of_nat n \<rparr>)"

section \<open>The invariant\<close>

definition entry_ok :: "ext \<Rightarrow> string \<times> MempoolEntry \<Rightarrow> bool" where
  "entry_ok X x \<longleftrightarrow> fst x = to_hex X (tx_id (entry_tx (snd x))) \<and> \<not> is_coinbase (entry_tx (snd x))
     \<and> MIN_RELAY_FEE_ATOMS \<le> fee_atoms (snd x) \<and> distinct (tx_refs (entry_tx (snd x)))"

abbreviation entry_refs :: "string \<times> MempoolEntry \<Rightarrow> OutPoint set" where
  "entry_refs x \<equiv> set (tx_refs (entry_tx (snd x)))"

definition mempool_inv :: "ext \<Rightarrow> mempool \<Rightarrow> bool" where
  "mempool_inv X pending \<longleftrightarrow>
     hm_ok pending \<and> length pending \<le> MAX_MEMPOOL_TXS \<and> (\<forall>x \<in> set pending. entry_ok X x)
     \<and> (\<forall>x \<in> set pending. \<forall>y \<in> set pending. fst x \<noteq> fst y \<longrightarrow> entry_refs x \<inter> entry_refs y = {})"

lemma mempool_inv_subset:
  assumes "mempool_inv X pending" and "hm_ok pending'" and "set pending' \<subseteq> set pending"
    and "length pending' \<le> length pending"
  shows "mempool_inv X pending'"
proof -
  have "x \<in> set pending" if "x \<in> set pending'" for x using assms(3) that by blast
  with assms show ?thesis unfolding mempool_inv_def by (meson order_trans)
qed

lemma mempool_inv_insert:
  assumes inv: "mempool_inv X pending" and key: "hm_get pending (to_hex X (tx_id tx)) = None"
    and "length pending < MAX_MEMPOOL_TXS" and "\<not> is_coinbase tx" and "MIN_RELAY_FEE_ATOMS \<le> fee"
    and "distinct (tx_refs tx)" and disj: "\<forall>x \<in> set pending. entry_refs x \<inter> set (tx_refs tx) = {}"
  shows "mempool_inv X (hm_insert (to_hex X (tx_id tx)) \<lparr> entry_tx = tx, fee_atoms = fee \<rparr> pending)"
proof -
  let ?new = "(to_hex X (tx_id tx), \<lparr> entry_tx = tx, fee_atoms = fee \<rparr>)"
  have "hm_get m k = None \<Longrightarrow> hm_insert k v m = m @ [(k, v)]" for m :: mempool and k v
    by (induction m) auto
  then have app: "hm_insert (fst ?new) (snd ?new) pending = pending @ [?new]" using key by simp
  have "entry_ok X ?new" using assms(4-6) by (simp add: entry_ok_def)
  moreover have "entry_refs x \<inter> entry_refs y = {}"
    if xy: "x \<in> set (pending @ [?new])" "y \<in> set (pending @ [?new])" "fst x \<noteq> fst y" for x y
  proof -
    consider "x \<in> set pending" "y \<in> set pending" | "x \<in> set pending" "y = ?new" | "x = ?new" "y \<in> set pending"
      using xy by auto
    then show ?thesis
    proof cases
      case 1
      with inv xy(3) show ?thesis unfolding mempool_inv_def by blast
    next
      case 2
      with disj show ?thesis by simp
    next
      case 3
      with disj show ?thesis by (simp add: Int_commute)
    qed
  qed
  moreover have "hm_ok (pending @ [?new])" using inv key by (auto simp: mempool_inv_def map_of_eq_None_iff)
  ultimately have "mempool_inv X (pending @ [?new])"
    using inv assms(3) unfolding mempool_inv_def by (metis (no_types, lifting) Suc_leI UnE empty_iff
        empty_set insert_iff length_append_singleton list.simps(15) set_append)
  with app show ?thesis by simp
qed

lemma lowest_fee_spec:
  "lowest_fee pending = Some (k, f) \<Longrightarrow>
    (\<exists>e. (k, e) \<in> set pending \<and> fee_atoms e = f) \<and> (\<forall>x \<in> set pending. f \<le> fee_atoms (snd x))"
proof (induction pending arbitrary: k f)
  case Nil
  then show ?case by simp
next
  case (Cons x pending)
  obtain k1 e1 where x: "x = (k1, e1)" by (cases x)
  show ?case
  proof (cases "lowest_fee pending")
    case None
    then have "pending = []" by (cases pending) (auto split: option.splits if_splits)
    with Cons.prems show ?thesis by (simp add: x)
  next
    case (Some p)
    obtain k2 f2 where p: "p = (k2, f2)" by (cases p)
    note IH = Cons.IH [OF Some [unfolded p]]
    show ?thesis
    proof (cases "f2 < fee_atoms e1")
      case True
      with Cons.prems Some p have "k = k2" "f = f2" by (auto simp: x)
      with IH True show ?thesis by (auto simp: x)
    next
      case False
      with Cons.prems Some p have "k = k1" "f = fee_atoms e1" by (auto simp: x)
      with IH False show ?thesis by (auto simp: x not_less intro: order_trans)
    qed
  qed
qed

lemma lowest_fee_None: "lowest_fee pending = None \<longleftrightarrow> pending = []"
  by (induction pending) (auto split: option.splits if_splits)

lemma length_hm_remove: "hm_get m k \<noteq> None \<Longrightarrow> length (hm_remove k m) < length m"
  by (induction m) (auto split: if_splits simp: AList.length_delete_le less_Suc_eq_le)

lemma not_conflicts: "\<not> conflicts_with_pending pending tx \<Longrightarrow> x \<in> set pending \<Longrightarrow> entry_refs x \<inter> set (tx_refs tx) = {}"
  by (cases x) (fastforce simp: conflicts_with_pending_def tx_refs_def)

lemma validate_distinct: "validate_transaction X p look h tx = Ok fee \<Longrightarrow> distinct (tx_refs tx)"
  by (simp add: validate_transaction_Ok_iff tx_ok_def tx_refs_def)

lemma mempool_add_inv:
  assumes inv: "mempool_inv X pending" and add: "mempool_add X p utxos pending tx h = Ok pending'"
  shows "mempool_inv X pending'"
proof -
  let ?key = "to_hex X (tx_id tx)"
  obtain fee where fee: "validate_transaction X p utxos h tx = Ok fee" "MIN_RELAY_FEE_ATOMS \<le> fee"
    and new: "\<not> is_coinbase tx" "hm_get pending ?key = None" "\<not> conflicts_with_pending pending tx"
    using add by (cases "validate_transaction X p utxos h tx") (auto simp: mempool_add_def Let_def not_less split: if_splits)
  let ?e = "\<lparr> entry_tx = tx, fee_atoms = fee \<rparr>"
  note facts = new fee validate_distinct [OF fee(1)] not_conflicts [OF new(3)]
  show ?thesis
  proof (cases "length pending < MAX_MEMPOOL_TXS")
    case True
    then have "pending' = hm_insert ?key ?e pending" using add facts by (simp add: mempool_add_def Let_def leD)
    then show ?thesis using mempool_inv_insert [OF inv new(2) True] facts by simp
  next
    case False
    then obtain lk lf where low: "lowest_fee pending = Some (lk, lf)" "lf < fee"
      and p': "pending' = hm_insert ?key ?e (hm_remove lk pending)"
      using add facts by (auto simp: mempool_add_def Let_def split: option.splits if_splits)
    then have "hm_get pending lk \<noteq> None" using lowest_fee_spec [OF low(1)] weak_map_of_SomeI by fastforce
    then have len: "length (hm_remove lk pending) < length pending" by (rule length_hm_remove)
    have sub: "set (hm_remove lk pending) \<subseteq> set pending" by (simp add: AList.delete_eq filter_is_subset)
    have inv1: "mempool_inv X (hm_remove lk pending)"
      using inv len sub by (intro mempool_inv_subset [OF inv]) (auto simp: mempool_inv_def)
    have "\<forall>x \<in> set (hm_remove lk pending). entry_refs x \<inter> set (tx_refs tx) = {}"
      using sub not_conflicts [OF new(3)] by blast
    then show ?thesis unfolding p'
      using inv1 facts len inv by (intro mempool_inv_insert) (auto simp: mempool_inv_def)
  qed
qed

lemma remove_confirmed_inv: "mempool_inv X pending \<Longrightarrow> mempool_inv X (remove_confirmed X pending b)"
  by (rule mempool_inv_subset) (auto simp: remove_confirmed_def Let_def mempool_inv_def distinct_map_filter)


lemma mempool_inv_empty [simp]: "mempool_inv X []"
  by (simp add: mempool_inv_def)


section \<open>Selection and block templates\<close>

lemma select_loop_all:
  assumes "\<forall>e \<in> set es. set (tx_refs (entry_tx e)) \<inter> spent = {}"
    and "distinct (concat (map (tx_refs \<circ> entry_tx) es))"
  shows "select_loop es spent sel fees = (sel @ map entry_tx es, foldl sat_add fees (map fee_atoms es))"
  using assms
proof (induction es arbitrary: spent sel fees)
  case Nil
  show ?case by simp
next
  case (Cons e es)
  have "\<not> (\<exists>i \<in> set (inputs (entry_tx e)). previous_output i \<in> spent)"
    using Cons.prems(1) by (auto simp: tx_refs_def)
  moreover have "\<forall>e' \<in> set es. set (tx_refs (entry_tx e')) \<inter> (spent \<union> set (tx_refs (entry_tx e))) = {}"
    using Cons.prems by fastforce
  ultimately show ?case using Cons.IH Cons.prems(2) by simp
qed

lemma mempool_inv_refs_distinct:
  assumes "mempool_inv X pending"
  shows "distinct (concat (map (tx_refs \<circ> entry_tx \<circ> snd) pending))"
proof -
  have "hm_ok m \<Longrightarrow> \<forall>x \<in> set m. distinct (tx_refs (entry_tx (snd x))) \<Longrightarrow>
      \<forall>x \<in> set m. \<forall>y \<in> set m. fst x \<noteq> fst y \<longrightarrow> entry_refs x \<inter> entry_refs y = {} \<Longrightarrow>
      distinct (concat (map (tx_refs \<circ> entry_tx \<circ> snd) m))" for m :: mempool
  proof (induction m)
    case Nil
    show ?case by simp
  next
    case (Cons x m)
    have "entry_refs x \<inter> entry_refs y = {}" if "y \<in> set m" for y
      using Cons.prems(1,3) that by (metis (no_types, lifting) distinct.simps(2) image_eqI list.set_intros list.set_map list.simps(9))
    with Cons show ?case by (auto simp: disjoint_iff)
  qed
  with assms show ?thesis by (simp add: mempool_inv_def entry_ok_def)
qed

lemma select_for_block_inv:
  assumes "mempool_inv X pending"
  defines "es \<equiv> by_fee_desc (map snd pending)"
  shows "select_for_block pending = (map entry_tx es, sat_sum (map fee_atoms es))"
    and "mset es = mset (map snd pending)" and "distinct (concat (map (tx_refs \<circ> entry_tx) es))"
proof -
  show ms: "mset es = mset (map snd pending)" by (simp add: es_def by_fee_desc_def)
  have "mset (concat (map (tx_refs \<circ> entry_tx) es)) = mset (concat (map (tx_refs \<circ> entry_tx) (map snd pending)))"
    using ms by (metis (no_types, lifting) mset_concat mset_map sum_mset_sum_list)
  then show dist: "distinct (concat (map (tx_refs \<circ> entry_tx) es))"
    using mempool_inv_refs_distinct [OF assms(1)] by (metis (no_types, lifting) mset_eq_imp_distinct_iff map_map comp_assoc)
  then show "select_for_block pending = (map entry_tx es, sat_sum (map fee_atoms es))"
    unfolding select_for_block_def es_def [symmetric]
    by (subst select_loop_all) (simp_all add: sat_sum_def)
qed

lemma validate_transaction_later:
  assumes "validate_transaction X p look h tx = Ok fee" and "h \<le> h'"
  shows "validate_transaction X p look h' tx = Ok fee"
proof -
  have "input_ok X p look h' tx i" if ok: "input_ok X p look h tx i" for i
  proof -
    from ok obtain e where e: "look (previous_output i) = Some e" "\<not> immature p h e"
      and ex: "execute X (signature_script i) (script_pubkey (entry_output e))
        \<lparr> sig_hash = signature_hash X tx, block_height = h \<rparr> = Ok True"
      by (auto simp: input_ok_def)
    have "execute X (signature_script i) (script_pubkey (entry_output e))
        \<lparr> sig_hash = signature_hash X tx, block_height = h' \<rparr> = Ok True"
      using ex assms(2) by (intro execute_later [OF _ ex]) (simp add: later_def)
    moreover have "\<not> immature p h' e" using e(2) assms(2) by (auto simp: immature_def)
    ultimately show ?thesis using e(1) by (auto simp: input_ok_def)
  qed
  with assms(1) show ?thesis by (simp add: validate_transaction_Ok_iff tx_ok_def)
qed

lemma spent_outpoints_refs: "spent_outpoints txs = concat (map tx_refs txs)"
  by (simp add: spent_outpoints_def tx_refs_def [abs_def])

lemma total_output_coinbase: "total_output_atoms (coinbase X h r a) = r"
  by (simp add: coinbase_def Let_def total_output_atoms_def sat_sum_def)

text \<open>
  Block templates are valid: if every pending transaction was accepted at some height not above
  the next one and its inputs are still unspent, then the block built from \<open>select_for_block\<close>, which
  takes the whole pool in descending fee order and credits the fees to the coinbase, is accepted by
  \<open>apply_block\<close>.
\<close>

theorem template_is_valid:
  assumes inv: "mempool_inv X pending"
    and valid: "\<forall>x \<in> set pending. \<exists>h \<le> height (header pb) + 1.
      validate_transaction X p (hm_get m) h (entry_tx (snd x)) = Ok (fee_atoms (snd x))"
    and nz: "height (header pb) + 1 \<noteq> 0"
    and sel: "select_for_block pending = (txs, fees)"
  shows "(\<exists>m'. apply_block X p m (candidate_block_for X p (Some pb) ts miner txs fees) = Ok m') \<and>
    mset txs = mset (map (entry_tx \<circ> snd) pending)"
proof -
  let ?h = "height (header pb) + 1" and ?es = "by_fee_desc (map snd pending)"
  let ?b = "candidate_block_for X p (Some pb) ts miner txs fees"
  note s = select_for_block_inv [OF inv]
  have txs: "txs = map entry_tx ?es" and fees: "fees = sat_sum (map fee_atoms ?es)" using s(1) sel by auto
  have es: "set ?es = snd ` set pending" using s(2) by (metis set_map set_mset_mset)
  have "validate_transaction X p (hm_get m) ?h (entry_tx e) = Ok (fee_atoms e)" if "e \<in> set ?es" for e
  proof -
    from that es obtain x where "x \<in> set pending" "e = snd x" by blast
    with valid obtain h where "h \<le> ?h" "validate_transaction X p (hm_get m) h (entry_tx e) = Ok (fee_atoms e)" by blast
    then show ?thesis by (blast intro: validate_transaction_later)
  qed
  then have "list_all2 (\<lambda>tx fee. validate_transaction X p (hm_get m) ?h tx = Ok fee) txs (map fee_atoms ?es)"
    by (simp add: txs list_all2_conv_all_nth)
  moreover have "distinct (spent_outpoints txs)" using s(3) by (simp add: txs spent_outpoints_refs comp_def)
  moreover have "transactions ?b = coinbase X ?h (sat_add (reward_at_height p ?h) fees) miner # txs"
    and "height (header ?b) = ?h"
    using nz by (auto simp: candidate_block_for_def Let_def next_height_def)
  moreover have "max_coinbase_atoms p ?h (sat_sum (map fee_atoms ?es)) = sat_add (reward_at_height p ?h) fees"
    using nz fees by (simp add: max_coinbase_atoms_def has_genesis_premint_def)
  ultimately have "\<exists>m'. apply_block X p m ?b = Ok m'"
    unfolding apply_block_ok_iff using total_output_coinbase by (metis order_refl)
  moreover have "mset txs = mset (map (entry_tx \<circ> snd) pending)"
    unfolding txs using s(2) by (metis list.map_comp mset_map)
  ultimately show ?thesis by simp
qed

text \<open>A pool with one spend of a well-funded output, for the witness.\<close>

definition demo_pool :: mempool where
  "demo_pool = [(to_hex demo_ext (tx_id demo_spend), \<lparr> entry_tx = demo_spend, fee_atoms = 49960 \<rparr>)]"

definition rich_map :: utxo_map where
  "rich_map = [(demo_op, demo_entry\<lparr> entry_output := \<lparr> value_atoms = 50000, script_pubkey = p2pkh_tail demo_hash \<rparr> \<rparr>)]"

lemma demo_pool_inv: "mempool_inv demo_ext demo_pool"
proof -
  have "\<not> is_coinbase demo_spend" "distinct (tx_refs demo_spend)"
    by (simp_all add: is_coinbase_def tx_refs_def demo_spend_def)
  then show ?thesis by (simp add: mempool_inv_def demo_pool_def entry_ok_def MIN_RELAY_FEE_ATOMS_def MAX_MEMPOOL_TXS_def)
qed

lemma demo_pool_valid: "validate_transaction demo_ext MAINNET (hm_get rich_map) 1 demo_spend = Ok 49960"
proof -
  have ins: "inputs demo_spend = [hd (inputs demo_spend)]" by (simp add: demo_spend_def)
  have "check_input demo_ext MAINNET (hm_get rich_map) 1 demo_spend (hd (inputs demo_spend)) = Ok 50000"
    using demo_check_spend_at [of "hm_get rich_map" "snd (hd rich_map)"] by (simp add: rich_map_def demo_entry_def)
  then have "check_inputs demo_ext MAINNET (hm_get rich_map) 1 demo_spend (inputs demo_spend) [] 0
      = Ok ([previous_output (hd (inputs demo_spend))], 50000)"
    by (subst ins) simp
  moreover have "total_output_atoms demo_spend = 40"
    by (simp add: total_output_atoms_def sat_sum_def demo_spend_def demo_unsigned_def)
  ultimately show ?thesis by (simp add: validate_transaction_def sat_sub_def)
qed

theorem template_is_valid_witness:
  "\<exists>m'. apply_block demo_ext MAINNET rich_map
     (candidate_block_for demo_ext MAINNET (Some demo_block) 60 ''m'' [demo_spend] 49960) = Ok m'"
proof -
  have sel: "select_for_block demo_pool = ([demo_spend], 49960)"
    by (simp add: select_for_block_def by_fee_desc_def demo_pool_def)
  show ?thesis
    using template_is_valid [OF demo_pool_inv _ _ sel, of demo_block MAINNET rich_map] demo_pool_valid
    by (auto simp: demo_pool_def)
qed

end
