(* ===== verification/Asset_Codec.thy ===== *)
theory Asset_Codec
  imports Block_Model
begin

text \<open>
  The wire format of the asset overlay: \<open>crates/tensorium-core/src/assets/mod.rs\<close> (operations,
  constants, \<open>build_outputs\<close>) and \<open>crates/tensorium-core/src/assets/codec.rs\<close> (encoding, decoding,
  the \<open>OP_RETURN\<close> carrier). A cursor \<open>i: &mut usize\<close> is threaded through the readers. A fixed array
  \<open>[u8; 32]\<close> is a byte list of length 32. The error texts of \<open>build_outputs\<close> are the constructors
  of \<open>BuildError\<close>. \<open>String::from_utf8_lossy\<close> of the standard library is written out, since a
  string cut at its length limit can end inside a character.
\<close>

section \<open>String::from\_utf8\_lossy\<close>

definition safe_get :: "bytes \<Rightarrow> nat \<Rightarrow> u8" where
  "safe_get bs i = (if i < length bs then bs ! i else 0)"

definition utf8_cont :: "u8 \<Rightarrow> bool" where
  "utf8_cont b \<longleftrightarrow> 0x80 \<le> b \<and> b \<le> 0xBF"

definition utf8_second3 :: "u8 \<Rightarrow> u8 \<Rightarrow> bool" where
  "utf8_second3 b c \<longleftrightarrow>
     (if b = 0xE0 then 0xA0 \<le> c \<and> c \<le> 0xBF
      else if b = 0xED then 0x80 \<le> c \<and> c \<le> 0x9F else utf8_cont c)"

definition utf8_second4 :: "u8 \<Rightarrow> u8 \<Rightarrow> bool" where
  "utf8_second4 b c \<longleftrightarrow>
     (if b = 0xF0 then 0x90 \<le> c \<and> c \<le> 0xBF
      else if b = 0xF4 then 0x80 \<le> c \<and> c \<le> 0x8F else utf8_cont c)"

text \<open>The next character: whether it is well-formed, and how many bytes it (or the ill-formed
  sequence in its place) takes.\<close>

definition utf8_step :: "bytes \<Rightarrow> bool \<times> nat" where
  "utf8_step bs =
     (let b = safe_get bs 0; c1 = safe_get bs 1; c2 = safe_get bs 2; c3 = safe_get bs 3 in
      if b < 0x80 then (True, 1)
      else if 0xC2 \<le> b \<and> b \<le> 0xDF then (if utf8_cont c1 then (True, 2) else (False, 1))
      else if 0xE0 \<le> b \<and> b \<le> 0xEF then
        (if \<not> utf8_second3 b c1 then (False, 1) else if utf8_cont c2 then (True, 3) else (False, 2))
      else if 0xF0 \<le> b \<and> b \<le> 0xF4 then
        (if \<not> utf8_second4 b c1 then (False, 1) else if \<not> utf8_cont c2 then (False, 2)
         else if utf8_cont c3 then (True, 4) else (False, 3))
      else (False, 1))"

lemma utf8_step_pos [simp]: "0 < snd (utf8_step bs)"
  by (simp add: utf8_step_def Let_def)

function utf8_lossy :: "bytes \<Rightarrow> bytes" where
  "utf8_lossy bs =
     (if bs = [] then []
      else (if fst (utf8_step bs) then take (snd (utf8_step bs)) bs else [0xEF, 0xBF, 0xBD])
           @ utf8_lossy (drop (snd (utf8_step bs)) bs))"
  by pat_completeness auto
termination
  by (relation "measure length") (auto intro!: diff_less)

function utf8_valid :: "bytes \<Rightarrow> bool" where
  "utf8_valid bs =
     (if bs = [] then True
      else if fst (utf8_step bs) then utf8_valid (drop (snd (utf8_step bs)) bs) else False)"
  by pat_completeness auto
termination
  by (relation "measure length") (auto intro!: diff_less)

declare utf8_lossy.simps [simp del] utf8_valid.simps [simp del]

definition from_utf8_lossy :: "bytes \<Rightarrow> string" where
  "from_utf8_lossy bs = bytes_str (utf8_lossy bs)"

section \<open>Operations and constants\<close>

record IssueData =
  ticker :: string
  decimals :: u8
  issue_supply :: u64
  issue_name :: string
  issue_flags :: u8

record NftMintData =
  collection_id :: bytes
  royalty_bps :: u16
  royalty_addr :: string
  nft_uri :: string
  content_hash :: bytes

record TransferData =
  asset_id :: bytes
  asset_amount :: u64
  dest_output_index :: u8

datatype AssetOp = Issue IssueData | NftMint NftMintData | Transfer TransferData

datatype AssetError =
  BadMagic | BadVersion | UnknownOpcode | Truncated | TooLarge | FieldTooLong | BadRoyalty

definition MAGIC :: bytes where "MAGIC = str_bytes ''TXMA''"
definition VERSION :: u8 where "VERSION = 0x01"
definition OP_ISSUE :: u8 where "OP_ISSUE = 0x01"
definition OP_NFT_MINT :: u8 where "OP_NFT_MINT = 0x02"
definition OP_TRANSFER :: u8 where "OP_TRANSFER = 0x03"
definition MAX_PAYLOAD :: nat where "MAX_PAYLOAD = 520"

section \<open>Encoding and decoding\<close>

definition put_str :: "string \<Rightarrow> nat \<Rightarrow> bytes" where
  "put_str s mx =
     (let b = str_bytes s; n = min (length b) mx in of_nat n # take n b)"

definition take_at :: "bytes \<Rightarrow> nat \<Rightarrow> nat \<Rightarrow> (bytes \<times> nat, AssetError) result" where
  "take_at buf i n = (if i + n > length buf then Err Truncated else Ok (take n (drop i buf), i + n))"

definition take_str :: "bytes \<Rightarrow> nat \<Rightarrow> (string \<times> nat, AssetError) result" where
  "take_str buf i =
     res_bind (take_at buf i 1) (\<lambda>(l, i).
     res_bind (take_at buf i (unat (hd l))) (\<lambda>(b, i).
       Ok (from_utf8_lossy b, i)))"

definition take_u64 :: "bytes \<Rightarrow> nat \<Rightarrow> (u64 \<times> nat, AssetError) result" where
  "take_u64 buf i = res_bind (take_at buf i 8) (\<lambda>(b, i). Ok (u64_from_be b, i))"

fun encode_body :: "AssetOp \<Rightarrow> bytes" where
  "encode_body (Issue d) =
     [OP_ISSUE] @ put_str (ticker d) 8 @ [decimals d] @ u64_to_be (issue_supply d)
     @ put_str (issue_name d) 32 @ [issue_flags d]"
| "encode_body (NftMint d) =
     [OP_NFT_MINT] @ collection_id d @ u16_to_be (royalty_bps d) @ put_str (royalty_addr d) 90
     @ put_str (nft_uri d) 200 @ content_hash d"
| "encode_body (Transfer d) =
     [OP_TRANSFER] @ asset_id d @ u64_to_be (asset_amount d) @ [dest_output_index d]"

definition encode_op :: "AssetOp \<Rightarrow> bytes" where
  "encode_op x = MAGIC @ [VERSION] @ encode_body x"

definition decode_issue :: "bytes \<Rightarrow> nat \<Rightarrow> (AssetOp, AssetError) result" where
  "decode_issue buf i =
     res_bind (take_str buf i) (\<lambda>(tick, i).
     res_bind (take_at buf i 1) (\<lambda>(dec, i).
     res_bind (take_u64 buf i) (\<lambda>(sup, i).
     res_bind (take_str buf i) (\<lambda>(nam, i).
     res_bind (take_at buf i 1) (\<lambda>(fl, i).
       Ok (Issue \<lparr> ticker = tick, decimals = hd dec, issue_supply = sup, issue_name = nam,
                   issue_flags = hd fl \<rparr>))))))"

definition decode_nft_mint :: "bytes \<Rightarrow> nat \<Rightarrow> (AssetOp, AssetError) result" where
  "decode_nft_mint buf i =
     res_bind (take_at buf i 32) (\<lambda>(coll, i).
     res_bind (take_at buf i 2) (\<lambda>(bps, i).
     if u16_from_be bps > 10000 then Err BadRoyalty else
     res_bind (take_str buf i) (\<lambda>(addr, i).
     res_bind (take_str buf i) (\<lambda>(uri, i).
     res_bind (take_at buf i 32) (\<lambda>(hash, i).
       Ok (NftMint \<lparr> collection_id = coll, royalty_bps = u16_from_be bps, royalty_addr = addr,
                     nft_uri = uri, content_hash = hash \<rparr>))))))"

definition decode_transfer :: "bytes \<Rightarrow> nat \<Rightarrow> (AssetOp, AssetError) result" where
  "decode_transfer buf i =
     res_bind (take_at buf i 32) (\<lambda>(aid, i).
     res_bind (take_u64 buf i) (\<lambda>(amt, i).
     res_bind (take_at buf i 1) (\<lambda>(ix, i).
       Ok (Transfer \<lparr> asset_id = aid, asset_amount = amt, dest_output_index = hd ix \<rparr>))))"

definition decode_op :: "bytes \<Rightarrow> (AssetOp, AssetError) result" where
  "decode_op buf =
     (if length buf > MAX_PAYLOAD then Err TooLarge
      else res_bind (take_at buf 0 4) (\<lambda>(magic, i).
        if magic \<noteq> MAGIC then Err BadMagic
        else res_bind (take_at buf i 1) (\<lambda>(ver, i).
          if hd ver \<noteq> VERSION then Err BadVersion
          else res_bind (take_at buf i 1) (\<lambda>(opc, i).
            if hd opc = OP_ISSUE then decode_issue buf i
            else if hd opc = OP_NFT_MINT then decode_nft_mint buf i
            else if hd opc = OP_TRANSFER then decode_transfer buf i
            else Err UnknownOpcode))))"

section \<open>The carrier output\<close>

definition op_return_script :: "bytes \<Rightarrow> bytes" where
  "op_return_script dat =
     (let n = length dat in
      [OP_RETURN]
      @ (if n \<le> 0x4b then [of_nat n]
         else if n \<le> 0xff then [0x4c, of_nat n]
         else [0x4d, of_nat (n mod 256), of_nat (n div 256 mod 256)])
      @ dat)"

text \<open>\<open>spk.get(i..i + len)\<close>\<close>

definition get_range :: "bytes \<Rightarrow> nat \<Rightarrow> nat \<Rightarrow> bytes option" where
  "get_range spk i len = (if i + len \<le> length spk then Some (take len (drop i spk)) else None)"

definition get_byte :: "bytes \<Rightarrow> nat \<Rightarrow> u8 option" where
  "get_byte spk i = (if i < length spk then Some (spk ! i) else None)"

definition op_return_data :: "bytes \<Rightarrow> bytes option" where
  "op_return_data spk =
     (if get_byte spk 0 \<noteq> Some OP_RETURN then None
      else case get_byte spk 1 of
        None \<Rightarrow> None
      | Some n \<Rightarrow>
          if 0x01 \<le> n \<and> n \<le> 0x4b then get_range spk 2 (unat n)
          else if n = 0x4c then
            (case get_byte spk 2 of None \<Rightarrow> None | Some l \<Rightarrow> get_range spk 3 (unat l))
          else if n = 0x4d then
            (case (get_byte spk 2, get_byte spk 3) of
               (Some lo, Some hi) \<Rightarrow> get_range spk 4 (unat lo + 256 * unat hi)
             | _ \<Rightarrow> None)
          else None)"

fun extract_asset_loop :: "TxOutput list \<Rightarrow> AssetOp option" where
  "extract_asset_loop [] = None"
| "extract_asset_loop (out # outs) =
     (case op_return_data (script_pubkey out) of
        None \<Rightarrow> extract_asset_loop outs
      | Some dat \<Rightarrow>
          (case decode_op dat of Ok x \<Rightarrow> Some x | Err _ \<Rightarrow> extract_asset_loop outs))"

definition extract_asset_op :: "Transaction \<Rightarrow> AssetOp option" where
  "extract_asset_op tx = extract_asset_loop (outputs tx)"

section \<open>Building the outputs of an asset transaction\<close>

datatype BuildError =
  InsufficientMature u64 u64 u64 u64 | InvalidRecipient string | InvalidChange string

definition build_outputs ::
  "ext \<Rightarrow> AssetOp \<Rightarrow> (string \<times> u64) option \<Rightarrow> string \<Rightarrow> u64 \<Rightarrow> u64 \<Rightarrow> (TxOutput list, BuildError) result"
where
  "build_outputs X x dest change_addr total_in fee_atoms =
     (let dest_atoms = (case dest of None \<Rightarrow> 0 | Some (_, a) \<Rightarrow> a);
          spent = sat_add dest_atoms fee_atoms in
      if total_in < spent then Err (InsufficientMature total_in spent dest_atoms fee_atoms)
      else res_bind
        (case dest of
           None \<Rightarrow> Ok []
         | Some (addr, atoms) \<Rightarrow>
             res_bind (map_err (\<lambda>_. InvalidRecipient addr) (p2pkh_from_address X addr))
               (\<lambda>spk. Ok [\<lparr> value_atoms = atoms, script_pubkey = spk \<rparr>]))
        (\<lambda>outs.
           let outs = outs @ [\<lparr> value_atoms = 0, script_pubkey = op_return_script (encode_op x) \<rparr>];
               change = total_in - spent in
           if change > 0 then
             res_bind (map_err (\<lambda>_. InvalidChange change_addr) (p2pkh_from_address X change_addr))
               (\<lambda>spk. Ok (outs @ [\<lparr> value_atoms = change, script_pubkey = spk \<rparr>]))
           else Ok outs))"

section \<open>Text\<close>

lemma utf8_lossy_valid: "utf8_valid bs \<Longrightarrow> utf8_lossy bs = bs"
proof (induction bs rule: utf8_valid.induct)
  case (1 bs)
  show ?case
  proof (cases "bs = []")
    case True
    then show ?thesis by (simp add: utf8_lossy.simps)
  next
    case False
    with 1 have "fst (utf8_step bs)" "utf8_valid (drop (snd (utf8_step bs)) bs)"
      by (simp_all add: utf8_valid.simps [of bs] split: if_splits)
    with 1 False show ?thesis by (simp add: utf8_lossy.simps [of bs])
  qed
qed

lemma utf8_valid_Nil [simp]: "utf8_valid []"
  by (simp add: utf8_valid.simps)

text \<open>ASCII text is well-formed.\<close>

lemma utf8_valid_ascii: "\<forall>b \<in> set bs. b < 0x80 \<Longrightarrow> utf8_valid bs"
proof (induction bs)
  case Nil
  show ?case by simp
next
  case (Cons b bs)
  then have "utf8_step (b # bs) = (True, 1)" by (simp add: utf8_step_def safe_get_def)
  with Cons show ?case by (simp add: utf8_valid.simps [of "b # bs"])
qed

text \<open>The branches of \<open>utf8_step\<close> that accept, over arbitrary conditions.\<close>

lemma accepting_branch:
  assumes "fst (if P then (True, 1 :: nat)
    else if Q then (if c1 then (True, 2) else (False, 1))
    else if R then (if \<not> s3 then (False, 1) else if c2 then (True, 3) else (False, 2))
    else if S then (if \<not> s4 then (False, 1) else if \<not> c2 then (False, 2)
      else if c3 then (True, 4) else (False, 3))
    else (False, 1))"
  obtains "P" | "\<not> P" "Q" "c1" | "\<not> P" "\<not> Q" "R" "s3" "c2"
    | "\<not> P" "\<not> Q" "\<not> R" "S" "s4" "c2" "c3"
  using assms by (auto split: if_splits)

lemma utf8_step_accepts:
  fixes bs :: bytes
  defines "b \<equiv> safe_get bs 0"
  shows "b < 0x80 \<Longrightarrow> utf8_step bs = (True, 1)"
    and "\<lbrakk> \<not> b < 0x80; 0xC2 \<le> b \<and> b \<le> 0xDF; utf8_cont (safe_get bs 1) \<rbrakk> \<Longrightarrow> utf8_step bs = (True, 2)"
    and "\<lbrakk> \<not> b < 0x80; \<not> (0xC2 \<le> b \<and> b \<le> 0xDF); 0xE0 \<le> b \<and> b \<le> 0xEF;
          utf8_second3 b (safe_get bs 1); utf8_cont (safe_get bs 2) \<rbrakk> \<Longrightarrow> utf8_step bs = (True, 3)"
    and "\<lbrakk> \<not> b < 0x80; \<not> (0xC2 \<le> b \<and> b \<le> 0xDF); \<not> (0xE0 \<le> b \<and> b \<le> 0xEF); 0xF0 \<le> b \<and> b \<le> 0xF4;
          utf8_second4 b (safe_get bs 1); utf8_cont (safe_get bs 2); utf8_cont (safe_get bs 3) \<rbrakk>
          \<Longrightarrow> utf8_step bs = (True, 4)"
  unfolding utf8_step_def Let_def b_def by (simp_all only: if_True if_False simp_thms)

text \<open>A well-formed character lies inside the string, and only its own bytes decide that.\<close>

lemma utf8_step_local:
  assumes "bs \<noteq> []" and "fst (utf8_step bs)"
  shows "snd (utf8_step bs) \<le> length bs
    \<and> utf8_step (take (snd (utf8_step bs)) bs @ r) = utf8_step bs"
proof -
  have c0: "\<not> utf8_cont 0" by (simp add: utf8_cont_def)
  have in_range: "i < length bs" if "utf8_cont (safe_get bs i)" for i
    using that c0 by (auto simp: safe_get_def split: if_splits)
  have g: "i < n \<Longrightarrow> n \<le> length bs \<Longrightarrow> safe_get (take n bs @ r) i = safe_get bs i" for n i
    by (simp add: safe_get_def nth_append)
  have fin: ?thesis if "utf8_step bs = (True, k)" "k \<le> length bs" "utf8_step (take k bs @ r) = (True, k)" for k
    using that by simp
  note branch = assms(2) [unfolded utf8_step_def Let_def]
  from branch show ?thesis
  proof (cases rule: accepting_branch)
    case 1
    have le: "1 \<le> length bs" using assms(1) by (simp add: Suc_le_eq)
    show ?thesis
      by (rule fin [OF utf8_step_accepts(1) le utf8_step_accepts(1)]) (use 1 g [of 0 1] le in simp_all)
  next
    case 2
    have le: "2 \<le> length bs" using in_range [OF 2(3)] by simp
    show ?thesis
      by (rule fin [OF utf8_step_accepts(2) le utf8_step_accepts(2)]) (use 2 in \<open>simp_all add: g [OF _ le]\<close>)
  next
    case 3
    have le: "3 \<le> length bs" using in_range [OF 3(5)] by simp
    show ?thesis
      by (rule fin [OF utf8_step_accepts(3) le utf8_step_accepts(3)]) (use 3 in \<open>simp_all add: g [OF _ le]\<close>)
  next
    case 4
    have le: "4 \<le> length bs" using in_range [OF 4(7)] by simp
    show ?thesis
      by (rule fin [OF utf8_step_accepts(4) le utf8_step_accepts(4)]) (use 4 in \<open>simp_all add: g [OF _ le]\<close>)
  qed
qed

lemma utf8_valid_lossy: "utf8_valid (utf8_lossy bs)"
proof (induction bs rule: utf8_lossy.induct)
  case (1 bs)
  show ?case
  proof (cases "bs = []")
    case True
    then show ?thesis by (simp add: utf8_lossy.simps)
  next
    case False
    let ?n = "snd (utf8_step bs)" and ?r = "utf8_lossy (drop (snd (utf8_step bs)) bs)"
    show ?thesis
    proof (cases "fst (utf8_step bs)")
      case True
      note loc = utf8_step_local [OF False True, of ?r]
      then have "utf8_lossy bs = take ?n bs @ ?r" using False True by (simp add: utf8_lossy.simps [of bs])
      with 1 [OF False] True loc False show ?thesis
        by (simp add: utf8_valid.simps [of "take ?n bs @ ?r"])
    next
      case bad: False
      have "utf8_step ([0xEF, 0xBF, 0xBD] @ ?r) = (True, 3)"
        by (simp add: utf8_step_def safe_get_def utf8_second3_def utf8_cont_def)
      with bad 1 [OF False] False show ?thesis
        by (simp add: utf8_lossy.simps [of bs] utf8_valid.simps [of "0xEF # 0xBF # 0xBD # ?r"])
    qed
  qed
qed

section \<open>Reading what was written\<close>

text \<open>The cursor \<open>i\<close> stands before the bytes \<open>rest\<close>, and one rule per reader.\<close>

definition reads :: "bytes \<Rightarrow> nat \<Rightarrow> bytes \<Rightarrow> bool" where
  "reads buf i rest \<longleftrightarrow> i \<le> length buf \<and> drop i buf = rest"

lemma reads_0: "reads buf 0 buf"
  by (simp add: reads_def)

lemma reads_append:
  assumes "reads buf i (xs @ rest)"
  shows "take_at buf i (length xs) = Ok (xs, i + length xs)" and "reads buf (i + length xs) rest"
proof -
  from assms have i: "i \<le> length buf" and d: "drop i buf = xs @ rest" by (simp_all add: reads_def)
  have len: "length buf - i = length xs + length rest" using arg_cong [OF d, of length] by simp
  with i d show "take_at buf i (length xs) = Ok (xs, i + length xs)" by (simp add: take_at_def)
  have "drop (i + length xs) buf = drop (length xs) (drop i buf)" by (simp add: add.commute)
  with i d len show "reads buf (i + length xs) rest" by (simp add: reads_def)
qed

lemma read_bytes:
  assumes "reads buf i (xs @ rest)" and "length xs = n"
    and "\<And>j. reads buf j rest \<Longrightarrow> f (xs, j) = r"
  shows "res_bind (take_at buf i n) f = r"
  using reads_append [OF assms(1)] assms(2,3) by auto

lemma read_byte:
  assumes "reads buf i (x # rest)" and "\<And>j. reads buf j rest \<Longrightarrow> f ([x], j) = r"
  shows "res_bind (take_at buf i (Suc 0)) f = r"
  by (rule read_bytes [of buf i "[x]" rest]) (use assms in simp_all)

lemma read_u64:
  assumes "reads buf i (u64_to_be x @ rest)" and "\<And>j. reads buf j rest \<Longrightarrow> f (x, j) = r"
  shows "res_bind (take_u64 buf i) f = r"
  using reads_append [OF assms(1)] assms(2) by (auto simp: take_u64_def codec_simps)

text \<open>What a text field of limit \<open>mx\<close> keeps of a string.\<close>

definition clip :: "nat \<Rightarrow> string \<Rightarrow> string" where
  "clip mx s = from_utf8_lossy (take mx (str_bytes s))"

lemma read_str:
  assumes r: "reads buf i (put_str s mx @ rest)" and mx: "mx < 256"
    and k: "\<And>j. reads buf j rest \<Longrightarrow> f (clip mx s, j) = r"
  shows "res_bind (take_str buf i) f = r"
proof -
  let ?n = "min (length s) mx" and ?t = "take mx (str_bytes s)"
  have p: "put_str s mx = of_nat ?n # ?t" by (auto simp: put_str_def Let_def min_def)
  have un: "unat (of_nat ?n :: u8) = length ?t" using mx by (simp add: unat_of_nat_u8 min_def)
  from r p have "reads buf i ([of_nat ?n] @ (?t @ rest))" by simp
  note head = reads_append [OF this] and body = reads_append [OF reads_append(2) [OF this]]
  from head body un k show ?thesis by (simp add: take_str_def clip_def)
qed

lemma clip_short:
  assumes "length s \<le> mx" and "utf8_valid (str_bytes s)"
  shows "clip mx s = s"
  using assms by (simp add: clip_def from_utf8_lossy_def utf8_lossy_valid bytes_str_str_bytes)

fun clip_op :: "AssetOp \<Rightarrow> AssetOp" where
  "clip_op (Issue d) = Issue (d\<lparr> ticker := clip 8 (ticker d), issue_name := clip 32 (issue_name d) \<rparr>)"
| "clip_op (NftMint d) =
     NftMint (d\<lparr> royalty_addr := clip 90 (royalty_addr d), nft_uri := clip 200 (nft_uri d) \<rparr>)"
| "clip_op (Transfer d) = Transfer d"

text \<open>The fixed arrays have 32 bytes (their Rust type), and the royalty is at most 100 percent.\<close>

fun op_typed :: "AssetOp \<Rightarrow> bool" where
  "op_typed (Issue d) \<longleftrightarrow> True"
| "op_typed (NftMint d) \<longleftrightarrow> length (collection_id d) = 32 \<and> length (content_hash d) = 32"
| "op_typed (Transfer d) \<longleftrightarrow> length (asset_id d) = 32"

fun royalty_ok :: "AssetOp \<Rightarrow> bool" where
  "royalty_ok (NftMint d) \<longleftrightarrow> royalty_bps d \<le> 10000"
| "royalty_ok _ \<longleftrightarrow> True"

fun fields_fit :: "AssetOp \<Rightarrow> bool" where
  "fields_fit (Issue d) \<longleftrightarrow> length (ticker d) \<le> 8 \<and> length (issue_name d) \<le> 32
     \<and> utf8_valid (str_bytes (ticker d)) \<and> utf8_valid (str_bytes (issue_name d))"
| "fields_fit (NftMint d) \<longleftrightarrow> length (royalty_addr d) \<le> 90 \<and> length (nft_uri d) \<le> 200
     \<and> utf8_valid (str_bytes (royalty_addr d)) \<and> utf8_valid (str_bytes (nft_uri d))"
| "fields_fit (Transfer d) \<longleftrightarrow> True"

lemma clip_op_fits: "fields_fit x \<Longrightarrow> clip_op x = x"
  by (cases x) (simp_all add: clip_short)

lemma decode_issue_ok:
  assumes "reads buf i (put_str (ticker d) 8 @ [decimals d] @ u64_to_be (issue_supply d)
     @ put_str (issue_name d) 32 @ [issue_flags d])"
  shows "decode_issue buf i = Ok (clip_op (Issue d))"
  unfolding decode_issue_def
  apply (rule read_str [OF assms], simp, clarsimp)
  apply (erule read_byte, clarsimp)
  apply (erule read_u64, clarsimp)
  apply (erule read_str, simp, clarsimp)
  apply (erule read_byte, clarsimp)
  done

lemma decode_nft_ok:
  assumes "reads buf i (collection_id d @ u16_to_be (royalty_bps d) @ put_str (royalty_addr d) 90
     @ put_str (nft_uri d) 200 @ content_hash d)" and typed: "op_typed (NftMint d)"
  shows "decode_nft_mint buf i = (if royalty_ok (NftMint d) then Ok (clip_op (NftMint d)) else Err BadRoyalty)"
proof (cases "royalty_bps d \<le> 10000")
  case True
  have "decode_nft_mint buf i = Ok (clip_op (NftMint d))"
    unfolding decode_nft_mint_def
    apply (rule read_bytes [OF assms(1)], use typed in simp, clarsimp)
    apply (erule read_bytes, simp, use True in \<open>clarsimp simp: codec_simps not_less\<close>)
    apply (erule read_str, simp, clarsimp)
    apply (erule read_str, simp, clarsimp)
    apply (rule read_bytes [where rest = "[]"], simp, use typed in simp, clarsimp)
    done
  with True show ?thesis by simp
next
  case False
  have "decode_nft_mint buf i = Err BadRoyalty"
    unfolding decode_nft_mint_def
    apply (rule read_bytes [OF assms(1)], use typed in simp, clarsimp)
    apply (erule read_bytes, simp, use False in \<open>clarsimp simp: codec_simps not_less\<close>)
    done
  with False show ?thesis by simp
qed

lemma decode_transfer_ok:
  assumes "reads buf i (asset_id d @ u64_to_be (asset_amount d) @ [dest_output_index d])"
    and "length (asset_id d) = 32"
  shows "decode_transfer buf i = Ok (Transfer d)"
  unfolding decode_transfer_def
  apply (rule read_bytes [OF assms], clarsimp)
  apply (erule read_u64, clarsimp)
  apply (erule read_byte, clarsimp)
  done

lemma put_str_length: "length (put_str s mx) \<le> mx + 1"
  by (simp add: put_str_def Let_def)

lemma encode_op_length:
  assumes "op_typed x"
  shows "0 < length (encode_op x) \<and> length (encode_op x) \<le> MAX_PAYLOAD"
proof (cases x)
  case (Issue d)
  then show ?thesis using put_str_length [of "ticker d" 8] put_str_length [of "issue_name d" 32]
    by (simp add: encode_op_def MAX_PAYLOAD_def MAGIC_def)
next
  case (NftMint d)
  then show ?thesis using assms put_str_length [of "royalty_addr d" 90] put_str_length [of "nft_uri d" 200]
    by (simp add: encode_op_def MAX_PAYLOAD_def MAGIC_def)
next
  case (Transfer d)
  then show ?thesis using assms by (simp add: encode_op_def MAX_PAYLOAD_def MAGIC_def)
qed

lemma decode_encode:
  assumes "op_typed x"
  shows "decode_op (encode_op x) = (if royalty_ok x then Ok (clip_op x) else Err BadRoyalty)"
proof -
  let ?buf = "encode_op x"
  have "reads ?buf 0 (MAGIC @ VERSION # encode_body x)"
    using reads_0 [of ?buf] by (simp add: encode_op_def)
  note r4 = reads_append(2) [OF this] and t4 = reads_append(1) [OF this]
  have m: "length MAGIC = 4" by (simp add: MAGIC_def)
  obtain opc body where b: "encode_body x = opc # body" by (cases x) auto
  have r5: "reads ?buf 5 (opc # body)"
    using reads_append(2) [of ?buf 4 "[VERSION]"] r4 m b by simp
  have r6: "reads ?buf 6 body" using reads_append(2) [of ?buf 5 "[opc]" body] r5 by simp
  have t: "take_at ?buf 0 4 = Ok (MAGIC, 4)" "take_at ?buf 4 1 = Ok ([VERSION], 5)" "take_at ?buf 5 1 = Ok ([opc], 6)"
    using t4 m reads_append(1) [of ?buf 4 "[VERSION]"] r4 b reads_append(1) [of ?buf 5 "[opc]" body] r5 by simp_all
  have "decode_op ?buf = (if opc = OP_ISSUE then decode_issue ?buf 6 else if opc = OP_NFT_MINT then
      decode_nft_mint ?buf 6 else if opc = OP_TRANSFER then decode_transfer ?buf 6 else Err UnknownOpcode)"
    using encode_op_length [OF assms] t by (simp add: decode_op_def)
  then show ?thesis
    using assms b r6 decode_issue_ok decode_nft_ok decode_transfer_ok
    by (cases x) (auto simp: OP_ISSUE_def OP_NFT_MINT_def OP_TRANSFER_def)
qed

lemma op_return_roundtrip:
  assumes "0 < length d" "length d < 65536"
  shows "op_return_data (op_return_script d) = Some d"
proof -
  consider "length d \<le> 0x4b" | "0x4b < length d" "length d \<le> 0xff" | "0xff < length d" by linarith
  then show ?thesis
  proof cases
    case 1
    then have u: "unat (of_nat (length d) :: u8) = length d" by (simp add: unat_of_nat_u8)
    then have "(1 :: u8) \<le> of_nat (length d)" "(of_nat (length d) :: u8) \<le> 0x4b"
      using 1 assms by (simp_all add: word_le_nat_alt Suc_le_eq)
    with 1 u show ?thesis
      by (simp add: op_return_script_def op_return_data_def get_byte_def get_range_def)
  next
    case 2
    then have u: "unat (of_nat (length d) :: u8) = length d" by (simp add: unat_of_nat_u8)
    with 2 show ?thesis by (simp add: op_return_script_def op_return_data_def get_byte_def get_range_def)
  next
    case 3
    have "unat (of_nat (length d mod 256) :: u8) = length d mod 256"
      "unat (of_nat (length d div 256 mod 256) :: u8) = length d div 256 mod 256"
      by (rule unat_of_nat_u8, simp)+
    moreover have "length d div 256 mod 256 = length d div 256" using assms(2) by simp
    moreover have "length d mod 256 + 256 * (length d div 256) = length d" by simp
    ultimately show ?thesis using 3
      by (simp add: op_return_script_def op_return_data_def get_byte_def get_range_def Let_def del: of_nat_mod)
  qed
qed

lemma op_return_carries:
  assumes "op_typed x" "royalty_ok x" "fields_fit x"
  shows "extract_asset_loop (\<lparr> value_atoms = v, script_pubkey = op_return_script (encode_op x) \<rparr> # outs) = Some x"
  using assms op_return_roundtrip [of "encode_op x"] encode_op_length [OF assms(1)]
  by (simp add: decode_encode clip_op_fits MAX_PAYLOAD_def)

text \<open>A pay-to-address output is never read as a carrier.\<close>

lemma p2pkh_not_carrier:
  assumes "p2pkh_from_address X a = Ok spk"
  shows "op_return_data spk = None"
  using assms by (auto simp: p2pkh_from_address_def p2pkh_script_def op_return_data_def get_byte_def
      opcode_defs split: option.splits if_splits prod.splits)

lemma decode_op_typed: "decode_op buf = Ok y \<Longrightarrow> op_typed y \<and> royalty_ok y"
proof -
  have "length b = n" if "take_at c i n = Ok (b, j)" for c i n b j
    using that by (auto simp: take_at_def split: if_splits)
  then show "decode_op buf = Ok y \<Longrightarrow> op_typed y \<and> royalty_ok y"
    by (fastforce simp: decode_op_def decode_issue_def decode_nft_mint_def decode_transfer_def
        res_bind_Ok_iff not_less split: if_splits prod.splits)
qed

text \<open>
  C36. The asset codec is faithful. Decoding what was encoded gives the operation with its text fields
  cut at their limits (and a cut character replaced), or rejects it when the royalty is above 100
  percent; it gives back the operation itself when the fields fit. Whatever bytes decode, the result
  has 32-byte identifiers and an admissible royalty.
\<close>

theorem asset_op_roundtrip:
  assumes "op_typed x"
  shows "decode_op (encode_op x) = (if royalty_ok x then Ok (clip_op x) else Err BadRoyalty)
    \<and> (fields_fit x \<longrightarrow> clip_op x = x)
    \<and> (\<forall>buf y. decode_op buf = Ok y \<longrightarrow> op_typed y \<and> royalty_ok y)"
  using decode_encode [OF assms] clip_op_fits decode_op_typed by blast

definition demo_issue :: AssetOp where
  "demo_issue = Issue \<lparr> ticker = ''GOLD'', decimals = 8, issue_supply = 21000000,
     issue_name = ''Gold Token'', issue_flags = 0 \<rparr>"

lemma demo_issue_ok: "op_typed demo_issue" "royalty_ok demo_issue" "fields_fit demo_issue"
  by (auto simp: demo_issue_def str_bytes_def intro!: utf8_valid_ascii)

theorem asset_op_roundtrip_witness:
  "op_typed demo_issue \<and> fields_fit demo_issue \<and> decode_op (encode_op demo_issue) = Ok demo_issue"
  using asset_op_roundtrip [OF demo_issue_ok(1)] demo_issue_ok by simp

section \<open>Asset transactions\<close>

abbreviation carrier :: "AssetOp \<Rightarrow> TxOutput" where
  "carrier x \<equiv> \<lparr> value_atoms = 0, script_pubkey = op_return_script (encode_op x) \<rparr>"

definition pays_address :: "ext \<Rightarrow> string \<Rightarrow> u64 \<Rightarrow> TxOutput \<Rightarrow> bool" where
  "pays_address X a v out \<longleftrightarrow> value_atoms out = v \<and> p2pkh_from_address X a = Ok (script_pubkey out)"

lemma build_outputs_shape:
  assumes "build_outputs X x dest change_addr total_in fee = Ok outs"
    and "total_in \<noteq> - 1 \<or> unat (case dest of None \<Rightarrow> 0 | Some (_, v) \<Rightarrow> v) + unat fee < 2 ^ 64"
  shows "\<exists>ds cs chg. outs = ds @ carrier x # cs
    \<and> (case dest of None \<Rightarrow> ds = [] | Some (a, v) \<Rightarrow> \<exists>o1. ds = [o1] \<and> pays_address X a v o1)
    \<and> (if chg = 0 then cs = [] else \<exists>o2. cs = [o2] \<and> pays_address X change_addr chg o2)
    \<and> unat (case dest of None \<Rightarrow> 0 | Some (_, v) \<Rightarrow> v) + unat chg + unat fee = unat total_in"
proof -
  let ?v = "case dest of None \<Rightarrow> 0 | Some (_, a) \<Rightarrow> a"
  let ?spent = "sat_add ?v fee"
  let ?pre = "case dest of None \<Rightarrow> Ok [] | Some (addr, atoms) \<Rightarrow>
    res_bind (map_err (\<lambda>_. InvalidRecipient addr) (p2pkh_from_address X addr))
      (\<lambda>spk. Ok [\<lparr> value_atoms = atoms, script_pubkey = spk \<rparr>])"
  from assms(1) have le: "?spent \<le> total_in" unfolding build_outputs_def Let_def by (simp add: not_less split: if_splits)
  then have nl: "\<not> total_in < ?spent" by simp
  from assms(1) [unfolded build_outputs_def Let_def if_not_P [OF nl] res_bind_Ok_iff [of ?pre]]
  obtain ds where pre: "?pre = Ok ds"
    and rest: "(if total_in - ?spent > 0 then
             res_bind (map_err (\<lambda>_. InvalidChange change_addr) (p2pkh_from_address X change_addr))
               (\<lambda>spk. Ok ((ds @ [carrier x]) @ [\<lparr> value_atoms = total_in - ?spent, script_pubkey = spk \<rparr>]))
           else Ok (ds @ [carrier x])) = Ok outs"
    by blast
  from pre have ds: "case dest of None \<Rightarrow> ds = [] | Some (a, v) \<Rightarrow> \<exists>o1. ds = [o1] \<and> pays_address X a v o1"
    by (auto simp: res_bind_Ok_iff pays_address_def split: option.splits)
  have sp: "unat ?spent = unat ?v + unat fee"
    using assms(2)
  proof
    assume "total_in \<noteq> - 1"
    then have "unat total_in \<noteq> unat (- 1 :: u64)" by (simp add: word_unat_eq_iff)
    then have "unat total_in < 2 ^ 64 - 1" using unat_u64_le [of total_in] by (simp add: unat_minus_one_word)
    with le show ?thesis unfolding word_le_nat_alt unat_sat_add by (simp add: min_def split: if_splits)
  qed (simp add: unat_sat_add)
  then have eq: "unat ?v + unat (total_in - ?spent) + unat fee = unat total_in"
    using le by (simp add: unat_sub word_le_nat_alt)
  show ?thesis
  proof (cases "total_in - ?spent = 0")
    case True
    then have "outs = ds @ carrier x # []" using rest by simp
    with ds eq True show ?thesis by (intro exI [of _ ds] exI [of _ "[]"] exI [of _ 0]) simp
  next
    case False
    then have "total_in - ?spent > 0" by (simp add: word_gt_0)
    with rest obtain spk where "p2pkh_from_address X change_addr = Ok spk"
      "outs = ds @ carrier x # [\<lparr> value_atoms = total_in - ?spent, script_pubkey = spk \<rparr>]"
      by (auto simp: res_bind_Ok_iff)
    with ds eq False show ?thesis
      by (intro exI [of _ ds] exI [of _ "[\<lparr> value_atoms = total_in - ?spent, script_pubkey = spk \<rparr>]"]
          exI [of _ "total_in - ?spent"]) (simp add: pays_address_def)
  qed
qed

text \<open>
  An asset transaction carries its operation and conserves money: from the outputs that
  \<open>build_outputs\<close> returns, every reader of the chain extracts exactly the requested operation; the
  recipient's carrier output is output 0 (the index a transfer names) with the requested value;
  everything else goes back to the change address, so that outputs and fee add up to the inputs.
\<close>

theorem asset_tx_carries_op:
  assumes "op_typed x" and "royalty_ok x" and "fields_fit x"
    and "total_in \<noteq> - 1 \<or> unat (case dest of None \<Rightarrow> 0 | Some (_, v) \<Rightarrow> v) + unat fee < 2 ^ 64"
    and "build_outputs X x dest change_addr total_in fee = Ok outs"
  shows "extract_asset_op (payment X ins outs) = Some x
    \<and> sum_list (map (unat \<circ> value_atoms) outs) + unat fee = unat total_in
    \<and> (\<forall>a v. dest = Some (a, v) \<longrightarrow> 1 < length outs \<and> pays_address X a v (outs ! 0))
    \<and> (\<forall>i < length outs. (i = 0 \<and> dest \<noteq> None) \<or> outs ! i = carrier x
         \<or> pays_address X change_addr (value_atoms (outs ! i)) (outs ! i))"
proof -
  from build_outputs_shape [OF assms(5,4)] obtain ds cs chg where o: "outs = ds @ carrier x # cs"
    and ds: "case dest of None \<Rightarrow> ds = [] | Some (a, v) \<Rightarrow> \<exists>o1. ds = [o1] \<and> pays_address X a v o1"
    and cs: "if chg = 0 then cs = [] else \<exists>o2. cs = [o2] \<and> pays_address X change_addr chg o2"
    and sum: "unat (case dest of None \<Rightarrow> 0 | Some (_, v) \<Rightarrow> v) + unat chg + unat fee = unat total_in"
    by blast
  note car = op_return_carries [OF assms(1-3), of 0 cs]
  have "extract_asset_loop outs = Some x"
    using ds car by (auto simp: o pays_address_def p2pkh_not_carrier split: option.splits)
  moreover have "sum_list (map (unat \<circ> value_atoms) cs) = unat chg"
    using cs by (auto simp: pays_address_def split: if_splits)
  moreover have "sum_list (map (unat \<circ> value_atoms) ds) = unat (case dest of None \<Rightarrow> 0 | Some (_, v) \<Rightarrow> v)"
    using ds by (auto simp: pays_address_def split: option.splits)
  moreover have "\<forall>out \<in> set cs. pays_address X change_addr (value_atoms out) out"
    using cs by (auto simp: pays_address_def split: if_splits)
  ultimately show ?thesis
    using ds sum by (auto simp: extract_asset_op_def payment_def Let_def o nth_append nth_Cons' split: option.splits)
qed

theorem asset_tx_carries_op_witness:
  "\<exists>outs. build_outputs demo_ext demo_issue None [] 100000 100000 = Ok outs
    \<and> extract_asset_op (payment demo_ext [] outs) = Some demo_issue"
proof -
  have "build_outputs demo_ext demo_issue None [] 100000 100000 = Ok [carrier demo_issue]"
    by (simp add: build_outputs_def)
  with asset_tx_carries_op [OF demo_issue_ok _ this] show ?thesis by simp
qed

end
