(* ===== verification/Rust_Text.thy ===== *)
theory Rust_Text
  imports Asset_Codec Complex_Main
begin

text \<open>
  The parts of the standard library's \<open>str\<close> that the servers use to read requests, on strings of
  UTF-8 bytes: trimming and splitting at white space (Unicode's \<open>White_Space\<close>, in its UTF-8
  encodings, which match only at character boundaries of valid text), \<open>lines\<close>, \<open>split_once\<close>,
  \<open>split\<close>, prefix tests and decimal parsing. The theory also holds the values of \<open>serde_json\<close>
  (\<open>Value\<close>) as far as the program builds and reads them: numbers are unsigned 64-bit integers or
  doubles, given by their exact value.
\<close>

section \<open>Prefixes\<close>

fun starts_with :: "'a list \<Rightarrow> 'a list \<Rightarrow> bool" where
  "starts_with [] ys = True"
| "starts_with (x # xs) [] = False"
| "starts_with (x # xs) (y # ys) = (x = y \<and> starts_with xs ys)"

lemma starts_with_iff: "starts_with xs ys \<longleftrightarrow> (\<exists>zs. ys = xs @ zs)"
  by (induction xs ys rule: starts_with.induct) auto

fun contains_str :: "string \<Rightarrow> string \<Rightarrow> bool" where
  "contains_str t [] = (t = [])"
| "contains_str t (c # cs) = (starts_with t (c # cs) \<or> contains_str t cs)"

text \<open>\<open>trim_start_matches(pat)\<close> removes every leading copy of a non-empty pattern.\<close>

function trim_start_matches :: "string \<Rightarrow> string \<Rightarrow> string" where
  "trim_start_matches pat s =
     (if pat \<noteq> [] \<and> starts_with pat s then trim_start_matches pat (drop (length pat) s) else s)"
  by pat_completeness auto
termination
  by (relation "measure (length \<circ> snd)") (auto simp: starts_with_iff)

declare trim_start_matches.simps [simp del]

text \<open>\<open>split_once(pat)\<close>\<close>

fun split_once :: "string \<Rightarrow> string \<Rightarrow> (string \<times> string) option" where
  "split_once pat [] = (if pat = [] then Some ([], []) else None)"
| "split_once pat (c # cs) =
     (if starts_with pat (c # cs) then Some ([], drop (length pat) (c # cs))
      else map_option (apfst ((#) c)) (split_once pat cs))"

text \<open>\<open>split(c)\<close>: the parts between the separators, always at least one.\<close>

fun split_at :: "char \<Rightarrow> string \<Rightarrow> string list" where
  "split_at c [] = [[]]"
| "split_at c (x # xs) =
     (if x = c then [] # split_at c xs
      else case split_at c xs of [] \<Rightarrow> [[x]] | p # ps \<Rightarrow> (x # p) # ps)"

lemma split_at_none: "c \<notin> set xs \<Longrightarrow> split_at c xs = [xs]"
  by (induction xs) auto

lemma split_at_append: "c \<notin> set xs \<Longrightarrow> split_at c (xs @ c # ys) = xs # split_at c ys"
  by (induction xs) auto

text \<open>\<open>trim_matches\<close> with a set of characters\<close>

definition trim_chars :: "char list \<Rightarrow> string \<Rightarrow> string" where
  "trim_chars cs s = rev (dropWhile (\<lambda>c. c \<in> set cs) (rev (dropWhile (\<lambda>c. c \<in> set cs) s)))"

section \<open>White space\<close>

definition white_space :: "string list" where
  "white_space = map (\<lambda>n. [char_of (n :: nat)]) [9, 10, 11, 12, 13, 32]
     @ map bytes_str ([[0xC2, 0x85], [0xC2, 0xA0], [0xE1, 0x9A, 0x80]]
         @ map (\<lambda>n. [0xE2, 0x80, of_nat (0x80 + n)]) [0..<11]
         @ [[0xE2, 0x80, 0xA8], [0xE2, 0x80, 0xA9], [0xE2, 0x80, 0xAF], [0xE2, 0x81, 0x9F], [0xE3, 0x80, 0x80]])"

text \<open>The length of a pattern at the start, 0 if there is none.\<close>

definition match_len :: "string list \<Rightarrow> string \<Rightarrow> nat" where
  "match_len pats s = (case find (\<lambda>p. starts_with p s) pats of Some p \<Rightarrow> length p | None \<Rightarrow> 0)"

lemma match_len_le: "match_len pats s \<le> length s"
  by (auto simp: match_len_def find_Some_iff starts_with_iff split: option.splits)

function trim_pats :: "string list \<Rightarrow> string \<Rightarrow> string" where
  "trim_pats pats s = (if match_len pats s = 0 then s else trim_pats pats (drop (match_len pats s) s))"
  by pat_completeness auto
termination
proof (relation "measure (length \<circ> snd)")
  fix pats s
  assume "match_len pats s \<noteq> 0"
  then show "((pats, drop (match_len pats s) s), pats, s) \<in> measure (length \<circ> snd)"
    using match_len_le [of pats s] by simp
qed simp

declare trim_pats.simps [simp del]

definition trim :: "string \<Rightarrow> string" where
  "trim s = rev (trim_pats (map rev white_space) (rev (trim_pats white_space s)))"

text \<open>The first word of \<open>split_whitespace\<close> and what follows it.\<close>

fun take_word :: "string \<Rightarrow> string \<times> string" where
  "take_word [] = ([], [])"
| "take_word (c # cs) = (if match_len white_space (c # cs) > 0 then ([], c # cs) else apfst ((#) c) (take_word cs))"

definition next_word :: "string \<Rightarrow> (string \<times> string) option" where
  "next_word s = (case take_word (trim_pats white_space s) of ([], _) \<Rightarrow> None | (w, r) \<Rightarrow> Some (w, r))"

section \<open>Lines, case and numbers\<close>

definition chop_cr :: "string \<Rightarrow> string" where
  "chop_cr l = (if l \<noteq> [] \<and> last l = char_of (13 :: nat) then butlast l else l)"

text \<open>\<open>lines()\<close>: split at line feeds, a final empty part dropped, one carriage return removed.\<close>

definition str_lines :: "string \<Rightarrow> string list" where
  "str_lines s =
     (let ps = split_at (char_of (10 :: nat)) s in
      map chop_cr (butlast ps) @ (if last ps = [] then [] else [last ps]))"

definition ascii_lower :: "char \<Rightarrow> char" where
  "ascii_lower c = (let n = of_char c :: nat in if 65 \<le> n \<and> n \<le> 90 then char_of (n + 32) else c)"

definition eq_ignore_ascii_case :: "string \<Rightarrow> string \<Rightarrow> bool" where
  "eq_ignore_ascii_case a b \<longleftrightarrow> map ascii_lower a = map ascii_lower b"

definition digit_val :: "char \<Rightarrow> nat option" where
  "digit_val c = (let n = of_char c :: nat in if 48 \<le> n \<and> n \<le> 57 then Some (n - 48) else None)"

fun digits_val :: "nat \<Rightarrow> string \<Rightarrow> nat option" where
  "digits_val acc [] = Some acc"
| "digits_val acc (c # cs) = (case digit_val c of None \<Rightarrow> None | Some d \<Rightarrow> digits_val (10 * acc + d) cs)"

text \<open>\<open>parse\<close> of an unsigned integer of \<open>n\<close> bits: an optional plus sign, digits, no overflow.\<close>

definition parse_uint :: "nat \<Rightarrow> string \<Rightarrow> nat option" where
  "parse_uint n s =
     (let t = (case s of [] \<Rightarrow> [] | c # cs \<Rightarrow> if c = CHR ''+'' then cs else s) in
      if t = [] then None
      else case digits_val 0 t of Some v \<Rightarrow> if v < 2 ^ n then Some v else None | None \<Rightarrow> None)"

lemma show_nat_digits: "\<forall>c \<in> set (show_nat n). digit_val c \<noteq> None"
proof (induction n rule: show_nat.induct)
  case (1 n)
  have "digit_val (char_of (48 + d) :: char) = Some d" if "d < 10" for d
    using that by (simp add: digit_val_def Let_def)
  with 1 show ?case by (subst show_nat.simps) auto
qed

lemma digits_val_append: "digits_val acc (xs @ ys) = Option.bind (digits_val acc xs) (\<lambda>a. digits_val a ys)"
  by (induction xs arbitrary: acc) (auto split: option.split)

lemma digits_val_show: "digits_val 0 (show_nat n) = Some n"
proof (induction n rule: show_nat.induct)
  case (1 n)
  have "digit_val (char_of (48 + d) :: char) = Some d" if "d < 10" for d
    using that by (simp add: digit_val_def Let_def)
  with 1 show ?case by (subst show_nat.simps) (auto simp: digits_val_append)
qed

lemma show_nat_nonempty: "show_nat n \<noteq> []"
  by (subst show_nat.simps) simp

lemma parse_show: "v < 2 ^ n \<Longrightarrow> parse_uint n (show_nat v) = Some v"
proof -
  assume "v < 2 ^ n"
  moreover have "hd (show_nat v) \<noteq> CHR ''+''"
    using show_nat_digits [of v] show_nat_nonempty [of v]
    by (cases "show_nat v") (auto simp: digit_val_def)
  ultimately show ?thesis using show_nat_nonempty [of v] digits_val_show [of v]
    by (cases "show_nat v") (simp_all add: parse_uint_def)
qed

section \<open>JSON values\<close>

datatype json =
  JNull | JBool bool | JNum u64 | JStr string | JArr "json list" | JObj "(string \<times> json) list" | JFloat rat

fun json_get :: "json \<Rightarrow> string \<Rightarrow> json option" where
  "json_get (JObj kvs) k = map_of kvs k"
| "json_get _ k = None"

fun as_array :: "json \<Rightarrow> json list option" where
  "as_array (JArr xs) = Some xs"
| "as_array _ = None"

fun as_str :: "json \<Rightarrow> string option" where
  "as_str (JStr s) = Some s"
| "as_str _ = None"

fun as_u64 :: "json \<Rightarrow> u64 option" where
  "as_u64 (JNum n) = Some n"
| "as_u64 _ = None"

end
