(* ===== verification/Rust_Store.thy ===== *)
theory Rust_Store
  imports Rust_Text
begin

text \<open>
  Files that hold one value, as the pool and the RPC adapter keep their ledgers and keys, and the
  readers of \<open>serde_json\<close> values that only these services use.
\<close>

section \<open>Files\<close>

text \<open>
  A file that the program reads with \<open>fs::read_to_string\<close> and \<open>serde_json\<close>: there is none, or it does
  not hold a value of the type, or it does. \<open>fs::write\<close> can fail before it has opened the file, or after
  it has truncated it.
\<close>

datatype 'a stored = Absent | Unreadable | Holding 'a

datatype write_outcome = Written | Unopened string | CutOff string

definition store :: "write_outcome \<Rightarrow> 'a \<Rightarrow> 'a stored \<Rightarrow> 'a stored \<times> (unit, string) result" where
  "store outcome a file =
     (case outcome of Written \<Rightarrow> (Holding a, Ok ()) | Unopened e \<Rightarrow> (file, Err e) | CutOff e \<Rightarrow> (Unreadable, Err e))"

text \<open>\<open>fs::read_to_string(path).ok().and_then(..).unwrap_or_default()\<close>\<close>

definition stored_or :: "'a \<Rightarrow> 'a stored \<Rightarrow> 'a" where
  "stored_or dflt file = (case file of Holding a \<Rightarrow> a | _ \<Rightarrow> dflt)"

section \<open>Reading values\<close>

definition as_bool :: "json \<Rightarrow> bool option" where
  "as_bool v = (case v of JBool b \<Rightarrow> Some b | _ \<Rightarrow> None)"

text \<open>\<open>value.get(i)\<close> with a number looks into arrays only.\<close>

fun json_nth :: "json \<Rightarrow> nat \<Rightarrow> json option" where
  "json_nth (JArr xs) i = (if i < length xs then Some (xs ! i) else None)"
| "json_nth _ i = None"

end
