(* ===== verification/Pool_Accounting.thy ===== *)
theory Pool_Accounting
  imports Mem_Pool Rust_Store
begin

text \<open>
  The accounting of the mining pool: \<open>crates/tensorium-pool/src/accounting.rs\<close> (PPLNS share window,
  reward split, payout ledger) and \<open>crates/tensorium-pool/src/payout.rs\<close> (the payout cycle). The
  wallet program that the scheduler runs is an argument with a state of its own. \<open>1 << bits\<close> on a
  \<open>u64\<close> masks its shift amount to six bits, as the release build does. The ledger
  file is the value it holds; log output is not modelled.
\<close>

section \<open>Share window\<close>

definition POOL_FEE_BPS :: u64 where "POOL_FEE_BPS = 500"
definition PPLNS_DEFAULT_N :: nat where "PPLNS_DEFAULT_N = 4096"

record ShareRecord =
  sr_wallet_address :: string
  sr_worker_name :: string
  sr_share_diff_bits :: u8
  submitted_at_unix :: u64

definition weight :: "ShareRecord \<Rightarrow> u64" where
  "weight s = push_bit (unat (sr_share_diff_bits s) mod 64) 1"

record ShareWindow =
  window_n :: nat
  shares :: "ShareRecord list"

definition new_window :: "nat \<Rightarrow> ShareWindow" where
  "new_window n = \<lparr> window_n = n, shares = [] \<rparr>"

definition window_push :: "ShareWindow \<Rightarrow> ShareRecord \<Rightarrow> ShareWindow" where
  "window_push w s =
     w\<lparr> shares := (if length (shares w) \<ge> window_n w then drop 1 (shares w) else shares w) @ [s] \<rparr>"

definition total_weight :: "ShareWindow \<Rightarrow> u64" where
  "total_weight w = sat_sum (map weight (shares w))"

definition miner_weights :: "ShareWindow \<Rightarrow> (string, u64) hashmap" where
  "miner_weights w =
     hm_accumulate sr_wallet_address weight [] (shares w)"

section \<open>Ledger\<close>

record PayoutEntry =
  pe_block_height :: u64
  pe_block_hash :: string
  miner_address :: string
  gross_reward_atoms :: u64
  pool_fee_atoms :: u64
  net_payout_atoms :: u64
  paid_out :: bool

definition split_fee :: "u64 \<Rightarrow> u64 \<Rightarrow> u64 \<times> u64" where
  "split_fee gross fee_bps =
     (let fee = sat_mul gross fee_bps div 10000; net = sat_sub gross fee in (net, fee))"

definition new_payout_entry :: "u64 \<Rightarrow> string \<Rightarrow> string \<Rightarrow> u64 \<Rightarrow> PayoutEntry" where
  "new_payout_entry h hash miner gross =
     (let (net, fee) = split_fee gross POOL_FEE_BPS in
      \<lparr> pe_block_height = h, pe_block_hash = hash, miner_address = miner, gross_reward_atoms = gross,
        pool_fee_atoms = fee, net_payout_atoms = net, paid_out = False \<rparr>)"

record PayoutLedger =
  entries :: "PayoutEntry list"
  share_window :: ShareWindow

definition ledger_default :: PayoutLedger where
  "ledger_default = \<lparr> entries = [], share_window = new_window PPLNS_DEFAULT_N \<rparr>"

definition ledger_push :: "PayoutLedger \<Rightarrow> PayoutEntry \<Rightarrow> PayoutLedger" where
  "ledger_push l e = l\<lparr> entries := entries l @ [e] \<rparr>"

definition push_share :: "PayoutLedger \<Rightarrow> ShareRecord \<Rightarrow> PayoutLedger" where
  "push_share l s = l\<lparr> share_window := window_push (share_window l) s \<rparr>"

definition total_fee_atoms :: "PayoutLedger \<Rightarrow> u64" where
  "total_fee_atoms l = sat_sum (map pool_fee_atoms (entries l))"

text \<open>\<open>!e.paid_out && e.miner_address == miner_address\<close>\<close>

definition owed_to :: "string \<Rightarrow> PayoutEntry \<Rightarrow> bool" where
  "owed_to miner e \<longleftrightarrow> \<not> paid_out e \<and> miner_address e = miner"

definition pending_atoms :: "PayoutLedger \<Rightarrow> string \<Rightarrow> u64" where
  "pending_atoms l miner = sat_sum (map net_payout_atoms (filter (owed_to miner) (entries l)))"

fun payable_loop :: "string \<Rightarrow> u64 \<Rightarrow> u64 \<Rightarrow> PayoutEntry list \<Rightarrow> u64" where
  "payable_loop miner mx payable [] = payable"
| "payable_loop miner mx payable (e # es) =
     (if paid_out e \<or> miner_address e \<noteq> miner then payable_loop miner mx payable es
      else let nxt = sat_add payable (net_payout_atoms e) in
           if nxt > mx then payable else payable_loop miner mx nxt es)"

definition payable_atoms_up_to :: "PayoutLedger \<Rightarrow> string \<Rightarrow> u64 \<Rightarrow> u64" where
  "payable_atoms_up_to l miner mx = payable_loop miner mx 0 (entries l)"

definition mark_paid :: "PayoutLedger \<Rightarrow> string \<Rightarrow> PayoutLedger" where
  "mark_paid l miner =
     l\<lparr> entries := map (\<lambda>e. if miner_address e = miner then e\<lparr> paid_out := True \<rparr> else e) (entries l) \<rparr>"

fun mark_loop :: "string \<Rightarrow> u64 \<Rightarrow> u64 \<Rightarrow> PayoutEntry list \<Rightarrow> PayoutEntry list \<times> u64" where
  "mark_loop miner amount marked [] = ([], marked)"
| "mark_loop miner amount marked (e # es) =
     (if paid_out e \<or> miner_address e \<noteq> miner
      then (let (es', m) = mark_loop miner amount marked es in (e # es', m))
      else if marked \<ge> amount then (e # es, marked)
      else (let (es', m) = mark_loop miner amount (sat_add marked (net_payout_atoms e)) es in
            (e\<lparr> paid_out := True \<rparr> # es', m)))"

definition mark_paid_up_to :: "PayoutLedger \<Rightarrow> string \<Rightarrow> u64 \<Rightarrow> PayoutLedger \<times> u64" where
  "mark_paid_up_to l miner amount =
     (let (es, marked) = mark_loop miner amount 0 (entries l) in (l\<lparr> entries := es \<rparr>, marked))"

record LedgerStats =
  blocks_found :: u64
  ls_total_gross_atoms :: u64
  ls_total_fee_atoms :: u64
  ls_total_pending_net_atoms :: u64

definition ledger_stats :: "PayoutLedger \<Rightarrow> LedgerStats" where
  "ledger_stats l =
     \<lparr> blocks_found = of_nat (card (set (map pe_block_hash (entries l)))),
       ls_total_gross_atoms = sat_sum (map gross_reward_atoms (entries l)),
       ls_total_fee_atoms = total_fee_atoms l,
       ls_total_pending_net_atoms = sat_sum (map net_payout_atoms (filter (\<lambda>e. \<not> paid_out e) (entries l))) \<rparr>"

section \<open>PPLNS split\<close>

text \<open>\<open>(gross as u128 * w as u128 / total as u128) as u64\<close>\<close>

definition miner_share :: "u64 \<Rightarrow> u64 \<Rightarrow> u64 \<Rightarrow> u64" where
  "miner_share gross w tot = ucast ((ucast gross :: u128) * ucast w div ucast tot)"

definition pplns_split :: "PayoutLedger \<Rightarrow> u64 \<Rightarrow> string \<Rightarrow> (string \<times> u64) list" where
  "pplns_split l gross fallback_addr =
     (let weights = miner_weights (share_window l); tot = total_weight (share_window l) in
      if tot = 0 \<or> weights = [] then [(fallback_addr, gross)]
      else
        sort_key (\<lambda>p. - 1 - snd p)
          (filter (\<lambda>p. snd p > 0) (map (\<lambda>(addr, w). (addr, miner_share gross w tot)) weights)))"

text \<open>The ledger part of an accepted block (\<open>stratum.rs\<close>): the winning share enters the window
  first, then the reward is split and one entry is appended per miner.\<close>

definition credit_block :: "PayoutLedger \<Rightarrow> ShareRecord \<Rightarrow> u64 \<Rightarrow> string \<Rightarrow> u64 \<Rightarrow> PayoutLedger" where
  "credit_block l winning h bhash gross =
     (let l' = push_share l winning in
      foldl (\<lambda>l (addr, g). ledger_push l (new_payout_entry h bhash addr g)) l'
        (pplns_split l' gross (sr_wallet_address winning)))"

section \<open>The ledger file\<close>

definition ledger_load :: "PayoutLedger stored \<Rightarrow> PayoutLedger" where
  "ledger_load file = stored_or ledger_default file"

definition ledger_save :: "write_outcome \<Rightarrow> PayoutLedger \<Rightarrow> PayoutLedger stored \<Rightarrow> PayoutLedger stored \<times> (unit, string) result" where
  "ledger_save outcome l file = apsnd (map_err (\<lambda>e. ''write ledger: '' @ e)) (store outcome l file)"

section \<open>The payout cycle\<close>

datatype broadcast_outcome = BroadcastOk | BroadcastRejected string | BroadcastNotRun

text \<open>The wallet program: building a transaction gives the path of the file, or fails. The last field
  writes the ledger file; a failure is only logged.\<close>

record 'w wallet_cli =
  cli_send :: "'w \<Rightarrow> string \<Rightarrow> u64 \<Rightarrow> string option \<times> 'w"
  cli_broadcast :: "'w \<Rightarrow> string \<Rightarrow> broadcast_outcome \<times> 'w"
  save_ledger :: "PayoutLedger \<Rightarrow> 'w \<Rightarrow> 'w"

definition pending_map :: "PayoutEntry list \<Rightarrow> (string, u64) hashmap" where
  "pending_map es =
     hm_accumulate miner_address net_payout_atoms [] (filter (\<lambda>e. \<not> paid_out e) es)"

definition due_miners :: "PayoutLedger \<Rightarrow> u64 \<Rightarrow> (string \<times> u64) list" where
  "due_miners l threshold = filter (\<lambda>p. snd p \<ge> threshold) (pending_map (entries l))"

definition pay_miner ::
  "'w wallet_cli \<Rightarrow> PayoutLedger \<Rightarrow> 'w \<Rightarrow> string \<Rightarrow> u64 \<Rightarrow> u64 option \<times> PayoutLedger \<times> 'w" where
  "pay_miner cli l w miner payable =
     (case cli_send cli w miner payable of
        (None, w) \<Rightarrow> (None, l, w)
      | (Some path, w) \<Rightarrow>
          (case cli_broadcast cli w path of
             (BroadcastOk, w) \<Rightarrow>
               let l = fst (mark_paid_up_to l miner payable) in
               (Some (sat_add payable MIN_RELAY_FEE_ATOMS), l, save_ledger cli l w)
           | (BroadcastRejected msg, w) \<Rightarrow>
               if sublist ''already in the mempool'' msg
               then let l = fst (mark_paid_up_to l miner payable) in
                    (Some (sat_add payable MIN_RELAY_FEE_ATOMS), l, save_ledger cli l w)
               else (None, l, w)
           | (BroadcastNotRun, w) \<Rightarrow> (None, l, w)))"

fun pay_loop :: "'w wallet_cli \<Rightarrow> PayoutLedger \<Rightarrow> 'w \<Rightarrow> u64 \<Rightarrow> (string \<times> u64) list \<Rightarrow> PayoutLedger \<times> 'w" where
  "pay_loop cli l w spendable [] = (l, w)"
| "pay_loop cli l w spendable ((miner, pending) # due) =
     (if spendable \<le> MIN_RELAY_FEE_ATOMS then (l, w)
      else
        let payable = payable_atoms_up_to l miner (sat_sub spendable MIN_RELAY_FEE_ATOMS) in
        if payable = 0 then pay_loop cli l w spendable due
        else
          (case pay_miner cli l w miner payable of
             (Some spent, l, w) \<Rightarrow> pay_loop cli l w (sat_sub spendable spent) due
           | (None, l, w) \<Rightarrow> pay_loop cli l w spendable due))"

text \<open>\<open>mature_wallet_atoms\<close> on the decoded answer of the node.\<close>

definition mature_atoms :: "(u64 \<times> bool) list \<Rightarrow> u64" where
  "mature_atoms utxos = sat_sum (map fst (filter snd utxos))"

text \<open>\<open>utxos\<close> is what the node answers; \<open>None\<close> when the wallet address or the balance could not be
  queried.\<close>

definition run_cycle ::
  "'w wallet_cli \<Rightarrow> u64 \<Rightarrow> (u64 \<times> bool) list option \<Rightarrow> PayoutLedger \<Rightarrow> 'w \<Rightarrow> PayoutLedger \<times> 'w" where
  "run_cycle cli threshold utxos l w =
     (let due = due_miners l threshold in
      if due = [] then (l, w)
      else case utxos of
        None \<Rightarrow> (l, w)
      | Some us \<Rightarrow> pay_loop cli l w (mature_atoms us) due)"

section \<open>The split is fair and never exceeds the reward\<close>

lemma split_fee_sum:
  "split_fee gross bps = (net, fee) \<Longrightarrow> unat bps \<le> 10000 \<Longrightarrow> unat net + unat fee = unat gross"
proof -
  assume s: "split_fee gross bps = (net, fee)" and b: "unat bps \<le> 10000"
  have "unat (sat_mul gross bps div 10000) \<le> unat gross * unat bps div 10000"
    by (simp add: unat_div unat_sat_mul div_le_mono)
  also have "\<dots> \<le> unat gross" using div_le_mono [OF mult_le_mono2 [OF b, of "unat gross"], of 10000] by simp
  finally show "unat net + unat fee = unat gross" using s by (auto simp: split_fee_def Let_def unat_sat_sub)
qed

lemma entry_conserves: "unat (net_payout_atoms (new_payout_entry h bh a g)) + unat (pool_fee_atoms (new_payout_entry h bh a g)) = unat g"
  using split_fee_sum [of g POOL_FEE_BPS] by (auto simp: new_payout_entry_def POOL_FEE_BPS_def split: prod.splits)

lemma sum_div_le: "sum_list (map (\<lambda>w. g * w div t) ws) \<le> g * sum_list ws div (t :: nat)"
proof (induction ws)
  case Nil
  show ?case by simp
next
  case (Cons w ws)
  have "a div t + b div t \<le> (a + b) div t" for a b :: nat
    by (cases "t = 0") (simp_all add: less_eq_div_iff_mult_less_eq add_mult_distrib add_mono)
  from this [of "g * w" "g * sum_list ws"] Cons show ?case by (simp add: algebra_simps)
qed

lemma sum_div_gt:
  "t > 0 \<Longrightarrow> ws \<noteq> [] \<Longrightarrow> g * sum_list ws < t * (sum_list (map (\<lambda>w. g * w div t) ws) + length ws)" for t :: nat
proof (induction ws)
  case (Cons w ws)
  have w: "g * w < t * (g * w div t + 1)" using Cons.prems(1) by (simp add: dividend_less_times_div)
  show ?case
  proof (cases "ws = []")
    case True
    then show ?thesis using w by simp
  next
    case False
    with Cons have "g * sum_list ws < t * (sum_list (map (\<lambda>w. g * w div t) ws) + length ws)" by simp
    with w show ?thesis by (simp add: algebra_simps)
  qed
qed simp

lemma unat_miner_share:
  assumes "w \<le> tot" and "tot \<noteq> 0"
  shows "unat (miner_share gross w tot) = unat gross * unat w div unat tot"
proof -
  have g: "unat gross < 2 ^ 64" and w: "unat w < 2 ^ 64" and t: "unat tot < 2 ^ 64" by (rule unat_u64_lt)+
  have prod: "unat gross * unat w < 2 ^ 128" using mult_strict_mono [OF g w] by simp
  have c: "take_bit 128 (unat gross) = unat gross" "take_bit 128 (unat w) = unat w" "take_bit 128 (unat tot) = unat tot"
    using g w t by (simp_all add: take_bit_nat_eq_self_iff)
  have "unat ((ucast gross :: u128) * ucast w) = unat gross * unat w"
    using prod c by (simp add: unat_word_ariths unsigned_ucast_eq)
  then have d: "unat ((ucast gross :: u128) * ucast w div ucast tot) = unat gross * unat w div unat tot"
    using c by (simp add: unat_div unsigned_ucast_eq)
  have "unat w \<le> unat tot" using assms(1) by (simp add: word_le_nat_alt)
  then have "unat gross * unat w div unat tot \<le> unat gross * unat tot div unat tot"
    by (intro div_le_mono mult_le_mono2)
  also have "\<dots> = unat gross" using assms(2) by (simp add: unat_eq_zero)
  finally have "unat gross * unat w div unat tot < 2 ^ 64" using g by linarith
  with d show ?thesis by (simp add: miner_share_def unsigned_ucast_eq take_bit_nat_eq_self_iff)
qed

text \<open>The weight of one miner and of the window, as numbers.\<close>

definition weight_of :: "ShareWindow \<Rightarrow> string \<Rightarrow> nat" where
  "weight_of w a = sum_list (map (unat \<circ> weight) (filter (\<lambda>s. sr_wallet_address s = a) (shares w)))"

definition window_weight :: "ShareWindow \<Rightarrow> nat" where
  "window_weight w = sum_list (map (unat \<circ> weight) (shares w))"

lemma weight_pos: "0 < unat (weight s)"
proof -
  have "push_bit n (1 :: u64) \<noteq> 0" if "n < 64" for n using that by (simp add: push_bit_eq_mult)
  then show ?thesis by (simp add: weight_def unat_gt_0)
qed

lemma miner_weights_correct:
  assumes "window_weight w < 2 ^ 64"
  shows "hm_ok (miner_weights w)" and "sum_list (map (unat \<circ> snd) (miner_weights w)) = window_weight w"
    and "(a, x) \<in> set (miner_weights w) \<Longrightarrow> unat x = weight_of w a"
    and "fst ` set (miner_weights w) = sr_wallet_address ` set (shares w)"
proof -
  have acc: "hm_ok (miner_weights w) \<and> hm_sum unat (miner_weights w) = window_weight w
    \<and> (\<forall>k. unat (get_or_0 (miner_weights w) k) = weight_of w k)
    \<and> fst ` set (miner_weights w) = sr_wallet_address ` set (shares w)"
    using hm_accumulate_correct [of "[]" weight "shares w" sr_wallet_address] assms
    by (simp add: miner_weights_def window_weight_def weight_of_def get_or_0_def)
  then show ok: "hm_ok (miner_weights w)" and "sum_list (map (unat \<circ> snd) (miner_weights w)) = window_weight w"
    and "fst ` set (miner_weights w) = sr_wallet_address ` set (shares w)"
    by (simp_all add: hm_sum_def)
  show "unat x = weight_of w a" if "(a, x) \<in> set (miner_weights w)"
  proof -
    have "hm_get (miner_weights w) a = Some x" using that ok by simp
    moreover have "unat (get_or_0 (miner_weights w) a) = weight_of w a" using acc by blast
    ultimately show ?thesis by (simp add: get_or_0_def)
  qed
qed

lemma total_weight_exact: "window_weight w < 2 ^ 64 \<Longrightarrow> unat (total_weight w) = window_weight w"
  by (simp add: total_weight_def window_weight_def unat_sat_sum comp_def)

lemma sum_filter_pos: "sum_list (map (unat \<circ> snd) (filter (\<lambda>p. snd p > 0) xs)) = sum_list (map (unat \<circ> snd) (xs :: ('a \<times> u64) list))"
  by (induction xs) (auto simp: word_gt_0)

lemma sum_sort_key: "sum_list (map f (sort_key k xs)) = sum_list (map (f :: 'a \<Rightarrow> nat) xs)"
  by (metis mset_map mset_sort sum_mset_sum_list)

lemma distinct_map_sort: "distinct (map f (sort_key k xs)) = distinct (map f xs)"
proof -
  have "mset (map f (sort_key k xs)) = mset (map f xs)" by simp
  then show ?thesis by (rule mset_eq_imp_distinct_iff)
qed

lemma pplns_split_correct:
  assumes small: "window_weight (share_window l) < 2 ^ 64" and ne: "shares (share_window l) \<noteq> []"
  shows "sum_list (map (unat \<circ> snd) (pplns_split l gross fb)) \<le> unat gross"
    and "unat gross < sum_list (map (unat \<circ> snd) (pplns_split l gross fb)) + card (sr_wallet_address ` set (shares (share_window l)))"
    and "(a, g) \<in> set (pplns_split l gross fb) \<Longrightarrow>
      unat g = unat gross * weight_of (share_window l) a div window_weight (share_window l) \<and> g > 0"
    and "distinct (map fst (pplns_split l gross fb))"
proof -
  let ?w = "share_window l" and ?m = "miner_weights (share_window l)" and ?t = "total_weight (share_window l)"
  let ?xs = "map (\<lambda>(addr, x). (addr, miner_share gross x ?t)) ?m"
  note M = miner_weights_correct [OF small] and T = total_weight_exact [OF small]
  obtain s0 where s0: "s0 \<in> set (shares ?w)" using ne by (cases "shares ?w") auto
  have "unat (weight s0) \<le> window_weight ?w"
    unfolding window_weight_def using s0 by (intro member_le_sum_list) auto
  then have tp: "0 < window_weight ?w" using weight_pos [of s0] by linarith
  then have t0: "?t \<noteq> 0" using T by auto
  have m0: "?m \<noteq> []" using M(4) s0 by auto
  have sp: "pplns_split l gross fb = sort_key (\<lambda>p. - 1 - snd p) (filter (\<lambda>p. snd p > 0) ?xs)"
    using t0 m0 by (simp add: pplns_split_def Let_def)
  have le: "x \<le> ?t" if "(a, x) \<in> set ?m" for a x
  proof -
    have "unat x \<le> sum_list (map (unat \<circ> snd) ?m)" using that by (intro member_le_sum_list) force+
    then show ?thesis using M(2) T by (simp add: word_le_nat_alt)
  qed
  have val: "unat (miner_share gross x ?t) = unat gross * unat x div window_weight ?w" if "(a, x) \<in> set ?m" for a x
    using unat_miner_share [OF le [OF that] t0] T by simp
  have sum: "sum_list (map (unat \<circ> snd) (pplns_split l gross fb))
      = sum_list (map (\<lambda>x. unat gross * x div window_weight ?w) (map (unat \<circ> snd) ?m))"
  proof -
    have "map (unat \<circ> snd) ?xs = map (\<lambda>x. unat gross * x div window_weight ?w) (map (unat \<circ> snd) ?m)"
      by (auto simp: val)
    then show ?thesis by (simp only: sp sum_sort_key sum_filter_pos)
  qed
  have "unat gross * window_weight ?w div window_weight ?w = unat gross" using tp by simp
  with sum_div_le [of "unat gross" "window_weight ?w" "map (unat \<circ> snd) ?m"] sum M(2)
  show "sum_list (map (unat \<circ> snd) (pplns_split l gross fb)) \<le> unat gross" by simp
  have len: "length ?m = card (sr_wallet_address ` set (shares ?w))"
    using M(1,4) distinct_card [of "map fst ?m"] by simp
  show "unat gross < sum_list (map (unat \<circ> snd) (pplns_split l gross fb)) + card (sr_wallet_address ` set (shares ?w))"
    using sum_div_gt [of "window_weight ?w" "map (unat \<circ> snd) ?m" "unat gross"] tp m0 M(2) sum len
    by (simp add: mult.commute)
  show "unat g = unat gross * weight_of ?w a div window_weight ?w \<and> g > 0" if "(a, g) \<in> set (pplns_split l gross fb)"
    using that val M(3) by (auto simp: sp)
  have "distinct (map fst ?xs)" using M(1) by (simp add: comp_def split_beta)
  then show "distinct (map fst (pplns_split l gross fb))"
    unfolding sp by (simp only: distinct_map_sort distinct_map_filter)
qed

text \<open>
  C37. A found block is credited fairly and within its reward. The winning share enters the window,
  and then one unpaid entry per miner in the window (with a positive part) is appended: its gross part
  is the miner's weight in proportion to the window, rounded down; net and pool fee add up to it. All
  entries together stay within the block reward, and what remains undistributed is less than one atom
  per miner.
\<close>

theorem credit_block_fair:
  assumes small: "window_weight (window_push (share_window l) winning) < 2 ^ 64"
  shows "\<exists>new. entries (credit_block l winning h bh gross) = entries l @ new
    \<and> share_window (credit_block l winning h bh gross) = window_push (share_window l) winning
    \<and> sum_list (map (\<lambda>e. unat (net_payout_atoms e) + unat (pool_fee_atoms e)) new) \<le> unat gross
    \<and> unat gross < sum_list (map (\<lambda>e. unat (net_payout_atoms e) + unat (pool_fee_atoms e)) new)
        + card (sr_wallet_address ` set (shares (window_push (share_window l) winning)))
    \<and> distinct (map miner_address new)
    \<and> (\<forall>e \<in> set new. \<not> paid_out e \<and> pe_block_hash e = bh
         \<and> unat (gross_reward_atoms e) = unat gross * weight_of (window_push (share_window l) winning) (miner_address e)
             div window_weight (window_push (share_window l) winning)
         \<and> unat (net_payout_atoms e) + unat (pool_fee_atoms e) = unat (gross_reward_atoms e))"
proof -
  let ?l = "push_share l winning" and ?w = "window_push (share_window l) winning"
  have sw: "share_window ?l = ?w" "entries ?l = entries l" by (simp_all add: push_share_def)
  have ne: "shares (share_window ?l) \<noteq> []" by (simp add: sw window_push_def)
  have fold: "foldl (\<lambda>l (addr, g). ledger_push l (new_payout_entry h bh addr g)) k ps
      = k\<lparr> entries := entries k @ map (\<lambda>(a, g). new_payout_entry h bh a g) ps \<rparr>" for k ps
    by (induction ps arbitrary: k) (auto simp: ledger_push_def)
  let ?ps = "pplns_split ?l gross (sr_wallet_address winning)"
  let ?new = "map (\<lambda>(a, g). new_payout_entry h bh a g) ?ps"
  note S = pplns_split_correct [where l = ?l and fb = "sr_wallet_address winning" and gross = gross, OF _ ne, unfolded sw, OF small]
  have sum: "sum_list (map (\<lambda>e. unat (net_payout_atoms e) + unat (pool_fee_atoms e)) ?new) = sum_list (map (unat \<circ> snd) ?ps)"
    by (simp add: comp_def split_beta entry_conserves)
  have fields: "miner_address (new_payout_entry h bh a g) = a" "gross_reward_atoms (new_payout_entry h bh a g) = g"
    "pe_block_hash (new_payout_entry h bh a g) = bh" "\<not> paid_out (new_payout_entry h bh a g)" for a g
    by (simp_all add: new_payout_entry_def split_beta)
  show ?thesis
  proof (intro exI [of _ ?new] conjI)
    show "entries (credit_block l winning h bh gross) = entries l @ ?new"
      "share_window (credit_block l winning h bh gross) = ?w"
      by (simp_all add: credit_block_def Let_def fold sw)
    show "distinct (map miner_address ?new)" using S(4) by (simp add: comp_def split_beta fields)
    show "\<forall>e \<in> set ?new. \<not> paid_out e \<and> pe_block_hash e = bh
         \<and> unat (gross_reward_atoms e) = unat gross * weight_of ?w (miner_address e) div window_weight ?w
         \<and> unat (net_payout_atoms e) + unat (pool_fee_atoms e) = unat (gross_reward_atoms e)"
      using S(3) by (auto simp: fields entry_conserves)
  qed (use S(1,2) sum in simp_all)
qed

definition demo_share :: "string \<Rightarrow> u8 \<Rightarrow> ShareRecord" where
  "demo_share a bits = \<lparr> sr_wallet_address = a, sr_worker_name = ''w'', sr_share_diff_bits = bits, submitted_at_unix = 0 \<rparr>"

theorem credit_block_fair_witness:
  "window_weight (window_push (share_window (push_share ledger_default (demo_share ''a'' 4))) (demo_share ''b'' 5)) < 2 ^ 64
   \<and> (\<exists>new. entries (credit_block (push_share ledger_default (demo_share ''a'' 4)) (demo_share ''b'' 5) 7 ''h'' 1000) = new
      \<and> sum_list (map (\<lambda>e. unat (net_payout_atoms e) + unat (pool_fee_atoms e)) new) \<le> 1000)"
proof -
  let ?l = "push_share ledger_default (demo_share ''a'' 4)"
  have small: "window_weight (window_push (share_window ?l) (demo_share ''b'' 5)) < 2 ^ 64"
    by (simp add: window_weight_def window_push_def push_share_def ledger_default_def new_window_def PPLNS_DEFAULT_N_def
        demo_share_def weight_def push_bit_eq_mult)
  have "entries ?l = []" by (simp add: push_share_def ledger_default_def)
  with small credit_block_fair [OF small, of 7 "''h''" 1000] show ?thesis by auto
qed

section \<open>Payouts\<close>

text \<open>The ledger only moves forward: entries keep everything but their paid flag, which is never
  withdrawn. \<open>newly_paid\<close> is the value flagged between two ledgers, \<open>newly_to\<close> the miners it went to.\<close>

definition advances :: "PayoutEntry list \<Rightarrow> PayoutEntry list \<Rightarrow> bool" where
  "advances es es' \<longleftrightarrow> list_all2 (\<lambda>e e'. e' = e \<or> e' = e\<lparr> paid_out := True \<rparr>) es es'"

fun newly_paid :: "PayoutEntry list \<Rightarrow> PayoutEntry list \<Rightarrow> nat" where
  "newly_paid (e # es) (e' # es') =
     (if paid_out e' \<and> \<not> paid_out e then unat (net_payout_atoms e) else 0) + newly_paid es es'"
| "newly_paid _ _ = 0"

fun newly_to :: "PayoutEntry list \<Rightarrow> PayoutEntry list \<Rightarrow> string set" where
  "newly_to (e # es) (e' # es') =
     (if paid_out e' \<and> \<not> paid_out e then {miner_address e} else {}) \<union> newly_to es es'"
| "newly_to _ _ = {}"

lemma advances_simps [simp]:
  "advances [] es' \<longleftrightarrow> es' = []"
  "advances (e # es) (e' # es') \<longleftrightarrow> (e' = e \<or> e' = e\<lparr> paid_out := True \<rparr>) \<and> advances es es'"
  by (auto simp: advances_def)

lemma advances_refl [simp]: "advances es es" "newly_paid es es = 0" "newly_to es es = {}"
  by (induction es) auto

lemma advances_Cons: "advances (e # es) xs \<longleftrightarrow> (\<exists>e' es'. xs = e' # es' \<and> (e' = e \<or> e' = e\<lparr> paid_out := True \<rparr>) \<and> advances es es')"
  by (cases xs) (auto simp: advances_def)

lemma advances_trans:
  "advances es es' \<Longrightarrow> advances es' es'' \<Longrightarrow>
    advances es es'' \<and> newly_paid es es'' = newly_paid es es' + newly_paid es' es''
    \<and> newly_to es es'' = newly_to es es' \<union> newly_to es' es''"
proof (induction es arbitrary: es' es'')
  case Nil
  then show ?case by simp
next
  case (Cons e es)
  from Cons.prems(1) obtain e1 es1 where 1: "es' = e1 # es1" "e1 = e \<or> e1 = e\<lparr> paid_out := True \<rparr>" "advances es es1"
    by (auto simp: advances_Cons)
  with Cons.prems(2) obtain e2 es2 where 2: "es'' = e2 # es2" "e2 = e1 \<or> e2 = e1\<lparr> paid_out := True \<rparr>" "advances es1 es2"
    by (auto simp: advances_Cons)
  have IH: "advances es es2" "newly_paid es es2 = newly_paid es es1 + newly_paid es1 es2"
    "newly_to es es2 = newly_to es es1 \<union> newly_to es1 es2" using Cons.IH [OF 1(3) 2(3)] by blast+
  have f: "net_payout_atoms e1 = net_payout_atoms e" "miner_address e1 = miner_address e"
    "paid_out e \<longrightarrow> paid_out e1" "paid_out e1 \<longrightarrow> paid_out e2" "e2 = e \<or> e2 = e\<lparr> paid_out := True \<rparr>"
    using 1(2) 2(2) by auto
  have "newly_paid (e # es) (e2 # es2) = newly_paid (e # es) (e1 # es1) + newly_paid (e1 # es1) (e2 # es2)"
    using f(1,3,4) IH(2) by (cases "paid_out e"; cases "paid_out e1"; cases "paid_out e2") simp_all
  moreover have "newly_to (e # es) (e2 # es2) = newly_to (e # es) (e1 # es1) \<union> newly_to (e1 # es1) (e2 # es2)"
    using f(2-4) IH(3) by (cases "paid_out e"; cases "paid_out e1"; cases "paid_out e2") simp_all
  ultimately show ?case using f(5) IH(1) by (simp add: 1(1) 2(1))
qed

lemma mark_loop_done: "marked \<ge> amount \<Longrightarrow> mark_loop m amount marked es = (es, marked)"
  by (induction es) auto

lemma payable_loop_bounds: "p \<le> mx \<Longrightarrow> p \<le> payable_loop m mx p es \<and> payable_loop m mx p es \<le> mx"
proof (induction es arbitrary: p)
  case Nil
  then show ?case by simp
next
  case (Cons e es)
  let ?n = "sat_add p (net_payout_atoms e)"
  have pn: "p \<le> ?n" using unat_u64_le [of p] by (simp add: word_le_nat_alt unat_sat_add)
  show ?case
  proof (cases "paid_out e \<or> miner_address e \<noteq> m")
    case True
    with Cons.IH [OF Cons.prems] show ?thesis by simp
  next
    case owed: False
    show ?thesis
    proof (cases "?n > mx")
      case True
      with owed Cons.prems show ?thesis by simp
    next
      case False
      then have "?n \<le> mx" by simp
      from Cons.IH [OF this] have "p \<le> payable_loop m mx ?n es" "payable_loop m mx ?n es \<le> mx"
        using pn order_trans by blast+
      with owed False show ?thesis by simp
    qed
  qed
qed

text \<open>Marking what was found payable flags entries of exactly that value, also when further entries
  were appended in between.\<close>

lemma mark_payable:
  assumes "p \<le> mx" and "mx \<noteq> - 1"
  shows "\<exists>es'. mark_loop m (payable_loop m mx p es) p (es @ extra) = (es' @ extra, payable_loop m mx p es)
    \<and> advances es es' \<and> newly_paid es es' + unat p = unat (payable_loop m mx p es) \<and> newly_to es es' \<subseteq> {m}"
  using assms(1)
proof (induction es arbitrary: p)
  case Nil
  then show ?case by (simp add: mark_loop_done)
next
  case (Cons e es)
  let ?P = "payable_loop m mx p (e # es)" and ?n = "sat_add p (net_payout_atoms e)"
  have mx: "unat mx < 2 ^ 64 - 1"
    using assms(2) unat_u64_le [of mx] by (simp add: word_unat_eq_iff unat_minus_one_word)
  show ?case
  proof (cases "paid_out e \<or> miner_address e \<noteq> m")
    case True
    then have P: "?P = payable_loop m mx p es" by simp
    from Cons.IH [OF Cons.prems] obtain es' where IH:
      "mark_loop m ?P p (es @ extra) = (es' @ extra, ?P)" "advances es es'"
      "newly_paid es es' + unat p = unat ?P" "newly_to es es' \<subseteq> {m}" unfolding P by blast
    with True show ?thesis by (intro exI [of _ "e # es'"]) auto
  next
    case owed: False
    show ?thesis
    proof (cases "?n > mx")
      case True
      with owed have "?P = p" by simp
      then show ?thesis by (intro exI [of _ "e # es"]) (simp add: mark_loop_done)
    next
      case False
      then have P: "?P = payable_loop m mx ?n es" using owed by simp
      have n: "?n \<le> mx" using False by simp
      then have un: "unat ?n = unat p + unat (net_payout_atoms e)"
        using mx by (simp add: word_le_nat_alt unat_sat_add min_def split: if_splits)
      show ?thesis
      proof (cases "p \<ge> ?P")
        case True
        with payable_loop_bounds [OF n, of m es] P un have "?P = p" by (simp add: word_le_nat_alt word_unat_eq_iff)
        then show ?thesis by (intro exI [of _ "e # es"]) (simp add: mark_loop_done)
      next
        case more: False
        from Cons.IH [OF n] obtain es' where IH: "mark_loop m ?P ?n (es @ extra) = (es' @ extra, ?P)" "advances es es'"
          "newly_paid es es' + unat ?n = unat ?P" "newly_to es es' \<subseteq> {m}" unfolding P by blast
        have "mark_loop m ?P p ((e # es) @ extra) = ((e\<lparr> paid_out := True \<rparr> # es') @ extra, ?P)"
          using owed more IH(1) by simp
        with owed IH(2-4) un show ?thesis by (intro exI [of _ "e\<lparr> paid_out := True \<rparr> # es'"]) auto
      qed
    qed
  qed
qed

definition broadcast_accepted :: "broadcast_outcome \<Rightarrow> bool" where
  "broadcast_accepted r \<longleftrightarrow> (case r of BroadcastOk \<Rightarrow> True
     | BroadcastRejected msg \<Rightarrow> sublist ''already in the mempool'' msg | BroadcastNotRun \<Rightarrow> False)"

lemma pay_miner_cases:
  assumes "pay_miner cli l w m payable = (r, l', w')"
  obtains "r = None" "l' = l"
    | w1 path where "r = Some (sat_add payable MIN_RELAY_FEE_ATOMS)" "l' = fst (mark_paid_up_to l m payable)"
        "broadcast_accepted (fst (cli_broadcast cli w1 path))"
proof -
  obtain a w1 where s: "cli_send cli w m payable = (a, w1)" by (metis surj_pair)
  show ?thesis
  proof (cases a)
    case None
    with assms s that(1) show ?thesis by (simp add: pay_miner_def)
  next
    case (Some path)
    obtain b w2 where b: "cli_broadcast cli w1 path = (b, w2)" by (metis surj_pair)
    show ?thesis
      using assms s Some b that(1) that(2) [of w1 path]
      by (cases b) (auto simp: pay_miner_def broadcast_accepted_def Let_def split: if_splits)
  qed
qed

lemma mark_paid_payable:
  assumes "mx \<noteq> - 1" and "payable = payable_atoms_up_to l m mx"
  shows "advances (entries l) (entries (fst (mark_paid_up_to l m payable)))"
    and "newly_paid (entries l) (entries (fst (mark_paid_up_to l m payable))) = unat payable"
    and "newly_to (entries l) (entries (fst (mark_paid_up_to l m payable))) \<subseteq> {m}"
    and "share_window (fst (mark_paid_up_to l m payable)) = share_window l"
proof -
  have "0 \<le> mx" by simp
  from mark_payable [OF this assms(1), of m "entries l" "[]"] obtain es' where
    e: "mark_loop m payable 0 (entries l) = (es', payable)" and a: "advances (entries l) es'"
      "newly_paid (entries l) es' = unat payable" "newly_to (entries l) es' \<subseteq> {m}"
    by (auto simp: assms(2) payable_atoms_up_to_def)
  have "fst (mark_paid_up_to l m payable) = l\<lparr> entries := es' \<rparr>" by (simp add: mark_paid_up_to_def e)
  with a show "advances (entries l) (entries (fst (mark_paid_up_to l m payable)))"
    "newly_paid (entries l) (entries (fst (mark_paid_up_to l m payable))) = unat payable"
    "newly_to (entries l) (entries (fst (mark_paid_up_to l m payable))) \<subseteq> {m}"
    "share_window (fst (mark_paid_up_to l m payable)) = share_window l" by simp_all
qed

lemma finite_newly_to [simp]: "finite (newly_to es es')"
  by (induction es es' rule: newly_to.induct) auto

lemma pay_loop_bounded:
  "pay_loop cli l w sp due = (l', w') \<Longrightarrow>
    advances (entries l) (entries l') \<and> share_window l' = share_window l
    \<and> newly_paid (entries l) (entries l') + 10000 * card (newly_to (entries l) (entries l')) \<le> unat sp
    \<and> newly_to (entries l) (entries l') \<subseteq> fst ` set due
    \<and> ((\<forall>w p. \<not> broadcast_accepted (fst (cli_broadcast cli w p))) \<longrightarrow> l' = l)"
proof (induction due arbitrary: l w sp)
  case Nil
  then show ?case by simp
next
  case (Cons d due)
  obtain m pend where d: "d = (m, pend)" by (metis surj_pair)
  let ?fee = "MIN_RELAY_FEE_ATOMS" and ?mx = "sat_sub sp MIN_RELAY_FEE_ATOMS"
  let ?P = "payable_atoms_up_to l m ?mx"
  have fee: "unat ?fee = 10000" by (simp add: MIN_RELAY_FEE_ATOMS_def)
  show ?case
  proof (cases "sp \<le> ?fee")
    case True
    with Cons.prems d show ?thesis by simp
  next
    case False
    then have un: "unat ?mx = unat sp - 10000" "10000 < unat sp" using fee by (simp_all add: unat_sat_sub word_le_nat_alt)
    have mx: "?mx \<noteq> - 1" using un unat_u64_le [of sp] by (auto simp: word_unat_eq_iff unat_minus_one_word)
    show ?thesis
    proof (cases "?P = 0")
      case True
      with Cons False d have "pay_loop cli l w sp due = (l', w')" by simp
      from Cons.IH [OF this] d show ?thesis by auto
    next
      case pos: False
      obtain r l1 w1 where pm: "pay_miner cli l w m ?P = (r, l1, w1)" by (metis prod_cases3)
      from pm show ?thesis
      proof (cases rule: pay_miner_cases)
        case 1
        with Cons.prems False d pos pm have "pay_loop cli l w1 sp due = (l', w')" by simp
        from Cons.IH [OF this] d show ?thesis by auto
      next
        case (2 w2 path)
        let ?sp = "sat_sub sp (sat_add ?P ?fee)"
        note M = mark_paid_payable [OF mx refl, of l m]
        have "?P \<le> ?mx" using payable_loop_bounds [of 0 ?mx m "entries l"] by (simp add: payable_atoms_up_to_def)
        then have le: "unat ?P + 10000 \<le> unat sp" using un by (simp add: word_le_nat_alt)
        then have sp': "unat ?sp + unat ?P + 10000 = unat sp"
          using unat_u64_le [of sp] fee by (simp add: unat_sat_sub unat_sat_add min_def)
        from 2 Cons.prems False d pos pm have "pay_loop cli l1 w1 ?sp due = (l', w')" by (simp add: Let_def)
        note IH = Cons.IH [OF this]
        from IH have adv: "advances (entries l1) (entries l')" by blast
        note T = advances_trans [OF M(1), folded 2(2), OF adv]
        have "card (newly_to (entries l) (entries l')) \<le> 1 + card (newly_to (entries l1) (entries l'))"
        proof -
          have "card (newly_to (entries l) (entries l')) \<le> card (newly_to (entries l) (entries l1)) + card (newly_to (entries l1) (entries l'))"
            using T by (simp add: card_Un_le)
          moreover have "card (newly_to (entries l) (entries l1)) \<le> card {m}" using M(3) 2(2) by (intro card_mono) auto
          ultimately show ?thesis by simp
        qed
        moreover have "newly_paid (entries l) (entries l') = unat ?P + newly_paid (entries l1) (entries l')"
          using T M(2) 2(2) by simp
        moreover have "newly_to (entries l) (entries l') \<subseteq> fst ` set (d # due)" using T IH M(3) 2(2) d by auto
        ultimately show ?thesis using IH T M(4) 2(2,3) sp' by auto
      qed
    qed
  qed
qed

text \<open>What a miner is owed, as a number.\<close>

definition owed :: "PayoutEntry list \<Rightarrow> string \<Rightarrow> nat" where
  "owed es m = sum_list (map (unat \<circ> net_payout_atoms) (filter (owed_to m) es))"

lemma due_miners_owed:
  assumes "sum_list (map (unat \<circ> net_payout_atoms) (entries l)) < 2 ^ 64" and "(m, p) \<in> set (due_miners l threshold)"
  shows "unat p = owed (entries l) m" and "threshold \<le> p"
proof -
  let ?f = "filter (\<lambda>e. \<not> paid_out e) (entries l)"
  have "sum_list (map (unat \<circ> net_payout_atoms) (filter P xs)) \<le> sum_list (map (unat \<circ> net_payout_atoms) xs)" for P xs
    by (induction xs) auto
  then have "sum_list (map (unat \<circ> net_payout_atoms) ?f) < 2 ^ 64" using assms(1) order_le_less_trans by blast
  then have acc: "hm_ok (pending_map (entries l)) \<and> (\<forall>k. unat (get_or_0 (pending_map (entries l)) k) = owed (entries l) k)"
    using hm_accumulate_correct [of "[]" net_payout_atoms ?f miner_address]
    by (simp add: pending_map_def owed_def owed_to_def [abs_def] get_or_0_def conj_commute)
  have "hm_get (pending_map (entries l)) m = Some p" using assms(2) acc by (simp add: due_miners_def)
  then have "get_or_0 (pending_map (entries l)) m = p" by (simp add: get_or_0_def)
  with acc show "unat p = owed (entries l) m" by blast
  show "threshold \<le> p" using assms(2) by (simp add: due_miners_def)
qed


definition demo_cli :: "unit wallet_cli" where
  "demo_cli = \<lparr> cli_send = (\<lambda>w a v. (Some ''tx'', w)), cli_broadcast = (\<lambda>w p. (BroadcastOk, w)),
     save_ledger = (\<lambda>l w. w) \<rparr>"

definition demo_ledger :: PayoutLedger where
  "demo_ledger = ledger_default\<lparr> entries := [new_payout_entry 1 ''h'' ''a'' 100000, new_payout_entry 2 ''g'' ''b'' 200000] \<rparr>"


end
