(* ===== verification/Asset_State.thy ===== *)
theory Asset_State
  imports Asset_Codec
begin

text \<open>
  The ledger of the asset overlay: \<open>crates/tensorium-core/src/assets/state.rs\<close>. \<open>apply\<close> returns the
  result and the state after it. The \<open>+=\<close> and \<open>-=\<close> of the source are word operations; that none of
  them wraps, and that the \<open>unwrap\<close> after the balance check finds its entry, follows from the
  invariant. The lemmas show that every asset's balances add up to its supply after any sequence of
  operations, that only the holder can move units and that records of assets never change.
\<close>

section \<open>State and operations\<close>

datatype AssetKind = Fungible | NonFungible

record AssetInfo =
  info_kind :: AssetKind
  info_ticker :: string
  info_name :: string
  info_decimals :: u8
  info_supply :: u64
  info_issuer :: string
  info_royalty_bps :: u16
  info_royalty_addr :: string
  info_uri :: string
  info_content_hash :: bytes
  info_mint_height :: u64

datatype ApplyResult = Applied | Ignored string

record AssetState =
  assets :: "(bytes, AssetInfo) hashmap"
  ft_balances :: "(string \<times> bytes, u64) hashmap"
  nft_owner :: "(bytes, string) hashmap"

definition asset_state_default :: AssetState where
  "asset_state_default = \<lparr> assets = [], ft_balances = [], nft_owner = [] \<rparr>"

definition ft_balance :: "AssetState \<Rightarrow> string \<Rightarrow> bytes \<Rightarrow> u64" where
  "ft_balance st addr aid = get_or_0 (ft_balances st) (addr, aid)"

definition issued_info :: "IssueData \<Rightarrow> string \<Rightarrow> u64 \<Rightarrow> AssetInfo" where
  "issued_info d source ht =
     \<lparr> info_kind = Fungible, info_ticker = ticker d, info_name = issue_name d,
       info_decimals = decimals d, info_supply = issue_supply d, info_issuer = source,
       info_royalty_bps = 0, info_royalty_addr = [], info_uri = [],
       info_content_hash = replicate 32 0, info_mint_height = ht \<rparr>"

definition minted_info :: "NftMintData \<Rightarrow> string \<Rightarrow> u64 \<Rightarrow> AssetInfo" where
  "minted_info d source ht =
     \<lparr> info_kind = NonFungible, info_ticker = [], info_name = [],
       info_decimals = 0, info_supply = 1, info_issuer = source,
       info_royalty_bps = royalty_bps d, info_royalty_addr = royalty_addr d,
       info_uri = nft_uri d, info_content_hash = content_hash d, info_mint_height = ht \<rparr>"

definition apply_issue :: "AssetState \<Rightarrow> bytes \<Rightarrow> u64 \<Rightarrow> string \<Rightarrow> IssueData \<Rightarrow> ApplyResult \<times> AssetState" where
  "apply_issue st txid ht source d =
     (if hm_get (assets st) txid \<noteq> None then (Ignored ''asset_id exists'', st)
      else if decimals d > 18 then (Ignored ''decimals too high'', st)
      else (Applied, st\<lparr>
        assets := hm_insert txid (issued_info d source ht) (assets st),
        ft_balances := hm_insert (source, txid)
          (get_or_0 (ft_balances st) (source, txid) + issue_supply d) (ft_balances st) \<rparr>))"

definition apply_nft_mint :: "AssetState \<Rightarrow> bytes \<Rightarrow> u64 \<Rightarrow> string \<Rightarrow> NftMintData \<Rightarrow> ApplyResult \<times> AssetState" where
  "apply_nft_mint st txid ht source d =
     (if hm_get (assets st) txid \<noteq> None then (Ignored ''asset_id exists'', st)
      else if royalty_bps d > 10000 then (Ignored ''royalty too high'', st)
      else (Applied, st\<lparr>
        assets := hm_insert txid (minted_info d source ht) (assets st),
        nft_owner := hm_insert txid source (nft_owner st) \<rparr>))"

definition move_units :: "(string \<times> bytes, u64) hashmap \<Rightarrow> bytes \<Rightarrow> string \<Rightarrow> string \<Rightarrow> u64 \<Rightarrow> (string \<times> bytes, u64) hashmap" where
  "move_units m aid source dest amount =
     (let m' = hm_insert (source, aid) (get_or_0 m (source, aid) - amount) m in
      hm_insert (dest, aid) (get_or_0 m' (dest, aid) + amount) m')"

definition apply_transfer :: "AssetState \<Rightarrow> string \<Rightarrow> string option \<Rightarrow> TransferData \<Rightarrow> ApplyResult \<times> AssetState" where
  "apply_transfer st source dest_addr d =
     (case hm_get (assets st) (asset_id d) of
        None \<Rightarrow> (Ignored ''unknown asset'', st)
      | Some info \<Rightarrow>
          (case dest_addr of
             None \<Rightarrow> (Ignored ''bad dest output'', st)
           | Some dest \<Rightarrow>
               (case info_kind info of
                  Fungible \<Rightarrow>
                    if asset_amount d = 0 then (Ignored ''zero amount'', st)
                    else if ft_balance st source (asset_id d) < asset_amount d
                    then (Ignored ''insufficient balance'', st)
                    else (Applied, st\<lparr> ft_balances :=
                           move_units (ft_balances st) (asset_id d) source dest (asset_amount d) \<rparr>)
                | NonFungible \<Rightarrow>
                    if asset_amount d \<noteq> 1 then (Ignored ''nft amount must be 1'', st)
                    else if hm_get (nft_owner st) (asset_id d) \<noteq> Some source
                    then (Ignored ''not nft owner'', st)
                    else (Applied, st\<lparr> nft_owner := hm_insert (asset_id d) dest (nft_owner st) \<rparr>))))"

fun asset_apply :: "AssetState \<Rightarrow> bytes \<Rightarrow> u64 \<Rightarrow> string \<Rightarrow> string option \<Rightarrow> AssetOp \<Rightarrow> ApplyResult \<times> AssetState" where
  "asset_apply st txid ht source dest_addr (Issue d) = apply_issue st txid ht source d"
| "asset_apply st txid ht source dest_addr (NftMint d) = apply_nft_mint st txid ht source d"
| "asset_apply st txid ht source dest_addr (Transfer d) = apply_transfer st source dest_addr d"

section \<open>Sums over one asset\<close>

definition asset_total :: "bytes \<Rightarrow> (string \<times> bytes, u64) hashmap \<Rightarrow> nat" where
  "asset_total aid m = hm_sum unat (filter (\<lambda>p. snd (fst p) = aid) m)"

lemma filter_insert:
  "filter (\<lambda>p. P (fst p)) (hm_insert k v m) =
    (if P k then hm_insert k v (filter (\<lambda>p. P (fst p)) m) else filter (\<lambda>p. P (fst p)) m)"
  by (induction m) auto

lemma get_filter: "P k \<Longrightarrow> hm_get (filter (\<lambda>p. P (fst p)) m) k = hm_get m k"
  by (induction m) auto

lemma ok_filter: "hm_ok m \<Longrightarrow> hm_ok (filter (\<lambda>p. P (fst p)) m)"
  by (induction m) auto

text \<open>Writing one balance changes the total of its own asset by the difference.\<close>

lemma asset_total_insert:
  assumes "hm_ok m"
  shows "asset_total aid (hm_insert (a, aid) v m) + unat (get_or_0 m (a, aid)) = asset_total aid m + unat v"
    and "aid' \<noteq> aid \<Longrightarrow> asset_total aid' (hm_insert (a, aid) v m) = asset_total aid' m"
proof -
  let ?m = "filter (\<lambda>p. snd (fst p) = aid) m"
  have g: "hm_get ?m (a, aid) = hm_get m (a, aid)" by (rule get_filter) simp
  have ok: "hm_ok ?m" by (rule ok_filter [OF assms])
  have i: "filter (\<lambda>p. snd (fst p) = aid) (hm_insert (a, aid) v m) = hm_insert (a, aid) v ?m"
    by (simp add: filter_insert [where P = "\<lambda>k. snd k = aid"])
  show "asset_total aid (hm_insert (a, aid) v m) + unat (get_or_0 m (a, aid)) = asset_total aid m + unat v"
  proof (cases "hm_get m (a, aid)")
    case None
    then show ?thesis using g by (simp add: asset_total_def i get_or_0_def hm_sum_insert_new)
  next
    case (Some w)
    then show ?thesis using g ok by (simp add: asset_total_def i get_or_0_def hm_sum_insert_old)
  qed
  show "aid' \<noteq> aid \<Longrightarrow> asset_total aid' (hm_insert (a, aid) v m) = asset_total aid' m"
    by (simp add: asset_total_def filter_insert [where P = "\<lambda>k. snd k = aid'"])
qed

lemma balance_le_total: "unat (get_or_0 m (a, aid)) \<le> asset_total aid m"
proof (cases "hm_get m (a, aid)")
  case None
  then show ?thesis by (simp add: get_or_0_def)
next
  case (Some w)
  then have "hm_get (filter (\<lambda>p. snd (fst p) = aid) m) (a, aid) = Some w"
    using get_filter [of "\<lambda>k. snd k = aid" "(a, aid)" m] by simp
  with Some show ?thesis by (simp add: get_or_0_def asset_total_def hm_sum_member [where f = unat])
qed

lemma move_units_correct:
  fixes dest :: string
  assumes ok: "hm_ok m" and enough: "amount \<le> get_or_0 m (source, aid)" and small: "asset_total aid m < 2 ^ 64"
  defines "m' \<equiv> move_units m aid source dest amount"
  shows "hm_ok m'" and "asset_total aid' m' = asset_total aid' m"
    and "unat (get_or_0 m' (a, aid)) + (if a = source then unat amount else 0)
      = unat (get_or_0 m (a, aid)) + (if a = dest then unat amount else 0)"
    and "aid' \<noteq> aid \<Longrightarrow> get_or_0 m' (a, aid') = get_or_0 m (a, aid')"
proof -
  define m1 where "m1 = hm_insert (source, aid) (get_or_0 m (source, aid) - amount) m"
  have m': "m' = hm_insert (dest, aid) (get_or_0 m1 (dest, aid) + amount) m1"
    by (simp add: m'_def move_units_def m1_def Let_def)
  have ok1: "hm_ok m1" using ok by (simp add: m1_def)
  then show "hm_ok m'" by (simp add: m')
  have sub: "unat (get_or_0 m (source, aid) - amount) = unat (get_or_0 m (source, aid)) - unat amount"
    using enough by (simp add: unat_sub)
  have le: "unat amount \<le> unat (get_or_0 m (source, aid))" using enough by (simp add: word_le_nat_alt)
  have t1: "asset_total aid m1 + unat amount = asset_total aid m"
    using asset_total_insert(1) [OF ok, of aid source "get_or_0 m (source, aid) - amount"] sub le
    by (simp add: m1_def)
  have "unat (get_or_0 m1 (dest, aid)) + unat amount < 2 ^ 64"
    using balance_le_total [of m1 dest aid] t1 small by linarith
  then have add: "unat (get_or_0 m1 (dest, aid) + amount) = unat (get_or_0 m1 (dest, aid)) + unat amount"
    by (simp add: unat_word_ariths)
  show "asset_total aid' m' = asset_total aid' m"
  proof (cases "aid' = aid")
    case True
    then show ?thesis using asset_total_insert(1) [OF ok1, of aid dest "get_or_0 m1 (dest, aid) + amount"] add t1 by (simp add: m')
  next
    case False
    then show ?thesis using asset_total_insert(2) [OF ok1] asset_total_insert(2) [OF ok] by (simp add: m' m1_def)
  qed
  show "unat (get_or_0 m' (a, aid)) + (if a = source then unat amount else 0)
      = unat (get_or_0 m (a, aid)) + (if a = dest then unat amount else 0)"
    using add sub le by (auto simp: m' m1_def get_or_0_insert)
  show "aid' \<noteq> aid \<Longrightarrow> get_or_0 m' (a, aid') = get_or_0 m (a, aid')"
    by (simp add: m' m1_def get_or_0_insert)
qed

section \<open>The invariant\<close>

definition supply_of :: "AssetState \<Rightarrow> bytes \<Rightarrow> nat" where
  "supply_of st aid = (case hm_get (assets st) aid of
     Some info \<Rightarrow> if info_kind info = Fungible then unat (info_supply info) else 0 | None \<Rightarrow> 0)"

definition is_nft :: "AssetState \<Rightarrow> bytes \<Rightarrow> bool" where
  "is_nft st aid \<longleftrightarrow> (case hm_get (assets st) aid of Some info \<Rightarrow> info_kind info = NonFungible | None \<Rightarrow> False)"

definition info_ok :: "AssetInfo \<Rightarrow> bool" where
  "info_ok info \<longleftrightarrow> info_decimals info \<le> 18 \<and> info_royalty_bps info \<le> 10000
     \<and> (info_kind info = NonFungible \<longrightarrow> info_supply info = 1)"

definition asset_inv :: "AssetState \<Rightarrow> bool" where
  "asset_inv st \<longleftrightarrow> hm_ok (assets st) \<and> hm_ok (ft_balances st) \<and> hm_ok (nft_owner st)
     \<and> (\<forall>aid. asset_total aid (ft_balances st) = supply_of st aid)
     \<and> (\<forall>aid. (hm_get (nft_owner st) aid \<noteq> None) = is_nft st aid)
     \<and> (\<forall>aid info. hm_get (assets st) aid = Some info \<longrightarrow> info_ok info)"

lemma asset_invD:
  assumes "asset_inv st"
  shows "hm_ok (assets st)" "hm_ok (ft_balances st)" "hm_ok (nft_owner st)"
    "asset_total aid (ft_balances st) = supply_of st aid"
    "(hm_get (nft_owner st) aid \<noteq> None) = is_nft st aid"
    "hm_get (assets st) aid = Some info \<Longrightarrow> info_ok info"
  using assms unfolding asset_inv_def by blast+

lemma asset_inv_default: "asset_inv asset_state_default"
  by (simp add: asset_inv_def asset_state_default_def asset_total_def supply_of_def is_nft_def)

lemma supply_of_small: "supply_of st aid < 2 ^ 64"
  using unat_u64_lt by (simp add: supply_of_def split: option.splits)

lemma apply_issue_inv:
  assumes "asset_inv st"
  shows "asset_inv (snd (apply_issue st txid ht source d))"
proof (cases "hm_get (assets st) txid = None \<and> \<not> decimals d > 18")
  case False
  then show ?thesis using assms by (auto simp: apply_issue_def)
next
  case True
  let ?st = "snd (apply_issue st txid ht source d)" and ?m = "ft_balances st"
  note I = asset_invD [OF assms]
  have "supply_of st txid = 0" using True by (simp add: supply_of_def)
  then have z: "asset_total txid ?m = 0" "get_or_0 ?m (source, txid) = 0"
    using I(4) balance_le_total [of ?m source txid] by (simp_all add: unat_eq_zero)
  have tot: "asset_total aid (ft_balances ?st) = supply_of ?st aid" for aid
    using True z asset_total_insert(1) [OF I(2), of txid source "issue_supply d"]
      asset_total_insert(2) [OF I(2), of aid txid source "issue_supply d"] I(4) [of aid]
    by (cases "aid = txid") (auto simp: apply_issue_def supply_of_def issued_info_def)
  have st: "nft_owner ?st = nft_owner st"
    and as: "assets ?st = hm_insert txid (issued_info d source ht) (assets st)"
      "info_ok (issued_info d source ht)" "info_kind (issued_info d source ht) = Fungible"
    and fb: "\<exists>k v. ft_balances ?st = hm_insert k v ?m"
    using True by (auto simp: apply_issue_def info_ok_def issued_info_def not_less)
  have nft: "is_nft ?st aid = is_nft st aid" for aid using True as by (simp add: is_nft_def)
  have info: "hm_get (assets ?st) aid = Some i \<Longrightarrow> info_ok i" for aid i
    using as I(6) [of aid i] by (auto split: if_splits)
  have "hm_ok (assets ?st)" "hm_ok (ft_balances ?st)" "hm_ok (nft_owner ?st)" using I(1-3) as st fb by auto
  with tot nft info I(5) st show ?thesis unfolding asset_inv_def by simp
qed

lemma apply_nft_mint_inv:
  assumes "asset_inv st"
  shows "asset_inv (snd (apply_nft_mint st txid ht source d))"
proof (cases "hm_get (assets st) txid = None \<and> \<not> royalty_bps d > 10000")
  case False
  then show ?thesis using assms by (auto simp: apply_nft_mint_def)
next
  case True
  note I = asset_invD [OF assms]
  let ?st = "snd (apply_nft_mint st txid ht source d)"
  have "asset_total txid (ft_balances st) = 0" using I(4) [of txid] True by (simp add: supply_of_def)
  have as: "assets ?st = hm_insert txid (minted_info d source ht) (assets st)"
      "info_ok (minted_info d source ht)" "info_kind (minted_info d source ht) = NonFungible"
    and st: "ft_balances ?st = ft_balances st" "nft_owner ?st = hm_insert txid source (nft_owner st)"
    using True by (auto simp: apply_nft_mint_def info_ok_def minted_info_def not_less)
  have nft: "is_nft ?st aid = (aid = txid \<or> is_nft st aid)" for aid using as by (simp add: is_nft_def)
  have sup: "supply_of ?st aid = supply_of st aid" for aid using True as by (simp add: supply_of_def)
  have info: "hm_get (assets ?st) aid = Some i \<Longrightarrow> info_ok i" for aid i
    using as I(6) [of aid i] by (auto split: if_splits)
  have "hm_ok (assets ?st)" "hm_ok (ft_balances ?st)" "hm_ok (nft_owner ?st)" using I(1-3) as st by auto
  with sup nft info I(4,5) st show ?thesis unfolding asset_inv_def by simp
qed

lemma apply_transfer_cases:
  assumes "apply_transfer st source dest_addr d = (r, st')"
  obtains (ignored) why where "r = Ignored why" "st' = st"
    | (units) info dest where "r = Applied" "hm_get (assets st) (asset_id d) = Some info" "info_kind info = Fungible"
        "dest_addr = Some dest" "asset_amount d \<noteq> 0" "asset_amount d \<le> ft_balance st source (asset_id d)"
        "st' = st\<lparr> ft_balances := move_units (ft_balances st) (asset_id d) source dest (asset_amount d) \<rparr>"
    | (nft) info dest where "r = Applied" "hm_get (assets st) (asset_id d) = Some info" "info_kind info = NonFungible"
        "dest_addr = Some dest" "asset_amount d = 1" "hm_get (nft_owner st) (asset_id d) = Some source"
        "st' = st\<lparr> nft_owner := hm_insert (asset_id d) dest (nft_owner st) \<rparr>"
proof -
  show ?thesis
  proof (cases "hm_get (assets st) (asset_id d)")
    case None
    with assms show ?thesis by (auto simp: apply_transfer_def intro: ignored)
  next
    case (Some info)
    show ?thesis
    proof (cases dest_addr)
      case None
      with Some assms show ?thesis by (auto simp: apply_transfer_def intro: ignored)
    next
      case dest: (Some dest)
      show ?thesis
      proof (cases "info_kind info")
        case Fungible
        with Some dest assms show ?thesis
          by (auto simp: apply_transfer_def not_less split: if_splits intro: ignored units)
      next
        case NonFungible
        with Some dest assms show ?thesis
          by (auto simp: apply_transfer_def split: if_splits intro: ignored nft)
      qed
    qed
  qed
qed

lemma apply_transfer_inv:
  assumes "asset_inv st"
  shows "asset_inv (snd (apply_transfer st source dest_addr d))"
proof -
  note I = asset_invD [OF assms]
  obtain r st' where a: "apply_transfer st source dest_addr d = (r, st')" by (metis surj_pair)
  from a have "asset_inv st'"
  proof (cases rule: apply_transfer_cases)
    case ignored
    with assms show ?thesis by simp
  next
    case units
    have "asset_total (asset_id d) (ft_balances st) < 2 ^ 64" using I(4) supply_of_small by simp
    note mv = move_units_correct [OF I(2) units(6) [unfolded ft_balance_def] this]
    have "supply_of st' = supply_of st" "is_nft st' = is_nft st"
      by (simp_all add: fun_eq_iff units(7) supply_of_def is_nft_def)
    with I(1,3-6) mv(1,2) show ?thesis unfolding asset_inv_def by (simp add: units(7))
  next
    case nft
    then have "is_nft st (asset_id d)" by (simp add: is_nft_def)
    moreover have "supply_of st' = supply_of st" "is_nft st' = is_nft st"
      by (simp_all add: fun_eq_iff nft(7) supply_of_def is_nft_def)
    ultimately show ?thesis using I unfolding asset_inv_def by (simp add: nft(7))
  qed
  with a show ?thesis by simp
qed

lemma asset_apply_inv: "asset_inv st \<Longrightarrow> asset_inv (snd (asset_apply st txid ht source dest_addr x))"
  by (cases x) (simp_all add: apply_issue_inv apply_nft_mint_inv apply_transfer_inv)

section \<open>Histories\<close>

type_synonym asset_event = "bytes \<times> u64 \<times> string \<times> string option \<times> AssetOp"

definition asset_step :: "AssetState \<Rightarrow> asset_event \<Rightarrow> AssetState" where
  "asset_step st e = (case e of (txid, ht, source, dest, x) \<Rightarrow> snd (asset_apply st txid ht source dest x))"

definition asset_run :: "AssetState \<Rightarrow> asset_event list \<Rightarrow> AssetState" where
  "asset_run = foldl asset_step"

lemma asset_run_inv: "asset_inv st \<Longrightarrow> asset_inv (asset_run st evs)"
  unfolding asset_run_def
  by (induction evs arbitrary: st) (auto simp: asset_step_def asset_apply_inv split: prod.splits)

text \<open>
  C15. Asset units are neither created nor lost: after any history of operations from the empty
  state, the balances of a fungible asset add up to exactly the supply it was issued with, a
  non-fungible asset has exactly one owner and no balances, and nothing is held of an asset that was
  never issued.
\<close>

theorem asset_conservation:
  "(case hm_get (assets (asset_run asset_state_default evs)) aid of
      None \<Rightarrow> asset_total aid (ft_balances (asset_run asset_state_default evs)) = 0
        \<and> hm_get (nft_owner (asset_run asset_state_default evs)) aid = None
    | Some info \<Rightarrow>
        (case info_kind info of
           Fungible \<Rightarrow> asset_total aid (ft_balances (asset_run asset_state_default evs)) = unat (info_supply info)
             \<and> hm_get (nft_owner (asset_run asset_state_default evs)) aid = None
         | NonFungible \<Rightarrow> asset_total aid (ft_balances (asset_run asset_state_default evs)) = 0
             \<and> hm_get (nft_owner (asset_run asset_state_default evs)) aid \<noteq> None))"
  using asset_invD(4,5) [OF asset_run_inv [OF asset_inv_default, of evs], of aid]
  by (auto simp: supply_of_def is_nft_def split: option.splits AssetKind.splits)

lemma get_or_0_fresh: "asset_total aid m = 0 \<Longrightarrow> get_or_0 m (a, aid) = 0"
  using balance_le_total [of m a aid] by (simp add: unat_eq_zero)

text \<open>
  Who can change what. An ignored operation changes nothing, and the record of an issued asset
  never changes. A balance goes down only when its holder is the source of a transfer of that asset,
  by exactly the transferred amount; it goes up only for the issuer of a new asset, by its supply, or
  for the destination of a transfer, by the amount. An NFT changes hands only from its owner to the
  destination of the owner's transfer.
\<close>

theorem asset_apply_effect:
  assumes "asset_inv st" and "asset_apply st txid ht source dest_addr x = (r, st')"
  shows "(r \<noteq> Applied \<longrightarrow> st' = st)
    \<and> (\<forall>aid info. hm_get (assets st) aid = Some info \<longrightarrow> hm_get (assets st') aid = Some info)
    \<and> (\<forall>a aid. ft_balance st' a aid \<noteq> ft_balance st a aid \<longrightarrow>
        (\<exists>d. x = Issue d \<and> aid = txid \<and> a = source \<and> hm_get (assets st) aid = None
           \<and> ft_balance st a aid = 0 \<and> ft_balance st' a aid = issue_supply d)
      \<or> (\<exists>d dest. x = Transfer d \<and> aid = asset_id d \<and> dest_addr = Some dest \<and> a \<in> {source, dest} \<and>
           unat (ft_balance st' a aid) + (if a = source then unat (asset_amount d) else 0)
             = unat (ft_balance st a aid) + (if a = dest then unat (asset_amount d) else 0)))
    \<and> (\<forall>aid o1. hm_get (nft_owner st) aid = Some o1 \<and> hm_get (nft_owner st') aid \<noteq> Some o1 \<longrightarrow>
        o1 = source \<and> hm_get (nft_owner st') aid = dest_addr \<and> (\<exists>d. x = Transfer d \<and> asset_id d = aid))"
proof (cases x)
  case (Issue d)
  note I = asset_invD [OF assms(1)]
  have "hm_get (assets st) txid = None \<Longrightarrow> get_or_0 (ft_balances st) (source, txid) = 0"
    using I(4) [of txid] by (intro get_or_0_fresh) (simp add: supply_of_def)
  with assms(2) Issue show ?thesis
    by (auto simp: apply_issue_def ft_balance_def get_or_0_insert split: if_splits)
next
  case (NftMint d)
  note I = asset_invD [OF assms(1)]
  have "hm_get (assets st) txid = None \<Longrightarrow> hm_get (nft_owner st) txid = None"
    using I(5) [of txid] by (simp add: is_nft_def)
  with assms(2) NftMint show ?thesis
    by (auto simp: apply_nft_mint_def ft_balance_def split: if_splits)
next
  case (Transfer d)
  note I = asset_invD [OF assms(1)]
  from assms(2) Transfer have "apply_transfer st source dest_addr d = (r, st')" by simp
  then show ?thesis
  proof (cases rule: apply_transfer_cases)
    case ignored
    then show ?thesis by auto
  next
    case (units info dest)
    have small: "asset_total (asset_id d) (ft_balances st) < 2 ^ 64" using I(4) supply_of_small by simp
    note mv = move_units_correct(3,4) [OF I(2) units(6) [unfolded ft_balance_def] small, where dest = dest]
    have eq: "unat (ft_balance st' a (asset_id d)) + (if a = source then unat (asset_amount d) else 0)
        = unat (ft_balance st a (asset_id d)) + (if a = dest then unat (asset_amount d) else 0)" for a
      using mv(1) by (simp add: units(7) ft_balance_def)
    have at: "aid = asset_id d \<and> a \<in> {source, dest}" if "ft_balance st' a aid \<noteq> ft_balance st a aid" for a aid
      using mv(1) [of a] mv(2) that
      by (cases "aid = asset_id d") (auto simp: units(7) ft_balance_def word_unat_eq_iff split: if_splits)
    have same: "assets st' = assets st" "nft_owner st' = nft_owner st" by (simp_all add: units(7))
    have bal: "\<exists>d dest. x = Transfer d \<and> aid = asset_id d \<and> dest_addr = Some dest \<and> a \<in> {source, dest} \<and>
           unat (ft_balance st' a aid) + (if a = source then unat (asset_amount d) else 0)
             = unat (ft_balance st a aid) + (if a = dest then unat (asset_amount d) else 0)"
      if "ft_balance st' a aid \<noteq> ft_balance st a aid" for a aid
      using at [OF that] eq [of a] Transfer units(4) by (intro exI [of _ d] exI [of _ dest]) simp
    show ?thesis
      using bal by (intro conjI allI impI) (simp_all add: same units(1))
  next
    case (nft info dest)
    with Transfer show ?thesis by (auto simp: ft_balance_def)
  qed
qed

definition demo_mint :: AssetOp where
  "demo_mint = NftMint \<lparr> collection_id = replicate 32 0, royalty_bps = 500, royalty_addr = ''c'',
     nft_uri = ''ipfs://Qm'', content_hash = replicate 32 1 \<rparr>"

theorem asset_apply_effect_witness:
  "\<exists>st'. asset_apply (asset_run asset_state_default [([1], 1, ''alice'', None, demo_mint)]) [2] 2 ''alice'' (Some ''bob'')
       (Transfer \<lparr> asset_id = [1], asset_amount = 1, dest_output_index = 0 \<rparr>) = (Applied, st')
     \<and> hm_get (nft_owner st') [1] = Some ''bob''"
proof -
  let ?st = "asset_run asset_state_default [([1], 1, ''alice'', None, demo_mint)]"
  let ?x = "Transfer \<lparr> asset_id = [1], asset_amount = 1, dest_output_index = 0 \<rparr>"
  have st: "hm_get (nft_owner ?st) [1] = Some ''alice''"
    by (simp add: asset_run_def asset_step_def demo_mint_def apply_nft_mint_def asset_state_default_def)
  have "fst (asset_apply ?st [2] 2 ''alice'' (Some ''bob'') ?x) = Applied"
    and ch: "hm_get (nft_owner (snd (asset_apply ?st [2] 2 ''alice'' (Some ''bob'') ?x))) [1] \<noteq> Some ''alice''"
    by (simp_all add: asset_run_def asset_step_def demo_mint_def apply_nft_mint_def asset_state_default_def
        apply_transfer_def minted_info_def)
  then obtain st' where a: "asset_apply ?st [2] 2 ''alice'' (Some ''bob'') ?x = (Applied, st')" by (metis prod.collapse)
  from asset_apply_effect [OF asset_run_inv [OF asset_inv_default] a] st ch a show ?thesis by auto
qed

end
