(* ===== verification/Asset_Indexer.thy ===== *)
theory Asset_Indexer
  imports Asset_State
begin

text \<open>
  The asset indexer: \<open>crates/tensorium-indexer/src/index.rs\<close> (state, blocks, checkpoints),
  \<open>sync.rs\<close> (scanning and reorganisations) and \<open>store.rs\<close> (the snapshot written to disk). The
  \<open>fetch\<close> closure of \<open>scan\<close> talks to a node: it is an argument that threads a state \<open>'w\<close> of its own,
  so that two calls for one height may answer differently. \<open>scan\<close> returns its result, the indexer
  (which it may have changed before an error) and the state of \<open>fetch\<close>. JSON text is not modelled: a
  snapshot is the record that \<open>serde\<close> writes and reads.

  The lemmas show that an indexer always equals the replay of a chain from its genesis, across
  reorganisations, checkpoint rollbacks and failing fetches, and that a saved snapshot restores it.
\<close>

section \<open>State\<close>

record HistoryEntry =
  he_height :: u64
  he_txid :: string
  he_op :: string
  he_asset_id :: string
  he_from :: string
  he_to :: string
  he_amount :: u64

type_synonym history_map = "(string, HistoryEntry list) hashmap"

record CheckpointSnap =
  cs_state :: AssetState
  cs_outpoints :: "(string, string) hashmap"
  cs_history :: history_map
  cs_last_height :: u64
  cs_last_hash :: string

record Indexer =
  ix_state :: AssetState
  ix_outpoints :: "(string, string) hashmap"
  ix_history :: history_map
  last_height :: u64
  last_hash :: string
  scanned_any :: bool
  checkpoint :: "(u64 \<times> string \<times> CheckpointSnap) option"

definition indexer_default :: Indexer where
  "indexer_default = \<lparr> ix_state = asset_state_default, ix_outpoints = [], ix_history = [],
     last_height = 0, last_hash = [], scanned_any = False, checkpoint = None \<rparr>"

definition index_outpoint_key :: "ext \<Rightarrow> Hash256 \<Rightarrow> u32 \<Rightarrow> string" where
  "index_outpoint_key X txid vout = to_hex X txid @ '':'' @ show_nat (unat vout)"

definition snapshot :: "Indexer \<Rightarrow> CheckpointSnap" where
  "snapshot idx = \<lparr> cs_state = ix_state idx, cs_outpoints = ix_outpoints idx,
     cs_history = ix_history idx, cs_last_height = last_height idx, cs_last_hash = last_hash idx \<rparr>"

definition restore :: "Indexer \<Rightarrow> CheckpointSnap \<Rightarrow> Indexer" where
  "restore idx snap = idx\<lparr> ix_state := cs_state snap, ix_outpoints := cs_outpoints snap,
     ix_history := cs_history snap, last_height := cs_last_height snap,
     last_hash := cs_last_hash snap, scanned_any := True \<rparr>"

section \<open>Applying blocks\<close>

fun record_outputs_loop :: "ext \<Rightarrow> Hash256 \<Rightarrow> nat \<Rightarrow> TxOutput list \<Rightarrow> (string, string) hashmap \<Rightarrow> (string, string) hashmap" where
  "record_outputs_loop X txid vout [] m = m"
| "record_outputs_loop X txid vout (out # outs) m =
     record_outputs_loop X txid (vout + 1) outs
       (case extract_address X (script_pubkey out) of
          Some addr \<Rightarrow> hm_insert (index_outpoint_key X txid (of_nat vout)) addr m
        | None \<Rightarrow> m)"

definition record_outputs :: "ext \<Rightarrow> Indexer \<Rightarrow> Transaction \<Rightarrow> Indexer" where
  "record_outputs X idx tx =
     idx\<lparr> ix_outpoints := record_outputs_loop X (tx_id tx) 0 (outputs tx) (ix_outpoints idx) \<rparr>"

definition resolve_source :: "ext \<Rightarrow> Indexer \<Rightarrow> Transaction \<Rightarrow> string option" where
  "resolve_source X idx tx =
     (case inputs tx of
        [] \<Rightarrow> None
      | first # _ \<Rightarrow>
          hm_get (ix_outpoints idx)
            (index_outpoint_key X (op_txid (previous_output first)) (output_index (previous_output first))))"

definition push_history :: "string \<Rightarrow> HistoryEntry \<Rightarrow> history_map \<Rightarrow> history_map" where
  "push_history a e m = hm_insert a ((case hm_get m a of None \<Rightarrow> [] | Some es \<Rightarrow> es) @ [e]) m"

definition record_history :: "ext \<Rightarrow> Indexer \<Rightarrow> u64 \<Rightarrow> bytes \<Rightarrow> string \<Rightarrow> string option \<Rightarrow> AssetOp \<Rightarrow> Indexer" where
  "record_history X idx ht txid source dest x =
     (let txid_hex = to_hex X (Hash256 txid);
          (kind, aid, to, amount) =
            (case x of
               Issue d \<Rightarrow> (''issue'', txid, [], issue_supply d)
             | NftMint _ \<Rightarrow> (''nft_mint'', txid, [], 1)
             | Transfer d \<Rightarrow> (''transfer'', asset_id d, (case dest of None \<Rightarrow> [] | Some s \<Rightarrow> s), asset_amount d));
          entry = \<lparr> he_height = ht, he_txid = txid_hex, he_op = kind,
                    he_asset_id = to_hex X (Hash256 aid), he_from = source, he_to = to, he_amount = amount \<rparr>;
          hist = push_history source entry (ix_history idx)
      in idx\<lparr> ix_history := (if to \<noteq> [] \<and> to \<noteq> source then push_history to entry hist else hist) \<rparr>)"

definition resolve_dest :: "ext \<Rightarrow> Transaction \<Rightarrow> AssetOp \<Rightarrow> string option" where
  "resolve_dest X tx x =
     (case x of
        Transfer d \<Rightarrow>
          if unat (dest_output_index d) < length (outputs tx)
          then extract_address X (script_pubkey (outputs tx ! unat (dest_output_index d))) else None
      | _ \<Rightarrow> None)"

definition index_tx :: "ext \<Rightarrow> u64 \<Rightarrow> Indexer \<Rightarrow> Transaction \<Rightarrow> Indexer" where
  "index_tx X ht idx tx =
     (let idx' =
        (case (extract_asset_op tx, resolve_source X idx tx) of
           (Some x, Some src) \<Rightarrow>
             let dest = resolve_dest X tx x;
                 (result, st) = asset_apply (ix_state idx) (hash_bytes (tx_id tx)) ht src dest x;
                 idx1 = idx\<lparr> ix_state := st \<rparr>
             in if result = Applied
                then record_history X idx1 ht (hash_bytes (tx_id tx)) src dest x else idx1
         | _ \<Rightarrow> idx)
      in record_outputs X idx' tx)"

definition index_block :: "ext \<Rightarrow> Indexer \<Rightarrow> Block \<Rightarrow> u64 \<Rightarrow> Indexer" where
  "index_block X idx b ht =
     (foldl (index_tx X ht) idx (transactions b))\<lparr> last_height := ht, scanned_any := True \<rparr>"

section \<open>Scanning\<close>

definition CHECKPOINT_INTERVAL :: u64 where "CHECKPOINT_INTERVAL = 20"
definition CHECKPOINT_SAFETY :: u64 where "CHECKPOINT_SAFETY = 5"

definition needs_rebuild :: "Indexer \<Rightarrow> string \<Rightarrow> bool" where
  "needs_rebuild idx hash_at_last_height \<longleftrightarrow>
     scanned_any idx \<and> last_height idx > 0 \<and> last_hash idx \<noteq> hash_at_last_height"

type_synonym 'w fetch = "'w \<Rightarrow> u64 \<Rightarrow> (Hash256 \<times> Block, string) result \<times> 'w"

definition try_rollback :: "ext \<Rightarrow> 'w fetch \<Rightarrow> Indexer \<Rightarrow> 'w \<Rightarrow> (bool, string) result \<times> Indexer \<times> 'w" where
  "try_rollback X fetch idx w =
     (case checkpoint idx of
        None \<Rightarrow> (Ok False, idx, w)
      | Some (cp_height, cp_hash, snap) \<Rightarrow>
          (case fetch w cp_height of
             (Err e, w) \<Rightarrow> (Err e, idx, w)
           | (Ok (canon, _), w) \<Rightarrow>
               if to_hex X canon = cp_hash then (Ok True, restore idx snap, w) else (Ok False, idx, w)))"

definition scan_check :: "ext \<Rightarrow> 'w fetch \<Rightarrow> Indexer \<Rightarrow> 'w \<Rightarrow> (unit, string) result \<times> Indexer \<times> 'w" where
  "scan_check X fetch idx w =
     (if scanned_any idx \<and> last_height idx > 0 then
        (case fetch w (last_height idx) of
           (Err e, w) \<Rightarrow> (Err e, idx, w)
         | (Ok (hash, _), w) \<Rightarrow>
             if needs_rebuild idx (to_hex X hash) then
               (case try_rollback X fetch idx w of
                  (Err e, idx, w) \<Rightarrow> (Err e, idx, w)
                | (Ok True, idx, w) \<Rightarrow> (Ok (), idx, w)
                | (Ok False, idx, w) \<Rightarrow> (Ok (), indexer_default, w))
             else (Ok (), idx, w))
      else (Ok (), idx, w))"

definition take_checkpoint :: "u64 \<Rightarrow> u64 \<Rightarrow> Indexer \<Rightarrow> Indexer" where
  "take_checkpoint tip ht idx =
     (if ht mod CHECKPOINT_INTERVAL = 0 \<and> ht + CHECKPOINT_SAFETY \<le> tip
      then idx\<lparr> checkpoint := Some (ht, last_hash idx, snapshot idx) \<rparr> else idx)"

fun scan_loop :: "ext \<Rightarrow> 'w fetch \<Rightarrow> u64 \<Rightarrow> u64 list \<Rightarrow> u64 \<Rightarrow> Indexer \<Rightarrow> 'w \<Rightarrow> (u64, string) result \<times> Indexer \<times> 'w" where
  "scan_loop X fetch tip [] applied idx w = (Ok applied, idx, w)"
| "scan_loop X fetch tip (ht # hts) applied idx w =
     (case fetch w ht of
        (Err e, w) \<Rightarrow> (Err e, idx, w)
      | (Ok (hash, block), w) \<Rightarrow>
          scan_loop X fetch tip hts (applied + 1)
            (take_checkpoint tip ht ((index_block X idx block ht)\<lparr> last_hash := to_hex X hash \<rparr>)) w)"

text \<open>The heights of \<open>start..=tip\<close>.\<close>

definition height_range :: "u64 \<Rightarrow> u64 \<Rightarrow> u64 list" where
  "height_range start tip = map of_nat [unat start ..< Suc (unat tip)]"

definition scan :: "ext \<Rightarrow> 'w fetch \<Rightarrow> Indexer \<Rightarrow> u64 \<Rightarrow> 'w \<Rightarrow> (u64, string) result \<times> Indexer \<times> 'w" where
  "scan X fetch idx tip w =
     (case scan_check X fetch idx w of
        (Err e, idx, w) \<Rightarrow> (Err e, idx, w)
      | (Ok _, idx, w) \<Rightarrow>
          let start = (if scanned_any idx then last_height idx + 1 else 0) in
          scan_loop X fetch tip (height_range start tip) 0 idx w)"

section \<open>The snapshot on disk\<close>

record AssetInfoJson =
  aj_kind :: string
  aj_ticker :: string
  aj_name :: string
  aj_decimals :: u8
  aj_supply :: u64
  aj_issuer :: string
  aj_royalty_bps :: u16
  aj_royalty_addr :: string
  aj_uri :: string
  aj_content_hash :: string
  aj_mint_height :: u64

record Snapshot =
  sn_last_height :: u64
  sn_last_hash :: string
  sn_scanned_any :: bool
  sn_assets :: "(string, AssetInfoJson) hashmap"
  sn_ft_balances :: "(string, u64) hashmap"
  sn_nft_owner :: "(string, string) hashmap"
  sn_outpoints :: "(string, string) hashmap"
  sn_history :: history_map

definition hex32 :: "ext \<Rightarrow> bytes \<Rightarrow> string" where
  "hex32 X b = to_hex X (Hash256 b)"

text \<open>\<open>u8::from_str_radix(s, 16)\<close> on two characters; the standard library accepts a leading plus.\<close>

definition hex_digit_val :: "char \<Rightarrow> nat option" where
  "hex_digit_val c =
     (let n = of_char c in
      if 48 \<le> n \<and> n \<le> 57 then Some (n - 48)
      else if 97 \<le> n \<and> n \<le> 102 then Some (n - 87)
      else if 65 \<le> n \<and> n \<le> 70 then Some (n - 55) else None)"

definition from_str_radix16 :: "char \<Rightarrow> char \<Rightarrow> u8 option" where
  "from_str_radix16 a b =
     (if a = CHR ''+'' then map_option of_nat (hex_digit_val b)
      else case (hex_digit_val a, hex_digit_val b) of
             (Some x, Some y) \<Rightarrow> Some (of_nat (16 * x + y)) | _ \<Rightarrow> None)"

fun unhex32_loop :: "string \<Rightarrow> bytes \<Rightarrow> bytes option" where
  "unhex32_loop [] out = (if length out = 32 then Some out else None)"
| "unhex32_loop [_] out = None"
| "unhex32_loop (a # b # s) out =
     (case from_str_radix16 a b of
        None \<Rightarrow> None
      | Some v \<Rightarrow> if length out \<ge> 32 then None else unhex32_loop s (out @ [v]))"

definition unhex32 :: "string \<Rightarrow> bytes option" where
  "unhex32 s = unhex32_loop s []"

definition hm_collect :: "('k \<times> 'v) list \<Rightarrow> ('k, 'v) hashmap" where
  "hm_collect xs = foldl (\<lambda>m kv. hm_insert (fst kv) (snd kv) m) [] xs"

definition asset_to_json :: "ext \<Rightarrow> AssetInfo \<Rightarrow> AssetInfoJson" where
  "asset_to_json X i =
     \<lparr> aj_kind = (case info_kind i of Fungible \<Rightarrow> ''ft'' | NonFungible \<Rightarrow> ''nft''),
       aj_ticker = info_ticker i, aj_name = info_name i, aj_decimals = info_decimals i,
       aj_supply = info_supply i, aj_issuer = info_issuer i, aj_royalty_bps = info_royalty_bps i,
       aj_royalty_addr = info_royalty_addr i, aj_uri = info_uri i,
       aj_content_hash = hex32 X (info_content_hash i), aj_mint_height = info_mint_height i \<rparr>"

definition asset_from_json :: "AssetInfoJson \<Rightarrow> AssetInfo" where
  "asset_from_json j =
     \<lparr> info_kind = (if aj_kind j = ''nft'' then NonFungible else Fungible),
       info_ticker = aj_ticker j, info_name = aj_name j, info_decimals = aj_decimals j,
       info_supply = aj_supply j, info_issuer = aj_issuer j, info_royalty_bps = aj_royalty_bps j,
       info_royalty_addr = aj_royalty_addr j, info_uri = aj_uri j,
       info_content_hash = (case unhex32 (aj_content_hash j) of None \<Rightarrow> replicate 32 0 | Some h \<Rightarrow> h),
       info_mint_height = aj_mint_height j \<rparr>"

definition from_indexer :: "ext \<Rightarrow> Indexer \<Rightarrow> Snapshot" where
  "from_indexer X idx =
     \<lparr> sn_last_height = last_height idx, sn_last_hash = last_hash idx, sn_scanned_any = scanned_any idx,
       sn_assets = hm_collect (map (\<lambda>(k, i). (hex32 X k, asset_to_json X i)) (assets (ix_state idx))),
       sn_ft_balances = hm_collect (map (\<lambda>((a, k), b). (a @ ''|'' @ hex32 X k, b)) (ft_balances (ix_state idx))),
       sn_nft_owner = hm_collect (map (\<lambda>(k, a). (hex32 X k, a)) (nft_owner (ix_state idx))),
       sn_outpoints = ix_outpoints idx, sn_history = ix_history idx \<rparr>"

text \<open>\<open>key.rsplit_once('|')\<close>\<close>

definition rsplit_once :: "char \<Rightarrow> string \<Rightarrow> (string \<times> string) option" where
  "rsplit_once c s =
     (if c \<in> set s then Some (rev (tl (dropWhile (\<lambda>x. x \<noteq> c) (rev s))), rev (takeWhile (\<lambda>x. x \<noteq> c) (rev s)))
      else None)"

definition load_assets :: "(string, AssetInfoJson) hashmap \<Rightarrow> (bytes, AssetInfo) hashmap \<Rightarrow> (bytes, AssetInfo) hashmap" where
  "load_assets js m = foldl (\<lambda>m (h, j). case unhex32 h of None \<Rightarrow> m | Some k \<Rightarrow> hm_insert k (asset_from_json j) m) m js"

definition load_balances :: "(string, u64) hashmap \<Rightarrow> (string \<times> bytes, u64) hashmap \<Rightarrow> (string \<times> bytes, u64) hashmap" where
  "load_balances js m = foldl (\<lambda>m (key, bal).
     case rsplit_once (CHR ''|'') key of
       None \<Rightarrow> m
     | Some (addr, id_hex) \<Rightarrow> (case unhex32 id_hex of None \<Rightarrow> m | Some k \<Rightarrow> hm_insert (addr, k) bal m)) m js"

definition load_owners :: "(string, string) hashmap \<Rightarrow> (bytes, string) hashmap \<Rightarrow> (bytes, string) hashmap" where
  "load_owners js m = foldl (\<lambda>m (h, a). case unhex32 h of None \<Rightarrow> m | Some k \<Rightarrow> hm_insert k a m) m js"

definition apply_to :: "Snapshot \<Rightarrow> Indexer \<Rightarrow> Indexer" where
  "apply_to sn idx = idx\<lparr> last_height := sn_last_height sn, last_hash := sn_last_hash sn,
     scanned_any := sn_scanned_any sn, ix_outpoints := sn_outpoints sn, ix_history := sn_history sn,
     ix_state := \<lparr> assets = load_assets (sn_assets sn) (assets (ix_state idx)),
                   ft_balances = load_balances (sn_ft_balances sn) (ft_balances (ix_state idx)),
                   nft_owner = load_owners (sn_nft_owner sn) (nft_owner (ix_state idx)) \<rparr> \<rparr>"

section \<open>Replay\<close>

text \<open>A chain gives the block hash and the block at every height. The specification of the indexer
  is the replay of a chain from the empty state.\<close>

type_synonym chain_view = "u64 \<Rightarrow> Hash256 \<times> Block"

definition advance :: "ext \<Rightarrow> chain_view \<Rightarrow> Indexer \<Rightarrow> u64 \<Rightarrow> Indexer" where
  "advance X ch idx ht = (index_block X idx (snd (ch ht)) ht)\<lparr> last_hash := to_hex X (fst (ch ht)) \<rparr>"

definition replay :: "ext \<Rightarrow> chain_view \<Rightarrow> u64 \<Rightarrow> Indexer" where
  "replay X ch n = foldl (advance X ch) indexer_default (height_range 0 n)"

abbreviation reframe :: "Indexer \<Rightarrow> bool \<Rightarrow> (u64 \<times> string \<times> CheckpointSnap) option \<Rightarrow> Indexer" where
  "reframe i s c \<equiv> i\<lparr> scanned_any := s, checkpoint := c \<rparr>"

lemma record_frames:
  "record_outputs X (reframe i s c) tx = reframe (record_outputs X i tx) s c"
  "resolve_source X (reframe i s c) tx = resolve_source X i tx"
  "record_history X (reframe i s c) ht txid src dest x = reframe (record_history X i ht txid src dest x) s c"
  by (simp_all add: record_outputs_def resolve_source_def record_history_def Let_def split: list.splits prod.splits)

lemma index_tx_frame: "index_tx X ht (reframe i s c) tx = reframe (index_tx X ht i tx) s c"
proof (cases "extract_asset_op tx")
  case None
  then show ?thesis by (simp add: index_tx_def record_frames)
next
  case (Some x)
  show ?thesis
  proof (cases "resolve_source X i tx")
    case None
    with Some show ?thesis by (simp add: index_tx_def record_frames)
  next
    case src: (Some src)
    let ?ap = "asset_apply (ix_state i) (hash_bytes (tx_id tx)) ht src (resolve_dest X tx x) x"
    have fr: "(reframe i s c)\<lparr> ix_state := st \<rparr> = reframe (i\<lparr> ix_state := st \<rparr>) s c" for st by simp
    show ?thesis
      using Some src by (cases ?ap) (simp add: index_tx_def record_frames Let_def fr)
  qed
qed

lemma foldl_index_tx_frame:
  "foldl (index_tx X ht) (i\<lparr> scanned_any := s, checkpoint := c \<rparr>) txs
    = (foldl (index_tx X ht) i txs)\<lparr> scanned_any := s, checkpoint := c \<rparr>"
  by (induction txs arbitrary: i) (simp_all add: index_tx_frame)

lemma snapshot_eqE:
  assumes "snapshot i = snapshot j"
  shows "j = i\<lparr> scanned_any := scanned_any j, checkpoint := checkpoint j \<rparr>"
  using assms by (cases i; cases j) (simp add: snapshot_def)

lemma advance_snapshot:
  assumes "snapshot i = snapshot j"
  shows "snapshot (advance X ch i ht) = snapshot (advance X ch j ht)"
  by (subst snapshot_eqE [OF assms]) (simp add: advance_def index_block_def foldl_index_tx_frame snapshot_def)

lemma advance_simps [simp]:
  "last_height (advance X ch i ht) = ht" "last_hash (advance X ch i ht) = to_hex X (fst (ch ht))"
  "scanned_any (advance X ch i ht)"
  by (simp_all add: advance_def index_block_def)

lemma advance_checkpoint [simp]: "checkpoint (advance X ch i ht) = checkpoint i"
proof -
  have "checkpoint (foldl (index_tx X ht) i txs) = checkpoint i" for txs
    using arg_cong [where f = checkpoint, OF foldl_index_tx_frame [where i = i and s = "scanned_any i" and c = "checkpoint i"]]
    by simp
  then show ?thesis by (simp add: advance_def index_block_def)
qed

lemma height_range_0 [simp]: "height_range 0 0 = [0]"
  by (simp add: height_range_def)

lemma height_range_empty [simp]: "tip < start \<Longrightarrow> height_range start tip = []"
  by (simp add: height_range_def word_less_nat_alt)

lemma unat_Suc: "unat h + 1 < 2 ^ 64 \<Longrightarrow> unat (h + 1 :: u64) = Suc (unat h)"
  by (simp add: unat_word_ariths)

lemma height_range_Cons:
  assumes "start \<le> tip" "unat tip + 1 < 2 ^ 64"
  shows "height_range start tip = start # height_range (start + 1) tip"
proof -
  have "unat start \<le> unat tip" using assms(1) by (simp add: word_le_nat_alt)
  moreover from this have "unat (start + 1) = Suc (unat start)" using assms(2) by (intro unat_Suc) linarith
  ultimately show ?thesis by (simp add: height_range_def upt_conv_Cons del: upt_Suc)
qed

lemma height_range_snoc:
  assumes "unat n + 1 < 2 ^ 64"
  shows "height_range 0 (n + 1) = height_range 0 n @ [n + 1]"
  using unat_Suc [OF assms] by (simp add: height_range_def)

lemma replay_step: "unat n + 1 < 2 ^ 64 \<Longrightarrow> replay X ch (n + 1) = advance X ch (replay X ch n) (n + 1)"
  by (simp add: replay_def height_range_snoc)

lemma replay_cong:
  assumes "\<forall>k \<le> n. a k = b k"
  shows "replay X a n = replay X b n"
proof -
  have "k \<le> n" if "k \<in> set (height_range 0 n)" for k
    using that unat_u64_lt [of n] by (auto simp: height_range_def word_le_nat_alt unat_of_nat_u64)
  moreover have "foldl (advance X a) i ks = foldl (advance X b) i ks" if "\<forall>k \<in> set ks. a k = b k" for i ks
    using that by (induction ks arbitrary: i) (simp_all add: advance_def)
  ultimately show ?thesis using assms by (simp add: replay_def)
qed

text \<open>What the indexer knows of a chain: its state and its checkpoint are replays of that chain.\<close>

definition indexed :: "ext \<Rightarrow> chain_view \<Rightarrow> Indexer \<Rightarrow> bool" where
  "indexed X ch idx \<longleftrightarrow>
     (if scanned_any idx then
        snapshot idx = snapshot (replay X ch (last_height idx))
        \<and> (case checkpoint idx of None \<Rightarrow> True | Some (h, hs, snap) \<Rightarrow>
             h \<le> last_height idx \<and> hs = to_hex X (fst (ch h)) \<and> snap = snapshot (replay X ch h))
      else idx = indexer_default)"

text \<open>A block hash commits to the blocks below it, and the two chains have one genesis.\<close>

definition linked :: "chain_view \<Rightarrow> chain_view \<Rightarrow> bool" where
  "linked a b \<longleftrightarrow> a 0 = b 0 \<and> (\<forall>h. fst (a h) = fst (b h) \<longrightarrow> (\<forall>k \<le> h. a k = b k))"

lemma replay_basic [simp]:
  "last_height (replay X ch n) = n" "last_hash (replay X ch n) = to_hex X (fst (ch n))" "scanned_any (replay X ch n)"
proof -
  have "height_range 0 n = butlast (height_range 0 n) @ [n]"
    by (simp add: height_range_def)
  then have "replay X ch n = advance X ch (foldl (advance X ch) indexer_default (butlast (height_range 0 n))) n"
    unfolding replay_def by (metis foldl_Cons foldl_Nil foldl_append)
  then show "last_height (replay X ch n) = n" "last_hash (replay X ch n) = to_hex X (fst (ch n))"
    "scanned_any (replay X ch n)" by simp_all
qed

lemma indexed_hash: "indexed X ch idx \<Longrightarrow> scanned_any idx \<Longrightarrow> last_hash idx = to_hex X (fst (ch (last_height idx)))"
  by (simp add: indexed_def snapshot_def)

lemma indexed_default [simp]: "indexed X ch indexer_default"
  by (simp add: indexed_def indexer_default_def)

text \<open>Agreement up to the last scanned height is enough to know the other chain, too.\<close>

lemma indexed_transfer:
  assumes "indexed X a idx" and "\<forall>k \<le> last_height idx. a k = b k"
  shows "indexed X b idx"
proof (cases "scanned_any idx")
  case True
  have "replay X a h = replay X b h" if "h \<le> last_height idx" for h
    using assms(2) that by (intro replay_cong) auto
  with assms True show ?thesis by (fastforce simp: indexed_def split: option.splits prod.splits)
next
  case False
  with assms(1) show ?thesis by (simp add: indexed_def)
qed

lemma indexed_restore:
  assumes "indexed X a idx" "scanned_any idx" "checkpoint idx = Some (h, hs, snap)" "\<forall>k \<le> h. a k = b k"
  shows "indexed X b (restore idx snap)" "scanned_any (restore idx snap)" "last_height (restore idx snap) = h"
    "h \<le> last_height idx"
proof -
  from assms have snap: "snap = snapshot (replay X a h)" "h \<le> last_height idx" "hs = to_hex X (fst (a h))"
    by (simp_all add: indexed_def)
  have eq: "replay X a h = replay X b h" by (rule replay_cong [OF assms(4)])
  have "snapshot (restore idx snap) = snap" by (simp add: snapshot_def restore_def)
  with snap eq assms(3,4) show "indexed X b (restore idx snap)"
    by (simp add: indexed_def restore_def snapshot_def)
  show "scanned_any (restore idx snap)" "last_height (restore idx snap) = h" "h \<le> last_height idx"
    using snap by (simp_all add: restore_def snapshot_def)
qed

text \<open>Next height of an indexer, and one step of the loop.\<close>

definition resume_height :: "Indexer \<Rightarrow> u64" where
  "resume_height idx = (if scanned_any idx then last_height idx + 1 else 0)"

lemma indexed_advance:
  fixes tip :: u64
  assumes "indexed X b idx" and "unat (resume_height idx) + 5 < 2 ^ 64" and "scanned_any idx \<longrightarrow> unat (last_height idx) + 1 < 2 ^ 64"
  defines "idx' \<equiv> take_checkpoint tip (resume_height idx) (advance X b idx (resume_height idx))"
  shows "indexed X b idx'" "scanned_any idx'" "last_height idx' = resume_height idx"
proof -
  let ?h = "resume_height idx" and ?i = "advance X b idx (resume_height idx)"
  have snap: "snapshot ?i = snapshot (replay X b ?h)"
  proof (cases "scanned_any idx")
    case True
    then have "snapshot idx = snapshot (replay X b (last_height idx))" using assms(1) by (simp add: indexed_def)
    from advance_snapshot [OF this] show ?thesis
      using True replay_step assms(3) by (simp add: resume_height_def)
  next
    case False
    with assms(1) show ?thesis by (simp add: indexed_def resume_height_def replay_def)
  qed
  have le: "last_height idx \<le> ?h" if "scanned_any idx"
    using that assms(3) unat_Suc [of "last_height idx"] by (simp add: resume_height_def word_le_nat_alt)
  have "indexed X b ?i"
  proof (cases "scanned_any idx")
    case True
    with assms(1) snap le show ?thesis by (auto simp: indexed_def split: option.splits)
  next
    case False
    with assms(1) have "checkpoint idx = None" by (simp add: indexed_def indexer_default_def)
    with snap show ?thesis by (simp add: indexed_def)
  qed
  with snap show "indexed X b idx'"
    by (auto simp: idx'_def take_checkpoint_def indexed_def snapshot_def split: option.splits)
  show "scanned_any idx'" "last_height idx' = ?h" by (simp_all add: idx'_def take_checkpoint_def)
qed

text \<open>The node may fail a request, but what it answers is a block of chain \<open>b\<close>.\<close>

definition answers :: "'w fetch \<Rightarrow> chain_view \<Rightarrow> bool" where
  "answers fetch b \<longleftrightarrow> (\<forall>w h r. fst (fetch w h) = Ok r \<longrightarrow> r = b h)"

definition always_answers :: "'w fetch \<Rightarrow> bool" where
  "always_answers fetch \<longleftrightarrow> (\<forall>w h. \<exists>r. fst (fetch w h) = Ok r)"

lemma fetch_Err: "fetch w h = (Err e, w') \<Longrightarrow> \<not> always_answers fetch"
  unfolding always_answers_def by (metis Inl_Inr_False fst_conv)

lemma fetch_Ok: "answers fetch b \<Longrightarrow> fetch w h = (Ok r, w') \<Longrightarrow> r = b h"
  unfolding answers_def by (metis fst_conv)

lemma scan_loop_indexed:
  assumes ans: "answers fetch b" and tip: "unat tip + 5 < 2 ^ 64"
    and "indexed X b idx" and "scanned_any idx \<longrightarrow> unat (last_height idx) + 1 < 2 ^ 64"
    and "scan_loop X fetch tip (height_range (resume_height idx) tip) n idx w = (res, idx', w')"
  shows "indexed X b idx' \<and> (always_answers fetch \<longrightarrow> (\<exists>m. res = Ok m))
    \<and> (\<forall>m. res = Ok m \<longrightarrow> (if resume_height idx \<le> tip then scanned_any idx' \<and> last_height idx' = tip else idx' = idx))"
  using assms(3-5)
proof (induction "Suc (unat tip) - unat (resume_height idx)" arbitrary: idx n w rule: less_induct)
  case less
  let ?h = "resume_height idx"
  show ?case
  proof (cases "?h \<le> tip")
    case False
    with less.prems show ?thesis by auto
  next
    case True
    then have ht: "unat ?h \<le> unat tip" by (simp add: word_le_nat_alt)
    have hr: "height_range ?h tip = ?h # height_range (?h + 1) tip" using tip True by (intro height_range_Cons) simp_all
    obtain a w1 where f: "fetch w ?h = (a, w1)" by (metis surj_pair)
    show ?thesis
    proof (cases a)
      case (Inl e)
      then have "\<not> always_answers fetch" by (intro fetch_Err [where fetch = fetch, OF f [unfolded Inl]])
      moreover have "res = Err e" "idx' = idx" using less.prems(3) hr f Inl by simp_all
      ultimately show ?thesis using less.prems(1) by simp
    next
      case (Inr r)
      then have r: "r = b ?h" by (intro fetch_Ok [where fetch = fetch, OF ans f [unfolded Inr]])
      let ?i = "take_checkpoint tip ?h (advance X b idx ?h)"
      have bnd: "unat ?h + 5 < 2 ^ 64" using ht tip by linarith
      note adv = indexed_advance [OF less.prems(1) bnd less.prems(2), of tip]
      have nh: "resume_height ?i = ?h + 1" using adv(2,3) by (simp add: resume_height_def)
      have un: "unat (?h + 1) = Suc (unat ?h)" using bnd by (intro unat_Suc) simp
      have "scan_loop X fetch tip (height_range (resume_height ?i) tip) (n + 1) ?i w1 = (res, idx', w')"
        using less.prems(3) hr f Inr r nh by (cases "b ?h") (simp add: advance_def)
      moreover have "Suc (unat tip) - unat (resume_height ?i) < Suc (unat tip) - unat ?h" using nh un ht by simp
      moreover have "scanned_any ?i \<longrightarrow> unat (last_height ?i) + 1 < 2 ^ 64" using adv(3) bnd by simp
      ultimately have IH: "indexed X b idx' \<and> (always_answers fetch \<longrightarrow> (\<exists>m. res = Ok m))
        \<and> (\<forall>m. res = Ok m \<longrightarrow> (if resume_height ?i \<le> tip then scanned_any idx' \<and> last_height idx' = tip else idx' = ?i))"
        using less.hyps adv(1) by blast
      have "last_height ?i = tip" if "\<not> resume_height ?i \<le> tip"
        using that ht un nh adv(3) by (simp add: word_le_nat_alt word_unat_eq_iff)
      with IH adv(2) True show ?thesis by (auto split: if_splits)
    qed
  qed
qed

lemma try_rollback_at:
  assumes "checkpoint idx = Some (h, hs, snap)" and "fetch w h = (Ok q, w2)"
  shows "try_rollback X fetch idx w =
    (if to_hex X (fst q) = hs then (Ok True, restore idx snap, w2) else (Ok False, idx, w2))"
  using assms by (simp add: try_rollback_def split_beta)

text \<open>The reorganisation check leaves an indexer of the present chain, or fails without a change.\<close>

lemma scan_check_indexed:
  assumes hex: "hex_laws X" and ans: "answers fetch b" and lk: "linked a b" and ix: "indexed X a idx"
    and c: "scan_check X fetch idx w = (res, idx', w')"
  shows "(case res of Inl e \<Rightarrow> idx' = idx \<and> \<not> always_answers fetch | Inr _ \<Rightarrow> indexed X b idx')
    \<and> (scanned_any idx' \<longrightarrow> scanned_any idx \<and> last_height idx' \<le> last_height idx)"
proof (cases "scanned_any idx \<and> last_height idx > 0")
  case False
  have "\<forall>k \<le> last_height idx. a k = b k" if "scanned_any idx"
  proof -
    have "last_height idx = 0" using that False by (simp add: word_gt_0)
    then show ?thesis using lk by (simp add: linked_def)
  qed
  then have "indexed X b idx"
    using indexed_transfer [OF ix] ix by (cases "scanned_any idx") (simp, simp add: indexed_def)
  with False c show ?thesis by (auto simp: scan_check_def)
next
  case True
  obtain r w1 where f: "fetch w (last_height idx) = (r, w1)" by (metis surj_pair)
  show ?thesis
  proof (cases r)
    case (Inl e)
    then have "\<not> always_answers fetch" by (intro fetch_Err [where fetch = fetch, OF f [unfolded Inl]])
    with True f Inl c show ?thesis by (auto simp: scan_check_def)
  next
    case (Inr q)
    then have q: "q = b (last_height idx)" by (intro fetch_Ok [where fetch = fetch, OF ans f [unfolded Inr]])
    show ?thesis
    proof (cases "fst (a (last_height idx)) = fst (b (last_height idx))")
      case same: True
      then have "\<not> needs_rebuild idx (to_hex X (fst q))"
        using True ix q hex by (simp add: needs_rebuild_def indexed_hash)
      moreover have "indexed X b idx" using same lk indexed_transfer [OF ix] by (simp add: linked_def)
      ultimately show ?thesis using True f Inr c by (cases q) (auto simp: scan_check_def)
    next
      case diff: False
      then have nr: "needs_rebuild idx (to_hex X (fst q))"
        using True ix q hex by (simp add: needs_rebuild_def indexed_hash to_hex_inject)
      then have c': "(case try_rollback X fetch idx w1 of (Err e, idx, w) \<Rightarrow> (Err e, idx, w)
          | (Ok True, idx, w) \<Rightarrow> (Ok (), idx, w) | (Ok False, idx, w) \<Rightarrow> (Ok (), indexer_default, w)) = (res, idx', w')"
        using True f Inr c by (cases q) (simp add: scan_check_def)
      show ?thesis
      proof (cases "checkpoint idx")
        case None
        with c' show ?thesis by (auto simp: try_rollback_def indexer_default_def simp del: indexed_default) (simp add: indexed_def indexer_default_def)
      next
        case (Some cp)
        obtain h hs snap where cp: "cp = (h, hs, snap)" by (metis prod_cases3)
        obtain r2 w2 where f2: "fetch w1 h = (r2, w2)" by (metis surj_pair)
        show ?thesis
        proof (cases r2)
          case (Inl e)
          then have "\<not> always_answers fetch" by (intro fetch_Err [where fetch = fetch, OF f2 [unfolded Inl]])
          with c' Some cp f2 Inl True show ?thesis by (auto simp: try_rollback_def)
        next
          case (Inr q2)
          note rb = try_rollback_at [where fetch = fetch, OF Some [unfolded cp] f2 [unfolded Inr], of X]
          from Inr have q2: "q2 = b h" by (intro fetch_Ok [where fetch = fetch, OF ans f2 [unfolded Inr]])
          have hs: "hs = to_hex X (fst (a h))" using ix True Some cp by (simp add: indexed_def)
          show ?thesis
          proof (cases "fst (a h) = fst (b h)")
            case same: True
            then have "\<forall>k \<le> h. a k = b k" using lk by (simp add: linked_def)
            note rs = indexed_restore [OF ix conjunct1 [OF True] Some [unfolded cp] this]
            have "res = Ok ()" "idx' = restore idx snap"
              using c' by (simp_all add: rb q2 hs same)
            with rs True show ?thesis by simp
          next
            case False
            then have "res = Ok ()" "idx' = indexer_default"
              using c' to_hex_inject [OF hex, of "fst (b h)" "fst (a h)"] by (simp_all add: rb q2 hs)
            then show ?thesis by (simp add: indexer_default_def indexed_def)
          qed
        qed
      qed
    qed
  qed
qed

lemma index_tx_inv:
  assumes "asset_inv (ix_state i)"
  shows "asset_inv (ix_state (index_tx X ht i tx))"
proof -
  have h: "ix_state (record_history X j ht t src dest x) = ix_state j" for j t src dest x
    by (simp add: record_history_def Let_def split: prod.splits)
  have o: "ix_state (record_outputs X j tx) = ix_state j" for j by (simp add: record_outputs_def)
  show ?thesis
  proof (cases "extract_asset_op tx = None \<or> resolve_source X i tx = None")
    case True
    then show ?thesis using assms by (auto simp: index_tx_def o split: option.splits)
  next
    case False
    then obtain x src where x: "extract_asset_op tx = Some x" "resolve_source X i tx = Some src" by auto
    let ?ap = "asset_apply (ix_state i) (hash_bytes (tx_id tx)) ht src (resolve_dest X tx x) x"
    have "ix_state (index_tx X ht i tx) = snd ?ap"
      using x by (cases ?ap) (simp add: index_tx_def Let_def h o)
    then show ?thesis using asset_apply_inv [OF assms] by simp
  qed
qed

lemma advance_inv: "asset_inv (ix_state i) \<Longrightarrow> asset_inv (ix_state (advance X ch i ht))"
proof -
  have "asset_inv (ix_state (foldl (index_tx X ht) i txs))" if "asset_inv (ix_state i)" for i txs
    using that by (induction txs arbitrary: i) (simp_all add: index_tx_inv)
  then show "asset_inv (ix_state i) \<Longrightarrow> asset_inv (ix_state (advance X ch i ht))"
    by (simp add: advance_def index_block_def)
qed

lemma replay_inv: "asset_inv (ix_state (replay X ch n))"
proof -
  have "asset_inv (ix_state (foldl (advance X ch) i hs))" if "asset_inv (ix_state i)" for i hs
    using that by (induction hs arbitrary: i) (simp_all add: advance_inv)
  then show ?thesis by (simp add: replay_def indexer_default_def asset_inv_default)
qed

lemma indexed_inv: "indexed X ch idx \<Longrightarrow> asset_inv (ix_state idx)"
proof (cases "scanned_any idx")
  case True
  moreover assume "indexed X ch idx"
  ultimately have "ix_state idx = ix_state (replay X ch (last_height idx))" by (simp add: indexed_def snapshot_def)
  then show ?thesis by (simp add: replay_inv)
next
  case False
  moreover assume "indexed X ch idx"
  ultimately show ?thesis by (simp add: indexed_def indexer_default_def asset_inv_default)
qed

lemma scan_follows:
  assumes "hex_laws X" and "linked a b" and "answers fetch b" and ix: "indexed X a idx"
    and tip: "unat tip + 5 < 2 ^ 64" and low: "scanned_any idx \<longrightarrow> last_height idx \<le> tip"
    and s: "scan X fetch idx tip w = (res, idx', w')"
  shows "(indexed X a idx' \<or> indexed X b idx') \<and> asset_inv (ix_state idx')
    \<and> (always_answers fetch \<longrightarrow> (\<exists>n. res = Ok n))
    \<and> (\<forall>n. res = Ok n \<longrightarrow> scanned_any idx' \<and> snapshot idx' = snapshot (replay X b tip))"
proof -
  obtain r i1 w1 where c: "scan_check X fetch idx w = (r, i1, w1)" by (metis prod_cases3)
  note chk = scan_check_indexed [OF assms(1,3,2) ix c]
  show ?thesis
  proof (cases r)
    case (Inl e)
    then have "idx' = idx" "res = Err e" "\<not> always_answers fetch" using s c chk by (simp_all add: scan_def)
    with ix indexed_inv [OF ix] show ?thesis by simp
  next
    case (Inr u)
    then have i1: "indexed X b i1" using chk by simp
    have low1: "last_height i1 \<le> tip" if "scanned_any i1"
      using that chk low by (meson order_trans)
    have sl: "scan_loop X fetch tip (height_range (resume_height i1) tip) 0 i1 w1 = (res, idx', w')"
      using s c Inr by (simp add: scan_def resume_height_def Let_def)
    have bnd: "scanned_any i1 \<longrightarrow> unat (last_height i1) + 1 < 2 ^ 64"
      using low1 tip by (auto simp: word_le_nat_alt)
    note lp = scan_loop_indexed [OF assms(3) tip i1 bnd sl]
    have "scanned_any idx' \<and> last_height idx' = tip" if "res = Ok n" for n
    proof (cases "resume_height i1 \<le> tip")
      case True
      with lp that show ?thesis by simp
    next
      case False
      then have sc: "scanned_any i1" by (simp add: resume_height_def split: if_splits)
      with bnd have "unat (last_height i1 + 1) = Suc (unat (last_height i1))" by (intro unat_Suc) simp
      with False sc low1 have "last_height i1 = tip"
        by (simp add: resume_height_def word_le_nat_alt word_unat_eq_iff)
      with lp that False sc show ?thesis by simp
    qed
    moreover have "snapshot idx' = snapshot (replay X b tip)" if "scanned_any idx'" "last_height idx' = tip"
      using lp that by (simp add: indexed_def)
    ultimately show ?thesis using lp indexed_inv by blast
  qed
qed

text \<open>
  C13. The indexer follows the canonical chain. Let it have indexed some chain and let the node now
  serve another one with the same genesis (the same chain, or one after a reorganisation of any
  depth). A scan that succeeds leaves exactly the state that a replay of the node's chain from
  genesis to the tip gives, whichever of the incremental path, the checkpoint rollback and the full
  rebuild was taken; a scan that fails at any request leaves a consistent state of the old or the new
  chain; it succeeds when the node answers. In every case the asset ledger keeps its invariant.
\<close>

theorem scan_follows_chain:
  assumes hex: "hex_laws X" and ab: "linked a b" and ans: "answers fetch b" and ix: "indexed X a idx"
    and tip: "unat tip + 5 < 2 ^ 64" and low: "scanned_any idx \<longrightarrow> last_height idx \<le> tip"
    and s: "scan X fetch idx tip w = (res, idx', w')"
  shows "(indexed X a idx' \<or> indexed X b idx') \<and> asset_inv (ix_state idx')
    \<and> (always_answers fetch \<longrightarrow> (\<exists>n. res = Ok n))
    \<and> (\<forall>n. res = Ok n \<longrightarrow> scanned_any idx' \<and> snapshot idx' = snapshot (replay X b tip))"
  by (rule scan_follows [OF hex ab ans ix tip low s])

text \<open>Two chains of empty blocks that part at height 1.\<close>

definition fork_chain :: "u8 \<Rightarrow> chain_view" where
  "fork_chain tag h = (Hash256 (if h = 0 then [] else tag # u64_to_be h), genesis_block demo_ext ''c'' 1 0)"

theorem scan_follows_chain_witness:
  "\<exists>n idx' w'. scan demo_ext (\<lambda>w h. (Ok (fork_chain 2 h), w)) (replay demo_ext (fork_chain 1) 3) 4 () = (Ok n, idx', w')
    \<and> last_hash (replay demo_ext (fork_chain 1) 3) \<noteq> to_hex demo_ext (fst (fork_chain 2 3))
    \<and> snapshot idx' = snapshot (replay demo_ext (fork_chain 2) 4)"
proof -
  let ?f = "\<lambda>w h. (Ok (fork_chain 2 h), w)" and ?i = "replay demo_ext (fork_chain 1) 3"
  have lk: "linked (fork_chain 1) (fork_chain 2)" by (auto simp: linked_def fork_chain_def)
  have ans: "answers ?f (fork_chain 2)" and al: "always_answers ?f" by (simp_all add: answers_def always_answers_def)
  have "height_range 0 3 = [0, 1, 2, 3]" by (simp add: height_range_def upt_rec)
  then have "checkpoint ?i = None" by (simp add: replay_def) (simp add: indexer_default_def)
  then have ix: "indexed demo_ext (fork_chain 1) ?i" by (simp add: indexed_def)
  obtain res idx' w' where s: "scan demo_ext ?f ?i 4 () = (res, idx', w')" by (metis prod_cases3)
  have "last_hash ?i \<noteq> to_hex demo_ext (fst (fork_chain 2 3))"
    using demo_hex_laws by (simp add: to_hex_inject fork_chain_def)
  with scan_follows_chain [OF demo_hex_laws lk ans ix _ _ s] al s show ?thesis by fastforce
qed

section \<open>Saving and restoring\<close>

lemma hm_insert_new: "k \<notin> set (map fst m) \<Longrightarrow> hm_insert k v m = m @ [(k, v)]"
  by (induction m) auto

lemma foldl_insert_distinct:
  "distinct (map fst m @ map f xs) \<Longrightarrow>
    foldl (\<lambda>m x. hm_insert (f x) (g x) m) m xs = m @ map (\<lambda>x. (f x, g x)) xs"
  by (induction xs arbitrary: m) (auto simp: hm_insert_new)

lemma hm_collect_distinct: "hm_ok xs \<Longrightarrow> hm_collect xs = xs"
  using foldl_insert_distinct [of "[]" fst xs snd] by (simp add: hm_collect_def)

lemma hex_digit_val_digit: "n < 16 \<Longrightarrow> hex_digit_val (hex_digit n) = Some n \<and> hex_digit n \<noteq> CHR ''+'' \<and> hex_digit n \<noteq> CHR ''|''"
proof -
  assume n: "n < 16"
  have c: "of_char (hex_digit n) = (if n < 10 then 48 + n else 87 + n)" using n by (simp add: hex_digit_def)
  then have "of_char (hex_digit n) \<noteq> (of_char (CHR ''+'') :: nat)" "of_char (hex_digit n) \<noteq> (of_char (CHR ''|'') :: nat)"
    using n by simp_all
  then have "hex_digit n \<noteq> CHR ''+''" "hex_digit n \<noteq> CHR ''|''" by fastforce+
  with c n show ?thesis by (simp add: hex_digit_val_def Let_def)
qed

lemma radix16_byte: "from_str_radix16 (hex_digit (unat b div 16)) (hex_digit (unat b mod 16)) = Some b"
proof -
  have "unat b div 16 < 16" "unat b mod 16 < 16" using unat_u8_lt [of b] by linarith+
  then show ?thesis using hex_digit_val_digit by (simp add: from_str_radix16_def)
qed

lemma unhex32_loop_hex: "length out + length bs = 32 \<Longrightarrow> unhex32_loop (hex_string bs) out = Some (out @ bs)"
  by (induction bs arbitrary: out) (simp_all add: hex_string_def hex_byte_def radix16_byte)

lemma unhex32_hex32: "hex_laws X \<Longrightarrow> length k = 32 \<Longrightarrow> unhex32 (hex32 X k) = Some k"
  using unhex32_loop_hex [of "[]" k] by (simp add: unhex32_def hex32_def to_hex_def hex_laws_def)

lemma hex32_no_bar: "hex_laws X \<Longrightarrow> CHR ''|'' \<notin> set (hex32 X k)"
proof -
  assume "hex_laws X"
  moreover have "CHR ''|'' \<noteq> hex_digit (unat b div 16)" "CHR ''|'' \<noteq> hex_digit (unat b mod 16)" for b :: u8
  proof -
    have "unat b div 16 < 16" using unat_u8_lt [of b] by linarith
    then show "CHR ''|'' \<noteq> hex_digit (unat b div 16)" "CHR ''|'' \<noteq> hex_digit (unat b mod 16)"
      using hex_digit_val_digit [of "unat b div 16"] hex_digit_val_digit [of "unat b mod 16"] by auto
  qed
  ultimately show ?thesis by (auto simp: hex32_def to_hex_def hex_laws_def hex_string_def hex_byte_def)
qed

lemma rsplit_once_app:
  assumes "c \<notin> set t"
  shows "rsplit_once c (s @ c # t) = Some (s, t)"
proof -
  have "c \<notin> set u \<Longrightarrow> takeWhile (\<lambda>x. x \<noteq> c) (u @ c # v) = u \<and> dropWhile (\<lambda>x. x \<noteq> c) (u @ c # v) = c # v" for u v
    by (induction u) auto
  from this [of "rev t" "rev s"] assms show ?thesis by (simp add: rsplit_once_def)
qed

text \<open>Identifiers and content hashes are 32 bytes (their Rust types), and the maps have distinct keys.\<close>

definition store_typed :: "AssetState \<Rightarrow> bool" where
  "store_typed st \<longleftrightarrow> hm_ok (assets st) \<and> hm_ok (ft_balances st) \<and> hm_ok (nft_owner st)
     \<and> (\<forall>(k, i) \<in> set (assets st). length k = 32 \<and> length (info_content_hash i) = 32)
     \<and> (\<forall>((a, k), b) \<in> set (ft_balances st). length k = 32)
     \<and> (\<forall>(k, a) \<in> set (nft_owner st). length k = 32)"

lemma asset_json_roundtrip:
  "hex_laws X \<Longrightarrow> length (info_content_hash i) = 32 \<Longrightarrow> asset_from_json (asset_to_json X i) = i"
  by (cases "info_kind i"; cases i) (simp_all add: asset_from_json_def asset_to_json_def unhex32_hex32)

lemma hex32_inject: "hex_laws X \<Longrightarrow> hex32 X a = hex32 X b \<longleftrightarrow> a = b"
  by (simp add: hex32_def to_hex_inject)

lemma balance_key_inject:
  assumes "hex_laws X"
  shows "a @ CHR ''|'' # hex32 X k = a' @ CHR ''|'' # hex32 X k' \<longleftrightarrow> a = a' \<and> k = k'"
proof
  assume eq: "a @ CHR ''|'' # hex32 X k = a' @ CHR ''|'' # hex32 X k'"
  have "Some (a, hex32 X k) = Some (a', hex32 X k')"
    using rsplit_once_app [OF hex32_no_bar [OF assms], of a k] rsplit_once_app [OF hex32_no_bar [OF assms], of a' k']
    unfolding eq by (rule trans [OF sym])
  then show "a = a' \<and> k = k'" by (simp add: hex32_inject [OF assms])
qed simp

text \<open>Writing a map under injective text keys and reading it back entry by entry.\<close>

lemma load_collect:
  assumes "inj f" and "hm_ok m" and "\<forall>x \<in> set m. F (f (fst x), g x) = Some x"
  shows "foldl (\<lambda>m y. case F y of None \<Rightarrow> m | Some (k, v) \<Rightarrow> hm_insert k v m) []
    (hm_collect (map (\<lambda>x. (f (fst x), g x)) m)) = m"
proof -
  have "map fst (map (\<lambda>x. (f (fst x), g x)) m) = map f (map fst m)" by simp
  then have ok: "hm_ok (map (\<lambda>x. (f (fst x), g x)) m)"
    using assms(1,2) by (simp add: distinct_map inj_on_subset [of f UNIV] del: map_map)
  have "foldl (\<lambda>m y. case F y of None \<Rightarrow> m | Some (k, v) \<Rightarrow> hm_insert k v m) n (map (\<lambda>x. (f (fst x), g x)) xs) = n @ xs"
    if "distinct (map fst n @ map fst xs)" "\<forall>x \<in> set xs. F (f (fst x), g x) = Some x" for n xs
    using that by (induction xs arbitrary: n) (auto simp: hm_insert_new)
  from this [of "[]" m] assms(2,3) show ?thesis by (simp add: hm_collect_distinct [OF ok])
qed

lemma load_assets_collect:
  assumes hex: "hex_laws X" and "hm_ok m" and "\<forall>(k, i) \<in> set m. length k = 32 \<and> length (info_content_hash i) = 32"
  shows "load_assets (hm_collect (map (\<lambda>(k, i). (hex32 X k, asset_to_json X i)) m)) [] = m"
proof -
  let ?F = "\<lambda>(h, j). map_option (\<lambda>k. (k, asset_from_json j)) (unhex32 h)"
  have "(\<lambda>m (h, j). case unhex32 h of None \<Rightarrow> m | Some k \<Rightarrow> hm_insert k (asset_from_json j) m)
    = (\<lambda>m y. case ?F y of None \<Rightarrow> m | Some (k, v) \<Rightarrow> hm_insert k v m)"
    by (auto simp: fun_eq_iff split: option.splits)
  moreover have "inj (hex32 X)" using hex32_inject [OF hex] by (simp add: inj_def)
  moreover have "\<forall>x \<in> set m. ?F (hex32 X (fst x), asset_to_json X (snd x)) = Some x"
    using assms(3) by (auto simp: unhex32_hex32 [OF hex] asset_json_roundtrip [OF hex])
  ultimately show ?thesis
    using load_collect [of "hex32 X" m ?F "\<lambda>x. asset_to_json X (snd x)"] assms(2)
    by (simp add: load_assets_def split_beta')
qed

lemma load_owners_collect:
  assumes hex: "hex_laws X" and "hm_ok m" and "\<forall>(k, a) \<in> set m. length k = 32"
  shows "load_owners (hm_collect (map (\<lambda>(k, a). (hex32 X k, a)) m)) [] = m"
proof -
  let ?F = "\<lambda>(h, a). map_option (\<lambda>k. (k, a)) (unhex32 h)"
  have "(\<lambda>m (h, a). case unhex32 h of None \<Rightarrow> m | Some k \<Rightarrow> hm_insert k a m)
    = (\<lambda>m y. case ?F y of None \<Rightarrow> m | Some (k, v) \<Rightarrow> hm_insert k (v :: string) m)"
    by (auto simp: fun_eq_iff split: option.splits)
  moreover have "inj (hex32 X)" using hex32_inject [OF hex] by (simp add: inj_def)
  moreover have "\<forall>x \<in> set m. ?F (hex32 X (fst x), snd x) = Some x"
    using assms(3) by (auto simp: unhex32_hex32 [OF hex])
  ultimately show ?thesis
    using load_collect [of "hex32 X" m ?F snd] assms(2) by (simp add: load_owners_def split_beta')
qed

lemma load_balances_collect:
  assumes hex: "hex_laws X" and "hm_ok m" and "\<forall>((a, k), b) \<in> set m. length k = 32"
  shows "load_balances (hm_collect (map (\<lambda>((a, k), b). (a @ ''|'' @ hex32 X k, b)) m)) [] = m"
proof -
  let ?F = "\<lambda>(key, b). case rsplit_once (CHR ''|'') key of None \<Rightarrow> None
    | Some (a, h) \<Rightarrow> map_option (\<lambda>k. ((a, k), b)) (unhex32 h)"
  let ?f = "\<lambda>(a, k). a @ CHR ''|'' # hex32 X k"
  have "(\<lambda>m (key, bal). case rsplit_once (CHR ''|'') key of None \<Rightarrow> m
      | Some (addr, id_hex) \<Rightarrow> (case unhex32 id_hex of None \<Rightarrow> m | Some k \<Rightarrow> hm_insert (addr, k) bal m))
    = (\<lambda>m y. case ?F y of None \<Rightarrow> m | Some (k, v) \<Rightarrow> hm_insert k (v :: u64) m)"
    by (auto simp: fun_eq_iff split: option.splits)
  moreover have "inj ?f" using balance_key_inject [OF hex] by (auto simp: inj_def)
  moreover have "\<forall>x \<in> set m. ?F (?f (fst x), snd x) = Some x"
    using assms(3) by (auto simp: unhex32_hex32 [OF hex] rsplit_once_app [OF hex32_no_bar [OF hex]])
  ultimately show ?thesis
    using load_collect [of ?f m ?F snd] assms(2) by (simp add: load_balances_def split_beta')
qed

text \<open>
  A saved snapshot restores the indexer: loading into an empty indexer what was written gives
  back every field, the three asset maps included, except the checkpoint (which is rebuilt by later
  scans), although their keys pass through hexadecimal text and, for balances, through a joined key.
\<close>

theorem snapshot_roundtrip:
  assumes hex: "hex_laws X" and typed: "store_typed (ix_state idx)"
  shows "apply_to (from_indexer X idx) indexer_default = idx\<lparr> checkpoint := None \<rparr>"
  using load_assets_collect [OF hex] load_balances_collect [OF hex] load_owners_collect [OF hex] typed
  unfolding store_typed_def
  by (simp add: apply_to_def from_indexer_def indexer_default_def asset_state_default_def)

definition demo_indexer :: Indexer where
  "demo_indexer = indexer_default\<lparr> ix_state := asset_run asset_state_default
     [(replicate 32 3, 5, ''a|b'', None, demo_issue), (replicate 32 4, 6, ''c'', None, demo_mint)],
     last_height := 6, scanned_any := True \<rparr>"

theorem snapshot_roundtrip_witness:
  "store_typed (ix_state demo_indexer) \<and> ft_balance (ix_state demo_indexer) ''a|b'' (replicate 32 3) = 21000000
   \<and> apply_to (from_indexer demo_ext demo_indexer) indexer_default = demo_indexer\<lparr> checkpoint := None \<rparr>"
proof -
  have "store_typed (ix_state demo_indexer)" "ft_balance (ix_state demo_indexer) ''a|b'' (replicate 32 3) = 21000000"
    by (simp_all add: store_typed_def demo_indexer_def asset_run_def asset_step_def demo_issue_def demo_mint_def
        apply_issue_def apply_nft_mint_def asset_state_default_def issued_info_def minted_info_def ft_balance_def
        get_or_0_def)
  with snapshot_roundtrip [OF demo_hex_laws, of demo_indexer] show ?thesis by simp
qed

end
