(* ===== verification/Stratum_Server.thy ===== *)
theory Stratum_Server
  imports Pool_Accounting Asset_Indexer
begin

text \<open>
  The stratum server of the pool: \<open>crates/tensorium-pool/src/stratum.rs\<close>. The JSON messages
  and the exchange with the node are in \<open>Stratum_Protocol\<close>; here each message of a connection is one operation on the shared state, with
  what the code asks of the outside as arguments: the clock (\<open>clk n\<close> is the answer at the \<open>n\<close>-th
  place of the operation that calls \<open>unix_now()\<close>), whether the node accepts a block, the reward found in a template
  and which channels are still connected. An operation that slices a string at a place that is not a
  character boundary panics, which is \<open>Panic\<close>.
\<close>

section \<open>Difficulty and jobs\<close>

definition VARDIFF_WINDOW_SECS :: u64 where "VARDIFF_WINDOW_SECS = 60"
definition VARDIFF_TARGET_MIN :: u64 where "VARDIFF_TARGET_MIN = 15"
definition VARDIFF_TARGET_MAX :: u64 where "VARDIFF_TARGET_MAX = 60"
definition VARDIFF_MIN_BITS :: u8 where "VARDIFF_MIN_BITS = 16"
definition VARDIFF_MAX_BITS :: u8 where "VARDIFF_MAX_BITS = 40"

record StratumJob =
  job_id :: string
  sj_chain_id :: string
  sj_height :: u64
  sj_previous_hash :: bytes
  sj_merkle_root :: bytes
  sj_epoch_seed :: bytes
  sj_timestamp :: u64
  difficulty_bits :: u8
  sj_version :: u32

record WorkerSession =
  connection_id :: string
  worker_name :: string
  ws_wallet_address :: string
  peer_addr :: string
  authorized_at_unix :: u64
  last_seen_at_unix :: u64
  accepted_shares :: u64
  rejected_shares :: u64
  last_submit_result :: string
  ws_share_diff_bits :: u8
  vardiff_window_shares :: u64
  vardiff_window_start :: u64

record StratumState =
  current_job :: "StratumJob option"
  initial_diff_bits :: u8
  ss_node_rpc :: string
  ss_treasury :: string
  workers :: "(string, WorkerSession) hashmap"
  shares_accepted :: u64
  shares_rejected :: u64
  ss_blocks_found :: u64
  job_senders :: "(string, unit) hashmap"
  job_template_cache :: "(string, string) hashmap"
  pool_ledger :: PayoutLedger
  ss_ledger_path :: string
  ss_ledger_file :: "PayoutLedger stored"

fun diff_to_bits_loop :: "nat \<Rightarrow> u8 \<Rightarrow> u8" where
  "diff_to_bits_loop d b = (if 1 < d then diff_to_bits_loop (d div 2) (b + 1) else b)"

declare diff_to_bits_loop.simps [simp del]

definition diff_to_bits :: "u64 \<Rightarrow> u8" where
  "diff_to_bits diff = (if diff \<le> 1 then 0 else diff_to_bits_loop (unat diff) 0)"

definition bits_to_diff :: "u8 \<Rightarrow> u64" where
  "bits_to_diff bits = push_bit (unat bits mod 64) 1"

definition new_stratum_state :: "string \<Rightarrow> string \<Rightarrow> u64 \<Rightarrow> PayoutLedger \<Rightarrow> string \<Rightarrow> PayoutLedger stored \<Rightarrow> StratumState" where
  "new_stratum_state rpc treasury share_diff ledger path file =
     \<lparr> current_job = None, initial_diff_bits = diff_to_bits share_diff, ss_node_rpc = rpc, ss_treasury = treasury,
       workers = [], shares_accepted = 0, shares_rejected = 0, ss_blocks_found = 0, job_senders = [],
       job_template_cache = [], pool_ledger = ledger, ss_ledger_path = path, ss_ledger_file = file \<rparr>"

text \<open>The count is kept in a \<open>u8\<close>: it is exact up to 255 and 0 for an all-zero hash.\<close>

definition stratum_zero_bits :: "bytes \<Rightarrow> u8" where
  "stratum_zero_bits hash = of_nat (leading_zero_bits_loop hash 0)"

definition job_header :: "StratumJob \<Rightarrow> u64 \<Rightarrow> BlockHeader" where
  "job_header job n =
     \<lparr> version = sj_version job, chain_id = sj_chain_id job, height = sj_height job,
       previous_hash = Hash256 (sj_previous_hash job), merkle_root = Hash256 (sj_merkle_root job),
       timestamp_seconds = sj_timestamp job, leading_zero_bits = difficulty_bits job, nonce = n \<rparr>"

section \<open>Nonces and shares\<close>

fun trim_start_0x :: "string \<Rightarrow> string" where
  "trim_start_0x (a # b # s) = (if a = CHR ''0'' \<and> b = CHR ''x'' then trim_start_0x s else a # b # s)"
| "trim_start_0x s = s"

text \<open>The first \<open>n\<close> pairs of digits. The slice of a pair panics when it ends inside a character.\<close>

fun nonce_pairs :: "nat \<Rightarrow> string \<Rightarrow> bytes option outcome" where
  "nonce_pairs (Suc n) (a # b # s) =
     (if s \<noteq> [] \<and> utf8_cont (of_char (hd s)) then Panic
      else case from_str_radix16 a b of
        None \<Rightarrow> Ret None
      | Some v \<Rightarrow>
          (case nonce_pairs n s of
             Panic \<Rightarrow> Panic
           | Ret None \<Rightarrow> Ret None
           | Ret (Some vs) \<Rightarrow> Ret (Some (v # vs))))"
| "nonce_pairs _ _ = Ret (Some [])"

definition le_hex_to_u64 :: "string \<Rightarrow> u64 option outcome" where
  "le_hex_to_u64 s =
     (let s = trim_start_0x s; pairs = length s div 2 in
      case nonce_pairs (min pairs 8) s of
        Panic \<Rightarrow> Panic
      | Ret None \<Rightarrow> Ret None
      | Ret (Some vs) \<Rightarrow> Ret (Some (u64_from_le (vs @ replicate (8 - length vs) 0))))"

definition validate_share :: "ext \<Rightarrow> StratumJob \<Rightarrow> string \<Rightarrow> u8 \<Rightarrow> (u8 \<times> bool \<times> bool) option outcome" where
  "validate_share X job nonce_hex worker_diff_bits =
     (case le_hex_to_u64 nonce_hex of
        Panic \<Rightarrow> Panic
      | Ret None \<Rightarrow> Ret None
      | Ret (Some n) \<Rightarrow>
          let hash = pow_hash X (job_header job n) (Hash256 (sj_epoch_seed job));
              zeros = stratum_zero_bits (hash_bytes hash);
              is_share = zeros \<ge> worker_diff_bits;
              is_block = zeros \<ge> difficulty_bits job
          in Ret (Some (zeros, is_share, is_block)))"

section \<open>Messages\<close>

definition splitn_dot :: "string \<Rightarrow> string \<times> string" where
  "splitn_dot auth =
     (let rest = dropWhile (\<lambda>c. c \<noteq> CHR ''.'') auth in
      (takeWhile (\<lambda>c. c \<noteq> CHR ''.'') auth, if rest = [] then ''default'' else tl rest))"

definition authorize :: "(nat \<Rightarrow> u64) \<Rightarrow> StratumState \<Rightarrow> string \<Rightarrow> string \<Rightarrow> string \<Rightarrow> StratumState" where
  "authorize clk st cid peer auth =
     (let (wallet, wname) = splitn_dot auth in
      st\<lparr> workers := hm_insert cid
        \<lparr> connection_id = cid, worker_name = wname, ws_wallet_address = wallet, peer_addr = peer,
          authorized_at_unix = clk 0, last_seen_at_unix = clk 1, accepted_shares = 0, rejected_shares = 0,
          last_submit_result = ''authorized'', ws_share_diff_bits = initial_diff_bits st,
          vardiff_window_shares = 0, vardiff_window_start = clk 2 \<rparr> (workers st) \<rparr>)"

text \<open>\<open>if let Some(w) = s.workers.get_mut(&connection_id) { .. }\<close>\<close>

definition update_worker :: "(WorkerSession \<Rightarrow> WorkerSession) \<Rightarrow> string \<Rightarrow> StratumState \<Rightarrow> StratumState" where
  "update_worker f cid st =
     (case hm_get (workers st) cid of
        None \<Rightarrow> st
      | Some w \<Rightarrow> st\<lparr> workers := hm_insert cid (f w) (workers st) \<rparr>)"

definition vardiff_bits :: "u8 \<Rightarrow> u64 \<Rightarrow> u8" where
  "vardiff_bits old spm =
     (if spm > VARDIFF_TARGET_MAX then min (old + 1) VARDIFF_MAX_BITS
      else if spm < VARDIFF_TARGET_MIN then max (sat_sub old 1) VARDIFF_MIN_BITS
      else old)"

definition accept_worker :: "bool \<Rightarrow> u64 \<Rightarrow> u64 \<Rightarrow> WorkerSession \<Rightarrow> WorkerSession" where
  "accept_worker is_block seen now w =
     (let w1 = w\<lparr> last_seen_at_unix := seen, accepted_shares := accepted_shares w + 1,
                  last_submit_result := (if is_block then ''block'' else ''accepted''),
                  vardiff_window_shares := vardiff_window_shares w + 1 \<rparr>;
          elapsed = max (sat_sub now (vardiff_window_start w1)) 1 in
      if elapsed \<ge> VARDIFF_WINDOW_SECS then
        let spm = sat_mul (vardiff_window_shares w1) 60 div elapsed in
        w1\<lparr> vardiff_window_shares := 0, vardiff_window_start := now,
            ws_share_diff_bits := vardiff_bits (ws_share_diff_bits w1) spm \<rparr>
      else w1)"

definition reject_stale :: "WorkerSession \<Rightarrow> WorkerSession" where
  "reject_stale w = w\<lparr> rejected_shares := rejected_shares w + 1, last_submit_result := ''rejected-stale'' \<rparr>"

definition reject_worker :: "u64 \<Rightarrow> WorkerSession \<Rightarrow> WorkerSession" where
  "reject_worker seen w =
     w\<lparr> last_seen_at_unix := seen, rejected_shares := rejected_shares w + 1, last_submit_result := ''rejected'' \<rparr>"

definition worker_name_of :: "StratumState \<Rightarrow> string \<Rightarrow> string" where
  "worker_name_of st cid = (case hm_get (workers st) cid of Some w \<Rightarrow> worker_name w | None \<Rightarrow> ''unknown'')"

definition worker_bits_of :: "StratumState \<Rightarrow> string \<Rightarrow> u8" where
  "worker_bits_of st cid =
     (case hm_get (workers st) cid of Some w \<Rightarrow> ws_share_diff_bits w | None \<Rightarrow> initial_diff_bits st)"

definition share_record :: "StratumState \<Rightarrow> string \<Rightarrow> string \<Rightarrow> u8 \<Rightarrow> u64 \<Rightarrow> ShareRecord" where
  "share_record st cid wallet bits t =
     \<lparr> sr_wallet_address = wallet, sr_worker_name = worker_name_of st cid, sr_share_diff_bits = bits,
       submitted_at_unix = t \<rparr>"

text \<open>Handing the block to the node can panic on a cached template of another shape.\<close>

record node_link =
  node_accepts :: "StratumJob \<Rightarrow> u64 \<Rightarrow> string option \<Rightarrow> bool outcome"
  save_result :: write_outcome
  gross_from_template :: "string \<Rightarrow> u64"

definition found_block :: "ext \<Rightarrow> node_link \<Rightarrow> (nat \<Rightarrow> u64) \<Rightarrow> StratumState \<Rightarrow> string \<Rightarrow> string \<Rightarrow> StratumJob \<Rightarrow> string \<Rightarrow> u64 \<Rightarrow> u8 \<Rightarrow> StratumState outcome" where
  "found_block X nd clk st cid wallet job jid n bits =
     (let raw = (case hm_get (job_template_cache st) (job_id job) of
                   Some r \<Rightarrow> Some r | None \<Rightarrow> hm_get (job_template_cache st) jid) in
      case node_accepts nd job n raw of
        Panic \<Rightarrow> Panic
      | Ret accepted \<Rightarrow>
          let st1 =
            (if accepted then
               let l = credit_block (pool_ledger st) (share_record st cid wallet bits (clk 0))
                     (sj_height job) (hex_string (hash_bytes (header_hash X (job_header job n))))
                     (case raw of None \<Rightarrow> 0 | Some r \<Rightarrow> gross_from_template nd r)
               in st\<lparr> pool_ledger := l, ss_ledger_file := fst (ledger_save (save_result nd) l (ss_ledger_file st)) \<rparr>
             else st)
          in Ret (st1\<lparr> ss_blocks_found := ss_blocks_found st1 + 1 \<rparr>))"

datatype submit_reply = ShareAccepted | ShareRejected | ShareStale

text \<open>\<open>mining.submit\<close> of an authorised connection. The new difficulty it may announce is the one
  of the worker in the state returned.\<close>

definition submit_share ::
  "ext \<Rightarrow> node_link \<Rightarrow> (nat \<Rightarrow> u64) \<Rightarrow> StratumState \<Rightarrow> string \<Rightarrow> string \<Rightarrow> string \<Rightarrow> string \<Rightarrow> string \<Rightarrow> (submit_reply \<times> StratumState) outcome"
where
  "submit_share X nd clk st cid wallet last_job_id jid nonce_hex =
     (let bits = worker_bits_of st cid in
      case current_job st of
        None \<Rightarrow> Ret (ShareRejected, st)
      | Some job \<Rightarrow>
          if job_id job \<noteq> jid \<and> jid \<noteq> last_job_id then
            Ret (ShareStale, update_worker reject_stale cid (st\<lparr> shares_rejected := shares_rejected st + 1 \<rparr>))
          else
            (case validate_share X job nonce_hex bits of
               Panic \<Rightarrow> Panic
             | Ret (Some (_, True, is_block)) \<Rightarrow>
                 let n = (case le_hex_to_u64 nonce_hex of Ret (Some n) \<Rightarrow> n | _ \<Rightarrow> 0) in
                 (case (if is_block then found_block X nd clk st cid wallet job jid n bits else Ret st) of
                    Panic \<Rightarrow> Panic
                  | Ret st1 \<Rightarrow>
                 let st2 = update_worker (accept_worker is_block (clk 1) (clk 2)) cid
                             (st1\<lparr> shares_accepted := shares_accepted st1 + 1 \<rparr>);
                     st3 = (if is_block then st2
                            else st2\<lparr> pool_ledger := push_share (pool_ledger st2)
                                       (share_record st2 cid wallet bits (clk 3)) \<rparr>)
                 in Ret (ShareAccepted, st3))
             | _ \<Rightarrow>
                 Ret (ShareRejected, update_worker (reject_worker (clk 0)) cid
                        (st\<lparr> shares_rejected := shares_rejected st + 1 \<rparr>))))"

definition pong :: "(nat \<Rightarrow> u64) \<Rightarrow> StratumState \<Rightarrow> string \<Rightarrow> StratumState" where
  "pong clk st cid = update_worker (\<lambda>w. w\<lparr> last_seen_at_unix := clk 0 \<rparr>) cid st"

definition disconnect :: "StratumState \<Rightarrow> string \<Rightarrow> StratumState" where
  "disconnect st cid =
     st\<lparr> workers := hm_remove cid (workers st), job_senders := hm_remove cid (job_senders st) \<rparr>"

definition connect :: "StratumState \<Rightarrow> string \<Rightarrow> StratumState" where
  "connect st cid = st\<lparr> job_senders := hm_insert cid () (job_senders st) \<rparr>"

text \<open>One round of the job poller with the job fetched from the node; \<open>alive\<close> tells which channels
  still have a receiver. It returns the height it remembers.\<close>

definition poll_job :: "(string \<Rightarrow> bool) \<Rightarrow> u64 \<Rightarrow> StratumState \<Rightarrow> (StratumJob \<times> string) option \<Rightarrow> u64 \<times> StratumState" where
  "poll_job alive seen_height st fetched =
     (case fetched of
        None \<Rightarrow> (seen_height, st)
      | Some (job, raw) \<Rightarrow>
          if sj_height job \<noteq> seen_height then
            let cache = job_template_cache st;
                cache = (if length cache \<ge> 2
                         then filter (\<lambda>(k, _). Some k = map_option job_id (current_job st)) cache else cache)
            in (sj_height job, st\<lparr> job_template_cache := hm_insert (job_id job) raw cache,
                                   current_job := Some job,
                                   job_senders := filter (\<lambda>(k, _). alive k) (job_senders st) \<rparr>)
          else (seen_height, st))"

section \<open>Shares\<close>

text \<open>A share of a job: its nonce hashes to the asked number of zero bits.\<close>

definition share_zeros :: "ext \<Rightarrow> StratumJob \<Rightarrow> u64 \<Rightarrow> u8" where
  "share_zeros X job n = stratum_zero_bits (hash_bytes (pow_hash X (job_header job n) (Hash256 (sj_epoch_seed job))))"

lemma validate_share_eq:
  "validate_share X job nh bits =
    (case le_hex_to_u64 nh of Panic \<Rightarrow> Panic | Ret None \<Rightarrow> Ret None
     | Ret (Some n) \<Rightarrow> Ret (Some (share_zeros X job n, bits \<le> share_zeros X job n, difficulty_bits job \<le> share_zeros X job n)))"
  by (simp add: validate_share_def share_zeros_def Let_def split: outcome.splits option.splits)

lemma update_worker_simps [simp]:
  "pool_ledger (update_worker f cid st) = pool_ledger st" "current_job (update_worker f cid st) = current_job st"
  "shares_accepted (update_worker f cid st) = shares_accepted st" "shares_rejected (update_worker f cid st) = shares_rejected st"
  "ss_blocks_found (update_worker f cid st) = ss_blocks_found st"
  "hm_get (workers (update_worker f cid st)) c = (if c = cid then map_option f (hm_get (workers st) cid) else hm_get (workers st) c)"
  by (auto simp: update_worker_def split: option.splits)

lemma credit_block_window: "share_window (credit_block l s h bh g) = window_push (share_window l) s"
proof -
  have "share_window (foldl (\<lambda>l (addr, g). ledger_push l (new_payout_entry h bh addr g)) k ps) = share_window k" for k ps
    by (induction ps arbitrary: k) (auto simp: ledger_push_def)
  then show ?thesis by (simp add: credit_block_def Let_def push_share_def)
qed

lemma found_block_simps:
  assumes "found_block X nd clk st cid wa job jid n b = Ret st1"
  shows "workers st1 = workers st" "shares_accepted st1 = shares_accepted st" "shares_rejected st1 = shares_rejected st"
    "ss_blocks_found st1 = ss_blocks_found st + 1" "current_job st1 = current_job st"
    "job_template_cache st1 = job_template_cache st" "job_senders st1 = job_senders st" "initial_diff_bits st1 = initial_diff_bits st"
  using assms by (auto simp: found_block_def Let_def split: outcome.splits)

lemma found_block_ledger:
  "found_block X nd clk st cid wa job jid n b = Ret st1 \<Longrightarrow> pool_ledger st1 = pool_ledger st
   \<or> share_window (pool_ledger st1) = window_push (share_window (pool_ledger st)) (share_record st cid wa b (clk 0))"
  by (auto simp: found_block_def Let_def credit_block_window split: outcome.splits)

text \<open>Difficulty moves one bit at a time and stays in its band.\<close>

lemma vardiff_bits_band:
  assumes "VARDIFF_MIN_BITS \<le> old" and "old \<le> VARDIFF_MAX_BITS"
  shows "VARDIFF_MIN_BITS \<le> vardiff_bits old spm \<and> vardiff_bits old spm \<le> VARDIFF_MAX_BITS
    \<and> unat (vardiff_bits old spm) \<le> unat old + 1 \<and> unat old \<le> unat (vardiff_bits old spm) + 1"
proof -
  have o: "16 \<le> unat old" "unat old \<le> 40"
    using assms by (simp_all add: VARDIFF_MIN_BITS_def VARDIFF_MAX_BITS_def word_le_nat_alt)
  have "unat (old + 1) = unat old + 1" using o by (simp add: unat_word_ariths)
  then have up: "unat (min (old + 1) 40) = min (unat old + 1) 40" by (simp add: min_def word_le_nat_alt)
  have dn: "unat (max (sat_sub old 1) 16) = max (unat old - 1) 16" by (simp add: max_def word_le_nat_alt unat_sat_sub)
  show ?thesis
    using o up dn by (simp add: vardiff_bits_def VARDIFF_MIN_BITS_def VARDIFF_MAX_BITS_def word_le_nat_alt)
      (auto simp: min_def max_def)
qed

lemma accept_worker_bits:
  "ws_share_diff_bits (accept_worker b t n w) = ws_share_diff_bits w
   \<or> (\<exists>spm. ws_share_diff_bits (accept_worker b t n w) = vardiff_bits (ws_share_diff_bits w) spm)"
  by (auto simp: accept_worker_def Let_def)

lemma reject_bits [simp]:
  "ws_share_diff_bits (reject_stale w) = ws_share_diff_bits w" "ws_share_diff_bits (reject_worker t w) = ws_share_diff_bits w"
  by (simp_all add: reject_stale_def reject_worker_def)

definition bits_in_band :: "u8 \<Rightarrow> bool" where
  "bits_in_band b \<longleftrightarrow> VARDIFF_MIN_BITS \<le> b \<and> b \<le> VARDIFF_MAX_BITS"

lemma accept_worker_band:
  "bits_in_band (ws_share_diff_bits w) \<Longrightarrow>
    bits_in_band (ws_share_diff_bits (accept_worker b t n w))
    \<and> unat (ws_share_diff_bits (accept_worker b t n w)) \<le> unat (ws_share_diff_bits w) + 1
    \<and> unat (ws_share_diff_bits w) \<le> unat (ws_share_diff_bits (accept_worker b t n w)) + 1"
  using accept_worker_bits [of b t n w] vardiff_bits_band [of "ws_share_diff_bits w"] by (auto simp: bits_in_band_def)

text \<open>The outcomes of a submission, with their conditions and effects.\<close>

lemma submit_share_cases:
  assumes "submit_share X nd clk st cid wallet lj jid nh = Ret (reply, st')"
  obtains (no_job) "current_job st = None" "reply = ShareRejected" "st' = st"
    | (stale) job where "current_job st = Some job" "jid \<noteq> job_id job" "jid \<noteq> lj" "reply = ShareStale"
        "st' = update_worker reject_stale cid (st\<lparr> shares_rejected := shares_rejected st + 1 \<rparr>)"
    | (rejected) job where "current_job st = Some job" "jid = job_id job \<or> jid = lj" "reply = ShareRejected"
        "\<forall>n. le_hex_to_u64 nh = Ret (Some n) \<longrightarrow> share_zeros X job n < worker_bits_of st cid"
        "st' = update_worker (reject_worker (clk 0)) cid (st\<lparr> shares_rejected := shares_rejected st + 1 \<rparr>)"
    | (accepted) job n st1 where "current_job st = Some job" "jid = job_id job \<or> jid = lj" "reply = ShareAccepted"
        "le_hex_to_u64 nh = Ret (Some n)" "worker_bits_of st cid \<le> share_zeros X job n"
        "(if difficulty_bits job \<le> share_zeros X job n
          then found_block X nd clk st cid wallet job jid n (worker_bits_of st cid) else Ret st) = Ret st1"
        "workers st' = workers (update_worker (accept_worker (difficulty_bits job \<le> share_zeros X job n) (clk 1) (clk 2)) cid st)"
        "shares_accepted st' = shares_accepted st + 1" "shares_rejected st' = shares_rejected st"
        "ss_blocks_found st' = ss_blocks_found st1"
        "if difficulty_bits job \<le> share_zeros X job n then pool_ledger st' = pool_ledger st1
         else \<exists>s. sr_wallet_address s = wallet \<and> sr_share_diff_bits s = worker_bits_of st cid
           \<and> pool_ledger st' = push_share (pool_ledger st) s"
proof (cases "current_job st")
  case None
  then have "reply = ShareRejected" "st' = st" using assms by (simp_all add: submit_share_def)
  with None show ?thesis by (rule no_job)
next
  case (Some job)
  note j = Some
  show ?thesis
  proof (cases "jid \<noteq> job_id job \<and> jid \<noteq> lj")
    case True
    then have "job_id job \<noteq> jid \<and> jid \<noteq> lj" by auto
    note S = assms [unfolded submit_share_def Let_def j option.case if_P [OF this]]
    then have "reply = ShareStale" "st' = update_worker reject_stale cid (st\<lparr> shares_rejected := shares_rejected st + 1 \<rparr>)"
      by simp_all
    with True show ?thesis by (intro stale [OF j]) blast+
  next
    case False
    then have ns: "\<not> (job_id job \<noteq> jid \<and> jid \<noteq> lj)" by auto
    note S = assms [unfolded submit_share_def Let_def j option.case if_not_P [OF ns] validate_share_eq]
    show ?thesis
    proof (cases "\<exists>n. le_hex_to_u64 nh = Ret (Some n) \<and> worker_bits_of st cid \<le> share_zeros X job n")
      case True
      then obtain n where n: "le_hex_to_u64 nh = Ret (Some n)" "worker_bits_of st cid \<le> share_zeros X job n" by blast
      have uw: "workers (update_worker f cid (k\<lparr> shares_accepted := a \<rparr>)) = workers (update_worker f cid st)"
        if "workers k = workers st" for f k a using that by (simp add: update_worker_def split: option.splits)
      let ?b = "difficulty_bits job \<le> share_zeros X job n"
      have bt: "(worker_bits_of st cid \<le> share_zeros X job n) = True" using n(2) by simp
      note S1 = S [unfolded n(1) bt outcome.case option.case prod.case bool.case]
      obtain st1 where f: "(if ?b then found_block X nd clk st cid wallet job jid n (worker_bits_of st cid) else Ret st) = Ret st1"
        using S1 by (cases "if ?b then found_block X nd clk st cid wallet job jid n (worker_bits_of st cid) else Ret st") auto
      then have k: "workers st1 = workers st" "shares_accepted st1 = shares_accepted st" "shares_rejected st1 = shares_rejected st"
        "\<not> ?b \<Longrightarrow> st1 = st" using found_block_simps by (metis outcome.inject)+
      let ?st1 = st1
      let ?st2 = "update_worker (accept_worker ?b (clk 1) (clk 2)) cid (?st1\<lparr> shares_accepted := shares_accepted ?st1 + 1 \<rparr>)"
      note S2 = S1 [unfolded f outcome.case outcome.inject prod.inject]
      have R: "reply = ShareAccepted"
        and S': "st' = (if ?b then ?st2 else ?st2\<lparr> pool_ledger := push_share (pool_ledger ?st2)
          (share_record ?st2 cid wallet (worker_bits_of st cid) (clk 3)) \<rparr>)"
        by (rule sym [OF conjunct1 [OF S2]], rule sym [OF conjunct2 [OF S2]])
      have w: "workers st' = workers (update_worker (accept_worker ?b (clk 1) (clk 2)) cid st)"
        unfolding S' by (simp add: uw k)
      have c: "shares_accepted st' = shares_accepted st + 1" "shares_rejected st' = shares_rejected st"
        "ss_blocks_found st' = ss_blocks_found ?st1" unfolding S' by (simp_all add: k)
      have l: "if ?b then pool_ledger st' = pool_ledger ?st1
         else \<exists>s. sr_wallet_address s = wallet \<and> sr_share_diff_bits s = worker_bits_of st cid
           \<and> pool_ledger st' = push_share (pool_ledger st) s"
        unfolding S' using k(4) by (simp add: share_record_def) (metis ShareRecord.select_convs(1,3))
      show ?thesis by (rule accepted [OF j _ R n f w c l]) (use False in blast)
    next
      case bad: False
      then have "reply = ShareRejected \<and> st' = update_worker (reject_worker (clk 0)) cid (st\<lparr> shares_rejected := shares_rejected st + 1 \<rparr>)"
        using S by (auto split: outcome.splits option.splits)
      then have "reply = ShareRejected" "st' = update_worker (reject_worker (clk 0)) cid (st\<lparr> shares_rejected := shares_rejected st + 1 \<rparr>)"
        by blast+
      moreover have "\<forall>n. le_hex_to_u64 nh = Ret (Some n) \<longrightarrow> share_zeros X job n < worker_bits_of st cid"
        using bad by (simp add: not_le)
      ultimately show ?thesis using False by (intro rejected [OF j]) blast+
    qed
  qed
qed

text \<open>
  C39. What a submission does. It is accepted exactly when there is a job, the share names it (or the
  connection's previous one), and its nonce reaches the worker's difficulty; the accepted counter moves
  with the reply. An accepted share enters the reward window once, with the worker's difficulty as its
  weight and the connection's wallet as its owner, unless it is a block that the node refused, which
  leaves the ledger as it was. Without acceptance the ledger does not change. Other connections are
  never touched, and the worker's difficulty moves by at most one bit and stays between 16 and 40.
\<close>

theorem submit_share_effect:
  assumes r: "submit_share X nd clk st cid wallet lj jid nh = Ret (reply, st')"
  shows "(reply = ShareAccepted \<longleftrightarrow> (\<exists>job n. current_job st = Some job \<and> (jid = job_id job \<or> jid = lj)
            \<and> le_hex_to_u64 nh = Ret (Some n) \<and> worker_bits_of st cid \<le> share_zeros X job n))
    \<and> shares_accepted st' = shares_accepted st + (if reply = ShareAccepted then 1 else 0)
    \<and> (reply \<noteq> ShareAccepted \<longrightarrow> pool_ledger st' = pool_ledger st)
    \<and> (reply = ShareAccepted \<longrightarrow>
         (\<exists>s. sr_wallet_address s = wallet \<and> sr_share_diff_bits s = worker_bits_of st cid
            \<and> share_window (pool_ledger st') = window_push (share_window (pool_ledger st)) s)
         \<or> ss_blocks_found st' = ss_blocks_found st + 1 \<and> pool_ledger st' = pool_ledger st)
    \<and> (\<forall>c. c \<noteq> cid \<longrightarrow> hm_get (workers st') c = hm_get (workers st) c)
    \<and> (\<forall>w. hm_get (workers st) cid = Some w \<and> bits_in_band (ws_share_diff_bits w) \<longrightarrow>
         (\<exists>w'. hm_get (workers st') cid = Some w' \<and> bits_in_band (ws_share_diff_bits w')
            \<and> unat (ws_share_diff_bits w') \<le> unat (ws_share_diff_bits w) + 1
            \<and> unat (ws_share_diff_bits w) \<le> unat (ws_share_diff_bits w') + 1))"
  using r
proof (cases rule: submit_share_cases)
  case no_job
  then show ?thesis by simp
next
  case (stale job)
  then show ?thesis by simp
next
  case (rejected job)
  then show ?thesis by (auto simp: not_le [symmetric])
next
  case (accepted job n st1)
  let ?b = "difficulty_bits job \<le> share_zeros X job n"
  have led: "(\<exists>s. sr_wallet_address s = wallet \<and> sr_share_diff_bits s = worker_bits_of st cid
            \<and> share_window (pool_ledger st') = window_push (share_window (pool_ledger st)) s)
         \<or> ss_blocks_found st' = ss_blocks_found st + 1 \<and> pool_ledger st' = pool_ledger st"
  proof (cases ?b)
    case True
    then have st1: "found_block X nd clk st cid wallet job jid n (worker_bits_of st cid) = Ret st1" "pool_ledger st' = pool_ledger st1"
      using accepted(6,11) by simp_all
    let ?s = "share_record st cid wallet (worker_bits_of st cid) (clk 0)"
    have "sr_wallet_address ?s = wallet" "sr_share_diff_bits ?s = worker_bits_of st cid" by (simp_all add: share_record_def)
    with found_block_ledger [OF st1(1)] found_block_simps(4) [OF st1(1)] st1(2) accepted(10)
    show ?thesis by metis
  next
    case False
    with accepted(11) obtain s where "sr_wallet_address s = wallet" "sr_share_diff_bits s = worker_bits_of st cid"
      "pool_ledger st' = push_share (pool_ledger st) s" by auto
    then show ?thesis by (auto simp: push_share_def)
  qed
  have oth: "hm_get (workers st') c = hm_get (workers st) c" if "c \<noteq> cid" for c
    unfolding accepted(7) using that by simp
  have own: "hm_get (workers st') cid = map_option (accept_worker ?b (clk 1) (clk 2)) (hm_get (workers st) cid)"
    unfolding accepted(7) by simp
  have band: "\<exists>w'. hm_get (workers st') cid = Some w' \<and> bits_in_band (ws_share_diff_bits w')
            \<and> unat (ws_share_diff_bits w') \<le> unat (ws_share_diff_bits w) + 1
            \<and> unat (ws_share_diff_bits w) \<le> unat (ws_share_diff_bits w') + 1"
    if "hm_get (workers st) cid = Some w" "bits_in_band (ws_share_diff_bits w)" for w
    using own that(1) accept_worker_band [OF that(2), of ?b "clk 1" "clk 2"] by simp
  have "\<exists>job n. current_job st = Some job \<and> (jid = job_id job \<or> jid = lj)
            \<and> le_hex_to_u64 nh = Ret (Some n) \<and> worker_bits_of st cid \<le> share_zeros X job n"
    using accepted(1,2,4,5) by blast
  with accepted(3,8) led oth band show ?thesis by simp
qed

text \<open>
  A nonce that solves the block is refused, and nothing is sent to the node, when the worker's
  share difficulty is above the difficulty of the job: the work is measured against the share target
  first. The share target may rise to 40 bits while the network may go down to 34, so on the main
  network a solved block can be lost this way.
\<close>

theorem solved_block_refused:
  assumes job: "current_job st = Some job" and n: "le_hex_to_u64 nh = Ret (Some n)"
    and solved: "unat (difficulty_bits job) \<le> hash_leading_zero_bits (pow_hash X (job_header job n) (Hash256 (sj_epoch_seed job)))"
    and below: "hash_leading_zero_bits (pow_hash X (job_header job n) (Hash256 (sj_epoch_seed job))) < unat (worker_bits_of st cid)"
  shows "header_meets_work X (job_header job n) (Hash256 (sj_epoch_seed job))
    \<and> (\<exists>st'. submit_share X nd clk st cid wallet lj (job_id job) nh = Ret (ShareRejected, st')
         \<and> ss_blocks_found st' = ss_blocks_found st \<and> pool_ledger st' = pool_ledger st)"
proof -
  let ?h = "pow_hash X (job_header job n) (Hash256 (sj_epoch_seed job))"
  have small: "hash_leading_zero_bits ?h < 256" using below unat_u8_lt [of "worker_bits_of st cid"] by linarith
  then have "unat (share_zeros X job n) = hash_leading_zero_bits ?h"
    by (simp add: share_zeros_def stratum_zero_bits_def hash_leading_zero_bits_def unat_of_nat_u8)
  with below have nb: "(worker_bits_of st cid \<le> share_zeros X job n) = False" by (simp add: word_le_nat_alt)
  have "header_meets_work X (job_header job n) (Hash256 (sj_epoch_seed job))"
    using solved by (simp add: header_meets_work_def hash_meets_work_def job_header_def)
  moreover have "submit_share X nd clk st cid wallet lj (job_id job) nh =
      Ret (ShareRejected, update_worker (reject_worker (clk 0)) cid (st\<lparr> shares_rejected := shares_rejected st + 1 \<rparr>))"
    using job by (simp add: submit_share_def validate_share_eq n nb)
  ultimately show ?thesis by simp
qed

text \<open>A hash function of constant value with 39 leading zero bits.\<close>

definition zeros_ext :: ext where
  "zeros_ext = demo_ext\<lparr> blake2b256 := (\<lambda>_. replicate 4 0 @ 1 # replicate 27 0) \<rparr>"

definition demo_job :: StratumJob where
  "demo_job = \<lparr> job_id = ''j'', sj_chain_id = ''c'', sj_height = 7, sj_previous_hash = replicate 32 1,
     sj_merkle_root = replicate 32 2, sj_epoch_seed = replicate 32 0, sj_timestamp = 1,
     difficulty_bits = 34, sj_version = 1 \<rparr>"

definition demo_server :: "u8 \<Rightarrow> StratumState" where
  "demo_server bits = (new_stratum_state ''n:1'' ''t'' 0 ledger_default ''l'' Absent)\<lparr> current_job := Some demo_job, initial_diff_bits := bits \<rparr>"

lemma demo_zeros: "hash_leading_zero_bits (pow_hash zeros_ext h s) = 39"
  by (simp add: pow_hash_def tensor_pow_hash_def Let_def zeros_ext_def hash_leading_zero_bits_def
      numeral_eq_Suc u8_leading_zeros_def)

lemma demo_nonce: "le_hex_to_u64 ''0'' = Ret (Some 0)"
  by (simp add: le_hex_to_u64_def u64_from_le_def)

definition demo_node :: node_link where
  "demo_node = \<lparr> node_accepts = (\<lambda>_ _ _. Ret True), save_result = Written, gross_from_template = (\<lambda>_. 1000) \<rparr>"

theorem solved_block_refused_witness:
  "header_meets_work zeros_ext (job_header demo_job 0) (Hash256 (sj_epoch_seed demo_job))
   \<and> (\<exists>st'. submit_share zeros_ext demo_node (\<lambda>_. 0) (demo_server 40) ''w'' ''a'' [] ''j'' ''0'' = Ret (ShareRejected, st'))"
proof -
  have "current_job (demo_server 40) = Some demo_job" "worker_bits_of (demo_server 40) ''w'' = 40"
    by (simp_all add: demo_server_def new_stratum_state_def worker_bits_of_def)
  moreover have "difficulty_bits demo_job = 34" "job_id demo_job = ''j''" by (simp_all add: demo_job_def)
  ultimately show ?thesis
    using solved_block_refused [where st = "demo_server 40" and job = demo_job and nh = "''0''" and n = 0
        and X = zeros_ext and cid = "''w''" and nd = demo_node and clk = "\<lambda>_. 0" and wallet = "''a''" and lj = "[]"]
      demo_zeros demo_nonce by auto
qed

theorem submit_share_effect_witness:
  "\<exists>reply st'. submit_share zeros_ext demo_node (\<lambda>_. 0) (demo_server 20) ''w'' ''a'' [] ''j'' ''0'' = Ret (reply, st')
    \<and> reply = ShareAccepted \<and> shares_accepted st' = 1"
proof -
  let ?st = "demo_server 20"
  have st: "current_job ?st = Some demo_job" "worker_bits_of ?st ''w'' = 20" "shares_accepted ?st = 0" "job_id demo_job = ''j''"
    by (simp_all add: demo_server_def new_stratum_state_def worker_bits_of_def demo_job_def)
  have z: "share_zeros zeros_ext demo_job 0 = 39"
    using demo_zeros by (simp add: share_zeros_def stratum_zero_bits_def hash_leading_zero_bits_def)
  have bits: "difficulty_bits demo_job = 34" by (simp add: demo_job_def)
  obtain st1 where fb: "found_block zeros_ext demo_node (\<lambda>_. 0) ?st ''w'' ''a'' demo_job ''j'' 0 20 = Ret st1"
    by (simp add: found_block_def demo_node_def Let_def)
  obtain reply st' where r: "submit_share zeros_ext demo_node (\<lambda>_. 0) ?st ''w'' ''a'' [] ''j'' ''0'' = Ret (reply, st')"
    using st fb bits by (simp add: submit_share_def validate_share_eq demo_nonce z Let_def)
  have "reply = ShareAccepted \<longleftrightarrow> (\<exists>job n. current_job ?st = Some job \<and> (''j'' = job_id job \<or> ''j'' = [])
      \<and> le_hex_to_u64 ''0'' = Ret (Some n) \<and> worker_bits_of ?st ''w'' \<le> share_zeros zeros_ext job n)"
    and c: "shares_accepted st' = shares_accepted ?st + (if reply = ShareAccepted then 1 else 0)"
    using submit_share_effect [OF r] by blast+
  then have "reply = ShareAccepted" using st z demo_nonce by simp
  with r c st show ?thesis by simp
qed

end
