(* ===== verification/Chain_Invariant.thy ===== *)
theory Chain_Invariant
  imports Chain_State
begin

text \<open>
  The invariant of the chain database and what fork choice guarantees. Every stored block lies on
  a path to a genesis block, so the walks along \<open>previous_hash\<close> end; the canonical index lists the
  path of the tip; and when the UTXO column family is stamped with the tip it equals the replay of
  that path, whether it was built by the incremental delta of the fast path or by a rewrite.
\<close>

section \<open>Paths\<close>

inductive chain_path :: "ext \<Rightarrow> (bytes, Block) hashmap \<Rightarrow> Hash256 \<Rightarrow> Block list \<Rightarrow> bool"
  for X bs where
  genesis: "chain_path X bs h [b]"
    if "hm_get bs (hash_bytes h) = Some b" "block_hash X b = h" "previous_hash (header b) = ZERO"
      "height (header b) = 0"
| extend: "chain_path X bs h (chain @ [b])"
    if "chain_path X bs (previous_hash (header b)) chain" "hm_get bs (hash_bytes h) = Some b"
      "block_hash X b = h" "previous_hash (header b) \<noteq> ZERO" "unat (height (header b)) = length chain"

inductive_cases chain_pathE: "chain_path X bs h chain"

lemma chain_path_last:
  assumes "chain_path X bs h chain"
  shows "chain \<noteq> [] \<and> hm_get bs (hash_bytes h) = Some (last chain) \<and> block_hash X (last chain) = h
    \<and> unat (height (header (last chain))) = length chain - 1"
  using assms by (cases rule: chain_path.cases) auto

lemma chain_path_heights:
  "chain_path X bs h chain \<Longrightarrow> map (unat \<circ> height \<circ> header) chain = [0..<length chain]"
  by (induction rule: chain_path.induct) auto

lemma chain_path_stored:
  "chain_path X bs h chain \<Longrightarrow> b \<in> set chain \<Longrightarrow> hm_get bs (hash_bytes (block_hash X b)) = Some b"
  by (induction rule: chain_path.induct) auto

lemma chain_path_unique: "chain_path X bs h chain \<Longrightarrow> chain_path X bs h chain' \<Longrightarrow> chain = chain'"
proof (induction arbitrary: chain' rule: chain_path.induct)
  case (genesis h b)
  from genesis(5) show ?case using genesis(1-4) by (cases rule: chain_path.cases) auto
next
  case (extend b chain h)
  from extend.prems show ?case using extend.IH extend.hyps(2-5) by (cases rule: chain_path.cases) auto
qed

lemma chain_path_insert:
  assumes "chain_path X bs h chain" and "hm_get bs k = None"
  shows "chain_path X (hm_insert k v bs) h chain"
  using assms
proof (induction rule: chain_path.induct)
  case (genesis h b)
  then show ?case by (intro chain_path.genesis) auto
next
  case (extend b chain h)
  then show ?case by (intro chain_path.extend) auto
qed

definition block_work :: "Block \<Rightarrow> u128" where
  "block_work b = push_bit (unat (leading_zero_bits (header b)) mod 128) 1"

text \<open>The work of a path, accumulated from the tip as the source does.\<close>

definition path_work :: "Block list \<Rightarrow> u128" where
  "path_work chain = fold (\<lambda>b w. sat_add w (block_work b)) (rev chain) 0"

lemma chain_work_loop_path:
  "chain_path X bs h chain \<Longrightarrow>
    chain_work_loop bs h w = Some (fold (\<lambda>b w. sat_add w (block_work b)) (rev chain) w)"
proof (induction arbitrary: w rule: chain_path.induct)
  case (genesis h b)
  then show ?case by (subst chain_work_loop.simps) (simp add: Let_def block_work_def)
next
  case (extend b chain h)
  then show ?case by (subst chain_work_loop.simps) (simp add: Let_def block_work_def)
qed

lemma build_chain_loop_path:
  "chain_path X bs h chain \<Longrightarrow> build_chain_loop bs h acc = Some (acc @ rev chain)"
proof (induction arbitrary: acc rule: chain_path.induct)
  case (genesis h b)
  then show ?case by (subst build_chain_loop.simps) simp
next
  case (extend b chain h)
  then show ?case by (subst build_chain_loop.simps) simp
qed

lemma chain_work_path: "chain_path X (cf_blocks s) h chain \<Longrightarrow> chain_work s h = Some (path_work chain)"
  by (simp add: chain_work_def path_work_def chain_work_loop_path)

lemma build_canonical_chain_path:
  "chain_path X (cf_blocks s) h chain \<Longrightarrow> build_canonical_chain s h = Some chain"
  by (simp add: build_canonical_chain_def build_chain_loop_path)

text \<open>The ancestor walks of the difficulty rule end on a path.\<close>

lemma walk_None:
  "bootstrap_walk bs n act None lst = Some (None, lst)"
  "window_walk bs ws we None lst = Some (None, lst)"
  by (subst bootstrap_walk.simps, simp) (subst window_walk.simps, simp)

lemma bootstrap_walk_path:
  assumes "chain_path X bs h chain" and "hm_get bs (hash_bytes ZERO) = None"
  shows "bootstrap_walk bs n act (Some (last chain)) lst \<noteq> None"
  using assms
proof (induction arbitrary: lst rule: chain_path.induct)
  case (genesis h b)
  then show ?case by (subst bootstrap_walk.simps) (simp add: Let_def walk_None)
next
  case (extend b chain h)
  have "hm_get bs (hash_bytes (previous_hash (header b))) = Some (last chain)"
    using chain_path_last [OF extend.hyps(1)] by simp
  with extend show ?case by (subst bootstrap_walk.simps) (simp add: Let_def)
qed

lemma window_walk_path:
  assumes "chain_path X bs h chain" and "hm_get bs (hash_bytes ZERO) = None"
  shows "window_walk bs ws we (Some (last chain)) lst \<noteq> None"
  using assms
proof (induction arbitrary: lst rule: chain_path.induct)
  case (genesis h b)
  then show ?case by (subst window_walk.simps) (simp add: Let_def walk_None)
next
  case (extend b chain h)
  have "hm_get bs (hash_bytes (previous_hash (header b))) = Some (last chain)"
    using chain_path_last [OF extend.hyps(1)] by simp
  with extend show ?case by (subst window_walk.simps) (simp add: Let_def)
qed

lemma expected_bits_returns:
  assumes "chain_path X (cf_blocks s) h chain" and "hm_get (cf_blocks s) (hash_bytes ZERO) = None"
  shows "expected_leading_zero_bits_for s p (Some (last chain)) \<noteq> None"
  using bootstrap_walk_path [OF assms] window_walk_path [OF assms]
  by (simp add: expected_leading_zero_bits_for_def Let_def)

section \<open>Batches\<close>

lemma write_batch_append: "write_batch (xs @ ys) s = write_batch ys (write_batch xs s)"
  by (simp add: write_batch_def)

lemma write_batch_single: "write_batch [w] s = write_op w s" "write_batch (w # ws) s = write_batch ws (write_op w s)"
  "write_batch [] s = s"
  by (simp_all add: write_batch_def)

lemma write_delete_utxo:
  "write_batch (map (\<lambda>x. DeleteUtxo (f x)) ks) s = s\<lparr> cf_utxo := fold (\<lambda>x. hm_remove (f x)) ks (cf_utxo s) \<rparr>"
  by (induction ks arbitrary: s) (auto simp: write_batch_def)

lemma write_put_utxo:
  "write_batch (map (\<lambda>(k, v). PutUtxo (f k) v) kvs) s =
    s\<lparr> cf_utxo := fold (\<lambda>(k, v). hm_insert (f k) v) kvs (cf_utxo s) \<rparr>"
  by (induction kvs arbitrary: s) (auto simp: write_batch_def)

lemma write_put_canonical:
  "write_batch (map (\<lambda>c. PutCanonical (f c) (g c)) cs) s =
    s\<lparr> cf_canonical := fold (\<lambda>c. hm_insert (f c) (g c)) cs (cf_canonical s) \<rparr>"
  by (induction cs arbitrary: s) (auto simp: write_batch_def)

lemma write_delete_canonical:
  "write_batch (map (\<lambda>c. DeleteCanonical (f c)) cs) s =
    s\<lparr> cf_canonical := fold (\<lambda>c. hm_remove (f c)) cs (cf_canonical s) \<rparr>"
  by (induction cs arbitrary: s) (auto simp: write_batch_def)

lemmas batch_simps = write_batch_append write_batch_single write_delete_utxo write_put_utxo
  write_put_canonical write_delete_canonical

section \<open>The invariant\<close>

text \<open>What the types of the source give: every hash of a block has 32 bytes.\<close>

definition block_ok :: "Block \<Rightarrow> bool" where
  "block_ok b \<longleftrightarrow> (\<forall>tx \<in> set (transactions b). hash_ok (tx_id tx)
     \<and> (\<forall>i \<in> set (inputs tx). outpoint_ok (previous_output i)))"

lemma created_entries_ok: "block_ok b \<Longrightarrow> kv \<in> set (created_entries b) \<Longrightarrow> outpoint_ok (fst kv)"
proof -
  have "kv \<in> set (tx_entries tx h n outs) \<Longrightarrow> op_txid (fst kv) = tx_id tx" for tx h n outs
    by (induction outs arbitrary: n) (auto split: if_splits)
  then show "block_ok b \<Longrightarrow> kv \<in> set (created_entries b) \<Longrightarrow> outpoint_ok (fst kv)"
    by (fastforce simp: created_entries_def block_ok_def outpoint_ok_def)
qed

lemma spent_outpoints_ok: "block_ok b \<Longrightarrow> op \<in> set (spent_outpoints (tl (transactions b))) \<Longrightarrow> outpoint_ok op"
  by (cases "transactions b") (auto simp: spent_outpoints_def block_ok_def)

definition db_inv :: "ext \<Rightarrow> (bytes, Block) hashmap \<Rightarrow> bool" where
  "db_inv X bs \<longleftrightarrow> hm_get bs (hash_bytes ZERO) = None
     \<and> (\<forall>k b. hm_get bs k = Some b \<longrightarrow>
          k = hash_bytes (block_hash X b) \<and> block_ok b \<and> (\<exists>chain. chain_path X bs (block_hash X b) chain))"

definition canonical_entries :: "ext \<Rightarrow> Block list \<Rightarrow> (bytes \<times> bytes) list" where
  "canonical_entries X chain =
     map (\<lambda>b. (encode_height (height (header b)), hash_bytes (block_hash X b))) chain"

text \<open>The UTXO column family holds exactly a given set.\<close>

definition utxo_is :: "ChainState \<Rightarrow> utxo_map \<Rightarrow> bool" where
  "utxo_is s uset \<longleftrightarrow> (\<forall>op. outpoint_ok op \<longrightarrow> utxo_get s op = hm_get uset op)"

definition state_inv :: "ext \<Rightarrow> ConsensusParams \<Rightarrow> ChainState \<Rightarrow> Block list \<Rightarrow> bool" where
  "state_inv X p s chain \<longleftrightarrow>
     db_inv X (cf_blocks s)
     \<and> chain_path X (cf_blocks s) (tip_hash X s) chain
     \<and> tip_cache s = Some (last chain) \<and> height_cache s = Some (height (header (last chain)))
     \<and> hm_ok (cf_canonical s) \<and> hm_get (cf_canonical s) = hm_get (canonical_entries X chain)
     \<and> hm_get (cf_meta s) META_TIP = Some (hash_bytes (tip_hash X s))
     \<and> (\<forall>h. read_meta_utxo_tip s = Some h \<longrightarrow> block_known s h)
     \<and> (read_meta_utxo_tip s = Some (tip_hash X s) \<longrightarrow>
          (\<exists>uset. replay_utxo_from X p [] chain = Ok uset \<and> utxo_is s uset))"

lemma db_inv_insert:
  assumes "db_inv X bs" and "hm_get bs (hash_bytes (block_hash X b)) = None"
    and "block_hash X b \<noteq> ZERO" and "block_ok b"
    and "chain_path X bs (previous_hash (header b)) chain" and "unat (height (header b)) = length chain"
  shows "db_inv X (hm_insert (hash_bytes (block_hash X b)) b bs)
    \<and> chain_path X (hm_insert (hash_bytes (block_hash X b)) b bs) (block_hash X b) (chain @ [b])"
proof -
  let ?bs = "hm_insert (hash_bytes (block_hash X b)) b bs"
  have nz: "previous_hash (header b) \<noteq> ZERO"
    using chain_path_last [OF assms(5)] assms(1) by (auto simp: db_inv_def)
  have path: "chain_path X ?bs (block_hash X b) (chain @ [b])"
    using chain_path_insert [OF assms(5,2)] nz assms(6) by (intro chain_path.extend) auto
  have old: "\<exists>c. chain_path X ?bs (block_hash X b') c" if "hm_get bs k = Some b'" for k b'
  proof -
    from assms(1) that obtain c where "chain_path X bs (block_hash X b') c" unfolding db_inv_def by blast
    then show ?thesis using assms(2) by (blast intro: chain_path_insert)
  qed
  have "hash_bytes (block_hash X b) \<noteq> hash_bytes ZERO" using assms(3) by (metis Hash256.expand)
  then have zero: "hm_get ?bs (hash_bytes ZERO) = None" using assms(1) by (simp add: db_inv_def)
  have "k = hash_bytes (block_hash X b') \<and> block_ok b' \<and> (\<exists>c. chain_path X ?bs (block_hash X b') c)"
    if "hm_get ?bs k = Some b'" for k b'
  proof (cases "k = hash_bytes (block_hash X b)")
    case True
    with that have "b' = b" by simp
    with True assms(4) path show ?thesis by blast
  next
    case False
    with that have k: "hm_get bs k = Some b'" by simp
    with assms(1) have "k = hash_bytes (block_hash X b') \<and> block_ok b'" by (simp add: db_inv_def)
    with old [OF k] show ?thesis by blast
  qed
  with zero path show ?thesis by (simp only: db_inv_def) blast
qed

text \<open>The batches that touch the UTXO column family.\<close>

lemma hm_get_fold_remove_keys: "hm_get (fold hm_remove (map fst (sort_key fst m)) m) k = None"
proof -
  have "k \<in> set (map fst m) \<or> hm_get m k = None" by (auto simp: map_of_eq_None_iff)
  then show ?thesis by (auto simp: hm_get_fold_remove)
qed

definition utxo_map_ok :: "utxo_map \<Rightarrow> bool" where
  "utxo_map_ok m \<longleftrightarrow> hm_ok m \<and> (\<forall>op e. hm_get m op = Some e \<longrightarrow> outpoint_ok op)"

lemma hm_get_rev: "hm_ok m \<Longrightarrow> hm_get (rev m) = hm_get m"
  by (rule map_of_eqI) (auto simp: map_of_eq_Some_iff rev_map [symmetric])

lemma rewrite_utxo_fields:
  "write_batch (rewrite_utxo_into_batch s0 uset h) s =
    s\<lparr> cf_utxo := fold (\<lambda>(k, v). hm_insert (encode_outpoint k) v) uset
         (fold hm_remove (map fst (sort_key fst (cf_utxo s0))) (cf_utxo s)),
      cf_meta := hm_insert META_UTXO_TIP (hash_bytes h) (cf_meta s) \<rparr>"
proof -
  have "map (\<lambda>(k, _). DeleteUtxo k) (cf_scan (cf_utxo s0)) =
      map (\<lambda>x. DeleteUtxo (id x)) (map fst (sort_key fst (cf_utxo s0)))"
    by (simp add: cf_scan_def case_prod_beta comp_def)
  then show ?thesis
    by (simp only: rewrite_utxo_into_batch_def batch_simps write_op.simps id_apply) simp
qed

lemma utxo_is_rewrite:
  assumes "utxo_map_ok uset" and "cf_utxo s0 = cf_utxo s"
  shows "utxo_is (write_batch (rewrite_utxo_into_batch s0 uset h) s) uset"
proof (unfold utxo_is_def, intro allI impI)
  fix op assume op: "outpoint_ok op"
  have "hm_get (fold (\<lambda>(k, v). hm_insert (encode_outpoint k) v) uset m) (encode_outpoint op) =
      (case hm_get (rev uset) op of Some v \<Rightarrow> Some v | None \<Rightarrow> hm_get m (encode_outpoint op))" for m :: "(bytes, UtxoEntry) hashmap"
    using op assms(1) by (intro outpoint_key.get_puts) (auto simp: utxo_map_ok_def, blast)
  then show "utxo_get (write_batch (rewrite_utxo_into_batch s0 uset h) s) op = hm_get uset op"
    using assms by (simp add: utxo_get_def rewrite_utxo_fields hm_get_fold_remove_keys hm_get_rev utxo_map_ok_def
        split: option.splits)
qed

definition delta_cf :: "Block \<Rightarrow> (bytes, UtxoEntry) hashmap \<Rightarrow> (bytes, UtxoEntry) hashmap" where
  "delta_cf b m = fold (\<lambda>(k, v). hm_insert (encode_outpoint k) v) (created_entries b)
     (fold (\<lambda>k. hm_remove (encode_outpoint k)) (spent_outpoints (tl (transactions b))) m)"

lemma write_delta: "write_batch (apply_utxo_delta_to_batch b) s = s\<lparr> cf_utxo := delta_cf b (cf_utxo s) \<rparr>"
  by (simp add: apply_utxo_delta_to_batch_def batch_simps delta_cf_def)

lemma utxo_is_delta:
  assumes "utxo_is s uset" and "block_ok b"
  shows "utxo_is (write_batch (apply_utxo_delta_to_batch b) s) (apply_delta b uset)"
proof (unfold utxo_is_def, intro allI impI)
  fix op assume op: "outpoint_ok op"
  let ?spent = "spent_outpoints (tl (transactions b))"
  have puts: "hm_get (fold (\<lambda>(k, v). hm_insert (encode_outpoint k) v) (created_entries b) m) (encode_outpoint op) =
      (case created_at b op of Some v \<Rightarrow> Some v | None \<Rightarrow> hm_get m (encode_outpoint op))" for m :: "(bytes, UtxoEntry) hashmap"
    using op created_entries_ok [OF assms(2)]
    unfolding created_at_def by (intro outpoint_key.get_puts) auto
  have dels: "hm_get (fold (\<lambda>k. hm_remove (encode_outpoint k)) ?spent m) (encode_outpoint op) =
      (if op \<in> set ?spent then None else hm_get m (encode_outpoint op))" for m :: "(bytes, UtxoEntry) hashmap"
    using op spent_outpoints_ok [OF assms(2)] by (intro outpoint_key.get_deletes) auto
  have "utxo_get s op = hm_get uset op" using assms(1) op by (simp add: utxo_is_def)
  then show "utxo_get (write_batch (apply_utxo_delta_to_batch b) s) op = hm_get (apply_delta b uset) op"
    by (simp add: utxo_get_def write_delta delta_cf_def puts dels hm_get_apply_delta split: option.splits)
qed

lemma utxo_map_ok_empty [simp]: "utxo_map_ok []"
  by (simp add: utxo_map_ok_def)

lemma utxo_map_ok_delta: "utxo_map_ok m \<Longrightarrow> block_ok b \<Longrightarrow> utxo_map_ok (apply_delta b m)"
proof -
  assume m: "utxo_map_ok m" and b: "block_ok b"
  have "hm_ok (apply_delta b m)"
    using m unfolding apply_delta_def utxo_map_ok_def by (intro hm_ok_fold_insert hm_ok_fold_remove) blast
  moreover have "outpoint_ok op" if "hm_get (apply_delta b m) op = Some e" for op e
  proof (cases "created_at b op")
    case None
    with that m show ?thesis by (simp add: hm_get_apply_delta utxo_map_ok_def split: if_splits) blast
  next
    case (Some e')
    then have "(op, e') \<in> set (created_entries b)" by (auto simp: created_at_def dest: map_of_SomeD)
    with created_entries_ok [OF b] show ?thesis by fastforce
  qed
  ultimately show ?thesis by (simp add: utxo_map_ok_def)
qed

lemma replay_utxo_from_append:
  "replay_utxo_from X p m (as @ bs) = res_bind (replay_utxo_from X p m as) (\<lambda>m'. replay_utxo_from X p m' bs)"
  by (induction as arbitrary: m) (auto split: sum.splits)

lemma replay_utxo_map_ok:
  "replay_utxo_from X p m chain = Ok m' \<Longrightarrow> utxo_map_ok m \<Longrightarrow> \<forall>b \<in> set chain. block_ok b \<Longrightarrow> utxo_map_ok m'"
  by (induction chain arbitrary: m)
    (auto simp: apply_block_def utxo_map_ok_delta split: sum.splits)

text \<open>The forward scan of the canonical index is the path of the tip.\<close>

lemma chain_path_sorted: "chain_path X bs h chain \<Longrightarrow> sorted_wrt (<) (map (height \<circ> header) chain)"
proof -
  assume "chain_path X bs h chain"
  then have "map unat (map (height \<circ> header) chain) = [0..<length chain]"
    using chain_path_heights by (simp add: comp_assoc)
  then have "sorted_wrt (<) (map unat (map (height \<circ> header) chain))" by simp
  then show ?thesis by (simp add: sorted_wrt_map word_less_nat_alt)
qed

lemma map_filter_all: "\<forall>x \<in> set xs. f (g x) = Some x \<Longrightarrow> List.map_filter f (map g xs) = xs"
  by (induction xs) (auto simp: List.map_filter_simps)

lemma to_hash_bytes [simp]: "hash_ok h \<Longrightarrow> to_hash (hash_bytes h) = Some h"
  by (cases h) (simp add: to_hash_def hash_ok_def)

lemma block_hash_ok: "digest_len X \<Longrightarrow> hash_ok (block_hash X b)"
  by (simp add: block_hash_def header_hash_def double_sha256_ok)

lemma canonical_scan:
  assumes "state_inv X p s chain"
  shows "cf_scan (cf_canonical s) = canonical_entries X chain"
proof -
  let ?kvs = "map (\<lambda>b. (height (header b), hash_bytes (block_hash X b))) chain"
  have path: "chain_path X (cf_blocks s) (tip_hash X s) chain" and ok: "hm_ok (cf_canonical s)"
    and get: "hm_get (cf_canonical s) = hm_get (canonical_entries X chain)"
    using assms by (simp_all add: state_inv_def)
  have eq: "canonical_entries X chain = map (\<lambda>(k, v). (encode_height k, v)) ?kvs"
    by (simp add: canonical_entries_def)
  have sorted: "sorted_wrt (<) (map fst ?kvs)" using chain_path_sorted [OF path] by (simp add: comp_def)
  then have "distinct (map fst ?kvs)" by (simp add: strict_sorted_iff)
  then have "hm_ok (canonical_entries X chain)"
    unfolding eq by (auto simp: distinct_map inj_on_def height_key.enc_inject comp_def)
  then have "set (cf_canonical s) = set (canonical_entries X chain)"
    using ok get by (metis map_of_inject_set)
  then have "sort_key fst (cf_canonical s) = map (\<lambda>(k, v). (encode_height k, v)) ?kvs"
    using sorted ok by (intro height_key.scan_sorted) (simp_all add: eq)
  then show ?thesis by (simp add: cf_scan_def eq)
qed

lemma canonical_blocks_iter_chain:
  assumes "digest_len X" and "state_inv X p s chain"
  shows "canonical_blocks_iter s = chain"
proof -
  have path: "chain_path X (cf_blocks s) (tip_hash X s) chain" using assms(2) by (simp add: state_inv_def)
  show ?thesis
    unfolding canonical_blocks_iter_def canonical_scan [OF assms(2)] canonical_entries_def
    using chain_path_stored [OF path] block_hash_ok [OF assms(1)]
    by (intro map_filter_all) (simp add: get_block_by_hash_def)
qed

lemma state_inv_blocks_ok: "state_inv X p s chain \<Longrightarrow> b \<in> set chain \<Longrightarrow> block_ok b"
  using chain_path_stored by (fastforce simp: state_inv_def db_inv_def)

lemma read_meta_utxo_tip_put:
  "hash_ok h \<Longrightarrow> cf_meta s = hm_insert META_UTXO_TIP (hash_bytes h) m \<Longrightarrow> read_meta_utxo_tip s = Some h"
  by (simp add: read_meta_utxo_tip_def)

text \<open>The UTXO column family is stamped with the tip and holds the replay of its path.\<close>

definition synced :: "ext \<Rightarrow> ConsensusParams \<Rightarrow> ChainState \<Rightarrow> Block list \<Rightarrow> bool" where
  "synced X p s chain \<longleftrightarrow> read_meta_utxo_tip s = Some (tip_hash X s)
     \<and> (\<exists>uset. replay_utxo_from X p [] chain = Ok uset \<and> utxo_map_ok uset \<and> utxo_is s uset)"

lemma ensure_utxo_synced_inv:
  assumes "digest_len X" and inv: "state_inv X p s chain" and "ensure_utxo_synced X p s = (s', r)"
  shows "state_inv X p s' chain \<and> tip_hash X s' = tip_hash X s \<and> cf_blocks s' = cf_blocks s
    \<and> (r = Ok () \<longrightarrow> synced X p s' chain)"
proof -
  have tip: "tip_cache s = Some (last chain)" using inv by (simp add: state_inv_def)
  have th: "tip_hash X s = block_hash X (last chain)" by (simp add: tip_hash_def tip)
  have iter: "canonical_blocks_iter s = chain" using assms(1) inv by (rule canonical_blocks_iter_chain)
  have blocks: "\<forall>b \<in> set chain. block_ok b" using state_inv_blocks_ok [OF inv] by blast
  show ?thesis
  proof (cases "read_meta_utxo_tip s = Some (tip_hash X s)")
    case True
    then have "s' = s" using assms(3) by (simp add: ensure_utxo_synced_def tip th)
    moreover obtain uset where "replay_utxo_from X p [] chain = Ok uset" "utxo_is s uset"
      using inv True by (auto simp: state_inv_def)
    moreover from this have "utxo_map_ok uset" using blocks replay_utxo_map_ok utxo_map_ok_empty by blast
    ultimately show ?thesis using inv True by (auto simp: synced_def)
  next
    case False
    show ?thesis
    proof (cases "replay_utxo_from X p [] chain")
      case (Inl e)
      then show ?thesis using assms(3) False inv
        by (auto simp: ensure_utxo_synced_def tip th iter replay_utxo_def)
    next
      case (Inr uset)
      let ?s = "write_batch (rewrite_utxo_into_batch s uset (block_hash X (last chain))) s"
      have s': "s' = ?s" using assms(3) False Inr
        by (auto simp: ensure_utxo_synced_def tip th iter replay_utxo_def)
      have uok: "utxo_map_ok uset" using Inr blocks replay_utxo_map_ok utxo_map_ok_empty by blast
      then have uis: "utxo_is ?s uset" by (rule utxo_is_rewrite) simp
      have same: "cf_blocks ?s = cf_blocks s" "cf_canonical ?s = cf_canonical s" "tip_cache ?s = tip_cache s"
        "height_cache ?s = height_cache s" "hm_get (cf_meta ?s) META_TIP = hm_get (cf_meta s) META_TIP"
        by (simp_all add: rewrite_utxo_fields)
      have th': "tip_hash X ?s = tip_hash X s" by (simp add: tip_hash_def same)
      have read: "read_meta_utxo_tip ?s = Some (tip_hash X s)"
        using block_hash_ok [OF assms(1)] by (intro read_meta_utxo_tip_put) (simp_all add: rewrite_utxo_fields th)
      have known: "block_known ?s (tip_hash X s)"
        using inv chain_path_last by (fastforce simp: state_inv_def block_known_def same)
      have "state_inv X p ?s chain"
        using inv read known uis Inr unfolding state_inv_def same th' by auto
      then show ?thesis using s' th' same read Inr uok uis by (auto simp: synced_def)
    qed
  qed
qed

section \<open>Accepting a block\<close>

lemma validate_block_utxo_iff:
  assumes "utxo_is s uset" and "block_ok b"
  shows "validate_block_utxo X p s b = Ok () \<longleftrightarrow> apply_block X p uset b = Ok (apply_delta b uset)"
proof -
  have "check_block X p (hm_get (seed_entries (utxo_get s) (block_refs b))) b = check_block X p (utxo_get s) b"
    by (rule block_view.seeded)
  also have "\<dots> = check_block X p (hm_get uset) b"
    using assms spent_outpoints_ok by (intro block_view.agree) (auto simp: utxo_is_def block_refs_def)
  finally show ?thesis
    by (auto simp: validate_block_utxo_def apply_block_def block_refs_def split: sum.splits)
qed

lemma canonical_entries_keys:
  "hm_get (canonical_entries X chain) k = Some v \<Longrightarrow> \<exists>b \<in> set chain. k = encode_height (height (header b))"
  by (auto simp: canonical_entries_def dest!: map_of_SomeD)

lemma canonical_entries_snoc:
  assumes "\<forall>c \<in> set chain. height (header c) \<noteq> height (header b)"
  shows "hm_get (canonical_entries X (chain @ [b])) =
    (hm_get (canonical_entries X chain))(encode_height (height (header b)) \<mapsto> hash_bytes (block_hash X b))"
proof -
  have "hm_get (canonical_entries X chain) (encode_height (height (header b))) = None"
    using assms canonical_entries_keys [of X chain] height_key.enc_inject by (metis option.exhaust)
  then show ?thesis by (auto simp: canonical_entries_def map_add_def split: option.splits)
qed

lemma chain_path_height_less:
  assumes "chain_path X bs h chain" and "c \<in> set chain"
  shows "unat (height (header c)) < length chain"
proof -
  have "unat (height (header c)) \<in> set (map (unat \<circ> height \<circ> header) chain)" using assms(2) by auto
  then show ?thesis using chain_path_heights [OF assms(1)] by simp
qed

lemma chain_path_height_ex:
  assumes "chain_path X bs h chain" and "i < length chain"
  shows "\<exists>c \<in> set chain. unat (height (header c)) = i"
proof -
  have "i \<in> set (map (unat \<circ> height \<circ> header) chain)" using chain_path_heights [OF assms(1)] assms(2) by simp
  then show ?thesis by auto
qed

lemma extend_tip_inv:
  assumes X: "digest_len X" and inv: "state_inv X p s chain" and sync: "synced X p s chain" and b: "block_ok b"
    and path: "chain_path X (cf_blocks s) (block_hash X b) (chain @ [b])"
    and ex: "extend_tip X p b s = (s', r)"
  shows "(s' = s \<and> r \<noteq> Ok b) \<or> (r = Ok b \<and> state_inv X p s' (chain @ [b]) \<and> synced X p s' (chain @ [b]))"
proof -
  from sync obtain uset where u: "replay_utxo_from X p [] chain = Ok uset" "utxo_map_ok uset" "utxo_is s uset"
    by (auto simp: synced_def)
  show ?thesis
  proof (cases "validate_block_utxo X p s b")
    case (Inl e)
    with ex show ?thesis by (auto simp: extend_tip_def)
  next
    case (Inr v)
    then have app: "apply_block X p uset b = Ok (apply_delta b uset)"
      using validate_block_utxo_iff [OF u(3) b] by simp
    let ?h = "hash_bytes (block_hash X b)"
    have s': "s' = s\<lparr> cf_canonical := hm_insert (encode_height (height (header b))) ?h (cf_canonical s),
        cf_meta := hm_insert META_UTXO_TIP ?h (hm_insert META_HEIGHT (encode_height (height (header b)))
          (hm_insert META_TIP ?h (cf_meta s))),
        cf_utxo := delta_cf b (cf_utxo s), tip_cache := Some b, height_cache := Some (height (header b)) \<rparr>" and r: "r = Ok b"
      using ex Inr by (auto simp: extend_tip_def Let_def write_batch_append write_batch_single write_delta)
    have th: "tip_hash X s' = block_hash X b" by (simp add: s' tip_hash_def)
    have uis: "utxo_is s' (apply_delta b uset)"
      using utxo_is_delta [OF u(3) b] by (simp add: utxo_is_def utxo_get_def s' write_delta)
    have rep: "replay_utxo_from X p [] (chain @ [b]) = Ok (apply_delta b uset)"
      using u(1) app by (simp add: replay_utxo_from_append)
    have read: "read_meta_utxo_tip s' = Some (block_hash X b)"
      using block_hash_ok [OF X] by (intro read_meta_utxo_tip_put) (simp_all add: s')
    have chain: "chain_path X (cf_blocks s) (tip_hash X s) chain" using inv by (simp add: state_inv_def)
    have "unat (height (header b)) = length chain" using chain_path_last [OF path] by simp
    then have fresh: "\<forall>c \<in> set chain. height (header c) \<noteq> height (header b)"
      using chain_path_height_less [OF chain] by fastforce
    have "state_inv X p s' (chain @ [b])"
      using inv path read rep uis chain_path_last [OF path]
      unfolding state_inv_def th
      by (simp add: s' canonical_entries_snoc [OF fresh] block_known_def)
    then show ?thesis using r rep uis read th utxo_map_ok_delta [OF u(2) b] by (auto simp: synced_def)
  qed
qed

lemma canonical_entries_ok:
  assumes "chain_path X bs h chain"
  shows "hm_ok (canonical_entries X chain)"
proof -
  have "distinct (map (height \<circ> header) chain)"
    using chain_path_sorted [OF assms] by (simp add: strict_sorted_iff)
  then show ?thesis
    by (auto simp: canonical_entries_def distinct_map inj_on_def height_key.enc_inject comp_def)
qed

text \<open>The canonical index after a reorganisation: the new path overwrites, the stale tail is deleted.\<close>

definition reorg_canonical :: "ext \<Rightarrow> Block list \<Rightarrow> u64 list \<Rightarrow> (bytes, bytes) hashmap \<Rightarrow> (bytes, bytes) hashmap" where
  "reorg_canonical X new stale m =
     fold (\<lambda>c. hm_remove (encode_height c)) stale
       (fold (\<lambda>c. hm_insert (encode_height (height (header c))) (hash_bytes (block_hash X c))) new m)"

lemma hm_ok_reorg_canonical: "hm_ok m \<Longrightarrow> hm_ok (reorg_canonical X new stale m)"
proof -
  have ins: "hm_ok m \<Longrightarrow> hm_ok (fold (\<lambda>c. hm_insert (f c) (g c)) cs m)" for f g and cs :: "'c list" and m :: "(bytes, bytes) hashmap"
    by (induction cs arbitrary: m) auto
  have del: "hm_ok m \<Longrightarrow> hm_ok (fold (\<lambda>c. hm_remove (f c)) cs m)" for f and cs :: "'d list" and m :: "(bytes, bytes) hashmap"
    by (induction cs arbitrary: m) auto
  show "hm_ok m \<Longrightarrow> hm_ok (reorg_canonical X new stale m)"
    unfolding reorg_canonical_def by (intro ins del)
qed

lemma stale_heights_set:
  assumes "unat (a + 1) = n" and "unat z = k - 1" and "0 < k"
  shows "set (stale_heights a z) = {i. n \<le> unat i \<and> unat i < k}"
proof (rule set_eqI)
  fix i :: u64
  have k: "k \<le> 2 ^ 64" using unat_u64_lt [of z] assms(2,3) by linarith
  have "i \<in> of_nat ` {n..<k}" if "n \<le> unat i" "unat i < k"
    using that by (intro image_eqI [of _ _ "unat i"]) auto
  moreover have "unat (of_nat j :: u64) = j" if "j < k" for j
    using that k by (intro unat_of_nat_u64) linarith
  ultimately show "i \<in> set (stale_heights a z) \<longleftrightarrow> i \<in> {i. n \<le> unat i \<and> unat i < k}"
    using assms by (auto simp: stale_heights_def)
qed

lemma canonical_entries_Some_iff:
  assumes "chain_path X bs h chain"
  shows "(\<exists>v. hm_get (canonical_entries X chain) (encode_height i) = Some v) \<longleftrightarrow> unat i < length chain"
proof
  assume "\<exists>v. hm_get (canonical_entries X chain) (encode_height i) = Some v"
  then obtain c where "c \<in> set chain" "encode_height i = encode_height (height (header c))"
    using canonical_entries_keys by blast
  then show "unat i < length chain"
    using chain_path_height_less [OF assms] by (auto simp: height_key.enc_inject)
next
  assume "unat i < length chain"
  then obtain d where "d \<in> set chain" "unat (height (header d)) = unat i"
    using chain_path_height_ex [OF assms] by blast
  then have "d \<in> set chain" "height (header d) = i" by (simp_all add: word_unat_eq_iff)
  then have "encode_height i \<in> fst ` set (canonical_entries X chain)"
    by (auto simp: canonical_entries_def image_iff intro!: bexI [of _ d])
  then show "\<exists>v. hm_get (canonical_entries X chain) (encode_height i) = Some v"
    by (metis map_of_eq_None_iff not_None_eq)
qed

lemma hm_get_reorg_canonical:
  assumes new: "chain_path X bs h new" and old: "chain_path X bs h' old"
    and m: "hm_get m = hm_get (canonical_entries X old)" and small: "unat (height (header (last new))) < 2 ^ 64 - 1"
  shows "hm_get (reorg_canonical X new (stale_heights (height (header (last new))) (height (header (last old)))) m)
    = hm_get (canonical_entries X new)"
proof
  fix k
  let ?stale = "stale_heights (height (header (last new))) (height (header (last old)))"
  have fold_ins: "fold (\<lambda>c. hm_insert (encode_height (height (header c))) (hash_bytes (block_hash X c))) new m
      = fold (\<lambda>(k, v). hm_insert k v) (canonical_entries X new) m"
    by (simp add: canonical_entries_def fold_map comp_def)
  have fold_del: "fold (\<lambda>c. hm_remove (encode_height c)) ?stale m' = fold hm_remove (map encode_height ?stale) m'"
    for m' :: "(bytes, bytes) hashmap"
    by (simp add: fold_map comp_def)
  have "unat (height (header (last new)) + 1) = length new"
    using small chain_path_last [OF new] by (auto simp: unat_word_ariths)
  then have stale: "set ?stale = {i. length new \<le> unat i \<and> unat i < length old}"
    using chain_path_last [OF old] by (intro stale_heights_set) auto
  have get: "hm_get (reorg_canonical X new ?stale m) k =
      (if k \<in> encode_height ` set ?stale then None
       else case hm_get (canonical_entries X new) k of Some v \<Rightarrow> Some v | None \<Rightarrow> hm_get (canonical_entries X old) k)"
    unfolding reorg_canonical_def fold_ins fold_del hm_get_fold_remove hm_get_fold_insert m
    by (simp add: hm_get_rev [OF canonical_entries_ok [OF new]])
  show "hm_get (reorg_canonical X new ?stale m) k = hm_get (canonical_entries X new) k"
  proof (cases "k \<in> encode_height ` set ?stale")
    case True
    then obtain i where i: "k = encode_height i" "length new \<le> unat i" by (auto simp: stale)
    then have "hm_get (canonical_entries X new) k = None"
      using canonical_entries_Some_iff [OF new, of i] by (cases "hm_get (canonical_entries X new) k") auto
    then show ?thesis using True get by simp
  next
    case False
    have "hm_get (canonical_entries X old) k = None" if none: "hm_get (canonical_entries X new) k = None"
    proof (rule ccontr)
      assume "hm_get (canonical_entries X old) k \<noteq> None"
      then obtain i where i: "k = encode_height i" "hm_get (canonical_entries X old) k \<noteq> None"
        using canonical_entries_keys by blast
      then have "unat i < length old" "\<not> unat i < length new"
        using canonical_entries_Some_iff [OF old, of i] canonical_entries_Some_iff [OF new, of i] none by auto
      with i False show False by (auto simp: stale)
    qed
    then show ?thesis using False get by (auto split: option.splits)
  qed
qed

lemma reorg_to_inv:
  assumes X: "digest_len X" and inv: "state_inv X p s chain"
    and path: "chain_path X (cf_blocks s) (block_hash X b) new" and small: "unat (height (header b)) < 2 ^ 64 - 1"
    and stored: "hm_get (cf_blocks s) (hash_bytes (block_hash X b)) = Some b"
  shows "\<exists>s' r. reorg_to X p b (tip_hash X s) new s = Some (s', r) \<and>
    ((s' = s \<and> r \<noteq> Ok b) \<or> (r = Ok b \<and> state_inv X p s' new \<and> synced X p s' new
      \<and> last_disconnected s' = drop (fork_index X chain new) chain))"
proof (cases "replay_utxo_from X p [] new")
  case (Inl e)
  then show ?thesis by (auto simp: reorg_to_def replay_utxo_def)
next
  case (Inr uset)
  have oldp: "chain_path X (cf_blocks s) (tip_hash X s) chain" and hc: "height_cache s = Some (height (header (last chain)))"
    using inv by (simp_all add: state_inv_def)
  have "db_inv X (cf_blocks s)" using inv by (simp add: state_inv_def)
  then have "\<forall>c \<in> set new. block_ok c" using chain_path_stored [OF path] by (auto simp: db_inv_def)
  then have uok: "utxo_map_ok uset" using Inr replay_utxo_map_ok utxo_map_ok_empty by blast
  have lst: "new \<noteq> []" "last new = b"
    using chain_path_last [OF path] stored by (metis option.inject)+
  let ?h = "hash_bytes (block_hash X b)" and ?hgt = "height (header b)"
  let ?s1 = "s\<lparr> last_disconnected := drop (fork_index X chain new) chain \<rparr>"
  let ?canon = "reorg_canonical X new (stale_heights ?hgt (height (header (last chain)))) (cf_canonical s)"
  let ?utxo = "fold (\<lambda>(k, v). hm_insert (encode_outpoint k) v) uset
         (fold hm_remove (map fst (sort_key fst (cf_utxo s))) (cf_utxo s))"
  let ?s' = "?s1\<lparr> cf_canonical := ?canon, cf_utxo := ?utxo,
      cf_meta := hm_insert META_UTXO_TIP ?h (hm_insert META_HEIGHT (encode_height ?hgt) (hm_insert META_TIP ?h (cf_meta s))),
      tip_cache := Some b, height_cache := Some ?hgt \<rparr>"
  have run: "reorg_to X p b (tip_hash X s) new s = Some (?s', Ok b)"
    by (simp add: reorg_to_def replay_utxo_def Inr build_canonical_chain_path [OF oldp] Let_def lst hc
        batch_simps rewrite_utxo_fields reorg_canonical_def)
  have th: "tip_hash X ?s' = block_hash X b" by (simp add: tip_hash_def)
  have "utxo_is (write_batch (rewrite_utxo_into_batch s uset (block_hash X b)) s) uset"
    using uok by (rule utxo_is_rewrite) simp
  then have uis: "utxo_is ?s' uset" by (simp add: utxo_is_def utxo_get_def rewrite_utxo_fields)
  have read: "read_meta_utxo_tip ?s' = Some (block_hash X b)"
    using block_hash_ok [OF X] by (intro read_meta_utxo_tip_put) simp_all
  have canon: "hm_get ?canon = hm_get (canonical_entries X new)" "hm_ok ?canon"
    using hm_get_reorg_canonical [OF path oldp] small inv lst
    by (simp_all add: state_inv_def hm_ok_reorg_canonical)
  have "state_inv X p ?s' new"
    using inv path read Inr uis chain_path_last [OF path] canon lst
    unfolding state_inv_def th by (simp add: block_known_def)
  moreover have "synced X p ?s' new" using read th Inr uok uis by (auto simp: synced_def)
  ultimately show ?thesis using run by auto
qed

text \<open>
  What accepting a block may do to the canonical path: keep it, or replace it by one with more work,
  in which case every block that leaves the path is among the disconnected ones.
\<close>

definition accepts :: "ext \<Rightarrow> ConsensusParams \<Rightarrow> Block \<Rightarrow> Block list \<Rightarrow> ChainState \<Rightarrow> (Block, StateError) result \<Rightarrow> Block list \<Rightarrow> bool" where
  "accepts X p b chain s' r chain' \<longleftrightarrow> state_inv X p s' chain'
     \<and> (r \<in> range Ok \<longrightarrow> last_disconnected s' = drop (fork_index X chain chain') chain)
     \<and> set chain \<subseteq> set chain' \<union> set (drop (fork_index X chain chain') chain)
     \<and> (chain' = chain \<or> r = Ok b \<and> last chain' = b \<and> path_work chain < path_work chain' \<and> synced X p s' chain')"

lemma fork_index_common:
  assumes "\<forall>b \<in> set old \<union> set new. hm_get bs (hash_bytes (block_hash X b)) = Some b"
  shows "set old \<subseteq> set new \<union> set (drop (fork_index X old new) old)"
  using assms
proof (induction X old new rule: fork_index.induct)
  case (1 X a as b bs')
  show ?case
  proof (cases "block_hash X a = block_hash X b")
    case True
    then have "a = b" using 1(2) by (metis UnCI list.set_intros(1) option.inject)
    with 1 True show ?thesis by auto
  qed auto
qed simp_all

lemma fork_index_self [simp]: "fork_index X chain (chain @ ext) = length chain" "fork_index X chain chain = length chain"
  by (induction chain) auto

lemma write_batch_disconnected [simp]: "last_disconnected (write_batch ops s) = last_disconnected s"
proof -
  have "last_disconnected (write_op w s) = last_disconnected s" for w s by (cases w) simp_all
  then show ?thesis unfolding write_batch_def by (induction ops arbitrary: s) simp_all
qed

lemma extend_tip_disconnected: "extend_tip X p b s = (s', r) \<Longrightarrow> last_disconnected s' = last_disconnected s"
  by (auto simp: extend_tip_def Let_def split: sum.splits)

lemma state_inv_disconnected [simp]:
  "state_inv X p (s\<lparr> last_disconnected := d \<rparr>) chain = state_inv X p s chain"
  "synced X p (s\<lparr> last_disconnected := d \<rparr>) chain = synced X p s chain"
  "tip_hash X (s\<lparr> last_disconnected := d \<rparr>) = tip_hash X s"
  by (simp_all add: state_inv_def synced_def tip_hash_def read_meta_utxo_tip_def block_known_def
      utxo_is_def utxo_get_def)

lemma state_inv_store:
  assumes "state_inv X p s chain" and "hm_get (cf_blocks s) (hash_bytes (block_hash X b)) = None"
    and "db_inv X (hm_insert (hash_bytes (block_hash X b)) b (cf_blocks s))"
  defines "s1 \<equiv> s\<lparr> cf_blocks := hm_insert (hash_bytes (block_hash X b)) b (cf_blocks s) \<rparr>"
  shows "state_inv X p s1 chain \<and> tip_hash X s1 = tip_hash X s \<and> (synced X p s chain \<longrightarrow> synced X p s1 chain)"
proof -
  have "tip_hash X s1 = tip_hash X s" by (simp add: s1_def tip_hash_def)
  moreover have "read_meta_utxo_tip s1 = read_meta_utxo_tip s" by (simp add: s1_def read_meta_utxo_tip_def)
  moreover have "utxo_is s1 = utxo_is s" by (simp add: s1_def utxo_is_def utxo_get_def fun_eq_iff)
  moreover have "block_known s h \<Longrightarrow> block_known s1 h" for h by (simp add: s1_def block_known_def)
  moreover have "chain_path X (cf_blocks s1) (tip_hash X s) chain"
    using assms(1,2) chain_path_insert by (fastforce simp: s1_def state_inv_def)
  ultimately show ?thesis
    using assms(1,3) by (simp add: state_inv_def synced_def) (simp add: s1_def)
qed

lemma fork_choice_inv:
  assumes X: "digest_len X" and inv: "state_inv X p s chain" and sync: "synced X p s chain" and b: "block_ok b"
    and path: "chain_path X (cf_blocks s) (block_hash X b) (pchain @ [b])"
    and ppath: "chain_path X (cf_blocks s) (previous_hash (header b)) pchain"
    and stored: "hm_get (cf_blocks s) (hash_bytes (block_hash X b)) = Some b"
    and small: "unat (height (header b)) < 2 ^ 64 - 1"
  shows "\<exists>s' r chain'. fork_choice X p b s = Some (s', r) \<and> accepts X p b chain s' r chain'"
proof -
  let ?s = "s\<lparr> last_disconnected := [] \<rparr>"
  have tip: "chain_path X (cf_blocks s) (tip_hash X s) chain" using inv by (simp add: state_inv_def)
  note work = chain_work_path [OF path] chain_work_path [OF tip]
  show ?thesis
  proof (cases "path_work (pchain @ [b]) > path_work chain")
    case False
    then have "fork_choice X p b s = Some (?s, Ok b)" by (simp add: fork_choice_def work Let_def)
    with inv show ?thesis by (auto simp: accepts_def)
  next
    case more: True
    show ?thesis
    proof (cases "previous_hash (header b) = tip_hash X s")
      case True
      with ppath tip have eq: "pchain = chain" by (auto intro: chain_path_unique)
      obtain s' r where ex: "extend_tip X p b ?s = (s', r)" by (cases "extend_tip X p b ?s")
      then have run: "fork_choice X p b s = Some (s', r)" using more True by (simp add: fork_choice_def work Let_def)
      have "(s' = ?s \<and> r \<noteq> Ok b) \<or> (r = Ok b \<and> state_inv X p s' (chain @ [b]) \<and> synced X p s' (chain @ [b]))"
        using inv sync path by (intro extend_tip_inv [OF X _ _ b _ ex]) (simp_all add: eq)
      then have "accepts X p b chain s' r (if s' = ?s \<and> r \<noteq> Ok b then chain else chain @ [b])"
        using inv more eq extend_tip_disconnected [OF ex] by (auto simp: accepts_def)
      with run show ?thesis by auto
    next
      case False
      have "build_canonical_chain ?s (block_hash X b) = Some (pchain @ [b])"
        using path by (intro build_canonical_chain_path) simp
      with more False have run: "fork_choice X p b s = reorg_to X p b (tip_hash X ?s) (pchain @ [b]) ?s"
        by (simp add: fork_choice_def work Let_def)
      obtain s' r where "reorg_to X p b (tip_hash X ?s) (pchain @ [b]) ?s = Some (s', r)"
        and "(s' = ?s \<and> r \<noteq> Ok b) \<or> (r = Ok b \<and> state_inv X p s' (pchain @ [b]) \<and> synced X p s' (pchain @ [b])
          \<and> last_disconnected s' = drop (fork_index X chain (pchain @ [b])) chain)"
        using reorg_to_inv [OF X, of p ?s chain b "pchain @ [b]"] inv path small stored by auto
      moreover have "set chain \<subseteq> set (pchain @ [b]) \<union> set (drop (fork_index X chain (pchain @ [b])) chain)"
        using chain_path_stored [OF tip] chain_path_stored [OF path] by (intro fork_index_common) blast
      ultimately have "accepts X p b chain s' r (if s' = ?s \<and> r \<noteq> Ok b then chain else pchain @ [b])"
        using inv more by (auto simp: accepts_def)
      with run \<open>reorg_to X p b (tip_hash X ?s) (pchain @ [b]) ?s = Some (s', r)\<close> show ?thesis by auto
    qed
  qed
qed

lemma submit_block_inv:
  assumes X: "digest_len X" and inv: "state_inv X p s chain" and b: "block_ok b"
    and nz: "block_hash X b \<noteq> ZERO" and pos: "height (header b) \<noteq> 0"
    and small: "unat (height (header b)) < 2 ^ 64 - 1"
  shows "\<exists>s' r chain'. submit_block X p b now s = Some (s', r) \<and> accepts X p b chain s' r chain'"
proof (cases "block_known s (block_hash X b)")
  case True
  with inv show ?thesis by (auto simp: submit_block_def accepts_def)
next
  case False
  obtain s1 r1 where sy: "ensure_utxo_synced X p s = (s1, r1)" by (cases "ensure_utxo_synced X p s")
  note e = ensure_utxo_synced_inv [OF X inv sy]
  show ?thesis
  proof (cases "r1 = Ok () \<and> get_block_by_hash s1 (previous_hash (header b)) \<noteq> None")
    case False
    then show ?thesis using e \<open>\<not> block_known s (block_hash X b)\<close>
      by (auto simp: submit_block_def sy accepts_def split: sum.splits)
  next
    case True
    then obtain parent where r1: "r1 = Ok ()" and par: "hm_get (cf_blocks s1) (hash_bytes (previous_hash (header b))) = Some parent"
      by (auto simp: get_block_by_hash_def)
    have inv1: "state_inv X p s1 chain" and sync1: "synced X p s1 chain" using e r1 by auto
    then have db: "db_inv X (cf_blocks s1)" by (simp add: state_inv_def)
    then obtain pchain where "chain_path X (cf_blocks s1) (block_hash X parent) pchain"
      and "hash_bytes (previous_hash (header b)) = hash_bytes (block_hash X parent)"
      using par unfolding db_inv_def by blast
    then have ppath: "chain_path X (cf_blocks s1) (previous_hash (header b)) pchain"
      by (metis Hash256.expand)
    then have lp: "last pchain = parent" using par chain_path_last by fastforce
    have "expected_leading_zero_bits_for s1 p (Some parent) \<noteq> None"
      using expected_bits_returns [OF ppath, of p] db by (simp add: lp db_inv_def)
    then obtain bits where bits: "expected_leading_zero_bits_for s1 p (Some parent) = Some bits" by blast
    show ?thesis
    proof (cases "validate_block X p (Some parent) b now bits (epoch_seed_for_height X s1 (height (header b)))")
      case (Inl err)
      then show ?thesis using inv1 False par r1 bits
        by (auto simp: submit_block_def sy accepts_def get_block_by_hash_def)
    next
      case (Inr u)
      then have "height (header b) = 1 + height (header parent)"
        by (simp add: validate_block_Ok_iff next_height_def)
      then have "unat (height (header b)) = Suc (unat (height (header parent)))"
        using pos by (simp add: unatSuc)
      then have hgt: "unat (height (header b)) = length pchain"
        using chain_path_last [OF ppath] lp by (cases pchain) auto
      let ?s2 = "s1\<lparr> cf_blocks := hm_insert (hash_bytes (block_hash X b)) b (cf_blocks s1) \<rparr>"
      have fresh: "hm_get (cf_blocks s1) (hash_bytes (block_hash X b)) = None"
        using False e by (simp add: block_known_def)
      note ins = db_inv_insert [OF db fresh nz b ppath hgt]
      have "state_inv X p ?s2 chain" "synced X p ?s2 chain"
        using state_inv_store [OF inv1 fresh] ins sync1 by auto
      then obtain s' r chain' where "fork_choice X p b ?s2 = Some (s', r)" "accepts X p b chain s' r chain'"
        using fork_choice_inv [OF X, of p ?s2 chain b pchain] b ins chain_path_insert [OF ppath fresh] small by auto
      then show ?thesis using False par r1 bits Inr
        by (auto simp: submit_block_def sy get_block_by_hash_def)
    qed
  qed
qed

section \<open>Producing blocks\<close>

lemma coinbase_props:
  "is_coinbase (coinbase X h r a)" "is_coinbase (genesis_coinbase X r a f fa al)"
  "digest_len X \<Longrightarrow> hash_ok (tx_id (coinbase X h r a))" "digest_len X \<Longrightarrow> hash_ok (tx_id (genesis_coinbase X r a f fa al))"
  "inputs (coinbase X h r a) = []" "inputs (genesis_coinbase X r a f fa al) = []"
  by (simp_all add: is_coinbase_def coinbase_def genesis_coinbase_def Let_def coinbase_payload_def
      str_bytes_def transaction_id_def double_sha256_ok)

lemma candidate_block_for_txs:
  "\<exists>cb. transactions (candidate_block_for X p parent ts miner txs fees) = cb # txs \<and> is_coinbase cb
    \<and> (digest_len X \<longrightarrow> hash_ok (tx_id cb)) \<and> inputs cb = []"
  by (simp add: candidate_block_for_def Let_def coinbase_props)

lemma candidate_header:
  "chain_id (header (candidate_block_for X p parent ts miner txs fees)) = params_chain_id p"
  "height (header (candidate_block_for X p parent ts miner txs fees)) = next_height parent"
  "parent = Some pb \<Longrightarrow> previous_hash (header (candidate_block_for X p parent ts miner txs fees)) = block_hash X pb"
  "parent = None \<Longrightarrow> previous_hash (header (candidate_block_for X p parent ts miner txs fees)) = ZERO"
  "timestamp_seconds (header (candidate_block_for X p parent ts miner txs fees)) = ts"
  "merkle_root (header (candidate_block_for X p parent ts miner txs fees))
    = merkle_root_of X (transactions (candidate_block_for X p parent ts miner txs fees))"
  by (simp_all add: candidate_block_for_def Let_def)

text \<open>A candidate with the required difficulty and a nonce that meets it.\<close>

definition sealed :: "Block \<Rightarrow> u8 \<Rightarrow> u64 \<Rightarrow> Block" where
  "sealed c bits n = c\<lparr> header := (header c)\<lparr> leading_zero_bits := bits, nonce := n \<rparr> \<rparr>"

lemma sealed_validates:
  assumes "header_meets_work X (header (sealed (candidate_block_for X p parent ts miner txs fees) bits n)) seed"
    and "ts \<le> now + max_future_block_time_seconds p"
  shows "validate_block X p parent (sealed (candidate_block_for X p parent ts miner txs fees) bits n) now bits seed = Ok ()"
  using assms candidate_block_for_txs [of X p parent ts miner txs fees]
  by (auto simp: validate_block_Ok_iff sealed_def candidate_header)

lemma sealed_block_ok:
  assumes "digest_len X"
  shows "block_ok (sealed (candidate_block_for X p parent ts miner [] fees) bits n)"
  using candidate_block_for_txs [of X p parent ts miner "[]" fees] assms
  by (auto simp: block_ok_def sealed_def)

lemma mine_candidate_sealed:
  assumes "mine_candidate_block X p parent ts miner max_nonce bits seed = Ok b"
  obtains n where "b = sealed (candidate_block_for X p parent ts miner [] 0) bits n"
    and "header_meets_work X (header b) seed"
proof -
  let ?c = "candidate_block_for X p parent ts miner [] 0"
  from assms obtain hdr where m: "mine_header X ((header ?c)\<lparr> leading_zero_bits := bits \<rparr>) seed max_nonce = Some hdr"
    and b: "b = \<lparr> header = hdr, transactions = transactions ?c \<rparr>"
    by (auto simp: mine_candidate_block_def Let_def split: option.splits)
  from m obtain n where "hdr = (header ?c)\<lparr> leading_zero_bits := bits, nonce := of_nat n \<rparr>" "header_meets_work X hdr seed"
    unfolding mine_header_def mine_loop_Some by auto
  with b that [of "of_nat n"] show ?thesis by (simp add: sealed_def)
qed

lemma install_tip_fields:
  "install_tip X b s = s\<lparr> cf_blocks := hm_insert (hash_bytes (block_hash X b)) b (cf_blocks s),
     cf_canonical := hm_insert (encode_height (height (header b))) (hash_bytes (block_hash X b)) (cf_canonical s),
     cf_meta := hm_insert META_CHAIN_ID (str_bytes (chain_id (header b)))
       (hm_insert META_HEIGHT (encode_height (height (header b))) (hm_insert META_TIP (hash_bytes (block_hash X b)) (cf_meta s))),
     tip_cache := Some b, height_cache := Some (height (header b)) \<rparr>"
  by (simp add: install_tip_def put_block_batch_def Let_def batch_simps)

lemma install_genesis_inv:
  assumes "block_ok b" and "block_hash X b \<noteq> ZERO" and "previous_hash (header b) = ZERO" and "height (header b) = 0"
  shows "state_inv X p (install_tip X b new_state) [b]"
proof -
  let ?bs = "[(hash_bytes (block_hash X b), b)]"
  have path: "chain_path X ?bs (block_hash X b) [b]" using assms by (intro chain_path.genesis) auto
  have "hash_bytes (block_hash X b) \<noteq> hash_bytes ZERO" using assms(2) by (metis Hash256.expand)
  with path assms have "db_inv X ?bs" by (auto simp: db_inv_def)
  with path assms(4) show ?thesis
    by (simp add: state_inv_def install_tip_fields new_state_def tip_hash_def canonical_entries_def
        read_meta_utxo_tip_def)
qed

lemma install_next_inv:
  assumes inv: "state_inv X p s chain" and fresh: "\<not> block_known s (block_hash X b)"
    and "block_hash X b \<noteq> ZERO" and "block_ok b"
    and prev: "previous_hash (header b) = tip_hash X s" and hgt: "height (header b) = height (header (last chain)) + 1"
    and pos: "height (header b) \<noteq> 0"
  shows "state_inv X p (install_tip X b s) (chain @ [b])"
proof -
  let ?bs = "hm_insert (hash_bytes (block_hash X b)) b (cf_blocks s)"
  have tip: "chain_path X (cf_blocks s) (tip_hash X s) chain" and db: "db_inv X (cf_blocks s)"
    using inv by (simp_all add: state_inv_def)
  have none: "hm_get (cf_blocks s) (hash_bytes (block_hash X b)) = None" using fresh by (simp add: block_known_def)
  have "height (header b) = 1 + height (header (last chain))" using hgt by simp
  then have "unat (height (header b)) = Suc (unat (height (header (last chain))))" using pos by (simp add: unatSuc)
  then have len: "unat (height (header b)) = length chain" using chain_path_last [OF tip] by (cases chain) auto
  then have new: "\<forall>c \<in> set chain. height (header c) \<noteq> height (header b)"
    using chain_path_height_less [OF tip] by fastforce
  have ins: "db_inv X ?bs" "chain_path X ?bs (block_hash X b) (chain @ [b])"
    using db_inv_insert [OF db none assms(3,4)] tip len by (auto simp: prev)
  have read: "read_meta_utxo_tip (install_tip X b s) = read_meta_utxo_tip s"
    by (simp add: install_tip_fields read_meta_utxo_tip_def)
  have known: "block_known (install_tip X b s) h" if "read_meta_utxo_tip s = Some h" for h
    using inv that by (auto simp: state_inv_def block_known_def install_tip_fields)
  have "read_meta_utxo_tip s \<noteq> Some (block_hash X b)" using inv fresh by (auto simp: state_inv_def)
  with ins read known inv show ?thesis
    by (simp add: state_inv_def install_tip_fields tip_hash_def canonical_entries_snoc [OF new])
qed

section \<open>Reachable states\<close>

text \<open>
  The states a node can be in: a genesis block, then blocks mined locally or submitted by miners
  and peers, the UTXO set brought in step with the tip, requeue lists taken, and restarts, which
  reopen the database and reload the caches. The conditions exclude a block whose hash is the all-zero hash, a locally mined block whose
  hash is already taken, and the wrap-around of heights at \<open>2^64 - 1\<close>.
\<close>

definition reopen :: "ChainState \<Rightarrow> ChainState" where
  "reopen s = reload_caches (s\<lparr> tip_cache := None, height_cache := None, last_disconnected := [] \<rparr>)"

inductive reachable :: "ext \<Rightarrow> ConsensusParams \<Rightarrow> ChainState \<Rightarrow> bool" for X p where
  genesis: "reachable X p s" if "init_genesis X p ts mn new_state = Some (s, Ok b)" "block_hash X b \<noteq> ZERO"
| genesis_nonce: "reachable X p s" if "init_genesis_nonce X p ts n new_state = Some (s, Ok b)" "block_hash X b \<noteq> ZERO"
| mine: "reachable X p s'" if "reachable X p s" "mine_next_block X p ts miner mn s = Some (s', Ok b)"
    "block_hash X b \<noteq> ZERO" "\<not> block_known s (block_hash X b)" "height (header b) \<noteq> 0"
| submit: "reachable X p s'" if "reachable X p s" "submit_block X p b now s = Some (s', r)" "block_ok b"
    "block_hash X b \<noteq> ZERO" "height (header b) \<noteq> 0" "unat (height (header b)) < 2 ^ 64 - 1"
| sync: "reachable X p s'" if "reachable X p s" "ensure_utxo_synced X p s = (s', r)"
| requeue: "reachable X p (snd (take_reorg_requeue_candidates s))" if "reachable X p s"
| restart: "reachable X p (reopen s)" if "reachable X p s"

lemma installed_iff:
  "(case m of Err e \<Rightarrow> (s, Err e)
    | Ok b' \<Rightarrow> (case v b' of Err e \<Rightarrow> (s, Err (F e)) | Ok _ \<Rightarrow> (g b', Ok b'))) = (s', Ok b) \<longleftrightarrow>
    m = Ok b \<and> (\<exists>u. v b = Ok u) \<and> s' = g b"
  by (cases m) (auto split: sum.splits)

lemma installed_check_iff:
  "(case v of Err e \<Rightarrow> (s, Err (F e)) | Ok _ \<Rightarrow> (g, Ok c)) = (s', Ok b) \<longleftrightarrow> (\<exists>u. v = Ok u) \<and> s' = g \<and> b = c"
  by (cases v) auto

lemma init_genesis_inv:
  assumes "digest_len X" and "init_genesis X p ts mn new_state = Some (s, Ok b)" and "block_hash X b \<noteq> ZERO"
  shows "state_inv X p s [b]"
proof -
  from assms(2) obtain bits where m: "mine_candidate_block X p None ts ''genesis'' mn bits (epoch_seed_for_height X new_state 0) = Ok b"
    and s: "s = install_tip X b new_state"
    by (auto simp: init_genesis_def Let_def installed_iff map_option_eq_Some simp del: sum.case split: if_splits)
  from m obtain n where b: "b = sealed (candidate_block_for X p None ts ''genesis'' [] 0) bits n"
    by (rule mine_candidate_sealed)
  have "block_ok b" unfolding b using assms(1) by (rule sealed_block_ok)
  moreover have "previous_hash (header b) = ZERO" "height (header b) = 0"
    by (simp_all add: b sealed_def candidate_header next_height_def)
  ultimately show ?thesis using install_genesis_inv assms(3) s by blast
qed

lemma init_genesis_nonce_inv:
  assumes "digest_len X" and "init_genesis_nonce X p ts n new_state = Some (s, Ok b)" and "block_hash X b \<noteq> ZERO"
  shows "state_inv X p s [b]"
proof -
  from assms(2) obtain bits where b: "b = sealed (candidate_block_for X p None ts ''genesis'' [] 0) bits n"
    and s: "s = install_tip X b new_state"
    by (auto simp: init_genesis_nonce_def Let_def sealed_def [symmetric] installed_check_iff map_option_eq_Some split: if_splits)
  have "block_ok b" unfolding b using assms(1) by (rule sealed_block_ok)
  moreover have "previous_hash (header b) = ZERO" "height (header b) = 0"
    by (simp_all add: b sealed_def candidate_header next_height_def)
  ultimately show ?thesis using install_genesis_inv assms(3) s by blast
qed

lemma mine_next_block_inv:
  assumes "digest_len X" and inv: "state_inv X p s chain"
    and mine: "mine_next_block X p ts miner mn s = Some (s', Ok b)" and "block_hash X b \<noteq> ZERO"
    and "\<not> block_known s (block_hash X b)" and "height (header b) \<noteq> 0"
  shows "state_inv X p s' (chain @ [b])"
proof -
  have tip: "tip_cache s = Some (last chain)" using inv by (simp add: state_inv_def)
  from mine obtain bits where m: "mine_candidate_block X p (Some (last chain)) ts miner mn bits
        (epoch_seed_for_height X s (height (header (last chain)) + 1)) = Ok b"
    and s': "s' = install_tip X b s"
    by (auto simp: mine_next_block_def tip Let_def installed_iff map_option_eq_Some)
  from m obtain n where b: "b = sealed (candidate_block_for X p (Some (last chain)) ts miner [] 0) bits n"
    by (rule mine_candidate_sealed)
  have "block_ok b" unfolding b using assms(1) by (rule sealed_block_ok)
  moreover have "previous_hash (header b) = tip_hash X s" "height (header b) = height (header (last chain)) + 1"
    by (simp_all add: b sealed_def candidate_header next_height_def tip_hash_def tip)
  ultimately show ?thesis unfolding s' using inv assms(4-6) by (intro install_next_inv)
qed

lemma reopen_inv:
  assumes "digest_len X" and "state_inv X p s chain"
  shows "reopen s = s\<lparr> last_disconnected := [] \<rparr>"
proof -
  have tip: "hm_get (cf_blocks s) (hash_bytes (tip_hash X s)) = Some (last chain)"
    and meta: "hm_get (cf_meta s) META_TIP = Some (hash_bytes (tip_hash X s))"
    and caches: "tip_cache s = Some (last chain)" "height_cache s = Some (height (header (last chain)))"
    using assms(2) chain_path_last [of X "cf_blocks s" "tip_hash X s" chain] by (auto simp: state_inv_def)
  have "hash_ok (tip_hash X s)" using caches block_hash_ok [OF assms(1)] by (simp add: tip_hash_def)
  then show ?thesis
    using tip meta caches by (simp add: reopen_def reload_caches_def get_block_by_hash_def)
qed

lemma reachable_inv:
  assumes "digest_len X" and "reachable X p s"
  shows "\<exists>chain. state_inv X p s chain"
  using assms(2)
proof (induction rule: reachable.induct)
  case (genesis ts mn s b)
  with init_genesis_inv [OF assms(1)] show ?case by blast
next
  case (genesis_nonce ts n s b)
  with init_genesis_nonce_inv [OF assms(1)] show ?case by blast
next
  case (mine s ts miner mn s' b)
  with mine_next_block_inv [OF assms(1)] show ?case by blast
next
  case (submit s b now s' r)
  then obtain chain where "state_inv X p s chain" by blast
  with submit_block_inv [OF assms(1) _ submit.hyps(3-6)] submit.hyps(2) show ?case
    by (metis accepts_def option.inject prod.inject)
next
  case (sync s s' r)
  then show ?case using ensure_utxo_synced_inv [OF assms(1)] by blast
next
  case (requeue s)
  then show ?case by (simp add: take_reorg_requeue_candidates_def)
next
  case (restart s)
  then obtain chain where inv: "state_inv X p s chain" by blast
  with reopen_inv [OF assms(1) inv] show ?case by auto
qed

end
