(* ===== verification/Chain_Ledger.thy ===== *)
theory Chain_Ledger
  imports Chain_Invariant
begin

text \<open>
  What the invariant of the chain database means to its users: the views of the canonical chain
  agree, submitting a block always returns and never lowers the work of the chain, the persistent
  UTXO set is the replay of the canonical chain, and the money in it is bounded by the emission
  schedule.
\<close>

section \<open>Views of the canonical chain\<close>

lemma get_block_by_height_chain:
  assumes "digest_len X" and inv: "state_inv X p s chain"
  shows "get_block_by_height s h = (if unat h < length chain then Some (chain ! unat h) else None)"
proof -
  have path: "chain_path X (cf_blocks s) (tip_hash X s) chain"
    and get: "hm_get (cf_canonical s) = hm_get (canonical_entries X chain)"
    using inv by (simp_all add: state_inv_def)
  show ?thesis
  proof (cases "unat h < length chain")
    case True
    let ?b = "chain ! unat h"
    have "map (unat \<circ> height \<circ> header) chain ! unat h = unat h"
      using chain_path_heights [OF path] True by simp
    then have "height (header ?b) = h" using True by (simp add: word_unat_eq_iff)
    then have "(encode_height h, hash_bytes (block_hash X ?b)) \<in> set (canonical_entries X chain)"
      using True by (force simp: canonical_entries_def)
    then have "hm_get (canonical_entries X chain) (encode_height h) = Some (hash_bytes (block_hash X ?b))"
      using canonical_entries_ok [OF path] by simp
    then show ?thesis using True chain_path_stored [OF path, of ?b] block_hash_ok [OF assms(1)]
      by (simp add: get_block_by_height_def get get_block_by_hash_def)
  next
    case False
    then have "hm_get (canonical_entries X chain) (encode_height h) = None"
      using canonical_entries_Some_iff [OF path, of h] by (cases "hm_get (canonical_entries X chain) (encode_height h)") auto
    then show ?thesis using False by (simp add: get_block_by_height_def get)
  qed
qed

text \<open>
  C10. In every reachable state the views of the chain agree: the blocks read back in key order,
  the walk from the tip along the parents, and the lookup by height all give one list of blocks
  that starts at height 0; the caches hold its last block and its height, and a restart recovers
  exactly this state from the database.
\<close>

theorem reachable_views_agree:
  assumes "digest_len X" and "reachable X p s"
  shows "\<exists>chain. chain \<noteq> [] \<and> canonical_blocks_iter s = chain
    \<and> build_canonical_chain s (tip_hash X s) = Some chain
    \<and> (\<forall>h. get_block_by_height s h = (if unat h < length chain then Some (chain ! unat h) else None))
    \<and> map (unat \<circ> height \<circ> header) chain = [0..<length chain]
    \<and> tip_cache s = Some (last chain) \<and> height_cache s = Some (height (header (last chain)))
    \<and> reopen s = s\<lparr> last_disconnected := [] \<rparr>"
proof -
  from reachable_inv [OF assms] obtain chain where inv: "state_inv X p s chain" by blast
  then have path: "chain_path X (cf_blocks s) (tip_hash X s) chain" by (simp add: state_inv_def)
  show ?thesis
    using chain_path_last [OF path] canonical_blocks_iter_chain [OF assms(1) inv]
      build_canonical_chain_path [OF path] get_block_by_height_chain [OF assms(1) inv]
      chain_path_heights [OF path] reopen_inv [OF assms(1) inv] inv
    by (intro exI [of _ chain]) (simp add: state_inv_def)
qed

text \<open>
  C4. Submitting a block always returns (no walk along the parents loops), never replaces the
  chain by one with less or equal work, changes it only when it accepts the block, which is then
  the tip, and leaves the UTXO set in step with the new tip. Every error leaves the chain as it was.
\<close>

theorem submit_block_fork_choice:
  assumes "digest_len X" and "reachable X p s" and "block_ok b" and "block_hash X b \<noteq> ZERO"
    and "height (header b) \<noteq> 0" and "unat (height (header b)) < 2 ^ 64 - 1"
  shows "\<exists>s' r. submit_block X p b now s = Some (s', r) \<and>
    (let chain = canonical_blocks_iter s; chain' = canonical_blocks_iter s' in
     chain' = chain \<or>
     r = Ok b \<and> last chain' = b \<and> path_work chain < path_work chain' \<and> read_meta_utxo_tip s' = Some (block_hash X b))"
proof -
  from reachable_inv [OF assms(1,2)] obtain chain where inv: "state_inv X p s chain" by blast
  from submit_block_inv [OF assms(1) inv assms(3-6)] obtain s' r chain'
    where run: "submit_block X p b now s = Some (s', r)" and acc: "accepts X p b chain s' r chain'" by blast
  then have inv': "state_inv X p s' chain'" by (simp add: accepts_def)
  have "tip_cache s' = Some (last chain')" using inv' by (simp add: state_inv_def)
  then show ?thesis
    using run acc canonical_blocks_iter_chain [OF assms(1) inv] canonical_blocks_iter_chain [OF assms(1) inv']
    by (auto simp: accepts_def synced_def tip_hash_def Let_def)
qed

text \<open>
  C1. The persistent UTXO set, whether extended block by block or rewritten by a reorganisation or
  after a crash, is the ledger: whenever it is stamped with the tip it agrees, outpoint by
  outpoint, with replaying the canonical chain from genesis, and that replay succeeds.
\<close>

theorem utxo_is_replay:
  assumes "digest_len X" and "reachable X p s" and "read_meta_utxo_tip s = Some (tip_hash X s)"
  shows "\<exists>uset. replay_utxo X p (canonical_blocks_iter s) = Ok uset \<and>
    (\<forall>op. outpoint_ok op \<longrightarrow> utxo_lookup s op = hm_get uset op)"
proof -
  from reachable_inv [OF assms(1,2)] obtain chain where inv: "state_inv X p s chain" by blast
  with assms(3) canonical_blocks_iter_chain [OF assms(1) inv] show ?thesis
    by (auto simp: state_inv_def replay_utxo_def utxo_is_def utxo_lookup_def)
qed

section \<open>Money\<close>

lemma replay_money:
  assumes "replay_utxo_from X p m chain = Ok m'" and "hm_ok m"
    and "\<forall>b \<in> set chain. \<not> has_genesis_premint p (height (header b))"
    and "map (unat \<circ> height \<circ> header) chain = [n..<n + length chain]"
    and "money m \<le> reward_sum p n" and "reward_sum p (n + length chain) < 2 ^ 64 - 1"
  shows "money m' \<le> reward_sum p (n + length chain)"
  using assms
proof (induction chain arbitrary: m n)
  case Nil
  then show ?case by simp
next
  case (Cons b chain)
  from Cons.prems(1) obtain m1 where a: "apply_block X p m b = Ok m1" and r: "replay_utxo_from X p m1 chain = Ok m'"
    by (auto split: sum.splits)
  have "[n..<n + length (b # chain)] = n # [Suc n..<Suc n + length chain]"
    by (subst upt_conv_Cons) (simp_all del: upt_Suc)
  then have h: "unat (height (header b)) = n" and rest: "map (unat \<circ> height \<circ> header) chain = [Suc n..<Suc n + length chain]"
    using Cons.prems(4) by (simp_all add: comp_def del: upt_Suc)
  have sub: "block_subsidy p (height (header b)) = unat (reward_at_height p (of_nat n))"
    using Cons.prems(3) h by (auto simp: block_subsidy_def)
  have "reward_sum p (Suc n) \<le> reward_sum p (n + length (b # chain))"
    by (intro reward_sum_mono) simp
  then have small: "money m + block_subsidy p (height (header b)) < 2 ^ 64 - 1"
    using Cons.prems(5,6) sub reward_sum_Suc [of p n] by linarith
  have "money m1 \<le> reward_sum p (Suc n)" "hm_ok m1"
    using apply_block_money [OF a Cons.prems(2) small] Cons.prems(5) sub reward_sum_Suc [of p n] by auto
  with Cons.IH [OF r _ _ rest] Cons.prems(3,6) show ?case by simp
qed

text \<open>
  C3. The supply cap of the ledger: on mainnet, in every reachable state whose UTXO set is in step
  with the tip, all unspent outputs together are worth at most 3_299_999_986_972_800 atoms (just
  under 33 million coins), however blocks arrived and whatever forks were taken.
\<close>

theorem mainnet_ledger_cap:
  assumes "digest_len X" and "reachable X MAINNET s" and "read_meta_utxo_tip s = Some (tip_hash X s)"
    and "length (canonical_blocks_iter s) div 2102400 < 2 ^ 32"
  shows "\<exists>uset. (\<forall>op. outpoint_ok op \<longrightarrow> utxo_lookup s op = hm_get uset op) \<and> hm_ok uset \<and>
    money uset \<le> 3299999986972800"
proof -
  from reachable_inv [OF assms(1,2)] obtain chain where inv: "state_inv X MAINNET s chain" by blast
  then have path: "chain_path X (cf_blocks s) (tip_hash X s) chain" by (simp add: state_inv_def)
  have iter: "canonical_blocks_iter s = chain" using assms(1) inv by (rule canonical_blocks_iter_chain)
  from inv assms(3) obtain uset where rep: "replay_utxo_from X MAINNET [] chain = Ok uset" and uis: "utxo_is s uset"
    by (auto simp: state_inv_def)
  have ok: "utxo_map_ok uset"
    using replay_utxo_map_ok [OF rep] state_inv_blocks_ok [OF inv] by simp
  have "length chain \<le> 2 ^ 64"
    using chain_path_last [OF path] unat_u64_lt [of "height (header (last chain))"] by (cases chain) auto
  then have cap: "reward_sum MAINNET (length chain) \<le> 3299999986972800"
    using assms(4) by (intro mainnet_reward_bound) (simp_all add: iter)
  have "money uset \<le> reward_sum MAINNET (0 + length chain)"
    using chain_path_heights [OF path] cap by (intro replay_money [OF rep]) (simp_all add: money_def reward_sum_def)
  with cap ok uis show ?thesis by (auto simp: utxo_is_def utxo_lookup_def utxo_map_ok_def)
qed

section \<open>Rejected blocks\<close>

lemma fork_choice_Utxo_error:
  assumes "fork_choice X p b s = Some (s', Err e)"
  shows "s' = s\<lparr> last_disconnected := [] \<rparr>"
proof -
  have "extend_tip X p b s1 = (s', Err e) \<Longrightarrow> s' = s1" for s1
    by (cases "validate_block_utxo X p s1 b") (auto simp: extend_tip_def Let_def)
  moreover have "reorg_to X p b t new s1 = Some (s', Err e) \<Longrightarrow> s' = s1" for s1 t new
    by (cases "replay_utxo X p new") (auto simp: reorg_to_def Let_def bind_eq_Some_conv)
  ultimately show ?thesis
    using assms by (auto simp: fork_choice_def Let_def bind_eq_Some_conv split: if_splits)
qed

lemma canonical_blocks_iter_store:
  assumes "digest_len X" and inv: "state_inv X p s chain" and fresh: "hm_get (cf_blocks s) k = None"
    and s': "cf_canonical s' = cf_canonical s" "cf_blocks s' = hm_insert k b (cf_blocks s)"
  shows "canonical_blocks_iter s' = chain"
proof -
  have path: "chain_path X (cf_blocks s) (tip_hash X s) chain" using inv by (simp add: state_inv_def)
  have stored: "hm_get (cf_blocks s') (hash_bytes (block_hash X c)) = Some c" if "c \<in> set chain" for c
    using chain_path_stored [OF path that] fresh by (auto simp: s'(2))
  show ?thesis
    unfolding canonical_blocks_iter_def s'(1) canonical_scan [OF inv] canonical_entries_def
    using stored block_hash_ok [OF assms(1)] by (intro map_filter_all) (simp add: get_block_by_hash_def)
qed

text \<open>
  C33. A block whose transactions are rejected is remembered all the same: \<open>submit_block\<close> stores it
  before it validates the transactions against the UTXO set, so after that error every block with
  the same header hash is answered \<open>AlreadyKnown\<close>. The hash covers the transactions only through
  their declared ids, so this includes the honest block a tampered copy was made from.
\<close>

theorem rejected_block_stays_known:
  assumes "digest_len X" and "reachable X p s" and "read_meta_utxo_tip s = Some (tip_hash X s)"
    and "submit_block X p b now s = Some (s', Err (Utxo e))" and "block_hash X b' = block_hash X b"
  shows "submit_block X p b' now' s' = Some (s', Err AlreadyKnown) \<and>
    canonical_blocks_iter s' = canonical_blocks_iter s"
proof -
  from reachable_inv [OF assms(1,2)] obtain chain where inv: "state_inv X p s chain" by blast
  then have tip: "tip_cache s = Some (last chain)" by (simp add: state_inv_def)
  have sync: "ensure_utxo_synced X p s = (s, Ok ())"
    using assms(3) by (simp add: ensure_utxo_synced_def tip tip_hash_def)
  let ?k = "hash_bytes (block_hash X b)"
  let ?s2 = "s\<lparr> cf_blocks := hm_insert ?k b (cf_blocks s) \<rparr>"
  from assms(4) have fresh: "\<not> block_known s (block_hash X b)" and fc: "fork_choice X p b ?s2 = Some (s', Err (Utxo e))"
    by (auto simp: submit_block_def sync bind_eq_Some_conv split: if_splits option.splits sum.splits)
  have s': "s' = ?s2\<lparr> last_disconnected := [] \<rparr>" using fork_choice_Utxo_error [OF fc] .
  then have "block_known s' (block_hash X b')" by (simp add: block_known_def assms(5))
  moreover have "canonical_blocks_iter s' = chain"
    using fresh by (intro canonical_blocks_iter_store [OF assms(1) inv, of ?k _ b]) (simp_all add: s' block_known_def)
  ultimately show ?thesis
    using canonical_blocks_iter_chain [OF assms(1) inv] by (simp add: submit_block_def)
qed

section \<open>A concrete chain for the witnesses\<close>

text \<open>A digest that copies its input, and a proof-of-work hash that always meets the target.\<close>

definition peek_ext :: ext where
  "peek_ext = demo_ext\<lparr> sha256 := (\<lambda>bs. take 32 (1 # bs @ replicate 32 0)), blake2b256 := (\<lambda>_. replicate 31 0 @ [1]) \<rparr>"

lemma peek_digest_len [simp]: "digest_len peek_ext"
  by (auto simp: peek_ext_def digest_len_def min_def)

lemma peek_pow_hash: "hash_leading_zero_bits (pow_hash peek_ext h seed) = 255"
  by (simp add: pow_hash_def tensor_pow_hash_def Let_def peek_ext_def hash_leading_zero_bits_def numeral_eq_Suc u8_leading_zeros_def)

lemma peek_meets_work [simp]: "header_meets_work peek_ext h seed"
  using unat_u8_lt [of "leading_zero_bits h"] by (simp add: header_meets_work_def hash_meets_work_def peek_pow_hash)

lemma peek_hash_nonzero [simp]: "block_hash peek_ext b \<noteq> ZERO"
proof -
  have "hd (hash_bytes (double_sha256 peek_ext bs)) = 1" for bs
    by (simp add: double_sha256_def peek_ext_def)
  moreover have "hd (hash_bytes ZERO) = 0" by (simp add: ZERO_def)
  ultimately show ?thesis unfolding block_hash_def header_hash_def by (metis zero_neq_one)
qed

definition peek_genesis :: Block where
  "peek_genesis = sealed (candidate_block_for peek_ext MAINNET None 1000 ''genesis'' [] 0) 42 7"

definition peek_state :: ChainState where
  "peek_state = install_tip peek_ext peek_genesis new_state"

lemma peek_init: "init_genesis_nonce peek_ext MAINNET 1000 7 new_state = Some (peek_state, Ok peek_genesis)"
proof -
  have bits: "expected_leading_zero_bits_for new_state MAINNET None = Some 42"
    by (simp add: expected_leading_zero_bits_for_def next_height_def expected_leading_zero_bits_def mainnet_defs)
  have "validate_block peek_ext MAINNET None peek_genesis 1000 42 seed = Ok ()" for seed
    unfolding peek_genesis_def by (rule sealed_validates) (simp_all add: mainnet_defs)
  then show ?thesis
    by (simp add: init_genesis_nonce_def bits Let_def sealed_def [symmetric] peek_genesis_def [symmetric] peek_state_def)
      (simp add: new_state_def)
qed

lemma peek_reachable: "reachable peek_ext MAINNET peek_state"
  using peek_init by (rule reachable.genesis_nonce) simp

lemma peek_inv: "state_inv peek_ext MAINNET peek_state [peek_genesis]"
  using peek_init by (rule init_genesis_nonce_inv [OF peek_digest_len]) simp

lemma peek_double_nth:
  assumes "21 < length bs"
  shows "hash_bytes (double_sha256 peek_ext bs) ! 23 = bs ! 21"
proof -
  have sha: "sha256 peek_ext xs ! Suc n = xs ! n" if "n < length xs" "n < 31" for xs n
    using that by (simp add: peek_ext_def nth_append)
  have len: "length (sha256 peek_ext bs) = 32" using peek_digest_len by (simp add: digest_len_def)
  have "hash_bytes (double_sha256 peek_ext bs) ! Suc 22 = sha256 peek_ext bs ! 22"
    using sha [of 22 "sha256 peek_ext bs"] len by (simp add: double_sha256_def)
  also have "\<dots> = bs ! 21" using sha [of 21 bs] assms by simp
  finally show ?thesis by simp
qed

lemma peek_hash_height:
  assumes "length (chain_id (header b)) = 17"
  shows "hash_bytes (block_hash peek_ext b) ! 23 = of_nat (unat (height (header b)) mod 256)"
proof -
  let ?h = "header b"
  let ?pre = "u32_to_le (version ?h) @ str_bytes (chain_id ?h)"
  define rest where "rest = hash_bytes (previous_hash ?h) @ hash_bytes (merkle_root ?h)
    @ u64_to_le (timestamp_seconds ?h) @ [leading_zero_bits ?h] @ u64_to_le (nonce ?h)"
  have len: "length ?pre = 21" using assms by simp
  have "block_hash peek_ext b = double_sha256 peek_ext (?pre @ u64_to_le (height ?h) @ rest)"
    by (simp add: block_hash_def header_hash_def rest_def)
  then have "hash_bytes (block_hash peek_ext b) ! 23 = (?pre @ u64_to_le (height ?h) @ rest) ! 21"
    using len by (simp only: peek_double_nth length_append length_int_bytes)
  also have "\<dots> = (u64_to_le (height ?h) @ rest) ! 0"
    using len nth_append_length_plus [of ?pre "u64_to_le (height ?h) @ rest" 0] by simp
  also have "\<dots> = of_nat (unat (height ?h) mod 256)"
    using nat_le.simps(2) [of 7 "unat (height ?h)"] by (simp add: u64_to_le_def)
  finally show ?thesis .
qed

lemma peek_genesis_header:
  "chain_id (header peek_genesis) = ''tensorium-mainnet''" "height (header peek_genesis) = 0"
  "previous_hash (header peek_genesis) = ZERO" "leading_zero_bits (header peek_genesis) = 42"
  by (simp_all add: peek_genesis_def sealed_def candidate_header next_height_def) (simp add: mainnet_defs)

lemma total_coinbase: "total_output_atoms (coinbase X h r a) = r"
  by (simp add: coinbase_def Let_def total_output_atoms_def sat_sum_def)

lemma candidate_mainnet_txs:
  "transactions (candidate_block_for X MAINNET parent ts miner [] fees)
    = [coinbase X (next_height parent) (sat_add (reward_at_height MAINNET (next_height parent)) fees) miner]"
  by (simp add: candidate_block_for_def Let_def) (simp add: mainnet_defs)

lemma peek_genesis_applies: "\<exists>m. replay_utxo peek_ext MAINNET [peek_genesis] = Ok m"
  by (simp add: replay_utxo_def apply_block_def check_block_def peek_genesis_def sealed_def candidate_mainnet_txs
      total_coinbase max_coinbase_atoms_def candidate_header next_height_def)

text \<open>A block with an unknown parent: submitting it only brings the UTXO set in step.\<close>

definition peek_orphan :: Block where
  "peek_orphan = peek_genesis\<lparr> header := (header peek_genesis)\<lparr> height := 1 \<rparr> \<rparr>"

definition peek_synced :: ChainState where
  "peek_synced = fst (ensure_utxo_synced peek_ext MAINNET peek_state)"

lemma peek_not_known:
  assumes "length (chain_id (header b)) = 17" and "height (header b) = 1"
    and "cf_blocks s = cf_blocks peek_state"
  shows "\<not> block_known s (block_hash peek_ext b)"
proof -
  have "hash_bytes (block_hash peek_ext b) \<noteq> hash_bytes (block_hash peek_ext peek_genesis)"
    using peek_hash_height [OF assms(1)] peek_hash_height [of peek_genesis] assms(2)
    by (auto simp: peek_genesis_header)
  then show ?thesis by (simp add: block_known_def assms(3) peek_state_def install_tip_fields new_state_def)
qed

lemma peek_ensure: "ensure_utxo_synced peek_ext MAINNET peek_state = (peek_synced, Ok ())"
proof -
  have "canonical_blocks_iter peek_state = [peek_genesis]"
    using peek_digest_len peek_inv by (rule canonical_blocks_iter_chain)
  moreover have "tip_cache peek_state = Some peek_genesis" using peek_inv by (simp add: state_inv_def)
  ultimately have "snd (ensure_utxo_synced peek_ext MAINNET peek_state) = Ok ()"
    using peek_genesis_applies by (auto simp: ensure_utxo_synced_def)
  then show ?thesis by (simp add: peek_synced_def prod_eq_iff)
qed

lemmas peek_sync = ensure_utxo_synced_inv [OF peek_digest_len peek_inv peek_ensure]

lemma peek_synced_stamp: "read_meta_utxo_tip peek_synced = Some (tip_hash peek_ext peek_synced)"
  using peek_sync by (simp add: synced_def)

lemma peek_orphan_submit:
  "submit_block peek_ext MAINNET peek_orphan 0 peek_state = Some (peek_synced, Err UnknownParent)"
proof -
  have "\<not> block_known peek_state (block_hash peek_ext peek_orphan)"
    by (rule peek_not_known) (simp_all add: peek_orphan_def peek_genesis_header)
  moreover have "get_block_by_hash peek_synced (previous_hash (header peek_orphan)) = None"
    using peek_inv peek_sync
    by (simp add: get_block_by_hash_def peek_orphan_def peek_genesis_header state_inv_def db_inv_def)
  ultimately show ?thesis by (simp add: submit_block_def peek_ensure)
qed

lemma peek_genesis_ok: "block_ok peek_genesis"
  unfolding peek_genesis_def by (rule sealed_block_ok) simp

lemma peek_synced_reachable: "reachable peek_ext MAINNET peek_synced"
proof (rule reachable.submit [OF peek_reachable peek_orphan_submit])
  show "block_ok peek_orphan" using peek_genesis_ok by (simp add: peek_orphan_def block_ok_def)
qed (simp_all add: peek_orphan_def)

theorem reachable_views_agree_witness:
  "\<exists>chain. chain \<noteq> [] \<and> canonical_blocks_iter peek_state = chain
    \<and> build_canonical_chain peek_state (tip_hash peek_ext peek_state) = Some chain"
  using reachable_views_agree [OF peek_digest_len peek_reachable] by blast

theorem submit_block_fork_choice_witness:
  "\<exists>s' r. submit_block peek_ext MAINNET peek_orphan 0 peek_state = Some (s', r) \<and>
    (let chain = canonical_blocks_iter peek_state; chain' = canonical_blocks_iter s' in
     chain' = chain \<or>
     r = Ok peek_orphan \<and> last chain' = peek_orphan \<and> path_work chain < path_work chain'
       \<and> read_meta_utxo_tip s' = Some (block_hash peek_ext peek_orphan))"
proof -
  have "block_ok peek_orphan" using peek_genesis_ok by (simp add: peek_orphan_def block_ok_def)
  then show ?thesis
    using submit_block_fork_choice [OF peek_digest_len peek_reachable, of peek_orphan 0]
    by (simp add: peek_orphan_def)
qed

theorem utxo_is_replay_witness:
  "\<exists>uset. replay_utxo peek_ext MAINNET (canonical_blocks_iter peek_synced) = Ok uset \<and>
    (\<forall>op. outpoint_ok op \<longrightarrow> utxo_lookup peek_synced op = hm_get uset op)"
  using utxo_is_replay [OF peek_digest_len peek_synced_reachable peek_synced_stamp] .

theorem mainnet_ledger_cap_witness:
  "\<exists>uset. (\<forall>op. outpoint_ok op \<longrightarrow> utxo_lookup peek_synced op = hm_get uset op) \<and> hm_ok uset \<and>
    money uset \<le> 3299999986972800"
proof -
  have "canonical_blocks_iter peek_synced = [peek_genesis]"
    using peek_sync by (intro canonical_blocks_iter_chain [OF peek_digest_len]) auto
  then show ?thesis
    using mainnet_ledger_cap [OF peek_digest_len peek_synced_reachable peek_synced_stamp] by simp
qed

text \<open>A block that extends the genesis block and whose coinbase claims one atom too many.\<close>

definition peek_greedy :: Block where
  "peek_greedy = sealed (candidate_block_for peek_ext MAINNET (Some peek_genesis) 1060 ''m'' [] 1) 42 0"

lemma peek_greedy_header:
  "chain_id (header peek_greedy) = ''tensorium-mainnet''" "height (header peek_greedy) = 1"
  "previous_hash (header peek_greedy) = block_hash peek_ext peek_genesis" "leading_zero_bits (header peek_greedy) = 42"
  by (simp_all add: peek_greedy_def sealed_def candidate_header next_height_def peek_genesis_header) (simp add: mainnet_defs)

lemma peek_synced_blocks: "cf_blocks peek_synced = [(hash_bytes (block_hash peek_ext peek_genesis), peek_genesis)]"
  using peek_sync by (simp add: peek_state_def install_tip_fields new_state_def)

lemma peek_greedy_over: "validate_block_utxo peek_ext MAINNET s peek_greedy = Err (Utxo CoinbaseOutputTooHigh)"
proof -
  have r: "reward_at_height MAINNET 1 = 785584523"
    by (simp add: reward_at_height_def emission_era_def mainnet_defs)
  have "transactions peek_greedy = [coinbase peek_ext 1 785584524 ''m'']"
    by (simp add: peek_greedy_def sealed_def candidate_mainnet_txs next_height_def peek_genesis_header r sat_add_def)
  then show ?thesis
    by (simp add: validate_block_utxo_def apply_block_def check_block_def total_coinbase peek_greedy_header
        max_coinbase_atoms_def r)
qed

lemma peek_greedy_submit:
  "\<exists>s'. submit_block peek_ext MAINNET peek_greedy 1060 peek_synced = Some (s', Err (Utxo CoinbaseOutputTooHigh))"
proof -
  let ?X = peek_ext and ?k = "hash_bytes (block_hash peek_ext peek_greedy)"
  let ?s2 = "peek_synced\<lparr> cf_blocks := hm_insert ?k peek_greedy (cf_blocks peek_synced) \<rparr>"
  have inv: "state_inv ?X MAINNET peek_synced [peek_genesis]" using peek_sync by blast
  then have tip: "tip_cache peek_synced = Some peek_genesis" by (simp add: state_inv_def)
  have new: "\<not> block_known peek_synced (block_hash ?X peek_greedy)"
    using peek_sync by (intro peek_not_known) (simp_all add: peek_greedy_header)
  have ens: "ensure_utxo_synced ?X MAINNET peek_synced = (peek_synced, Ok ())"
    using peek_synced_stamp by (simp add: ensure_utxo_synced_def tip tip_hash_def)
  have parent: "get_block_by_hash peek_synced (previous_hash (header peek_greedy)) = Some peek_genesis"
    by (simp add: get_block_by_hash_def peek_greedy_header peek_synced_blocks)
  have bits: "expected_leading_zero_bits_for peek_synced MAINNET (Some peek_genesis) = Some 42"
    by (simp add: expected_leading_zero_bits_for_def next_height_def expected_leading_zero_bits_def
        peek_genesis_header) (simp add: expected_leading_zero_bits_def mainnet_defs)
  have val: "validate_block ?X MAINNET (Some peek_genesis) peek_greedy 1060 42 seed = Ok ()" for seed
    unfolding peek_greedy_def by (rule sealed_validates) (simp_all add: mainnet_defs)
  have db: "db_inv ?X (cf_blocks peek_synced)" and path: "chain_path ?X (cf_blocks peek_synced) (block_hash ?X peek_genesis) [peek_genesis]"
    using inv by (simp_all add: state_inv_def tip_hash_def tip)
  have fresh: "hm_get (cf_blocks peek_synced) ?k = None" using new by (simp add: block_known_def)
  have "block_ok peek_greedy" unfolding peek_greedy_def by (rule sealed_block_ok) simp
  then have path2: "chain_path ?X (cf_blocks ?s2) (block_hash ?X peek_greedy) [peek_genesis, peek_greedy]"
    using db_inv_insert [OF db fresh, of "[peek_genesis]"] path by (simp add: peek_greedy_header)
  have path1: "chain_path ?X (cf_blocks ?s2) (block_hash ?X peek_genesis) [peek_genesis]"
    using chain_path_insert [OF path fresh] by simp
  have work: "path_work [peek_genesis, peek_greedy] > path_work [peek_genesis]"
    by (simp add: path_work_def block_work_def peek_greedy_header peek_genesis_header sat_add_def)
  have "fork_choice ?X MAINNET peek_greedy ?s2 = Some (?s2\<lparr> last_disconnected := [] \<rparr>, Err (Utxo CoinbaseOutputTooHigh))"
    using work chain_work_path [OF path1] chain_work_path [OF path2]
    by (simp add: fork_choice_def tip_hash_def tip Let_def peek_greedy_header extend_tip_def peek_greedy_over)
  then show ?thesis using new by (simp add: submit_block_def ens parent bits val)
qed

theorem rejected_block_stays_known_witness:
  "\<exists>s'. submit_block peek_ext MAINNET peek_greedy 1060 peek_synced = Some (s', Err (Utxo CoinbaseOutputTooHigh))
    \<and> submit_block peek_ext MAINNET (peek_greedy\<lparr> transactions := [] \<rparr>) 1070 s' = Some (s', Err AlreadyKnown)"
proof -
  obtain s' where sub: "submit_block peek_ext MAINNET peek_greedy 1060 peek_synced = Some (s', Err (Utxo CoinbaseOutputTooHigh))"
    using peek_greedy_submit by blast
  have "block_hash peek_ext (peek_greedy\<lparr> transactions := [] \<rparr>) = block_hash peek_ext peek_greedy"
    by (simp add: block_hash_def)
  with rejected_block_stays_known [OF peek_digest_len peek_synced_reachable peek_synced_stamp sub] sub
  show ?thesis by blast
qed

end
