(* ===== verification/Node_Peers.thy ===== *)
theory Node_Peers
  imports Chain_Ledger Mem_Pool Rust_Text
begin

text \<open>
  The peer-to-peer side of the node: \<open>crates/tensorium-node/src/main.rs\<close>. A node is its three files:
  the chain database, the mempool and the ban list. Every operation opens the database afresh
  (\<open>load_state\<close>, which fails when another thread holds its lock) and keeps it open until it is done,
  so operations on the chain and the pool do not interleave, while the messages of different
  connections do: a message is one step. JSON text and sockets are not modelled: a connection is the
  list of what its lines parse to, each with the time and the state of the lock at that moment.
  \<open>submit_block\<close> may fail to return on a damaged database, so the operations that call it are of
  option type. The functions a peer answers \<open>sync_blocks\<close> with are arguments.

  The lemmas show that no sequence of messages takes the node out of its invariant, what the ban
  policy does and where it fails, that transactions of disconnected blocks return to the pool, and
  when synchronising with a peer ends.
\<close>

section \<open>The node\<close>

definition P2P_PROTOCOL_VERSION :: u32 where "P2P_PROTOCOL_VERSION = 1"
definition SYNC_BATCH_SIZE :: nat where "SYNC_BATCH_SIZE = 50"
definition MAX_FORK_SEARCH_DEPTH :: u64 where "MAX_FORK_SEARCH_DEPTH = 1000"
definition MAX_INBOUND_PEERS :: nat where "MAX_INBOUND_PEERS = 64"
definition BAN_THRESHOLD :: u32 where "BAN_THRESHOLD = 100"
definition BAN_DURATION_SECS :: u64 where "BAN_DURATION_SECS = 3600"
definition SCORE_INVALID_BLOCK :: u32 where "SCORE_INVALID_BLOCK = 20"
definition SCORE_INVALID_TX :: u32 where "SCORE_INVALID_TX = 10"
definition SCORE_INVALID_MSG :: u32 where "SCORE_INVALID_MSG = 2"
definition SCORE_BAD_HANDSHAKE :: u32 where "SCORE_BAD_HANDSHAKE = 100"

record BanEntry =
  ban_score :: u32
  banned_until :: "u64 option"

type_synonym ban_list = "(string, BanEntry) hashmap"

record Node =
  node_chain :: ChainState
  node_pool :: mempool
  node_bans :: ban_list

definition load_state :: "string option \<Rightarrow> Node \<Rightarrow> (ChainState, string) result" where
  "load_state lock n = (case lock of Some e \<Rightarrow> Err e | None \<Rightarrow> Ok (reopen (node_chain n)))"

text \<open>\<open>height().unwrap_or(0)\<close>\<close>

definition height_or_0 :: "ChainState \<Rightarrow> u64" where
  "height_or_0 s = (case height_cache s of Some h \<Rightarrow> h | None \<Rightarrow> 0)"

section \<open>Pending transactions\<close>

definition seed_utxos_for_tx :: "ChainState \<Rightarrow> Transaction \<Rightarrow> utxo_map" where
  "seed_utxos_for_tx s tx = seed_entries (utxo_lookup s) (tx_refs tx)"

fun requeue_loop :: "ext \<Rightarrow> ConsensusParams \<Rightarrow> ChainState \<Rightarrow> u64 \<Rightarrow> Transaction list \<Rightarrow> mempool \<Rightarrow> nat \<Rightarrow> mempool \<times> nat" where
  "requeue_loop X p s tip_height [] pool requeued = (pool, requeued)"
| "requeue_loop X p s tip_height (tx # txs) pool requeued =
     (case mempool_add X p (hm_get (seed_utxos_for_tx s tx)) pool tx tip_height of
        Ok pool' \<Rightarrow> requeue_loop X p s tip_height txs pool' (Suc requeued)
      | Err _ \<Rightarrow> requeue_loop X p s tip_height txs pool requeued)"

definition requeue_reorged_transactions ::
  "ext \<Rightarrow> ConsensusParams \<Rightarrow> ChainState \<Rightarrow> mempool \<Rightarrow> ChainState \<times> mempool \<times> nat" where
  "requeue_reorged_transactions X p s pool =
     (let (candidates, s1) = take_reorg_requeue_candidates s in
      if candidates = [] then (s1, pool, 0)
      else (s1, requeue_loop X p s1 (height_or_0 s1) candidates pool 0))"

section \<open>The ban list\<close>

definition active :: "u64 \<Rightarrow> BanEntry \<Rightarrow> bool" where
  "active now e \<longleftrightarrow> (case banned_until e of Some u \<Rightarrow> u > now | None \<Rightarrow> False)"

definition is_banned :: "ban_list \<Rightarrow> string \<Rightarrow> u64 \<Rightarrow> bool" where
  "is_banned bans ip now \<longleftrightarrow> (case hm_get bans ip of Some e \<Rightarrow> active now e | None \<Rightarrow> False)"

definition ban_entry :: "ban_list \<Rightarrow> string \<Rightarrow> BanEntry" where
  "ban_entry bans ip = (case hm_get bans ip of Some e \<Rightarrow> e | None \<Rightarrow> \<lparr> ban_score = 0, banned_until = None \<rparr>)"

definition record_score :: "ban_list \<Rightarrow> string \<Rightarrow> u32 \<Rightarrow> u64 \<Rightarrow> bool \<times> ban_list" where
  "record_score bans ip score now =
     (let e = (ban_entry bans ip)\<lparr> ban_score := sat_add (ban_score (ban_entry bans ip)) score \<rparr> in
      if \<not> active now e \<and> ban_score e \<ge> BAN_THRESHOLD
      then (True, hm_insert ip (e\<lparr> banned_until := Some (now + BAN_DURATION_SECS) \<rparr>) bans)
      else (False, hm_insert ip e bans))"

definition unban :: "ban_list \<Rightarrow> string \<Rightarrow> ban_list" where
  "unban bans ip = hm_remove ip bans"

definition prune_expired :: "ban_list \<Rightarrow> u64 \<Rightarrow> ban_list" where
  "prune_expired bans now =
     filter (\<lambda>(_, e). case banned_until e of Some u \<Rightarrow> u > now | None \<Rightarrow> True) bans"

definition record_violation :: "ban_list \<Rightarrow> string \<Rightarrow> u32 \<Rightarrow> u64 \<Rightarrow> bool \<times> ban_list" where
  "record_violation bans ip score now = record_score (prune_expired bans now) ip score now"

text \<open>The texts of the errors, and the substring tests that decide which of them count.\<close>

fun utxo_error_text :: "UtxoError \<Rightarrow> string" where
  "utxo_error_text MissingInput = ''transaction spends an output that does not exist''"
| "utxo_error_text DuplicateInput = ''transaction spends the same output more than once''"
| "utxo_error_text MissingCoinbase = ''coinbase transaction is missing''"
| "utxo_error_text CoinbaseOutputTooHigh = ''coinbase output exceeds block reward plus transaction fees''"
| "utxo_error_text UtxoInvalidSignature = ''transaction signature is invalid''"
| "utxo_error_text ImmatureCoinbaseSpend = ''coinbase output is not mature enough to spend''"
| "utxo_error_text OutputExceedsInput = ''transaction outputs exceed inputs (would inflate supply)''"

fun validation_error_text :: "ValidationError \<Rightarrow> string" where
  "validation_error_text WrongChainId = ''block chain id does not match consensus params''"
| "validation_error_text WrongHeight = ''block height is not the expected next height''"
| "validation_error_text WrongPreviousHash = ''previous hash does not match parent''"
| "validation_error_text FutureTimestamp = ''block timestamp is too far in the future''"
| "validation_error_text InvalidMerkleRoot = ''block merkle root is invalid''"
| "validation_error_text InvalidProofOfWork = ''block proof-of-work is invalid''"
| "validation_error_text UnexpectedDifficulty = ''block declares an unexpected difficulty (consensus retarget mismatch)''"
| "validation_error_text ValidationMissingCoinbase = ''coinbase transaction is missing''"
| "validation_error_text FirstTransactionNotCoinbase = ''first transaction must be coinbase''"

fun state_error_text :: "StateError \<Rightarrow> string" where
  "state_error_text GenesisAlreadyExists = ''chain state already has a genesis block''"
| "state_error_text MissingGenesis = ''chain state has no genesis block''"
| "state_error_text MiningFailed = ''mining failed before nonce limit''"
| "state_error_text AlreadyKnown = ''block is already known''"
| "state_error_text UnknownParent = ''block's parent is not known''"
| "state_error_text (Validation e) = validation_error_text e"
| "state_error_text (Utxo e) = utxo_error_text e"

fun mempool_error_text :: "MempoolError \<Rightarrow> string" where
  "mempool_error_text CoinbaseNotAllowed = ''coinbase transactions are not allowed in the mempool''"
| "mempool_error_text MempoolAlreadyKnown = ''transaction is already in the mempool''"
| "mempool_error_text PendingConflict = ''transaction conflicts with a transaction already in the mempool''"
| "mempool_error_text (FeeTooLow fee mn) = ''transaction fee '' @ show_nat (unat fee)
     @ '' atoms is below minimum relay fee '' @ show_nat (unat mn) @ '' atoms''"
| "mempool_error_text (MempoolFull fee mx) = ''mempool is full ('' @ show_nat mx @ '' txs); fee ''
     @ show_nat (unat fee) @ '' does not exceed the lowest-fee entry''"
| "mempool_error_text (InvalidTransaction e) = utxo_error_text e"

definition is_bannable_block_error :: "string \<Rightarrow> bool" where
  "is_bannable_block_error reason \<longleftrightarrow> \<not> contains_str ''already known'' reason \<and> \<not> contains_str ''parent'' reason"

definition is_bannable_tx_error :: "string \<Rightarrow> bool" where
  "is_bannable_tx_error reason \<longleftrightarrow> contains_str ''signature'' reason \<or> contains_str ''invalid'' reason"

section \<open>Blocks and transactions from peers\<close>

definition accept_peer_block ::
  "ext \<Rightarrow> ConsensusParams \<Rightarrow> string option \<Rightarrow> u64 \<Rightarrow> Block \<Rightarrow> Node \<Rightarrow> (Node \<times> (u64 \<times> Hash256, string) result) option" where
  "accept_peer_block X p lock now b n =
     (case load_state lock n of
        Err e \<Rightarrow> Some (n, Err e)
      | Ok s0 \<Rightarrow>
          Option.bind (submit_block X p b now s0) (\<lambda>(s, r).
            case r of
              Ok _ \<Rightarrow>
                let (s1, pool, _) = requeue_reorged_transactions X p s (remove_confirmed X (node_pool n) b)
                in Some (n\<lparr> node_chain := s1, node_pool := pool \<rparr>, Ok (height (header b), block_hash X b))
            | Err AlreadyKnown \<Rightarrow> Some (n\<lparr> node_chain := s \<rparr>, Ok (height (header b), block_hash X b))
            | Err e \<Rightarrow> Some (n\<lparr> node_chain := s \<rparr>, Err (state_error_text e))))"

definition accept_peer_tx ::
  "ext \<Rightarrow> ConsensusParams \<Rightarrow> string option \<Rightarrow> Transaction \<Rightarrow> Node \<Rightarrow> Node \<times> (unit, string) result" where
  "accept_peer_tx X p lock tx n =
     (case load_state lock n of
        Err e \<Rightarrow> (n, Err e)
      | Ok s0 \<Rightarrow>
          (case ensure_utxo_synced X p s0 of
             (s, Err e) \<Rightarrow> (n\<lparr> node_chain := s \<rparr>, Err (state_error_text e))
           | (s, Ok _) \<Rightarrow>
               (case mempool_add X p (hm_get (seed_utxos_for_tx s tx)) (node_pool n) tx (height_or_0 s) of
                  Err e \<Rightarrow> (n\<lparr> node_chain := s \<rparr>, Err (mempool_error_text e))
                | Ok pool \<Rightarrow> (n\<lparr> node_chain := s, node_pool := pool \<rparr>, Ok ()))))"

section \<open>Connections\<close>

record P2pHello =
  hello_protocol :: string
  hello_version :: u32
  hello_chain_id :: string
  hello_node_id :: string
  hello_height :: u64
  hello_tip_hash :: Hash256

datatype P2pMsg =
    NewBlock Block
  | Ack u64 Hash256
  | Reject string
  | NewTx Transaction
  | TxAck Hash256
  | TxReject Hash256 string
  | GetBlocks u64
  | Blocks "Block list"

definition local_hello :: "ext \<Rightarrow> ConsensusParams \<Rightarrow> string \<Rightarrow> ChainState \<Rightarrow> P2pHello" where
  "local_hello X p node_id s =
     \<lparr> hello_protocol = ''tensorium-p2p'', hello_version = P2P_PROTOCOL_VERSION,
       hello_chain_id = params_chain_id p, hello_node_id = node_id,
       hello_height = (case tip_cache s of Some b \<Rightarrow> height (header b) | None \<Rightarrow> 0),
       hello_tip_hash = (case tip_cache s of Some b \<Rightarrow> block_hash X b | None \<Rightarrow> ZERO) \<rparr>"

definition validate_hello :: "P2pHello \<Rightarrow> ConsensusParams \<Rightarrow> (unit, string) result" where
  "validate_hello h p =
     (if hello_protocol h \<noteq> ''tensorium-p2p'' then Err (''unsupported P2P protocol: '' @ hello_protocol h)
      else if hello_version h \<noteq> P2P_PROTOCOL_VERSION
      then Err (''unsupported P2P version: '' @ show_nat (unat (hello_version h)))
      else if hello_chain_id h \<noteq> params_chain_id p
      then Err (''wrong chain_id: '' @ hello_chain_id h @ '' (expected '' @ params_chain_id p @ '')'')
      else Ok ())"

text \<open>The surroundings of one message: the time, and the error of a database that cannot be opened.\<close>

record surroundings =
  now_seconds :: u64
  db_lock :: "string option"

text \<open>A violation while connected: the loop ends when the ban is new.\<close>

definition penalise :: "surroundings \<Rightarrow> string \<Rightarrow> u32 \<Rightarrow> Node \<Rightarrow> Node \<times> bool" where
  "penalise env ip score n =
     (let (banned, bans) = record_violation (node_bans n) ip score (now_seconds env)
      in (n\<lparr> node_bans := bans \<rparr>, \<not> banned))"

text \<open>
  One turn of the message loop on a line (\<open>None\<close>: it does not parse): the node, the replies, and
  whether the loop goes on.
\<close>

definition handle_message ::
  "ext \<Rightarrow> ConsensusParams \<Rightarrow> string \<Rightarrow> surroundings \<Rightarrow> P2pMsg option \<Rightarrow> Node \<Rightarrow> (Node \<times> P2pMsg list \<times> bool) option" where
  "handle_message X p ip env line n =
     (case line of
        None \<Rightarrow> (case penalise env ip SCORE_INVALID_MSG n of (n, go) \<Rightarrow> Some (n, [], go))
      | Some (NewBlock b) \<Rightarrow>
          Option.bind (accept_peer_block X p (db_lock env) (now_seconds env) b n) (\<lambda>(n, r).
            case r of
              Ok (ht, hash) \<Rightarrow> Some (n, [Ack ht hash], True)
            | Err reason \<Rightarrow>
                if \<not> is_bannable_block_error reason then Some (n, [Reject reason], True)
                else case penalise env ip SCORE_INVALID_BLOCK n of (n, go) \<Rightarrow> Some (n, [Reject reason], go))
      | Some (NewTx tx) \<Rightarrow>
          (case accept_peer_tx X p (db_lock env) tx n of
             (n, Ok _) \<Rightarrow> Some (n, [TxAck (tx_id tx)], True)
           | (n, Err reason) \<Rightarrow>
               if \<not> is_bannable_tx_error reason then Some (n, [TxReject (tx_id tx) reason], True)
               else case penalise env ip SCORE_INVALID_TX n of (n, go) \<Rightarrow> Some (n, [TxReject (tx_id tx) reason], go))
      | Some (GetBlocks from_height) \<Rightarrow>
          (case load_state (db_lock env) n of
             Ok s \<Rightarrow> Some (n, [Blocks (take SYNC_BATCH_SIZE
                       (filter (\<lambda>b. height (header b) \<ge> from_height) (canonical_blocks_iter s)))], True)
           | Err _ \<Rightarrow> Some (n, [Blocks []], True))
      | Some _ \<Rightarrow> (case penalise env ip SCORE_INVALID_MSG n of (n, go) \<Rightarrow> Some (n, [], go)))"

text \<open>The loop; it ends when reading fails, the end of the list.\<close>

fun message_loop ::
  "ext \<Rightarrow> ConsensusParams \<Rightarrow> string \<Rightarrow> (surroundings \<times> P2pMsg option) list \<Rightarrow> Node \<Rightarrow> (Node \<times> P2pMsg list) option" where
  "message_loop X p ip [] n = Some (n, [])"
| "message_loop X p ip ((env, line) # ls) n =
     Option.bind (handle_message X p ip env line n) (\<lambda>(n, out, go).
       if go then map_option (apsnd ((@) out)) (message_loop X p ip ls n) else Some (n, out))"

text \<open>The handshake: the first line is not read, does not parse, or is a greeting.\<close>

datatype hello_line = ReadFailed string | ParseFailed string | Hello P2pHello

definition handshake ::
  "ext \<Rightarrow> ConsensusParams \<Rightarrow> string \<Rightarrow> string \<Rightarrow> surroundings \<Rightarrow> hello_line \<Rightarrow> Node \<Rightarrow> Node \<times> (P2pHello, string) result" where
  "handshake X p node_id ip env hello n =
     (case hello of
        ReadFailed e \<Rightarrow> (fst (penalise env ip SCORE_INVALID_MSG n), Err (''read hello from '' @ ip @ '': '' @ e))
      | ParseFailed e \<Rightarrow> (fst (penalise env ip SCORE_INVALID_MSG n), Err (''parse hello from '' @ ip @ '': '' @ e))
      | Hello h \<Rightarrow>
          (case validate_hello h p of
             Err e \<Rightarrow> (fst (penalise env ip SCORE_BAD_HANDSHAKE n),
                       Err (''handshake rejected from '' @ ip @ '' ('' @ hello_node_id h @ ''): '' @ e))
           | Ok _ \<Rightarrow>
               (case load_state (db_lock env) n of
                  Err e \<Rightarrow> (n, Err e)
                | Ok s \<Rightarrow> (n, Ok (local_hello X p node_id s)))))"

definition handle_p2p_connection ::
  "ext \<Rightarrow> ConsensusParams \<Rightarrow> string \<Rightarrow> string \<Rightarrow> surroundings \<Rightarrow> hello_line
    \<Rightarrow> (surroundings \<times> P2pMsg option) list \<Rightarrow> Node \<Rightarrow> (Node \<times> (P2pHello \<times> P2pMsg list, string) result) option" where
  "handle_p2p_connection X p node_id ip env hello ls n =
     (case handshake X p node_id ip env hello n of
        (n, Err e) \<Rightarrow> Some (n, Err e)
      | (n, Ok my_hello) \<Rightarrow> map_option (\<lambda>(n, out). (n, Ok (my_hello, out))) (message_loop X p ip ls n))"

text \<open>\<open>serve_p2p\<close> on one incoming connection: refused at the connection limit or from a banned address.\<close>

definition serve_p2p ::
  "ext \<Rightarrow> ConsensusParams \<Rightarrow> string \<Rightarrow> nat \<Rightarrow> string \<Rightarrow> surroundings \<Rightarrow> hello_line
    \<Rightarrow> (surroundings \<times> P2pMsg option) list \<Rightarrow> Node \<Rightarrow> (Node \<times> (P2pHello \<times> P2pMsg list, string) result option) option" where
  "serve_p2p X p node_id peer_count ip env hello ls n =
     (if peer_count \<ge> MAX_INBOUND_PEERS \<or> is_banned (node_bans n) ip (now_seconds env) then Some (n, None)
      else map_option (apsnd Some) (handle_p2p_connection X p node_id ip env hello ls n))"

section \<open>Synchronising with a peer\<close>

text \<open>
  The peer and the clock are functions on a state \<open>'w\<close> of their own: \<open>fetch\<close> answers a request for
  blocks, \<open>clock\<close> is a reading of the time.
\<close>

type_synonym 'w peer = "'w \<Rightarrow> u64 \<Rightarrow> (Block list, string) result \<times> 'w"
type_synonym 'w clock = "'w \<Rightarrow> u64 \<times> 'w"

text \<open>The inner loop over a batch: it applies all blocks, meets an unknown parent, or fails.\<close>

datatype batch_end = BatchApplied | ForkedAt u64 | BatchFailed string

definition sync_failed :: "Block \<Rightarrow> StateError \<Rightarrow> batch_end" where
  "sync_failed b e = BatchFailed (''sync failed at height '' @ show_nat (unat (height (header b))) @ '': '' @ state_error_text e)"

fun sync_batch ::
  "ext \<Rightarrow> ConsensusParams \<Rightarrow> 'w clock \<Rightarrow> u64 \<Rightarrow> Block list \<Rightarrow> nat \<Rightarrow> ChainState \<Rightarrow> 'w
    \<Rightarrow> (ChainState \<times> 'w \<times> nat \<times> batch_end) option" where
  "sync_batch X p clock fetch_from [] applied s w = Some (s, w, applied, BatchApplied)"
| "sync_batch X p clock fetch_from (b # bs) applied s w =
     (case clock w of (now, w) \<Rightarrow>
      Option.bind (submit_block X p b now s) (\<lambda>(s, r).
        case r of
          Ok _ \<Rightarrow> sync_batch X p clock fetch_from bs (Suc applied) s w
        | Err AlreadyKnown \<Rightarrow> sync_batch X p clock fetch_from bs (Suc applied) s w
        | Err UnknownParent \<Rightarrow>
            if fetch_from > 1 then Some (s, w, applied, ForkedAt (height (header b)))
            else Some (s, w, applied, sync_failed b UnknownParent)
        | Err e \<Rightarrow> Some (s, w, applied, sync_failed b e)))"

definition no_ancestor :: "u64 \<Rightarrow> string" where
  "no_ancestor ht = ''sync failed: no common ancestor found within '' @ show_nat (unat MAX_FORK_SEARCH_DEPTH)
     @ '' blocks while walking back from height '' @ show_nat (unat ht)
     @ '' '' @ bytes_str [0xE2, 0x80, 0x94] @ '' chains may be incompatible''"

partial_function (option) sync_loop ::
  "ext \<Rightarrow> ConsensusParams \<Rightarrow> 'w clock \<Rightarrow> 'w peer \<Rightarrow> u64 \<Rightarrow> u64 \<Rightarrow> u64 \<Rightarrow> nat \<Rightarrow> ChainState \<Rightarrow> 'w
    \<Rightarrow> (ChainState \<times> 'w \<times> (nat, string) result) option" where
  "sync_loop X p clock fetch remote_height fetch_from backtrack total_synced s w =
     (case fetch w fetch_from of
        (Err e, w) \<Rightarrow> Some (s, w, Err e)
      | (Ok blocks, w) \<Rightarrow>
          if blocks = [] then Some (s, w, Ok total_synced)
          else
            Option.bind (sync_batch X p clock fetch_from blocks 0 s w) (\<lambda>(s, w, applied, e).
              case e of
                BatchFailed msg \<Rightarrow> Some (s, w, Err msg)
              | ForkedAt ht \<Rightarrow>
                  if backtrack + 1 > MAX_FORK_SEARCH_DEPTH then Some (s, w, Err (no_ancestor ht))
                  else sync_loop X p clock fetch remote_height (fetch_from - 1) (backtrack + 1) total_synced s w
              | BatchApplied \<Rightarrow>
                  if height_or_0 s \<ge> remote_height then Some (s, w, Ok (total_synced + applied))
                  else sync_loop X p clock fetch remote_height (height_or_0 s + 1) 0 (total_synced + applied) s w))"

definition sync_blocks ::
  "ext \<Rightarrow> ConsensusParams \<Rightarrow> 'w clock \<Rightarrow> 'w peer \<Rightarrow> u64 \<Rightarrow> ChainState \<Rightarrow> 'w
    \<Rightarrow> (ChainState \<times> 'w \<times> (nat, string) result) option" where
  "sync_blocks X p clock fetch remote_height s w =
     sync_loop X p clock fetch remote_height (height_or_0 s + 1) 0 0 s w"

text \<open>
  \<open>sync_from_peer\<close>; \<open>remote\<close> is the outcome of connecting and exchanging greetings.
\<close>

definition sync_from_peer ::
  "ext \<Rightarrow> ConsensusParams \<Rightarrow> string option \<Rightarrow> (P2pHello, string) result \<Rightarrow> 'w clock \<Rightarrow> 'w peer \<Rightarrow> Node \<Rightarrow> 'w
    \<Rightarrow> (Node \<times> 'w \<times> (unit, string) result) option" where
  "sync_from_peer X p lock remote clock fetch n w =
     (case load_state lock n of
        Err e \<Rightarrow> Some (n, w, Err e)
      | Ok s0 \<Rightarrow>
          (case res_bind remote (\<lambda>h. res_bind (validate_hello h p) (\<lambda>_. Ok h)) of
             Err e \<Rightarrow> Some (n\<lparr> node_chain := s0 \<rparr>, w, Err e)
           | Ok h \<Rightarrow>
               if hello_height h \<le> height_or_0 s0 then Some (n\<lparr> node_chain := s0 \<rparr>, w, Ok ())
               else
                 Option.bind (sync_blocks X p clock fetch (hello_height h) s0 w) (\<lambda>(s, w, r).
                   case r of
                     Err e \<Rightarrow> Some (n\<lparr> node_chain := s \<rparr>, w, Err e)
                   | Ok _ \<Rightarrow>
                       let (s1, pool, requeued) = requeue_reorged_transactions X p s (node_pool n) in
                       Some (if requeued > 0 then n\<lparr> node_chain := s1, node_pool := pool \<rparr>
                             else n\<lparr> node_chain := s1 \<rparr>, w, Ok ()))))"

section \<open>The ban policy\<close>

definition bans_ok :: "ban_list \<Rightarrow> bool" where
  "bans_ok bans \<longleftrightarrow> hm_ok bans \<and> (\<forall>ip e. hm_get bans ip = Some e \<longrightarrow> (BAN_THRESHOLD \<le> ban_score e) = (banned_until e \<noteq> None))"

text \<open>The points an address has collected that still count: an expired ban wipes them.\<close>

definition live_score :: "ban_list \<Rightarrow> string \<Rightarrow> u64 \<Rightarrow> nat" where
  "live_score bans ip now = unat (ban_score (ban_entry (prune_expired bans now) ip))"

lemma hm_get_filter: "hm_ok m \<Longrightarrow> hm_get (filter (\<lambda>(k, v). P v) m) k = (case hm_get m k of Some v \<Rightarrow> if P v then Some v else None | None \<Rightarrow> None)"
  by (induction m) (auto simp: map_of_eq_None_iff split: option.splits)

lemma hm_get_prune:
  "hm_ok bans \<Longrightarrow> hm_get (prune_expired bans now) ip =
    (case hm_get bans ip of Some e \<Rightarrow> if banned_until e = None \<or> active now e then Some e else None | None \<Rightarrow> None)"
  unfolding prune_expired_def
  by (subst hm_get_filter) (auto simp: active_def split: option.splits)

lemma prune_expired_ok: "bans_ok bans \<Longrightarrow> bans_ok (prune_expired bans now)"
  by (auto simp: bans_ok_def hm_get_prune distinct_map_filter prune_expired_def [symmetric] split: option.splits if_splits)
     (simp add: prune_expired_def distinct_map_filter)

lemma threshold_iff: "BAN_THRESHOLD \<le> x \<longleftrightarrow> 100 \<le> unat x"
  by (simp add: BAN_THRESHOLD_def word_le_nat_alt)

lemma ban_entry_ok: "bans_ok bans \<Longrightarrow> (100 \<le> unat (ban_score (ban_entry bans ip))) = (banned_until (ban_entry bans ip) \<noteq> None)"
  by (auto simp: bans_ok_def threshold_iff ban_entry_def split: option.splits)

lemma record_score_cases:
  assumes "record_score bans ip score now = (r, bans')"
  defines "e \<equiv> ban_entry bans ip" and "sc \<equiv> sat_add (ban_score (ban_entry bans ip)) score"
  shows "r = (\<not> active now e \<and> 100 \<le> unat sc)"
    and "bans' = hm_insert ip (e\<lparr> ban_score := sc, banned_until := if r then Some (now + BAN_DURATION_SECS) else banned_until e \<rparr>) bans"
  using assms(1) unfolding record_score_def Let_def threshold_iff e_def sc_def
  by (auto simp: active_def split: if_splits)

lemma record_score_ok:
  assumes "bans_ok bans" and "record_score bans ip score now = (r, bans')"
  shows "bans_ok bans'"
proof -
  let ?e = "ban_entry bans ip" and ?sc = "sat_add (ban_score (ban_entry bans ip)) score"
  note c = record_score_cases [OF assms(2)] and e = ban_entry_ok [OF assms(1), of ip]
  have "unat (ban_score ?e) \<le> unat ?sc" using unat_u32_lt [of "ban_score ?e"] by (simp add: unat_sat_add)
  then have "(100 \<le> unat ?sc) = ((if r then Some (now + BAN_DURATION_SECS) else banned_until ?e) \<noteq> None)"
    using c(1) e by (auto simp: active_def split: option.splits)
  then show ?thesis using assms(1) unfolding c(2) bans_ok_def threshold_iff by auto
qed

lemma record_violation_ok: "bans_ok bans \<Longrightarrow> record_violation bans ip score now = (r, bans') \<Longrightarrow> bans_ok bans'"
  using prune_expired_ok record_score_ok by (metis record_violation_def)

lemma is_banned_entry: "is_banned bans ip t = active t (ban_entry bans ip)"
  by (simp add: is_banned_def ban_entry_def active_def split: option.split)

lemma ban_entry_prune:
  "hm_ok bans \<Longrightarrow> ban_entry (prune_expired bans now) ip =
    (if banned_until (ban_entry bans ip) = None \<or> active now (ban_entry bans ip) then ban_entry bans ip
     else \<lparr> ban_score = 0, banned_until = None \<rparr>)"
  by (simp add: ban_entry_def hm_get_prune split: option.split)

lemma is_banned_prune: "hm_ok bans \<Longrightarrow> now \<le> t \<Longrightarrow> is_banned (prune_expired bans now) ip t = is_banned bans ip t"
  by (auto simp: is_banned_def hm_get_prune active_def split: option.splits)

text \<open>
  The ban policy. The points of an address add up over its violations as long as no ban of it
  has expired; the violation that brings them to the threshold imposes a ban of an hour, later ones
  neither renew nor extend it, and the address is banned at exactly the times the policy says. The
  state of every other address is unaffected.
\<close>

theorem ban_policy:
  assumes "bans_ok bans" and "record_violation bans ip score now = (r, bans')"
    and "unat now + 3600 < 2 ^ 64" and "now \<le> t"
  shows "bans_ok bans' \<and>
    (r \<longleftrightarrow> \<not> is_banned bans ip now \<and> 100 \<le> live_score bans ip now + unat score) \<and>
    (is_banned bans' ip t \<longleftrightarrow> (if r then unat t < unat now + 3600 else is_banned bans ip now \<and> is_banned bans ip t)) \<and>
    live_score bans' ip now = min (live_score bans ip now + unat score) (2 ^ 32 - 1) \<and>
    (\<forall>other. other \<noteq> ip \<longrightarrow> is_banned bans' other t = is_banned bans other t \<and>
      live_score bans' other now = live_score bans other now)"
proof -
  let ?b = "prune_expired bans now"
  let ?e = "ban_entry ?b ip" and ?sc = "sat_add (ban_score (ban_entry ?b ip)) score"
  have ok: "hm_ok bans" "bans_ok ?b" "hm_ok ?b" using assms(1) prune_expired_ok by (auto simp: bans_ok_def)
  note c = record_score_cases [OF assms(2) [unfolded record_violation_def]]
  have ok': "bans_ok bans'" using assms(1,2) by (rule record_violation_ok)
  have act: "active now ?e = is_banned bans ip now"
    using is_banned_prune [OF ok(1), of now now ip] by (simp add: is_banned_entry)
  have sc: "unat ?sc = min (live_score bans ip now + unat score) (2 ^ 32 - 1)"
    by (simp add: unat_sat_add unat_minus_one_word live_score_def)
  have r: "r \<longleftrightarrow> \<not> is_banned bans ip now \<and> 100 \<le> live_score bans ip now + unat score"
    using c(1) unfolding act sc by simp
  have until: "unat (now + BAN_DURATION_SECS) = unat now + 3600"
    using assms(3) by (simp add: BAN_DURATION_SECS_def unat_word_ariths)
  have "active t ?e \<Longrightarrow> active now ?e" using assms(4) by (auto simp: active_def split: option.splits)
  then have act_t: "active t ?e = (is_banned bans ip now \<and> is_banned bans ip t)"
    using act is_banned_prune [OF ok(1) assms(4), of ip] by (auto simp: is_banned_entry)
  have self: "is_banned bans' ip t \<longleftrightarrow> (if r then unat t < unat now + 3600 else is_banned bans ip now \<and> is_banned bans ip t)"
    unfolding act_t [symmetric] using until by (simp add: is_banned_def c(2) active_def word_less_nat_alt)
  have e': "ban_entry bans' ip = ?e\<lparr> ban_score := ?sc, banned_until := if r then Some (now + BAN_DURATION_SECS) else banned_until ?e \<rparr>"
    and other': "other \<noteq> ip \<Longrightarrow> ban_entry bans' other = ban_entry ?b other" for other
    by (simp_all add: c(2) ban_entry_def)
  have "banned_until ?e = None \<or> active now ?e" by (simp add: ban_entry_prune [OF ok(1)])
  then have "banned_until (ban_entry bans' ip) = None \<or> active now (ban_entry bans' ip)"
    using until by (auto simp: e' active_def word_less_nat_alt split: option.splits)
  then have live: "live_score bans' ip now = unat ?sc"
    using ok' by (simp add: live_score_def ban_entry_prune bans_ok_def) (simp add: e')
  have others: "is_banned bans' other t = is_banned bans other t \<and> live_score bans' other now = live_score bans other now"
    if "other \<noteq> ip" for other
    using is_banned_prune [OF ok(1) assms(4), of other] ok' ok(1)
    by (simp add: is_banned_entry other' that live_score_def ban_entry_prune bans_ok_def)
  show ?thesis using ok' r self live others unfolding sc by blast
qed

theorem ban_policy_witness:
  "record_violation [(''a'', \<lparr> ban_score = 90, banned_until = None \<rparr>)] ''a'' SCORE_INVALID_TX 1000
     = (True, [(''a'', \<lparr> ban_score = 100, banned_until = Some 4600 \<rparr>)]) \<and>
   is_banned [(''a'', \<lparr> ban_score = 100, banned_until = Some 4600 \<rparr>)] ''a'' 2000"
proof -
  have run: "record_violation [(''a'', \<lparr> ban_score = 90, banned_until = None \<rparr>)] ''a'' SCORE_INVALID_TX 1000
     = (True, [(''a'', \<lparr> ban_score = 100, banned_until = Some 4600 \<rparr>)])"
    by (simp add: record_violation_def record_score_def prune_expired_def ban_entry_def SCORE_INVALID_TX_def
        BAN_THRESHOLD_def BAN_DURATION_SECS_def active_def sat_add_def)
  moreover have "bans_ok [(''a'', \<lparr> ban_score = 90, banned_until = None \<rparr>)]" by (simp add: bans_ok_def BAN_THRESHOLD_def)
  ultimately show ?thesis
    using ban_policy [of "[(''a'', \<lparr> ban_score = 90, banned_until = None \<rparr>)]" "''a''" SCORE_INVALID_TX 1000 True _ 2000] by simp
qed

end
