(* ===== verification/Node_Safety.thy ===== *)
theory Node_Safety
  imports Node_Peers
begin

text \<open>
  What the node guarantees whatever its peers send: every message and every connection is processed,
  keeps the invariant of the three files and never loses work; where the ban policy falls short of
  its documentation; that the transactions of disconnected blocks come back to the mempool; and when
  synchronising with a peer ends.
\<close>

section \<open>The invariant of the node\<close>

text \<open>
  What the types and the proof of work of the source give for a block from the wire: 32-byte hashes,
  a hash that is not the all-zero one, and a height that is neither that of the genesis block nor the
  last one before the counter wraps.
\<close>

definition wire_block :: "ext \<Rightarrow> Block \<Rightarrow> bool" where
  "wire_block X b \<longleftrightarrow> block_ok b \<and> block_hash X b \<noteq> ZERO \<and> height (header b) \<noteq> 0
     \<and> unat (height (header b)) < 2 ^ 64 - 1"

definition wire_line :: "ext \<Rightarrow> P2pMsg option \<Rightarrow> bool" where
  "wire_line X line \<longleftrightarrow> (\<forall>b. line = Some (NewBlock b) \<longrightarrow> wire_block X b)"

definition node_inv :: "ext \<Rightarrow> ConsensusParams \<Rightarrow> Node \<Rightarrow> bool" where
  "node_inv X p n \<longleftrightarrow> reachable X p (node_chain n) \<and> mempool_inv X (node_pool n) \<and> bans_ok (node_bans n)"

abbreviation node_work :: "Node \<Rightarrow> u128" where
  "node_work n \<equiv> path_work (canonical_blocks_iter (node_chain n))"

text \<open>The contract of an operation on the node: it returns, keeps the invariant and never loses work.\<close>

definition keeps :: "ext \<Rightarrow> ConsensusParams \<Rightarrow> Node \<Rightarrow> Node \<Rightarrow> bool" where
  "keeps X p n n' \<longleftrightarrow> node_inv X p n' \<and> node_work n \<le> node_work n'"

lemma keeps_refl: "node_inv X p n \<Longrightarrow> keeps X p n n"
  by (simp add: keeps_def)

lemma keeps_trans: "keeps X p n n1 \<Longrightarrow> keeps X p n1 n2 \<Longrightarrow> keeps X p n n2"
  by (auto simp: keeps_def)

text \<open>A sequence of operations, each with its answer.\<close>

fun run_all :: "('i \<Rightarrow> Node \<Rightarrow> (Node \<times> 'o) option) \<Rightarrow> 'i list \<Rightarrow> Node \<Rightarrow> (Node \<times> 'o list) option" where
  "run_all step [] n = Some (n, [])"
| "run_all step (i # is) n = Option.bind (step i n) (\<lambda>(n, out). map_option (apsnd ((#) out)) (run_all step is n))"

locale node_service =
  fixes X :: ext and p :: ConsensusParams
    and step :: "'i \<Rightarrow> Node \<Rightarrow> (Node \<times> 'o) option"
    and legal :: "'i \<Rightarrow> bool"
  assumes step_keeps: "node_inv X p n \<Longrightarrow> legal i \<Longrightarrow> \<exists>n' out. step i n = Some (n', out) \<and> keeps X p n n'"
begin

lemma run_keeps:
  "node_inv X p n \<Longrightarrow> list_all legal is \<Longrightarrow> \<exists>n' outs. run_all step is n = Some (n', outs) \<and> keeps X p n n' \<and> length outs = length is"
proof (induction "is" arbitrary: n)
  case Nil
  then show ?case by (simp add: keeps_refl)
next
  case (Cons i "is")
  then obtain n1 out where s: "step i n = Some (n1, out)" and k: "keeps X p n n1" using step_keeps by fastforce
  then have "node_inv X p n1" by (simp add: keeps_def)
  with Cons obtain n' outs where "run_all step is n1 = Some (n', outs)" "keeps X p n1 n'" "length outs = length is" by fastforce
  with s k keeps_trans show ?case by fastforce
qed

end

lemma canonical_blocks_iter_disconnected [simp]:
  "canonical_blocks_iter (s\<lparr> last_disconnected := ds \<rparr>) = canonical_blocks_iter s"
  by (simp add: canonical_blocks_iter_def get_block_by_hash_def [abs_def])

lemma reopen_reachable:
  assumes "digest_len X" and "reachable X p s"
  shows "reachable X p (reopen s)" and "canonical_blocks_iter (reopen s) = canonical_blocks_iter s"
proof -
  show "reachable X p (reopen s)" using assms(2) by (rule reachable.restart)
  from reachable_inv [OF assms] obtain chain where "state_inv X p s chain" by blast
  from reopen_inv [OF assms(1) this] show "canonical_blocks_iter (reopen s) = canonical_blocks_iter s"
    by simp
qed

lemma submit_reachable:
  assumes "digest_len X" and "reachable X p s" and "wire_block X b"
  shows "\<exists>s' r. submit_block X p b now s = Some (s', r) \<and> reachable X p s'
    \<and> path_work (canonical_blocks_iter s) \<le> path_work (canonical_blocks_iter s')"
proof -
  have w: "block_ok b" "block_hash X b \<noteq> ZERO" "height (header b) \<noteq> 0" "unat (height (header b)) < 2 ^ 64 - 1"
    using assms(3) by (simp_all add: wire_block_def)
  from reachable_inv [OF assms(1,2)] obtain chain where inv: "state_inv X p s chain" by blast
  from submit_block_inv [OF assms(1) inv w] obtain s' r chain'
    where run: "submit_block X p b now s = Some (s', r)" and acc: "accepts X p b chain s' r chain'" by blast
  then have inv': "state_inv X p s' chain'" by (simp add: accepts_def)
  have "path_work chain \<le> path_work chain'" using acc by (auto simp: accepts_def)
  with run reachable.submit [OF assms(2) run w] canonical_blocks_iter_chain [OF assms(1) inv]
    canonical_blocks_iter_chain [OF assms(1) inv'] show ?thesis by auto
qed

lemma sync_reachable:
  assumes "digest_len X" and "reachable X p s" and "ensure_utxo_synced X p s = (s', r)"
  shows "reachable X p s'" and "canonical_blocks_iter s' = canonical_blocks_iter s"
proof -
  show "reachable X p s'" using assms(2,3) by (rule reachable.sync)
  from reachable_inv [OF assms(1,2)] obtain chain where inv: "state_inv X p s chain" by blast
  then have inv': "state_inv X p s' chain" using ensure_utxo_synced_inv [OF assms(1) _ assms(3)] by blast
  from canonical_blocks_iter_chain [OF assms(1) inv] canonical_blocks_iter_chain [OF assms(1) inv']
  show "canonical_blocks_iter s' = canonical_blocks_iter s" by simp
qed

lemma requeue_loop_inv: "mempool_inv X pool \<Longrightarrow> mempool_inv X (fst (requeue_loop X p s h txs pool k))"
  by (induction txs arbitrary: pool k) (auto split: sum.splits intro: mempool_add_inv)

lemma requeue_keeps:
  assumes "requeue_reorged_transactions X p s pool = (s', pool', k)"
  shows "s' = s\<lparr> last_disconnected := [] \<rparr>" and "reachable X p s \<Longrightarrow> reachable X p s'"
    and "mempool_inv X pool \<Longrightarrow> mempool_inv X pool'"
proof -
  show s': "s' = s\<lparr> last_disconnected := [] \<rparr>"
    using assms by (auto simp: requeue_reorged_transactions_def take_reorg_requeue_candidates_def split: if_splits)
  show "reachable X p s \<Longrightarrow> reachable X p s'"
    using reachable.requeue [of X p s] by (simp add: s' take_reorg_requeue_candidates_def)
  show "mempool_inv X pool \<Longrightarrow> mempool_inv X pool'"
    using assms requeue_loop_inv [of X pool p] by (auto simp: requeue_reorged_transactions_def Let_def split: if_splits prod.splits)
      (metis fst_conv)
qed

lemma accept_peer_block_keeps:
  assumes X: "digest_len X" and n: "node_inv X p n" and b: "wire_block X b"
  shows "\<exists>n' r. accept_peer_block X p lock now b n = Some (n', r) \<and> keeps X p n n' \<and> node_bans n' = node_bans n"
proof (cases lock)
  case (Some e)
  then show ?thesis using n by (simp add: accept_peer_block_def load_state_def keeps_refl)
next
  case None
  let ?s0 = "reopen (node_chain n)"
  have n': "reachable X p (node_chain n)" "mempool_inv X (node_pool n)" "bans_ok (node_bans n)"
    using n by (simp_all add: node_inv_def)
  note r0 = reopen_reachable [OF X n'(1)]
  from submit_reachable [OF X r0(1) b] obtain s r where sub: "submit_block X p b now ?s0 = Some (s, r)"
    and s: "reachable X p s" "node_work n \<le> path_work (canonical_blocks_iter s)" unfolding r0(2) by blast
  obtain s1 pool k where rq: "requeue_reorged_transactions X p s (remove_confirmed X (node_pool n) b) = (s1, pool, k)"
    by (cases "requeue_reorged_transactions X p s (remove_confirmed X (node_pool n) b)")
  note q = requeue_keeps [OF rq]
  have "keeps X p n (n\<lparr> node_chain := s1, node_pool := pool \<rparr>)"
    using q(2) [OF s(1)] q(3) [OF remove_confirmed_inv [OF n'(2)]] n'(3) s(2) by (simp add: keeps_def node_inv_def q(1))
  moreover have "keeps X p n (n\<lparr> node_chain := s \<rparr>)" using n' s by (simp add: keeps_def node_inv_def)
  ultimately show ?thesis
    by (cases r; cases "projl r") (simp_all add: accept_peer_block_def load_state_def None sub rq)
qed

lemma accept_peer_tx_keeps:
  assumes X: "digest_len X" and n: "node_inv X p n" and run: "accept_peer_tx X p lock tx n = (n', r)"
  shows "keeps X p n n' \<and> node_bans n' = node_bans n"
proof (cases lock)
  case (Some e)
  then show ?thesis using n run by (auto simp: accept_peer_tx_def load_state_def keeps_refl)
next
  case None
  have n': "reachable X p (node_chain n)" "mempool_inv X (node_pool n)" "bans_ok (node_bans n)"
    using n by (simp_all add: node_inv_def)
  note r0 = reopen_reachable [OF X n'(1)]
  obtain s r1 where sy: "ensure_utxo_synced X p (reopen (node_chain n)) = (s, r1)"
    by (cases "ensure_utxo_synced X p (reopen (node_chain n))")
  note s = sync_reachable [OF X r0(1) sy]
  have "keeps X p n (n\<lparr> node_chain := s \<rparr>)"
    using n' s r0(2) by (simp add: keeps_def node_inv_def)
  moreover have "keeps X p n (n\<lparr> node_chain := s, node_pool := pool \<rparr>)"
    if "mempool_add X p (hm_get (seed_utxos_for_tx s tx)) (node_pool n) tx (height_or_0 s) = Ok pool" for pool
    using n' s r0(2) mempool_add_inv [OF n'(2) that] by (simp add: keeps_def node_inv_def)
  ultimately show ?thesis
    using run by (auto simp: accept_peer_tx_def load_state_def None sy split: sum.splits)
qed

lemma penalise_keeps:
  assumes "node_inv X p n" and "penalise env ip score n = (n', go)"
  shows "keeps X p n n'"
  using assms record_violation_ok by (fastforce simp: penalise_def keeps_def node_inv_def split: prod.splits)

lemma handshake_keeps:
  assumes "node_inv X p n" and "handshake X p node_id ip env hello n = (n', r)"
  shows "keeps X p n n'"
proof -
  have "keeps X p n (fst (penalise env ip score n))" for score
    using penalise_keeps [OF assms(1)] by (metis prod.collapse)
  then show ?thesis using assms keeps_refl
    by (auto simp: handshake_def split: hello_line.splits sum.splits)
qed

lemma handle_message_keeps:
  assumes X: "digest_len X" and n: "node_inv X p n" and line: "wire_line X line"
  shows "\<exists>n' out go. handle_message X p ip env line n = Some (n', out, go) \<and> keeps X p n n'"
proof -
  have pen: "\<exists>n' out go. (case penalise env ip score n1 of (n, go) \<Rightarrow> Some (n, msgs, go)) = Some (n', out, go) \<and> keeps X p n n'"
    if "keeps X p n n1" for n1 score and msgs :: "P2pMsg list"
    using penalise_keeps [of X p n1 env ip score] that keeps_trans by (fastforce simp: keeps_def split: prod.splits)
  note pen0 = pen [OF keeps_refl [OF n]]
  show ?thesis
  proof (cases line)
    case None
    with pen0 show ?thesis by (simp add: handle_message_def)
  next
    case (Some m)
    show ?thesis
    proof (cases m)
      case (NewBlock b)
      then have "wire_block X b" using line Some by (simp add: wire_line_def)
      from accept_peer_block_keeps [OF X n this, of "db_lock env" "now_seconds env"] obtain n1 r
        where a: "accept_peer_block X p (db_lock env) (now_seconds env) b n = Some (n1, r)" and k: "keeps X p n n1" by blast
      with pen [OF k] show ?thesis by (cases r) (auto simp: handle_message_def Some NewBlock)
    next
      case (NewTx tx)
      obtain n1 r where a: "accept_peer_tx X p (db_lock env) tx n = (n1, r)" by (cases "accept_peer_tx X p (db_lock env) tx n")
      then have k: "keeps X p n n1" using accept_peer_tx_keeps [OF X n] by blast
      with a pen [OF k] show ?thesis by (cases r) (auto simp: handle_message_def Some NewTx)
    next
      case (GetBlocks h)
      with n show ?thesis by (auto simp: handle_message_def Some keeps_refl split: sum.split)
    qed (use pen0 in \<open>simp_all add: handle_message_def Some\<close>)
  qed
qed

interpretation peer_service: node_service X p "\<lambda>(ip, env, line) n. handle_message X p ip env line n"
    "\<lambda>(ip, env, line). digest_len X \<and> wire_line X line" for X p
  by unfold_locales (use handle_message_keeps in fastforce)

lemma message_loop_keeps:
  assumes "digest_len X" and "node_inv X p n" and "\<forall>(env, line) \<in> set ls. wire_line X line"
  shows "\<exists>n' out. message_loop X p ip ls n = Some (n', out) \<and> keeps X p n n'"
  using assms(2,3)
proof (induction ls arbitrary: n)
  case Nil
  then show ?case by (simp add: keeps_refl)
next
  case (Cons l ls)
  obtain env line where l: "l = (env, line)" by (cases l)
  with Cons.prems have w: "wire_line X line" by simp
  from handle_message_keeps [OF assms(1) Cons.prems(1) w, of ip env] obtain n1 out go
    where h: "handle_message X p ip env line n = Some (n1, out, go)" and k: "keeps X p n n1" by blast
  then have "node_inv X p n1" by (simp add: keeps_def)
  with Cons obtain n' out' where "message_loop X p ip ls n1 = Some (n', out')" "keeps X p n1 n'" by fastforce
  with h k keeps_trans show ?case by (cases go) (fastforce simp: l)+
qed

text \<open>
  No peer can bring the node down: whatever a connection sends, of whatever length, the node
  comes back from it (it never hangs in fork choice) with its invariant intact: the chain database is
  one that blocks alone can produce, the mempool has no double spends and stays within its cap, the
  ban list is consistent, and the canonical chain has not lost work. A connection from a banned
  address or beyond the connection limit changes nothing.
\<close>

theorem connection_safe:
  assumes "digest_len X" and "node_inv X p n" and "\<forall>(env, line) \<in> set ls. wire_line X line"
  shows "\<exists>n' r. serve_p2p X p node_id peer_count ip env hello ls n = Some (n', r) \<and>
    node_inv X p n' \<and> node_work n \<le> node_work n' \<and>
    (is_banned (node_bans n) ip (now_seconds env) \<or> peer_count \<ge> MAX_INBOUND_PEERS \<longrightarrow> n' = n \<and> r = None)"
proof -
  obtain n1 r1 where h: "handshake X p node_id ip env hello n = (n1, r1)" by (cases "handshake X p node_id ip env hello n")
  then have k: "keeps X p n n1" using assms(2) by (rule handshake_keeps [rotated])
  then have "node_inv X p n1" by (simp add: keeps_def)
  from message_loop_keeps [OF assms(1) this assms(3), of ip] obtain n2 out
    where m: "message_loop X p ip ls n1 = Some (n2, out)" and k2: "keeps X p n1 n2" by blast
  have "\<exists>n' r. handle_p2p_connection X p node_id ip env hello ls n = Some (n', r) \<and> keeps X p n n'"
    using h m k keeps_trans [OF k k2] by (cases r1) (simp_all add: handle_p2p_connection_def)
  then show ?thesis using assms(2) by (auto simp: serve_p2p_def keeps_def)
qed

section \<open>Limits of the ban policy\<close>

lemma penalise_banned:
  assumes "bans_ok (node_bans n)" and "is_banned (node_bans n) ip (now_seconds env)"
  shows "\<exists>n'. penalise env ip score n = (n', True) \<and> is_banned (node_bans n') ip (now_seconds env)"
proof -
  let ?now = "now_seconds env" and ?b = "prune_expired (node_bans n) (now_seconds env)"
  obtain r bans where rec: "record_violation (node_bans n) ip score ?now = (r, bans)" by fastforce
  note c = record_score_cases [OF rec [unfolded record_violation_def]]
  have "active ?now (ban_entry ?b ip)"
    using is_banned_prune [of "node_bans n" ?now ?now ip] assms by (simp add: is_banned_entry bans_ok_def)
  with c have "\<not> r \<and> is_banned bans ip ?now" by (simp add: is_banned_def active_def)
  then show ?thesis by (simp add: penalise_def rec)
qed

text \<open>
  A ban does not close the connections an address already has: \<open>record\<close> reports a ban only when
  it is new, so while an address is banned every message on its open connections is still handled,
  and no violation, however grave, ends the loop.
\<close>

theorem banned_peer_keeps_connection:
  assumes "digest_len X" and "node_inv X p n" and "wire_line X line"
    and "is_banned (node_bans n) ip (now_seconds env)"
  shows "\<exists>n' out. handle_message X p ip env line n = Some (n', out, True) \<and> is_banned (node_bans n') ip (now_seconds env)"
proof -
  have pen: "\<exists>n' out. (case penalise env ip score n1 of (n, go) \<Rightarrow> Some (n, msgs, go)) = Some (n', out, True)
      \<and> is_banned (node_bans n') ip (now_seconds env)"
    if "node_bans n1 = node_bans n" for n1 score and msgs :: "P2pMsg list"
    using penalise_banned [of n1 ip env score] that assms(2,4) by (force simp: node_inv_def)
  note pen0 = pen [OF refl]
  show ?thesis
  proof (cases line)
    case None
    with pen0 show ?thesis by (simp add: handle_message_def)
  next
    case (Some m)
    show ?thesis
    proof (cases m)
      case (NewBlock b)
      then have "wire_block X b" using assms(3) Some by (simp add: wire_line_def)
      from accept_peer_block_keeps [OF assms(1,2) this, of "db_lock env" "now_seconds env"] obtain n1 r
        where "accept_peer_block X p (db_lock env) (now_seconds env) b n = Some (n1, r)" "node_bans n1 = node_bans n" by blast
      with pen [of n1] assms(4) show ?thesis by (cases r) (auto simp: handle_message_def Some NewBlock)
    next
      case (NewTx tx)
      obtain n1 r where a: "accept_peer_tx X p (db_lock env) tx n = (n1, r)" by fastforce
      with accept_peer_tx_keeps [OF assms(1,2) a] pen [of n1] assms(4) show ?thesis
        by (cases r) (auto simp: handle_message_def Some NewTx)
    next
      case (GetBlocks h)
      with assms(4) show ?thesis by (auto simp: handle_message_def Some split: sum.split)
    qed (use pen0 in \<open>simp_all add: handle_message_def Some\<close>)
  qed
qed

text \<open>The points of an address that has never been banned.\<close>

definition points_are :: "Node \<Rightarrow> string \<Rightarrow> nat \<Rightarrow> bool" where
  "points_are n ip k \<longleftrightarrow> bans_ok (node_bans n) \<and> ban_score (ban_entry (node_bans n) ip) = of_nat k
     \<and> banned_until (ban_entry (node_bans n) ip) = None"

lemma locked_block_step:
  assumes "points_are n ip k" and "k \<le> 80" and "is_bannable_block_error e"
  shows "\<exists>n'. handle_message X p ip \<lparr> now_seconds = t, db_lock = Some e \<rparr> (Some (NewBlock b)) n
      = Some (n', [Reject e], k < 80) \<and> node_chain n' = node_chain n \<and> node_pool n' = node_pool n
      \<and> (k < 80 \<longrightarrow> points_are n' ip (k + 20))
      \<and> (k = 80 \<longrightarrow> banned_until (ban_entry (node_bans n') ip) = Some (t + BAN_DURATION_SECS))"
proof -
  obtain r bans where rec: "record_violation (node_bans n) ip SCORE_INVALID_BLOCK t = (r, bans)" by fastforce
  note c = record_score_cases [OF rec [unfolded record_violation_def]]
  have e: "ban_entry (prune_expired (node_bans n) t) ip = ban_entry (node_bans n) ip"
    using assms(1) by (simp add: points_are_def bans_ok_def ban_entry_prune)
  have sc: "unat (sat_add (ban_score (ban_entry (node_bans n) ip)) SCORE_INVALID_BLOCK) = k + 20"
    using assms(1,2) by (simp add: points_are_def unat_sat_add SCORE_INVALID_BLOCK_def unat_of_nat take_bit_nat_eq_self)
  have r: "r \<longleftrightarrow> k = 80"
    using c(1) assms(1,2) unfolding e sc by (auto simp: active_def points_are_def)
  have "sat_add (ban_score (ban_entry (node_bans n) ip)) SCORE_INVALID_BLOCK = of_nat (k + 20)"
    using arg_cong [OF sc, of "of_nat :: nat \<Rightarrow> u32"] by simp
  moreover have "bans_ok bans" using assms(1) rec record_violation_ok by (auto simp: points_are_def)
  moreover have "ban_entry bans ip = (ban_entry (node_bans n) ip)\<lparr>
      ban_score := sat_add (ban_score (ban_entry (node_bans n) ip)) SCORE_INVALID_BLOCK,
      banned_until := if r then Some (t + BAN_DURATION_SECS) else banned_until (ban_entry (node_bans n) ip) \<rparr>"
    unfolding c(2) e by (simp add: ban_entry_def)
  ultimately show ?thesis using assms r rec
    by (auto simp: handle_message_def accept_peer_block_def load_state_def penalise_def points_are_def)
qed

abbreviation locked_blocks :: "string \<Rightarrow> (u64 \<times> Block) list \<Rightarrow> (surroundings \<times> P2pMsg option) list" where
  "locked_blocks e tbs \<equiv> map (\<lambda>(t, b). (\<lparr> now_seconds = t, db_lock = Some e \<rparr>, Some (NewBlock b))) tbs"

lemma locked_blocks_loop:
  assumes "points_are n ip k" and "k + 20 * length tbs = 100" and "tbs \<noteq> []" and "is_bannable_block_error e"
  shows "\<exists>n'. message_loop X p ip (locked_blocks e tbs) n = Some (n', replicate (length tbs) (Reject e))
    \<and> node_chain n' = node_chain n \<and> node_pool n' = node_pool n
    \<and> banned_until (ban_entry (node_bans n') ip) = Some (fst (last tbs) + BAN_DURATION_SECS)"
  using assms(1-3)
proof (induction tbs arbitrary: n k)
  case (Cons tb tbs)
  obtain t b where tb: "tb = (t, b)" by (cases tb)
  have k: "k \<le> 80" and last: "k = 80 \<longleftrightarrow> tbs = []" using Cons.prems(2) by (cases tbs; simp)+
  from locked_block_step [OF Cons.prems(1) k assms(4), of X p t b] obtain n1 where
    h: "handle_message X p ip \<lparr> now_seconds = t, db_lock = Some e \<rparr> (Some (NewBlock b)) n = Some (n1, [Reject e], k < 80)"
    and same: "node_chain n1 = node_chain n" "node_pool n1 = node_pool n"
    and next1: "k < 80 \<longrightarrow> points_are n1 ip (k + 20)"
      "k = 80 \<longrightarrow> banned_until (ban_entry (node_bans n1) ip) = Some (t + BAN_DURATION_SECS)" by blast
  show ?case
  proof (cases "tbs = []")
    case True
    with h same next1 last show ?thesis by (simp add: tb)
  next
    case False
    with k last have "k < 80" by linarith
    with Cons.IH [of n1 "k + 20"] Cons.prems(2) False next1(1) obtain n' where
      "message_loop X p ip (locked_blocks e tbs) n1 = Some (n', replicate (length tbs) (Reject e))"
      "node_chain n' = node_chain n1" "node_pool n' = node_pool n1"
      "banned_until (ban_entry (node_bans n') ip) = Some (fst (last tbs) + BAN_DURATION_SECS)" by auto
    with h same False \<open>k < 80\<close> show ?thesis by (simp add: tb)
  qed
qed simp

text \<open>
  An honest peer can be banned for the node's own trouble: while another thread holds the
  database lock, \<open>accept_peer_block\<close> fails with the text of the lock error, which
  \<open>is_bannable_block_error\<close> counts like an invalid block. Five blocks, valid or not, announced by a
  peer without a record during that time get it banned for an hour, and no block is even looked at.
\<close>

theorem locked_database_bans_peer:
  assumes "bans_ok (node_bans n)" and "hm_get (node_bans n) ip = None" and "is_bannable_block_error e"
    and "length tbs = 5"
  shows "\<exists>n'. message_loop X p ip (map (\<lambda>(t, b). (\<lparr> now_seconds = t, db_lock = Some e \<rparr>, Some (NewBlock b))) tbs) n
        = Some (n', replicate 5 (Reject e))
      \<and> node_chain n' = node_chain n \<and> node_pool n' = node_pool n
      \<and> banned_until (ban_entry (node_bans n') ip) = Some (fst (last tbs) + BAN_DURATION_SECS)"
proof -
  have "points_are n ip 0" using assms(1,2) by (simp add: points_are_def ban_entry_def)
  from locked_blocks_loop [OF this _ _ assms(3), of tbs X p] assms(4) show ?thesis by force
qed

section \<open>Transactions of disconnected blocks\<close>

definition covered :: "ext \<Rightarrow> mempool \<Rightarrow> Transaction \<Rightarrow> bool" where
  "covered X pool tx \<longleftrightarrow> hm_get pool (to_hex X (tx_id tx)) \<noteq> None \<or> conflicts_with_pending pool tx"

lemma covered_mono: "covered X pool tx \<Longrightarrow> set pool \<subseteq> set pool' \<Longrightarrow> covered X pool' tx"
proof -
  assume cov: "covered X pool tx" and sub: "set pool \<subseteq> set pool'"
  have "hm_get pool k \<noteq> None \<Longrightarrow> hm_get pool' k \<noteq> None" for k using sub by (auto simp: map_of_eq_None_iff)
  moreover have "conflicts_with_pending pool tx \<Longrightarrow> conflicts_with_pending pool' tx"
    using sub unfolding conflicts_with_pending_def by blast
  ultimately show ?thesis using cov unfolding covered_def by blast
qed

lemma mempool_add_room:
  assumes "length pool < MAX_MEMPOOL_TXS" and "mempool_add X p look pool tx h = Ok pool'"
  shows "set pool \<subseteq> set pool' \<and> length pool' = Suc (length pool) \<and> covered X pool' tx"
proof -
  let ?key = "to_hex X (tx_id tx)"
  obtain e where new: "hm_get pool ?key = None" and p': "pool' = hm_insert ?key e pool"
    using assms by (cases "validate_transaction X p look h tx") (auto simp: mempool_add_def Let_def split: if_splits)
  have "hm_get m k = None \<Longrightarrow> hm_insert k v m = m @ [(k, v)]" for m :: mempool and k v
    by (induction m) auto
  with new p' show ?thesis by (auto simp: covered_def)
qed

lemma mempool_add_refused:
  assumes "length pool < MAX_MEMPOOL_TXS" and "mempool_add X p look pool tx h = Err e" and "\<not> is_coinbase tx"
    and "validate_transaction X p look h tx = Ok fee" and "MIN_RELAY_FEE_ATOMS \<le> fee"
  shows "covered X pool tx"
  using assms by (auto simp: mempool_add_def Let_def covered_def not_less [symmetric] split: if_splits)

abbreviation all_covered :: "ext \<Rightarrow> ConsensusParams \<Rightarrow> ChainState \<Rightarrow> u64 \<Rightarrow> Transaction list \<Rightarrow> mempool \<Rightarrow> bool" where
  "all_covered X p s h txs pool \<equiv> \<forall>tx fee. tx \<in> set txs \<longrightarrow> \<not> is_coinbase tx \<longrightarrow>
     validate_transaction X p (utxo_lookup s) h tx = Ok fee \<longrightarrow> MIN_RELAY_FEE_ATOMS \<le> fee \<longrightarrow> covered X pool tx"

lemma requeue_loop_covers:
  assumes "length pool + length txs \<le> MAX_MEMPOOL_TXS" and "requeue_loop X p s h txs pool k = (pool', k')"
  shows "set pool \<subseteq> set pool' \<and> all_covered X p s h txs pool'"
  using assms
proof (induction txs arbitrary: pool k)
  case Nil
  then show ?case by simp
next
  case (Cons tx txs)
  let ?look = "hm_get (seed_utxos_for_tx s tx)"
  have seed: "validate_transaction X p ?look h tx = validate_transaction X p (utxo_lookup s) h tx"
    unfolding seed_utxos_for_tx_def by (rule tx_view.seeded)
  have room: "length pool < MAX_MEMPOOL_TXS" using Cons.prems(1) by simp
  show ?case
  proof (cases "mempool_add X p ?look pool tx h")
    case (Inl e)
    with Cons.prems have "requeue_loop X p s h txs pool k = (pool', k')" and "length pool + length txs \<le> MAX_MEMPOOL_TXS" by simp_all
    from Cons.IH [OF this(2,1)] have IH: "set pool \<subseteq> set pool' \<and> all_covered X p s h txs pool'" .
    then show ?thesis using mempool_add_refused [OF room Inl] covered_mono by (auto simp: seed)
  next
    case (Inr pool1)
    note r = mempool_add_room [OF room Inr]
    with Cons.prems Inr have "requeue_loop X p s h txs pool1 (Suc k) = (pool', k')" and "length pool1 + length txs \<le> MAX_MEMPOOL_TXS" by simp_all
    from Cons.IH [OF this(2,1)] have IH: "set pool1 \<subseteq> set pool' \<and> all_covered X p s h txs pool'" .
    then show ?thesis using r covered_mono by auto
  qed
qed

lemma requeue_covers:
  assumes "requeue_reorged_transactions X p s pool = (s', pool', k)"
    and "length pool + length (concat (map transactions (last_disconnected s))) \<le> MAX_MEMPOOL_TXS"
  shows "set pool \<subseteq> set pool'"
    and "b \<in> set (last_disconnected s) \<Longrightarrow> tx \<in> set (transactions b) \<Longrightarrow> \<not> is_coinbase tx \<Longrightarrow>
      validate_transaction X p (utxo_lookup s) (height_or_0 s) tx = Ok fee \<Longrightarrow> MIN_RELAY_FEE_ATOMS \<le> fee \<Longrightarrow>
      covered X pool' tx"
proof -
  let ?cands = "filter (\<lambda>tx. \<not> is_coinbase tx) (concat (map transactions (last_disconnected s)))"
  have s': "s' = s\<lparr> last_disconnected := [] \<rparr>" using requeue_keeps(1) [OF assms(1)] .
  have run: "requeue_loop X p s' (height_or_0 s') ?cands pool 0 = (pool', k)"
    using assms(1) by (auto simp: requeue_reorged_transactions_def take_reorg_requeue_candidates_def split: if_splits)
  have "length pool + length ?cands \<le> MAX_MEMPOOL_TXS"
    using assms(2) length_filter_le [of "\<lambda>tx. \<not> is_coinbase tx" "concat (map transactions (last_disconnected s))"] by linarith
  note cov = requeue_loop_covers [OF this run]
  then show "set pool \<subseteq> set pool'" by blast
  have same: "utxo_lookup s' = utxo_lookup s" "height_or_0 s' = height_or_0 s"
    by (simp_all add: s' utxo_lookup_def utxo_get_def height_or_0_def fun_eq_iff)
  show "covered X pool' tx" if "b \<in> set (last_disconnected s)" "tx \<in> set (transactions b)" "\<not> is_coinbase tx"
    "validate_transaction X p (utxo_lookup s) (height_or_0 s) tx = Ok fee" "MIN_RELAY_FEE_ATOMS \<le> fee"
    using cov that unfolding same by auto
qed

text \<open>
  Requeueing after a reorganisation loses no transaction that is still good: every transaction of
  a disconnected block that is valid on the new chain and pays the relay fee is pending afterwards or
  conflicts with a pending one, what was pending stays, and the list of disconnected blocks is used
  up. The bound asks for room in the pool, so that no transaction evicts another.
\<close>

theorem orphans_return:
  assumes "requeue_reorged_transactions X p s pool = (s', pool', k)"
    and "length pool + length (concat (map transactions (last_disconnected s))) \<le> MAX_MEMPOOL_TXS"
  shows "s' = s\<lparr> last_disconnected := [] \<rparr> \<and> set pool \<subseteq> set pool' \<and>
    (\<forall>b tx fee. b \<in> set (last_disconnected s) \<and> tx \<in> set (transactions b) \<and> \<not> is_coinbase tx \<and>
       validate_transaction X p (utxo_lookup s) (height_or_0 s) tx = Ok fee \<and> MIN_RELAY_FEE_ATOMS \<le> fee \<longrightarrow>
       hm_get pool' (to_hex X (tx_id tx)) \<noteq> None \<or> conflicts_with_pending pool' tx)"
  using requeue_covers [OF assms] requeue_keeps(1) [OF assms(1)] unfolding covered_def by blast

text \<open>The same at the node: a block from a peer that moves the node to another branch.\<close>

lemma reorg_keeps_transactions:
  fixes n n' :: Node
  defines "old \<equiv> canonical_blocks_iter (node_chain n)" and "new \<equiv> canonical_blocks_iter (node_chain n')"
  assumes X: "digest_len X" and n: "node_inv X p n" and b: "wire_block X b"
    and acc: "accept_peer_block X p None now b n = Some (n', Ok r)"
    and room: "length (node_pool n) + length (concat (map transactions (drop (fork_index X old new) old))) \<le> MAX_MEMPOOL_TXS"
    and c: "c \<in> set old" "c \<notin> set new" and tx: "tx \<in> set (transactions c)" "\<not> is_coinbase tx"
    and valid: "validate_transaction X p (utxo_lookup (node_chain n')) (height_or_0 (node_chain n')) tx = Ok fee"
      "MIN_RELAY_FEE_ATOMS \<le> fee"
  shows "hm_get (node_pool n') (to_hex X (tx_id tx)) \<noteq> None \<or> conflicts_with_pending (node_pool n') tx"
proof -
  let ?s0 = "reopen (node_chain n)"
  have n': "reachable X p (node_chain n)" using n by (simp add: node_inv_def)
  note r0 = reopen_reachable [OF X n']
  have w: "block_ok b" "block_hash X b \<noteq> ZERO" "height (header b) \<noteq> 0" "unat (height (header b)) < 2 ^ 64 - 1"
    using b by (simp_all add: wire_block_def)
  from reachable_inv [OF X r0(1)] obtain chain where inv: "state_inv X p ?s0 chain" by blast
  then have chain: "chain = old" using canonical_blocks_iter_chain [OF X inv] r0(2) by (simp add: old_def)
  from submit_block_inv [OF X inv w, of now] obtain s r1 chain' where sub: "submit_block X p b now ?s0 = Some (s, r1)"
    and a: "accepts X p b chain s r1 chain'" by blast
  have iter: "canonical_blocks_iter s = chain'" using a canonical_blocks_iter_chain [OF X, of p s chain'] by (simp add: accepts_def)
  show ?thesis
  proof (cases r1)
    case (Inl e)
    then have "node_chain n' = s" using acc sub by (cases e) (auto simp: accept_peer_block_def load_state_def)
    then have "chain' = old" using a Inl chain by (auto simp: accepts_def)
    then show ?thesis using c iter \<open>node_chain n' = s\<close> by (simp add: new_def)
  next
    case (Inr b')
    obtain s1 pool k where rq: "requeue_reorged_transactions X p s (remove_confirmed X (node_pool n) b) = (s1, pool, k)"
      by (cases "requeue_reorged_transactions X p s (remove_confirmed X (node_pool n) b)")
    note q = requeue_keeps(1) [OF rq]
    have n1: "n' = n\<lparr> node_chain := s1, node_pool := pool \<rparr>"
      using acc sub Inr rq by (simp add: accept_peer_block_def load_state_def)
    have new: "new = chain'" using iter by (simp add: new_def n1 q)
    then have ld: "last_disconnected s = drop (fork_index X old new) old" and cl: "c \<in> set (last_disconnected s)"
      using a Inr c chain by (auto simp: accepts_def)
    have "length (remove_confirmed X (node_pool n) b) \<le> length (node_pool n)" by (simp add: remove_confirmed_def Let_def)
    then have "length (remove_confirmed X (node_pool n) b) + length (concat (map transactions (last_disconnected s))) \<le> MAX_MEMPOOL_TXS"
      using room unfolding ld by linarith
    moreover have "utxo_lookup s1 = utxo_lookup s" "height_or_0 s1 = height_or_0 s"
      by (simp_all add: q utxo_lookup_def utxo_get_def height_or_0_def fun_eq_iff)
    ultimately show ?thesis using requeue_covers(2) [OF rq _ cl tx] valid by (simp add: n1 covered_def)
  qed
qed


section \<open>Synchronising\<close>

lemma sync_batch_keeps:
  assumes "digest_len X" and "reachable X p s" and "\<forall>b \<in> set bs. wire_block X b"
    and clock: "\<And>w. \<mu> (snd (clock w)) \<le> (\<mu> w :: nat)"
  shows "\<exists>s' w' a e. sync_batch X p clock ff bs applied s w = Some (s', w', a, e) \<and> reachable X p s'
    \<and> path_work (canonical_blocks_iter s) \<le> path_work (canonical_blocks_iter s') \<and> \<mu> w' \<le> \<mu> w"
  using assms(2,3)
proof (induction bs arbitrary: s w applied)
  case Nil
  then show ?case by simp
next
  case (Cons b bs)
  obtain now w1 where c: "clock w = (now, w1)" by fastforce
  with clock [of w] have mu: "\<mu> w1 \<le> \<mu> w" by simp
  from submit_reachable [OF assms(1) Cons.prems(1), of b now] Cons.prems(2) obtain s1 r where
    sub: "submit_block X p b now s = Some (s1, r)" and r1: "reachable X p s1"
    and wk: "path_work (canonical_blocks_iter s) \<le> path_work (canonical_blocks_iter s1)" by auto
  have go: "\<exists>s' w' a e. sync_batch X p clock ff bs (Suc applied) s1 w1 = Some (s', w', a, e) \<and> reachable X p s'
    \<and> path_work (canonical_blocks_iter s) \<le> path_work (canonical_blocks_iter s') \<and> \<mu> w' \<le> \<mu> w"
    using Cons.IH [OF r1, of "Suc applied" w1] Cons.prems(2) wk mu by fastforce
  show ?case
  proof (cases r)
    case (Inl e)
    then show ?thesis using go r1 wk mu by (cases e) (auto simp: c sub)
  next
    case (Inr b')
    then show ?thesis using go by (simp add: c sub)
  qed
qed

lemma sync_loop_returns:
  assumes X: "digest_len X" and "reachable X p s"
    and clock: "\<And>w. \<mu> (snd (clock w)) \<le> (\<mu> w :: nat)"
    and fetch: "\<And>w h bs w'. fetch w h = (Ok bs, w') \<Longrightarrow> bs \<noteq> [] \<Longrightarrow> \<mu> w' < \<mu> w \<and> (\<forall>b \<in> set bs. wire_block X b)"
  shows "\<exists>s' w' r. sync_loop X p clock fetch rh ff bt k s w = Some (s', w', r) \<and> reachable X p s'
    \<and> path_work (canonical_blocks_iter s) \<le> path_work (canonical_blocks_iter s')"
  using assms(2)
proof (induction "\<mu> w" arbitrary: s w ff bt k rule: less_induct)
  case less
  show ?case
  proof (cases "fetch w ff")
    case (Pair r w1)
    show ?thesis
    proof (cases "\<exists>bs. r = Ok bs \<and> bs \<noteq> []")
      case False
      then show ?thesis using less.prems Pair by (subst sync_loop.simps) (cases r; simp)
    next
      case True
      then obtain bs where r: "r = Ok bs" "bs \<noteq> []" by blast
      with fetch [of w ff bs w1] Pair have mu: "\<mu> w1 < \<mu> w" and wb: "\<forall>b \<in> set bs. wire_block X b" by auto
      from sync_batch_keeps [where \<mu> = \<mu> and clock = clock, OF X less.prems wb clock, of ff 0 w1] obtain s2 w2 a e where
        b: "sync_batch X p clock ff bs 0 s w1 = Some (s2, w2, a, e)" and r2: "reachable X p s2"
        and wk: "path_work (canonical_blocks_iter s) \<le> path_work (canonical_blocks_iter s2)" and mu2: "\<mu> w2 \<le> \<mu> w1" by auto
      have rec: "\<exists>s' w' r. sync_loop X p clock fetch rh ff' bt' k' s2 w2 = Some (s', w', r) \<and> reachable X p s'
          \<and> path_work (canonical_blocks_iter s) \<le> path_work (canonical_blocks_iter s')" for ff' bt' k'
        using less.hyps [of w2 s2 ff' bt' k'] mu mu2 r2 wk by fastforce
      show ?thesis using rec r2 wk by (subst sync_loop.simps) (auto simp: Pair r b split: batch_end.split)
    qed
  qed
qed


text \<open>The situation in which a turn of the loop reproduces itself.\<close>

definition sync_stuck :: "ext \<Rightarrow> 'w clock \<Rightarrow> 'w peer \<Rightarrow> u64 \<Rightarrow> u64 \<Rightarrow> ChainState \<Rightarrow> 'w \<Rightarrow> bool" where
  "sync_stuck X clock fetch remote_height fetch_from s w \<longleftrightarrow>
     fetch_from = height_or_0 s + 1 \<and> height_or_0 s < remote_height \<and>
     (\<exists>bs now. fetch w fetch_from = (Ok bs, w) \<and> bs \<noteq> [] \<and> (\<forall>b \<in> set bs. block_known s (block_hash X b))
       \<and> clock w = (now, w))"

lemma sync_batch_known:
  assumes "\<forall>b \<in> set bs. block_known s (block_hash X b)" and "clock w = (now, w)"
  shows "sync_batch X p clock ff bs applied s w = Some (s, w, applied + length bs, BatchApplied)"
  using assms(1) by (induction bs arbitrary: applied) (simp_all add: assms(2) submit_block_def)

lemma sync_stuck_no_return:
  assumes ret: "sync_loop X p clock fetch rh ff bt k s w = Some r"
  shows "\<not> sync_stuck X clock fetch rh ff s w"
proof (rule sync_loop.raw_induct [where P = "\<lambda>X p clock fetch rh ff bt k s w r. \<not> sync_stuck X clock fetch rh ff s w", OF _ ret])
  fix f X p clock fetch rh ff bt k s and w :: 'a and r
  assume IH: "\<And>X p clock fetch rh ff bt k s (w :: 'a) r. f X p clock fetch rh ff bt k s w = Some r \<Longrightarrow> \<not> sync_stuck X clock fetch rh ff s w"
    and eq: "(case fetch w ff of
        (Err e, w) \<Rightarrow> Some (s, w, Err e)
      | (Ok blocks, w) \<Rightarrow>
          if blocks = [] then Some (s, w, Ok k)
          else
            Option.bind (sync_batch X p clock ff blocks 0 s w) (\<lambda>(s, w, applied, e).
              case e of
                BatchApplied \<Rightarrow>
                  if rh \<le> height_or_0 s then Some (s, w, Ok (k + applied))
                  else f X p clock fetch rh (height_or_0 s + 1) 0 (k + applied) s w
              | ForkedAt ht \<Rightarrow>
                  if MAX_FORK_SEARCH_DEPTH < bt + 1 then Some (s, w, Err (no_ancestor ht))
                  else f X p clock fetch rh (ff - 1) (bt + 1) k s w
              | BatchFailed msg \<Rightarrow> Some (s, w, Err msg))) = Some r"
  show "\<not> sync_stuck X clock fetch rh ff s w"
  proof
    assume st: "sync_stuck X clock fetch rh ff s w"
    then obtain bs now where "fetch w ff = (Ok bs, w)" "bs \<noteq> []" "\<forall>b \<in> set bs. block_known s (block_hash X b)"
      "clock w = (now, w)" "height_or_0 s < rh" "ff = height_or_0 s + 1" by (auto simp: sync_stuck_def)
    with eq have "f X p clock fetch rh ff 0 (k + length bs) s w = Some r"
      by (auto simp: sync_batch_known split: if_splits)
    with IH st show False by blast
  qed
qed

text \<open>
  Synchronising need not end: \<open>sync_blocks\<close> counts a block it already has as progress, and asks
  again from its own height. A peer that claims a greater height and answers that request with blocks
  the node has stored, as every peer does whose branch is longer than ours but has less work, keeps
  it in the loop forever, without error and without change.
\<close>

theorem sync_never_ends:
  assumes "height_or_0 s < remote_height"
    and "fetch w (height_or_0 s + 1) = (Ok blocks, w)" and "blocks \<noteq> []"
    and "\<forall>b \<in> set blocks. block_known s (block_hash X b)" and "clock w = (now, w)"
  shows "sync_blocks X p clock fetch remote_height s w = None"
proof -
  have "sync_stuck X clock fetch remote_height (height_or_0 s + 1) s w"
    using assms by (auto simp: sync_stuck_def)
  then show ?thesis using sync_stuck_no_return unfolding sync_blocks_def by (metis option.exhaust)
qed


section \<open>Witnesses\<close>

definition peek_node :: Node where
  "peek_node = \<lparr> node_chain = peek_state, node_pool = [], node_bans = [] \<rparr>"

definition banned_node :: Node where
  "banned_node = peek_node\<lparr> node_bans := [(''10.0.0.1'', \<lparr> ban_score = 100, banned_until = Some 5000 \<rparr>)] \<rparr>"

lemma peek_node_inv: "node_inv peek_ext MAINNET peek_node" "node_inv peek_ext MAINNET banned_node"
  using peek_reachable by (simp_all add: node_inv_def peek_node_def banned_node_def bans_ok_def BAN_THRESHOLD_def)

lemma peek_orphan_wire: "wire_block peek_ext peek_orphan"
  using peek_genesis_ok by (simp add: wire_block_def peek_orphan_def block_ok_def)

theorem connection_safe_witness:
  "\<exists>n' r. serve_p2p peek_ext MAINNET ''me'' 3 ''10.0.0.2'' \<lparr> now_seconds = 7, db_lock = None \<rparr> (ReadFailed ''eof'')
      [(\<lparr> now_seconds = 8, db_lock = None \<rparr>, Some (NewBlock peek_orphan)), (\<lparr> now_seconds = 9, db_lock = None \<rparr>, None)] peek_node
      = Some (n', r) \<and> node_inv peek_ext MAINNET n'"
  using connection_safe [OF peek_digest_len peek_node_inv(1),
      of "[(\<lparr> now_seconds = 8, db_lock = None \<rparr>, Some (NewBlock peek_orphan)), (\<lparr> now_seconds = 9, db_lock = None \<rparr>, None)]"]
    peek_orphan_wire by (simp add: wire_line_def) blast

theorem banned_peer_keeps_connection_witness:
  "\<exists>n' out. handle_message peek_ext MAINNET ''10.0.0.1'' \<lparr> now_seconds = 100, db_lock = None \<rparr> None banned_node
     = Some (n', out, True)"
proof -
  have "is_banned (node_bans banned_node) ''10.0.0.1'' 100" by (simp add: banned_node_def is_banned_def active_def)
  then show ?thesis
    using banned_peer_keeps_connection [OF peek_digest_len peek_node_inv(2), of None "''10.0.0.1''"
        "\<lparr> now_seconds = 100, db_lock = None \<rparr>"] by (auto simp: wire_line_def)
qed

theorem locked_database_bans_peer_witness:
  "\<exists>n'. message_loop peek_ext MAINNET ''10.0.0.2'' (map (\<lambda>(t, b).
        (\<lparr> now_seconds = t, db_lock = Some ''DB at txm.db is locked by another thread'' \<rparr>, Some (NewBlock b)))
        (replicate 5 (60, peek_orphan))) peek_node
      = Some (n', replicate 5 (Reject ''DB at txm.db is locked by another thread''))
    \<and> banned_until (ban_entry (node_bans n') ''10.0.0.2'') = Some 3660"
proof -
  have "is_bannable_block_error ''DB at txm.db is locked by another thread''"
    by (simp add: is_bannable_block_error_def)
  from locked_database_bans_peer [OF _ _ this, of peek_node "''10.0.0.2''" "replicate 5 (60, peek_orphan)" peek_ext MAINNET]
  show ?thesis by (auto simp: peek_node_def bans_ok_def BAN_DURATION_SECS_def numeral_eq_Suc)
qed

definition orphan_state :: ChainState where
  "orphan_state = new_state\<lparr> cf_utxo := [(encode_outpoint demo_op, snd (hd rich_map))],
     height_cache := Some 1, last_disconnected := [demo_spend_block] \<rparr>"

theorem orphans_return_witness:
  "\<exists>s' pool k. requeue_reorged_transactions demo_ext MAINNET orphan_state [] = (s', pool, k) \<and>
     (hm_get pool (to_hex demo_ext (tx_id demo_spend)) \<noteq> None \<or> conflicts_with_pending pool demo_spend)"
proof -
  obtain s' pool k where run: "requeue_reorged_transactions demo_ext MAINNET orphan_state [] = (s', pool, k)" by (rule prod_cases3)
  have "validate_transaction demo_ext MAINNET (utxo_lookup orphan_state) 1 demo_spend
      = validate_transaction demo_ext MAINNET (hm_get rich_map) 1 demo_spend"
    by (rule tx_view.agree) (simp add: tx_refs_def demo_spend_def utxo_lookup_def utxo_get_def orphan_state_def rich_map_def)
  then have "validate_transaction demo_ext MAINNET (utxo_lookup orphan_state) (height_or_0 orphan_state) demo_spend = Ok 49960"
    using demo_pool_valid by (simp add: height_or_0_def orphan_state_def)
  moreover have "\<not> is_coinbase demo_spend" by (simp add: is_coinbase_def demo_spend_def)
  ultimately show ?thesis
    using orphans_return [OF run] run
    by (auto simp: orphan_state_def demo_spend_block_def MAX_MEMPOOL_TXS_def MIN_RELAY_FEE_ATOMS_def)
qed


theorem sync_never_ends_witness:
  "sync_blocks peek_ext MAINNET (\<lambda>w. (60, w)) (\<lambda>w h. (Ok [peek_genesis], w)) 9 peek_state () = None"
proof -
  have "tip_cache peek_state = Some peek_genesis" "height_cache peek_state = Some 0"
    "block_known peek_state (block_hash peek_ext peek_genesis)"
    using peek_inv chain_path_last [of peek_ext "cf_blocks peek_state" "tip_hash peek_ext peek_state" "[peek_genesis]"]
    by (auto simp: state_inv_def block_known_def peek_genesis_header)
  then show ?thesis
    by (intro sync_never_ends [where blocks = "[peek_genesis]" and now = 60]) (simp_all add: height_or_0_def)
qed

end
