(* ===== verification/Asset_Api.thy ===== *)
theory Asset_Api
  imports Asset_Indexer Rust_Text
begin

text \<open>
  The read-only REST interface of the asset indexer, \<open>crates/tensorium-indexer/src/api.rs\<close>, and the
  node's client of it, \<open>indexer_check_transfer\<close> in \<open>crates/tensorium-node/src/main.rs\<close>. Both are
  functions on JSON values: the text of JSON and HTTP in between is not modelled, so the client takes
  the answer to its request as a function. The main result is that the answer it computes for a
  transfer is exactly what the asset ledger would do with it.
\<close>

section \<open>The router\<close>

text \<open>\<open>hex.get(i..i + 2)\<close> and \<open>from_str_radix\<close> for each of the 32 bytes.\<close>

definition parse_id :: "string \<Rightarrow> bytes option" where
  "parse_id hex = (if length hex \<noteq> 64 then None else unhex32_loop hex [])"

definition asset_json :: "ext \<Rightarrow> string \<Rightarrow> AssetInfo \<Rightarrow> json" where
  "asset_json X aid i = JObj
     [(''asset_id'', JStr aid),
      (''kind'', JStr (case info_kind i of Fungible \<Rightarrow> ''ft'' | NonFungible \<Rightarrow> ''nft'')),
      (''ticker'', JStr (info_ticker i)), (''name'', JStr (info_name i)),
      (''decimals'', JNum (ucast (info_decimals i))), (''supply'', JNum (info_supply i)),
      (''issuer'', JStr (info_issuer i)), (''royalty_bps'', JNum (ucast (info_royalty_bps i))),
      (''royalty_addr'', JStr (info_royalty_addr i)), (''uri'', JStr (info_uri i)),
      (''content_hash'', JStr (to_hex X (Hash256 (info_content_hash i)))),
      (''mint_height'', JNum (info_mint_height i))]"

definition history_json :: "HistoryEntry \<Rightarrow> json" where
  "history_json e = JObj
     [(''height'', JNum (he_height e)), (''txid'', JStr (he_txid e)), (''op'', JStr (he_op e)),
      (''asset_id'', JStr (he_asset_id e)), (''from'', JStr (he_from e)), (''to'', JStr (he_to e)),
      (''amount'', JNum (he_amount e))]"

definition api_error :: "string \<Rightarrow> json" where
  "api_error e = JObj [(''error'', JStr e)]"

definition fungible_json :: "ext \<Rightarrow> Indexer \<Rightarrow> string \<Rightarrow> json list" where
  "fungible_json X idx addr =
     map (\<lambda>((a, k), bal). JObj [(''asset_id'', JStr (to_hex X (Hash256 k))), (''amount'', JNum bal)])
       (filter (\<lambda>((a, k), bal). a = addr \<and> bal > 0) (ft_balances (ix_state idx)))"

definition nfts_json :: "ext \<Rightarrow> Indexer \<Rightarrow> string \<Rightarrow> json list" where
  "nfts_json X idx addr =
     map (\<lambda>(k, _). JStr (to_hex X (Hash256 k))) (filter (\<lambda>(_, o1). o1 = addr) (nft_owner (ix_state idx)))"

definition holders_json :: "Indexer \<Rightarrow> bytes \<Rightarrow> json list" where
  "holders_json idx key =
     map (\<lambda>((a, _), bal). JObj [(''address'', JStr a), (''amount'', JNum bal)])
       (filter (\<lambda>((_, k), bal). k = key \<and> bal > 0) (ft_balances (ix_state idx)))
     @ (case hm_get (nft_owner (ix_state idx)) key of
          Some o1 \<Rightarrow> [JObj [(''address'', JStr o1), (''amount'', JNum 1)]]
        | None \<Rightarrow> [])"

definition route :: "ext \<Rightarrow> Indexer \<Rightarrow> string \<Rightarrow> string \<Rightarrow> nat \<times> json" where
  "route X idx meth path =
     (let segs = split_at (CHR ''/'') (trim_chars [CHR ''/''] path); st = ix_state idx in
      if meth \<noteq> ''GET'' then (404, api_error ''not found'')
      else case segs of
        [a] \<Rightarrow>
          if a = ''status'' then
            (200, JObj [(''last_scanned_height'', JNum (last_height idx)), (''scanned_any'', JBool (scanned_any idx)),
               (''assets'', JNum (of_nat (length (assets st))))])
          else if a = ''assets'' then
            (200, JObj [(''assets'', JArr (map (\<lambda>(k, i). asset_json X (to_hex X (Hash256 k)) i) (assets st)))])
          else (404, api_error ''not found'')
      | [a, b] \<Rightarrow>
          if a = ''asset'' then
            (case Option.bind (parse_id b) (hm_get (assets st)) of
               Some i \<Rightarrow> (200, asset_json X b i)
             | None \<Rightarrow> (404, api_error ''asset not found''))
          else if a = ''balance'' then
            (200, JObj [(''address'', JStr b), (''fungible'', JArr (fungible_json X idx b)), (''nfts'', JArr (nfts_json X idx b))])
          else if a = ''holders'' then
            (case parse_id b of
               Some key \<Rightarrow> (200, JObj [(''asset_id'', JStr b), (''holders'', JArr (holders_json idx key))])
             | None \<Rightarrow> (404, api_error ''bad asset id''))
          else if a = ''history'' then
            (200, JObj [(''address'', JStr b), (''events'', JArr (map history_json
               (case hm_get (ix_history idx) b of Some es \<Rightarrow> es | None \<Rightarrow> [])))])
          else (404, api_error ''not found'')
      | [a, b, c] \<Rightarrow>
          if a = ''nft'' \<and> c = ''owner'' then
            (case Option.bind (parse_id b) (hm_get (nft_owner st)) of
               Some o1 \<Rightarrow> (200, JObj [(''asset_id'', JStr b), (''owner'', JStr o1)])
             | None \<Rightarrow> (404, api_error ''nft not found''))
          else if a = ''outpoint'' then
            (case parse_uint 32 c of
               Some v \<Rightarrow>
                 let key = b @ '':'' @ show_nat v in
                 (case hm_get (ix_outpoints idx) key of
                    Some addr \<Rightarrow> (200, JObj [(''outpoint'', JStr key), (''address'', JStr addr)])
                  | None \<Rightarrow> (404, api_error ''outpoint not indexed''))
             | None \<Rightarrow> (400, api_error ''bad vout''))
          else (404, api_error ''not found'')
      | _ \<Rightarrow> (404, api_error ''not found''))"

section \<open>The node's client\<close>

text \<open>The loop over the fungible balances: the first entry of the asset decides.\<close>

fun first_balance :: "string \<Rightarrow> u64 \<Rightarrow> json list \<Rightarrow> bool" where
  "first_balance aid amount [] = False"
| "first_balance aid amount (ft # fts) =
     (if Option.bind (json_get ft ''asset_id'') as_str = Some aid
      then (case Option.bind (json_get ft ''amount'') as_u64 of Some bal \<Rightarrow> bal | None \<Rightarrow> 0) \<ge> amount
      else first_balance aid amount fts)"

definition check_transfer_answer :: "string \<Rightarrow> u64 \<Rightarrow> json \<Rightarrow> bool" where
  "check_transfer_answer aid amount v =
     (if (case Option.bind (json_get v ''nfts'') as_array of
            Some nfts \<Rightarrow> list_ex (\<lambda>i. as_str i = Some aid) nfts | None \<Rightarrow> False)
      then amount = 1
      else (case Option.bind (json_get v ''fungible'') as_array of
              Some fts \<Rightarrow> first_balance aid amount fts | None \<Rightarrow> False))"

text \<open>\<open>get\<close> stands for \<open>http_get\<close> and the parsing of the body.\<close>

definition indexer_check_transfer ::
  "(string \<Rightarrow> (json, string) result) \<Rightarrow> string \<Rightarrow> string \<Rightarrow> u64 \<Rightarrow> (bool, string) result" where
  "indexer_check_transfer get from aid amount =
     res_bind (get (''/balance/'' @ from)) (\<lambda>v. Ok (check_transfer_answer aid amount v))"

section \<open>The answer is what the ledger does\<close>

lemma to_hex_inj: "hex_laws X \<Longrightarrow> to_hex X (Hash256 a) = to_hex X (Hash256 b) \<longleftrightarrow> a = b"
  unfolding hex_laws_def to_hex_def by (metis Hash256.sel option.inject)

lemma first_balance_map:
  assumes "hex_laws X" and "hm_ok m" and "amount > 0"
  shows "first_balance (to_hex X (Hash256 aid)) amount
      (map (\<lambda>((a, k), bal). JObj [(''asset_id'', JStr (to_hex X (Hash256 k))), (''amount'', JNum bal)])
        (filter (\<lambda>((a, k), bal). a = addr \<and> bal > 0) m)) \<longleftrightarrow> amount \<le> get_or_0 m (addr, aid)"
  using assms(2)
proof (induction m)
  case Nil
  with assms(3) show ?case by (simp add: get_or_0_def)
next
  case (Cons x m)
  obtain a k bal where x: "x = ((a, k), bal)" by (metis prod.exhaust)
  have rest: "hm_get m (a, k) = None" using Cons.prems by (auto simp: x map_of_eq_None_iff)
  show ?case
  proof (cases "a = addr \<and> k = aid")
    case True
    then have g: "get_or_0 m (addr, aid) = 0" using rest by (simp add: get_or_0_def)
    show ?thesis
    proof (cases "bal > 0")
      case True
      with \<open>a = addr \<and> k = aid\<close> show ?thesis by (simp add: x get_or_0_def)
    next
      case False
      then have "bal = 0" using word_neq_0_conv by blast
      with \<open>a = addr \<and> k = aid\<close> g Cons assms(3) show ?thesis by (simp add: x get_or_0_def)
    qed
  next
    case False
    then have "get_or_0 (x # m) (addr, aid) = get_or_0 m (addr, aid)" by (auto simp: x get_or_0_def)
    with False Cons show ?thesis by (auto simp: x to_hex_inj [OF assms(1)])
  qed
qed

lemma route_balance:
  assumes "CHR ''/'' \<notin> set addr" and "addr \<noteq> []"
  shows "route X idx ''GET'' (''/balance/'' @ addr) =
    (200, JObj [(''address'', JStr addr), (''fungible'', JArr (fungible_json X idx addr)), (''nfts'', JArr (nfts_json X idx addr))])"
proof -
  have "dropWhile (\<lambda>c. c \<in> {CHR ''/''}) (rev (''balance/'' @ addr)) = rev (''balance/'' @ addr)"
    using assms by (cases addr rule: rev_cases) auto
  then have "trim_chars [CHR ''/''] (''/balance/'' @ addr) = ''balance'' @ CHR ''/'' # addr"
    by (simp add: trim_chars_def)
  moreover have "split_at (CHR ''/'') (''balance'' @ CHR ''/'' # addr) = [''balance'', addr]"
    using assms(1) by (subst split_at_append) (simp_all add: split_at_none)
  ultimately show ?thesis by (simp add: route_def)
qed

text \<open>
  The node's check of a transfer against the indexer is exact: asked through the \<open>/balance\<close>
  route of an indexer in a consistent state, \<open>indexer_check_transfer\<close> says yes if and only if the
  asset ledger would apply the transfer from that address, for fungible and non-fungible assets and
  every positive amount.
\<close>

theorem transfer_check_exact:
  assumes "hex_laws X" and "asset_inv (ix_state idx)" and "CHR ''/'' \<notin> set from" and "from \<noteq> []"
    and "asset_amount d > 0"
  shows "indexer_check_transfer (\<lambda>path. Ok (snd (route X idx ''GET'' path))) from (to_hex X (Hash256 (asset_id d))) (asset_amount d)
    = Ok (fst (apply_transfer (ix_state idx) from (Some dest) d) = Applied)"
proof -
  let ?st = "ix_state idx" and ?aid = "asset_id d"
  note I = asset_invD [OF assms(2)]
  have owner: "list_ex (\<lambda>i. as_str i = Some (to_hex X (Hash256 ?aid))) (nfts_json X idx from) \<longleftrightarrow> hm_get (nft_owner ?st) ?aid = Some from"
    using hm_ok_get_iff [OF I(3), of ?aid "from"] to_hex_inj [OF assms(1)]
    by (auto simp: nfts_json_def list_ex_iff)
  have bal: "first_balance (to_hex X (Hash256 ?aid)) (asset_amount d) (fungible_json X idx from)
      \<longleftrightarrow> asset_amount d \<le> ft_balance ?st from ?aid"
    unfolding fungible_json_def ft_balance_def using assms(1) I(2) assms(5) by (rule first_balance_map)
  have none: "\<not> asset_amount d \<le> ft_balance ?st from ?aid" if "supply_of ?st ?aid = 0"
    using get_or_0_fresh [of ?aid "ft_balances ?st" "from"] I(4) [of ?aid] that assms(5) by (simp add: ft_balance_def not_le)
  have "indexer_check_transfer (\<lambda>path. Ok (snd (route X idx ''GET'' path))) from (to_hex X (Hash256 ?aid)) (asset_amount d)
      = Ok (if hm_get (nft_owner ?st) ?aid = Some from then asset_amount d = 1 else asset_amount d \<le> ft_balance ?st from ?aid)"
    unfolding indexer_check_transfer_def route_balance [OF assms(3,4)] by (simp add: check_transfer_answer_def owner bal)
  also have "\<dots> = Ok (fst (apply_transfer ?st from (Some dest) d) = Applied)"
  proof (cases "hm_get (assets ?st) ?aid")
    case None
    with none I(5) [of ?aid] show ?thesis by (simp add: apply_transfer_def supply_of_def is_nft_def)
  next
    case (Some info)
    show ?thesis
    proof (cases "info_kind info")
      case Fungible
      with Some I(5) [of ?aid] assms(5) show ?thesis
        by (auto simp: apply_transfer_def is_nft_def not_le)
    next
      case NonFungible
      with Some none show ?thesis by (auto simp: apply_transfer_def supply_of_def)
    qed
  qed
  finally show ?thesis .
qed

theorem transfer_check_exact_witness:
  "indexer_check_transfer (\<lambda>path. Ok (snd (route demo_ext (indexer_default\<lparr> ix_state :=
       asset_run asset_state_default [([1], 1, ''alice'', None, demo_mint)] \<rparr>) ''GET'' path)))
     ''alice'' (to_hex demo_ext (Hash256 [1])) 1 = Ok True"
proof -
  let ?st = "asset_run asset_state_default [([1], 1, ''alice'', None, demo_mint)]"
  let ?d = "\<lparr> asset_id = [1], asset_amount = 1, dest_output_index = 0 \<rparr>"
  have "fst (apply_transfer ?st ''alice'' (Some ''bob'') ?d) = Applied"
    by (simp add: asset_run_def asset_step_def demo_mint_def apply_nft_mint_def asset_state_default_def
        apply_transfer_def minted_info_def)
  moreover have "asset_inv ?st" by (rule asset_run_inv [OF asset_inv_default])
  ultimately show ?thesis
    using transfer_check_exact [of demo_ext "indexer_default\<lparr> ix_state := ?st \<rparr>" "''alice''" ?d "''bob''"] by simp
qed

end
