(* ===== verification/Node_Rpc.thy ===== *)
theory Node_Rpc
  imports Node_Safety Asset_Api
begin

text \<open>
  The HTTP RPC interface of the node, \<open>crates/tensorium-node/src/main.rs\<close>: reading and parsing a
  request, the authorisation of the admin endpoint, and every endpoint of \<open>handle_rpc_stream\<close>. A
  request arrives as the list of what the reads of the socket return. The bodies are parsed by
  \<open>serde_json\<close> and the asset index is asked over HTTP: both are fields of the surroundings of a
  request, together with the time, the database lock and the environment variables. Responses are
  values; writing them is not modelled, nor is the broadcast of an accepted block or transaction to
  other peers.
\<close>

section \<open>Reading a request\<close>

definition crlf :: string where "crlf = [char_of (13 :: nat), char_of (10 :: nat)]"

definition MAX_REQUEST_BYTES :: nat where "MAX_REQUEST_BYTES = 8 * 1024 * 1024"

fun header_end :: "bytes \<Rightarrow> nat option" where
  "header_end [] = None"
| "header_end (b # bs) =
     (if starts_with [13, 10, 13, 10] (b # bs) then Some 0 else map_option Suc (header_end bs))"

fun parse_content_length_in :: "string list \<Rightarrow> nat option" where
  "parse_content_length_in [] = None"
| "parse_content_length_in (line # ls) =
     (case (case split_once '':'' line of
              None \<Rightarrow> None
            | Some (name, v) \<Rightarrow> if \<not> eq_ignore_ascii_case name ''content-length'' then None else parse_uint 64 (trim v)) of
        Some n \<Rightarrow> Some n
      | None \<Rightarrow> parse_content_length_in ls)"

definition parse_content_length :: "string \<Rightarrow> nat option" where
  "parse_content_length headers = parse_content_length_in (str_lines headers)"

datatype read_error = ReadIo string | RequestTooLarge | NotUtf8

text \<open>
  The number of bytes to wait for, once the header has been seen. \<open>end + 4 + content_length\<close> is a
  64-bit sum and wraps.
\<close>

definition update_expected :: "bytes \<Rightarrow> u64 option \<Rightarrow> u64 option \<times> bool" where
  "update_expected buffer expected =
     (case expected of
        Some t \<Rightarrow> (Some t, False)
      | None \<Rightarrow>
          (case header_end buffer of
             None \<Rightarrow> (None, False)
           | Some e \<Rightarrow>
               let n = (case parse_content_length (from_utf8_lossy (take e buffer)) of Some n \<Rightarrow> n | None \<Rightarrow> 0) in
               (Some (of_nat e + 4 + of_nat n), n = 0)))"

text \<open>The loop, on the results of the reads; an empty read, or no further one, is the end of the stream.\<close>

fun read_loop :: "bytes \<Rightarrow> u64 option \<Rightarrow> (bytes, string) result list \<Rightarrow> (bytes, read_error) result" where
  "read_loop buffer expected [] = Ok buffer"
| "read_loop buffer expected (Err e # rs) = Err (ReadIo e)"
| "read_loop buffer expected (Ok chunk # rs) =
     (if chunk = [] then Ok buffer
      else
        let buffer = buffer @ chunk in
        if length buffer > MAX_REQUEST_BYTES then Err RequestTooLarge
        else
          let (expected, no_body) = update_expected buffer expected in
          if no_body \<or> (case expected of Some t \<Rightarrow> of_nat (length buffer) \<ge> t | None \<Rightarrow> False) then Ok buffer
          else read_loop buffer expected rs)"

definition read_http_request :: "(bytes, string) result list \<Rightarrow> (string, read_error) result" where
  "read_http_request rs =
     res_bind (read_loop [] None rs) (\<lambda>buffer. if utf8_valid buffer then Ok (bytes_str buffer) else Err NotUtf8)"

record http_request =
  req_method :: string
  req_path :: string
  req_body :: string

definition parse_http_request :: "string \<Rightarrow> http_request option" where
  "parse_http_request request =
     (case str_lines request of
        [] \<Rightarrow> None
      | line # _ \<Rightarrow>
          Option.bind (next_word line) (\<lambda>(meth, rest).
          Option.bind (next_word rest) (\<lambda>(path, _).
            Some \<lparr> req_method = meth, req_path = path,
                   req_body = (case split_once (crlf @ crlf) request of Some (_, body) \<Rightarrow> body | None \<Rightarrow> []) \<rparr>)))"

section \<open>Authorisation\<close>

fun header_value_in :: "string \<Rightarrow> string list \<Rightarrow> string option" where
  "header_value_in name [] = None"
| "header_value_in name (line # ls) =
     (case split_once '':'' line of
        Some (k, v) \<Rightarrow> if eq_ignore_ascii_case (trim k) name then Some (trim v) else header_value_in name ls
      | None \<Rightarrow> header_value_in name ls)"

definition header_value :: "string \<Rightarrow> string \<Rightarrow> string option" where
  "header_value request name =
     (let head = (case split_once (crlf @ crlf) request of Some (h, _) \<Rightarrow> h | None \<Rightarrow> request)
      in header_value_in name (drop 1 (str_lines head)))"

definition constant_time_eq :: "bytes \<Rightarrow> bytes \<Rightarrow> bool" where
  "constant_time_eq a b =
     (if length a \<noteq> length b then False
      else foldl (\<lambda>diff (x, y). or diff (xor x y)) 0 (zip a b) = 0)"

definition admin_authorized :: "string option \<Rightarrow> string \<Rightarrow> bool" where
  "admin_authorized token request =
     (case token of
        None \<Rightarrow> False
      | Some expected \<Rightarrow>
          if expected = [] then False
          else (case header_value request ''x-admin-token'' of
                  Some provided \<Rightarrow> constant_time_eq (str_bytes provided) (str_bytes expected)
                | None \<Rightarrow> False))"

definition ensure_safe_rpc_bind :: "string option \<Rightarrow> string \<Rightarrow> (unit, string) result" where
  "ensure_safe_rpc_bind allow_public bind =
     (let host = trim_chars [CHR ''['', CHR '']''] (case rsplit_once (CHR '':'') bind of Some (h, _) \<Rightarrow> h | None \<Rightarrow> bind);
          loopback = (host = ''127.0.0.1'' \<or> host = ''localhost'' \<or> host = ''::1'');
          explicitly_allowed = (case allow_public of
             Some v \<Rightarrow> v = ''1'' \<or> eq_ignore_ascii_case v ''true'' | None \<Rightarrow> False)
      in if \<not> loopback \<and> \<not> explicitly_allowed
         then Err (''refusing public RPC bind '' @ bind @ ''; use 127.0.0.1 or set TENSORIUM_RPC_ALLOW_PUBLIC=1'')
         else Ok ())"

section \<open>Responses and surroundings\<close>

record utxo_row =
  row_outpoint :: OutPoint
  row_txid :: string
  row_value :: u64
  row_address :: string
  row_coinbase :: bool
  row_height :: u64
  row_mature :: bool

datatype rpc_body =
    ErrorBody string
  | HealthBody
  | CountBody string "u64 option" nat
  | DifficultyBody string u64 u8
  | BlockBody Hash256 Block
  | TemplateBody string u64 Hash256 u8 Hash256 nat Block
  | KnownBody u64 Hash256
  | SubmittedBody u64 Hash256 bool
  | PendingBody Hash256 nat
  | MempoolBody nat "string list" FeeStats
  | FeeBody FeeTiers
  | BansBody "(string \<times> u32 \<times> bool \<times> u64 option) list"
  | UnbannedBody string bool
  | UtxosBody string u64 "utxo_row list"
  | AssetTxBody Transaction string string u64

type_synonym rpc_response = "nat \<times> rpc_body"

datatype BuildAssetTxRequest =
    IssueRequest string string u8 u64 string
  | NftMintRequest string "string option" u16 string string string
  | TransferRequest string string string u64

record rpc_env =
  rpc_now :: u64
  rpc_lock :: "string option"
  admin_token :: "string option"
  block_from_json :: "string \<Rightarrow> (Block, string) result"
  tx_from_json :: "string \<Rightarrow> (Transaction, string) result"
  request_from_json :: "string \<Rightarrow> (BuildAssetTxRequest, string) result"
  ask_indexer :: "string \<Rightarrow> (json, string) result"

text \<open>What handling a request gives: the node, the responses written, and the result of the handler.\<close>

type_synonym handled = "(Node \<times> rpc_response list \<times> (unit, string) result) option"

definition reply :: "Node \<Rightarrow> nat \<Rightarrow> rpc_body \<Rightarrow> handled" where
  "reply n code body = Some (n, [(code, body)], Ok ())"

definition give_up :: "Node \<Rightarrow> string \<Rightarrow> handled" where
  "give_up n e = Some (n, [], Err e)"

text \<open>\<open>bytes_str [0xE2, 0x80, 0x94]\<close> is the dash in the messages.\<close>

definition dash :: string where "dash = bytes_str [0xE2, 0x80, 0x94]"

text \<open>\<open>rpc_state\<close>: a locked database is answered with 503 and is an error as well.\<close>

definition rpc_state :: "rpc_env \<Rightarrow> Node \<Rightarrow> (ChainState \<Rightarrow> handled) \<Rightarrow> handled" where
  "rpc_state env n k =
     (case load_state (rpc_lock env) n of
        Err e \<Rightarrow> Some (n, [(503, ErrorBody (''node busy '' @ dash @ '' DB locked by P2P sync, retry in 1s''))], Err e)
      | Ok s \<Rightarrow> k s)"

definition rpc_synced :: "ext \<Rightarrow> ConsensusParams \<Rightarrow> rpc_env \<Rightarrow> Node \<Rightarrow> (ChainState \<Rightarrow> handled) \<Rightarrow> handled" where
  "rpc_synced X p env n k =
     rpc_state env n (\<lambda>s0. case ensure_utxo_synced X p s0 of
        (s, Err e) \<Rightarrow> give_up (n\<lparr> node_chain := s \<rparr>) (state_error_text e)
      | (s, Ok _) \<Rightarrow> k s)"

section \<open>Chain endpoints\<close>

definition rpc_getblockcount :: "ConsensusParams \<Rightarrow> rpc_env \<Rightarrow> Node \<Rightarrow> handled" where
  "rpc_getblockcount p env n =
     (case load_state (rpc_lock env) n of
        Err e \<Rightarrow> give_up n e
      | Ok s \<Rightarrow> reply n 200 (CountBody (params_chain_id p) (height_cache s) (chain_block_count s)))"

definition rpc_getdifficulty :: "rpc_env \<Rightarrow> Node \<Rightarrow> handled" where
  "rpc_getdifficulty env n =
     rpc_state env n (\<lambda>s. case tip_cache s of
        None \<Rightarrow> reply n 404 (ErrorBody ''chain state is empty'')
      | Some b \<Rightarrow> reply n 200 (DifficultyBody (chain_id (header b)) (height (header b)) (leading_zero_bits (header b))))"

definition rpc_getblock :: "ext \<Rightarrow> rpc_env \<Rightarrow> string \<Rightarrow> Node \<Rightarrow> handled" where
  "rpc_getblock X env path n =
     (case parse_uint 64 (trim_start_matches ''/getblock/'' path) of
        None \<Rightarrow> give_up n ''invalid block height''
      | Some h \<Rightarrow>
          rpc_state env n (\<lambda>s. case get_block_by_height s (of_nat h) of
            None \<Rightarrow> reply n 404 (ErrorBody ''block not found'')
          | Some b \<Rightarrow> reply n 200 (BlockBody (block_hash X b) b)))"

text \<open>The loop that drops selected transactions which the current UTXO set no longer supports.\<close>

fun revalidate :: "ext \<Rightarrow> ConsensusParams \<Rightarrow> ChainState \<Rightarrow> u64 \<Rightarrow> Transaction list \<Rightarrow> Transaction list \<Rightarrow> u64 \<Rightarrow> Transaction list \<times> u64" where
  "revalidate X p s tip_height [] extra fees = (extra, fees)"
| "revalidate X p s tip_height (tx # txs) extra fees =
     (case validate_transaction X p (hm_get (seed_utxos_for_tx s tx)) tip_height tx of
        Ok fee \<Rightarrow> revalidate X p s tip_height txs (extra @ [tx]) (sat_add fees fee)
      | Err _ \<Rightarrow> revalidate X p s tip_height txs extra fees)"

definition rpc_getblocktemplate :: "ext \<Rightarrow> ConsensusParams \<Rightarrow> rpc_env \<Rightarrow> string \<Rightarrow> Node \<Rightarrow> handled" where
  "rpc_getblocktemplate X p env path n =
     (let miner = trim_start_matches ''/getblocktemplate/'' path in
      if miner = [] then reply n 404 (ErrorBody ''missing miner address'')
      else rpc_synced X p env n (\<lambda>s.
        let (extra, fees) = revalidate X p s (height_or_0 s) (fst (select_for_block (node_pool n))) [] 0; n1 = n\<lparr> node_chain := s \<rparr> in
        Option.bind (candidate_block_with_mempool X p (rpc_now env) miner extra fees s) (\<lambda>r. case r of
          Err e \<Rightarrow> give_up n1 (state_error_text e)
        | Ok b \<Rightarrow> reply n1 200 (TemplateBody (params_chain_id p) (height (header b)) (previous_hash (header b))
            (leading_zero_bits (header b)) (epoch_seed_for_height X s (height (header b))) (length (transactions b)) b))))"

definition rpc_submitblock :: "ext \<Rightarrow> ConsensusParams \<Rightarrow> rpc_env \<Rightarrow> string \<Rightarrow> Node \<Rightarrow> handled" where
  "rpc_submitblock X p env body n =
     (case block_from_json env body of
        Err e \<Rightarrow> reply n 400 (ErrorBody (''invalid block: '' @ e))
      | Ok b \<Rightarrow>
          rpc_state env n (\<lambda>s0.
            Option.bind (submit_block X p b (rpc_now env) s0) (\<lambda>(s, r).
              case r of
                Ok accepted \<Rightarrow>
                  let (s1, pool, _) = requeue_reorged_transactions X p s (remove_confirmed X (node_pool n) accepted);
                      hash = block_hash X accepted in
                  reply (n\<lparr> node_chain := s1, node_pool := pool \<rparr>) 200
                    (SubmittedBody (height (header accepted)) hash (tip_hash X s1 = hash))
              | Err AlreadyKnown \<Rightarrow> reply (n\<lparr> node_chain := s \<rparr>) 200 (KnownBody (height (header b)) (block_hash X b))
              | Err e \<Rightarrow> give_up (n\<lparr> node_chain := s \<rparr>) (state_error_text e))))"

section \<open>Mempool and ban list endpoints\<close>

definition rpc_sendrawtransaction :: "ext \<Rightarrow> ConsensusParams \<Rightarrow> rpc_env \<Rightarrow> string \<Rightarrow> Node \<Rightarrow> handled" where
  "rpc_sendrawtransaction X p env body n =
     (case tx_from_json env body of
        Err e \<Rightarrow> reply n 400 (ErrorBody (''invalid transaction: '' @ e))
      | Ok tx \<Rightarrow>
          rpc_synced X p env n (\<lambda>s.
            case mempool_add X p (hm_get (seed_utxos_for_tx s tx)) (node_pool n) tx (height_or_0 s) of
              Err e \<Rightarrow> give_up (n\<lparr> node_chain := s \<rparr>) (mempool_error_text e)
            | Ok pool \<Rightarrow> reply (n\<lparr> node_chain := s, node_pool := pool \<rparr>) 200 (PendingBody (tx_id tx) (length pool))))"

definition rpc_getmempoolinfo :: "Node \<Rightarrow> handled" where
  "rpc_getmempoolinfo n = reply n 200 (MempoolBody (length (node_pool n)) (map fst (node_pool n)) (fee_stats (node_pool n)))"

definition rpc_getbanlist :: "rpc_env \<Rightarrow> Node \<Rightarrow> handled" where
  "rpc_getbanlist env n =
     reply n 200 (BansBody (map (\<lambda>(ip, e). (ip, ban_score e, active (rpc_now env) e,
        if active (rpc_now env) e then map_option (\<lambda>u. u - rpc_now env) (banned_until e) else None)) (node_bans n)))"

definition rpc_unban :: "rpc_env \<Rightarrow> string \<Rightarrow> string \<Rightarrow> Node \<Rightarrow> handled" where
  "rpc_unban env request path n =
     (if \<not> admin_authorized (admin_token env) request
      then reply n 403 (ErrorBody ''admin endpoint: set TENSORIUM_RPC_ADMIN_TOKEN and send a matching X-Admin-Token header'')
      else
        let ip = trim_start_matches ''/unban/'' path in
        if ip = [] then reply n 404 (ErrorBody ''missing ip'')
        else reply (n\<lparr> node_bans := unban (node_bans n) ip \<rparr>) 200 (UnbannedBody ip (hm_get (node_bans n) ip \<noteq> None)))"

section \<open>UTXO and asset endpoints\<close>

definition mature_at :: "ConsensusParams \<Rightarrow> u64 \<Rightarrow> UtxoEntry \<Rightarrow> bool" where
  "mature_at p tip_height e \<longleftrightarrow> \<not> entry_coinbase e \<or> tip_height \<ge> sat_add (created_height e) (coinbase_maturity_blocks p)"

definition utxo_row_of :: "ext \<Rightarrow> ConsensusParams \<Rightarrow> u64 \<Rightarrow> OutPoint \<times> UtxoEntry \<Rightarrow> utxo_row" where
  "utxo_row_of X p tip_height oe =
     (let (out, e) = oe in
      \<lparr> row_outpoint = out, row_txid = to_hex X (op_txid out), row_value = value_atoms (entry_output e),
        row_address = (case extract_address X (script_pubkey (entry_output e)) of Some a \<Rightarrow> a | None \<Rightarrow> []),
        row_coinbase = entry_coinbase e, row_height = created_height e, row_mature = mature_at p tip_height e \<rparr>)"

definition rpc_getutxos :: "ext \<Rightarrow> ConsensusParams \<Rightarrow> rpc_env \<Rightarrow> string \<Rightarrow> Node \<Rightarrow> handled" where
  "rpc_getutxos X p env path n =
     (let param = trim_start_matches ''/getutxos/'' path;
          go = (\<lambda>script. rpc_synced X p env n (\<lambda>s.
            reply (n\<lparr> node_chain := s \<rparr>) 200
              (UtxosBody param (height_or_0 s) (map (utxo_row_of X p (height_or_0 s)) (utxos_for_script s script))))) in
      if param = [] then reply n 400 (ErrorBody ''missing param: GET /getutxos/<address_or_scriptpubkey_hex>'')
      else if starts_with ''txm1'' param then
        (case p2pkh_from_address X param of
           Ok script \<Rightarrow> go script
         | Err _ \<Rightarrow> reply n 400 (ErrorBody ''invalid address: GET /getutxos/<address>''))
      else
        (case hex_decode X param of
           Some script \<Rightarrow> go script
         | None \<Rightarrow> reply n 400 (ErrorBody ''invalid hex: GET /getutxos/<scriptpubkey_hex>'')))"

definition ASSET_CARRIER_ATOMS :: u64 where "ASSET_CARRIER_ATOMS = 1000"

text \<open>\<open>hex::decode\<close> to exactly 32 bytes.\<close>

definition decode32 :: "ext \<Rightarrow> string \<Rightarrow> bytes option" where
  "decode32 X h = (case hex_decode X h of Some b \<Rightarrow> if length b = 32 then Some b else None | None \<Rightarrow> None)"

text \<open>The validation of a request: an error response, or who pays, the operation and the carrier output.\<close>

definition asset_request ::
  "ext \<Rightarrow> rpc_env \<Rightarrow> BuildAssetTxRequest \<Rightarrow> (string \<times> AssetOp \<times> (string \<times> u64) option, rpc_response) result" where
  "asset_request X env req =
     (case req of
        IssueRequest payer tick decs amt nm \<Rightarrow>
          if length tick > 8 then Err (400, ErrorBody ''ticker must be <= 8 bytes'')
          else if length nm > 32 then Err (400, ErrorBody ''name must be <= 32 bytes'')
          else if decs > 18 then Err (400, ErrorBody ''decimals must be <= 18'')
          else if amt = 0 then Err (400, ErrorBody ''supply must be > 0'')
          else Ok (payer, Issue \<lparr> ticker = tick, decimals = decs, issue_supply = amt, issue_name = nm, issue_flags = 0 \<rparr>, None)
      | NftMintRequest payer coll bps addr uri chash \<Rightarrow>
          if bps > 10000 then Err (400, ErrorBody ''royalty_bps must be <= 10000'')
          else if length uri > 200 then Err (400, ErrorBody ''uri must be <= 200 bytes'')
          else (case decode32 X chash of
            None \<Rightarrow> Err (400, ErrorBody ''content_hash must be 32 bytes (64 hex chars)'')
          | Some ch \<Rightarrow>
              (case (case coll of None \<Rightarrow> Some (replicate 32 0) | Some h \<Rightarrow> decode32 X h) of
                 None \<Rightarrow> Err (400, ErrorBody ''collection_id must be 32 bytes (64 hex chars)'')
               | Some cid \<Rightarrow> Ok (payer, NftMint \<lparr> collection_id = cid, royalty_bps = bps, royalty_addr = addr,
                    nft_uri = uri, content_hash = ch \<rparr>, None)))
      | TransferRequest payer to aid amount \<Rightarrow>
          if amount = 0 then Err (400, ErrorBody ''amount must be > 0'')
          else (case decode32 X aid of
            None \<Rightarrow> Err (400, ErrorBody ''asset_id must be 32 bytes (64 hex chars)'')
          | Some k \<Rightarrow>
              (case indexer_check_transfer (ask_indexer env) payer aid amount of
                 Err e \<Rightarrow> Err (503, ErrorBody (''asset index unavailable: '' @ e))
               | Ok False \<Rightarrow> Err (400, ErrorBody ''insufficient asset balance or not the NFT owner'')
               | Ok True \<Rightarrow> Ok (payer, Transfer \<lparr> asset_id = k, asset_amount = amount, dest_output_index = 0 \<rparr>,
                    Some (to, ASSET_CARRIER_ATOMS)))))"

text \<open>Coin selection: mature outputs in key order until the sum is enough.\<close>

fun pick_inputs :: "ConsensusParams \<Rightarrow> u64 \<Rightarrow> u64 \<Rightarrow> (OutPoint \<times> UtxoEntry) list \<Rightarrow> TxInput list \<Rightarrow> u64 \<Rightarrow> TxInput list \<times> u64" where
  "pick_inputs p tip_height needed [] ins total_in = (ins, total_in)"
| "pick_inputs p tip_height needed ((out, e) # us) ins total_in =
     (if \<not> mature_at p tip_height e then pick_inputs p tip_height needed us ins total_in
      else
        let ins = ins @ [\<lparr> previous_output = out, signature_script = [] \<rparr>];
            total_in = sat_add total_in (value_atoms (entry_output e)) in
        if total_in \<ge> needed then (ins, total_in) else pick_inputs p tip_height needed us ins total_in)"

definition op_name :: "AssetOp \<Rightarrow> string" where
  "op_name x = (case x of Issue _ \<Rightarrow> ''issue'' | NftMint _ \<Rightarrow> ''nft_mint'' | Transfer _ \<Rightarrow> ''transfer'')"

definition op_description :: "ext \<Rightarrow> AssetOp \<Rightarrow> string \<Rightarrow> string" where
  "op_description X x to =
     (case x of
        Issue d \<Rightarrow> ''Issue token '' @ ticker d @ '' '' @ dash @ '' supply '' @ show_nat (unat (issue_supply d))
          @ '', decimals '' @ show_nat (unat (decimals d))
      | NftMint d \<Rightarrow> ''Mint NFT '' @ dash @ '' '' @ nft_uri d
      | Transfer d \<Rightarrow> ''Transfer '' @ show_nat (unat (asset_amount d)) @ '' of asset '' @ hex_encode X (asset_id d) @ '' to '' @ to)"

fun build_error_text :: "BuildError \<Rightarrow> string" where
  "build_error_text (InsufficientMature have_atoms spent carrier_atoms fee) =
     ''insufficient mature balance: have '' @ show_nat (unat have_atoms) @ '', need '' @ show_nat (unat spent)
     @ '' (carrier '' @ show_nat (unat carrier_atoms) @ '' + fee '' @ show_nat (unat fee) @ '')''"
| "build_error_text (InvalidRecipient a) = ''invalid recipient address: '' @ a"
| "build_error_text (InvalidChange a) = ''invalid change address: '' @ a"

definition rpc_buildAssetTx :: "ext \<Rightarrow> ConsensusParams \<Rightarrow> rpc_env \<Rightarrow> string \<Rightarrow> Node \<Rightarrow> handled" where
  "rpc_buildAssetTx X p env body n =
     (case request_from_json env body of
        Err e \<Rightarrow> reply n 400 (ErrorBody (''invalid request: '' @ e))
      | Ok req \<Rightarrow>
          (case asset_request X env req of
             Err (code, b) \<Rightarrow> reply n code b
           | Ok (payer, x, dest) \<Rightarrow>
               (case p2pkh_from_address X payer of
                  Err _ \<Rightarrow> reply n 400 (ErrorBody ''invalid 'from' address'')
                | Ok script \<Rightarrow>
                    rpc_synced X p env n (\<lambda>s.
                      let n1 = n\<lparr> node_chain := s \<rparr>;
                          needed = sat_add (case dest of Some (_, a) \<Rightarrow> a | None \<Rightarrow> 0) MIN_RELAY_FEE_ATOMS;
                          (ins, total_in) = pick_inputs p (height_or_0 s) needed (utxos_for_script s script) [] 0 in
                      if total_in < needed
                      then reply n1 400 (ErrorBody (''insufficient mature balance: have '' @ show_nat (unat total_in)
                             @ '', need '' @ show_nat (unat needed)))
                      else case build_outputs X x dest payer total_in MIN_RELAY_FEE_ATOMS of
                        Err e \<Rightarrow> reply n1 400 (ErrorBody (build_error_text e))
                      | Ok outs \<Rightarrow> reply n1 200 (AssetTxBody (payment X ins outs) (op_name x)
                          (op_description X x (case dest of Some (a, _) \<Rightarrow> a | None \<Rightarrow> [])) MIN_RELAY_FEE_ATOMS)))))"

section \<open>Dispatch\<close>

definition dispatch :: "ext \<Rightarrow> ConsensusParams \<Rightarrow> rpc_env \<Rightarrow> string \<Rightarrow> http_request \<Rightarrow> Node \<Rightarrow> handled" where
  "dispatch X p env request r n =
     (let path = req_path r; body = req_body r in
      if req_method r = ''GET'' then
        if path = ''/health'' then reply n 200 HealthBody
        else if path = ''/getblockcount'' then rpc_getblockcount p env n
        else if path = ''/getdifficulty'' then rpc_getdifficulty env n
        else if starts_with ''/getblock/'' path then rpc_getblock X env path n
        else if starts_with ''/getblocktemplate/'' path then rpc_getblocktemplate X p env path n
        else if path = ''/getmempoolinfo'' then rpc_getmempoolinfo n
        else if path = ''/estimatefee'' then reply n 200 (FeeBody (fee_tiers (node_pool n)))
        else if path = ''/getbanlist'' then rpc_getbanlist env n
        else if starts_with ''/unban/'' path then rpc_unban env request path n
        else if starts_with ''/getutxos/'' path then rpc_getutxos X p env path n
        else reply n 404 (ErrorBody ''unknown RPC endpoint'')
      else if req_method r = ''POST'' then
        if path = ''/submitblock'' then rpc_submitblock X p env body n
        else if path = ''/sendrawtransaction'' then rpc_sendrawtransaction X p env body n
        else if path = ''/buildAssetTx'' then rpc_buildAssetTx X p env body n
        else reply n 404 (ErrorBody ''unknown RPC endpoint'')
      else reply n 404 (ErrorBody ''unknown RPC endpoint''))"

text \<open>The detail that \<open>from_utf8\<close> adds to its error is left out of the message.\<close>

definition handle_rpc_stream :: "ext \<Rightarrow> ConsensusParams \<Rightarrow> rpc_env \<Rightarrow> (bytes, string) result list \<Rightarrow> Node \<Rightarrow> handled" where
  "handle_rpc_stream X p env chunks n =
     (case read_http_request chunks of
        Err (ReadIo e) \<Rightarrow> give_up n (''failed to read request: '' @ e)
      | Err RequestTooLarge \<Rightarrow> give_up n ''request too large''
      | Err NotUtf8 \<Rightarrow> give_up n ''request was not valid UTF-8''
      | Ok request \<Rightarrow>
          (case parse_http_request request of
             None \<Rightarrow> give_up n ''invalid HTTP request''
           | Some r \<Rightarrow> dispatch X p env request r n))"

text \<open>\<open>serve_rpc\<close> answers an error of the handler with 500.\<close>

definition serve_rpc :: "ext \<Rightarrow> ConsensusParams \<Rightarrow> rpc_env \<Rightarrow> (bytes, string) result list \<Rightarrow> Node \<Rightarrow> (Node \<times> rpc_response list) option" where
  "serve_rpc X p env chunks n =
     map_option (\<lambda>(n, out, r). (n, out @ (case r of Err e \<Rightarrow> [(500, ErrorBody e)] | Ok _ \<Rightarrow> [])))
       (handle_rpc_stream X p env chunks n)"

end
