(* ===== verification/Block_Json.thy ===== *)
theory Block_Json
  imports Node_Rpc Rust_Store
begin

text \<open>
  The values that the node's HTTP interface sends for blocks: what \<open>serde\<close> derives for the structs of
  \<open>block.rs\<close> and \<open>hash.rs\<close> is an object of the fields, byte arrays and hashes as arrays of numbers. The
  services that read blocks from the node rest on these shapes.
\<close>

section \<open>Blocks\<close>

definition byte_json :: "bytes \<Rightarrow> json" where
  "byte_json bs = JArr (map (JNum \<circ> ucast) bs)"

definition hash_json :: "Hash256 \<Rightarrow> json" where
  "hash_json h = byte_json (hash_bytes h)"

definition output_json :: "TxOutput \<Rightarrow> json" where
  "output_json out = JObj [(''value_atoms'', JNum (value_atoms out)), (''script_pubkey'', byte_json (script_pubkey out))]"

definition input_json :: "TxInput \<Rightarrow> json" where
  "input_json i =
     JObj [(''previous_output'', JObj [(''txid'', hash_json (op_txid (previous_output i))),
         (''output_index'', JNum (ucast (output_index (previous_output i))))]),
       (''signature_script'', byte_json (signature_script i))]"

definition tx_json :: "Transaction \<Rightarrow> json" where
  "tx_json tx =
     JObj [(''id'', hash_json (tx_id tx)), (''inputs'', JArr (map input_json (inputs tx))),
       (''outputs'', JArr (map output_json (outputs tx))), (''payload'', byte_json (payload tx))]"

definition header_json :: "BlockHeader \<Rightarrow> json" where
  "header_json h =
     JObj [(''version'', JNum (ucast (version h))), (''chain_id'', JStr (chain_id h)), (''height'', JNum (height h)),
       (''previous_hash'', hash_json (previous_hash h)), (''merkle_root'', hash_json (merkle_root h)),
       (''timestamp_seconds'', JNum (timestamp_seconds h)), (''leading_zero_bits'', JNum (ucast (leading_zero_bits h))),
       (''nonce'', JNum (nonce h))]"

definition block_json :: "Block \<Rightarrow> json" where
  "block_json b = JObj [(''header'', header_json (header b)), (''transactions'', JArr (map tx_json (transactions b)))]"

text \<open>The answer of \<open>/getblocktemplate\<close>\<close>

definition template_json :: "string \<Rightarrow> u64 \<Rightarrow> Hash256 \<Rightarrow> u8 \<Rightarrow> Hash256 \<Rightarrow> nat \<Rightarrow> Block \<Rightarrow> json" where
  "template_json ci h prv bits seed k b =
     JObj [(''chain_id'', JStr ci), (''height'', JNum h), (''previous_hash'', hash_json prv),
       (''leading_zero_bits'', JNum (ucast bits)), (''epoch_seed'', hash_json seed), (''tx_count'', JNum (of_nat k)),
       (''template'', block_json b)]"

section \<open>Reading them\<close>

text \<open>\<open>value["key"]\<close> is null where there is no such key.\<close>

definition json_at :: "json \<Rightarrow> string \<Rightarrow> json" where
  "json_at v k = (case json_get v k of Some w \<Rightarrow> w | None \<Rightarrow> JNull)"

lemma json_at_object [simp]:
  "json_at (JObj ((k, v) # kvs)) k' = (if k' = k then v else json_at (JObj kvs) k')"
  by (simp add: json_at_def)

lemma ucast_back [simp]: "(ucast (ucast b :: u64) :: u8) = b" "(ucast (ucast v :: u64) :: u32) = v"
  by (simp_all add: unsigned_ucast_eq take_bit_word_eq_self)

end
