(* ===== verification/Rust_Float.thy ===== *)
theory Rust_Float
  imports Rust_Text "HOL-Library.Log_Nat"
begin

text \<open>
  Double-precision numbers as the exact rationals they denote, for the places where the pool and the
  RPC adapter print or read amounts and percentages. The numbers that occur are zero or between
  \<open>10^-8\<close> and \<open>2^65\<close>, where every double is normal: 53 significant bits, results rounded to nearest
  with ties to even. \<open>format!\<close> with a precision rounds the exact value, ties to even.
\<close>

section \<open>Rounding\<close>

definition round_even :: "rat \<Rightarrow> int" where
  "round_even q =
     (let f = \<lfloor>q\<rfloor>; d = q - of_int f in
      if d < 1 / 2 then f else if d > 1 / 2 then f + 1 else if even f then f else f + 1)"

text \<open>The exponent of the leading bit\<close>

definition lead_exp :: "rat \<Rightarrow> int" where
  "lead_exp q =
     (let (n, d) = quotient_of q; k = int (floorlog 2 (nat n)) - int (floorlog 2 (nat d)) in
      if 2 powi k \<le> q then k else k - 1)"

definition to_f64 :: "rat \<Rightarrow> rat" where
  "to_f64 q = (if q \<le> 0 then 0 else let e = lead_exp q - 52 in of_int (round_even (q / 2 powi e)) * 2 powi e)"

definition pad_zeros :: "nat \<Rightarrow> string \<Rightarrow> string" where
  "pad_zeros w s = replicate (w - length s) (CHR ''0'') @ s"

text \<open>\<open>format!("{:.8}", x)\<close>\<close>

definition fixed8 :: "rat \<Rightarrow> string" where
  "fixed8 x =
     (let n = nat \<bar>round_even (x * 10 ^ 8)\<bar> in
      (if x < 0 then ''-'' else []) @ show_nat (n div 10 ^ 8) @ ''.'' @ pad_zeros 8 (show_nat (n mod 10 ^ 8)))"

section \<open>Errors\<close>

lemma round_even_error: "\<bar>of_int (round_even q) - q\<bar> \<le> 1 / 2"
proof -
  have "of_int \<lfloor>q\<rfloor> \<le> q" "q < of_int \<lfloor>q\<rfloor> + 1" by linarith+
  then show ?thesis by (auto simp: round_even_def Let_def abs_le_iff)
qed

lemma round_even_near: "\<bar>q - of_int n\<bar> < 1 / 2 \<Longrightarrow> round_even q = n"
proof -
  assume near: "\<bar>q - of_int n\<bar> < 1 / 2"
  have "\<bar>of_int (round_even q) - q\<bar> \<le> 1 / 2" by (rule round_even_error)
  with near have "\<bar>of_int (round_even q) - (of_int n :: rat)\<bar> < 1" by linarith
  then have "\<bar>of_int (round_even q - n) :: rat\<bar> < 1" by simp
  then show ?thesis by linarith
qed

lemma floorlog_rat:
  assumes "0 < n"
  shows "2 powi (int (floorlog 2 (nat n)) - 1) \<le> (of_int n :: rat)" "(of_int n :: rat) < 2 powi int (floorlog 2 (nat n))"
proof -
  obtain m where m: "n = int m" "0 < m" using assms by (metis of_nat_0_less_iff zero_less_imp_eq_int)
  have b: "2 ^ (floorlog 2 m - 1) \<le> m \<and> m < 2 ^ floorlog 2 m" using floorlog_bounds [of m 2] m by simp
  have pos: "0 < floorlog 2 m" using m by (simp add: floorlog_def)
  have eq: "int (floorlog 2 m) - 1 = int (floorlog 2 m - 1)" using pos by simp
  have "(2 :: rat) ^ (floorlog 2 m - 1) = of_nat (2 ^ (floorlog 2 m - 1))" "(2 :: rat) ^ floorlog 2 m = of_nat (2 ^ floorlog 2 m)" by simp_all
  then have "(2 :: rat) ^ (floorlog 2 m - 1) \<le> of_nat m" "(of_nat m :: rat) < 2 ^ floorlog 2 m"
    using b by (simp_all only: of_nat_le_iff of_nat_less_iff)
  then show "2 powi (int (floorlog 2 (nat n)) - 1) \<le> (of_int n :: rat)" "(of_int n :: rat) < 2 powi int (floorlog 2 (nat n))"
    unfolding m(1) nat_int of_int_of_nat_eq eq power_int_of_nat .
qed

lemma lead_exp_le:
  assumes "0 < q"
  shows "2 powi lead_exp q \<le> q"
proof -
  obtain n d where nd: "quotient_of q = (n, d)" by fastforce
  have d: "0 < d" and q: "q = of_int n / of_int d" using quotient_of_denom_pos [OF nd] quotient_of_div [OF nd] by simp_all
  have n: "0 < n" using assms d by (simp add: q zero_less_divide_iff)
  let ?k = "int (floorlog 2 (nat n)) - int (floorlog 2 (nat d))"
  have "2 powi (?k - 1) \<le> q"
  proof -
    have "?k - 1 = (int (floorlog 2 (nat n)) - 1) - int (floorlog 2 (nat d))" by simp
    then have "2 powi (?k - 1) = 2 powi (int (floorlog 2 (nat n)) - 1) / (2 powi int (floorlog 2 (nat d)) :: rat)"
      by (simp only: power_int_diff [OF disjI1] zero_neq_numeral [symmetric] not_False_eq_True)
    also have "\<dots> \<le> of_int n / of_int d"
      using floorlog_rat [OF n] floorlog_rat [OF d] d n by (intro frac_le) auto
    finally show ?thesis by (simp add: q)
  qed
  then show ?thesis by (simp add: lead_exp_def nd Let_def)
qed

text \<open>One rounding changes a number by at most its \<open>2^53\<close>rd part.\<close>

lemma to_f64_error:
  assumes "0 < q"
  shows "\<bar>to_f64 q - q\<bar> \<le> q / 2 ^ 53"
proof -
  let ?e = "lead_exp q - 52"
  let ?u = "2 powi ?e :: rat"
  have u: "0 < ?u" by simp
  have "to_f64 q - q = (of_int (round_even (q / ?u)) - q / ?u) * ?u" using assms by (simp add: to_f64_def Let_def algebra_simps)
  then have "\<bar>to_f64 q - q\<bar> = \<bar>of_int (round_even (q / ?u)) - q / ?u\<bar> * ?u" using u by (simp add: abs_mult)
  also have "\<dots> \<le> 1 / 2 * ?u" using round_even_error [of "q / ?u"] u by (intro mult_right_mono) auto
  also have "\<dots> = 2 powi lead_exp q / 2 ^ 53" by (simp add: power_int_diff)
  also have "\<dots> \<le> q / 2 ^ 53" using lead_exp_le [OF assms] by (simp add: divide_right_mono)
  finally show ?thesis .
qed

end
