(* ===== verification/Pool_Http.thy ===== *)
theory Pool_Http
  imports Stratum_Server Block_Json Rust_Float
begin

text \<open>
  The HTTP service and the command line of the pool: \<open>crates/tensorium-pool/src/main.rs\<close>, with the
  parts of \<open>accounting.rs\<close> and \<open>stratum.rs\<close> they print. What the node answers to a request text, the
  readers of \<open>serde_json\<close> and the outcome of writing the ledger file are the surroundings of a request.
  A response is its status and its body as a value. The ledger is shared with the stratum server; here
  it is a field of the state. Locks that another thread left poisoned and failing writes to the client
  are not modelled.
\<close>

section \<open>Window statistics\<close>

record MinerWindowEntry =
  mw_wallet_address :: string
  mw_shares :: nat
  mw_weight :: u64
  mw_pct :: rat

record WindowStats =
  wst_window_n :: nat
  shares_in_window :: nat
  wst_total_weight :: u64
  miners :: "MinerWindowEntry list"

definition share_counts :: "ShareRecord list \<Rightarrow> (string, nat) hashmap" where
  "share_counts ss =
     foldl (\<lambda>m s. hm_insert (sr_wallet_address s) (Suc (case hm_get m (sr_wallet_address s) of Some n \<Rightarrow> n | None \<Rightarrow> 0)) m) [] ss"

definition window_pct :: "u64 \<Rightarrow> u64 \<Rightarrow> rat" where
  "window_pct w tot =
     (let total_w = to_f64 (of_nat (unat tot)) in
      if total_w > 0 then to_f64 (to_f64 (to_f64 (of_nat (unat w)) / total_w) * 100) else 0)"

definition window_stats :: "PayoutLedger \<Rightarrow> WindowStats" where
  "window_stats l =
     (let w = share_window l; counts = share_counts (shares w) in
      \<lparr> wst_window_n = window_n w, shares_in_window = length (shares w), wst_total_weight = total_weight w,
        miners = sort_key (\<lambda>e. - 1 - mw_weight e)
          (map (\<lambda>(addr, wt). \<lparr> mw_wallet_address = addr, mw_shares = (case hm_get counts addr of Some n \<Rightarrow> n | None \<Rightarrow> 0),
             mw_weight = wt, mw_pct = window_pct wt (total_weight w) \<rparr>) (miner_weights w)) \<rparr>)"

section \<open>State\<close>

record PoolState =
  ps_node_rpc :: string
  treasury_address :: string
  payout_hot_wallet :: "string option"
  payout_hot_wallet_max_atoms :: "u64 option"
  ledger_path :: string
  ledger :: PayoutLedger
  last_miner_for_height :: "(u64, string) hashmap"

definition new_pool_state :: "string \<Rightarrow> string \<Rightarrow> string option \<Rightarrow> u64 option \<Rightarrow> string \<Rightarrow> PayoutLedger \<Rightarrow> PoolState" where
  "new_pool_state rpc treasury hot cap path l =
     \<lparr> ps_node_rpc = rpc, treasury_address = treasury, payout_hot_wallet = hot, payout_hot_wallet_max_atoms = cap,
       ledger_path = path, ledger = l, last_miner_for_height = [] \<rparr>"

text \<open>The service: its state and the ledger file\<close>

record Pool =
  pool_state :: PoolState
  ledger_file :: "PayoutLedger stored"

definition register_miner_for_height :: "u64 \<Rightarrow> string \<Rightarrow> PoolState \<Rightarrow> PoolState" where
  "register_miner_for_height h miner s = s\<lparr> last_miner_for_height := hm_insert h miner (last_miner_for_height s) \<rparr>"

definition miner_for_height :: "PoolState \<Rightarrow> u64 \<Rightarrow> string option" where
  "miner_for_height s h = hm_get (last_miner_for_height s) h"

definition record_block :: "write_outcome \<Rightarrow> u64 \<Rightarrow> string \<Rightarrow> string \<Rightarrow> u64 \<Rightarrow> Pool \<Rightarrow> Pool \<times> (unit, string) result" where
  "record_block outcome h bhash miner gross P =
     (let l = ledger_push (ledger (pool_state P)) (new_payout_entry h bhash miner gross);
          (file, r) = ledger_save outcome l (ledger_file P) in
      (\<lparr> pool_state = (pool_state P)\<lparr> ledger := l \<rparr>, ledger_file = file \<rparr>, r))"

section \<open>Talking to the node\<close>

record pool_env =
  node_says :: "string \<Rightarrow> (string, string) result"
  value_of :: "string \<Rightarrow> json option"
  block_of :: "string \<Rightarrow> (Block, string) result"
  save_outcome :: write_outcome

definition send_http :: "pool_env \<Rightarrow> string \<Rightarrow> (string, string) result" where
  "send_http E request =
     res_bind (node_says E request) (\<lambda>response.
       case split_once (crlf @ crlf) response of
         None \<Rightarrow> Err ''invalid HTTP response''
       | Some (head, body) \<Rightarrow> if \<not> starts_with ''HTTP/1.1 200'' head then Err (''RPC error: '' @ body) else Ok body)"

definition pool_http_get :: "pool_env \<Rightarrow> string \<Rightarrow> string \<Rightarrow> (string, string) result" where
  "pool_http_get E rpc path =
     send_http E (''GET '' @ path @ '' HTTP/1.1'' @ crlf @ ''host: '' @ rpc @ crlf @ ''connection: close'' @ crlf @ crlf)"

definition pool_http_post :: "pool_env \<Rightarrow> string \<Rightarrow> string \<Rightarrow> string \<Rightarrow> (string, string) result" where
  "pool_http_post E rpc path body =
     send_http E (''POST '' @ path @ '' HTTP/1.1'' @ crlf @ ''host: '' @ rpc @ crlf @ ''content-type: application/json'' @ crlf
       @ ''content-length: '' @ show_nat (length body) @ crlf @ ''connection: close'' @ crlf @ crlf @ body)"

section \<open>Handlers\<close>

datatype pool_body =
    RawBody string
  | ErrBody string
  | HealthyBody
  | StatsBody LedgerStats
  | StratumBody json
  | EntriesBody "PayoutEntry list"
  | CustodyBody string "string option" "u64 option" string
  | MinersBody WindowStats
  | PendingNet string u64

type_synonym pool_response = "nat \<times> pool_body"

definition template_height :: "json \<Rightarrow> u64 option" where
  "template_height tpl = as_u64 (json_at (json_at (json_at tpl ''template'') ''header'') ''height'')"

definition handle_get_block_template :: "pool_env \<Rightarrow> string \<Rightarrow> Pool \<Rightarrow> Pool \<times> pool_response" where
  "handle_get_block_template E miner P =
     (if miner = [] then (P, 400, ErrBody ''missing miner address'')
      else
        let s = pool_state P in
        case pool_http_get E (ps_node_rpc s) (''/getblocktemplate/'' @ treasury_address s) of
          Err e \<Rightarrow> (P, 502, ErrBody (''node unavailable: '' @ e))
        | Ok raw \<Rightarrow>
            (case Option.bind (value_of E raw) template_height of
               None \<Rightarrow> P
             | Some h \<Rightarrow> P\<lparr> pool_state := register_miner_for_height h miner s \<rparr>, 200, RawBody raw))"

text \<open>\<open>from_str::<Value>(..).ok().and_then(|v| v["accepted"].as_bool()).unwrap_or(false)\<close>\<close>

definition says_accepted :: "pool_env \<Rightarrow> string \<Rightarrow> bool" where
  "says_accepted E resp = (Option.bind (value_of E resp) (\<lambda>v. as_bool (json_at v ''accepted'')) = Some True)"

definition first_output_atoms :: "Block \<Rightarrow> u64" where
  "first_output_atoms b =
     (case transactions b of [] \<Rightarrow> 0 | tx # _ \<Rightarrow> (case outputs tx of [] \<Rightarrow> 0 | out # _ \<Rightarrow> value_atoms out))"

definition handle_submit_block :: "ext \<Rightarrow> pool_env \<Rightarrow> string \<Rightarrow> Pool \<Rightarrow> Pool \<times> pool_response" where
  "handle_submit_block X E body P =
     (case block_of E body of
        Err e \<Rightarrow> (P, 400, ErrBody (''invalid block: '' @ e))
      | Ok b \<Rightarrow>
          (case pool_http_post E (ps_node_rpc (pool_state P)) ''/submitblock'' body of
             Err e \<Rightarrow> (P, 502, ErrBody (''node unavailable: '' @ e))
           | Ok node_resp \<Rightarrow>
               (if says_accepted E node_resp then
                  let miner = (case miner_for_height (pool_state P) (height (header b)) of Some a \<Rightarrow> a | None \<Rightarrow> ''unknown'') in
                  fst (record_block (save_outcome E) (height (header b)) (to_hex X (block_hash X b)) miner (first_output_atoms b) P)
                else P, 200, RawBody node_resp)))"

definition worker_json :: "WorkerSession \<Rightarrow> json" where
  "worker_json w =
     JObj [(''connection_id'', JStr (connection_id w)), (''worker_name'', JStr (worker_name w)),
       (''wallet_address'', JStr (ws_wallet_address w)), (''peer_addr'', JStr (peer_addr w)),
       (''authorized_at_unix'', JNum (authorized_at_unix w)), (''last_seen_at_unix'', JNum (last_seen_at_unix w)),
       (''accepted_shares'', JNum (accepted_shares w)), (''rejected_shares'', JNum (rejected_shares w)),
       (''last_submit_result'', JStr (last_submit_result w)), (''share_diff_bits'', JNum (ucast (ws_share_diff_bits w))),
       (''share_diff'', JNum (bits_to_diff (ws_share_diff_bits w)))]"

definition stats_json :: "StratumState \<Rightarrow> json" where
  "stats_json st =
     JObj [(''stratum_workers'', JNum (of_nat (length (job_senders st)))), (''authorized_workers'', JNum (of_nat (length (workers st)))),
       (''stratum_port'', JNum 3333), (''initial_share_diff_bits'', JNum (ucast (initial_diff_bits st))),
       (''shares_accepted'', JNum (shares_accepted st)), (''shares_rejected'', JNum (shares_rejected st)),
       (''blocks_found'', JNum (ss_blocks_found st)), (''active_workers'', JArr (map (worker_json \<circ> snd) (workers st))),
       (''vardiff'', JObj [(''window_secs'', JNum VARDIFF_WINDOW_SECS), (''target_min'', JNum VARDIFF_TARGET_MIN),
          (''target_max'', JNum VARDIFF_TARGET_MAX), (''min_bits'', JNum (ucast VARDIFF_MIN_BITS)),
          (''max_bits'', JNum (ucast VARDIFF_MAX_BITS))])]"

definition handle_pool_stats :: "PoolState \<Rightarrow> pool_response" where
  "handle_pool_stats s = (200, StatsBody (ledger_stats (ledger s)))"

definition handle_pool_stratum :: "StratumState \<Rightarrow> pool_response" where
  "handle_pool_stratum st = (200, StratumBody (stats_json st))"

definition handle_pool_accounting :: "PoolState \<Rightarrow> pool_response" where
  "handle_pool_accounting s = (200, EntriesBody (entries (ledger s)))"

definition handle_pool_miners :: "PoolState \<Rightarrow> pool_response" where
  "handle_pool_miners s = (200, MinersBody (window_stats (ledger s)))"

definition handle_pool_custody :: "PoolState \<Rightarrow> pool_response" where
  "handle_pool_custody s =
     (200, CustodyBody (treasury_address s) (payout_hot_wallet s) (payout_hot_wallet_max_atoms s) (ledger_path s))"

definition handle_pool_pending :: "string \<Rightarrow> PoolState \<Rightarrow> pool_response" where
  "handle_pool_pending miner s = (200, PendingNet miner (pending_atoms (ledger s) miner))"

section \<open>Connections\<close>

definition extract_body :: "string \<Rightarrow> string" where
  "extract_body request = (case split_once (crlf @ crlf) request of Some (_, b) \<Rightarrow> b | None \<Rightarrow> [])"

definition pool_route :: "ext \<Rightarrow> pool_env \<Rightarrow> StratumState \<Rightarrow> string \<Rightarrow> Pool \<Rightarrow> Pool \<times> pool_response" where
  "pool_route X E st request P =
     (let first_line = (case str_lines request of [] \<Rightarrow> [] | l # _ \<Rightarrow> l); s = pool_state P in
      case split_at (CHR '' '') first_line of
        meth # path # _ \<Rightarrow>
          (if meth = ''GET'' then
             if path = ''/health'' then (P, 200, HealthyBody)
             else if path = ''/pool/stats'' then (P, handle_pool_stats s)
             else if path = ''/pool/stratum'' then (P, handle_pool_stratum st)
             else if path = ''/pool/accounting'' then (P, handle_pool_accounting s)
             else if path = ''/pool/custody'' then (P, handle_pool_custody s)
             else if path = ''/pool/miners'' then (P, handle_pool_miners s)
             else if starts_with ''/pool/pending/'' path
             then (P, handle_pool_pending (trim_start_matches ''/pool/pending/'' path) s)
             else if starts_with ''/getblocktemplate/'' path
             then handle_get_block_template E (trim_start_matches ''/getblocktemplate/'' path) P
             else (P, 404, ErrBody ''not found'')
           else if meth = ''POST'' \<and> path = ''/submitblock'' then handle_submit_block X E (extract_body request) P
           else (P, 404, ErrBody ''not found''))
      | _ \<Rightarrow> (P, 400, ErrBody ''bad request''))"

text \<open>The reading loop is the one of the node, with other error texts.\<close>

definition pool_read_request :: "(bytes, string) result list \<Rightarrow> (string, string) result" where
  "pool_read_request chunks =
     map_err (\<lambda>e. case e of ReadIo t \<Rightarrow> ''read: '' @ t | RequestTooLarge \<Rightarrow> ''request too large'' | NotUtf8 \<Rightarrow> ''utf8'')
       (read_http_request chunks)"

definition handle_connection ::
  "ext \<Rightarrow> pool_env \<Rightarrow> StratumState \<Rightarrow> (bytes, string) result list \<Rightarrow> Pool \<Rightarrow> Pool \<times> (pool_response, string) result" where
  "handle_connection X E st chunks P =
     (case pool_read_request chunks of
        Err e \<Rightarrow> (P, Err e)
      | Ok request \<Rightarrow> apsnd Ok (pool_route X E st request P))"

section \<open>Command line\<close>

text \<open>The commands other than \<open>serve\<close> work on the ledger file alone.\<close>

record pool_vars =
  treasury_var :: "string option"
  hot_wallet_var :: "string option"
  hot_max_var :: "string option"
  ledger_var :: "string option"

datatype pool_print =
    PrintStats LedgerStats
  | PrintEntries "PayoutEntry list"
  | PrintCustody string string string string
  | PrintLine string

definition DEFAULT_LEDGER_PATH :: string where "DEFAULT_LEDGER_PATH = ''pool-ledger.json''"

definition var_or :: "string option \<Rightarrow> string \<Rightarrow> string" where
  "var_or v dflt = (case v of Some s \<Rightarrow> s | None \<Rightarrow> dflt)"

definition cmd_pool_pending :: "string \<Rightarrow> PayoutLedger stored \<Rightarrow> pool_print" where
  "cmd_pool_pending miner file =
     PrintLine (''miner='' @ miner @ ''  pending_net_atoms='' @ show_nat (unat (pending_atoms (ledger_load file) miner)))"

definition cmd_mark_paid ::
  "write_outcome \<Rightarrow> string \<Rightarrow> PayoutLedger stored \<Rightarrow> PayoutLedger stored \<times> (pool_print, string) result" where
  "cmd_mark_paid outcome miner file =
     (let (file', r) = ledger_save outcome (mark_paid (ledger_load file) miner) file in
      (file', res_bind r (\<lambda>_. Ok (PrintLine (''marked all entries for '' @ miner @ '' as paid'')))))"

definition cmd_custody :: "pool_vars \<Rightarrow> pool_print" where
  "cmd_custody V =
     PrintCustody (var_or (treasury_var V) ''<not configured>'') (var_or (hot_wallet_var V) ''<not configured>'')
       (var_or (hot_max_var V) ''<not configured>'') (var_or (ledger_var V) DEFAULT_LEDGER_PATH)"

datatype pool_run = ServePool | HelpText | Command "PayoutLedger stored \<times> (pool_print, string) result"

definition pool_run_cmd :: "pool_vars \<Rightarrow> write_outcome \<Rightarrow> string list \<Rightarrow> PayoutLedger stored \<Rightarrow> pool_run" where
  "pool_run_cmd V outcome args file =
     (case drop 1 args of
        [] \<Rightarrow> ServePool
      | c # rest \<Rightarrow>
          if c = ''serve'' then ServePool
          else if c = ''stats'' then Command (file, Ok (PrintStats (ledger_stats (ledger_load file))))
          else if c = ''accounting'' then Command (file, Ok (PrintEntries (entries (ledger_load file))))
          else if c = ''custody'' then Command (file, Ok (cmd_custody V))
          else if c = ''pending'' then
            (case rest of [] \<Rightarrow> Command (file, Err ''usage: tensorium-pool pending <miner_address>'')
             | a # _ \<Rightarrow> Command (file, Ok (cmd_pool_pending a file)))
          else if c = ''mark-paid'' then
            (case rest of [] \<Rightarrow> Command (file, Err ''usage: tensorium-pool mark-paid <miner_address>'')
             | a # _ \<Rightarrow> Command (cmd_mark_paid outcome a file))
          else if c \<in> {''help'', ''--help'', ''-h''} then HelpText
          else Command (file, Err (''unknown command: '' @ c)))"

end
