(* ===== verification/Stratum_Protocol.thy ===== *)
theory Stratum_Protocol
  imports Pool_Http
begin

text \<open>
  The protocol of the stratum server, \<open>crates/tensorium-pool/src/stratum.rs\<close>: fetching jobs from the
  node, handing blocks to it, and the turns of a connection. One turn is one run of the body of the
  loop in \<open>handle_stratum_conn\<close>: the jobs waiting in the channel are announced, then one line is
  handled. Arguments are what the outside does: the text of the node's answers, the readers and the
  printer of \<open>serde_json\<close>, clocks, the outcome of writing the ledger file, and which writes to the
  socket succeed. A panic ends the thread, and with it the connection or the poller.
\<close>

section \<open>Jobs\<close>

record stratum_env =
  wire :: "string \<Rightarrow> string \<Rightarrow> (string \<times> bool) option"
  text_value :: "string \<Rightarrow> json option"
  value_text :: "json \<Rightarrow> string"
  ledger_write :: write_outcome

text \<open>\<open>wire E addr request\<close> is the text read after the request was sent to the address and whether it
  was read to its end; \<open>None\<close> when the connection or the write failed.\<close>

text \<open>\<open>resp.split(sep).nth(1)\<close>\<close>

definition second_part :: "string \<Rightarrow> string \<Rightarrow> string option" where
  "second_part sep s =
     map_option (\<lambda>(_, rest). case split_once sep rest of Some (b, _) \<Rightarrow> b | None \<Rightarrow> rest) (split_once sep s)"

definition http_get_body :: "stratum_env \<Rightarrow> string \<Rightarrow> string option" where
  "http_get_body E url =
     (if \<not> starts_with ''http://'' url then None
      else
        let without_scheme = drop 7 url; hp = takeWhile (\<lambda>c. c \<noteq> CHR ''/'') without_scheme;
            path = dropWhile (\<lambda>c. c \<noteq> CHR ''/'') without_scheme in
        if path = [] then None
        else case rsplit_once (CHR '':'') hp of
          None \<Rightarrow> None
        | Some (host, port) \<Rightarrow>
            let addr = host @ '':'' @ port in
            (case wire E addr (''GET '' @ path @ '' HTTP/1.1'' @ crlf @ ''Host: '' @ addr @ crlf @ ''Connection: close'' @ crlf @ crlf) of
               Some (resp, True) \<Rightarrow> second_part (crlf @ crlf) resp
             | _ \<Rightarrow> None))"

definition json_index :: "json \<Rightarrow> nat \<Rightarrow> json" where
  "json_index v i = (case json_nth v i of Some w \<Rightarrow> w | None \<Rightarrow> JNull)"

definition template_gross :: "stratum_env \<Rightarrow> string \<Rightarrow> u64" where
  "template_gross E raw =
     (case Option.bind (text_value E raw) (\<lambda>v.
         as_u64 (json_at (json_index (json_at (json_index (json_at (json_at v ''template'') ''transactions'') 0) ''outputs'') 0) ''value_atoms'')) of
        Some g \<Rightarrow> g | None \<Rightarrow> 0)"

definition parse_byte_array :: "json \<Rightarrow> bytes option" where
  "parse_byte_array v =
     Option.bind (as_array v) (\<lambda>arr.
       if length arr < 32 then None
       else those (map (\<lambda>x. map_option ucast (as_u64 x)) (take 32 arr)))"

fun as_object :: "json \<Rightarrow> (string \<times> json) list option" where
  "as_object (JObj kvs) = Some kvs"
| "as_object _ = None"

text \<open>\<open>hdr["key"]\<close> on a map panics where there is no such key; \<open>?\<close> ends the function with \<open>None\<close>.\<close>

definition try_step :: "'a option outcome \<Rightarrow> ('a \<Rightarrow> 'b option outcome) \<Rightarrow> 'b option outcome" where
  "try_step r k = (case r of Panic \<Rightarrow> Panic | Ret None \<Rightarrow> Ret None | Ret (Some a) \<Rightarrow> k a)"

definition map_index :: "(string \<times> json) list \<Rightarrow> string \<Rightarrow> (json \<Rightarrow> 'a option) \<Rightarrow> 'a option outcome" where
  "map_index kvs k f = (case map_of kvs k of None \<Rightarrow> Panic | Some v \<Rightarrow> Ret (f v))"

definition parse_job_response :: "stratum_env \<Rightarrow> nat \<Rightarrow> string \<Rightarrow> (StratumJob \<times> string) option outcome" where
  "parse_job_response E ms resp =
     try_step (Ret (text_value E resp)) (\<lambda>v.
     try_step (Ret (as_object (json_at (json_at v ''template'') ''header''))) (\<lambda>hdr.
     try_step (map_index hdr ''chain_id'' as_str) (\<lambda>cid.
     try_step (map_index hdr ''height'' as_u64) (\<lambda>h.
     try_step (map_index hdr ''leading_zero_bits'' as_u64) (\<lambda>bits.
     try_step (map_index hdr ''timestamp_seconds'' as_u64) (\<lambda>ts.
     try_step (map_index hdr ''version'' (\<lambda>w. Some (case as_u64 w of Some n \<Rightarrow> n | None \<Rightarrow> 1))) (\<lambda>ver.
     try_step (Ret (Option.bind (map_of hdr ''previous_hash'') parse_byte_array)) (\<lambda>prev.
     try_step (Ret (Option.bind (map_of hdr ''merkle_root'') parse_byte_array)) (\<lambda>mroot.
     try_step (Ret (Option.bind (json_get v ''epoch_seed'') parse_byte_array)) (\<lambda>seed.
       Ret (Some (\<lparr> job_id = ''h'' @ show_nat (unat h) @ ''-'' @ show_nat ms, sj_chain_id = cid, sj_height = h,
         sj_previous_hash = prev, sj_merkle_root = mroot, sj_epoch_seed = seed, sj_timestamp = ts,
         difficulty_bits = ucast bits, sj_version = ucast ver \<rparr>, resp))))))))))))"

definition fetch_job :: "stratum_env \<Rightarrow> nat \<Rightarrow> string \<Rightarrow> string \<Rightarrow> (StratumJob \<times> string) option outcome" where
  "fetch_job E ms node_rpc treasury =
     try_step (Ret (http_get_body E (''http://'' @ node_rpc @ ''/getblocktemplate/'' @ treasury))) (parse_job_response E ms)"

text \<open>One round of \<open>run_job_poller\<close>.\<close>

definition poller_round :: "stratum_env \<Rightarrow> nat \<Rightarrow> (string \<Rightarrow> bool) \<Rightarrow> u64 \<Rightarrow> StratumState \<Rightarrow> (u64 \<times> StratumState) outcome" where
  "poller_round E ms alive seen st =
     (case fetch_job E ms (ss_node_rpc st) (ss_treasury st) of
        Panic \<Rightarrow> Panic
      | Ret fetched \<Rightarrow> Ret (poll_job alive seen st fetched))"

section \<open>Handing a block to the node\<close>

text \<open>\<open>v["key"]\<close> as the target of an assignment: null becomes an object, a missing key is added, anything
  that is neither null nor an object panics.\<close>

definition json_put :: "json \<Rightarrow> string \<Rightarrow> (json \<Rightarrow> json outcome) \<Rightarrow> json outcome" where
  "json_put v k f =
     (case v of
        JNull \<Rightarrow> (case f JNull of Panic \<Rightarrow> Panic | Ret w \<Rightarrow> Ret (JObj [(k, w)]))
      | JObj kvs \<Rightarrow> (case f (json_at v k) of Panic \<Rightarrow> Panic | Ret w \<Rightarrow> Ret (JObj (hm_insert k w kvs)))
      | _ \<Rightarrow> Panic)"

definition build_fallback_body :: "stratum_env \<Rightarrow> StratumJob \<Rightarrow> u64 \<Rightarrow> string" where
  "build_fallback_body E job n =
     value_text E (JObj [(''header'', JObj [(''chain_id'', JStr (sj_chain_id job)), (''height'', JNum (sj_height job)),
         (''previous_hash'', byte_json (sj_previous_hash job)), (''merkle_root'', byte_json (sj_merkle_root job)),
         (''timestamp_seconds'', JNum (sj_timestamp job)), (''leading_zero_bits'', JNum (ucast (difficulty_bits job))),
         (''version'', JNum (ucast (sj_version job))), (''nonce'', JNum n)]),
       (''transactions'', JArr [])])"

definition submit_body :: "stratum_env \<Rightarrow> StratumJob \<Rightarrow> u64 \<Rightarrow> string option \<Rightarrow> string outcome" where
  "submit_body E job n raw_template =
     (case Option.bind raw_template (text_value E) of
        None \<Rightarrow> Ret (build_fallback_body E job n)
      | Some v \<Rightarrow>
          (case json_put v ''template'' (\<lambda>t. json_put t ''header'' (\<lambda>h. json_put h ''nonce'' (\<lambda>_. Ret (JNum n)))) of
             Panic \<Rightarrow> Panic
           | Ret v \<Rightarrow>
               (case json_get v ''template'' of
                  Some inner \<Rightarrow> Ret (value_text E inner)
                | None \<Rightarrow> Ret (build_fallback_body E job n))))"

definition post_block :: "stratum_env \<Rightarrow> string \<Rightarrow> string \<Rightarrow> bool" where
  "post_block E addr body =
     (case wire E addr (''POST /submitblock HTTP/1.1'' @ crlf @ ''Host: '' @ addr @ crlf @ ''Content-Type: application/json'' @ crlf
          @ ''Content-Length: '' @ show_nat (length body) @ crlf @ ''Connection: close'' @ crlf @ crlf @ body) of
        None \<Rightarrow> False
      | Some (resp, _) \<Rightarrow>
          let answer = (case second_part (crlf @ crlf) resp of Some b \<Rightarrow> b | None \<Rightarrow> resp) in
          Option.bind (text_value E answer) (\<lambda>v. as_bool (json_at v ''accepted'')) = Some True)"

definition stratum_submit_block :: "stratum_env \<Rightarrow> string \<Rightarrow> StratumJob \<Rightarrow> u64 \<Rightarrow> string option \<Rightarrow> bool outcome" where
  "stratum_submit_block E node_rpc job n raw_template =
     (case rsplit_once (CHR '':'') node_rpc of
        None \<Rightarrow> Ret False
      | Some (host, port) \<Rightarrow>
          (case submit_body E job n raw_template of
             Panic \<Rightarrow> Panic
           | Ret body \<Rightarrow> Ret (post_block E (host @ '':'' @ port) body)))"

definition stratum_link :: "stratum_env \<Rightarrow> StratumState \<Rightarrow> node_link" where
  "stratum_link E st =
     \<lparr> node_accepts = stratum_submit_block E (ss_node_rpc st), save_result = ledger_write E, gross_from_template = template_gross E \<rparr>"

section \<open>Messages to a worker\<close>

definition notify_msg :: "StratumJob \<Rightarrow> u64 \<Rightarrow> json" where
  "notify_msg job worker_diff =
     JObj [(''id'', JNull), (''method'', JStr ''mining.notify''),
       (''params'', JObj [(''job_id'', JStr (job_id job)), (''chain_id'', JStr (sj_chain_id job)), (''height'', JNum (sj_height job)),
          (''previous_hash'', JStr (hex_string (sj_previous_hash job))), (''merkle_root'', JStr (hex_string (sj_merkle_root job))),
          (''epoch_seed'', JStr (hex_string (sj_epoch_seed job))), (''timestamp'', JNum (sj_timestamp job)),
          (''difficulty_bits'', JNum (ucast (difficulty_bits job))), (''share_difficulty'', JNum worker_diff),
          (''clean_jobs'', JBool True)])]"

definition set_difficulty_msg :: "u64 \<Rightarrow> json" where
  "set_difficulty_msg diff =
     JObj [(''id'', JNull), (''method'', JStr ''mining.set_difficulty''), (''params'', JArr [JNum diff])]"

definition result_msg :: "json \<Rightarrow> json \<Rightarrow> json \<Rightarrow> json" where
  "result_msg i r e = JObj [(''id'', i), (''result'', r), (''error'', e)]"

definition ping_msg :: json where
  "ping_msg = JObj [(''id'', JNull), (''method'', JStr ''mining.ping''), (''params'', JArr [])]"

definition subscribe_reply :: "json \<Rightarrow> nat \<Rightarrow> json" where
  "subscribe_reply i millis =
     result_msg i (JObj [(''session_id'', JStr (''s'' @ show_nat millis)), (''protocol'', JStr ''tensorium-stratum/1''),
       (''nonce_bits'', JNum 64)]) JNull"

section \<open>Turns of a connection\<close>

text \<open>The variables of the loop, times of the monotonic clock in nanoseconds.\<close>

record stratum_conn =
  authorized :: bool
  wallet_addr :: string
  last_job_id :: string
  last_ping :: nat

definition new_conn :: "nat \<Rightarrow> stratum_conn" where
  "new_conn now = \<lparr> authorized = False, wallet_addr = [], last_job_id = [], last_ping = now \<rparr>"

record turn_env =
  te_node :: stratum_env
  unix_clock :: "nat \<Rightarrow> u64"
  unix_millis :: nat
  instant :: nat
  write_ok :: "nat \<Rightarrow> bool"

datatype stratum_input = Line string | Quiet | Broken | HungUp

datatype turn_result = Stays StratumState stratum_conn | Leaves StratumState | Dies

text \<open>Lines are written until a write fails; the \<open>k\<close>-th write of the turn comes first.\<close>

definition send_lines :: "(nat \<Rightarrow> bool) \<Rightarrow> nat \<Rightarrow> json list \<Rightarrow> json list \<times> bool" where
  "send_lines ok k msgs =
     (let good = length (takeWhile ok [k ..< k + length msgs]) in (take good msgs, good = length msgs))"

definition send_or_leave :: "turn_env \<Rightarrow> nat \<Rightarrow> string \<Rightarrow> json list \<Rightarrow> StratumState \<Rightarrow> stratum_conn \<Rightarrow> json list \<times> turn_result" where
  "send_or_leave T k cid msgs st c =
     (let (sent, ok) = send_lines (write_ok T) k msgs in (sent, if ok then Stays st c else Leaves (disconnect st cid)))"

definition on_authorize :: "turn_env \<Rightarrow> nat \<Rightarrow> string \<Rightarrow> string \<Rightarrow> json \<Rightarrow> StratumState \<Rightarrow> stratum_conn \<Rightarrow> json list \<times> turn_result" where
  "on_authorize T k cid peer msg st c =
     (let auth = (case as_str (json_index (json_at msg ''params'') 0) of Some a \<Rightarrow> a | None \<Rightarrow> []);
          st' = authorize (unix_clock T) st cid peer auth;
          init_diff = bits_to_diff (initial_diff_bits st);
          c1 = c\<lparr> authorized := True, wallet_addr := fst (splitn_dot auth) \<rparr>;
          hello = [result_msg (json_at msg ''id'') (JBool True) JNull, set_difficulty_msg init_diff] in
      case current_job st of
        None \<Rightarrow> send_or_leave T k cid hello st' c1
      | Some job \<Rightarrow> send_or_leave T k cid (hello @ [notify_msg job init_diff]) st' (c1\<lparr> last_job_id := job_id job \<rparr>))"

text \<open>The new difficulty of the worker, when the share changed it, and the job again.\<close>

definition vardiff_msgs :: "StratumState \<Rightarrow> StratumState \<Rightarrow> string \<Rightarrow> json list" where
  "vardiff_msgs st st' cid =
     (case (hm_get (workers st) cid, hm_get (workers st') cid) of
        (Some w, Some w') \<Rightarrow>
          if ws_share_diff_bits w' \<noteq> ws_share_diff_bits w then
            let new_diff = bits_to_diff (ws_share_diff_bits w') in
            set_difficulty_msg new_diff # (case current_job st' of Some job \<Rightarrow> [notify_msg job new_diff] | None \<Rightarrow> [])
          else []
      | _ \<Rightarrow> [])"

definition on_submit :: "ext \<Rightarrow> turn_env \<Rightarrow> nat \<Rightarrow> string \<Rightarrow> json \<Rightarrow> StratumState \<Rightarrow> stratum_conn \<Rightarrow> json list \<times> turn_result" where
  "on_submit X T k cid msg st c =
     (let params = json_at msg ''params'';
          jid = (case as_str (json_at params ''job_id'') of Some s \<Rightarrow> s | None \<Rightarrow> []);
          nonce_hex = (case as_str (json_at params ''nonce'') of Some s \<Rightarrow> s | None \<Rightarrow> ''0'');
          i = json_at msg ''id'' in
      case submit_share X (stratum_link (te_node T) st) (unix_clock T) st cid (wallet_addr c) (last_job_id c) jid nonce_hex of
        Panic \<Rightarrow> ([], Dies)
      | Ret (ShareStale, st') \<Rightarrow>
          (fst (send_lines (write_ok T) k [result_msg i (JStr ''rejected'') (JStr ''stale'')]), Stays st' c)
      | Ret (ShareAccepted, st') \<Rightarrow>
          send_or_leave T k cid (vardiff_msgs st st' cid @ [result_msg i (JStr ''accepted'') JNull]) st' c
      | Ret (ShareRejected, st') \<Rightarrow> send_or_leave T k cid [result_msg i (JStr ''rejected'') JNull] st' c)"

definition on_message :: "ext \<Rightarrow> turn_env \<Rightarrow> nat \<Rightarrow> string \<Rightarrow> string \<Rightarrow> json \<Rightarrow> StratumState \<Rightarrow> stratum_conn \<Rightarrow> json list \<times> turn_result" where
  "on_message X T k cid peer msg st c =
     (let meth = (case as_str (json_at msg ''method'') of Some s \<Rightarrow> s | None \<Rightarrow> []) in
      if meth = ''mining.subscribe'' then
        send_or_leave T k cid [subscribe_reply (json_at msg ''id'') (unix_millis T)] st c
      else if meth = ''mining.authorize'' then on_authorize T k cid peer msg st c
      else if meth = ''mining.submit'' then
        (if authorized c then on_submit X T k cid msg st c else ([], Stays st c))
      else if meth = ''mining.pong'' then ([], Stays (pong (unix_clock T) st cid) c)
      else ([], Stays st c))"

definition on_input :: "ext \<Rightarrow> turn_env \<Rightarrow> nat \<Rightarrow> string \<Rightarrow> string \<Rightarrow> stratum_input \<Rightarrow> StratumState \<Rightarrow> stratum_conn \<Rightarrow> json list \<times> turn_result" where
  "on_input X T k cid peer inp st c =
     (case inp of
        Quiet \<Rightarrow>
          if authorized c \<and> (instant T - last_ping c) div 10 ^ 9 \<ge> 5
          then send_or_leave T k cid [ping_msg] st (c\<lparr> last_ping := instant T \<rparr>)
          else ([], Stays st c)
      | Line l \<Rightarrow>
          if l = [] then ([], Stays st c)
          else (case text_value (te_node T) l of
                  None \<Rightarrow> ([], Stays st c)
                | Some msg \<Rightarrow> on_message X T k cid peer msg st c)
      | _ \<Rightarrow> ([], Leaves (disconnect st cid)))"

text \<open>The jobs that wait in the channel are announced first; at the end of the stream the loop ends at once.\<close>

definition stratum_turn ::
  "ext \<Rightarrow> turn_env \<Rightarrow> string \<Rightarrow> string \<Rightarrow> StratumJob list \<Rightarrow> stratum_input \<Rightarrow> StratumState \<Rightarrow> stratum_conn \<Rightarrow> json list \<times> turn_result" where
  "stratum_turn X T cid peer jobs inp st c =
     (if inp = HungUp then ([], Leaves (disconnect st cid))
      else
        let news = (if authorized c then map (\<lambda>job. notify_msg job (bits_to_diff (worker_bits_of st cid))) jobs else []) in
        case send_lines (write_ok T) 0 news of
          (sent, False) \<Rightarrow> (sent, Leaves (disconnect st cid))
        | (sent, True) \<Rightarrow>
            let c' = (if news = [] then c else c\<lparr> last_job_id := job_id (last jobs) \<rparr>);
                (more, r) = on_input X T (length sent) cid peer inp st c' in
            (sent @ more, r))"

text \<open>A new connection: its identifier and its channel.\<close>

definition accept_stratum :: "u64 \<Rightarrow> string \<Rightarrow> StratumState \<Rightarrow> string \<times> StratumState" where
  "accept_stratum now peer st =
     (let cid = show_nat (unat now) @ ''-'' @ peer in (cid, connect st cid))"

end
