(* ===== verification/Rpc_Safety.thy ===== *)
theory Rpc_Safety
  imports Node_Rpc
begin

text \<open>
  What the RPC interface guarantees: reading a request does not depend on how the network cuts it up;
  the node as one system of peers and RPC clients answers every event and keeps its invariant
  (interpretations \<open>rpc_service\<close> and \<open>node_system\<close> of the locale \<open>node_service\<close>); only a holder of the
  admin token can change the ban list.
\<close>

section \<open>Requests arrive in pieces\<close>

lemma starts_with_str_bytes: "starts_with (str_bytes pat) (str_bytes s) = starts_with pat s"
proof (induction pat s rule: starts_with.induct)
  case (3 x xs y ys)
  have "of_char x = (of_char y :: u8) \<longleftrightarrow> x = y" using str_bytes_inject [of "[x]" "[y]"] by (simp add: str_bytes_def)
  with 3 show ?case by (simp add: str_bytes_def)
qed (simp_all add: str_bytes_def)

lemma str_bytes_crlf: "str_bytes (crlf @ crlf) = [13, 10, 13, 10]"
  by (simp add: str_bytes_def crlf_def char_of_def of_char_def bit_Suc_0_iff)

lemma header_end_str_bytes:
  "header_end (str_bytes s) = map_option (\<lambda>(h, _). length h) (split_once (crlf @ crlf) s)"
proof (induction s)
  case Nil
  then show ?case by (simp add: str_bytes_def crlf_def)
next
  case (Cons c s)
  have "starts_with [13, 10, 13, 10] (str_bytes (c # s)) = starts_with (crlf @ crlf) (c # s)"
    using starts_with_str_bytes [of "crlf @ crlf" "c # s"] by (simp only: str_bytes_crlf)
  with Cons show ?case
    by (cases "split_once (crlf @ crlf) s") (auto simp: str_bytes_def simp del: starts_with.simps)
qed

lemma starts_with_append: "length pat \<le> length xs \<Longrightarrow> starts_with pat (xs @ ys) = starts_with pat xs"
  by (auto simp: starts_with_iff append_eq_append_conv2)

lemma str_bytes_bytes_str: "str_bytes (bytes_str bs) = bs"
proof (induction bs)
  case (Cons b bs)
  have "of_char (char_of (unat b)) = b"
  proof -
    have "(of_char (char_of (unat b)) :: nat) = unat b" using unsigned_less [of b, where ?'a = nat] by simp
    then show ?thesis by (simp only: unat_of_char word_unat_eq_iff)
  qed
  with Cons show ?case by (simp add: str_bytes_def bytes_str_def)
qed (simp add: str_bytes_def bytes_str_def)

lemma split_once_eq: "split_once pat s = Some (a, b) \<Longrightarrow> s = a @ pat @ b"
proof (induction pat s arbitrary: a rule: split_once.induct)
  case (2 pat c cs)
  then show ?case by (cases "starts_with pat (c # cs)") (auto simp: starts_with_iff)
qed (auto split: if_splits)

lemma header_end_prefix: "header_end xs = Some e \<Longrightarrow> header_end (xs @ ys) = Some e \<and> e + 4 \<le> length xs"
proof (induction xs arbitrary: e)
  case (Cons x xs)
  show ?case
  proof (cases "starts_with [13, 10, 13, 10] (x # xs)")
    case True
    then obtain zs where "x # xs = [13, 10, 13, 10] @ zs" by (auto simp only: starts_with_iff)
    with Cons.prems show ?thesis by (auto simp: starts_with_iff)
  next
    case False
    with Cons.prems obtain e' where e: "header_end xs = Some e'" "e = Suc e'" by auto
    from Cons.IH [OF e(1)] have "header_end (xs @ ys) = Some e'" "e' + 4 \<le> length xs" by auto
    moreover have "\<not> starts_with [13, 10, 13, 10] (x # xs @ ys)"
      using False \<open>e' + 4 \<le> length xs\<close> starts_with_append [of "[13, 10, 13, 10]" "x # xs" ys] by simp
    ultimately show ?thesis using e by (simp del: starts_with.simps)
  qed
qed simp


definition declared_length :: "bytes \<Rightarrow> nat \<Rightarrow> nat" where
  "declared_length bs e = (case parse_content_length (from_utf8_lossy (take e bs)) of Some n \<Rightarrow> n | None \<Rightarrow> 0)"

text \<open>A complete request: the header ends, and as many bytes follow as it declares.\<close>

definition complete_request :: "bytes \<Rightarrow> nat \<Rightarrow> bool" where
  "complete_request bs e \<longleftrightarrow>
     header_end bs = Some e \<and> length bs = e + 4 + declared_length bs e \<and> length bs \<le> MAX_REQUEST_BYTES"

lemma of_nat_u64_le: "n \<le> m \<Longrightarrow> m \<le> MAX_REQUEST_BYTES \<Longrightarrow> (of_nat m :: u64) \<le> of_nat n \<longleftrightarrow> m = n"
  by (auto simp: MAX_REQUEST_BYTES_def word_le_nat_alt unat_of_nat)

lemma update_expected_complete:
  assumes c: "complete_request (buf @ rst) e" and x: "x = None \<or> x = Some (of_nat (length (buf @ rst)))"
    and u: "update_expected buf x = (x', no_body)"
  shows "x' = None \<or> x' = Some (of_nat (length (buf @ rst)))"
    and "no_body \<Longrightarrow> rst = []" and "rst = [] \<Longrightarrow> x' = Some (of_nat (length buf))"
proof -
  have *: "(x' = None \<or> x' = Some (of_nat (length (buf @ rst)))) \<and> (no_body \<longrightarrow> rst = []) \<and> (rst = [] \<longrightarrow> x' = Some (of_nat (length buf)))"
  proof (cases "x = None")
    case False
    with x u show ?thesis by (auto simp: update_expected_def)
  next
    case True
    show ?thesis
    proof (cases "header_end buf")
      case None
      with c u True show ?thesis by (auto simp: update_expected_def complete_request_def)
    next
      case (Some e')
      note pre = header_end_prefix [OF Some, of rst]
      with c have e: "e' = e" and len: "length (buf @ rst) = e + 4 + declared_length (buf @ rst) e" by (auto simp: complete_request_def)
      have d: "declared_length (buf @ rst) e = declared_length buf e" using pre e by (simp add: declared_length_def)
      have "x' = Some (of_nat (length (buf @ rst)))" "no_body = (declared_length buf e = 0)"
        using u Some True len d e by (auto simp: update_expected_def declared_length_def Let_def)
      moreover have "rst = []" if "declared_length buf e = 0"
      proof -
        have "length buf + length rst = e + 4" using len that d by simp
        then have "length rst = 0" using pre e by linarith
        then show ?thesis by simp
      qed
      ultimately show ?thesis by auto
    qed
  qed
  then show "x' = None \<or> x' = Some (of_nat (length (buf @ rst)))" "no_body \<Longrightarrow> rst = []"
    "rst = [] \<Longrightarrow> x' = Some (of_nat (length buf))" by blast+
qed

lemma stop_iff:
  fixes l :: u64
  assumes "\<And>t. x = Some t \<Longrightarrow> t \<le> l \<Longrightarrow> d" and "b \<Longrightarrow> d" and "d \<Longrightarrow> x = Some l"
  shows "(b \<or> (case x of Some t \<Rightarrow> l \<ge> t | None \<Rightarrow> False)) \<longleftrightarrow> d"
  using assms by (cases x) auto

lemma read_loop_complete:
  assumes "complete_request (buf @ concat cs) e" and "\<forall>c \<in> set cs. c \<noteq> []" and "cs \<noteq> []"
    and "x = None \<or> x = Some (of_nat (length (buf @ concat cs)))"
  shows "read_loop buf x (map Ok cs @ rest) = Ok (buf @ concat cs)"
  using assms
proof (induction cs arbitrary: buf x)
  case (Cons c cs)
  let ?buf = "buf @ c"
  obtain x' nb where u: "update_expected ?buf x = (x', nb)" by fastforce
  have comp: "complete_request (?buf @ concat cs) e" using Cons.prems(1) by simp
  then have le: "length (?buf @ concat cs) \<le> MAX_REQUEST_BYTES" by (simp add: complete_request_def)
  note upd = update_expected_complete [OF comp _ u]
  have x: "x = None \<or> x = Some (of_nat (length (?buf @ concat cs)))" using Cons.prems(4) by simp
  have cut: "concat cs = [] \<longleftrightarrow> cs = []" using Cons.prems(2) by auto
  have stop: "(nb \<or> (case x' of Some t \<Rightarrow> of_nat (length ?buf) \<ge> t | None \<Rightarrow> False)) \<longleftrightarrow> cs = []"
  proof -
    have "concat cs = []" if t: "x' = Some t" "t \<le> of_nat (length ?buf)" for t
    proof -
      have "t = of_nat (length (?buf @ concat cs))" using upd(1) [OF x] t(1) by (auto simp del: of_nat_add length_append)
      with t(2) of_nat_u64_le [of "length ?buf" "length (?buf @ concat cs)"] le
      have "length (?buf @ concat cs) = length ?buf" by (simp del: of_nat_add)
      then show ?thesis by simp
    qed
    then show ?thesis unfolding cut [symmetric] using upd(2,3) [OF x] by (rule stop_iff)
  qed
  have "\<not> length ?buf > MAX_REQUEST_BYTES" "c \<noteq> []" using le Cons.prems(2) by auto
  then have "read_loop buf x (map Ok (c # cs) @ rest) = (if cs = [] then Ok ?buf else read_loop ?buf x' (map Ok cs @ rest))"
    by (simp only: list.map append_Cons read_loop.simps if_False Let_def u prod.case stop)
  then show ?case using Cons.IH [OF comp _ _ upd(1) [OF x]] Cons.prems(2) by simp
qed simp

lemma read_complete:
  assumes "complete_request (concat cs) e" and "\<forall>c \<in> set cs. c \<noteq> []"
  shows "read_http_request (map Ok cs @ rest) = (if utf8_valid (concat cs) then Ok (bytes_str (concat cs)) else Err NotUtf8)"
proof -
  have "cs \<noteq> []" using assms(1) by (auto simp: complete_request_def)
  with read_loop_complete [of "[]" cs e None rest] assms have "read_loop [] None (map Ok cs @ rest) = Ok (concat cs)" by simp
  then show ?thesis by (simp add: read_http_request_def)
qed

text \<open>
  How the network cuts a request up does not matter: whatever non-empty pieces a complete
  request arrives in, the node reads exactly its bytes and stops there, without waiting for or
  consuming what comes later, and the body that the endpoint sees consists of exactly the declared
  number of bytes. Invalid UTF-8 is refused, again however it is cut.
\<close>

theorem read_any_pieces:
  assumes "complete_request (concat cs) e" and "\<forall>c \<in> set cs. c \<noteq> []"
  shows "read_http_request (map Ok cs @ rest)
      = (if utf8_valid (concat cs) then Ok (bytes_str (concat cs)) else Err NotUtf8)
    \<and> (\<forall>r. parse_http_request (bytes_str (concat cs)) = Some r \<longrightarrow>
        req_body r = bytes_str (drop (e + 4) (concat cs)) \<and> length (req_body r) = declared_length (concat cs) e)"
proof -
  let ?bs = "concat cs"
  have h: "header_end ?bs = Some e" and len: "length ?bs = e + 4 + declared_length ?bs e"
    using assms(1) by (auto simp: complete_request_def)
  note read_complete [OF assms]
  moreover obtain hd bd where sp: "split_once (crlf @ crlf) (bytes_str ?bs) = Some (hd, bd)" "length hd = e"
    using h header_end_str_bytes [of "bytes_str ?bs"]
    by (cases "split_once (crlf @ crlf) (bytes_str ?bs)") (auto simp: str_bytes_bytes_str)
  moreover have "bytes_str ?bs = hd @ crlf @ crlf @ bd" using split_once_eq [OF sp(1)] by simp
  then have "bd = drop (e + 4) (bytes_str ?bs)" using sp(2) by (simp add: crlf_def)
  ultimately show ?thesis using len
    by (auto simp: parse_http_request_def bytes_str_def drop_map split: list.splits bind_splits)
qed

lemma crlf_chars: "crlf = [CHR 0x0D, CHR 0x0A]" "char_of (13 :: nat) = CHR 0x0D" "char_of (10 :: nat) = CHR 0x0A"
  by (simp_all add: crlf_def char_of_def bit_Suc_0_iff)

definition visible :: "char \<Rightarrow> bool" where
  "visible c \<longleftrightarrow> 32 < (of_char c :: nat) \<and> (of_char c :: nat) < 128"

lemma white_space_visible: "\<forall>w \<in> set white_space. w \<noteq> [] \<and> \<not> visible (hd w) \<and> \<not> visible (last w)"
  by code_simp

lemma match_len_none: "(\<And>w. w \<in> set pats \<Longrightarrow> \<not> starts_with w s) \<Longrightarrow> match_len pats s = 0"
proof -
  assume "\<And>w. w \<in> set pats \<Longrightarrow> \<not> starts_with w s"
  then have "find (\<lambda>w. starts_with w s) pats = None" by (auto simp: find_None_iff)
  then show ?thesis by (simp add: match_len_def)
qed

lemma starts_with_hd: "starts_with w s \<Longrightarrow> w \<noteq> [] \<Longrightarrow> s \<noteq> [] \<and> hd s = hd w"
  by (auto simp: starts_with_iff)

lemma match_len_visible:
  assumes "visible (hd s)"
  shows "match_len white_space s = 0" and "match_len (map rev white_space) s = 0"
  by (rule match_len_none; use white_space_visible assms starts_with_hd in \<open>fastforce simp: hd_rev\<close>)+

lemma trim_visible:
  assumes "visible (hd s)" and "visible (last s)" and "s \<noteq> []"
  shows "trim s = s"
  using assms match_len_visible(1) [of s] match_len_visible(2) [of "rev s"]
  by (simp add: trim_def trim_pats.simps [of _ s] trim_pats.simps [of _ "rev s"] hd_rev)

lemma match_len_blank: "match_len white_space (CHR '' '' # cs) = 1"
  by (simp add: match_len_def white_space_def char_of_def bit_Suc_0_iff)

lemma trim_blank: "trim (CHR '' '' # s) = trim s"
  by (simp add: trim_def trim_pats.simps [of _ "CHR '' '' # s"] match_len_blank)

lemma take_word_visible:
  assumes "\<forall>c \<in> set w. visible c"
  shows "take_word (w @ CHR '' '' # r) = (w, CHR '' '' # r)"
  using assms by (induction w) (simp_all add: match_len_visible match_len_blank)

lemma next_word_visible:
  assumes "\<forall>c \<in> set w. visible c" and "w \<noteq> []"
  shows "next_word (w @ CHR '' '' # r) = Some (w, CHR '' '' # r)" "next_word (CHR '' '' # w @ CHR '' '' # r) = Some (w, CHR '' '' # r)"
proof -
  obtain c cs where w: "w = c # cs" using assms(2) by (cases w) auto
  have "trim_pats white_space (w @ CHR '' '' # r) = w @ CHR '' '' # r"
    using assms w match_len_visible(1) [of "c # cs @ CHR '' '' # r"] by (simp add: trim_pats.simps [of _ "c # cs @ CHR '' '' # r"])
  with w take_word_visible [OF assms(1)] show "next_word (w @ CHR '' '' # r) = Some (w, CHR '' '' # r)" 
    "next_word (CHR '' '' # w @ CHR '' '' # r) = Some (w, CHR '' '' # r)"
    by (simp_all add: next_word_def trim_pats.simps [of _ "CHR '' '' # c # cs @ CHR '' '' # r"] match_len_blank)
qed


definition sample_head :: string where
  "sample_head = ''POST /x HTTP/1.1'' @ crlf @ ''Content-Length: 2''"

lemma sample_lines: "str_lines sample_head = [''POST /x HTTP/1.1'', ''Content-Length: 2'']"
  unfolding str_lines_def sample_head_def crlf_chars by (simp add: chop_cr_def crlf_chars)

lemma ascii_name: "eq_ignore_ascii_case ''Content-Length'' ''content-length''" by code_simp

lemma sample_content_length: "parse_content_length sample_head = Some 2"
proof -
  have "trim '' 2'' = ''2''" by (simp add: trim_blank trim_visible visible_def)
  then show ?thesis
    unfolding parse_content_length_def sample_lines
    by (simp add: ascii_name parse_uint_def digit_val_def)
qed

lemma str_bytes_append: "str_bytes (a @ b) = str_bytes a @ str_bytes b" by (simp add: str_bytes_def)

lemma sample_complete: "complete_request (str_bytes (sample_head @ crlf @ crlf @ ''{}'')) (length sample_head)"
proof -
  have h: "header_end (str_bytes (sample_head @ crlf @ crlf @ ''{}'')) = Some (length sample_head)"
    unfolding header_end_str_bytes sample_head_def crlf_chars by simp
  have "utf8_valid (str_bytes sample_head)" 
    unfolding sample_head_def crlf_chars by (intro utf8_valid_ascii) (simp add: str_bytes_def)
  then have "from_utf8_lossy (str_bytes sample_head) = sample_head"
    by (simp add: from_utf8_lossy_def utf8_lossy_valid bytes_str_str_bytes)
  then have "declared_length (str_bytes (sample_head @ crlf @ crlf @ ''{}'')) (length sample_head) = 2"
    by (simp add: declared_length_def str_bytes_append sample_content_length)
  with h show ?thesis by (simp add: complete_request_def crlf_def sample_head_def MAX_REQUEST_BYTES_def)
qed

theorem read_any_pieces_witness:
  "read_http_request (map Ok [str_bytes (sample_head @ crlf), str_bytes (crlf @ ''{}'')] @ [Err ''closed''])
     = Ok (sample_head @ crlf @ crlf @ ''{}'')"
proof -
  have v: "utf8_valid (str_bytes (sample_head @ crlf @ crlf @ ''{}''))"
    unfolding sample_head_def crlf_chars by (intro utf8_valid_ascii) (simp add: str_bytes_def)
  have c: "concat [str_bytes (sample_head @ crlf), str_bytes (crlf @ ''{}'')] = str_bytes (sample_head @ crlf @ crlf @ ''{}'')"
    by (simp add: str_bytes_append)
  have n: "\<forall>c \<in> set [str_bytes (sample_head @ crlf), str_bytes (crlf @ ''{}'')]. c \<noteq> []"
    by (simp add: str_bytes_def crlf_def)
  show ?thesis
    using read_any_pieces [of "[str_bytes (sample_head @ crlf), str_bytes (crlf @ ''{}'')]" "length sample_head" "[Err ''closed'']",
        unfolded c, OF sample_complete n] v
    unfolding if_P [OF v] bytes_str_str_bytes by blast
qed

section \<open>The invariant\<close>

text \<open>A handler's outcome: it returns, and the node keeps its invariant and its work.\<close>

definition handled_keeps :: "ext \<Rightarrow> ConsensusParams \<Rightarrow> Node \<Rightarrow> handled \<Rightarrow> bool" where
  "handled_keeps X p n h \<longleftrightarrow> (\<exists>n' out r. h = Some (n', out, r) \<and> keeps X p n n')"

named_theorems handled_intros \<open>introduction rules for the outcome of a handler\<close>

lemma reply_keeps [handled_intros]: "keeps X p n n' \<Longrightarrow> handled_keeps X p n (reply n' c b)"
  by (simp add: handled_keeps_def reply_def)

lemma give_up_keeps [handled_intros]: "keeps X p n n' \<Longrightarrow> handled_keeps X p n (give_up n' e)"
  by (simp add: handled_keeps_def give_up_def)

lemma keeps_chain:
  assumes "node_inv X p n" and "reachable X p s" and "node_work n \<le> path_work (canonical_blocks_iter s)"
  shows "keeps X p n (n\<lparr> node_chain := s \<rparr>)"
    and "mempool_inv X pool \<Longrightarrow> keeps X p n (n\<lparr> node_chain := s, node_pool := pool \<rparr>)"
  using assms by (simp_all add: keeps_def node_inv_def)

lemma rpc_state_keeps:
  assumes "digest_len X" and n: "node_inv X p n"
    and "\<And>s. reachable X p s \<Longrightarrow> node_work n \<le> path_work (canonical_blocks_iter s) \<Longrightarrow> handled_keeps X p n (k s)"
  shows "handled_keeps X p n (rpc_state env n k)"
proof (cases "rpc_lock env")
  case None
  have "reachable X p (node_chain n)" using n by (simp add: node_inv_def)
  from reopen_reachable [OF assms(1) this] assms(3) [of "reopen (node_chain n)"] None show ?thesis
    by (simp add: rpc_state_def load_state_def)
next
  case (Some e)
  then show ?thesis using n by (simp add: rpc_state_def load_state_def handled_keeps_def keeps_refl)
qed

lemma rpc_synced_keeps:
  assumes X: "digest_len X" and n: "node_inv X p n"
    and k: "\<And>s. reachable X p s \<Longrightarrow> node_work n \<le> path_work (canonical_blocks_iter s) \<Longrightarrow> handled_keeps X p n (k s)"
  shows "handled_keeps X p n (rpc_synced X p env n k)"
  unfolding rpc_synced_def
proof (rule rpc_state_keeps [OF X n])
  fix s0 assume s0: "reachable X p s0" "node_work n \<le> path_work (canonical_blocks_iter s0)"
  obtain s r where sy: "ensure_utxo_synced X p s0 = (s, r)" by fastforce
  note sr = sync_reachable [OF X s0(1) sy]
  show "handled_keeps X p n (case ensure_utxo_synced X p s0 of
      (s, Err e) \<Rightarrow> give_up (n\<lparr> node_chain := s \<rparr>) (state_error_text e) | (s, Ok _) \<Rightarrow> k s)"
    using k [of s] sr s0 keeps_chain(1) [OF n, of s] by (cases r) (auto simp: sy intro: handled_intros)
qed

lemma revalidate_spec:
  "revalidate X p s h txs extra fees = (extra', fees') \<Longrightarrow>
    \<exists>good gfees. extra' = extra @ good \<and> subseq good txs \<and>
      list_all2 (\<lambda>tx fee. validate_transaction X p (utxo_lookup s) h tx = Ok fee) good gfees \<and> fees' = foldl sat_add fees gfees"
proof (induction txs arbitrary: extra fees)
  case Nil
  then show ?case by simp
next
  case (Cons tx txs)
  have seed: "validate_transaction X p (hm_get (seed_utxos_for_tx s tx)) h tx = validate_transaction X p (utxo_lookup s) h tx"
    unfolding seed_utxos_for_tx_def by (rule tx_view.seeded)
  show ?case
  proof (cases "validate_transaction X p (utxo_lookup s) h tx")
    case (Inl e)
    with Cons seed have "revalidate X p s h txs extra fees = (extra', fees')" by simp
    from Cons.IH [OF this] obtain good gfees where "extra' = extra @ good" "subseq good txs"
      "list_all2 (\<lambda>tx fee. validate_transaction X p (utxo_lookup s) h tx = Ok fee) good gfees"
      "fees' = foldl sat_add fees gfees" by blast
    then show ?thesis by (intro exI [of _ good] exI [of _ gfees]) (simp add: list_emb_Cons)
  next
    case (Inr fee)
    with Cons.prems seed have "revalidate X p s h txs (extra @ [tx]) (sat_add fees fee) = (extra', fees')" by simp
    from Cons.IH [OF this] obtain good gfees where g: "extra' = (extra @ [tx]) @ good" "subseq good txs"
      "list_all2 (\<lambda>tx fee. validate_transaction X p (utxo_lookup s) h tx = Ok fee) good gfees"
      "fees' = foldl sat_add (sat_add fees fee) gfees" by blast
    then show ?thesis using Inr by (intro exI [of _ "tx # good"] exI [of _ "fee # gfees"]) simp
  qed
qed

lemma submitblock_keeps:
  assumes X: "digest_len X" and n: "node_inv X p n" and b: "\<And>b. block_from_json env body = Ok b \<Longrightarrow> wire_block X b"
  shows "handled_keeps X p n (rpc_submitblock X p env body n)"
proof (cases "block_from_json env body")
  case (Inl e)
  then show ?thesis using n by (auto simp: rpc_submitblock_def intro!: handled_intros keeps_refl)
next
  case (Inr b)
  have w: "wire_block X b" using assms(3) Inr by blast
  have pool: "mempool_inv X (node_pool n)" using n by (simp add: node_inv_def)
  have "handled_keeps X p n (rpc_state env n (\<lambda>s0.
            Option.bind (submit_block X p b (rpc_now env) s0) (\<lambda>(s, r).
              case r of
                Ok accepted \<Rightarrow>
                  let (s1, pool, _) = requeue_reorged_transactions X p s (remove_confirmed X (node_pool n) accepted);
                      hash = block_hash X accepted in
                  reply (n\<lparr> node_chain := s1, node_pool := pool \<rparr>) 200
                    (SubmittedBody (height (header accepted)) hash (tip_hash X s1 = hash))
              | Err AlreadyKnown \<Rightarrow> reply (n\<lparr> node_chain := s \<rparr>) 200 (KnownBody (height (header b)) (block_hash X b))
              | Err e \<Rightarrow> give_up (n\<lparr> node_chain := s \<rparr>) (state_error_text e))))" (is "handled_keeps X p n (rpc_state env n ?k)")
  proof (rule rpc_state_keeps [OF X n])
    fix s0 assume s0: "reachable X p s0" "node_work n \<le> path_work (canonical_blocks_iter s0)"
    from submit_reachable [OF X s0(1) w] obtain s r where sub: "submit_block X p b (rpc_now env) s0 = Some (s, r)"
      and s: "reachable X p s" "path_work (canonical_blocks_iter s0) \<le> path_work (canonical_blocks_iter s)" by blast
    have wk: "node_work n \<le> path_work (canonical_blocks_iter s)" using s0(2) s(2) by simp
    note kc = keeps_chain(1) [OF n s(1) wk]
    show "handled_keeps X p n (?k s0)"
    proof (cases r)
      case (Inl e)
      then show ?thesis using kc by (cases e) (auto simp: sub intro: handled_intros)
    next
      case (Inr a)
      obtain s1 pl k where rq: "requeue_reorged_transactions X p s (remove_confirmed X (node_pool n) a) = (s1, pl, k)"
        using prod_cases3 by blast
      note q = requeue_keeps [OF rq]
      have "keeps X p n (n\<lparr> node_chain := s1, node_pool := pl \<rparr>)"
        using keeps_chain(2) [OF n q(2) [OF s(1)]] q(3) [OF remove_confirmed_inv [OF pool]] wk by (simp add: q(1))
      then show ?thesis by (simp add: sub Inr rq Let_def handled_intros)
    qed
  qed
  then show ?thesis unfolding rpc_submitblock_def Inr sum.case .
qed

lemma sendraw_keeps:
  assumes X: "digest_len X" and n: "node_inv X p n"
  shows "handled_keeps X p n (rpc_sendrawtransaction X p env body n)"
proof -
  have "mempool_inv X (node_pool n)" using n by (simp add: node_inv_def)
  note add = mempool_add_inv [OF this]
  show ?thesis
    unfolding rpc_sendrawtransaction_def using n
    by (auto split: sum.split intro!: handled_intros rpc_synced_keeps [OF X] keeps_chain keeps_refl dest: add)
qed

lemma template_returns:
  assumes "digest_len X" and "reachable X p s"
  shows "\<exists>r. candidate_block_with_mempool X p ts miner extra fees s = Some r"
proof -
  from reachable_inv [OF assms] obtain chain where inv: "state_inv X p s chain" by blast
  then have path: "chain_path X (cf_blocks s) (tip_hash X s) chain" and "db_inv X (cf_blocks s)" by (simp_all add: state_inv_def)
  then have "expected_leading_zero_bits_for s p (Some (last chain)) \<noteq> None"
    by (intro expected_bits_returns [OF path]) (simp add: db_inv_def)
  then show ?thesis using inv by (auto simp: candidate_block_with_mempool_def state_inv_def)
qed

lemma template_keeps:
  assumes X: "digest_len X" and n: "node_inv X p n"
  shows "handled_keeps X p n (rpc_getblocktemplate X p env path n)"
proof -
  have "handled_keeps X p n (Option.bind (candidate_block_with_mempool X p ts miner extra fees s) (\<lambda>r. case r of
          Err e \<Rightarrow> give_up (n\<lparr> node_chain := s \<rparr>) (state_error_text e)
        | Ok b \<Rightarrow> reply (n\<lparr> node_chain := s \<rparr>) 200 (f b)))"
    if "reachable X p s" "node_work n \<le> path_work (canonical_blocks_iter s)" for ts miner extra fees s f
    using template_returns [OF X that(1), of ts miner extra fees] keeps_chain(1) [OF n that]
    by (auto split: sum.split intro: handled_intros)
  then show ?thesis
    unfolding rpc_getblocktemplate_def Let_def using n
    by (auto split: prod.split intro!: handled_intros rpc_synced_keeps [OF X] keeps_refl)
qed

lemma getutxos_keeps:
  assumes X: "digest_len X" and n: "node_inv X p n"
  shows "handled_keeps X p n (rpc_getutxos X p env path n)"
  unfolding rpc_getutxos_def Let_def using n
  by (auto split: sum.split option.split intro!: handled_intros rpc_synced_keeps [OF X] keeps_refl keeps_chain)

lemma build_asset_keeps:
  assumes X: "digest_len X" and n: "node_inv X p n"
  shows "handled_keeps X p n (rpc_buildAssetTx X p env body n)"
proof -
  have "handled_keeps X p n (rpc_synced X p env n (\<lambda>s.
      let n1 = n\<lparr> node_chain := s \<rparr>; needed = sat_add c MIN_RELAY_FEE_ATOMS;
          (ins, total_in) = pick_inputs p (height_or_0 s) needed (utxos_for_script s script) [] 0 in
      if total_in < needed then reply n1 400 (e1 total_in needed)
      else case build_outputs X x dest payer total_in MIN_RELAY_FEE_ATOMS of
        Err e \<Rightarrow> reply n1 400 (e2 e)
      | Ok outs \<Rightarrow> reply n1 200 (ok ins outs)))" for c script e1 e2 x dest payer ok
    unfolding Let_def using n
    by (auto split: sum.split prod.split intro!: handled_intros rpc_synced_keeps [OF X] keeps_chain)
  then show ?thesis
    unfolding rpc_buildAssetTx_def using n
    by (auto split: sum.split prod.split intro!: handled_intros keeps_refl)
qed

lemma unban_keeps: "node_inv X p n \<Longrightarrow> handled_keeps X p n (rpc_unban env request path n)"
  by (auto simp: rpc_unban_def Let_def node_inv_def keeps_def bans_ok_def unban_def intro!: handled_intros)

lemma plain_keeps:
  assumes X: "digest_len X" and n: "node_inv X p n"
  shows "handled_keeps X p n (rpc_getblockcount p env n)" "handled_keeps X p n (rpc_getdifficulty env n)"
    "handled_keeps X p n (rpc_getblock X env path n)" "handled_keeps X p n (rpc_getmempoolinfo n)"
    "handled_keeps X p n (rpc_getbanlist env n)"
  unfolding rpc_getblockcount_def rpc_getdifficulty_def rpc_getblock_def rpc_getmempoolinfo_def rpc_getbanlist_def
  using n by (auto split: sum.split option.split intro!: handled_intros keeps_refl rpc_state_keeps [OF X])

lemma dispatch_keeps:
  assumes X: "digest_len X" and n: "node_inv X p n" and b: "\<And>body b. block_from_json env body = Ok b \<Longrightarrow> wire_block X b"
  shows "handled_keeps X p n (dispatch X p env request r n)"
  unfolding dispatch_def Let_def
  using plain_keeps [OF X n] template_keeps [OF X n] submitblock_keeps [OF X n b] sendraw_keeps [OF X n]
    getutxos_keeps [OF X n] build_asset_keeps [OF X n] unban_keeps [OF n] n
  by (auto intro: handled_intros keeps_refl)

lemma serve_rpc_keeps:
  assumes "digest_len X" and "node_inv X p n" and "\<And>body b. block_from_json env body = Ok b \<Longrightarrow> wire_block X b"
  shows "\<exists>n' out. serve_rpc X p env chunks n = Some (n', out) \<and> keeps X p n n'"
proof -
  have "handled_keeps X p n (handle_rpc_stream X p env chunks n)"
    unfolding handle_rpc_stream_def using dispatch_keeps [OF assms] assms(2)
    by (auto split: sum.split read_error.split option.split intro: handled_intros keeps_refl)
  then show ?thesis by (auto simp: serve_rpc_def handled_keeps_def)
qed

text \<open>The node as one system: what can happen to it, in any order.\<close>

datatype node_event =
    Greeting string string surroundings hello_line
  | Message string surroundings "P2pMsg option"
  | Request rpc_env "(bytes, string) result list"

datatype node_answer = Greeted "(P2pHello, string) result" | Replied "P2pMsg list" bool | Responded "rpc_response list"

fun node_step :: "ext \<Rightarrow> ConsensusParams \<Rightarrow> node_event \<Rightarrow> Node \<Rightarrow> (Node \<times> node_answer) option" where
  "node_step X p (Greeting node_id ip env hello) n = Some (apsnd Greeted (handshake X p node_id ip env hello n))"
| "node_step X p (Message ip env line) n = map_option (\<lambda>(n, out, go). (n, Replied out go)) (handle_message X p ip env line n)"
| "node_step X p (Request env chunks) n = map_option (apsnd Responded) (serve_rpc X p env chunks n)"

fun legal_event :: "ext \<Rightarrow> node_event \<Rightarrow> bool" where
  "legal_event X (Greeting node_id ip env hello) = True"
| "legal_event X (Message ip env line) = wire_line X line"
| "legal_event X (Request env chunks) = (\<forall>body b. block_from_json env body = Ok b \<longrightarrow> wire_block X b)"

interpretation rpc_service: node_service X p "\<lambda>(env, chunks). serve_rpc X p env chunks"
    "\<lambda>(env, chunks). digest_len X \<and> (\<forall>body b. block_from_json env body = Ok b \<longrightarrow> wire_block X b)" for X p
  by unfold_locales (use serve_rpc_keeps in fastforce)

interpretation node_system: node_service X p "node_step X p" "\<lambda>ev. digest_len X \<and> legal_event X ev" for X p
proof
  fix n :: Node and ev
  assume n: "node_inv X p n" and l: "digest_len X \<and> legal_event X ev"
  show "\<exists>n' out. node_step X p ev n = Some (n', out) \<and> keeps X p n n'"
  proof (cases ev)
    case (Greeting node_id ip env hello)
    obtain n1 r where h: "handshake X p node_id ip env hello n = (n1, r)" by fastforce
    with handshake_keeps [OF n h] show ?thesis by (simp add: Greeting)
  next
    case (Message ip env line)
    with l handle_message_keeps [OF _ n, of line ip env] show ?thesis by fastforce
  next
    case (Request env chunks)
    with l serve_rpc_keeps [OF _ n, of env chunks] show ?thesis by fastforce
  qed
qed



section \<open>The admin endpoint\<close>

lemma xor_zero_iff: "xor x y = 0 \<longleftrightarrow> x = (y :: u8)"
proof
  assume "xor x y = 0"
  then have "xor (xor x y) y = y" by simp
  then show "x = y" by (simp add: xor.assoc)
qed simp

lemma or_xor_zero_iff: "or d (xor x y) = 0 \<longleftrightarrow> d = 0 \<and> x = (y :: u8)"
  by (metis or_eq_0_iff xor_zero_iff)

lemma diff_loop_zero:
  "length a = length b \<Longrightarrow> foldl (\<lambda>diff (x, y). or diff (xor x y)) d (zip a b) = 0 \<longleftrightarrow> d = 0 \<and> a = (b :: bytes)"
proof (induction a b arbitrary: d rule: list_induct2)
  case (Cons x xs y ys)
  then show ?case by (simp only: zip_Cons_Cons foldl_Cons prod.case or_xor_zero_iff) auto
qed simp

lemma constant_time_eq_iff: "constant_time_eq a b \<longleftrightarrow> a = b"
  using diff_loop_zero [of a b 0] by (auto simp: constant_time_eq_def)

lemma admin_authorized_iff:
  "admin_authorized token request \<longleftrightarrow> (\<exists>t. token = Some t \<and> t \<noteq> [] \<and> header_value request ''x-admin-token'' = Some t)"
  by (auto simp: admin_authorized_def constant_time_eq_iff split: option.split)

text \<open>A handler that leaves the ban list alone.\<close>

definition bans_kept :: "Node \<Rightarrow> handled \<Rightarrow> bool" where
  "bans_kept n h \<longleftrightarrow> (\<forall>n' out r. h = Some (n', out, r) \<longrightarrow> node_bans n' = node_bans n)"

lemma bans_kept_intros:
  "node_bans n' = node_bans n \<Longrightarrow> bans_kept n (reply n' c b)"
  "node_bans n' = node_bans n \<Longrightarrow> bans_kept n (give_up n' e)"
  "(\<And>s. bans_kept n (k s)) \<Longrightarrow> bans_kept n (rpc_state env n k)"
  by (auto simp: bans_kept_def reply_def give_up_def rpc_state_def split: sum.splits)

lemma bans_kept_synced: "(\<And>s. bans_kept n (k s)) \<Longrightarrow> bans_kept n (rpc_synced X p env n k)"
  unfolding rpc_synced_def by (auto intro!: bans_kept_intros split: prod.split sum.split)

lemma bans_kept_bind: "(\<And>x. bans_kept n (k x)) \<Longrightarrow> bans_kept n (Option.bind m k)"
  by (cases m) (auto simp: bans_kept_def)

lemmas bans_kept_rules = bans_kept_intros bans_kept_synced bans_kept_bind

lemma endpoints_keep_bans:
  "bans_kept n (rpc_getblockcount p env n)" "bans_kept n (rpc_getdifficulty env n)"
  "bans_kept n (rpc_getblock X env path n)" "bans_kept n (rpc_getmempoolinfo n)" "bans_kept n (rpc_getbanlist env n)"
  "bans_kept n (rpc_getblocktemplate X p env path n)" "bans_kept n (rpc_sendrawtransaction X p env body n)"
  "bans_kept n (rpc_getutxos X p env path n)"
  unfolding rpc_getblockcount_def rpc_getdifficulty_def rpc_getblock_def rpc_getmempoolinfo_def rpc_getbanlist_def
    rpc_getblocktemplate_def rpc_sendrawtransaction_def rpc_getutxos_def Let_def
  by (auto intro!: bans_kept_rules split: sum.split option.split prod.split)

lemma submit_keeps_bans: "bans_kept n (rpc_submitblock X p env body n)"
  unfolding rpc_submitblock_def Let_def
  by (auto intro!: bans_kept_rules split: sum.split prod.split StateError.split)

lemma build_keeps_bans: "bans_kept n (rpc_buildAssetTx X p env body n)"
  unfolding rpc_buildAssetTx_def Let_def by (auto intro!: bans_kept_rules split: sum.split prod.split)

lemma dispatch_bans:
  assumes "dispatch X p env request r n = Some (n', out, res)" and "node_bans n' \<noteq> node_bans n"
  shows "admin_authorized (admin_token env) request"
proof (rule ccontr)
  assume "\<not> admin_authorized (admin_token env) request"
  then have "bans_kept n (rpc_unban env request path n)" for path by (simp add: rpc_unban_def bans_kept_intros)
  then have "bans_kept n (dispatch X p env request r n)"
    unfolding dispatch_def Let_def by (auto intro: endpoints_keep_bans submit_keeps_bans build_keeps_bans bans_kept_intros)
  with assms show False by (auto simp: bans_kept_def)
qed

text \<open>
  Only the holder of the admin token can touch the ban list: if a request changes it, then the
  node has a non-empty token configured and the request carries exactly that token in its
  \<open>X-Admin-Token\<close> header. Without a configured token no request can. The byte-wise comparison that
  does not stop early accepts exactly equal strings.
\<close>

theorem unban_needs_token:
  assumes "serve_rpc X p env chunks n = Some (n', out)" and "node_bans n' \<noteq> node_bans n"
  shows "\<exists>request t. read_http_request chunks = Ok request \<and> admin_token env = Some t \<and> t \<noteq> [] \<and>
    header_value request ''x-admin-token'' = Some t"
proof -
  from assms(1) obtain out1 r1 where h: "handle_rpc_stream X p env chunks n = Some (n', out1, r1)"
    by (auto simp: serve_rpc_def)
  then obtain request r where rd: "read_http_request chunks = Ok request" and d: "dispatch X p env request r n = Some (n', out1, r1)"
    using assms(2) by (auto simp: handle_rpc_stream_def give_up_def split: sum.splits read_error.splits option.splits)
  from dispatch_bans [OF d assms(2)] rd show ?thesis by (auto simp: admin_authorized_iff)
qed


definition unban_head :: string where
  "unban_head = ''GET /unban/10.0.0.1 HTTP/1.1'' @ crlf @ ''X-Admin-Token: s3''"

lemma unban_lines: "str_lines unban_head = [''GET /unban/10.0.0.1 HTTP/1.1'', ''X-Admin-Token: s3'']"
  unfolding str_lines_def unban_head_def crlf_chars by (simp add: chop_cr_def crlf_chars)

lemma unban_split: "split_once (crlf @ crlf) (unban_head @ crlf @ crlf) = Some (unban_head, [])"
  unfolding unban_head_def crlf_chars by simp

lemma unban_token: "header_value (unban_head @ crlf @ crlf) ''x-admin-token'' = Some ''s3''"
proof -
  have "eq_ignore_ascii_case ''X-Admin-Token'' ''x-admin-token''" by code_simp
  moreover have "trim '' s3'' = ''s3''" "trim ''X-Admin-Token'' = ''X-Admin-Token''"
    by (simp_all add: trim_blank trim_visible visible_def)
  ultimately show ?thesis unfolding header_value_def unban_split by (simp add: unban_lines)
qed

lemma unban_parse:
  "parse_http_request (unban_head @ crlf @ crlf) = Some \<lparr> req_method = ''GET'', req_path = ''/unban/10.0.0.1'', req_body = [] \<rparr>"
proof -
  have l: "\<exists>ls. str_lines (unban_head @ crlf @ crlf) = ''GET /unban/10.0.0.1 HTTP/1.1'' # ls"
    unfolding str_lines_def unban_head_def crlf_chars by (simp add: chop_cr_def crlf_chars)
  have "next_word ''GET /unban/10.0.0.1 HTTP/1.1'' = Some (''GET'', '' /unban/10.0.0.1 HTTP/1.1'')"
    using next_word_visible(1) [of "''GET''" "''/unban/10.0.0.1 HTTP/1.1''"] by (simp add: visible_def)
  moreover have "next_word '' /unban/10.0.0.1 HTTP/1.1'' = Some (''/unban/10.0.0.1'', '' HTTP/1.1'')"
    using next_word_visible(2) [of "''/unban/10.0.0.1''" "''HTTP/1.1''"] by (simp add: visible_def)
  ultimately show ?thesis using l by (auto simp: parse_http_request_def unban_split)
qed


lemma unban_read: "read_http_request [Ok (str_bytes (unban_head @ crlf @ crlf))] = Ok (unban_head @ crlf @ crlf)"
proof -
  have v: "utf8_valid (str_bytes (unban_head @ crlf @ crlf))" "utf8_valid (str_bytes unban_head)"
    unfolding unban_head_def crlf_chars by (intro utf8_valid_ascii; simp add: str_bytes_def)+
  have "parse_content_length unban_head = None"
    unfolding parse_content_length_def unban_lines by (simp add: eq_ignore_ascii_case_def)
  then have "declared_length (str_bytes (unban_head @ crlf @ crlf)) (length unban_head) = 0"
    by (simp add: declared_length_def str_bytes_append from_utf8_lossy_def utf8_lossy_valid [OF v(2)] bytes_str_str_bytes)
  moreover have "header_end (str_bytes (unban_head @ crlf @ crlf)) = Some (length unban_head)"
    unfolding header_end_str_bytes unban_split by simp
  ultimately have "complete_request (str_bytes (unban_head @ crlf @ crlf)) (length unban_head)"
    by (simp add: complete_request_def crlf_def unban_head_def MAX_REQUEST_BYTES_def)
  moreover have "str_bytes (unban_head @ crlf @ crlf) \<noteq> []" by (simp add: str_bytes_def crlf_def)
  ultimately show ?thesis
    using read_complete [of "[str_bytes (unban_head @ crlf @ crlf)]" "length unban_head" "[]"] v(1)
    by (simp add: bytes_str_str_bytes)
qed

definition admin_env :: rpc_env where
  "admin_env = \<lparr> rpc_now = 100, rpc_lock = None, admin_token = Some ''s3'', block_from_json = (\<lambda>_. Err []),
     tx_from_json = (\<lambda>_. Err []), request_from_json = (\<lambda>_. Err []), ask_indexer = (\<lambda>_. Err []) \<rparr>"

lemma unban_served:
  "serve_rpc peek_ext MAINNET admin_env [Ok (str_bytes (unban_head @ crlf @ crlf))] banned_node
     = Some (banned_node\<lparr> node_bans := [] \<rparr>, [(200, UnbannedBody ''10.0.0.1'' True)])"
proof -
  have "admin_authorized (Some ''s3'') (unban_head @ crlf @ crlf)" unfolding admin_authorized_iff using unban_token by simp
  moreover have "trim_start_matches ''/unban/'' ''/unban/10.0.0.1'' = ''10.0.0.1''" by (simp add: trim_start_matches.simps)
  ultimately have "dispatch peek_ext MAINNET admin_env (unban_head @ crlf @ crlf)
      \<lparr> req_method = ''GET'', req_path = ''/unban/10.0.0.1'', req_body = [] \<rparr> banned_node
    = reply (banned_node\<lparr> node_bans := [] \<rparr>) 200 (UnbannedBody ''10.0.0.1'' True)"
    by (simp add: dispatch_def rpc_unban_def admin_env_def banned_node_def unban_def)
  then show ?thesis by (simp add: serve_rpc_def handle_rpc_stream_def unban_read unban_parse reply_def)
qed

theorem unban_needs_token_witness:
  "\<exists>request t. read_http_request [Ok (str_bytes (unban_head @ crlf @ crlf))] = Ok request \<and> admin_token admin_env = Some t \<and>
     header_value request ''x-admin-token'' = Some t"
proof -
  have "node_bans (banned_node\<lparr> node_bans := [] \<rparr>) \<noteq> node_bans banned_node" by (simp add: banned_node_def)
  from unban_needs_token [OF unban_served this] show ?thesis by blast
qed

section \<open>A locked database\<close>

text \<open>
  While another thread holds the database, a request is answered twice: \<open>rpc_state\<close> writes 503 and
  returns the error, and \<open>serve_rpc\<close> answers the error with 500.
\<close>

lemma locked_answers_twice:
  assumes "read_http_request chunks = Ok request" and "parse_http_request request = Some r"
    and "req_method r = ''GET''" and "req_path r = ''/getdifficulty''" and "rpc_lock env = Some e"
  shows "\<exists>busy. serve_rpc X p env chunks n = Some (n, [(503, ErrorBody busy), (500, ErrorBody e)])"
  using assms by (simp add: serve_rpc_def handle_rpc_stream_def dispatch_def rpc_getdifficulty_def rpc_state_def load_state_def)

end
