(* ===== verification/Mining_Liveness.thy ===== *)
theory Mining_Liveness
  imports Rpc_Safety
begin

text \<open>
  Mining through the RPC interface: a block that extends the tip and passes the checks is always
  adopted (the work strictly grows), and what \<open>/getblocktemplate\<close> hands out passes them. The theorem
  composes the mempool's selection, the revalidation against the UTXO set, the block builder, the
  difficulty rule, block validation and fork choice.
\<close>

section \<open>A block on the tip\<close>

lemma unat_fold_work:
  "unat (fold (\<lambda>b w. sat_add w (block_work b)) bs w0) = min (unat w0 + sum_list (map (unat \<circ> block_work) bs)) (2 ^ 128 - 1)"
proof (induction bs arbitrary: w0)
  case Nil
  have "unat w0 < 2 ^ 128" using unsigned_less [of w0, where ?'a = nat] by simp
  then show ?case by simp
next
  case (Cons b bs)
  then show ?case by (simp add: unat_sat_add)
qed

lemma unat_path_work: "unat (path_work chain) = min (sum_list (map (unat \<circ> block_work) chain)) (2 ^ 128 - 1)"
proof -
  have "sum_list (map (unat \<circ> block_work) (rev chain)) = sum_list (map (unat \<circ> block_work) chain)"
    by (metis rev_map sum_list_rev)
  then show ?thesis by (simp add: path_work_def unat_fold_work)
qed

lemma block_work_pos: "0 < unat (block_work b)"
proof -
  have "bit (block_work b) (unat (leading_zero_bits (header b)) mod 128)"
    by (simp add: block_work_def bit_simps)
  then have "block_work b \<noteq> 0" by auto
  then show ?thesis by (simp add: unat_gt_0)
qed

lemma path_work_snoc:
  assumes "unat (path_work chain) < 2 ^ 128 - 1"
  shows "path_work chain < path_work (chain @ [b])"
  unfolding word_less_nat_alt unat_path_work
  using assms block_work_pos [of b] by (simp add: unat_path_work)

lemma extending_block_accepted:
  assumes X: "digest_len X" and inv: "state_inv X p s chain" and sync: "synced X p s chain"
    and b: "block_ok b" and nz: "block_hash X b \<noteq> ZERO" and fresh: "\<not> block_known s (block_hash X b)"
    and prev: "previous_hash (header b) = tip_hash X s"
    and bits: "expected_leading_zero_bits_for s p (Some (last chain)) = Some bits"
    and val: "validate_block X p (Some (last chain)) b now bits (epoch_seed_for_height X s (height (header b))) = Ok ()"
    and pos: "height (header b) \<noteq> 0"
    and app: "\<And>uset. replay_utxo_from X p [] chain = Ok uset \<Longrightarrow> utxo_is s uset \<Longrightarrow> \<exists>m. apply_block X p uset b = Ok m"
    and work: "unat (path_work chain) < 2 ^ 128 - 1"
  shows "\<exists>s'. submit_block X p b now s = Some (s', Ok b) \<and> state_inv X p s' (chain @ [b]) \<and> last_disconnected s' = []"
proof -
  let ?s2 = "s\<lparr> cf_blocks := hm_insert (hash_bytes (block_hash X b)) b (cf_blocks s) \<rparr>"
  let ?s3 = "?s2\<lparr> last_disconnected := [] \<rparr>"
  have db: "db_inv X (cf_blocks s)" and path: "chain_path X (cf_blocks s) (tip_hash X s) chain"
    and tip: "tip_cache s = Some (last chain)" using inv by (simp_all add: state_inv_def)
  have none: "hm_get (cf_blocks s) (hash_bytes (block_hash X b)) = None" using fresh by (simp add: block_known_def)
  have "height (header b) = 1 + height (header (last chain))" using val by (simp add: validate_block_Ok_iff next_height_def)
  then have "unat (height (header b)) = Suc (unat (height (header (last chain))))" using pos by (simp add: unatSuc)
  then have len: "unat (height (header b)) = length chain" using chain_path_last [OF path] by (cases chain) auto
  note ins = db_inv_insert [OF db none nz b path [folded prev] len]
  have store: "state_inv X p ?s2 chain" "tip_hash X ?s2 = tip_hash X s" "synced X p ?s2 chain"
    using state_inv_store [OF inv none] ins sync by auto
  have w: "chain_work ?s2 (block_hash X b) = Some (path_work (chain @ [b]))" "chain_work ?s2 (tip_hash X s) = Some (path_work chain)"
    using ins store(1) by (auto intro!: chain_work_path simp: state_inv_def store(2))
  have fc: "fork_choice X p b ?s2 = Some (extend_tip X p b ?s3)"
    using path_work_snoc [OF work, of b] by (simp add: fork_choice_def Let_def store(2) w prev)
  from sync obtain uset where u: "replay_utxo_from X p [] chain = Ok uset" "utxo_is s uset" by (auto simp: synced_def)
  have "utxo_is ?s3 uset" using u(2) by (simp add: utxo_is_def utxo_get_def)
  moreover have "apply_block X p uset b = Ok (apply_delta b uset)"
    using app [OF u] by (metis apply_block_OkE)
  ultimately have vbu: "validate_block_utxo X p ?s3 b = Ok ()" using validate_block_utxo_iff [OF _ b] by blast
  obtain s' r where ex: "extend_tip X p b ?s3 = (s', r)" by fastforce
  with vbu have r: "r = Ok b" by (auto simp: extend_tip_def Let_def)
  have "state_inv X p s' (chain @ [b])"
    using extend_tip_inv [OF X _ _ b _ ex, of chain] store ins r by auto
  moreover have "last_disconnected s' = []" using extend_tip_disconnected [OF ex] by simp
  moreover have "ensure_utxo_synced X p s = (s, Ok ())"
    using sync by (simp add: ensure_utxo_synced_def tip synced_def tip_hash_def)
  moreover have "get_block_by_hash s (tip_hash X s) = Some (last chain)"
    using chain_path_last [OF path] by (simp add: get_block_by_hash_def)
  ultimately show ?thesis using fresh bits val fc ex r by (auto simp: submit_block_def prev)
qed

section \<open>Templates\<close>

lemma expected_bits_reopened:
  "expected_leading_zero_bits_for (s\<lparr> last_disconnected := d \<rparr>) p parent = expected_leading_zero_bits_for s p parent"
proof -
  have "cf_blocks (s\<lparr> last_disconnected := d \<rparr>) = cf_blocks s" by simp
  then show ?thesis by (simp only: expected_leading_zero_bits_for_def)
qed

lemma spent_outpoints_subseq: "subseq txs txs' \<Longrightarrow> subseq (spent_outpoints txs) (spent_outpoints txs')"
  unfolding spent_outpoints_refs by (induction rule: list_emb.induct) (auto intro: list_emb_append_mono subseq_append' simp: list_emb_append2)

lemma template_applies:
  assumes pool: "mempool_inv X pool"
    and rv: "revalidate X p s h (fst (select_for_block pool)) [] 0 = (extra, fees)"
    and uset: "utxo_is s uset" and h: "h = height (header parent)" and nz: "h + 1 \<noteq> 0"
    and ok: "\<forall>tx \<in> set extra. \<forall>op \<in> set (tx_refs tx). outpoint_ok op"
    and b: "transactions b = transactions (candidate_block_for X p (Some parent) ts miner extra fees)" "height (header b) = h + 1"
  shows "\<exists>m. apply_block X p uset b = Ok m"
proof -
  from revalidate_spec [OF rv] obtain gfees where sub: "subseq extra (fst (select_for_block pool))"
    and val: "list_all2 (\<lambda>tx fee. validate_transaction X p (utxo_lookup s) h tx = Ok fee) extra gfees"
    and fees: "fees = sat_sum gfees" by (auto simp: sat_sum_def)
  have "distinct (spent_outpoints (fst (select_for_block pool)))"
    using select_for_block_inv [OF pool] by (simp add: spent_outpoints_refs comp_def)
  then have dist: "distinct (spent_outpoints extra)" using spent_outpoints_subseq [OF sub] by (metis subseq_conv_nths distinct_nthsI)
  have hh: "h \<le> h + 1" using nz using unatSuc [of h] by (simp add: word_le_nat_alt add.commute)
  have "validate_transaction X p (hm_get uset) (h + 1) tx = Ok fee"
    if "tx \<in> set extra" and v: "validate_transaction X p (utxo_lookup s) h tx = Ok fee" for tx fee
  proof -
    have "validate_transaction X p (hm_get uset) h tx = validate_transaction X p (utxo_lookup s) h tx"
      using uset ok that(1) by (intro tx_view.agree) (auto simp: utxo_is_def utxo_lookup_def)
    with v show ?thesis by (intro validate_transaction_later [OF _ hh]) simp
  qed
  with val have "list_all2 (\<lambda>tx fee. validate_transaction X p (hm_get uset) (h + 1) tx = Ok fee) extra gfees"
    by (auto intro: list.rel_mono_strong)
  moreover have "transactions b = coinbase X (h + 1) (sat_add (reward_at_height p (h + 1)) fees) miner # extra"
    using nz b h by (simp add: candidate_block_for_def Let_def next_height_def)
  ultimately show ?thesis using dist nz
    unfolding apply_block_ok_iff b(2)
    by (intro exI [of _ "coinbase X (h + 1) (sat_add (reward_at_height p (h + 1)) fees) miner"] exI [of _ extra] exI [of _ gfees])
      (simp add: total_output_coinbase max_coinbase_atoms_def has_genesis_premint_def fees)
qed


text \<open>What a successful answer of the template endpoint says.\<close>

lemma template_answer:
  assumes X: "digest_len X" and n: "node_inv X p n"
    and t: "rpc_getblocktemplate X p env path n = Some (n1, [(200, TemplateBody ci h prv bits seed k b)], Ok ())"
  obtains s chain miner extra fees where "state_inv X p s chain" and "synced X p s chain" and "n1 = n\<lparr> node_chain := s \<rparr>"
    and "path_work chain = node_work n" and "cf_blocks s = cf_blocks (node_chain n)"
    and "revalidate X p s (height (header (last chain))) (fst (select_for_block (node_pool n))) [] 0 = (extra, fees)"
    and "expected_leading_zero_bits_for s p (Some (last chain)) = Some bits"
    and "b = (candidate_block_for X p (Some (last chain)) (rpc_now env) miner extra fees)
      \<lparr> header := (header (candidate_block_for X p (Some (last chain)) (rpc_now env) miner extra fees))\<lparr> leading_zero_bits := bits \<rparr> \<rparr>"
    and "h = height (header (last chain)) + 1" and "seed = epoch_seed_for_height X s h"
    and "chain = canonical_blocks_iter (node_chain n)"
proof -
  have "reachable X p (node_chain n)" using n by (simp add: node_inv_def)
  from reachable_inv [OF X this] obtain chain where inv0: "state_inv X p (node_chain n) chain" by blast
  let ?s0 = "(node_chain n)\<lparr> last_disconnected := [] \<rparr>"
  have ro: "reopen (node_chain n) = ?s0" by (rule reopen_inv [OF X inv0])
  have inv1: "state_inv X p ?s0 chain" using inv0 by simp
  obtain s r where sy: "ensure_utxo_synced X p ?s0 = (s, r)" by fastforce
  note e = ensure_utxo_synced_inv [OF X inv1 sy]
  let ?miner = "trim_start_matches ''/getblocktemplate/'' path"
  obtain extra fees where rv: "revalidate X p s (height_or_0 s) (fst (select_for_block (node_pool n))) [] 0 = (extra, fees)" by fastforce
  have tip: "tip_cache s = Some (last chain)" "height_cache s = Some (height (header (last chain)))" using e by (simp_all add: state_inv_def)
  from t have "rpc_lock env = None" "r = Ok ()" "?miner \<noteq> []"
    by (auto simp: rpc_getblocktemplate_def Let_def rpc_synced_def rpc_state_def load_state_def reply_def give_up_def ro sy
        split: if_splits option.splits sum.splits)
  from t obtain z where z: "expected_leading_zero_bits_for s p (Some (last chain)) = Some z"
    using \<open>r = Ok ()\<close> rv tip \<open>rpc_lock env = None\<close> \<open>?miner \<noteq> []\<close>
    by (cases "expected_leading_zero_bits_for s p (Some (last chain))")
      (simp_all add: rpc_getblocktemplate_def rpc_synced_def rpc_state_def load_state_def ro sy candidate_block_with_mempool_def)
  let ?c = "candidate_block_for X p (Some (last chain)) (rpc_now env) ?miner extra fees"
  have "rpc_getblocktemplate X p env path n = reply (n\<lparr> node_chain := s \<rparr>) 200
      (TemplateBody (params_chain_id p) (height (header ?c)) (previous_hash (header ?c)) z
        (epoch_seed_for_height X s (height (header ?c))) (length (transactions ?c)) (?c\<lparr> header := (header ?c)\<lparr> leading_zero_bits := z \<rparr> \<rparr>))"
    using \<open>r = Ok ()\<close> rv tip \<open>rpc_lock env = None\<close> \<open>?miner \<noteq> []\<close> z
    by (simp add: rpc_getblocktemplate_def rpc_synced_def rpc_state_def load_state_def ro sy candidate_block_with_mempool_def Let_def)
  with t z have "n1 = n\<lparr> node_chain := s \<rparr>" "expected_leading_zero_bits_for s p (Some (last chain)) = Some bits"
    and b: "b = ?c\<lparr> header := (header ?c)\<lparr> leading_zero_bits := bits \<rparr> \<rparr>"
    and hs: "h = height (header b)" "seed = epoch_seed_for_height X s (height (header b))"
    by (auto simp: reply_def)
  moreover have "path_work chain = node_work n"
    using canonical_blocks_iter_chain [OF X inv0] by simp
  moreover have "height (header b) = height (header (last chain)) + 1" by (simp add: b candidate_header next_height_def)
  moreover have "height_or_0 s = height (header (last chain))" by (simp add: height_or_0_def tip)
  ultimately show ?thesis
    using that [of s chain extra fees ?miner] e rv \<open>r = Ok ()\<close> hs canonical_blocks_iter_chain [OF X inv0] by force
qed


text \<open>A template completed with a nonce that meets the work is accepted.\<close>

lemma template_mined:
  assumes X: "digest_len X" and n: "node_inv X p n"
    and t: "rpc_getblocktemplate X p env path n = Some (n1, [(200, TemplateBody ci h prv bits seed k b)], Ok ())"
    and m: "m = b\<lparr> header := (header b)\<lparr> nonce := nn \<rparr> \<rparr>" and pow: "header_meets_work X (header m) seed"
    and js: "block_from_json env2 body = Ok m" and lk: "rpc_lock env2 = None"
    and time: "rpc_now env \<le> rpc_now env2 + max_future_block_time_seconds p"
    and ok: "block_ok m" "block_hash X m \<noteq> ZERO" "\<not> block_known (node_chain n) (block_hash X m)"
    and room: "h \<noteq> 0" "unat (node_work n) < 2 ^ 128 - 1"
  shows "\<exists>n2. rpc_submitblock X p env2 body n1 = Some (n2, [(200, SubmittedBody h (block_hash X m) True)], Ok ())
    \<and> canonical_blocks_iter (node_chain n2) = canonical_blocks_iter (node_chain n) @ [m]
    \<and> node_pool n2 = remove_confirmed X (node_pool n) m"
proof -
  from template_answer [OF X n t] obtain s chain miner extra fees where inv: "state_inv X p s chain" and sync: "synced X p s chain"
    and n1: "n1 = n\<lparr> node_chain := s \<rparr>" and work: "path_work chain = node_work n" and blocks: "cf_blocks s = cf_blocks (node_chain n)"
    and rv: "revalidate X p s (height (header (last chain))) (fst (select_for_block (node_pool n))) [] 0 = (extra, fees)"
    and bits: "expected_leading_zero_bits_for s p (Some (last chain)) = Some bits"
    and b: "b = (candidate_block_for X p (Some (last chain)) (rpc_now env) miner extra fees)
      \<lparr> header := (header (candidate_block_for X p (Some (last chain)) (rpc_now env) miner extra fees))\<lparr> leading_zero_bits := bits \<rparr> \<rparr>"
    and h: "h = height (header (last chain)) + 1" and seed: "seed = epoch_seed_for_height X s h" and same: "chain = canonical_blocks_iter (node_chain n)" .
  let ?c = "candidate_block_for X p (Some (last chain)) (rpc_now env) miner extra fees"
  let ?s = "s\<lparr> last_disconnected := [] \<rparr>"
  have ms: "m = sealed ?c bits nn" by (simp add: m b sealed_def)
  have hm: "height (header m) = h" "previous_hash (header m) = tip_hash X s" "transactions m = transactions ?c"
    using inv by (simp_all add: ms sealed_def candidate_header next_height_def h state_inv_def tip_hash_def)
  have val: "validate_block X p (Some (last chain)) m (rpc_now env2) bits seed = Ok ()"
    unfolding ms using pow time by (intro sealed_validates) (simp_all add: ms)
  obtain cb where "transactions ?c = cb # extra" using candidate_block_for_txs [of X p "Some (last chain)" "rpc_now env" miner extra fees] by blast
  then have refs: "\<forall>tx \<in> set extra. \<forall>op \<in> set (tx_refs tx). outpoint_ok op"
    using ok(1) hm(3) by (auto simp: block_ok_def tx_refs_def)
  have pool: "mempool_inv X (node_pool n)" using n by (simp add: node_inv_def)
  have reconnect: "epoch_seed_for_height X ?s h = epoch_seed_for_height X s h"
    by (simp add: epoch_seed_for_height_def get_block_by_height_def get_block_by_hash_def [abs_def] Let_def)
  have "\<exists>s'. submit_block X p m (rpc_now env2) ?s = Some (s', Ok m) \<and> state_inv X p s' (chain @ [m]) \<and> last_disconnected s' = []"
  proof (rule extending_block_accepted [OF X])
    show "\<exists>m'. apply_block X p uset m = Ok m'" if "utxo_is ?s uset" for uset
      using that room(1) hm refs
      by (intro template_applies [OF pool rv, of uset "last chain" m "rpc_now env" miner]) (simp_all add: h utxo_is_def utxo_get_def)
    show "\<not> block_known ?s (block_hash X m)" using ok(3) by (simp add: block_known_def blocks)
    show "validate_block X p (Some (last chain)) m (rpc_now env2) bits (epoch_seed_for_height X ?s (height (header m))) = Ok ()"
      using val seed reconnect by (simp add: hm)
    show "expected_leading_zero_bits_for ?s p (Some (last chain)) = Some bits"
      using bits by (simp only: expected_bits_reopened)
  qed (use inv sync ok room work hm in simp_all)
  then obtain s' where sub: "submit_block X p m (rpc_now env2) ?s = Some (s', Ok m)" and inv': "state_inv X p s' (chain @ [m])"
    and ld: "last_disconnected s' = []" by blast
  have th: "tip_hash X s' = block_hash X m" using inv' by (simp add: state_inv_def tip_hash_def)
  have rq: "requeue_reorged_transactions X p s' pl = (s'\<lparr> last_disconnected := [] \<rparr>, pl, 0)" for pl
    by (simp add: requeue_reorged_transactions_def take_reorg_requeue_candidates_def ld)
  have "rpc_submitblock X p env2 body n1 = reply (n1\<lparr> node_chain := s'\<lparr> last_disconnected := [] \<rparr>, node_pool := remove_confirmed X (node_pool n) m \<rparr>)
      200 (SubmittedBody h (block_hash X m) True)"
    by (simp add: rpc_submitblock_def js rpc_state_def load_state_def lk n1 reopen_inv [OF X inv] sub rq th hm)
  moreover have "canonical_blocks_iter (s'\<lparr> last_disconnected := [] \<rparr>) = chain @ [m]"
    using inv' by (intro canonical_blocks_iter_chain [OF X]) simp
  ultimately show ?thesis by (simp add: reply_def same)
qed

text \<open>
  C5. Miners are not misled: the block that \<open>/getblocktemplate\<close> hands out, completed with any nonce
  that meets the work, is accepted by \<open>/submitblock\<close> on the node's next turn and becomes the tip,
  whatever the mempool held; the answer says so, and the canonical chain is the old one with that
  block. (The block must be new, its clock at most the permitted drift ahead, and neither the height
  nor the accumulated work at the end of its range.)
\<close>

theorem mined_template_accepted:
  assumes X: "digest_len X" and n: "node_inv X p n"
    and t: "rpc_getblocktemplate X p env path n = Some (n1, [(200, TemplateBody ci h prv bits seed k b)], Ok ())"
    and m: "m = b\<lparr> header := (header b)\<lparr> nonce := nn \<rparr> \<rparr>" and pow: "header_meets_work X (header m) seed"
    and js: "block_from_json env2 body = Ok m" and lk: "rpc_lock env2 = None"
    and time: "rpc_now env \<le> rpc_now env2 + max_future_block_time_seconds p"
    and ok: "block_ok m" "block_hash X m \<noteq> ZERO" "\<not> block_known (node_chain n) (block_hash X m)"
    and room: "h \<noteq> 0" "unat (node_work n) < 2 ^ 128 - 1"
  shows "\<exists>n2. rpc_submitblock X p env2 body n1 = Some (n2, [(200, SubmittedBody h (block_hash X m) True)], Ok ())
    \<and> canonical_blocks_iter (node_chain n2) = canonical_blocks_iter (node_chain n) @ [m]
    \<and> node_pool n2 = remove_confirmed X (node_pool n) m"
  by (rule template_mined [OF assms])


definition mined_block :: Block where
  "mined_block = sealed (candidate_block_for peek_ext MAINNET (Some peek_genesis) 1060 ''m'' [] 0) 42 9"

definition mining_env :: rpc_env where
  "mining_env = admin_env\<lparr> rpc_now := 1060, block_from_json := (\<lambda>_. Ok mined_block) \<rparr>"

lemma peek_bits: "expected_leading_zero_bits_for s MAINNET (Some peek_genesis) = Some 42"
  by (simp add: expected_leading_zero_bits_for_def next_height_def expected_leading_zero_bits_def
      peek_genesis_header) (simp add: expected_leading_zero_bits_def mainnet_defs)

lemma peek_template:
  "\<exists>n1 ci prv seed k. rpc_getblocktemplate peek_ext MAINNET mining_env ''/getblocktemplate/m'' peek_node
     = Some (n1, [(200, TemplateBody ci 1 prv 42 seed k (sealed (candidate_block_for peek_ext MAINNET (Some peek_genesis) 1060 ''m'' [] 0) 42 0))], Ok ())"
proof -
  have "last_disconnected peek_state = []" by (simp add: peek_state_def install_tip_fields new_state_def)
  then have ro: "reopen peek_state = peek_state" using reopen_inv [OF peek_digest_len peek_inv] by simp
  have tip: "tip_cache peek_synced = Some peek_genesis" using peek_sync by (simp add: state_inv_def)
  have path: "trim_start_matches ''/getblocktemplate/'' ''/getblocktemplate/m'' = ''m''" by (simp add: trim_start_matches.simps)
  have sel: "fst (select_for_block []) = []" using select_for_block_inv(1,2) [OF mempool_inv_empty] by simp
  have c: "height (header (candidate_block_for peek_ext MAINNET (Some peek_genesis) 1060 ''m'' [] 0)) = 1"
    "nonce (header (candidate_block_for peek_ext MAINNET (Some peek_genesis) 1060 ''m'' [] 0)) = 0"
    by (simp_all add: candidate_block_for_def Let_def next_height_def peek_genesis_header)
  show ?thesis
    by (simp add: rpc_getblocktemplate_def path rpc_synced_def rpc_state_def load_state_def mining_env_def admin_env_def
        peek_node_def ro peek_ensure sel candidate_block_with_mempool_def tip peek_bits Let_def reply_def c sealed_def)
qed

theorem mined_template_accepted_witness:
  "\<exists>n1 n2. rpc_submitblock peek_ext MAINNET mining_env [] n1
      = Some (n2, [(200, SubmittedBody 1 (block_hash peek_ext mined_block) True)], Ok ())
    \<and> canonical_blocks_iter (node_chain n2) = [peek_genesis, mined_block]"
proof -
  let ?b = "sealed (candidate_block_for peek_ext MAINNET (Some peek_genesis) 1060 ''m'' [] 0) 42 0"
  from peek_template obtain n1 ci prv seed k where t: "rpc_getblocktemplate peek_ext MAINNET mining_env ''/getblocktemplate/m'' peek_node
    = Some (n1, [(200, TemplateBody ci 1 prv 42 seed k ?b)], Ok ())" by blast
  have m: "mined_block = ?b\<lparr> header := (header ?b)\<lparr> nonce := 9 \<rparr> \<rparr>" by (simp add: mined_block_def sealed_def)
  have hd: "chain_id (header mined_block) = ''tensorium-mainnet''" "height (header mined_block) = 1"
    by (simp_all add: mined_block_def sealed_def candidate_header next_height_def peek_genesis_header) (simp add: mainnet_defs)
  have ok: "block_ok mined_block" unfolding mined_block_def by (rule sealed_block_ok) simp
  have new: "\<not> block_known (node_chain peek_node) (block_hash peek_ext mined_block)"
    by (rule peek_not_known) (simp_all add: hd peek_node_def)
  have iter: "canonical_blocks_iter (node_chain peek_node) = [peek_genesis]"
    unfolding peek_node_def using canonical_blocks_iter_chain [OF peek_digest_len peek_inv] by simp
  have room: "unat (path_work (canonical_blocks_iter (node_chain peek_node))) < 2 ^ 128 - 1"
    unfolding iter by (simp add: path_work_def block_work_def peek_genesis_header)
  show ?thesis
    using mined_template_accepted [OF peek_digest_len peek_node_inv(1) t m, of mining_env "[]"] ok new room iter
    by (auto simp: mining_env_def admin_env_def mainnet_defs)
qed

end
