(* ===== verification/Utxo_Listing.thy ===== *)
theory Utxo_Listing
  imports Mining_Liveness
begin

text \<open>
  The UTXO column family as an index: every key of it is the encoding of an outpoint in every
  reachable state, so that the scan behind \<open>utxos_for_script\<close> (\<open>crates/tensorium-core/src/state.rs\<close>)
  lists each entry once, and the RPC endpoint \<open>/getutxos\<close> answers with exactly the unspent outputs of
  the canonical chain.
\<close>

section \<open>The keys of the column family\<close>

definition utxo_cf_ok :: "ChainState \<Rightarrow> bool" where
  "utxo_cf_ok s \<longleftrightarrow> hm_ok (cf_utxo s) \<and> (\<forall>k \<in> set (map fst (cf_utxo s)). \<exists>op. outpoint_ok op \<and> k = encode_outpoint op)"

fun op_safe :: "WriteOp \<Rightarrow> bool" where
  "op_safe (PutUtxo k e) \<longleftrightarrow> (\<exists>op. outpoint_ok op \<and> k = encode_outpoint op)"
| "op_safe _ \<longleftrightarrow> True"

lemma keys_insert: "set (map fst (hm_insert k v m)) = insert k (set (map fst m))"
  by (induction m) auto

lemma keys_remove: "set (map fst (hm_remove k m)) \<subseteq> set (map fst m)"
  by (induction m) auto

lemma write_op_cf_ok: "utxo_cf_ok s \<Longrightarrow> op_safe w \<Longrightarrow> utxo_cf_ok (write_op w s)"
proof (cases w)
  case (PutUtxo k e)
  assume "utxo_cf_ok s" "op_safe w"
  then show ?thesis unfolding PutUtxo by (simp add: utxo_cf_ok_def keys_insert del: set_map)
next
  case (DeleteUtxo k)
  assume "utxo_cf_ok s"
  then show ?thesis unfolding DeleteUtxo using keys_remove [of k "cf_utxo s"] by (auto simp add: utxo_cf_ok_def simp del: set_map)
qed (simp_all add: utxo_cf_ok_def)

lemma write_batch_cf_ok: "utxo_cf_ok s \<Longrightarrow> \<forall>w \<in> set ws. op_safe w \<Longrightarrow> utxo_cf_ok (write_batch ws s)"
  unfolding write_batch_def by (induction ws arbitrary: s) (auto intro: write_op_cf_ok)

lemma cf_ok_caches [simp]: "utxo_cf_ok (s\<lparr> tip_cache := t, height_cache := h \<rparr>) = utxo_cf_ok s"
  "utxo_cf_ok (s\<lparr> last_disconnected := d \<rparr>) = utxo_cf_ok s" "utxo_cf_ok (s\<lparr> cf_blocks := bs \<rparr>) = utxo_cf_ok s"
  "utxo_cf_ok (s\<lparr> tip_cache := t, height_cache := h, last_disconnected := d \<rparr>) = utxo_cf_ok s"
  by (simp_all add: utxo_cf_ok_def)

lemma rewrite_safe: "utxo_map_ok uset \<Longrightarrow> \<forall>w \<in> set (rewrite_utxo_into_batch s uset t). op_safe w"
  by (fastforce simp: rewrite_utxo_into_batch_def utxo_map_ok_def)

lemma delta_safe: "block_ok b \<Longrightarrow> \<forall>w \<in> set (apply_utxo_delta_to_batch b). op_safe w"
  using created_entries_ok by (fastforce simp: apply_utxo_delta_to_batch_def)

definition blocks_ok :: "(bytes, Block) hashmap \<Rightarrow> bool" where
  "blocks_ok bs \<longleftrightarrow> (\<forall>k b. hm_get bs k = Some b \<longrightarrow> block_ok b)"

lemma build_chain_loop_stored:
  assumes "build_chain_loop bs cur acc = Some r"
  shows "set r \<subseteq> set acc \<union> {b. \<exists>k. hm_get bs k = Some b}"
proof (rule build_chain_loop.raw_induct [where P = "\<lambda>bs cur acc r. set r \<subseteq> set acc \<union> {b. \<exists>k. hm_get bs k = Some b}", OF _ assms])
  fix go bs cur acc r
  assume IH: "\<And>bs cur acc r. go bs cur acc = Some r \<Longrightarrow> set r \<subseteq> set acc \<union> {b. \<exists>k. hm_get bs k = Some b}"
    and r: "(case hm_get bs (hash_bytes cur) of None \<Rightarrow> Some acc
      | Some b \<Rightarrow> if previous_hash (header b) = ZERO then Some (acc @ [b]) else go bs (previous_hash (header b)) (acc @ [b])) = Some r"
  show "set r \<subseteq> set acc \<union> {b. \<exists>k. hm_get bs k = Some b}"
  proof (cases "hm_get bs (hash_bytes cur)")
    case None
    with r show ?thesis by auto
  next
    case (Some b)
    with r IH [of bs "previous_hash (header b)" "acc @ [b]" r] have "set r \<subseteq> set (acc @ [b]) \<union> {b. \<exists>k. hm_get bs k = Some b}"
      by (auto split: if_splits)
    then show ?thesis using Some by auto
  qed
qed

lemma replay_ok: "replay_utxo X p chain = Ok uset \<Longrightarrow> \<forall>b \<in> set chain. block_ok b \<Longrightarrow> utxo_map_ok uset"
  by (auto simp: replay_utxo_def intro: replay_utxo_map_ok)

lemma canonical_blocks_ok: "blocks_ok (cf_blocks s) \<Longrightarrow> \<forall>b \<in> set (canonical_blocks_iter s). block_ok b"
  by (auto simp: canonical_blocks_iter_def map_filter_def get_block_by_hash_def blocks_ok_def split: option.splits bind_splits)

lemma build_canonical_ok: "blocks_ok (cf_blocks s) \<Longrightarrow> build_canonical_chain s h = Some chain \<Longrightarrow> \<forall>b \<in> set chain. block_ok b"
  using build_chain_loop_stored [of "cf_blocks s" h "[]"] by (fastforce simp: build_canonical_chain_def blocks_ok_def)

lemma ensure_cf_ok:
  assumes "utxo_cf_ok s" and "blocks_ok (cf_blocks s)" and "ensure_utxo_synced X p s = (s', r)"
  shows "utxo_cf_ok s'"
  using assms replay_ok [OF _ canonical_blocks_ok [OF assms(2)]]
  by (auto simp: ensure_utxo_synced_def intro!: write_batch_cf_ok rewrite_safe split: option.splits if_splits sum.splits)

lemma extend_cf_ok:
  assumes "utxo_cf_ok s" and "block_ok b" and "extend_tip X p b s = (s', r)"
  shows "utxo_cf_ok s'"
  using assms delta_safe [OF assms(2)]
  by (auto simp: extend_tip_def Let_def intro!: write_batch_cf_ok split: sum.splits)

lemma reorg_cf_ok:
  assumes "utxo_cf_ok s" and "\<forall>c \<in> set new. block_ok c" and "reorg_to X p b old new s = Some (s', r)"
  shows "utxo_cf_ok s'"
proof -
  have safe: "\<forall>w \<in> set (map (\<lambda>c. PutCanonical (k c) (v c)) cs @ map (\<lambda>i. DeleteCanonical (d i)) is @ [PutMeta a a', PutMeta m m']
      @ rewrite_utxo_into_batch s1 uset t). op_safe w"
    if "replay_utxo X p new = Ok uset" for k v cs d "is" a a' m m' s1 uset t
    using rewrite_safe [OF replay_ok [OF that assms(2)], of s1 t] by auto
  show ?thesis
  proof (cases "replay_utxo X p new")
    case (Inl e)
    with assms(1,3) show ?thesis by (simp add: reorg_to_def)
  next
    case (Inr uset)
    from assms(3) [unfolded reorg_to_def Inr sum.case Let_def] assms(1) show ?thesis
      unfolding bind_eq_Some_conv option.inject prod.inject
      by (elim exE conjE) (drule sym, simp only: cf_ok_caches, intro write_batch_cf_ok safe [OF Inr], simp only: cf_ok_caches)
  qed
qed

lemma submit_cf_ok:
  assumes s: "utxo_cf_ok s" and bs: "blocks_ok (cf_blocks s)" and b: "block_ok b"
    and sub: "submit_block X p b now s = Some (s', r)"
  shows "utxo_cf_ok s'"
proof -
  obtain s1 r1 where e: "ensure_utxo_synced X p s = (s1, r1)" by fastforce
  have s1: "utxo_cf_ok s1" by (rule ensure_cf_ok [OF s bs e])
  have "cf_blocks s1 = cf_blocks s"
    using e by (auto simp: ensure_utxo_synced_def rewrite_utxo_fields split: option.splits if_splits sum.splits)
  with bs b have bs2: "blocks_ok (hm_insert (hash_bytes (block_hash X b)) b (cf_blocks s1))" by (auto simp: blocks_ok_def)
  let ?s2 = "s1\<lparr> cf_blocks := hm_insert (hash_bytes (block_hash X b)) b (cf_blocks s1) \<rparr>"
  have fork: "utxo_cf_ok s'" if "fork_choice X p b ?s2 = Some (s', r)"
  proof -
    have ok: "utxo_cf_ok (?s2\<lparr> last_disconnected := [] \<rparr>)" using s1 by simp
    have new: "\<forall>c \<in> set new. block_ok c" if "build_canonical_chain (?s2\<lparr> last_disconnected := [] \<rparr>) h = Some new" for h new
      using build_canonical_ok [OF _ that] bs2 by simp
    show ?thesis
      using that ok extend_cf_ok [OF ok b] reorg_cf_ok [OF ok new]
      by (auto simp: fork_choice_def Let_def bind_eq_Some_conv split: if_splits)
  qed
  show ?thesis
  proof (cases "block_known s (block_hash X b) \<or> r1 \<noteq> Ok () \<or> get_block_by_hash s1 (previous_hash (header b)) = None")
    case True
    then show ?thesis using sub s s1 by (auto simp: submit_block_def e split: sum.splits if_splits)
  next
    case False
    then obtain parent where "r1 = Ok ()" "get_block_by_hash s1 (previous_hash (header b)) = Some parent" by auto
    with sub False obtain bits where "(case validate_block X p (Some parent) b now bits (epoch_seed_for_height X s1 (height (header b))) of
        Err e \<Rightarrow> Some (s1, Err (Validation e)) | Ok _ \<Rightarrow> fork_choice X p b ?s2) = Some (s', r)"
      by (auto simp: submit_block_def e bind_eq_Some_conv)
    then show ?thesis using fork s1
      by (cases "validate_block X p (Some parent) b now bits (epoch_seed_for_height X s1 (height (header b)))") auto
  qed
qed

lemma reachable_cf_ok:
  assumes X: "digest_len X" and "reachable X p s"
  shows "utxo_cf_ok s"
proof -
  have blocks: "blocks_ok (cf_blocks s)" if "reachable X p s" for s
    using reachable_inv [OF X that] by (auto simp: state_inv_def db_inv_def blocks_ok_def)
  have inst: "utxo_cf_ok (install_tip X b s) = utxo_cf_ok s" for b s by (simp add: install_tip_fields utxo_cf_ok_def)
  show ?thesis
    using assms(2)
  proof (induction rule: reachable.induct)
    case (genesis ts mn s b)
    then show ?case
      by (auto simp: init_genesis_def new_state_def Let_def inst utxo_cf_ok_def installed_iff map_option_eq_Some)
        (auto simp: install_tip_fields)
  next
    case (genesis_nonce ts n s b)
    then show ?case
      by (auto simp: init_genesis_nonce_def new_state_def Let_def utxo_cf_ok_def installed_check_iff map_option_eq_Some split: if_splits)
        (auto simp: install_tip_fields)
  next
    case (mine s ts miner mn s' b)
    then show ?case
      by (auto simp: mine_next_block_def Let_def inst installed_iff map_option_eq_Some split: option.splits)
  next
    case (submit s b now s' r)
    with blocks submit_cf_ok show ?case by blast
  next
    case (sync s s' r)
    with blocks ensure_cf_ok show ?case by blast
  next
    case (requeue s)
    then show ?case by (simp add: take_reorg_requeue_candidates_def)
  next
    case (restart s)
    from reachable_inv [OF X restart.hyps] reopen_inv [OF X] restart.IH show ?case by auto
  qed
qed

section \<open>Listing by script\<close>

lemma utxos_for_script_exact:
  assumes "utxo_cf_ok s"
  shows "distinct (map fst (utxos_for_script s script))"
    and "(op, e) \<in> set (utxos_for_script s script) \<longleftrightarrow>
      outpoint_ok op \<and> utxo_lookup s op = Some e \<and> script_pubkey (entry_output e) = script"
proof -
  let ?kvs = "filter (\<lambda>(k, e). script_pubkey (entry_output e) = script) (cf_scan (cf_utxo s))"
  have ok: "hm_ok (cf_utxo s)" and enc: "\<And>k e. (k, e) \<in> set (cf_utxo s) \<Longrightarrow> \<exists>op. outpoint_ok op \<and> k = encode_outpoint op"
    using assms by (force simp: utxo_cf_ok_def)+
  have mem: "(k, e) \<in> set ?kvs \<longleftrightarrow> hm_get (cf_utxo s) k = Some e \<and> script_pubkey (entry_output e) = script" for k e
    using ok by (auto simp: cf_scan_def)
  have "mset (map fst (cf_scan (cf_utxo s))) = mset (map fst (cf_utxo s))" by (simp add: cf_scan_def)
  then have dist: "distinct (map fst ?kvs)" using ok by (metis distinct_map_filter mset_eq_imp_distinct_iff)
  have un: "utxos_for_script s script = map (\<lambda>(k, e). (the (decode_outpoint k), e)) ?kvs" by (simp add: utxos_for_script_def)
  have dec: "\<exists>op. outpoint_ok op \<and> k = encode_outpoint op \<and> decode_outpoint k = Some op" if "(k, e) \<in> set ?kvs" for k e
    using enc [of k e] that outpoint_key.dec_enc by (auto simp: cf_scan_def)
  show "(op, e) \<in> set (utxos_for_script s script) \<longleftrightarrow>
      outpoint_ok op \<and> utxo_lookup s op = Some e \<and> script_pubkey (entry_output e) = script"
  proof
    assume "(op, e) \<in> set (utxos_for_script s script)"
    then obtain k where k: "(k, e) \<in> set ?kvs" "op = the (decode_outpoint k)" unfolding un by auto
    with dec [OF k(1)] have "outpoint_ok op" "k = encode_outpoint op" by auto
    with mem [of k e] k(1) show "outpoint_ok op \<and> utxo_lookup s op = Some e \<and> script_pubkey (entry_output e) = script"
      by (simp add: utxo_lookup_def utxo_get_def)
  next
    assume a: "outpoint_ok op \<and> utxo_lookup s op = Some e \<and> script_pubkey (entry_output e) = script"
    with mem [of "encode_outpoint op" e] have "(encode_outpoint op, e) \<in> set ?kvs" by (simp add: utxo_lookup_def utxo_get_def)
    moreover have "the (decode_outpoint (encode_outpoint op)) = op" using a outpoint_key.dec_enc by simp
    ultimately show "(op, e) \<in> set (utxos_for_script s script)" unfolding un by force
  qed
  have "inj_on (\<lambda>k. the (decode_outpoint k)) (set (map fst ?kvs))"
  proof (rule inj_onI)
    fix k k' assume "k \<in> set (map fst ?kvs)" "k' \<in> set (map fst ?kvs)" "the (decode_outpoint k) = the (decode_outpoint k')"
    moreover from this obtain e e' where "(k, e) \<in> set ?kvs" "(k', e') \<in> set ?kvs" by force
    ultimately show "k = k'" using dec by (metis option.sel)
  qed
  moreover have "map fst (utxos_for_script s script) = map (\<lambda>k. the (decode_outpoint k)) (map fst ?kvs)" unfolding un by auto
  ultimately show "distinct (map fst (utxos_for_script s script))" using dist by (simp only: distinct_map)
qed

text \<open>An endpoint that works on the synchronised state.\<close>

lemma rpc_synced_reply:
  assumes X: "digest_len X" and n: "node_inv X p n"
    and "rpc_synced X p env n k = Some (n', [(200, body)], Ok ())"
  obtains s uset where "k s = Some (n', [(200, body)], Ok ())" and "reachable X p s" and "utxo_cf_ok s"
    and "state_inv X p s (canonical_blocks_iter (node_chain n))"
    and "replay_utxo X p (canonical_blocks_iter (node_chain n)) = Ok uset" and "utxo_map_ok uset" and "utxo_is s uset"
    and "rpc_lock env = None" and "ensure_utxo_synced X p (reopen (node_chain n)) = (s, Ok ())"
    and "read_meta_utxo_tip s = Some (tip_hash X s)"
proof -
  have r0: "reachable X p (reopen (node_chain n))" and i0: "canonical_blocks_iter (reopen (node_chain n)) = canonical_blocks_iter (node_chain n)"
    using reopen_reachable [OF X] n by (auto simp: node_inv_def)
  obtain s r where sy: "ensure_utxo_synced X p (reopen (node_chain n)) = (s, r)" by fastforce
  from assms(3) have ok: "rpc_lock env = None" "r = Ok ()" "k s = Some (n', [(200, body)], Ok ())"
    by (auto simp: rpc_synced_def rpc_state_def load_state_def sy give_up_def split: option.splits sum.splits)
  have r: "reachable X p s" using sync_reachable [OF X r0 sy] by blast
  from reachable_inv [OF X r0] obtain chain where inv: "state_inv X p (reopen (node_chain n)) chain" by blast
  with canonical_blocks_iter_chain [OF X inv] i0 have c: "chain = canonical_blocks_iter (node_chain n)" by simp
  from ensure_utxo_synced_inv [OF X inv sy] ok(2) obtain uset where
    "state_inv X p s chain" "replay_utxo_from X p [] chain = Ok uset" "utxo_map_ok uset" "utxo_is s uset"
    "read_meta_utxo_tip s = Some (tip_hash X s)" by (auto simp: synced_def)
  with that ok r c reachable_cf_ok [OF X r] sy show ?thesis by (simp add: replay_utxo_def)
qed

text \<open>The script that a parameter of \<open>/getutxos\<close> names.\<close>

definition param_script :: "ext \<Rightarrow> string \<Rightarrow> bytes option" where
  "param_script X param =
     (if starts_with ''txm1'' param then (case p2pkh_from_address X param of Ok sc \<Rightarrow> Some sc | Err _ \<Rightarrow> None)
      else hex_decode X param)"

text \<open>What an answer of \<open>/getutxos\<close> is made from.\<close>

lemma getutxos_answer:
  assumes X: "digest_len X" and n: "node_inv X p n"
    and ans: "rpc_getutxos X p env path n = Some (n', [(200, UtxosBody param h rows)], Ok ())"
  obtains s script uset where "param_script X param = Some script" and "param = trim_start_matches ''/getutxos/'' path"
    and "n' = n\<lparr> node_chain := s \<rparr>" and "reachable X p s" and "utxo_cf_ok s" and "read_meta_utxo_tip s = Some (tip_hash X s)"
    and "state_inv X p s (canonical_blocks_iter (node_chain n))"
    and "replay_utxo X p (canonical_blocks_iter (node_chain n)) = Ok uset" and "utxo_map_ok uset" and "utxo_is s uset"
    and "h = height_or_0 s" and "rows = map (utxo_row_of X p h) (utxos_for_script s script)"
proof -
  let ?go = "\<lambda>script s. reply (n\<lparr> node_chain := s \<rparr>) 200
    (UtxosBody param (height_or_0 s) (map (utxo_row_of X p (height_or_0 s)) (utxos_for_script s script)))"
  from ans obtain script where sc: "param_script X param = Some script" and tr: "param = trim_start_matches ''/getutxos/'' path"
    and go: "rpc_synced X p env n (?go script) = Some (n', [(200, UtxosBody param h rows)], Ok ())"
    by (auto simp: rpc_getutxos_def Let_def reply_def param_script_def rpc_synced_def rpc_state_def load_state_def give_up_def
        split: if_splits sum.splits option.splits prod.splits)
  from rpc_synced_reply [OF X n go] obtain s uset where k: "?go script s = Some (n', [(200, UtxosBody param h rows)], Ok ())"
    and r: "reachable X p s" "utxo_cf_ok s" "state_inv X p s (canonical_blocks_iter (node_chain n))"
      "replay_utxo X p (canonical_blocks_iter (node_chain n)) = Ok uset" "utxo_map_ok uset" "utxo_is s uset"
      "read_meta_utxo_tip s = Some (tip_hash X s)" .
  have "n' = n\<lparr> node_chain := s \<rparr>" "h = height_or_0 s" "rows = map (utxo_row_of X p h) (utxos_for_script s script)"
    using k by (auto simp: reply_def)
  with that sc tr r show ?thesis by blast
qed

text \<open>
  C14. \<open>/getutxos\<close> tells the truth: a successful answer lists each unspent output of the canonical
  chain that pays to the script once, and nothing else: the rows are the entries with that script of
  the set that replaying the canonical blocks gives, and a row is marked mature exactly when the next
  spend at the tip may use it.
\<close>

theorem getutxos_exact:
  assumes X: "digest_len X" and n: "node_inv X p n"
    and ans: "rpc_getutxos X p env path n = Some (n', [(200, UtxosBody param h rows)], Ok ())"
  shows "\<exists>script uset us. param_script X param = Some script
    \<and> replay_utxo X p (canonical_blocks_iter (node_chain n)) = Ok uset
    \<and> h = height (header (last (canonical_blocks_iter (node_chain n))))
    \<and> rows = map (utxo_row_of X p h) us \<and> distinct (map fst us)
    \<and> set us = {(op, e). hm_get uset op = Some e \<and> script_pubkey (entry_output e) = script}
    \<and> (\<forall>row \<in> set rows. \<exists>e. hm_get uset (row_outpoint row) = Some e \<and> row_mature row = (\<not> immature p h e))"
proof -
  from getutxos_answer [OF X n ans] obtain s script uset where sc: "param_script X param = Some script"
    and cf: "utxo_cf_ok s" and inv: "state_inv X p s (canonical_blocks_iter (node_chain n))"
    and rep: "replay_utxo X p (canonical_blocks_iter (node_chain n)) = Ok uset" and um: "utxo_map_ok uset" and ui: "utxo_is s uset"
    and h: "h = height_or_0 s" "rows = map (utxo_row_of X p h) (utxos_for_script s script)" .
  let ?us = "utxos_for_script s script"
  have hh: "h = height (header (last (canonical_blocks_iter (node_chain n))))" using inv by (simp add: h height_or_0_def state_inv_def)
  have mem: "(op, e) \<in> set ?us \<longleftrightarrow> hm_get uset op = Some e \<and> script_pubkey (entry_output e) = script" for op e
  proof -
    have "outpoint_ok op" if "hm_get uset op = Some e" using um that unfolding utxo_map_ok_def by blast
    then show ?thesis unfolding utxos_for_script_exact(2) [OF cf] using ui by (auto simp: utxo_is_def utxo_lookup_def)
  qed
  then have "set ?us = {(op, e). hm_get uset op = Some e \<and> script_pubkey (entry_output e) = script}" by auto
  moreover have "\<exists>e. hm_get uset (row_outpoint row) = Some e \<and> row_mature row = (\<not> immature p h e)" if "row \<in> set rows" for row
    using that mem by (fastforce simp: h(2) utxo_row_of_def mature_at_def immature_def)
  ultimately show ?thesis using sc rep hh h(2) utxos_for_script_exact(1) [OF cf] by blast
qed


lemma peek_reopen: "reopen peek_state = peek_state"
proof -
  have "last_disconnected peek_state = []" by (simp add: peek_state_def install_tip_fields new_state_def)
  then show ?thesis using reopen_inv [OF peek_digest_len peek_inv] by simp
qed

lemma peek_iter: "canonical_blocks_iter (node_chain peek_node) = [peek_genesis]"
  unfolding peek_node_def using canonical_blocks_iter_chain [OF peek_digest_len peek_inv] by simp

lemma peek_getutxos:
  "\<exists>n' h rows. rpc_getutxos peek_ext MAINNET admin_env ''/getutxos/00'' peek_node = Some (n', [(200, UtxosBody ''00'' h rows)], Ok ())"
proof -
  have path: "trim_start_matches ''/getutxos/'' ''/getutxos/00'' = ''00''" by (simp add: trim_start_matches.simps)
  have "hex_decode peek_ext ''00'' = Some (demo_unhex ''00'')" by (simp add: peek_ext_def demo_ext_def)
  then show ?thesis
    by (simp add: rpc_getutxos_def path rpc_synced_def rpc_state_def load_state_def admin_env_def
        peek_node_def peek_reopen peek_ensure reply_def)
qed

theorem getutxos_exact_witness:
  "\<exists>script uset. param_script peek_ext ''00'' = Some script \<and> replay_utxo peek_ext MAINNET [peek_genesis] = Ok uset"
proof -
  from peek_getutxos obtain n' h rows where
    ans: "rpc_getutxos peek_ext MAINNET admin_env ''/getutxos/00'' peek_node = Some (n', [(200, UtxosBody ''00'' h rows)], Ok ())" by blast
  from getutxos_exact [OF peek_digest_len peek_node_inv(1) ans] show ?thesis unfolding peek_iter by blast
qed

end
