(* ===== verification/Pool_Safety.thy ===== *)
theory Pool_Safety
  imports Pool_Http Utxo_Listing
begin

text \<open>
  What the pool's HTTP service does to the ledger: a posted block is credited exactly when the node
  reports it accepted, and the credit splits the reward without loss. Two gaps of the source follow
  from the same lemmas: the node reports a block it already has as accepted, and the service credits
  it again; and the file that \<open>mark-paid\<close> edits is overwritten by the running service.
\<close>

section \<open>The node behind the service\<close>

text \<open>Both answers carry \<open>"accepted": true\<close> and status 200.\<close>

definition node_accepts :: "handled \<Rightarrow> bool" where
  "node_accepts r \<longleftrightarrow>
     (case r of
        Some (_, [(code, SubmittedBody _ _ _)], _) \<Rightarrow> code = 200
      | Some (_, [(code, KnownBody _ _)], _) \<Rightarrow> code = 200
      | _ \<Rightarrow> False)"

text \<open>What the service reads over the socket is what the node wrote: acceptance arrives, nothing else looks like it.\<close>

definition submit_wire :: "pool_env \<Rightarrow> string \<Rightarrow> string \<Rightarrow> handled \<Rightarrow> bool" where
  "submit_wire E rpc body r \<longleftrightarrow>
     (case pool_http_post E rpc ''/submitblock'' body of
        Ok raw \<Rightarrow> says_accepted E raw = node_accepts r
      | Err e \<Rightarrow> \<not> node_accepts r)"

text \<open>The entry a posted block is credited with.\<close>

definition block_credit :: "ext \<Rightarrow> PoolState \<Rightarrow> Block \<Rightarrow> PayoutEntry" where
  "block_credit X s b =
     new_payout_entry (height (header b)) (to_hex X (block_hash X b))
       (case miner_for_height s (height (header b)) of Some a \<Rightarrow> a | None \<Rightarrow> ''unknown'') (first_output_atoms b)"

definition credited :: "ext \<Rightarrow> pool_env \<Rightarrow> Block \<Rightarrow> Pool \<Rightarrow> Pool" where
  "credited X E b P =
     (let l = ledger_push (ledger (pool_state P)) (block_credit X (pool_state P) b) in
      \<lparr> pool_state = (pool_state P)\<lparr> ledger := l \<rparr>, ledger_file = fst (store (save_outcome E) l (ledger_file P)) \<rparr>)"

lemma record_block_credited:
  "fst (record_block (save_outcome E) (height (header b)) (to_hex X (block_hash X b))
      (case miner_for_height (pool_state P) (height (header b)) of Some a \<Rightarrow> a | None \<Rightarrow> ''unknown'') (first_output_atoms b) P)
    = credited X E b P"
  by (simp add: record_block_def credited_def block_credit_def ledger_save_def Let_def split_beta)

lemma submit_accepted:
  assumes "block_of E body = Ok b" and "submit_wire E (ps_node_rpc (pool_state P)) body r" and "node_accepts r"
  shows "\<exists>raw. handle_submit_block X E body P = (credited X E b P, 200, RawBody raw)"
proof -
  from assms(2,3) obtain raw where "pool_http_post E (ps_node_rpc (pool_state P)) ''/submitblock'' body = Ok raw" and "says_accepted E raw"
    by (auto simp: submit_wire_def split: sum.splits)
  then show ?thesis using assms(1) by (simp add: handle_submit_block_def record_block_credited Let_def)
qed

lemma submit_refused:
  assumes "submit_wire E (ps_node_rpc (pool_state P)) body r" and "\<not> node_accepts r"
  shows "fst (handle_submit_block X E body P) = P"
  using assms by (auto simp: submit_wire_def handle_submit_block_def split: sum.splits)

lemma credited_fields [simp]:
  "ledger (pool_state (credited X E b P)) = ledger_push (ledger (pool_state P)) (block_credit X (pool_state P) b)"
  "last_miner_for_height (pool_state (credited X E b P)) = last_miner_for_height (pool_state P)"
  "ps_node_rpc (pool_state (credited X E b P)) = ps_node_rpc (pool_state P)"
  by (simp_all add: credited_def Let_def)

lemma block_credit_kept [simp]: "block_credit X (pool_state (credited X E b P)) b' = block_credit X (pool_state P) b'"
  by (simp add: block_credit_def miner_for_height_def)

lemma block_credit_fields:
  "\<not> paid_out (block_credit X s b)" "gross_reward_atoms (block_credit X s b) = first_output_atoms b"
  "unat (net_payout_atoms (block_credit X s b)) + unat (pool_fee_atoms (block_credit X s b)) = unat (first_output_atoms b)"
  "miner_address (block_credit X s b) = (case miner_for_height s (height (header b)) of Some a \<Rightarrow> a | None \<Rightarrow> ''unknown'')"
  by (simp_all add: block_credit_def entry_conserves) (simp_all add: new_payout_entry_def split_beta)

lemma known_answer:
  assumes X: "digest_len X" and n: "node_inv X p n" and lk: "rpc_lock env = None"
    and js: "block_from_json env body = Ok b" and b: "b \<in> set (canonical_blocks_iter (node_chain n))"
  shows "\<exists>n'. rpc_submitblock X p env body n = Some (n', [(200, KnownBody (height (header b)) (block_hash X b))], Ok ())
    \<and> canonical_blocks_iter (node_chain n') = canonical_blocks_iter (node_chain n)"
proof -
  from n obtain chain where inv: "state_inv X p (node_chain n) chain" using reachable_inv [OF X] by (auto simp: node_inv_def)
  let ?s = "(node_chain n)\<lparr> last_disconnected := [] \<rparr>"
  have iter: "canonical_blocks_iter (node_chain n) = chain" by (rule canonical_blocks_iter_chain [OF X inv])
  have inv': "state_inv X p ?s chain" using inv by simp
  have iter': "canonical_blocks_iter ?s = chain" by (rule canonical_blocks_iter_chain [OF X inv'])
  have "block_known ?s (block_hash X b)"
    using b inv chain_path_stored unfolding iter block_known_def state_inv_def by fastforce
  then show ?thesis
    by (simp add: rpc_submitblock_def js rpc_state_def load_state_def lk reopen_inv [OF X inv] submit_block_def reply_def iter iter')
qed

definition posting_pool_env :: pool_env where
  "posting_pool_env =
     \<lparr> node_says = (\<lambda>_. Ok (''HTTP/1.1 200 OK'' @ crlf @ crlf @ ''y'')),
       value_of = (\<lambda>_. Some (JObj [(''accepted'', JBool True)])), block_of = (\<lambda>_. Ok peek_genesis), save_outcome = Written \<rparr>"

definition posting_pool :: Pool where
  "posting_pool = \<lparr> pool_state = new_pool_state ''n'' ''t'' None None ''l'' (ledger_push ledger_default (new_payout_entry 0 ''h'' ''a'' 100)),
     ledger_file = Holding (ledger_push ledger_default (new_payout_entry 0 ''h'' ''a'' 100)) \<rparr>"

definition posting_node_env :: rpc_env where
  "posting_node_env = admin_env\<lparr> block_from_json := (\<lambda>_. Ok peek_genesis) \<rparr>"

lemma posting_known:
  "\<exists>n'. rpc_submitblock peek_ext MAINNET posting_node_env [] peek_node
     = Some (n', [(200, KnownBody (height (header peek_genesis)) (block_hash peek_ext peek_genesis))], Ok ())"
  using known_answer [OF peek_digest_len peek_node_inv(1), of posting_node_env "[]" peek_genesis]
  by (auto simp: posting_node_env_def admin_env_def peek_iter)

lemma posting_accepts: "node_accepts (rpc_submitblock peek_ext MAINNET posting_node_env [] peek_node)"
  using posting_known by (auto simp: node_accepts_def)

lemma posting_wire: "node_accepts r \<Longrightarrow> submit_wire posting_pool_env rpc body r"
  by (simp add: submit_wire_def posting_pool_env_def pool_http_post_def send_http_def crlf_def
      says_accepted_def as_bool_def json_at_def)

lemma posting_js: "block_of posting_pool_env [] = Ok peek_genesis" "block_from_json posting_node_env [] = Ok peek_genesis"
  "save_outcome posting_pool_env = Written" "ledger_file posting_pool = Holding (ledger (pool_state posting_pool))" "rpc_lock posting_node_env = None"
  by (simp_all add: posting_pool_env_def posting_node_env_def posting_pool_def new_pool_state_def admin_env_def)

text \<open>
  C25. A block posted to the pool is credited exactly when the node accepts it. Then one unpaid entry
  is appended, under the address that last asked the pool for a template of that height, its net
  payout and fee add up to the first output of the coinbase, and once the file is written the file and
  the service agree; the windows of shares are untouched. When the node does not accept the block, or
  the body is no block, the service and its file stay as they were.
\<close>

theorem pool_credit_exact:
  assumes "submit_wire E (ps_node_rpc (pool_state P)) body (rpc_submitblock X p env body n)"
    and "block_of E body = block_from_json env body"
  shows "\<exists>P' code resp. handle_submit_block X E body P = (P', code, resp)
    \<and> (if node_accepts (rpc_submitblock X p env body n)
       then \<exists>b e. block_from_json env body = Ok b \<and> code = 200
         \<and> entries (ledger (pool_state P')) = entries (ledger (pool_state P)) @ [e]
         \<and> share_window (ledger (pool_state P')) = share_window (ledger (pool_state P))
         \<and> pe_block_hash e = to_hex X (block_hash X b) \<and> \<not> paid_out e
         \<and> miner_address e = (case hm_get (last_miner_for_height (pool_state P)) (height (header b)) of Some a \<Rightarrow> a | None \<Rightarrow> ''unknown'')
         \<and> unat (net_payout_atoms e) + unat (pool_fee_atoms e) = unat (first_output_atoms b)
         \<and> (save_outcome E = Written \<longrightarrow> ledger_file P' = Holding (ledger (pool_state P')))
       else P' = P)"
proof (cases "node_accepts (rpc_submitblock X p env body n)")
  case True
  then obtain b where b: "block_from_json env body = Ok b"
    by (cases "block_from_json env body") (auto simp: rpc_submitblock_def reply_def node_accepts_def)
  obtain raw where "handle_submit_block X E body P = (credited X E b P, 200, RawBody raw)"
    using submit_accepted [OF _ assms(1) True, of b X] assms(2) b by auto
  moreover have "pe_block_hash (block_credit X (pool_state P) b) = to_hex X (block_hash X b)"
    by (simp add: block_credit_def new_payout_entry_def split_beta)
  moreover have "save_outcome E = Written \<Longrightarrow> ledger_file (credited X E b P) = Holding (ledger (pool_state (credited X E b P)))"
    by (simp add: credited_def store_def Let_def)
  ultimately show ?thesis using True b block_credit_fields [of X "pool_state P" b]
    by (auto simp: ledger_push_def miner_for_height_def simp del: split_paired_Ex)
next
  case False
  obtain P' code resp where r: "handle_submit_block X E body P = (P', code, resp)" by (cases "handle_submit_block X E body P") auto
  with submit_refused [OF assms(1) False, of X] False show ?thesis by auto
qed

theorem pool_credit_exact_witness:
  "\<exists>P' code resp e. handle_submit_block peek_ext posting_pool_env [] posting_pool = (P', code, resp)
    \<and> entries (ledger (pool_state P')) = entries (ledger (pool_state posting_pool)) @ [e] \<and> miner_address e = ''unknown''
    \<and> ledger_file P' = Holding (ledger (pool_state P'))"
  using pool_credit_exact [where E = posting_pool_env and P = posting_pool and X = peek_ext and p = MAINNET and env = posting_node_env
      and n = peek_node and body = "[]"] posting_wire [OF posting_accepts] posting_accepts posting_js
  by (auto simp: posting_pool_def new_pool_state_def)

section \<open>A block posted again\<close>

lemma credited_again:
  "entries (ledger (pool_state ((credited X E b ^^ k) P)))
     = entries (ledger (pool_state P)) @ replicate k (block_credit X (pool_state P) b)
   \<and> block_credit X (pool_state ((credited X E b ^^ k) P)) b = block_credit X (pool_state P) b
   \<and> ps_node_rpc (pool_state ((credited X E b ^^ k) P)) = ps_node_rpc (pool_state P)"
  by (induction k) (auto simp: ledger_push_def replicate_append_same)

text \<open>
  C29. The pool pays for a block as often as it is posted: for any block already in the node's chain,
  the node answers \<open>accepted\<close> and changes nothing, and after \<open>k\<close> further posts of the same body the
  ledger owes \<open>k\<close> further unpaid entries for it, each with the net payout of the whole reward.
\<close>

theorem resubmitted_block_paid_again:
  assumes X: "digest_len X" and n: "node_inv X p n" and lk: "rpc_lock env = None"
    and js: "block_from_json env body = Ok b" "block_of E body = Ok b"
    and b: "b \<in> set (canonical_blocks_iter (node_chain n))"
    and wire: "submit_wire E (ps_node_rpc (pool_state P)) body (rpc_submitblock X p env body n)"
  shows "(\<exists>n'. rpc_submitblock X p env body n = Some (n', [(200, KnownBody (height (header b)) (block_hash X b))], Ok ())
      \<and> canonical_blocks_iter (node_chain n') = canonical_blocks_iter (node_chain n))
    \<and> (\<exists>e. entries (ledger (pool_state (((fst \<circ> handle_submit_block X E body) ^^ k) P)))
          = entries (ledger (pool_state P)) @ replicate k e
        \<and> \<not> paid_out e \<and> pe_block_hash e = to_hex X (block_hash X b)
        \<and> unat (net_payout_atoms e) + unat (pool_fee_atoms e) = unat (first_output_atoms b))"
proof -
  note known = known_answer [OF X n lk js(1) b]
  then have acc: "node_accepts (rpc_submitblock X p env body n)" by (auto simp: node_accepts_def)
  have step: "fst (handle_submit_block X E body Q) = credited X E b Q" if "ps_node_rpc (pool_state Q) = ps_node_rpc (pool_state P)" for Q
    using submit_accepted [OF js(2) _ acc, where P = Q and X = X] wire that by auto
  have "((fst \<circ> handle_submit_block X E body) ^^ k) P = (credited X E b ^^ k) P"
    by (induction k) (simp_all add: step credited_again)
  moreover have "pe_block_hash (block_credit X (pool_state P) b) = to_hex X (block_hash X b)"
    by (simp add: block_credit_def new_payout_entry_def split_beta)
  ultimately show ?thesis using known credited_again [of k X E b P] block_credit_fields(1,3) [of X "pool_state P" b]
    by (intro conjI exI [of _ "block_credit X (pool_state P) b"]) simp_all
qed

theorem resubmitted_block_paid_again_witness:
  "\<exists>e. entries (ledger (pool_state (((fst \<circ> handle_submit_block peek_ext posting_pool_env []) ^^ 2) posting_pool)))
      = entries (ledger (pool_state posting_pool)) @ [e, e] \<and> \<not> paid_out e"
  using resubmitted_block_paid_again [OF peek_digest_len peek_node_inv(1) posting_js(5) posting_js(2,1) _ posting_wire [OF posting_accepts],
      where k = 2 and P = posting_pool]
  by (auto simp: peek_iter numeral_2_eq_2)

section \<open>Payments marked on the command line\<close>

lemma marked_pending: "pending_atoms (mark_paid l miner) miner = 0"
proof -
  have "filter (owed_to miner) (entries (mark_paid l miner)) = []" 
    by (auto simp: mark_paid_def owed_to_def [abs_def] filter_map o_def intro!: filter_False)
  then show ?thesis unfolding pending_atoms_def by (simp add: sat_sum_def)
qed

text \<open>
  \<open>mark-paid\<close> does not survive the running service: it marks the entries of a miner in the file,
  where nothing is pending for the miner any more, but the next credited block writes back the ledger
  that the service holds in memory, in which those entries are still owed.
\<close>

theorem mark_paid_lost:
  assumes js: "block_of E body = Ok b" and wire: "submit_wire E (ps_node_rpc (pool_state P)) body r" and acc: "node_accepts r"
    and saved: "save_outcome E = Written" "ledger_file P = Holding (ledger (pool_state P))"
  shows "\<exists>file' line file''. pool_run_cmd V Written [prog, ''mark-paid'', miner] (ledger_file P) = Command (file', Ok line)
    \<and> pending_atoms (ledger_load file') miner = 0
    \<and> ledger_file (fst (handle_submit_block X E body (P\<lparr> ledger_file := file' \<rparr>))) = Holding file''
    \<and> filter (owed_to miner) (entries (ledger (pool_state P))) = take (length (filter (owed_to miner) (entries (ledger (pool_state P)))))
        (filter (owed_to miner) (entries file''))"
proof -
  let ?file = "Holding (mark_paid (ledger (pool_state P)) miner)" and ?P = "P\<lparr> ledger_file := Holding (mark_paid (ledger (pool_state P)) miner) \<rparr>"
  have "pool_run_cmd V Written [prog, ''mark-paid'', miner] (ledger_file P)
      = Command (?file, Ok (PrintLine (''marked all entries for '' @ miner @ '' as paid'')))"
    by (simp add: pool_run_cmd_def cmd_mark_paid_def ledger_save_def store_def saved ledger_load_def stored_or_def map_err_def)
  moreover have "pending_atoms (ledger_load ?file) miner = 0" by (simp add: ledger_load_def stored_or_def marked_pending)
  moreover obtain raw where "handle_submit_block X E body ?P = (credited X E b ?P, 200, RawBody raw)"
    using submit_accepted [OF js _ acc, where P = ?P and X = X] wire by auto
  then have "ledger_file (fst (handle_submit_block X E body ?P)) = Holding (ledger_push (ledger (pool_state P)) (block_credit X (pool_state P) b))"
    by (simp add: credited_def store_def Let_def saved)
  moreover have "filter (owed_to miner) (entries (ledger (pool_state P))) = take (length (filter (owed_to miner) (entries (ledger (pool_state P)))))
      (filter (owed_to miner) (entries (ledger_push (ledger (pool_state P)) (block_credit X (pool_state P) b))))"
    by (simp add: ledger_push_def)
  ultimately show ?thesis by blast
qed
definition no_vars :: pool_vars where
  "no_vars = \<lparr> treasury_var = None, hot_wallet_var = None, hot_max_var = None, ledger_var = None \<rparr>"

theorem mark_paid_lost_witness:
  "\<exists>file' line file''. pool_run_cmd no_vars Written [[], ''mark-paid'', ''a''] (ledger_file posting_pool) = Command (file', Ok line)
    \<and> pending_atoms (ledger_load file') ''a'' = 0
    \<and> ledger_file (fst (handle_submit_block peek_ext posting_pool_env [] (posting_pool\<lparr> ledger_file := file' \<rparr>))) = Holding file''
    \<and> filter (owed_to ''a'') (entries (ledger (pool_state posting_pool))) \<noteq> []
    \<and> filter (owed_to ''a'') (entries (ledger (pool_state posting_pool))) = take 1 (filter (owed_to ''a'') (entries file''))"
proof -
  have one: "length (filter (owed_to ''a'') (entries (ledger (pool_state posting_pool)))) = 1"
    by (simp add: posting_pool_def new_pool_state_def ledger_push_def ledger_default_def owed_to_def new_payout_entry_def split_beta)
  then have "filter (owed_to ''a'') (entries (ledger (pool_state posting_pool))) \<noteq> []" by (metis length_0_conv zero_neq_one)
  with mark_paid_lost [OF posting_js(1) posting_wire [OF posting_accepts] posting_accepts posting_js(3,4), of no_vars "[]" "''a''" peek_ext]
  show ?thesis unfolding one by blast
qed

end
