(* ===== verification/Stratum_Mining.thy ===== *)
theory Stratum_Mining
  imports Stratum_Protocol Pool_Safety
begin

text \<open>
  The stratum server and the node together: a template of the node becomes a job, a solved job becomes
  a block of the node's chain and a split of its reward. The JSON of templates and blocks is that of
  \<open>Block_Json\<close>; the hypotheses say that the text the server reads is the node's answer.
\<close>

section \<open>From template to job\<close>

definition template_job :: "nat \<Rightarrow> Hash256 \<Rightarrow> Block \<Rightarrow> StratumJob" where
  "template_job ms seed b =
     \<lparr> job_id = ''h'' @ show_nat (unat (height (header b))) @ ''-'' @ show_nat ms, sj_chain_id = chain_id (header b),
       sj_height = height (header b), sj_previous_hash = hash_bytes (previous_hash (header b)),
       sj_merkle_root = hash_bytes (merkle_root (header b)), sj_epoch_seed = hash_bytes seed,
       sj_timestamp = timestamp_seconds (header b), difficulty_bits = leading_zero_bits (header b), sj_version = version (header b) \<rparr>"

definition with_nonce :: "Block \<Rightarrow> u64 \<Rightarrow> Block" where
  "with_nonce b n = b\<lparr> header := (header b)\<lparr> nonce := n \<rparr> \<rparr>"

lemma with_nonce_simps [simp]: "transactions (with_nonce b n) = transactions b" "header (with_nonce b n) = (header b)\<lparr> nonce := n \<rparr>"
  by (simp_all add: with_nonce_def)

lemma parse_hash_json: "hash_ok h \<Longrightarrow> parse_byte_array (hash_json h) = Some (hash_bytes h)"
proof -
  assume "hash_ok h"
  moreover have "those (map (\<lambda>x. map_option ucast (as_u64 x)) (map (JNum \<circ> ucast) bs)) = Some (bs :: bytes)" for bs
    by (induction bs) simp_all
  ultimately show ?thesis by (simp add: parse_byte_array_def hash_json_def byte_json_def hash_ok_def)
qed

lemma parse_template:
  assumes "text_value E raw = Some (template_json ci h prv bits seed k b)"
    and "hash_ok (previous_hash (header b))" "hash_ok (merkle_root (header b))" "hash_ok seed"
  shows "parse_job_response E ms raw = Ret (Some (template_job ms seed b, raw))"
  using assms
  by (simp add: parse_job_response_def try_step_def map_index_def template_json_def block_json_def header_json_def
      parse_hash_json template_job_def)

lemma job_header_template [simp]: "job_header (template_job ms seed b) n = (header b)\<lparr> nonce := n \<rparr>"
  by (simp add: job_header_def template_job_def)

lemma template_job_simps [simp]: "sj_height (template_job ms seed b) = height (header b)"
  "difficulty_bits (template_job ms seed b) = leading_zero_bits (header b)" "sj_epoch_seed (template_job ms seed b) = hash_bytes seed"
  by (simp_all add: template_job_def)

section \<open>From nonce to block\<close>

lemma submit_body_template:
  "text_value E raw = Some (template_json ci h prv bits seed k b) \<Longrightarrow>
    submit_body E job n (Some raw) = Ret (value_text E (block_json (with_nonce b n)))"
  by (simp add: submit_body_def template_json_def block_json_def header_json_def json_put_def)

lemma template_gross_template:
  "text_value E raw = Some (template_json ci h prv bits seed k b) \<Longrightarrow> template_gross E raw = first_output_atoms b"
  by (simp add: template_gross_def template_json_def block_json_def first_output_atoms_def tx_json_def output_json_def
      json_index_def json_at_def split: list.split)

lemma merkle_root_ok:
  assumes X: "digest_len X" and "\<forall>tx \<in> set txs. hash_ok (tx_id tx)"
  shows "hash_ok (merkle_root_of X txs)"
proof -
  have layer: "digest_len X \<Longrightarrow> list_all hash_ok (merkle_layer X ls)" for X ls
    by (induction X ls rule: merkle_layer.induct) (simp_all add: double_sha256_ok)
  have "digest_len X \<Longrightarrow> list_all hash_ok ls \<Longrightarrow> list_all hash_ok (merkle_loop X ls) \<and> (ls \<noteq> [] \<longrightarrow> merkle_loop X ls \<noteq> [])" for ls
  proof (induction X ls rule: merkle_loop.induct)
    case (1 X ls)
    show ?case
    proof (cases "1 < length ls")
      case True
      then have "merkle_layer X ls \<noteq> []" using length_merkle_layer [of X ls] by auto
      with 1 True layer show ?thesis by (subst (1 2) merkle_loop.simps) auto
    next
      case False
      with 1(3) show ?thesis by (subst (1 2) merkle_loop.simps) simp
    qed
  qed
  from this [OF X, of "map tx_id txs"] assms(2) show ?thesis
    by (auto simp: merkle_root_of_def list_all_iff ZERO_ok)
qed

lemma epoch_seed_ok: "digest_len X \<Longrightarrow> hash_ok (epoch_seed_for_height X s h)"
  using block_hash_ok by (auto simp: epoch_seed_for_height_def Let_def ZERO_ok split: option.splits)

lemma share_meets_work:
  assumes "leading_zero_bits (header b) \<le> share_zeros X (template_job ms seed b) n"
  shows "header_meets_work X (header (with_nonce b n)) seed"
proof -
  let ?z = "hash_leading_zero_bits (pow_hash X ((header b)\<lparr> nonce := n \<rparr>) seed)"
  have "unat (share_zeros X (template_job ms seed b) n) \<le> ?z"
    by (simp add: share_zeros_def stratum_zero_bits_def hash_leading_zero_bits_def unat_of_nat)
  with assms show ?thesis by (simp add: header_meets_work_def hash_meets_work_def word_le_nat_alt)
qed

text \<open>A template names 32-byte hashes, so the poller makes a job of it.\<close>

lemma template_hashes_ok:
  assumes X: "digest_len X" and n: "node_inv X p n"
    and t: "rpc_getblocktemplate X p env path n = Some (n1, [(200, TemplateBody ci h prv bits seed k b)], Ok ())"
    and ok: "block_ok b"
  shows "hash_ok (previous_hash (header b))" "hash_ok (merkle_root (header b))" "hash_ok seed" "height (header b) = h"
    "leading_zero_bits (header b) = bits"
proof -
  from template_answer [OF X n t] obtain s chain miner extra fees where
    b: "b = (candidate_block_for X p (Some (last chain)) (rpc_now env) miner extra fees)
      \<lparr> header := (header (candidate_block_for X p (Some (last chain)) (rpc_now env) miner extra fees))\<lparr> leading_zero_bits := bits \<rparr> \<rparr>"
    and h: "h = height (header (last chain)) + 1" and seed: "seed = epoch_seed_for_height X s h" by metis
  show "hash_ok (previous_hash (header b))" by (simp add: b candidate_header block_hash_ok X)
  show "hash_ok (merkle_root (header b))" using ok merkle_root_ok [OF X, of "transactions b"]
    by (simp add: b candidate_header block_ok_def)
  show "hash_ok seed" using epoch_seed_ok [OF X] by (simp add: seed)
  show "height (header b) = h" "leading_zero_bits (header b) = bits" by (simp_all add: b candidate_header next_height_def h)
qed

text \<open>The state after the poller has seen a template of another height.\<close>

lemma poller_takes_template:
  assumes get: "http_get_body E (''http://'' @ ss_node_rpc st @ ''/getblocktemplate/'' @ ss_treasury st) = Some raw"
    and js: "text_value E raw = Some (template_json ci h prv bits seed k b)"
    and ok: "hash_ok (previous_hash (header b))" "hash_ok (merkle_root (header b))" "hash_ok seed"
    and new: "height (header b) \<noteq> seen"
  obtains st1 where "poller_round E ms alive seen st = Ret (height (header b), st1)"
    and "current_job st1 = Some (template_job ms seed b)" and "hm_get (job_template_cache st1) (job_id (template_job ms seed b)) = Some raw"
    and "workers st1 = workers st" and "initial_diff_bits st1 = initial_diff_bits st" and "pool_ledger st1 = pool_ledger st"
    and "ss_node_rpc st1 = ss_node_rpc st" and "ss_blocks_found st1 = ss_blocks_found st"
proof -
  have fj: "fetch_job E ms (ss_node_rpc st) (ss_treasury st) = Ret (Some (template_job ms seed b, raw))"
    unfolding fetch_job_def get by (simp add: try_step_def parse_template [OF js ok])
  from that [of "snd (poll_job alive seen st (Some (template_job ms seed b, raw)))"] new
  show ?thesis by (simp add: poller_round_def fj poll_job_def Let_def)
qed

text \<open>A solved job of a cached template is posted to the node as the block it completes.\<close>

lemma solved_job_posted:
  assumes job: "current_job st = Some (template_job ms seed b)"
    and raw: "hm_get (job_template_cache st) (job_id (template_job ms seed b)) = Some raw"
    and js: "text_value E raw = Some (template_json ci h prv bits seed k b)"
    and rpc: "rsplit_once (CHR '':'') (ss_node_rpc st) = Some (host, port)"
    and nh: "le_hex_to_u64 nh = Ret (Some nn)"
    and z: "leading_zero_bits (header b) \<le> share_zeros X (template_job ms seed b) nn" "worker_bits_of st cid \<le> share_zeros X (template_job ms seed b) nn"
    and acc: "post_block E (host @ '':'' @ port) (value_text E (block_json (with_nonce b nn)))"
  obtains st' where "submit_share X (stratum_link E st) clk st cid wallet lj (job_id (template_job ms seed b)) nh = Ret (ShareAccepted, st')"
    and "ss_blocks_found st' = ss_blocks_found st + 1"
    and "pool_ledger st' = credit_block (pool_ledger st) (share_record st cid wallet (worker_bits_of st cid) (clk 0))
      (height (header b)) (hex_string (hash_bytes (block_hash X (with_nonce b nn)))) (first_output_atoms b)"
proof -
  let ?job = "template_job ms seed b" and ?bits = "worker_bits_of st cid"
  have sub: "stratum_submit_block E (ss_node_rpc st) ?job nn (Some raw) = Ret True"
    using acc by (simp add: stratum_submit_block_def rpc submit_body_template [OF js])
  have hash: "header_hash X (job_header ?job nn) = block_hash X (with_nonce b nn)" by (simp add: block_hash_def)
  obtain st1 where fb: "found_block X (stratum_link E st) clk st cid wallet ?job (job_id ?job) nn ?bits = Ret st1"
    and l: "pool_ledger st1 = credit_block (pool_ledger st) (share_record st cid wallet ?bits (clk 0))
      (height (header b)) (hex_string (hash_bytes (block_hash X (with_nonce b nn)))) (first_output_atoms b)"
    by (simp add: found_block_def Let_def raw stratum_link_def sub template_gross_template [OF js] hash del: job_header_template)
  have bt: "(?bits \<le> share_zeros X ?job nn) = True" "(difficulty_bits ?job \<le> share_zeros X ?job nn) = True" using z by simp_all
  have "submit_share X (stratum_link E st) clk st cid wallet lj (job_id ?job) nh = Ret (ShareAccepted,
      update_worker (accept_worker True (clk 1) (clk 2)) cid (st1\<lparr> shares_accepted := shares_accepted st1 + 1 \<rparr>))"
    by (simp add: submit_share_def job validate_share_eq nh bt fb del: template_job_simps)
  from that [OF this] l found_block_simps(4) [OF fb] show ?thesis by simp
qed

section \<open>A solved block\<close>

lemma all_sent: "\<forall>i. write_ok T i \<Longrightarrow> send_or_leave T k cid msgs st c = (msgs, Stays st c)"
  by (simp add: send_or_leave_def send_lines_def takeWhile_eq_all_conv [THEN iffD2])

definition submit_msg :: "json \<Rightarrow> string \<Rightarrow> string \<Rightarrow> json" where
  "submit_msg i jid nh = JObj [(''id'', i), (''method'', JStr ''mining.submit''),
     (''params'', JObj [(''job_id'', JStr jid), (''nonce'', JStr nh)])]"

lemma turn_submits:
  assumes "text_value (te_node T) l = Some (submit_msg i jid nh)" "l \<noteq> []" "authorized c" "\<forall>i. write_ok T i"
    and "submit_share X (stratum_link (te_node T) st) (unix_clock T) st cid (wallet_addr c) (last_job_id c) jid nh = Ret (ShareAccepted, st')"
  shows "stratum_turn X T cid peer [] (Line l) st c = (vardiff_msgs st st' cid @ [result_msg i (JStr ''accepted'') JNull], Stays st' c)"
  using assms
  by (simp add: stratum_turn_def send_lines_def on_input_def on_message_def on_submit_def submit_msg_def all_sent)

text \<open>
  C6. Pool mining works end to end. When the poller fetches a template of a new height from the node
  and an authorised worker submits a nonce whose hash reaches both its share difficulty and the
  difficulty of the job, the server posts the completed block, the node accepts it as its new tip, the
  worker is told so, and the ledger is credited with the reward of exactly that block, split over the
  window with the winning share in it. (The block is new to the node, the clock of the node at most the
  permitted drift behind, and neither height nor work at the end of its range.)
\<close>

theorem stratum_block_mined:
  assumes X: "digest_len X" and n: "node_inv X p n"
    and t: "rpc_getblocktemplate X p env (''/getblocktemplate/'' @ ss_treasury st) n = Some (n1, [(200, TemplateBody ci h prv bits seed k b)], Ok ())"
    and get: "http_get_body E (''http://'' @ ss_node_rpc st @ ''/getblocktemplate/'' @ ss_treasury st) = Some raw"
    and js: "text_value E raw = Some (template_json ci h prv bits seed k b)" and new: "h \<noteq> seen"
    and T: "te_node T = E" "\<forall>i. write_ok T i" and c: "authorized c"
    and line: "text_value E l = Some (submit_msg i (job_id (template_job ms seed b)) nh)" "l \<noteq> []"
    and nh: "le_hex_to_u64 nh = Ret (Some nn)"
    and z: "bits \<le> share_zeros X (template_job ms seed b) nn" "worker_bits_of st cid \<le> share_zeros X (template_job ms seed b) nn"
    and rpc: "rsplit_once (CHR '':'') (ss_node_rpc st) = Some (host, port)"
    and m: "m = with_nonce b nn" and body: "body = value_text E (block_json m)"
    and post: "post_block E (host @ '':'' @ port) body = Pool_Safety.node_accepts (rpc_submitblock X p env2 body n1)"
    and node: "block_from_json env2 body = Ok m" "rpc_lock env2 = None" "rpc_now env \<le> rpc_now env2 + max_future_block_time_seconds p"
    and ok: "block_ok m" "block_hash X m \<noteq> ZERO" "\<not> block_known (node_chain n) (block_hash X m)"
    and room: "h \<noteq> 0" "unat (node_work n) < 2 ^ 128 - 1"
  shows "\<exists>st1 st2 n2 sent. poller_round E ms alive seen st = Ret (h, st1)
    \<and> stratum_turn X T cid peer [] (Line l) st1 c = (sent @ [result_msg i (JStr ''accepted'') JNull], Stays st2 c)
    \<and> rpc_submitblock X p env2 body n1 = Some (n2, [(200, SubmittedBody h (block_hash X m) True)], Ok ())
    \<and> canonical_blocks_iter (node_chain n2) = canonical_blocks_iter (node_chain n) @ [m]
    \<and> ss_blocks_found st2 = ss_blocks_found st + 1
    \<and> pool_ledger st2 = credit_block (pool_ledger st) (share_record st cid (wallet_addr c) (worker_bits_of st cid) (unix_clock T 0))
        h (hex_string (hash_bytes (block_hash X m))) (first_output_atoms m)"
proof -
  have "block_ok b" using ok(1) by (simp add: m block_ok_def)
  note H = template_hashes_ok [OF X n t this]
  have pow: "header_meets_work X (header m) seed" using share_meets_work z(1) by (simp add: m H)
  obtain n2 where n2: "rpc_submitblock X p env2 body n1 = Some (n2, [(200, SubmittedBody h (block_hash X m) True)], Ok ())"
      "canonical_blocks_iter (node_chain n2) = canonical_blocks_iter (node_chain n) @ [m]"
    using template_mined [OF X n t m [unfolded with_nonce_def] pow node ok room] by blast
  with post have acc: "post_block E (host @ '':'' @ port) (value_text E (block_json (with_nonce b nn)))"
    by (simp add: Pool_Safety.node_accepts_def body m)
  obtain st1 where st1: "poller_round E ms alive seen st = Ret (h, st1)" "current_job st1 = Some (template_job ms seed b)"
      "hm_get (job_template_cache st1) (job_id (template_job ms seed b)) = Some raw"
    and same: "workers st1 = workers st" "initial_diff_bits st1 = initial_diff_bits st" "pool_ledger st1 = pool_ledger st"
      "ss_node_rpc st1 = ss_node_rpc st" "ss_blocks_found st1 = ss_blocks_found st"
    using poller_takes_template [OF get js H(1-3), of seen ms alive] new H(4) by metis
  have w: "worker_bits_of st1 cid = worker_bits_of st cid" "share_record st1 cid a d u = share_record st cid a d u" for a d u
    by (simp_all add: worker_bits_of_def share_record_def worker_name_of_def same cong: option.case_cong)
  obtain st2 where sub: "submit_share X (stratum_link E st1) (unix_clock T) st1 cid (wallet_addr c) (last_job_id c) (job_id (template_job ms seed b)) nh
      = Ret (ShareAccepted, st2)" "ss_blocks_found st2 = ss_blocks_found st1 + 1"
      "pool_ledger st2 = credit_block (pool_ledger st1) (share_record st1 cid (wallet_addr c) (worker_bits_of st1 cid) (unix_clock T 0))
        (height (header b)) (hex_string (hash_bytes (block_hash X (with_nonce b nn)))) (first_output_atoms b)"
    using solved_job_posted [OF st1(2,3) js, of host port nh nn X cid] rpc nh z acc H(5) by (metis same(4) w(1))
  have "first_output_atoms m = first_output_atoms b" by (simp add: first_output_atoms_def m)
  with turn_submits [of T l i _ nh c X st1 cid st2 peer] line sub n2 st1(1) same w T c H(4) m show ?thesis by fastforce
qed

text \<open>A server and a node on the concrete chain; the text of a request tells its answer apart.\<close>

definition mining_template :: Block where
  "mining_template = sealed (candidate_block_for peek_ext MAINNET (Some peek_genesis) 1060 ''m'' [] 0) 42 0"

definition pool_wire :: "string \<Rightarrow> Hash256 \<Rightarrow> Hash256 \<Rightarrow> nat \<Rightarrow> stratum_env" where
  "pool_wire ci prv seed k =
     \<lparr> wire = (\<lambda>_ request. Some (crlf @ crlf @ (if starts_with ''GET'' request then ''t'' else ''y''), True)),
       text_value = (\<lambda>s. if s = ''t'' then Some (template_json ci 1 prv 42 seed k mining_template)
         else if s = ''y'' then Some (JObj [(''accepted'', JBool True)])
         else Some (submit_msg JNull (job_id (template_job 0 seed mining_template)) ''09'')),
       value_text = (\<lambda>_. ''b''), ledger_write = Written \<rparr>"

definition pool_turn :: "stratum_env \<Rightarrow> turn_env" where
  "pool_turn E = \<lparr> te_node = E, unix_clock = (\<lambda>_. 0), unix_millis = 0, instant = 0, write_ok = (\<lambda>_. True) \<rparr>"

definition pool_server :: StratumState where
  "pool_server = new_stratum_state ''n:1'' ''m'' 65536 ledger_default ''l'' Absent"

lemma pool_wire_answers:
  "http_get_body (pool_wire ci prv seed k) (''http://'' @ ''n:1'' @ ''/getblocktemplate/'' @ ''m'') = Some ''t''"
  "post_block (pool_wire ci prv seed k) addr body"
  by (simp_all add: http_get_body_def rsplit_once_def pool_wire_def second_part_def crlf_def post_block_def Let_def as_bool_def)

theorem stratum_block_mined_witness:
  "\<exists>E st1 st2 sent n1 n2. poller_round E 0 (\<lambda>_. True) 0 pool_server = Ret (1, st1)
    \<and> stratum_turn peek_ext (pool_turn E) ''c'' ''p'' [] (Line ''l'') st1 \<lparr> authorized = True, wallet_addr = ''a'', last_job_id = [], last_ping = 0 \<rparr>
      = (sent @ [result_msg JNull (JStr ''accepted'') JNull], Stays st2 \<lparr> authorized = True, wallet_addr = ''a'', last_job_id = [], last_ping = 0 \<rparr>)
    \<and> rpc_submitblock peek_ext MAINNET mining_env ''b'' n1 = Some (n2, [(200, SubmittedBody 1 (block_hash peek_ext mined_block) True)], Ok ())
    \<and> canonical_blocks_iter (node_chain n2) = [peek_genesis, mined_block] \<and> ss_blocks_found st2 = 1"
proof -
  from peek_template obtain n1 ci prv seed k where t: "rpc_getblocktemplate peek_ext MAINNET mining_env ''/getblocktemplate/m'' peek_node
    = Some (n1, [(200, TemplateBody ci 1 prv 42 seed k mining_template)], Ok ())" unfolding mining_template_def by blast
  let ?E = "pool_wire ci prv seed k" and ?c = "\<lparr> authorized = True, wallet_addr = ''a'', last_job_id = [], last_ping = 0 \<rparr>"
  have m: "mined_block = with_nonce mining_template 9" by (simp add: mined_block_def mining_template_def sealed_def with_nonce_def)
  have srv: "ss_node_rpc pool_server = ''n:1''" "ss_treasury pool_server = ''m''" "ss_blocks_found pool_server = 0" "worker_bits_of pool_server ''c'' \<le> 255"
    by (simp_all add: pool_server_def new_stratum_state_def worker_bits_of_def diff_to_bits_def diff_to_bits_loop.simps)
  have env: "te_node (pool_turn ?E) = ?E" "write_ok (pool_turn ?E) = (\<lambda>_. True)" "value_text ?E v = ''b''"
    "text_value ?E ''t'' = Some (template_json ci 1 prv 42 seed k mining_template)"
    "text_value ?E ''l'' = Some (submit_msg JNull (job_id (template_job 0 seed mining_template)) ''09'')" for v
    by (simp_all add: pool_turn_def pool_wire_def)
  have nh: "le_hex_to_u64 ''09'' = Ret (Some 9)"
    by (simp add: le_hex_to_u64_def from_str_radix16_def hex_digit_val_def u64_from_le_def)
  have zeros: "share_zeros peek_ext job nn = 255" for job nn
    using peek_pow_hash [of "job_header job nn" "Hash256 (sj_epoch_seed job)"]
    by (simp add: share_zeros_def stratum_zero_bits_def hash_leading_zero_bits_def)
  have hd: "chain_id (header mined_block) = ''tensorium-mainnet''" "height (header mined_block) = 1"
    by (simp_all add: mined_block_def sealed_def candidate_header next_height_def peek_genesis_header) (simp add: mainnet_defs)
  have ok: "block_ok mined_block" unfolding mined_block_def by (rule sealed_block_ok) simp
  have new: "\<not> block_known (node_chain peek_node) (block_hash peek_ext mined_block)"
    by (rule peek_not_known) (simp_all add: hd peek_node_def)
  have room: "unat (node_work peek_node) < 2 ^ 128 - 1"
    by (simp add: peek_iter path_work_def block_work_def peek_genesis_header)
  have menv: "block_from_json mining_env body = Ok mined_block" "rpc_lock mining_env = None" "rpc_now mining_env = 1060" for body
    by (simp_all add: mining_env_def admin_env_def)
  have js: "(1060 :: u64) \<le> 1060 + max_future_block_time_seconds MAINNET" by (simp add: mainnet_defs)
  obtain n2 where acc: "rpc_submitblock peek_ext MAINNET mining_env ''b'' n1 = Some (n2, [(200, SubmittedBody 1 (block_hash peek_ext mined_block) True)], Ok ())"
    using template_mined [OF peek_digest_len peek_node_inv(1) t m [unfolded with_nonce_def], of mining_env "''b''"] menv ok new room js by auto
  show ?thesis
    using stratum_block_mined [where X = peek_ext and p = MAINNET and n = peek_node and env = mining_env and st = pool_server
        and E = ?E and raw = "''t''" and T = "pool_turn ?E" and c = ?c and l = "''l''" and nh = "''09''" and nn = 9 and host = "''n''"
        and port = "''1''" and m = mined_block and body = "''b''" and ?env2.0 = mining_env and seen = 0 and ms = 0 and cid = "''c''"
        and peer = "''p''" and alive = "\<lambda>_. True" and i = JNull, OF peek_digest_len peek_node_inv(1)]
      t srv env nh zeros ok new room menv js m acc pool_wire_answers
    by (simp add: rsplit_once_def peek_iter node_accepts_def) blast
qed

section \<open>A solved block submitted again\<close>

text \<open>
  The server keeps no record of shares: when a worker sends a winning nonce again, the node answers
  that it has accepted the block, and the reward of the same block is credited once more.
\<close>

lemma replayed_block_credited:
  assumes X: "digest_len X" and n: "node_inv X p n" and lk: "rpc_lock env = None"
    and m: "with_nonce b nn \<in> set (canonical_blocks_iter (node_chain n))"
    and body: "body = value_text E (block_json (with_nonce b nn))" "block_from_json env body = Ok (with_nonce b nn)"
    and post: "post_block E (host @ '':'' @ port) body = Pool_Safety.node_accepts (rpc_submitblock X p env body n)"
    and job: "current_job st = Some (template_job ms seed b)" "hm_get (job_template_cache st) (job_id (template_job ms seed b)) = Some raw"
      "text_value E raw = Some (template_json ci h prv bits seed k b)"
    and rpc: "rsplit_once (CHR '':'') (ss_node_rpc st) = Some (host, port)"
    and nh: "le_hex_to_u64 nh = Ret (Some nn)"
    and z: "leading_zero_bits (header b) \<le> share_zeros X (template_job ms seed b) nn" "worker_bits_of st cid \<le> share_zeros X (template_job ms seed b) nn"
  shows "\<exists>st'. submit_share X (stratum_link E st) clk st cid wallet lj (job_id (template_job ms seed b)) nh = Ret (ShareAccepted, st')
    \<and> pool_ledger st' = credit_block (pool_ledger st) (share_record st cid wallet (worker_bits_of st cid) (clk 0))
      (height (header b)) (hex_string (hash_bytes (block_hash X (with_nonce b nn)))) (first_output_atoms b)"
proof -
  have "Pool_Safety.node_accepts (rpc_submitblock X p env body n)"
    using known_answer [OF X n lk body(2) m] by (auto simp: Pool_Safety.node_accepts_def)
  then have "post_block E (host @ '':'' @ port) (value_text E (block_json (with_nonce b nn)))" using post body(1) by simp
  then show ?thesis using solved_job_posted [OF job rpc nh z] by metis
qed

end
