(* ===== verification/Stratum_Invariant.thy ===== *)
theory Stratum_Invariant
  imports Stratum_Mining
begin

text \<open>
  The stratum server as a state machine: connections come, take turns and go, the poller fetches jobs,
  and the other services change the shared ledger. Any interleaving of such steps, with any node behind
  it, keeps the template of the current job, so that a solved block is never handed over without its
  transactions, and keeps every difficulty in its band.
\<close>

section \<open>Steps\<close>

inductive stratum_step :: "ext \<Rightarrow> (string \<Rightarrow> json option) \<Rightarrow> StratumState \<Rightarrow> StratumState \<Rightarrow> bool" for X rd where
  accepts: "stratum_step X rd st (snd (accept_stratum now peer st))"
| turns: "text_value (te_node T) = rd \<Longrightarrow> snd (stratum_turn X T cid peer jobs inp st c) = Stays st' c' \<Longrightarrow> stratum_step X rd st st'"
| hangs_up: "text_value (te_node T) = rd \<Longrightarrow> snd (stratum_turn X T cid peer jobs inp st c) = Leaves st' \<Longrightarrow> stratum_step X rd st st'"
| polls: "text_value E = rd \<Longrightarrow> poller_round E ms alive seen st = Ret (h, st') \<Longrightarrow> stratum_step X rd st st'"
| ledger_moves: "stratum_step X rd st (st\<lparr> pool_ledger := l, ss_ledger_file := f \<rparr>)"

definition stratum_reachable :: "ext \<Rightarrow> (string \<Rightarrow> json option) \<Rightarrow> StratumState \<Rightarrow> bool" where
  "stratum_reachable X rd st \<longleftrightarrow> (\<exists>rpc treasury diff l path file. (stratum_step X rd)\<^sup>*\<^sup>* (new_stratum_state rpc treasury diff l path file) st)"

section \<open>What a turn keeps\<close>

definition bands :: "StratumState \<Rightarrow> bool" where
  "bands st \<longleftrightarrow> (bits_in_band (initial_diff_bits st) \<longrightarrow>
     (\<forall>cid w. hm_get (workers st) cid = Some w \<longrightarrow> bits_in_band (ws_share_diff_bits w)))"

definition keeps_jobs :: "StratumState \<Rightarrow> StratumState \<Rightarrow> bool" where
  "keeps_jobs st st' \<longleftrightarrow> current_job st' = current_job st \<and> job_template_cache st' = job_template_cache st
     \<and> initial_diff_bits st' = initial_diff_bits st \<and> (bands st \<longrightarrow> bands st')"

lemma keeps_jobs_refl [simp]: "keeps_jobs st st"
  by (simp add: keeps_jobs_def)

lemma keeps_jobs_trans: "keeps_jobs st st1 \<Longrightarrow> keeps_jobs st1 st2 \<Longrightarrow> keeps_jobs st st2"
  by (simp add: keeps_jobs_def)

lemma keeps_update_worker:
  assumes "\<And>w. bits_in_band (ws_share_diff_bits w) \<Longrightarrow> bits_in_band (ws_share_diff_bits (f w))"
  shows "keeps_jobs st (update_worker f cid st)"
  using assms by (auto simp: keeps_jobs_def bands_def update_worker_def split: option.splits)

lemma keeps_disconnect: "keeps_jobs st (disconnect st cid)"
  by (auto simp: keeps_jobs_def bands_def disconnect_def split: if_splits)

lemma keeps_counters [simp]:
  "keeps_jobs st (st\<lparr> shares_rejected := r \<rparr>)" "keeps_jobs st (st\<lparr> shares_accepted := r \<rparr>)" "keeps_jobs st (st\<lparr> pool_ledger := l \<rparr>)"
  "keeps_jobs st (st\<lparr> ss_blocks_found := r \<rparr>)" "keeps_jobs st (st\<lparr> pool_ledger := l, ss_ledger_file := f \<rparr>)"
  "keeps_jobs st (st\<lparr> pool_ledger := l, ss_ledger_file := f, ss_blocks_found := r \<rparr>)"
  by (simp_all add: keeps_jobs_def bands_def)

lemma keeps_authorize: "keeps_jobs st (authorize clk st cid peer auth)"
  by (auto simp: keeps_jobs_def bands_def authorize_def split_beta)

lemma keeps_found_block: "found_block X nd clk st cid wa job jid n b = Ret st1 \<Longrightarrow> keeps_jobs st st1"
  by (auto simp: found_block_def Let_def split: outcome.splits if_splits)

lemma keeps_accept:
  assumes "keeps_jobs st st1"
  shows "keeps_jobs st (update_worker (accept_worker b t u) cid (st1\<lparr> shares_accepted := a \<rparr>))"
  by (rule keeps_jobs_trans [OF keeps_jobs_trans [OF assms keeps_counters(2)] keeps_update_worker]) (simp add: accept_worker_band)

lemmas keeps_accept_push = keeps_jobs_trans [OF keeps_accept keeps_counters(3)]

lemma keeps_reject:
  "keeps_jobs st (update_worker reject_stale cid (st\<lparr> shares_rejected := r \<rparr>))"
  "keeps_jobs st (update_worker (reject_worker t) cid (st\<lparr> shares_rejected := r \<rparr>))"
  by (rule keeps_jobs_trans [OF keeps_counters(1) keeps_update_worker]; simp)+

lemma keeps_submit:
  assumes "submit_share X nd clk st cid wallet lj jid nh = Ret (r, st')"
  shows "keeps_jobs st st'"
proof (cases "current_job st")
  case None
  with assms show ?thesis by (simp add: submit_share_def)
next
  case (Some job)
  show ?thesis
  proof (cases "job_id job \<noteq> jid \<and> jid \<noteq> lj")
    case True
    with assms Some keeps_reject(1) show ?thesis by (auto simp: submit_share_def)
  next
    case False
    note S = assms [unfolded submit_share_def Let_def Some option.case if_not_P [OF False]]
    from S keeps_reject(2) show ?thesis
      by (auto split: outcome.splits option.splits bool.splits if_splits dest!: keeps_found_block
          intro!: keeps_accept keeps_accept_push)
  qed
qed

definition turn_keeps :: "StratumState \<Rightarrow> turn_result \<Rightarrow> bool" where
  "turn_keeps st r \<longleftrightarrow> (case r of Stays st' _ \<Rightarrow> keeps_jobs st st' | Leaves st' \<Rightarrow> keeps_jobs st st' | Dies \<Rightarrow> True)"

lemma turn_keeps_simps [simp]:
  "turn_keeps st (Stays st' c) = keeps_jobs st st'" "turn_keeps st (Leaves st') = keeps_jobs st st'" "turn_keeps st Dies"
  by (simp_all add: turn_keeps_def)

lemma keeps_send: "keeps_jobs st st1 \<Longrightarrow> turn_keeps st (snd (send_or_leave T k cid msgs st1 c))"
  by (simp add: send_or_leave_def split_beta keeps_jobs_trans [OF _ keeps_disconnect])

lemma keeps_on_submit: "turn_keeps st (snd (on_submit X T k cid msg st c))"
proof -
  have "turn_keeps st (snd (case s of Panic \<Rightarrow> ([], Dies)
      | Ret (ShareStale, st') \<Rightarrow> (x, Stays st' c)
      | Ret (ShareAccepted, st') \<Rightarrow> send_or_leave T k cid (m1 st') st' c
      | Ret (ShareRejected, st') \<Rightarrow> send_or_leave T k cid m2 st' c))"
    if "\<And>r st'. s = Ret (r, st') \<Longrightarrow> keeps_jobs st st'" for s x m1 m2
    using that by (auto intro!: keeps_send split: outcome.split submit_reply.split)
  from this [OF keeps_submit] show ?thesis unfolding on_submit_def Let_def .
qed

lemma keeps_on_input: "turn_keeps st (snd (on_input X T k cid peer inp st c))"
proof -
  have auth: "turn_keeps st (snd (on_authorize T k cid peer msg st c))" for msg
    by (simp add: on_authorize_def Let_def keeps_send keeps_authorize split: option.split)
  have pong: "keeps_jobs st (pong clk st cid)" for clk
    unfolding pong_def by (rule keeps_update_worker) simp
  have "turn_keeps st (snd (on_message X T k cid peer msg st c))" for msg
    by (simp add: on_message_def Let_def keeps_send keeps_on_submit auth pong)
  then show ?thesis by (simp add: on_input_def keeps_send keeps_disconnect split: stratum_input.split option.split)
qed

lemma keeps_turn: "turn_keeps st (snd (stratum_turn X T cid peer jobs inp st c))"
  using keeps_on_input keeps_disconnect
  by (simp add: stratum_turn_def Let_def split_beta split: prod.split bool.split)

section \<open>The invariant\<close>

text \<open>The template of the current job is kept, and it is the text the job was read from.\<close>

definition job_cached :: "(string \<Rightarrow> json option) \<Rightarrow> StratumState \<Rightarrow> bool" where
  "job_cached rd st \<longleftrightarrow> (\<forall>job. current_job st = Some job \<longrightarrow>
     (\<exists>E ms raw. text_value E = rd \<and> parse_job_response E ms raw = Ret (Some (job, raw)) \<and> hm_get (job_template_cache st) (job_id job) = Some raw))"

definition stratum_inv :: "(string \<Rightarrow> json option) \<Rightarrow> StratumState \<Rightarrow> bool" where
  "stratum_inv rd st \<longleftrightarrow> job_cached rd st \<and> hm_ok (job_template_cache st) \<and> length (job_template_cache st) \<le> 2 \<and> bands st"

lemma keeps_inv: "keeps_jobs st st' \<Longrightarrow> stratum_inv rd st \<Longrightarrow> stratum_inv rd st'"
  by (auto simp: keeps_jobs_def stratum_inv_def job_cached_def)

lemma parse_job_raw: "parse_job_response E ms resp = Ret (Some (job, raw)) \<Longrightarrow> raw = resp"
  by (auto simp: parse_job_response_def try_step_def split: outcome.splits option.splits)

lemma fetch_job_parses:
  "fetch_job E ms rpc tr = Ret (Some (job, raw)) \<Longrightarrow> parse_job_response E ms raw = Ret (Some (job, raw))"
  using parse_job_raw [of E ms _ job raw] by (force simp: fetch_job_def try_step_def split: outcome.splits option.splits)

lemma one_key: "hm_ok m \<Longrightarrow> length (filter (\<lambda>(k, _). Some k = r) m) \<le> 1"
proof (induction m)
  case (Cons x m)
  then have "filter (\<lambda>(k, _). Some k = r) m = []" if "Some (fst x) = r"
    using that by (auto simp: filter_empty_conv image_iff)
  with Cons show ?case by (cases x) (auto split: if_splits)
qed simp

lemma length_insert: "length (hm_insert k v m) \<le> Suc (length m)"
  by (induction m) auto

lemma poll_inv:
  assumes inv: "stratum_inv rd st" and E: "text_value E = rd" and p: "poller_round E ms alive seen st = Ret (h, st')"
  shows "stratum_inv rd st'"
proof -
  obtain f where f: "fetch_job E ms (ss_node_rpc st) (ss_treasury st) = Ret f" "st' = snd (poll_job alive seen st f)"
    using p by (auto simp: poller_round_def split: outcome.splits)
  show ?thesis
  proof (cases "\<exists>job raw. f = Some (job, raw) \<and> sj_height job \<noteq> seen")
    case True
    then obtain job raw where j: "f = Some (job, raw)" "sj_height job \<noteq> seen" by blast
    let ?old = "if 2 \<le> length (job_template_cache st)
      then filter (\<lambda>(k, _). Some k = map_option job_id (current_job st)) (job_template_cache st) else job_template_cache st"
    have st': "current_job st' = Some job" "job_template_cache st' = hm_insert (job_id job) raw ?old" "workers st' = workers st"
      "initial_diff_bits st' = initial_diff_bits st" using f(2) j by (simp_all add: poll_job_def Let_def)
    have old: "hm_ok ?old" "length ?old \<le> 1"
      using inv one_key [of "job_template_cache st" "map_option job_id (current_job st)"]
      by (auto simp: stratum_inv_def distinct_map_filter)
    have "job_cached rd st'"
      using fetch_job_parses f(1) j(1) E by (fastforce simp: job_cached_def st')
    moreover have "bands st'" using inv by (simp add: stratum_inv_def bands_def st')
    ultimately show ?thesis using old length_insert [of "job_id job" raw ?old] by (simp add: stratum_inv_def st'(2))
  next
    case False
    then have "st' = st" using f(2) by (auto simp: poll_job_def split: option.splits)
    with inv show ?thesis by simp
  qed
qed

lemma step_inv: "stratum_step X rd st st' \<Longrightarrow> stratum_inv rd st \<Longrightarrow> stratum_inv rd st'"
proof (induction rule: stratum_step.induct)
  case (accepts st now peer)
  then show ?case using keeps_inv [of st "snd (accept_stratum now peer st)"]
    by (simp add: accept_stratum_def Let_def connect_def keeps_jobs_def bands_def)
next
  case (turns T cid peer jobs inp st c st' c')
  with keeps_turn [of st X T cid peer jobs inp c] show ?case using keeps_inv by simp
next
  case (hangs_up T cid peer jobs inp st c st')
  with keeps_turn [of st X T cid peer jobs inp c] show ?case using keeps_inv by simp
next
  case (polls E ms alive seen st h st')
  then show ?case using poll_inv by blast
next
  case (ledger_moves st l f)
  then show ?case using keeps_inv keeps_counters(5) by blast
qed

lemma stratum_reachable_inv: "stratum_reachable X rd st \<Longrightarrow> stratum_inv rd st"
proof -
  assume "stratum_reachable X rd st"
  then obtain st0 where "(stratum_step X rd)\<^sup>*\<^sup>* st0 st" "stratum_inv rd st0"
    by (auto simp: stratum_reachable_def) (auto simp: stratum_inv_def job_cached_def bands_def new_stratum_state_def)
  then show ?thesis by (induction rule: rtranclp_induct) (auto intro: step_inv)
qed

section \<open>Solved blocks keep their transactions\<close>

lemma json_at_null: "json_at v k = JObj kvs \<Longrightarrow> \<exists>kvs'. v = JObj kvs'"
  by (cases v) (auto simp: json_at_def)

lemma as_object_iff: "as_object v = Some kvs \<longleftrightarrow> v = JObj kvs"
  by (cases v) auto

lemma parsed_template:
  assumes "parse_job_response E ms raw = Ret (Some (job, raw))"
  obtains v top tpl hdr where "text_value E raw = Some v" "v = JObj top" "json_at v ''template'' = JObj tpl"
    "json_at (JObj tpl) ''header'' = JObj hdr"
proof -
  from assms obtain v hdr where v: "text_value E raw = Some v" and h: "json_at (json_at v ''template'') ''header'' = JObj hdr"
    by (auto simp: parse_job_response_def try_step_def as_object_iff split: outcome.splits option.splits)
  then obtain tpl where "json_at v ''template'' = JObj tpl" using json_at_null by blast
  moreover then obtain topm where "v = JObj topm" using json_at_null by blast
  ultimately show ?thesis using that v h by simp
qed

lemma json_at_insert [simp]: "json_at (JObj (hm_insert k v kvs)) k' = (if k' = k then v else json_at (JObj kvs) k')"
  by (simp add: json_at_def)

lemma cached_body:
  assumes "parse_job_response E ms raw = Ret (Some (job, raw))" and E: "text_value E' = text_value E"
  shows "\<exists>v inner. text_value E raw = Some v \<and> submit_body E' j n (Some raw) = Ret (value_text E' inner)
    \<and> (\<forall>key. json_at (json_at inner ''header'') key
        = (if key = ''nonce'' then JNum n else json_at (json_at (json_at v ''template'') ''header'') key))
    \<and> json_at inner ''transactions'' = json_at (json_at v ''template'') ''transactions''"
proof -
  obtain v top tpl hdr where p: "text_value E raw = Some v" "v = JObj top" "json_at v ''template'' = JObj tpl"
    "json_at (JObj tpl) ''header'' = JObj hdr" by (rule parsed_template [OF assms(1)])
  let ?inner = "JObj (hm_insert ''header'' (JObj (hm_insert ''nonce'' (JNum n) hdr)) tpl)"
  have t: "json_at (JObj top) ''template'' = JObj tpl" using p by simp
  have "submit_body E' j n (Some raw) = Ret (value_text E' ?inner)"
    by (simp add: submit_body_def E p(1,2) json_put_def t p(4))
  with p(1,3,4) show ?thesis by (intro exI [of _ v] exI [of _ ?inner]) simp
qed


definition small_template :: Block where
  "small_template = \<lparr> header = \<lparr> version = 1, chain_id = ''c'', height = 1, previous_hash = ZERO, merkle_root = ZERO,
     timestamp_seconds = 5, leading_zero_bits = 40, nonce = 0 \<rparr>, transactions = [] \<rparr>"

definition small_env :: stratum_env where
  "small_env = \<lparr> wire = (\<lambda>_ _. Some (crlf @ crlf @ ''t'', True)),
     text_value = (\<lambda>_. Some (template_json ''c'' 1 ZERO 40 ZERO 0 small_template)), value_text = (\<lambda>_. ''b''), ledger_write = Written \<rparr>"

text \<open>A nonce with a two-byte character after one digit.\<close>

definition bad_nonce :: string where
  "bad_nonce = [CHR ''0'', CHR 0xC3, CHR 0xA9]"


end
