(* ===== verification/Pool_Payout.thy ===== *)
theory Pool_Payout
  imports Pool_Http
begin

text \<open>
  The rest of \<open>crates/tensorium-pool/src/payout.rs\<close> and the start of the service in \<open>main.rs\<close>: the
  payout scheduler runs the program \<open>txmwallet\<close> and asks the node for coins. Running a program is an
  argument: it takes the arguments and the environment variables set for it and gives the exit status
  and what the program wrote, and may change the world. The cycle itself is \<open>run_cycle\<close> of
  \<open>Pool_Accounting\<close>. The last section shows what a payment that the node refuses does to the ledger.
\<close>

section \<open>Configuration\<close>

record PayoutConfig =
  wallet_path :: string
  wallet_passphrase :: string
  pc_node_rpc :: string
  threshold_atoms :: u64
  interval_secs :: u64
  pc_ledger_path :: string

record serve_vars =
  sv_node_rpc :: "string option"
  sv_treasury :: "string option"
  sv_hot_wallet :: "string option"
  sv_hot_max :: "string option"
  sv_ledger :: "string option"
  sv_share_diff :: "string option"
  sv_treasury_wallet :: "string option"
  sv_treasury_passphrase :: "string option"
  sv_threshold :: "string option"
  sv_interval :: "string option"

definition DEFAULT_NODE_RPC :: string where "DEFAULT_NODE_RPC = ''127.0.0.1:33332''"

text \<open>\<open>env::var(..).ok().and_then(|s| s.parse::<u64>().ok())\<close>\<close>

definition var_u64 :: "string option \<Rightarrow> u64 option" where
  "var_u64 v = map_option of_nat (Option.bind v (parse_uint 64))"

definition u64_or :: "u64 option \<Rightarrow> u64 \<Rightarrow> u64" where
  "u64_or v dflt = (case v of Some n \<Rightarrow> n | None \<Rightarrow> dflt)"

definition payout_config :: "serve_vars \<Rightarrow> PayoutConfig option" where
  "payout_config V =
     (case (sv_treasury_wallet V, sv_treasury_passphrase V) of
        (Some wp, Some pp) \<Rightarrow>
          if pp = [] then None
          else Some \<lparr> wallet_path = wp, wallet_passphrase = pp, pc_node_rpc = var_or (sv_node_rpc V) DEFAULT_NODE_RPC,
            threshold_atoms = u64_or (var_u64 (sv_threshold V)) 500000000, interval_secs = u64_or (var_u64 (sv_interval V)) 300,
            pc_ledger_path = var_or (sv_ledger V) DEFAULT_LEDGER_PATH \<rparr>
      | _ \<Rightarrow> None)"

text \<open>The states that \<open>serve\<close> starts its threads with; they share one ledger.\<close>

definition serve_setup ::
  "serve_vars \<Rightarrow> PayoutLedger stored \<Rightarrow> (PoolState \<times> StratumState \<times> PayoutConfig option, string) result" where
  "serve_setup V file =
     (case sv_treasury V of
        None \<Rightarrow> Err ''TENSORIUM_POOL_TREASURY env var required (pool treasury wallet address)''
      | Some treasury \<Rightarrow>
          let rpc = var_or (sv_node_rpc V) DEFAULT_NODE_RPC; path = var_or (sv_ledger V) DEFAULT_LEDGER_PATH;
              share_diff = u64_or (var_u64 (sv_share_diff V)) 268435456; l = ledger_load file in
          Ok (new_pool_state rpc treasury (sv_hot_wallet V) (var_u64 (sv_hot_max V)) path l,
              new_stratum_state rpc treasury share_diff l path file, payout_config V))"

section \<open>Running the wallet program\<close>

datatype proc = NotRun string | Exited bool string string

record 'w payout_env =
  run_program :: "string list \<Rightarrow> (string \<times> string) list \<Rightarrow> 'w \<Rightarrow> proc \<times> 'w"
  node_text :: "string \<Rightarrow> string \<Rightarrow> (string, string) result"
  read_coins :: "string \<Rightarrow> ((u64 \<times> bool) list, string) result"
  write_ledger :: "PayoutLedger \<Rightarrow> 'w \<Rightarrow> 'w"

definition wallet_vars :: "PayoutConfig \<Rightarrow> (string \<times> string) list" where
  "wallet_vars cfg = [(''TENSORIUM_WALLET'', wallet_path cfg), (''TENSORIUM_WALLET_PASSPHRASE'', wallet_passphrase cfg)]"

definition payment_vars :: "PayoutConfig \<Rightarrow> (string \<times> string) list" where
  "payment_vars cfg = wallet_vars cfg @ [(''TENSORIUM_RPC'', pc_node_rpc cfg)]"

text \<open>The file named by the first line \<open>written=..\<close>\<close>

definition written_path :: "string \<Rightarrow> string" where
  "written_path stdout =
     (case find (starts_with ''written='') (str_lines stdout) of
        Some line \<Rightarrow> drop 8 line | None \<Rightarrow> ''tensorium-signed-tx.json'')"

definition failure_text :: "string \<Rightarrow> string \<Rightarrow> string" where
  "failure_text stdout stderr = (if trim stderr \<noteq> [] then trim stderr else trim stdout)"

definition wallet_address :: "'w payout_env \<Rightarrow> PayoutConfig \<Rightarrow> 'w \<Rightarrow> (string, string) result \<times> 'w" where
  "wallet_address E cfg w =
     (case run_program E [''getnewaddress''] (wallet_vars cfg) w of
        (NotRun e, w) \<Rightarrow> (Err (''run txmwallet getnewaddress: '' @ e), w)
      | (Exited False out err, w) \<Rightarrow> (Err (''txmwallet getnewaddress failed: '' @ failure_text out err), w)
      | (Exited True out err, w) \<Rightarrow>
          (if trim out = [] then Err ''txmwallet getnewaddress returned empty address'' else Ok (trim out), w))"

definition payout_rpc_get :: "'w payout_env \<Rightarrow> string \<Rightarrow> string \<Rightarrow> (string, string) result" where
  "payout_rpc_get E rpc path =
     res_bind (node_text E rpc (''GET '' @ path @ '' HTTP/1.1'' @ crlf @ ''host: '' @ rpc @ crlf @ ''connection: close'' @ crlf @ crlf))
       (\<lambda>response. case split_once (crlf @ crlf) response of
          None \<Rightarrow> Err ''invalid HTTP response''
        | Some (head, body) \<Rightarrow> if \<not> starts_with ''HTTP/1.1 200'' head then Err (''RPC error: '' @ body) else Ok body)"

definition wallet_coins :: "'w payout_env \<Rightarrow> PayoutConfig \<Rightarrow> string \<Rightarrow> ((u64 \<times> bool) list, string) result" where
  "wallet_coins E cfg addr =
     res_bind (payout_rpc_get E (pc_node_rpc cfg) (''/getutxos/'' @ addr)) (\<lambda>body.
       map_err (\<lambda>e. ''UTXO parse error: '' @ e) (read_coins E body))"

text \<open>The two runs of \<open>pay_miner\<close> and the writing of the ledger.\<close>

definition payout_cli :: "'w payout_env \<Rightarrow> PayoutConfig \<Rightarrow> 'w wallet_cli" where
  "payout_cli E cfg =
     \<lparr> cli_send = (\<lambda>w miner payable.
         case run_program E [''send'', miner, show_nat (unat payable)] (payment_vars cfg) w of
           (Exited True out err, w) \<Rightarrow> (Some (written_path out), w)
         | (_, w) \<Rightarrow> (None, w)),
       cli_broadcast = (\<lambda>w path.
         case run_program E [''broadcast'', path, pc_node_rpc cfg] (payment_vars cfg) w of
           (Exited True out err, w) \<Rightarrow> (BroadcastOk, w)
         | (Exited False out err, w) \<Rightarrow> (BroadcastRejected (failure_text out err), w)
         | (NotRun e, w) \<Rightarrow> (BroadcastNotRun, w)),
       save_ledger = write_ledger E \<rparr>"

text \<open>One round of the scheduler: the wallet and the node are asked only when somebody is due.\<close>

definition payout_round :: "'w payout_env \<Rightarrow> PayoutConfig \<Rightarrow> PayoutLedger \<Rightarrow> 'w \<Rightarrow> PayoutLedger \<times> 'w" where
  "payout_round E cfg l w =
     (if due_miners l (threshold_atoms cfg) = [] then (l, w)
      else
        let (a, w) = wallet_address E cfg w;
            coins = (case res_bind a (wallet_coins E cfg) of Ok us \<Rightarrow> Some us | Err _ \<Rightarrow> None) in
        run_cycle (payout_cli E cfg) (threshold_atoms cfg) coins l w)"

section \<open>A refused payment\<close>

text \<open>
  The node refuses a transaction that conflicts with a pending one in words that contain those for a
  transaction it already has. The scheduler looks for the latter first, so it records as paid a payment
  that the node has turned away, and never reaches its branch for conflicts.
\<close>

lemma conflict_text: "sublist ''already in the mempool'' (pre @ mempool_error_text PendingConflict @ post)"
proof -
  have "mempool_error_text PendingConflict = ''transaction conflicts with a transaction '' @ ''already in the mempool''" by simp
  then show ?thesis unfolding sublist_def by (metis append.assoc)
qed

lemma conflicting_payment_marked_paid:
  assumes send: "run_program E [''send'', miner, show_nat (unat payable)] (payment_vars cfg) w = (Exited True out err, w1)"
    and refused: "run_program E [''broadcast'', written_path out, pc_node_rpc cfg] (payment_vars cfg) w1 = (Exited False out' err', w2)"
    and words: "trim err' = pre @ mempool_error_text PendingConflict @ post"
  shows "pay_miner (payout_cli E cfg) l w miner payable
    = (let l' = fst (mark_paid_up_to l miner payable) in
       (Some (sat_add payable MIN_RELAY_FEE_ATOMS), l', write_ledger E l' w2))"
proof -
  have "trim err' \<noteq> []" by (simp add: words)
  then have "cli_broadcast (payout_cli E cfg) w1 (written_path out) = (BroadcastRejected (pre @ mempool_error_text PendingConflict @ post), w2)"
    by (simp add: payout_cli_def refused failure_text_def words del: mempool_error_text.simps)
  moreover have "cli_send (payout_cli E cfg) w miner payable = (Some (written_path out), w1)"
    by (simp add: payout_cli_def send)
  ultimately show ?thesis
    using conflict_text [of pre post]
    by (simp add: pay_miner_def Let_def payout_cli_def [of E] del: mempool_error_text.simps)
qed

end
