(* ===== verification/Wallet_Keys.thy ===== *)
theory Wallet_Keys
  imports Mem_Pool
begin

text \<open>
  Key pairs, addresses and signing: \<open>crates/tensorium-core/src/wallet.rs\<close>. Random key generation is
  the choice of the secret key. A parsed secret key is represented by its bytes.
\<close>

section \<open>Operations\<close>

record WalletKeypair =
  private_key_hex :: string
  public_key_hex :: string
  address :: string

datatype WalletError =
    InvalidPrivateKey
  | AddressEncode
  | SignatureEncode
  | InvalidPublicKey
  | WalletInvalidSignature
  | InputIndexOutOfRange

definition address_from_public_key :: "ext \<Rightarrow> bytes \<Rightarrow> (string, WalletError) result" where
  "address_from_public_key X public_key_bytes =
     (let payload = take 20 (sha256 X public_key_bytes) in
      case bech32_encode X ADDRESS_HRP (to_base32 X payload) of
        Some encoded \<Rightarrow> Ok encoded
      | None \<Rightarrow> Err AddressEncode)"

text \<open>\<open>None\<close> is the panic of \<open>expect\<close>.\<close>

definition from_signing_key :: "ext \<Rightarrow> bytes \<Rightarrow> WalletKeypair option" where
  "from_signing_key X sk =
     (let public_key_bytes = sk_public X sk in
      case address_from_public_key X public_key_bytes of
        Ok a \<Rightarrow> Some \<lparr> private_key_hex = hex_encode X sk, public_key_hex = hex_encode X public_key_bytes, address = a \<rparr>
      | Err _ \<Rightarrow> None)"

definition from_private_key_hex :: "ext \<Rightarrow> string \<Rightarrow> (WalletKeypair, WalletError) result option" where
  "from_private_key_hex X h =
     (case hex_decode X h of
        None \<Rightarrow> Some (Err InvalidPrivateKey)
      | Some private_key_bytes \<Rightarrow>
          (case sk_from_slice X private_key_bytes of
             None \<Rightarrow> Some (Err InvalidPrivateKey)
           | Some sk \<Rightarrow> map_option Ok (from_signing_key X sk)))"

definition wallet_signing_key :: "ext \<Rightarrow> WalletKeypair \<Rightarrow> (bytes, WalletError) result" where
  "wallet_signing_key X w =
     res_bind (ok_or (hex_decode X (private_key_hex w)) InvalidPrivateKey)
       (\<lambda>b. ok_or (sk_from_slice X b) InvalidPrivateKey)"

definition sign_hash :: "ext \<Rightarrow> WalletKeypair \<Rightarrow> Hash256 \<Rightarrow> (bytes, WalletError) result" where
  "sign_hash X w h = res_bind (wallet_signing_key X w) (\<lambda>sk. Ok (sk_sign_der X sk (hash_bytes h)))"

definition wallet_script_sig :: "ext \<Rightarrow> WalletKeypair \<Rightarrow> Transaction \<Rightarrow> (bytes, WalletError) result" where
  "wallet_script_sig X w tx =
     res_bind (wallet_signing_key X w) (\<lambda>sk.
       let der_bytes = sk_sign_der X sk (hash_bytes (signature_hash X tx)) in
       res_bind (ok_or (hex_decode X (public_key_hex w)) InvalidPrivateKey) (\<lambda>pubkey_bytes.
         Ok (p2pkh_script_sig der_bytes pubkey_bytes)))"

definition sign_transaction :: "ext \<Rightarrow> WalletKeypair \<Rightarrow> Transaction \<Rightarrow> (Transaction, WalletError) result" where
  "sign_transaction X w tx =
     res_bind (wallet_script_sig X w tx) (\<lambda>script_sig.
       Ok (refresh_id X (tx\<lparr> inputs := map (\<lambda>i. i\<lparr> signature_script := script_sig \<rparr>) (inputs tx) \<rparr>)))"

definition sign_input :: "ext \<Rightarrow> WalletKeypair \<Rightarrow> Transaction \<Rightarrow> nat \<Rightarrow> (Transaction, WalletError) result" where
  "sign_input X w tx index =
     (if index \<ge> length (inputs tx) then Err InputIndexOutOfRange
      else
        res_bind (wallet_script_sig X w tx) (\<lambda>script_sig.
          Ok (refresh_id X (tx\<lparr> inputs :=
            (inputs tx)[index := (inputs tx ! index)\<lparr> signature_script := script_sig \<rparr>] \<rparr>))))"

section \<open>What the signing library promises\<close>

text \<open>Signatures verify under the matching public key, keys survive their byte encoding, and keys
  and DER signatures fit a one-byte push.\<close>

definition sign_laws :: "ext \<Rightarrow> bool" where
  "sign_laws X \<longleftrightarrow>
     (\<forall>b sk. sk_from_slice X b = Some sk \<longrightarrow>
        sk_from_slice X sk = Some sk
        \<and> 1 \<le> length (sk_public X sk) \<and> length (sk_public X sk) \<le> 75
        \<and> (\<exists>vk. vk_from_sec1 X (sk_public X sk) = Some vk
             \<and> (\<forall>msg. 1 \<le> length (sk_sign_der X sk msg) \<and> length (sk_sign_der X sk msg) \<le> 75
                  \<and> (\<exists>sg. sig_from_der X (sk_sign_der X sk msg) = Some sg \<and> vk_verify X vk msg sg))))"

lemma signature_hash_ignores_scripts:
  "map previous_output (inputs tx') = map previous_output (inputs tx) \<Longrightarrow> outputs tx' = outputs tx \<Longrightarrow>
    payload tx' = payload tx \<Longrightarrow> signature_hash X tx' = signature_hash X tx"
proof -
  assume prev: "map previous_output (inputs tx') = map previous_output (inputs tx)"
    and rest: "outputs tx' = outputs tx" "payload tx' = payload tx"
  let ?f = "\<lambda>op. \<lparr> previous_output = op, signature_script = [] \<rparr>"
  have "map (\<lambda>i. ?f (previous_output i)) (inputs tx') = map ?f (map previous_output (inputs tx'))"
    by (simp add: comp_def)
  also have "\<dots> = map (\<lambda>i. ?f (previous_output i)) (inputs tx)" unfolding prev by (simp add: comp_def)
  finally show "signature_hash X tx' = signature_hash X tx" using rest by (simp add: signature_hash_def)
qed

lemma refresh_id_fields [simp]:
  "inputs (refresh_id X tx) = inputs tx" "outputs (refresh_id X tx) = outputs tx" "payload (refresh_id X tx) = payload tx"
  by (simp_all add: refresh_id_def)

lemma sign_keeps_hash:
  "sign_transaction X w tx = Ok tx' \<Longrightarrow> signature_hash X tx' = signature_hash X tx"
  "sign_input X w tx n = Ok tx' \<Longrightarrow> signature_hash X tx' = signature_hash X tx"
proof -
  have upd: "n < length xs \<Longrightarrow> (map f xs)[n := f (xs ! n)] = map f xs" for f :: "TxInput \<Rightarrow> OutPoint" and xs n
    by (metis list_update_id map_update)
  show "sign_transaction X w tx = Ok tx' \<Longrightarrow> signature_hash X tx' = signature_hash X tx"
    by (auto simp: sign_transaction_def res_bind_Ok_iff comp_def intro!: signature_hash_ignores_scripts)
  show "sign_input X w tx n = Ok tx' \<Longrightarrow> signature_hash X tx' = signature_hash X tx"
    by (auto simp: sign_input_def res_bind_Ok_iff map_update upd intro!: signature_hash_ignores_scripts split: if_splits)
qed

lemma wallet_unlocks:
  assumes laws: "digest_len X" "bech32_laws X" "hex_laws X" "sign_laws X"
    and w: "from_private_key_hex X h = Some (Ok w)"
  shows "\<exists>pk hash spk. hex_decode X (public_key_hex w) = Some pk \<and> p2pkh_from_address X (address w) = Ok spk
    \<and> p2pkh_script hash = Some spk
    \<and> (\<forall>tx ht. \<exists>der. wallet_script_sig X w tx = Ok (p2pkh_script_sig der pk)
        \<and> unlocks X \<lparr> sig_hash = signature_hash X tx, block_height = ht \<rparr> pk der hash)"
proof -
  from w obtain b sk where sk: "sk_from_slice X b = Some sk" and k: "from_signing_key X sk = Some w"
    by (auto simp: from_private_key_hex_def split: option.splits)
  let ?pk = "sk_public X sk"
  let ?hash = "take 20 (sha256 X ?pk)"
  have w': "private_key_hex w = hex_encode X sk" "public_key_hex w = hex_encode X ?pk"
    and a: "address_from_public_key X ?pk = Ok (address w)"
    using k by (auto simp: from_signing_key_def Let_def split: sum.splits)
  have hex: "hex_decode X (hex_encode X bs) = Some bs" for bs using laws(3) by (simp add: hex_laws_def)
  have hlen: "length ?hash = 20" using laws(1) by (simp add: digest_len_def)
  have "bech32_decode X (address w) = Some (ADDRESS_HRP, to_base32 X ?hash)" "from_base32 X (to_base32 X ?hash) = Some ?hash"
  proof -
    obtain s where "bech32_encode X ''txm'' (to_base32 X ?hash) = Some s"
      "bech32_decode X s = Some (''txm'', to_base32 X ?hash)" using laws(2) unfolding bech32_laws_def by blast
    then show "bech32_decode X (address w) = Some (ADDRESS_HRP, to_base32 X ?hash)"
      using a by (simp add: address_from_public_key_def Let_def ADDRESS_HRP_def)
    show "from_base32 X (to_base32 X ?hash) = Some ?hash" using laws(2) by (simp add: bech32_laws_def)
  qed
  then have spk: "p2pkh_from_address X (address w) = Ok (the (p2pkh_script ?hash))"
    using hlen by (simp add: p2pkh_from_address_def)
  note law = laws(4) [unfolded sign_laws_def, rule_format, OF sk]
  have key: "wallet_signing_key X w = Ok sk" using law by (simp add: wallet_signing_key_def w' hex)
  show ?thesis
  proof (intro exI conjI allI)
    show "hex_decode X (public_key_hex w) = Some ?pk" by (simp add: w' hex)
    show "p2pkh_from_address X (address w) = Ok (the (p2pkh_script ?hash))" by (rule spk)
    show "p2pkh_script ?hash = Some (the (p2pkh_script ?hash))" using hlen by (simp add: p2pkh_script_def)
    fix tx ht
    let ?der = "sk_sign_der X sk (hash_bytes (signature_hash X tx))"
    show "wallet_script_sig X w tx = Ok (p2pkh_script_sig ?der ?pk)"
      by (simp add: wallet_script_sig_def key w' hex)
    show "unlocks X \<lparr> sig_hash = signature_hash X tx, block_height = ht \<rparr> ?pk ?der ?hash"
      using law hlen by (auto simp: unlocks_def)
  qed
qed

text \<open>
  What the wallet signs can be spent: for every key the wallet can load, signing succeeds, does
  not change the hash that other signers of the same transaction sign, and afterwards the unlocking
  script of each input opens an output paid to the wallet's address, at any height. \<open>sign_input\<close>
  stamps its own input only.
\<close>

theorem wallet_signatures_accepted:
  assumes "digest_len X" and "bech32_laws X" and "hex_laws X" and "sign_laws X"
    and w: "from_private_key_hex X h = Some (Ok w)"
  shows "\<exists>spk. p2pkh_from_address X (address w) = Ok spk \<and>
    (\<exists>tx'. sign_transaction X w tx = Ok tx' \<and> signature_hash X tx' = signature_hash X tx \<and>
      (\<forall>i \<in> set (inputs tx'). execute X (signature_script i) spk
         \<lparr> sig_hash = signature_hash X tx', block_height = ht \<rparr> = Ok True)) \<and>
    (n < length (inputs tx) \<longrightarrow>
      (\<exists>tx'. sign_input X w tx n = Ok tx' \<and> signature_hash X tx' = signature_hash X tx \<and>
        (\<forall>j < length (inputs tx). j \<noteq> n \<longrightarrow> inputs tx' ! j = inputs tx ! j) \<and>
        execute X (signature_script (inputs tx' ! n)) spk
          \<lparr> sig_hash = signature_hash X tx', block_height = ht \<rparr> = Ok True))"
proof -
  from wallet_unlocks [OF assms] obtain pk hash spk where spk: "p2pkh_from_address X (address w) = Ok spk"
    and scr: "p2pkh_script hash = Some spk"
    and der: "\<forall>tx ht. \<exists>der. wallet_script_sig X w tx = Ok (p2pkh_script_sig der pk)
        \<and> unlocks X \<lparr> sig_hash = signature_hash X tx, block_height = ht \<rparr> pk der hash" by blast
  from der obtain d where ss: "wallet_script_sig X w tx = Ok (p2pkh_script_sig d pk)"
    and un: "unlocks X \<lparr> sig_hash = signature_hash X tx, block_height = ht \<rparr> pk d hash" by blast
  note ok = p2pkh_accepts [OF un scr]
  let ?t1 = "refresh_id X (tx\<lparr> inputs := map (\<lambda>i. i\<lparr> signature_script := p2pkh_script_sig d pk \<rparr>) (inputs tx) \<rparr>)"
  let ?t2 = "refresh_id X (tx\<lparr> inputs := (inputs tx)[n := (inputs tx ! n)\<lparr> signature_script := p2pkh_script_sig d pk \<rparr>] \<rparr>)"
  have s1: "sign_transaction X w tx = Ok ?t1" by (simp add: sign_transaction_def ss)
  have s2: "n < length (inputs tx) \<Longrightarrow> sign_input X w tx n = Ok ?t2" by (simp add: sign_input_def ss)
  show ?thesis
    using spk ok s1 s2 sign_keeps_hash(1) [OF s1] sign_keeps_hash(2) [OF s2] by (intro exI [of _ spk]) auto
qed

text \<open>A signing library with 32-byte keys, for the witness.\<close>

definition key_ext :: ext where
  "key_ext = demo_ext\<lparr> sk_from_slice := (\<lambda>b. if length b = 32 then Some b else None) \<rparr>"

lemma key_ext_laws: "digest_len key_ext" "bech32_laws key_ext" "hex_laws key_ext" "sign_laws key_ext"
proof -
  show "digest_len key_ext" using demo_digest_len by (simp add: digest_len_def key_ext_def)
  show "bech32_laws key_ext" using demo_bech32_laws by (simp add: bech32_laws_def key_ext_def)
  show "hex_laws key_ext" using demo_hex_laws by (simp add: hex_laws_def key_ext_def)
  show "sign_laws key_ext" by (auto simp: sign_laws_def key_ext_def demo_ext_def)
qed

theorem wallet_signatures_accepted_witness:
  "\<exists>w spk tx'. from_private_key_hex key_ext (hex_string (replicate 32 9)) = Some (Ok w)
    \<and> p2pkh_from_address key_ext (address w) = Ok spk \<and> sign_transaction key_ext w demo_unsigned = Ok tx'
    \<and> (\<forall>i \<in> set (inputs tx'). execute key_ext (signature_script i) spk
         \<lparr> sig_hash = signature_hash key_ext tx', block_height = 0 \<rparr> = Ok True)"
proof -
  have "hex_decode key_ext (hex_string (replicate 32 9)) = Some (replicate 32 9)"
    using key_ext_laws(3) by (simp add: hex_laws_def)
  moreover have "sk_from_slice key_ext (replicate 32 9) = Some (replicate 32 9)" by (simp add: key_ext_def)
  moreover have "\<exists>w. from_signing_key key_ext sk = Some w" for sk
  proof -
    have "\<exists>a. bech32_encode key_ext hrp d = Some a" for hrp d by (simp add: key_ext_def demo_ext_def)
    then show ?thesis by (auto simp: from_signing_key_def address_from_public_key_def Let_def split: option.splits)
  qed
  ultimately obtain w where w: "from_private_key_hex key_ext (hex_string (replicate 32 9)) = Some (Ok w)"
    by (fastforce simp: from_private_key_hex_def)
  from wallet_signatures_accepted [OF key_ext_laws w, of demo_unsigned 0 0] w show ?thesis by blast
qed

end
