(* ===== verification/Wallet_File.thy ===== *)
theory Wallet_File
  imports Wallet_Keys Rust_Text
begin

text \<open>
  The encrypted wallet file of \<open>crates/txmwallet/src/main.rs\<close>: \<open>WalletFile::encrypt\<close>,
  \<open>WalletFile::decrypt\<close> and \<open>derive_key\<close>. The crates \<open>argon2\<close> and \<open>chacha20poly1305\<close> are a record of
  functions; the random salt and nonce are arguments. \<open>None\<close> is a panic. Where the source appends the
  text of a library error to a message, the model keeps the message.
\<close>

section \<open>Attempts\<close>

type_synonym 'a attempt = "('a, string) result option"

definition and_then :: "'a attempt \<Rightarrow> ('a \<Rightarrow> 'b attempt) \<Rightarrow> 'b attempt" where
  "and_then m f = (case m of None \<Rightarrow> None | Some (Err e) \<Rightarrow> Some (Err e) | Some (Ok a) \<Rightarrow> f a)"

lemma and_then_simps [simp]:
  "and_then None f = None" "and_then (Some (Err e)) f = Some (Err e)" "and_then (Some (Ok a)) f = f a"
  by (simp_all add: and_then_def)

lemma and_then_Ok_iff: "and_then m f = Some (Ok b) \<longleftrightarrow> (\<exists>a. m = Some (Ok a) \<and> f a = Some (Ok b))"
  by (auto simp: and_then_def split: option.splits sum.splits)

section \<open>The cryptographic crates\<close>

record crypto =
  argon2_params :: "u32 \<Rightarrow> u32 \<Rightarrow> u32 \<Rightarrow> bool"
  argon2id :: "bytes \<Rightarrow> bytes \<Rightarrow> u32 \<Rightarrow> u32 \<Rightarrow> u32 \<Rightarrow> bytes option"
  aead_encrypt :: "bytes \<Rightarrow> bytes \<Rightarrow> bytes \<Rightarrow> bytes option"
  aead_decrypt :: "bytes \<Rightarrow> bytes \<Rightarrow> bytes \<Rightarrow> bytes option"

definition ARGON2_MEMORY_KIB :: u32 where "ARGON2_MEMORY_KIB = 19 * 1024"
definition ARGON2_ITERATIONS :: u32 where "ARGON2_ITERATIONS = 3"
definition ARGON2_PARALLELISM :: u32 where "ARGON2_PARALLELISM = 1"

text \<open>
  What the code relies on: the parameters it uses are allowed, a password below 4 GiB and a 16-byte
  salt give a key of 32 bytes, and what is encrypted under a key and nonce (below 4 GiB) is decrypted
  by them.
\<close>

definition crypto_laws :: "crypto \<Rightarrow> bool" where
  "crypto_laws C \<longleftrightarrow>
     argon2_params C ARGON2_MEMORY_KIB ARGON2_ITERATIONS ARGON2_PARALLELISM
     \<and> (\<forall>pw salt. length pw < 2 ^ 32 \<and> length salt = 16 \<longrightarrow>
          (\<exists>key. argon2id C pw salt ARGON2_MEMORY_KIB ARGON2_ITERATIONS ARGON2_PARALLELISM = Some key \<and> length key = 32))
     \<and> (\<forall>key iv msg. length key = 32 \<and> length iv = 24 \<and> length msg < 2 ^ 32 \<longrightarrow>
          (\<exists>c. aead_encrypt C key iv msg = Some c \<and> aead_decrypt C key iv c = Some msg))"

section \<open>The file\<close>

record EncryptedPrivateKey =
  kdf :: string
  kdf_memory_kib :: u32
  kdf_iterations :: u32
  kdf_parallelism :: u32
  cipher :: string
  salt_hex :: string
  nonce_hex :: string
  ciphertext_hex :: string

record WalletFile =
  wf_version :: u32
  wf_address :: string
  wf_public_key_hex :: string
  encrypted_private_key :: EncryptedPrivateKey

definition derive_key :: "crypto \<Rightarrow> string \<Rightarrow> bytes \<Rightarrow> u32 \<Rightarrow> u32 \<Rightarrow> u32 \<Rightarrow> (bytes, string) result" where
  "derive_key C passphrase salt memory_kib iterations parallelism =
     (if \<not> argon2_params C memory_kib iterations parallelism then Err ''invalid Argon2 params''
      else ok_or (argon2id C (str_bytes passphrase) salt memory_kib iterations parallelism) ''Argon2 key derivation failed'')"

text \<open>\<open>XChaCha20Poly1305::new_from_slice\<close> wants 32 bytes, \<open>XNonce::from_slice\<close> panics unless it gets 24.\<close>

definition cipher_new :: "bytes \<Rightarrow> (bytes, string) result" where
  "cipher_new key = (if length key = 32 then Ok key else Err ''wallet cipher init failed'')"

definition nonce_from_slice :: "bytes \<Rightarrow> bytes attempt" where
  "nonce_from_slice b = (if length b = 24 then Some (Ok b) else None)"

definition wallet_encrypt :: "ext \<Rightarrow> crypto \<Rightarrow> bytes \<Rightarrow> bytes \<Rightarrow> WalletKeypair \<Rightarrow> string \<Rightarrow> WalletFile attempt" where
  "wallet_encrypt X C salt iv keypair passphrase =
     and_then (Some (derive_key C passphrase salt ARGON2_MEMORY_KIB ARGON2_ITERATIONS ARGON2_PARALLELISM)) (\<lambda>key.
     and_then (Some (cipher_new key)) (\<lambda>c.
     and_then (nonce_from_slice iv) (\<lambda>n.
     and_then (Some (ok_or (aead_encrypt C c n (str_bytes (private_key_hex keypair))) ''wallet encryption failed'')) (\<lambda>ciphertext.
       Some (Ok \<lparr> wf_version = 2, wf_address = address keypair, wf_public_key_hex = public_key_hex keypair,
         encrypted_private_key = \<lparr> kdf = ''argon2id'', kdf_memory_kib = ARGON2_MEMORY_KIB, kdf_iterations = ARGON2_ITERATIONS,
           kdf_parallelism = ARGON2_PARALLELISM, cipher = ''xchacha20poly1305'', salt_hex = hex_encode X salt,
           nonce_hex = hex_encode X iv, ciphertext_hex = hex_encode X ciphertext \<rparr> \<rparr>)))))"

fun wallet_error_text :: "WalletError \<Rightarrow> string" where
  "wallet_error_text InvalidPrivateKey = ''invalid private key''"
| "wallet_error_text AddressEncode = ''address encode failed''"
| "wallet_error_text SignatureEncode = ''signature encode failed''"
| "wallet_error_text InvalidPublicKey = ''invalid public key''"
| "wallet_error_text WalletInvalidSignature = ''invalid signature''"
| "wallet_error_text InputIndexOutOfRange = ''input index out of range''"

definition wallet_decrypt :: "ext \<Rightarrow> crypto \<Rightarrow> WalletFile \<Rightarrow> string \<Rightarrow> WalletKeypair attempt" where
  "wallet_decrypt X C w passphrase =
     (let e = encrypted_private_key w in
      if kdf e \<noteq> ''argon2id'' then Some (Err (''unsupported wallet KDF: '' @ kdf e))
      else if cipher e \<noteq> ''xchacha20poly1305'' then Some (Err (''unsupported wallet cipher: '' @ cipher e))
      else
        and_then (Some (ok_or (hex_decode X (salt_hex e)) ''invalid wallet salt'')) (\<lambda>salt.
        and_then (Some (ok_or (hex_decode X (nonce_hex e)) ''invalid wallet nonce'')) (\<lambda>iv.
        and_then (Some (ok_or (hex_decode X (ciphertext_hex e)) ''invalid wallet ciphertext'')) (\<lambda>ciphertext.
        and_then (Some (derive_key C passphrase salt (kdf_memory_kib e) (kdf_iterations e) (kdf_parallelism e))) (\<lambda>key.
        and_then (Some (cipher_new key)) (\<lambda>c.
        and_then (nonce_from_slice iv) (\<lambda>n.
        and_then (Some (ok_or (aead_decrypt C c n ciphertext) ''wallet passphrase is incorrect or wallet is corrupted'')) (\<lambda>plaintext.
        and_then (Some (if utf8_valid plaintext then Ok (bytes_str plaintext) else Err ''wallet plaintext is invalid UTF-8'')) (\<lambda>h.
        and_then (map_option (map_err wallet_error_text) (from_private_key_hex X h)) (\<lambda>keypair.
          if address keypair \<noteq> wf_address w then Some (Err ''wallet address does not match decrypted key'')
          else Some (Ok keypair)))))))))))"

section \<open>Encryption round trip\<close>

lemma hex_digit_ascii: "n < 16 \<Longrightarrow> (of_char (hex_digit n) :: u8) < 0x80"
  by (simp add: hex_digit_def word_less_nat_alt unat_of_char)

lemma utf8_valid_hex: "utf8_valid (str_bytes (hex_string bs))"
proof (rule utf8_valid_ascii)
  have "unat b div 16 < 16" for b :: u8 using unat_u8_lt [of b] by linarith
  then show "\<forall>b \<in> set (str_bytes (hex_string bs)). b < 0x80"
    by (auto simp: str_bytes_def hex_string_def hex_byte_def hex_digit_ascii)
qed

text \<open>A key pair the wallet has loaded is loaded again from its own private key.\<close>

lemma keypair_reloads:
  assumes "hex_laws X" and "sign_laws X" and "from_private_key_hex X h = Some (Ok k)"
  shows "from_private_key_hex X (private_key_hex k) = Some (Ok k)" and "\<exists>bs. private_key_hex k = hex_string bs"
proof -
  from assms(3) obtain b sk where sk: "sk_from_slice X b = Some sk" and k: "from_signing_key X sk = Some k"
    by (auto simp: from_private_key_hex_def split: option.splits)
  have h: "private_key_hex k = hex_string sk" using k assms(1) by (auto simp: from_signing_key_def Let_def hex_laws_def split: sum.splits)
  have "sk_from_slice X sk = Some sk" using assms(2) sk unfolding sign_laws_def by blast
  with h k assms(1) show "from_private_key_hex X (private_key_hex k) = Some (Ok k)" by (simp add: from_private_key_hex_def hex_laws_def)
  show "\<exists>bs. private_key_hex k = hex_string bs" using h by blast
qed

lemma encrypt_decrypt:
  assumes X: "hex_laws X" "sign_laws X" and C: "crypto_laws C" and k: "from_private_key_hex X h = Some (Ok k)"
    and len: "length salt = 16" "length iv = 24" "length passphrase < 2 ^ 32" "length (private_key_hex k) < 2 ^ 32"
  obtains f where "wallet_encrypt X C salt iv k passphrase = Some (Ok f)" and "wf_address f = address k"
    and "wf_public_key_hex f = public_key_hex k" and "wallet_decrypt X C f passphrase = Some (Ok k)"
proof -
  from C len obtain key where key: "argon2id C (str_bytes passphrase) salt ARGON2_MEMORY_KIB ARGON2_ITERATIONS ARGON2_PARALLELISM = Some key"
    "length key = 32" "argon2_params C ARGON2_MEMORY_KIB ARGON2_ITERATIONS ARGON2_PARALLELISM"
    unfolding crypto_laws_def by (metis length_str_bytes)
  from C len key(2) obtain c where c: "aead_encrypt C key iv (str_bytes (private_key_hex k)) = Some c"
    "aead_decrypt C key iv c = Some (str_bytes (private_key_hex k))"
    unfolding crypto_laws_def by (metis length_str_bytes)
  have "utf8_valid (str_bytes (private_key_hex k))" using keypair_reloads(2) [OF X k] utf8_valid_hex by auto
  with key c len X(1) keypair_reloads(1) [OF X k] that show ?thesis
    by (simp add: wallet_encrypt_def wallet_decrypt_def derive_key_def cipher_new_def nonce_from_slice_def hex_laws_def
        bytes_str_str_bytes)
qed

text \<open>What a successful decryption returns.\<close>

lemma map_err_Some_Ok: "map_option (map_err t) m = Some (Ok k) \<longleftrightarrow> m = Some (Ok k)"
  by (cases m) (auto simp: map_err_def split: sum.splits)

lemma decrypt_loads:
  assumes "wallet_decrypt X C f passphrase = Some (Ok k)"
  shows "\<exists>h. from_private_key_hex X h = Some (Ok k)" and "address k = wf_address f"
  using assms by (auto simp: wallet_decrypt_def Let_def and_then_Ok_iff map_err_Some_Ok simp del: map_option_eq_Some split: if_splits)

text \<open>A file whose nonce is not 24 bytes long does not give an error: the program stops with a panic.\<close>

lemma decrypt_panics_on_nonce:
  assumes "kdf (encrypted_private_key f) = ''argon2id''" "cipher (encrypted_private_key f) = ''xchacha20poly1305''"
    and "hex_decode X (salt_hex (encrypted_private_key f)) = Some salt" "hex_decode X (nonce_hex (encrypted_private_key f)) = Some iv"
    and "hex_decode X (ciphertext_hex (encrypted_private_key f)) = Some ct" and "length iv \<noteq> 24"
    and "derive_key C passphrase salt (kdf_memory_kib (encrypted_private_key f)) (kdf_iterations (encrypted_private_key f))
      (kdf_parallelism (encrypted_private_key f)) = Ok key" "length key = 32"
  shows "wallet_decrypt X C f passphrase = None"
  using assms by (simp add: wallet_decrypt_def cipher_new_def nonce_from_slice_def)

text \<open>
  A wallet file gives back its key: encrypting any loadable key pair under a passphrase succeeds,
  the file shows the address and the public key, and decrypting it with the same passphrase returns
  the key pair itself.
\<close>

theorem wallet_file_roundtrip:
  assumes "hex_laws X" and "sign_laws X" and "crypto_laws C" and "from_private_key_hex X h = Some (Ok k)"
    and "length salt = 16" and "length iv = 24" and "length passphrase < 2 ^ 32" and "length (private_key_hex k) < 2 ^ 32"
  shows "\<exists>f. wallet_encrypt X C salt iv k passphrase = Some (Ok f) \<and> wf_address f = address k
    \<and> wf_public_key_hex f = public_key_hex k \<and> wallet_decrypt X C f passphrase = Some (Ok k)"
  using encrypt_decrypt [OF assms] by metis

text \<open>A cipher that prepends the key, for the witnesses.\<close>

definition demo_crypto :: crypto where
  "demo_crypto = \<lparr> argon2_params = (\<lambda>_ _ _. True), argon2id = (\<lambda>pw salt _ _ _. Some (demo_digest (pw @ salt))),
     aead_encrypt = (\<lambda>key iv msg. Some (key @ msg)),
     aead_decrypt = (\<lambda>key iv c. if take 32 c = key then Some (drop 32 c) else None) \<rparr>"

lemma demo_crypto_laws: "crypto_laws demo_crypto"
  by (simp add: crypto_laws_def demo_crypto_def demo_digest_def)

lemma key_ext_wallet:
  "\<exists>k. from_private_key_hex key_ext (hex_string (replicate 32 9)) = Some (Ok k) \<and> length (private_key_hex k) = 64"
proof -
  have "hex_decode key_ext (hex_string (replicate 32 9)) = Some (replicate 32 9)"
    using key_ext_laws(3) by (simp add: hex_laws_def)
  moreover have "\<exists>a. bech32_encode key_ext hrp d = Some a" for hrp d by (simp add: key_ext_def demo_ext_def)
  moreover have "hex_encode key_ext = hex_string" using key_ext_laws(3) by (auto simp: hex_laws_def)
  ultimately show ?thesis
    by (auto simp: from_private_key_hex_def key_ext_def from_signing_key_def address_from_public_key_def hex_string_def hex_byte_def
        length_concat Let_def sum_list_replicate split: option.splits)
qed

theorem wallet_file_roundtrip_witness:
  "\<exists>k f. from_private_key_hex key_ext (hex_string (replicate 32 9)) = Some (Ok k)
    \<and> wallet_encrypt key_ext demo_crypto (replicate 16 1) (replicate 24 2) k ''correct horse'' = Some (Ok f)
    \<and> wallet_decrypt key_ext demo_crypto f ''correct horse'' = Some (Ok k)"
proof -
  from key_ext_wallet obtain k where k: "from_private_key_hex key_ext (hex_string (replicate 32 9)) = Some (Ok k)"
    and l: "length (private_key_hex k) = 64" by blast
  from wallet_file_roundtrip [OF key_ext_laws(3,4) demo_crypto_laws k, of "replicate 16 1" "replicate 24 2" "''correct horse''"] l k
  show ?thesis by fastforce
qed

end
