(* ===== verification/Asset_Settlement.thy ===== *)
theory Asset_Settlement
  imports Asset_Indexer
begin

text \<open>
  Atomic settlement of an asset sale: \<open>crates/tensorium-core/src/settlement.rs\<close>. The products of
  \<open>fee_split\<close> are computed in 128 bits as in the source; the sums of \<open>build_settlement_tx\<close> are plain
  64-bit additions and wrap, so the theorems name the bounds under which they do not. The error texts
  are constructors, except the list of complaints of \<open>verify_settlement\<close>, which is kept as text.
\<close>

section \<open>Terms and fees\<close>

definition PLATFORM_FEE_BPS :: u16 where "PLATFORM_FEE_BPS = 250"

definition PLATFORM_FEE_ADDRESS :: string where
  "PLATFORM_FEE_ADDRESS = ''txm1px2nmtp087mz8dv3lplqadwzxawk0c5kg0mt24''"

definition CARRIER_ATOMS :: u64 where "CARRIER_ATOMS = 1000"

record SettlementTerms =
  st_asset_id :: bytes
  st_amount :: u64
  price_atoms :: u64
  st_royalty_bps :: u16
  st_royalty_addr :: string
  seller_addr :: string
  buyer_addr :: string
  miner_fee_atoms :: u64

text \<open>\<open>(price as u128 * bps as u128 / 10_000) as u64\<close>\<close>

definition bps_of :: "u64 \<Rightarrow> u16 \<Rightarrow> u64" where
  "bps_of price bps = ucast ((ucast price :: u128) * ucast bps div 10000)"

definition fee_split :: "u64 \<Rightarrow> u16 \<Rightarrow> string \<Rightarrow> string \<Rightarrow> u64 \<times> u64" where
  "fee_split price bps seller royalty_to =
     (let platform_fee = bps_of price PLATFORM_FEE_BPS;
          royalty = (if bps = 0 \<or> seller = royalty_to then 0 else bps_of price bps)
      in (platform_fee, royalty))"

section \<open>Building and verifying\<close>

datatype SettleError = FeeExceedsPrice | InsufficientBuyer u64 u64 | InvalidAddr string

definition pay_out :: "ext \<Rightarrow> string \<Rightarrow> u64 \<Rightarrow> (TxOutput, SettleError) result" where
  "pay_out X a v =
     res_bind (map_err (\<lambda>_. InvalidAddr a) (p2pkh_from_address X a))
       (\<lambda>spk. Ok \<lparr> value_atoms = v, script_pubkey = spk \<rparr>)"

text \<open>\<open>if v > 0 { outputs.push(..) }\<close>\<close>

definition push_if_positive :: "ext \<Rightarrow> string \<Rightarrow> u64 \<Rightarrow> TxOutput list \<Rightarrow> (TxOutput list, SettleError) result" where
  "push_if_positive X a v outs =
     (if v > 0 then res_bind (pay_out X a v) (\<lambda>out. Ok (outs @ [out])) else Ok outs)"

definition settlement_op :: "SettlementTerms \<Rightarrow> AssetOp" where
  "settlement_op terms = Transfer \<lparr> asset_id = st_asset_id terms, asset_amount = st_amount terms, dest_output_index = 0 \<rparr>"

definition build_settlement_tx ::
  "ext \<Rightarrow> SettlementTerms \<Rightarrow> OutPoint \<times> u64 \<Rightarrow> (OutPoint \<times> u64) list \<Rightarrow> (Transaction, SettleError) result"
where
  "build_settlement_tx X terms seller_input buyer_inputs =
     (let (platform_fee, royalty) =
            fee_split (price_atoms terms) (st_royalty_bps terms) (seller_addr terms) (st_royalty_addr terms) in
      if platform_fee + royalty > price_atoms terms then Err FeeExceedsPrice
      else
        let v_seller = snd seller_input;
            v_buyer = foldl (+) 0 (map snd buyer_inputs);
            buyer_need = price_atoms terms + CARRIER_ATOMS + miner_fee_atoms terms in
        if v_buyer < buyer_need then Err (InsufficientBuyer v_buyer buyer_need)
        else
          let seller_proceeds = v_seller + price_atoms terms - platform_fee - royalty;
              change = v_buyer - price_atoms terms - CARRIER_ATOMS - miner_fee_atoms terms;
              ins = \<lparr> previous_output = fst seller_input, signature_script = [] \<rparr>
                    # map (\<lambda>(p, _). \<lparr> previous_output = p, signature_script = [] \<rparr>) buyer_inputs in
          res_bind (pay_out X (buyer_addr terms) CARRIER_ATOMS) (\<lambda>o0.
          res_bind (pay_out X (seller_addr terms) seller_proceeds) (\<lambda>o2.
          res_bind (push_if_positive X PLATFORM_FEE_ADDRESS platform_fee [o0, carrier (settlement_op terms), o2]) (\<lambda>outs.
          res_bind (push_if_positive X (st_royalty_addr terms) royalty outs) (\<lambda>outs.
          res_bind (push_if_positive X (buyer_addr terms) change outs) (\<lambda>outs.
            Ok (payment X ins outs)))))))"

definition has_output_exact :: "ext \<Rightarrow> Transaction \<Rightarrow> string \<Rightarrow> u64 \<Rightarrow> bool" where
  "has_output_exact X tx addr v =
     list_ex (\<lambda>out. value_atoms out = v \<and> extract_address X (script_pubkey out) = Some addr) (outputs tx)"

definition has_output_at_least :: "ext \<Rightarrow> Transaction \<Rightarrow> string \<Rightarrow> u64 \<Rightarrow> bool" where
  "has_output_at_least X tx addr mn =
     list_ex (\<lambda>out. value_atoms out \<ge> mn \<and> extract_address X (script_pubkey out) = Some addr) (outputs tx)"

definition buyer_carrier_ok :: "ext \<Rightarrow> Transaction \<Rightarrow> SettlementTerms \<Rightarrow> bool" where
  "buyer_carrier_ok X tx terms =
     (case outputs tx of
        [] \<Rightarrow> False
      | out # _ \<Rightarrow> value_atoms out = CARRIER_ATOMS
                  \<and> extract_address X (script_pubkey out) = Some (buyer_addr terms))"

definition transfer_ok :: "Transaction \<Rightarrow> SettlementTerms \<Rightarrow> bool" where
  "transfer_ok tx terms =
     (case extract_asset_op tx of
        Some (Transfer d) \<Rightarrow> asset_id d = st_asset_id terms \<and> asset_amount d = st_amount terms \<and> dest_output_index d = 0
      | _ \<Rightarrow> False)"

definition verify_settlement :: "ext \<Rightarrow> Transaction \<Rightarrow> SettlementTerms \<Rightarrow> string list" where
  "verify_settlement X tx terms =
     (let (platform_fee, royalty) =
            fee_split (price_atoms terms) (st_royalty_bps terms) (seller_addr terms) (st_royalty_addr terms);
          min_proceeds = sat_sub (price_atoms terms) (platform_fee + royalty)
      in (if buyer_carrier_ok X tx terms then [] else [''out[0] is not the buyer carrier''])
       @ (if transfer_ok tx terms then [] else [''transfer op mismatch''])
       @ (if platform_fee > 0 \<and> \<not> has_output_exact X tx PLATFORM_FEE_ADDRESS platform_fee
          then [''platform fee output missing/incorrect''] else [])
       @ (if royalty > 0 \<and> \<not> has_output_exact X tx (st_royalty_addr terms) royalty
          then [''royalty output missing/incorrect''] else [])
       @ (if \<not> has_output_at_least X tx (seller_addr terms) min_proceeds
          then [''seller proceeds below net''] else []))"

section \<open>Fees\<close>

lemma unat_bps_of:
  assumes "unat bps \<le> 10000"
  shows "unat (bps_of price bps) = unat price * unat bps div 10000"
proof -
  have p: "unat price < 2 ^ 64" by (rule unat_u64_lt)
  have b: "unat bps < 2 ^ 16" using assms by simp
  have prod: "unat price * unat bps < 2 ^ 128" using mult_strict_mono [OF p b] by simp
  have "unat ((ucast price :: u128) * ucast bps) = unat price * unat bps"
  proof -
    have "take_bit 128 (unat price) = unat price" "take_bit 128 (unat bps) = unat bps"
      using p b by (simp_all add: take_bit_nat_eq_self_iff)
    with prod show ?thesis by (simp add: unat_word_ariths unsigned_ucast_eq)
  qed
  then have d: "unat ((ucast price :: u128) * ucast bps div 10000) = unat price * unat bps div 10000"
    by (simp add: unat_div)
  have "unat price * unat bps div 10000 \<le> unat price"
    using div_le_mono [OF mult_le_mono2 [OF assms, of "unat price"], of 10000] by simp
  with p have "unat price * unat bps div 10000 < 2 ^ 64" by linarith
  with d show ?thesis by (simp add: bps_of_def unsigned_ucast_eq take_bit_nat_eq_self_iff)
qed

section \<open>What is built passes the check\<close>

text \<open>An address in the form that the program itself prints.\<close>

definition canonical_address :: "ext \<Rightarrow> string \<Rightarrow> bool" where
  "canonical_address X a \<longleftrightarrow>
     (\<exists>h. length h = 20 \<and> bech32_encode X ADDRESS_HRP (to_base32 X h) = Some a)"

lemma pay_out_Ok:
  assumes "pay_out X a v = Ok out"
  shows "value_atoms out = v" "op_return_data (script_pubkey out) = None"
    "bech32_laws X \<Longrightarrow> canonical_address X a \<Longrightarrow> extract_address X (script_pubkey out) = Some a"
proof -
  from assms show "value_atoms out = v" by (auto simp: pay_out_def res_bind_Ok_iff)
  from assms have spk: "p2pkh_from_address X a = Ok (script_pubkey out)" by (auto simp: pay_out_def res_bind_Ok_iff)
  then show "op_return_data (script_pubkey out) = None" by (rule p2pkh_not_carrier)
  show "extract_address X (script_pubkey out) = Some a" if bl: "bech32_laws X" and c: "canonical_address X a"
  proof -
    from c obtain h where h: "length h = 20" "bech32_encode X ADDRESS_HRP (to_base32 X h) = Some a"
      by (auto simp: canonical_address_def)
    from bl obtain s where "bech32_encode X ''txm'' (to_base32 X h) = Some s" "bech32_decode X s = Some (''txm'', to_base32 X h)"
      "from_base32 X (to_base32 X h) = Some h" unfolding bech32_laws_def by blast
    with h have "bech32_decode X a = Some (''txm'', to_base32 X h)" "from_base32 X (to_base32 X h) = Some h"
      by (auto simp: ADDRESS_HRP_def)
    with spk h have "script_pubkey out = the (p2pkh_script h)"
      by (auto simp: p2pkh_from_address_def ADDRESS_HRP_def)
    with h show ?thesis
      by (simp add: extract_address_def extract_p2sh_hash_def p2pkh_script_def nth_append)
  qed
qed

lemma push_if_positive_Ok:
  assumes "push_if_positive X a v outs = Ok outs'"
  shows "\<exists>extra. outs' = outs @ extra \<and> (if v = 0 then extra = [] else \<exists>out. extra = [out] \<and> pay_out X a v = Ok out)"
  using assms by (auto simp: push_if_positive_def res_bind_Ok_iff word_gt_0 split: if_splits)

lemma foldl_plus_u64:
  "unat a + sum_list (map unat xs) < 2 ^ 64 \<Longrightarrow> unat (foldl (+) (a :: u64) xs) = unat a + sum_list (map unat xs)"
proof (induction xs arbitrary: a)
  case Nil
  show ?case by simp
next
  case (Cons x xs)
  then have "unat (a + x) = unat a + unat x" by (simp add: unat_word_ariths)
  with Cons show ?case by simp
qed

definition extra_output :: "ext \<Rightarrow> string \<Rightarrow> u64 \<Rightarrow> TxOutput list \<Rightarrow> bool" where
  "extra_output X a v e \<longleftrightarrow> (if v = 0 then e = [] else \<exists>out. e = [out] \<and> pay_out X a v = Ok out)"

lemma extra_output_sum: "extra_output X a v e \<Longrightarrow> sum_list (map (unat \<circ> value_atoms) e) = unat v"
  by (auto simp: extra_output_def pay_out_Ok split: if_splits)

lemma extra_output_has:
  "extra_output X a v e \<Longrightarrow> bech32_laws X \<Longrightarrow> canonical_address X a \<Longrightarrow> v > 0 \<Longrightarrow>
    list_ex (\<lambda>out. value_atoms out = v \<and> extract_address X (script_pubkey out) = Some a) e"
  by (auto simp: extra_output_def pay_out_Ok split: if_splits)

lemma build_settlement_shape:
  assumes b: "build_settlement_tx X terms seller buyers = Ok tx"
    and fs: "fee_split (price_atoms terms) (st_royalty_bps terms) (seller_addr terms) (st_royalty_addr terms) = (pf, ro)"
  shows "\<not> pf + ro > price_atoms terms"
    and "\<not> foldl (+) 0 (map snd buyers) < price_atoms terms + CARRIER_ATOMS + miner_fee_atoms terms"
    and "\<exists>o0 o2 e1 e2 e3. outputs tx = [o0, carrier (settlement_op terms), o2] @ e1 @ e2 @ e3
      \<and> pay_out X (buyer_addr terms) CARRIER_ATOMS = Ok o0
      \<and> pay_out X (seller_addr terms) (snd seller + price_atoms terms - pf - ro) = Ok o2
      \<and> extra_output X PLATFORM_FEE_ADDRESS pf e1 \<and> extra_output X (st_royalty_addr terms) ro e2
      \<and> extra_output X (buyer_addr terms)
          (foldl (+) 0 (map snd buyers) - price_atoms terms - CARRIER_ATOMS - miner_fee_atoms terms) e3"
    and "map previous_output (inputs tx) = fst seller # map fst buyers"
proof -
  note B = b [unfolded build_settlement_tx_def fs Let_def split]
  show n1: "\<not> pf + ro > price_atoms terms" using B by (rule contrapos_pn) simp
  note B = B [unfolded if_not_P [OF n1]]
  show n2: "\<not> foldl (+) 0 (map snd buyers) < price_atoms terms + CARRIER_ATOMS + miner_fee_atoms terms"
    using B by (rule contrapos_pn) simp
  note B = B [unfolded if_not_P [OF n2] res_bind_Ok_iff]
  then obtain o0 o2 q1 q2 q3 where o: "pay_out X (buyer_addr terms) CARRIER_ATOMS = Ok o0"
      "pay_out X (seller_addr terms) (snd seller + price_atoms terms - pf - ro) = Ok o2"
    and q: "push_if_positive X PLATFORM_FEE_ADDRESS pf [o0, carrier (settlement_op terms), o2] = Ok q1"
      "push_if_positive X (st_royalty_addr terms) ro q1 = Ok q2"
      "push_if_positive X (buyer_addr terms)
        (foldl (+) 0 (map snd buyers) - price_atoms terms - CARRIER_ATOMS - miner_fee_atoms terms) q2 = Ok q3"
    and tx: "payment X (\<lparr> previous_output = fst seller, signature_script = [] \<rparr>
        # map (\<lambda>(p, _). \<lparr> previous_output = p, signature_script = [] \<rparr>) buyers) q3 = tx"
    by blast
  from push_if_positive_Ok [OF q(1)] push_if_positive_Ok [OF q(2)] push_if_positive_Ok [OF q(3)] o
  show "\<exists>o0 o2 e1 e2 e3. outputs tx = [o0, carrier (settlement_op terms), o2] @ e1 @ e2 @ e3
      \<and> pay_out X (buyer_addr terms) CARRIER_ATOMS = Ok o0
      \<and> pay_out X (seller_addr terms) (snd seller + price_atoms terms - pf - ro) = Ok o2
      \<and> extra_output X PLATFORM_FEE_ADDRESS pf e1 \<and> extra_output X (st_royalty_addr terms) ro e2
      \<and> extra_output X (buyer_addr terms)
          (foldl (+) 0 (map snd buyers) - price_atoms terms - CARRIER_ATOMS - miner_fee_atoms terms) e3"
    unfolding extra_output_def [symmetric] tx [symmetric] by (force simp: payment_def Let_def)
  show "map previous_output (inputs tx) = fst seller # map fst buyers"
    unfolding tx [symmetric] by (auto simp: payment_def Let_def)
qed

lemma fee_split_unat:
  assumes "fee_split price bps seller to = (pf, ro)" and "unat bps \<le> 10000"
  shows "unat pf = unat price * 250 div 10000" and "unat ro \<le> unat price" and "ro > 0 \<Longrightarrow> bps \<noteq> 0"
proof -
  have "unat PLATFORM_FEE_BPS = 250" by (simp add: PLATFORM_FEE_BPS_def)
  with assms show "unat pf = unat price * 250 div 10000"
    using unat_bps_of [of PLATFORM_FEE_BPS price] by (auto simp: fee_split_def Let_def)
  have "unat (bps_of price bps) \<le> unat price"
    using unat_bps_of [OF assms(2), of price] div_le_mono [OF mult_le_mono2 [OF assms(2), of "unat price"], of 10000] by simp
  with assms(1) show "unat ro \<le> unat price" by (auto simp: fee_split_def Let_def split: if_splits)
  from assms(1) show "ro > 0 \<Longrightarrow> bps \<noteq> 0" by (auto simp: fee_split_def Let_def split: if_splits)
qed

lemma built_settlement_facts:
  assumes laws: "bech32_laws X"
    and can: "canonical_address X (buyer_addr terms)" "canonical_address X (seller_addr terms)"
      "canonical_address X PLATFORM_FEE_ADDRESS" "st_royalty_bps terms \<noteq> 0 \<longrightarrow> canonical_address X (st_royalty_addr terms)"
    and len: "length (st_asset_id terms) = 32" and bps: "unat (st_royalty_bps terms) \<le> 10000"
    and small: "unat (price_atoms terms) + 1000 + unat (miner_fee_atoms terms) < 2 ^ 63"
      "unat (snd seller) + sum_list (map (unat \<circ> snd) buyers) < 2 ^ 63"
    and b: "build_settlement_tx X terms seller buyers = Ok tx"
  shows "verify_settlement X tx terms = []
    \<and> map previous_output (inputs tx) = fst seller # map fst buyers
    \<and> sum_list (map (unat \<circ> value_atoms) (outputs tx)) + unat (miner_fee_atoms terms)
        = unat (snd seller) + sum_list (map (unat \<circ> snd) buyers)
    \<and> (\<forall>pf ro. fee_split (price_atoms terms) (st_royalty_bps terms) (seller_addr terms) (st_royalty_addr terms) = (pf, ro) \<longrightarrow>
        unat (value_atoms (outputs tx ! 2)) + unat pf + unat ro = unat (snd seller) + unat (price_atoms terms))"
proof -
  obtain pf ro where fs: "fee_split (price_atoms terms) (st_royalty_bps terms) (seller_addr terms) (st_royalty_addr terms) = (pf, ro)"
    by (metis surj_pair)
  note F = fee_split_unat [OF fs bps] and S = build_settlement_shape [OF b fs]
  let ?p = "price_atoms terms" and ?v = "foldl (+) 0 (map snd buyers)" and ?c = "CARRIER_ATOMS"
    and ?m = "miner_fee_atoms terms"
  let ?change = "?v - ?p - ?c - ?m" and ?proc = "snd seller + ?p - pf - ro"
  have c: "unat ?c = 1000" by (simp add: CARRIER_ATOMS_def)
  have v: "unat ?v = sum_list (map (unat \<circ> snd) buyers)"
    using small(2) foldl_plus_u64 [of 0 "map snd buyers"] by (simp add: comp_def)
  have sum: "unat (pf + ro) = unat pf + unat ro" using F small(1) by (simp add: unat_word_ariths)
  then have net: "unat pf + unat ro \<le> unat ?p" using S(1) by (simp add: word_less_nat_alt)
  have need: "unat (?p + ?c + ?m) = unat ?p + 1000 + unat ?m" using small(1) c by (simp add: unat_word_ariths)
  then have enough: "unat ?p + 1000 + unat ?m \<le> unat ?v" using S(2) by (simp add: word_less_nat_alt)
  have ch: "unat ?change + unat ?p + 1000 + unat ?m = unat ?v"
    using enough c by (simp add: unat_sub word_le_nat_alt)
  have sp: "unat (snd seller + ?p) = unat (snd seller) + unat ?p"
    using small enough v by (simp add: unat_word_ariths)
  then have pr: "unat ?proc + unat pf + unat ro = unat (snd seller) + unat ?p"
    using net by (simp add: unat_sub word_le_nat_alt)
  from S(3) obtain o0 o2 e1 e2 e3 where o: "outputs tx = [o0, carrier (settlement_op terms), o2] @ e1 @ e2 @ e3"
    and p0: "pay_out X (buyer_addr terms) ?c = Ok o0" and p2: "pay_out X (seller_addr terms) ?proc = Ok o2"
    and e: "extra_output X PLATFORM_FEE_ADDRESS pf e1" "extra_output X (st_royalty_addr terms) ro e2"
      "extra_output X (buyer_addr terms) ?change e3" by blast
  have val: "sum_list (map (unat \<circ> value_atoms) (outputs tx)) = 1000 + unat ?proc + unat pf + unat ro + unat ?change"
    using extra_output_sum [OF e(1)] extra_output_sum [OF e(2)] extra_output_sum [OF e(3)]
    by (simp add: o pay_out_Ok(1) [OF p0] pay_out_Ok(1) [OF p2] c)
  have op: "extract_asset_op tx = Some (settlement_op terms)"
    using op_return_carries [of "settlement_op terms" 0 "o2 # e1 @ e2 @ e3"] len
    by (simp add: extract_asset_op_def o pay_out_Ok(2) [OF p0] settlement_op_def)
  have fee: "has_output_exact X tx PLATFORM_FEE_ADDRESS pf" if "pf > 0"
    using extra_output_has [OF e(1) laws can(3) that] by (simp add: has_output_exact_def o)
  have roy: "has_output_exact X tx (st_royalty_addr terms) ro" if "ro > 0"
    using extra_output_has [OF e(2) laws mp [OF can(4) F(3) [OF that]] that] by (simp add: has_output_exact_def o)
  have "sat_sub ?p (pf + ro) \<le> ?proc" using pr net sum by (simp add: word_le_nat_alt unat_sat_sub)
  then have sel: "has_output_at_least X tx (seller_addr terms) (sat_sub ?p (pf + ro))"
    by (simp add: has_output_at_least_def o pay_out_Ok(1) [OF p2] pay_out_Ok(3) [OF p2 laws can(2)])
  have "verify_settlement X tx terms = []"
    using fee roy sel by (simp add: verify_settlement_def fs Let_def buyer_carrier_ok_def transfer_ok_def op
        settlement_op_def o pay_out_Ok(1) [OF p0] pay_out_Ok(3) [OF p0 laws can(1)])
  with S(4) val ch pr v fs show ?thesis by (simp add: o pay_out_Ok(1) [OF p2])
qed

text \<open>
  A built settlement is correct. For addresses in printed form, a royalty of at most 100 percent
  and amounts below \<open>2 ^ 63\<close>, every transaction that \<open>build_settlement_tx\<close> returns passes
  \<open>verify_settlement\<close>, spends the seller's input first and then the buyer's, gives the seller the
  refunded input and the price less platform fee and royalty, and leaves exactly the miner fee
  between inputs and outputs.
\<close>

theorem built_settlement_correct:
  assumes laws: "bech32_laws X"
    and can: "canonical_address X (buyer_addr terms)" "canonical_address X (seller_addr terms)"
      "canonical_address X PLATFORM_FEE_ADDRESS" "st_royalty_bps terms \<noteq> 0 \<longrightarrow> canonical_address X (st_royalty_addr terms)"
    and len: "length (st_asset_id terms) = 32" and bps: "unat (st_royalty_bps terms) \<le> 10000"
    and small: "unat (price_atoms terms) + 1000 + unat (miner_fee_atoms terms) < 2 ^ 63"
      "unat (snd seller) + sum_list (map (unat \<circ> snd) buyers) < 2 ^ 63"
    and b: "build_settlement_tx X terms seller buyers = Ok tx"
  shows "verify_settlement X tx terms = []
    \<and> map previous_output (inputs tx) = fst seller # map fst buyers
    \<and> sum_list (map (unat \<circ> value_atoms) (outputs tx)) + unat (miner_fee_atoms terms)
        = unat (snd seller) + sum_list (map (unat \<circ> snd) buyers)
    \<and> (\<forall>pf ro. fee_split (price_atoms terms) (st_royalty_bps terms) (seller_addr terms) (st_royalty_addr terms) = (pf, ro) \<longrightarrow>
        unat (value_atoms (outputs tx ! 2)) + unat pf + unat ro = unat (snd seller) + unat (price_atoms terms))"
  by (rule built_settlement_facts [OF assms])

text \<open>Enough funds and printed addresses are all that building needs.\<close>

lemma pay_out_canonical:
  assumes "bech32_laws X" and "canonical_address X a"
  shows "\<exists>out. pay_out X a v = Ok out"
proof -
  from assms(2) obtain h where h: "length h = 20" "bech32_encode X ADDRESS_HRP (to_base32 X h) = Some a"
    by (auto simp: canonical_address_def)
  from assms(1) obtain s where "bech32_encode X ''txm'' (to_base32 X h) = Some s"
    "bech32_decode X s = Some (''txm'', to_base32 X h)" "from_base32 X (to_base32 X h) = Some h"
    unfolding bech32_laws_def by blast
  with h have "p2pkh_from_address X a = Ok (the (p2pkh_script h))"
    by (auto simp: p2pkh_from_address_def ADDRESS_HRP_def)
  then show ?thesis by (simp add: pay_out_def)
qed

lemma push_canonical: "bech32_laws X \<Longrightarrow> canonical_address X a \<or> v = 0 \<Longrightarrow> \<exists>outs'. push_if_positive X a v outs = Ok outs'"
  using pay_out_canonical [of X a v] by (auto simp: push_if_positive_def word_gt_0)

lemma build_settlement_total:
  assumes laws: "bech32_laws X"
    and can: "canonical_address X (buyer_addr terms)" "canonical_address X (seller_addr terms)"
      "canonical_address X PLATFORM_FEE_ADDRESS" "canonical_address X (st_royalty_addr terms) \<or> ro = 0"
    and fs: "fee_split (price_atoms terms) (st_royalty_bps terms) (seller_addr terms) (st_royalty_addr terms) = (pf, ro)"
    and ok: "pf + ro \<le> price_atoms terms"
      "price_atoms terms + CARRIER_ATOMS + miner_fee_atoms terms \<le> foldl (+) 0 (map snd buyers)"
  shows "\<exists>tx. build_settlement_tx X terms seller buyers = Ok tx"
proof -
  let ?v = "foldl (+) 0 (map snd buyers)"
  obtain o0 where o0: "pay_out X (buyer_addr terms) CARRIER_ATOMS = Ok o0" using pay_out_canonical [OF laws can(1)] by blast
  obtain o2 where o2: "pay_out X (seller_addr terms) (snd seller + price_atoms terms - pf - ro) = Ok o2"
    using pay_out_canonical [OF laws can(2)] by blast
  obtain q1 where q1: "push_if_positive X PLATFORM_FEE_ADDRESS pf [o0, carrier (settlement_op terms), o2] = Ok q1"
    using push_canonical [OF laws disjI1 [OF can(3)]] by blast
  obtain q2 where q2: "push_if_positive X (st_royalty_addr terms) ro q1 = Ok q2"
    using push_canonical [OF laws can(4)] by blast
  obtain q3 where q3: "push_if_positive X (buyer_addr terms)
      (?v - price_atoms terms - CARRIER_ATOMS - miner_fee_atoms terms) q2 = Ok q3"
    using push_canonical [OF laws disjI1 [OF can(1)]] by blast
  from ok have n: "\<not> pf + ro > price_atoms terms" "\<not> ?v < price_atoms terms + CARRIER_ATOMS + miner_fee_atoms terms"
    by simp_all
  show ?thesis
    unfolding build_settlement_tx_def fs Let_def split if_not_P [OF n(1)] if_not_P [OF n(2)] o0 o2 q1 q2 q3 res_bind_simps
    by blast
qed

text \<open>A bech32 codec in which the platform address decodes: two addresses of \<open>demo_ext\<close> exchanged.\<close>

definition demo_addr :: "u8 \<Rightarrow> string" where
  "demo_addr b = ''txm1'' @ replicate 20 (char_of (unat b))"

definition swap_addr :: "string \<Rightarrow> string" where
  "swap_addr s = (if s = PLATFORM_FEE_ADDRESS then demo_addr 7 else if s = demo_addr 7 then PLATFORM_FEE_ADDRESS else s)"

definition swap_ext :: ext where
  "swap_ext = demo_ext\<lparr> bech32_encode := (\<lambda>hrp d. map_option swap_addr (bech32_encode demo_ext hrp d)),
     bech32_decode := (\<lambda>s. bech32_decode demo_ext (swap_addr s)) \<rparr>"

lemma demo_addr_simps [simp]:
  "demo_addr b \<noteq> PLATFORM_FEE_ADDRESS" "PLATFORM_FEE_ADDRESS \<noteq> demo_addr b" "demo_addr 5 \<noteq> demo_addr 7" "demo_addr 6 \<noteq> demo_addr 7"
proof -
  have "length (demo_addr b) \<noteq> length PLATFORM_FEE_ADDRESS" by (simp add: demo_addr_def PLATFORM_FEE_ADDRESS_def)
  then show "demo_addr b \<noteq> PLATFORM_FEE_ADDRESS" "PLATFORM_FEE_ADDRESS \<noteq> demo_addr b" by metis+
  have "(char_of (5 :: nat) :: char) \<noteq> char_of (7 :: nat)" "(char_of (6 :: nat) :: char) \<noteq> char_of (7 :: nat)" by simp_all
  then show "demo_addr 5 \<noteq> demo_addr 7" "demo_addr 6 \<noteq> demo_addr 7" by (simp_all add: demo_addr_def)
qed

lemma swap_swap [simp]: "swap_addr (swap_addr s) = s"
  by (simp add: swap_addr_def)

lemma swap_ext_laws: "bech32_laws swap_ext"
  unfolding bech32_laws_def
proof (intro conjI ballI allI)
  fix bs hrp
  show "from_base32 swap_ext (to_base32 swap_ext bs) = Some bs" for bs
    using demo_bech32_laws by (simp add: bech32_laws_def swap_ext_def)
  assume hrp: "hrp \<in> {''txm'', ''txms''}"
  obtain s where "bech32_encode demo_ext hrp (to_base32 demo_ext bs) = Some s"
    "bech32_decode demo_ext s = Some (hrp, to_base32 demo_ext bs)"
    using demo_bech32_laws hrp unfolding bech32_laws_def by blast
  then show "\<exists>s. bech32_encode swap_ext hrp (to_base32 swap_ext bs) = Some s
      \<and> bech32_decode swap_ext s = Some (hrp, to_base32 swap_ext bs)"
    by (simp add: swap_ext_def)
qed

lemma demo_addr_encode: "bech32_encode demo_ext ADDRESS_HRP (to_base32 demo_ext (replicate 20 b)) = Some (demo_addr b)"
  by (simp add: demo_ext_def ADDRESS_HRP_def demo_addr_def)

lemma demo_addr_canonical: "b \<in> {5, 6} \<Longrightarrow> canonical_address swap_ext (demo_addr b)"
  unfolding canonical_address_def
  by (intro exI [of _ "replicate 20 b"])
     (auto simp: swap_ext_def demo_addr_encode swap_addr_def)

lemma platform_canonical: "canonical_address swap_ext PLATFORM_FEE_ADDRESS"
  unfolding canonical_address_def
  by (intro exI [of _ "replicate 20 7"])
     (simp add: swap_ext_def demo_addr_encode swap_addr_def)

definition demo_terms :: SettlementTerms where
  "demo_terms = \<lparr> st_asset_id = replicate 32 7, st_amount = 5, price_atoms = 1000000, st_royalty_bps = 0,
     st_royalty_addr = [], seller_addr = demo_addr 5, buyer_addr = demo_addr 6, miner_fee_atoms = 10000 \<rparr>"

lemma demo_built:
  "\<exists>tx. build_settlement_tx swap_ext demo_terms (\<lparr> op_txid = ZERO, output_index = 0 \<rparr>, 3000)
      [(\<lparr> op_txid = ZERO, output_index = 1 \<rparr>, 1100000)] = Ok tx"
  by (rule build_settlement_total [where pf = 25000 and ro = 0])
     (simp_all add: swap_ext_laws platform_canonical demo_addr_canonical demo_terms_def fee_split_def
       bps_of_def PLATFORM_FEE_BPS_def CARRIER_ATOMS_def Let_def)

theorem built_settlement_correct_witness:
  "\<exists>tx. build_settlement_tx swap_ext demo_terms (\<lparr> op_txid = ZERO, output_index = 0 \<rparr>, 3000)
      [(\<lparr> op_txid = ZERO, output_index = 1 \<rparr>, 1100000)] = Ok tx \<and> verify_settlement swap_ext tx demo_terms = []"
proof -
  obtain tx where tx: "build_settlement_tx swap_ext demo_terms (\<lparr> op_txid = ZERO, output_index = 0 \<rparr>, 3000)
      [(\<lparr> op_txid = ZERO, output_index = 1 \<rparr>, 1100000)] = Ok tx" using demo_built by blast
  have "verify_settlement swap_ext tx demo_terms = []"
    using built_settlement_correct [OF swap_ext_laws _ _ platform_canonical _ _ _ _ _ tx]
    by (simp add: demo_addr_canonical demo_terms_def)
  with tx show ?thesis by blast
qed

section \<open>What passes the check settles\<close>

lemma verify_settlement_Nil:
  assumes "verify_settlement X tx terms = []"
    and "fee_split (price_atoms terms) (st_royalty_bps terms) (seller_addr terms) (st_royalty_addr terms) = (pf, ro)"
  shows "buyer_carrier_ok X tx terms" "transfer_ok tx terms" "pf > 0 \<Longrightarrow> has_output_exact X tx PLATFORM_FEE_ADDRESS pf"
    "ro > 0 \<Longrightarrow> has_output_exact X tx (st_royalty_addr terms) ro"
    "has_output_at_least X tx (seller_addr terms) (sat_sub (price_atoms terms) (pf + ro))"
  using assms by (simp_all add: verify_settlement_def Let_def split: if_splits)

lemma index_settlement:
  assumes "buyer_carrier_ok X tx terms" and "transfer_ok tx terms" and "resolve_source X idx tx = Some src"
  shows "ix_state (index_tx X ht idx tx) =
    snd (apply_transfer (ix_state idx) src (Some (buyer_addr terms))
      \<lparr> asset_id = st_asset_id terms, asset_amount = st_amount terms, dest_output_index = 0 \<rparr>)"
proof -
  from assms(2) obtain d where d: "extract_asset_op tx = Some (Transfer d)" "asset_id d = st_asset_id terms"
    "asset_amount d = st_amount terms" "dest_output_index d = 0"
    by (auto simp: transfer_ok_def split: option.splits AssetOp.splits)
  then have deq: "d = \<lparr> asset_id = st_asset_id terms, asset_amount = st_amount terms, dest_output_index = 0 \<rparr>"
    by (cases d) simp
  have dest: "resolve_dest X tx (Transfer d) = Some (buyer_addr terms)"
    using assms(1) d(4) by (auto simp: resolve_dest_def buyer_carrier_ok_def split: list.splits)
  have h: "ix_state (record_history X j ht t src dst x) = ix_state j" for j t dst x
    by (simp add: record_history_def Let_def split: prod.splits)
  have o: "ix_state (record_outputs X j tx) = ix_state j" for j by (simp add: record_outputs_def)
  let ?ap = "apply_transfer (ix_state idx) src (Some (buyer_addr terms)) d"
  show ?thesis
    using assms(3) d(1) dest unfolding deq [symmetric]
    by (cases ?ap) (simp add: index_tx_def Let_def h o)
qed

text \<open>
  A transaction that passes \<open>verify_settlement\<close> settles the sale atomically: when the seller's
  address signs its first input and holds the asset, indexing it moves exactly the agreed units (or
  the NFT) from the seller to the buyer, and the very same transaction pays the seller at least the
  price less fees, the platform its fee and the creator the royalty.
\<close>

theorem verified_settlement_delivers:
  assumes v: "verify_settlement X tx terms = []" and inv: "asset_inv (ix_state idx)"
    and src: "resolve_source X idx tx = Some (seller_addr terms)" and ne: "seller_addr terms \<noteq> buyer_addr terms"
    and info: "hm_get (assets (ix_state idx)) (st_asset_id terms) = Some info"
    and own: "case info_kind info of
        Fungible \<Rightarrow> st_amount terms \<noteq> 0 \<and> st_amount terms \<le> ft_balance (ix_state idx) (seller_addr terms) (st_asset_id terms)
      | NonFungible \<Rightarrow> st_amount terms = 1 \<and> hm_get (nft_owner (ix_state idx)) (st_asset_id terms) = Some (seller_addr terms)"
    and fs: "fee_split (price_atoms terms) (st_royalty_bps terms) (seller_addr terms) (st_royalty_addr terms) = (pf, ro)"
  shows "(case info_kind info of
        Fungible \<Rightarrow>
          unat (ft_balance (ix_state (index_tx X ht idx tx)) (buyer_addr terms) (st_asset_id terms))
            = unat (ft_balance (ix_state idx) (buyer_addr terms) (st_asset_id terms)) + unat (st_amount terms)
          \<and> unat (ft_balance (ix_state (index_tx X ht idx tx)) (seller_addr terms) (st_asset_id terms)) + unat (st_amount terms)
            = unat (ft_balance (ix_state idx) (seller_addr terms) (st_asset_id terms))
      | NonFungible \<Rightarrow> hm_get (nft_owner (ix_state (index_tx X ht idx tx))) (st_asset_id terms) = Some (buyer_addr terms))
    \<and> has_output_at_least X tx (seller_addr terms) (sat_sub (price_atoms terms) (pf + ro))
    \<and> (pf > 0 \<longrightarrow> has_output_exact X tx PLATFORM_FEE_ADDRESS pf)
    \<and> (ro > 0 \<longrightarrow> has_output_exact X tx (st_royalty_addr terms) ro)"
proof -
  note V = verify_settlement_Nil [OF v fs]
  note I = asset_invD [OF inv]
  let ?d = "\<lparr> asset_id = st_asset_id terms, asset_amount = st_amount terms, dest_output_index = 0 \<rparr>"
  note st' = index_settlement [OF V(1,2) src, of ht]
  have "case info_kind info of
        Fungible \<Rightarrow>
          unat (ft_balance (ix_state (index_tx X ht idx tx)) (buyer_addr terms) (st_asset_id terms))
            = unat (ft_balance (ix_state idx) (buyer_addr terms) (st_asset_id terms)) + unat (st_amount terms)
          \<and> unat (ft_balance (ix_state (index_tx X ht idx tx)) (seller_addr terms) (st_asset_id terms)) + unat (st_amount terms)
            = unat (ft_balance (ix_state idx) (seller_addr terms) (st_asset_id terms))
      | NonFungible \<Rightarrow> hm_get (nft_owner (ix_state (index_tx X ht idx tx))) (st_asset_id terms) = Some (buyer_addr terms)"
  proof (cases "info_kind info")
    case Fungible
    with own have am: "st_amount terms \<noteq> 0" "st_amount terms \<le> ft_balance (ix_state idx) (seller_addr terms) (st_asset_id terms)"
      by simp_all
    have small: "asset_total (st_asset_id terms) (ft_balances (ix_state idx)) < 2 ^ 64" using I(4) supply_of_small by simp
    note mv = move_units_correct(3) [OF I(2) am(2) [unfolded ft_balance_def] small, where dest = "buyer_addr terms"]
    have nl: "\<not> ft_balance (ix_state idx) (seller_addr terms) (st_asset_id terms) < st_amount terms" using am(2) by simp
    show ?thesis using Fungible am(1) nl info ne mv [of "buyer_addr terms"] mv [of "seller_addr terms"]
      by (simp add: st' apply_transfer_def ft_balance_def)
  next
    case NonFungible
    with own info show ?thesis by (simp add: st' apply_transfer_def)
  qed
  with V(3-5) show ?thesis by blast
qed

definition sale_indexer :: Indexer where
  "sale_indexer = indexer_default\<lparr> ix_state := asset_run asset_state_default
       [(replicate 32 7, 1, demo_addr 5, None, demo_issue)],
     ix_outpoints := [(index_outpoint_key swap_ext ZERO 0, demo_addr 5)], scanned_any := True \<rparr>"

theorem verified_settlement_delivers_witness:
  "\<exists>tx. verify_settlement swap_ext tx demo_terms = []
    \<and> unat (ft_balance (ix_state (index_tx swap_ext 2 sale_indexer tx)) (demo_addr 6) (replicate 32 7)) = 5"
proof -
  obtain tx where tx: "build_settlement_tx swap_ext demo_terms (\<lparr> op_txid = ZERO, output_index = 0 \<rparr>, 3000)
      [(\<lparr> op_txid = ZERO, output_index = 1 \<rparr>, 1100000)] = Ok tx" using demo_built by blast
  obtain pf ro where fs: "fee_split (price_atoms demo_terms) (st_royalty_bps demo_terms) (seller_addr demo_terms)
      (st_royalty_addr demo_terms) = (pf, ro)" by (metis surj_pair)
  have v: "verify_settlement swap_ext tx demo_terms = []"
    using built_settlement_facts [OF swap_ext_laws _ _ platform_canonical _ _ _ _ _ tx]
    by (simp add: demo_addr_canonical demo_terms_def)
  have "map previous_output (inputs tx) = [\<lparr> op_txid = ZERO, output_index = 0 \<rparr>, \<lparr> op_txid = ZERO, output_index = 1 \<rparr>]"
    using build_settlement_shape(4) [OF tx fs] by simp
  then have src: "resolve_source swap_ext sale_indexer tx = Some (seller_addr demo_terms)"
    by (cases "inputs tx") (simp_all add: resolve_source_def sale_indexer_def demo_terms_def)
  have inv: "asset_inv (ix_state sale_indexer)" by (simp add: sale_indexer_def asset_run_inv asset_inv_default)
  have ne: "seller_addr demo_terms \<noteq> buyer_addr demo_terms" by (simp add: demo_terms_def demo_addr_def)
  have info: "hm_get (assets (ix_state sale_indexer)) (st_asset_id demo_terms) = Some (issued_info
      \<lparr> ticker = ''GOLD'', decimals = 8, issue_supply = 21000000, issue_name = ''Gold Token'', issue_flags = 0 \<rparr> (demo_addr 5) 1)"
    and bal: "ft_balance (ix_state sale_indexer) (demo_addr 5) (replicate 32 7) = 21000000"
      "ft_balance (ix_state sale_indexer) (demo_addr 6) (replicate 32 7) = 0"
    using ne by (simp_all add: sale_indexer_def asset_run_def asset_step_def demo_issue_def apply_issue_def
        asset_state_default_def ft_balance_def get_or_0_def demo_terms_def)
  have "unat (ft_balance (ix_state (index_tx swap_ext 2 sale_indexer tx)) (demo_addr 6) (replicate 32 7)) = 5"
    using verified_settlement_delivers [OF v inv src ne info _ fs, of 2] bal
    by (simp add: issued_info_def) (simp add: demo_terms_def)
  with v show ?thesis by blast
qed

end
