(* ===== verification/Wallet_Cli.thy ===== *)
theory Wallet_Cli
  imports Wallet_File Asset_Settlement Node_Rpc
begin

text \<open>
  The wallet program, \<open>crates/txmwallet/src/main.rs\<close>: what it reads and writes, the transactions it
  builds from the node's answers, and its commands. A file or an HTTP body is the value that
  \<open>serde_json\<close> reads from it, or other text; the environment variables, the clock, the random bytes,
  the answers of the node and of the indexer and the faults of the file system are the surroundings of
  a run. A command gives the files it leaves, what it posted to the node, and what it printed or its
  error; \<open>None\<close> is a panic. Plain 64-bit sums wrap, as in a release build. The local database that
  \<open>load_state\<close> opens is a value of the surroundings.
\<close>

section \<open>Documents and surroundings\<close>

record RpcUtxo =
  txid_bytes :: bytes
  ru_index :: u32
  ru_value :: u64
  mature :: bool

record MultisigSig =
  sig_input_index :: nat
  der_sig_hex :: string

record MultisigSigFile =
  unsigned_txid :: string
  sigs :: "MultisigSig list"

record AssetOrder =
  asset_id_hex :: string
  order_amount :: u64
  order_price :: u64
  order_seller :: string
  seller_txid_hex :: string
  seller_vout :: u32
  seller_value :: u64

record SettlementFile =
  settle_tx :: Transaction
  settle_terms :: SettlementTerms

record UnsignedSettlement = SettlementFile +
  seller_indices :: "nat list"
  buyer_indices :: "nat list"

datatype document =
    WalletDoc WalletFile
  | TxDoc Transaction
  | SigDoc MultisigSigFile
  | OrderDoc AssetOrder
  | SettlementDoc SettlementFile
  | UnsignedSettlementDoc UnsignedSettlement
  | AssetTxDoc Transaction AssetOp u64
  | UtxosDoc "RpcUtxo list"
  | TipDoc u64
  | AssetInfoDoc u16 string
  | TextDoc string

type_synonym disk = "(string, document) hashmap"

datatype http_failure = HttpStatus nat string | HttpRead string | HttpTransport string

text \<open>\<open>fs::write\<close> fails before it has opened the file, or after it has truncated it.\<close>

datatype write_fault = NotOpened string | CutShort document string

record wallet_env =
  passphrase_var :: "string option"
  new_passphrase_var :: "string option"
  wallet_var :: "string option"
  rpc_var :: "string option"
  indexer_var :: "string option"
  clock_secs :: u64
  fresh_key :: bytes
  fresh_salt :: bytes
  fresh_nonce :: bytes
  fresh_preimage :: bytes
  http_get :: "string \<Rightarrow> (document, http_failure) result"
  http_post :: "string \<Rightarrow> document \<Rightarrow> (document, http_failure) result"
  write_faults :: "string \<Rightarrow> write_fault option"
  local_state :: "(ChainState, string) result"

record cli_result =
  disk_after :: disk
  posted :: "(string \<times> document) list"
  printed :: "(document list, string) result"

definition stop :: "disk \<Rightarrow> string \<Rightarrow> cli_result option" where
  "stop d e = Some \<lparr> disk_after = d, posted = [], printed = Err e \<rparr>"

definition say :: "disk \<Rightarrow> string list \<Rightarrow> cli_result option" where
  "say d ls = Some \<lparr> disk_after = d, posted = [], printed = Ok (map TextDoc ls) \<rparr>"

text \<open>\<open>let a = m?; ..\<close> in a command\<close>

definition proceed :: "disk \<Rightarrow> 'a attempt \<Rightarrow> ('a \<Rightarrow> cli_result option) \<Rightarrow> cli_result option" where
  "proceed d m k = (case m of None \<Rightarrow> None | Some (Err e) \<Rightarrow> stop d e | Some (Ok a) \<Rightarrow> k a)"

definition fs_write :: "wallet_env \<Rightarrow> string \<Rightarrow> document \<Rightarrow> disk \<Rightarrow> disk \<times> bool" where
  "fs_write E path doc d =
     (case write_faults E path of
        None \<Rightarrow> (hm_insert path doc d, True)
      | Some (NotOpened _) \<Rightarrow> (d, False)
      | Some (CutShort left _) \<Rightarrow> (hm_insert path left d, False))"

text \<open>A command that ends by writing one file and printing lines\<close>

definition write_and_say :: "wallet_env \<Rightarrow> disk \<Rightarrow> string \<Rightarrow> document \<Rightarrow> string list \<Rightarrow> cli_result option" where
  "write_and_say E d path doc ls =
     (case fs_write E path doc d of
        (d', True) \<Rightarrow> say d' ls
      | (d', False) \<Rightarrow> stop d' (''failed to write '' @ path))"

definition arg :: "nat \<Rightarrow> string list \<Rightarrow> string option" where
  "arg i args = (if i < length args then Some (args ! i) else None)"

definition DEFAULT_WALLET_PATH :: string where "DEFAULT_WALLET_PATH = ''tensorium-wallet.json''"
definition DEFAULT_SIGNED_TX_PATH :: string where "DEFAULT_SIGNED_TX_PATH = ''tensorium-signed-tx.json''"
definition DEFAULT_RPC :: string where "DEFAULT_RPC = ''127.0.0.1:33332''"

definition or_default :: "'a option \<Rightarrow> 'a \<Rightarrow> 'a" where
  "or_default x y = (case x of Some a \<Rightarrow> a | None \<Rightarrow> y)"

definition wallet_path_from_env :: "wallet_env \<Rightarrow> string" where
  "wallet_path_from_env E = or_default (wallet_var E) DEFAULT_WALLET_PATH"

definition passphrase_from_env :: "wallet_env \<Rightarrow> (string, string) result" where
  "passphrase_from_env E =
     (case passphrase_var E of
        None \<Rightarrow> Err ''set TENSORIUM_WALLET_PASSPHRASE first''
      | Some pw \<Rightarrow> if length pw < 8 then Err ''wallet passphrase must be at least 8 characters'' else Ok pw)"

definition load_wallet :: "disk \<Rightarrow> string \<Rightarrow> (WalletFile, string) result" where
  "load_wallet d path =
     (case hm_get d path of
        None \<Rightarrow> Err (''failed to read '' @ path)
      | Some (WalletDoc w) \<Rightarrow> Ok w
      | Some _ \<Rightarrow> Err (''failed to parse '' @ path))"

text \<open>\<open>passphrase_from_env()?\<close>, \<open>load_wallet(&wallet_path)?\<close>, \<open>wallet.decrypt(&passphrase)?\<close>\<close>

definition unlock :: "ext \<Rightarrow> crypto \<Rightarrow> wallet_env \<Rightarrow> disk \<Rightarrow> (WalletFile \<times> WalletKeypair) attempt" where
  "unlock X C E d =
     and_then (Some (passphrase_from_env E)) (\<lambda>pw.
     and_then (Some (load_wallet d (wallet_path_from_env E))) (\<lambda>w.
     and_then (wallet_decrypt X C w pw) (\<lambda>k. Some (Ok (w, k)))))"

definition normalize_rpc_url :: "string \<Rightarrow> string" where
  "normalize_rpc_url rpc =
     (let t = rev (dropWhile (\<lambda>c. c = CHR ''/'') (rev (trim rpc))) in
      if starts_with ''http://'' t \<or> starts_with ''https://'' t then t else ''http://'' @ t)"

definition rpc_post :: "wallet_env \<Rightarrow> string \<Rightarrow> string \<Rightarrow> document \<Rightarrow> (document, string) result" where
  "rpc_post E rpc path body =
     (let url = normalize_rpc_url rpc @ path in
      case http_post E url body of
        Ok doc \<Rightarrow> Ok doc
      | Err (HttpRead e) \<Rightarrow> Err (''failed to read response: '' @ e)
      | Err (HttpStatus code detail) \<Rightarrow> Err (''RPC error '' @ show_nat code @ '': '' @ detail)
      | Err (HttpTransport e) \<Rightarrow> Err (''failed to connect to '' @ url @ '': '' @ e))"

definition rpc_get :: "wallet_env \<Rightarrow> string \<Rightarrow> string \<Rightarrow> (document, string) result" where
  "rpc_get E rpc path =
     (let url = normalize_rpc_url rpc @ path in
      case http_get E url of
        Ok doc \<Rightarrow> Ok doc
      | Err (HttpRead e) \<Rightarrow> Err (''RPC read: '' @ e)
      | Err (HttpStatus code detail) \<Rightarrow> Err (''RPC error '' @ show_nat code @ '': '' @ detail)
      | Err (HttpTransport e) \<Rightarrow> Err (''RPC connect '' @ url @ '': '' @ e))"

text \<open>\<open>rpc_get(rpc, "/getutxos/..")\<close> parsed into \<open>RpcUtxoResp\<close>\<close>

definition get_utxos :: "wallet_env \<Rightarrow> string \<Rightarrow> string \<Rightarrow> (RpcUtxo list, string) result" where
  "get_utxos E rpc param =
     res_bind (rpc_get E rpc (''/getutxos/'' @ param))
       (\<lambda>doc. case doc of UtxosDoc us \<Rightarrow> Ok us | _ \<Rightarrow> Err ''UTXO parse error'')"

section \<open>Choosing coins\<close>

definition blank_input :: "OutPoint \<Rightarrow> TxInput" where
  "blank_input p = \<lparr> previous_output = p, signature_script = [] \<rparr>"

definition utxo_point :: "RpcUtxo \<Rightarrow> OutPoint" where
  "utxo_point u = \<lparr> op_txid = Hash256 (txid_bytes u), output_index = ru_index u \<rparr>"

text \<open>
  The loop shared by the builders: mature outputs in the order of the answer, until the saturating
  sum reaches what is needed; a transaction id of the wrong length is an error.
\<close>

fun pick_mature :: "string \<Rightarrow> u64 \<Rightarrow> RpcUtxo list \<Rightarrow> OutPoint list \<Rightarrow> u64 \<Rightarrow> (OutPoint list \<times> u64, string) result" where
  "pick_mature bad needed [] selected acc = Ok (selected, acc)"
| "pick_mature bad needed (u # us) selected acc =
     (if \<not> mature u then pick_mature bad needed us selected acc
      else if length (txid_bytes u) \<noteq> 32 then Err bad
      else
        let selected = selected @ [utxo_point u]; acc = sat_add acc (ru_value u) in
        if acc \<ge> needed then Ok (selected, acc) else pick_mature bad needed us selected acc)"

fun mature_pairs :: "RpcUtxo list \<Rightarrow> ((OutPoint \<times> u64) list, string) result" where
  "mature_pairs [] = Ok []"
| "mature_pairs (u # us) =
     (if \<not> mature u then mature_pairs us
      else if length (txid_bytes u) \<noteq> 32 then Err ''invalid txid length from RPC''
      else res_bind (mature_pairs us) (\<lambda>ps. Ok ((utxo_point u, ru_value u) # ps)))"

definition fetch_mature_utxos :: "wallet_env \<Rightarrow> string \<Rightarrow> string \<Rightarrow> ((OutPoint \<times> u64) list, string) result" where
  "fetch_mature_utxos E rpc addr = res_bind (get_utxos E rpc addr) mature_pairs"

section \<open>Payments\<close>

text \<open>The recipient, and change to the wallet if there is any\<close>

definition payment_outputs :: "ext \<Rightarrow> string \<Rightarrow> string \<Rightarrow> u64 \<Rightarrow> u64 \<Rightarrow> u64 \<Rightarrow> (TxOutput list, string) result" where
  "payment_outputs X wallet_addr to_address amount_atoms fee selected_atoms =
     res_bind (map_err (\<lambda>_. ''invalid recipient address: '' @ to_address) (p2pkh_from_address X to_address)) (\<lambda>spk.
       let outs = [\<lparr> value_atoms = amount_atoms, script_pubkey = spk \<rparr>];
           change = selected_atoms - amount_atoms - fee in
       if change > 0 then
         res_bind (map_err (\<lambda>_. ''invalid wallet address'') (p2pkh_from_address X wallet_addr))
           (\<lambda>own. Ok (outs @ [\<lparr> value_atoms = change, script_pubkey = own \<rparr>]))
       else Ok outs)"

definition sign_all :: "ext \<Rightarrow> WalletKeypair \<Rightarrow> Transaction \<Rightarrow> (Transaction, string) result" where
  "sign_all X k tx = map_err wallet_error_text (sign_transaction X k tx)"

definition build_signed_payment_via_rpc ::
  "ext \<Rightarrow> wallet_env \<Rightarrow> WalletFile \<Rightarrow> WalletKeypair \<Rightarrow> string \<Rightarrow> string \<Rightarrow> u64 \<Rightarrow> u64 \<Rightarrow> (Transaction, string) result" where
  "build_signed_payment_via_rpc X E w k rpc to_address amount_atoms fee =
     (let needed = sat_add amount_atoms fee in
      res_bind (get_utxos E rpc (wf_address w)) (\<lambda>us.
      res_bind (pick_mature ''invalid txid length from RPC'' needed us [] 0) (\<lambda>(selected, selected_atoms).
        if selected_atoms < needed
        then Err (''insufficient mature balance via RPC: have '' @ show_nat (unat selected_atoms) @ '', need '' @ show_nat (unat needed)
               @ '' (amount '' @ show_nat (unat amount_atoms) @ '' + fee '' @ show_nat (unat fee) @ '')'')
        else
          res_bind (payment_outputs X (wf_address w) to_address amount_atoms fee selected_atoms) (\<lambda>outs.
            sign_all X k (payment X (map blank_input selected) outs)))))"

text \<open>
  From the local database: the entries are visited in the order of the map, which for a \<open>HashMap\<close> is
  any order.
\<close>

fun pick_local :: "u64 \<Rightarrow> bytes \<Rightarrow> u64 \<Rightarrow> (OutPoint \<times> UtxoEntry) list \<Rightarrow> OutPoint list \<Rightarrow> u64 \<Rightarrow> OutPoint list \<times> u64" where
  "pick_local tip_height script needed [] selected acc = (selected, acc)"
| "pick_local tip_height script needed ((out, e) # es) selected acc =
     (if script_pubkey (entry_output e) \<noteq> script \<or> immature MAINNET tip_height e
      then pick_local tip_height script needed es selected acc
      else
        let selected = selected @ [out]; acc = sat_add acc (value_atoms (entry_output e)) in
        if acc \<ge> needed then (selected, acc) else pick_local tip_height script needed es selected acc)"

definition own_script :: "ext \<Rightarrow> WalletFile \<Rightarrow> bytes option" where
  "own_script X w = p2pkh_from_pubkey X (or_default (hex_decode X (wf_public_key_hex w)) [])"

definition build_signed_payment ::
  "ext \<Rightarrow> WalletFile \<Rightarrow> WalletKeypair \<Rightarrow> ChainState \<Rightarrow> string \<Rightarrow> u64 \<Rightarrow> u64 \<Rightarrow> Transaction attempt" where
  "build_signed_payment X w k s to_address amount_atoms fee =
     (if amount_atoms = 0 then Some (Err ''amount_atoms must be greater than zero'')
      else
        let needed = sat_add amount_atoms fee in
        and_then (Some (map_err utxo_error_text (replay_utxo_from X MAINNET [] (canonical_blocks_iter s)))) (\<lambda>uset.
          Option.bind (own_script X w) (\<lambda>script.
            let (selected, selected_atoms) = pick_local (height_or_0 s) script needed uset [] 0 in
            if selected_atoms < needed
            then Some (Err (''insufficient mature balance: have '' @ show_nat (unat selected_atoms) @ '', need '' @ show_nat (unat needed)
                   @ '' (amount '' @ show_nat (unat amount_atoms) @ '' + fee '' @ show_nat (unat fee) @ '')''))
            else Some (res_bind (payment_outputs X (wf_address w) to_address amount_atoms fee selected_atoms) (\<lambda>outs.
                   sign_all X k (payment X (map blank_input selected) outs))))))"

definition pad8 :: "string \<Rightarrow> string" where
  "pad8 s = replicate (8 - length s) CHR ''0'' @ s"

definition format_atoms :: "u64 \<Rightarrow> string" where
  "format_atoms atoms = show_nat (unat (atoms div 100000000)) @ ''.'' @ pad8 (show_nat (unat (atoms mod 100000000)))"

text \<open>The mature and the immature balance of a script\<close>

definition balances_of :: "u64 \<Rightarrow> bytes \<Rightarrow> utxo_map \<Rightarrow> u64 \<times> u64" where
  "balances_of tip_height script uset =
     foldl (\<lambda>(mat, imm) (out, e).
        if script_pubkey (entry_output e) \<noteq> script then (mat, imm)
        else if immature MAINNET tip_height e then (mat, sat_add imm (value_atoms (entry_output e)))
        else (sat_add mat (value_atoms (entry_output e)), imm)) (0, 0) uset"

definition print_balance :: "ext \<Rightarrow> WalletFile \<Rightarrow> ChainState \<Rightarrow> string list attempt" where
  "print_balance X w s =
     and_then (Some (map_err utxo_error_text (replay_utxo_from X MAINNET [] (canonical_blocks_iter s)))) (\<lambda>uset.
       Option.bind (own_script X w) (\<lambda>script.
         let (mat, imm) = balances_of (height_or_0 s) script uset in
         Some (Ok [''address='' @ wf_address w, ''mature_atoms='' @ show_nat (unat mat), ''immature_atoms='' @ show_nat (unat imm),
           ''mature_txm='' @ format_atoms mat, ''immature_txm='' @ format_atoms imm])))"

section \<open>Asset transactions\<close>

definition build_asset_tx_via_rpc ::
  "ext \<Rightarrow> wallet_env \<Rightarrow> WalletFile \<Rightarrow> WalletKeypair \<Rightarrow> string \<Rightarrow> AssetOp \<Rightarrow> (string \<times> u64) option \<Rightarrow> u64 \<Rightarrow> (Transaction, string) result" where
  "build_asset_tx_via_rpc X E w k rpc x dest fee =
     (let needed = sat_add (case dest of Some (_, a) \<Rightarrow> a | None \<Rightarrow> 0) fee in
      res_bind (get_utxos E rpc (wf_address w)) (\<lambda>us.
      res_bind (pick_mature ''invalid txid length from RPC'' needed us [] 0) (\<lambda>(selected, total_in).
        if total_in < needed
        then Err (''insufficient mature balance via RPC: have '' @ show_nat (unat total_in) @ '', need '' @ show_nat (unat needed))
        else
          res_bind (map_err build_error_text (build_outputs X x dest (wf_address w) total_in fee)) (\<lambda>outs.
            sign_all X k (payment X (map blank_input selected) outs)))))"

fun take_until :: "u64 \<Rightarrow> (OutPoint \<times> u64) list \<Rightarrow> OutPoint list \<Rightarrow> u64 \<Rightarrow> OutPoint list \<times> u64" where
  "take_until needed [] selected acc = (selected, acc)"
| "take_until needed ((p, v) # us) selected acc =
     (let selected = selected @ [p]; acc = sat_add acc v in
      if acc \<ge> needed then (selected, acc) else take_until needed us selected acc)"

definition build_unsigned_asset_tx :: "ext \<Rightarrow> AssetOp \<Rightarrow> string \<Rightarrow> (OutPoint \<times> u64) list \<Rightarrow> u64 \<Rightarrow> (Transaction, string) result" where
  "build_unsigned_asset_tx X x creator_addr utxos fee =
     (let (selected, total_in) = take_until fee utxos [] 0 in
      if total_in < fee
      then Err (''insufficient mature balance: have '' @ show_nat (unat total_in) @ '', need '' @ show_nat (unat fee))
      else res_bind (map_err build_error_text (build_outputs X x None creator_addr total_in fee))
             (\<lambda>outs. Ok (payment X (map blank_input selected) outs)))"

section \<open>Spending from scripts\<close>

definition build_unsigned_multisig_tx :: "ext \<Rightarrow> wallet_env \<Rightarrow> string \<Rightarrow> string \<Rightarrow> string \<Rightarrow> u64 \<Rightarrow> (Transaction, string) result" where
  "build_unsigned_multisig_tx X E rpc scriptpubkey_hex dest_addr amount_atoms =
     (if amount_atoms = 0 then Err ''amount_atoms must be greater than zero''
      else
        let needed = sat_add amount_atoms MIN_RELAY_FEE_ATOMS in
        res_bind (get_utxos E rpc scriptpubkey_hex) (\<lambda>us.
        res_bind (pick_mature ''invalid txid from RPC'' needed us [] 0) (\<lambda>(selected, selected_atoms).
          if selected_atoms < needed
          then Err (''insufficient balance: have '' @ show_nat (unat selected_atoms) @ '', need '' @ show_nat (unat needed)
                 @ '' (amount '' @ show_nat (unat amount_atoms) @ '' + fee '' @ show_nat (unat MIN_RELAY_FEE_ATOMS) @ '')'')
          else
            res_bind (map_err (\<lambda>_. ''invalid destination address: '' @ dest_addr) (p2pkh_from_address X dest_addr)) (\<lambda>dest_script.
            res_bind (ok_or (hex_decode X scriptpubkey_hex) ''invalid scriptpubkey hex'') (\<lambda>source_script.
              let change = selected_atoms - amount_atoms - MIN_RELAY_FEE_ATOMS;
                  outs = \<lparr> value_atoms = amount_atoms, script_pubkey = dest_script \<rparr>
                    # (if change > 0 then [\<lparr> value_atoms = change, script_pubkey = source_script \<rparr>] else []) in
              Ok (payment X (map blank_input selected) outs))))))"

definition build_unsigned_htlc_spend :: "ext \<Rightarrow> wallet_env \<Rightarrow> string \<Rightarrow> string \<Rightarrow> string \<Rightarrow> (Transaction, string) result" where
  "build_unsigned_htlc_spend X E rpc scriptpubkey_hex dest_addr =
     res_bind (get_utxos E rpc scriptpubkey_hex) (\<lambda>us.
     res_bind (ok_or (find mature us) ''no mature UTXO found for this HTLC script'') (\<lambda>u.
       if ru_value u \<le> MIN_RELAY_FEE_ATOMS
       then Err (''HTLC value '' @ show_nat (unat (ru_value u)) @ '' atoms is too small to cover minimum relay fee (''
              @ show_nat (unat MIN_RELAY_FEE_ATOMS) @ '' atoms)'')
       else if length (txid_bytes u) \<noteq> 32 then Err ''invalid txid from RPC''
       else
         res_bind (map_err (\<lambda>_. ''invalid destination address: '' @ dest_addr) (p2pkh_from_address X dest_addr)) (\<lambda>dest_script.
           Ok (payment X [blank_input (utxo_point u)]
             [\<lparr> value_atoms = ru_value u - MIN_RELAY_FEE_ATOMS, script_pubkey = dest_script \<rparr>]))))"

text \<open>Bytes 3 to 23 of the script of an address\<close>

definition address_to_hash20 :: "ext \<Rightarrow> string \<Rightarrow> (bytes, string) result" where
  "address_to_hash20 X addr =
     res_bind (map_err (\<lambda>_. ''invalid address: '' @ addr) (p2pkh_from_address X addr)) (\<lambda>script. Ok (take 20 (drop 3 script)))"

text \<open>The same unlocking script for every input, then \<open>refresh_id\<close>\<close>

definition put_scripts :: "ext \<Rightarrow> bytes \<Rightarrow> Transaction \<Rightarrow> Transaction" where
  "put_scripts X script_sig tx = refresh_id X (tx\<lparr> inputs := map (\<lambda>i. i\<lparr> signature_script := script_sig \<rparr>) (inputs tx) \<rparr>)"

text \<open>The common part of \<open>htlc-claim\<close>, \<open>htlc-refund\<close> and \<open>vesting-claim\<close>: build, sign the hash, assemble\<close>

definition signed_script_spend ::
  "ext \<Rightarrow> wallet_env \<Rightarrow> WalletFile \<Rightarrow> WalletKeypair \<Rightarrow> string \<Rightarrow> string \<Rightarrow> string \<Rightarrow> (bytes \<Rightarrow> bytes \<Rightarrow> bytes option) \<Rightarrow> Transaction attempt" where
  "signed_script_spend X E w k rpc spk_hex dest_addr assemble =
     and_then (Some (build_unsigned_htlc_spend X E rpc spk_hex dest_addr)) (\<lambda>tx.
     and_then (Some (map_err (\<lambda>_. ''sign'') (sign_hash X k (signature_hash X tx)))) (\<lambda>der_sig.
     and_then (Some (ok_or (hex_decode X (wf_public_key_hex w)) ''invalid wallet pubkey hex'')) (\<lambda>pubkey.
       Option.bind (assemble der_sig pubkey) (\<lambda>script_sig. Some (Ok (put_scripts X script_sig tx))))))"

section \<open>Vesting\<close>

text \<open>A line of the schedule: label, unlock height, atoms, locking script in hexadecimal\<close>

type_synonym schedule = "(string \<times> u64 \<times> u64 \<times> string) list"

definition vesting_tranche :: "u64 \<Rightarrow> u64 \<Rightarrow> u64 \<Rightarrow> u64 \<Rightarrow> u64 \<Rightarrow> bytes \<Rightarrow> u64 \<Rightarrow> TxOutput \<times> u64" where
  "vesting_tranche vested_total per tranches start_height interval rcpt_hash i =
     (let amount_atoms = (if i = tranches - 1 then vested_total - per * (tranches - 1) else per);
          unlock_height = start_height + i * interval in
      (\<lparr> value_atoms = amount_atoms, script_pubkey = cltv_p2pkh_script unlock_height rcpt_hash \<rparr>, unlock_height))"

definition vesting_outputs ::
  "ext \<Rightarrow> bytes \<Rightarrow> u64 \<Rightarrow> u64 \<Rightarrow> u64 \<Rightarrow> u64 \<Rightarrow> u64 \<Rightarrow> TxOutput list \<times> schedule" where
  "vesting_outputs X rcpt_spk total_amount start_height tranches interval liquid_bps =
     (let rcpt_hash = take 20 (drop 3 rcpt_spk);
          liquid = sat_mul total_amount liquid_bps div 10000;
          vested_total = total_amount - liquid;
          per = vested_total div tranches;
          ts = map (\<lambda>i. vesting_tranche vested_total per tranches start_height interval rcpt_hash (of_nat i)) [0..<unat tranches] in
      ((if liquid > 0 then [\<lparr> value_atoms = liquid, script_pubkey = rcpt_spk \<rparr>] else []) @ map fst ts,
       (if liquid > 0 then [(''liquid'', 0, liquid, hex_encode X rcpt_spk)] else [])
       @ map (\<lambda>i. (''tranche '' @ show_nat (i + 1), snd (ts ! i), value_atoms (fst (ts ! i)), hex_encode X (script_pubkey (fst (ts ! i)))))
           [0..<unat tranches]))"

definition build_signed_vesting_via_rpc ::
  "ext \<Rightarrow> wallet_env \<Rightarrow> WalletFile \<Rightarrow> WalletKeypair \<Rightarrow> string \<Rightarrow> string \<Rightarrow> u64 \<Rightarrow> u64 \<Rightarrow> u64 \<Rightarrow> u64 \<Rightarrow> u64 \<Rightarrow> u64
     \<Rightarrow> (Transaction \<times> schedule, string) result" where
  "build_signed_vesting_via_rpc X E w k rpc recipient total_amount fee start_height tranches interval liquid_bps =
     (if tranches = 0 then Err ''tranches must be >= 1''
      else if liquid_bps > 10000 then Err ''liquid_bps must be <= 10000''
      else
        res_bind (map_err (\<lambda>_. ''invalid recipient address: '' @ recipient) (p2pkh_from_address X recipient)) (\<lambda>rcpt_spk.
          let needed = sat_add total_amount fee in
          res_bind (get_utxos E rpc (wf_address w)) (\<lambda>us.
          res_bind (pick_mature ''bad txid len'' needed us [] 0) (\<lambda>(selected, selected_atoms).
            if selected_atoms < needed
            then Err (''insufficient mature balance: have '' @ show_nat (unat selected_atoms) @ '', need '' @ show_nat (unat needed))
            else
              let (outs, schedule) = vesting_outputs X rcpt_spk total_amount start_height tranches interval liquid_bps;
                  change = selected_atoms - total_amount - fee in
              res_bind (if change > 0
                  then res_bind (map_err (\<lambda>_. ''bad wallet addr'') (p2pkh_from_address X (wf_address w)))
                         (\<lambda>own. Ok (outs @ [\<lparr> value_atoms = change, script_pubkey = own \<rparr>]))
                  else Ok outs) (\<lambda>outs.
                res_bind (sign_all X k (payment X (map blank_input selected) outs)) (\<lambda>tx. Ok (tx, schedule)))))))"

section \<open>Settlements\<close>

fun settle_error_text :: "SettleError \<Rightarrow> string" where
  "settle_error_text FeeExceedsPrice = ''fee + royalty exceeds price''"
| "settle_error_text (InsufficientBuyer have_atoms need_atoms) =
     ''insufficient buyer funds: have '' @ show_nat (unat have_atoms) @ '', need '' @ show_nat (unat need_atoms)"
| "settle_error_text (InvalidAddr a) = ''invalid address: '' @ a"

text \<open>\<open>hex::decode\<close> to 32 bytes, with one message for bad digits and one for a wrong length\<close>

definition hex32_or :: "ext \<Rightarrow> string \<Rightarrow> string \<Rightarrow> string \<Rightarrow> (bytes, string) result" where
  "hex32_or X h bad_hex bad_len =
     res_bind (ok_or (hex_decode X h) bad_hex) (\<lambda>b. if length b = 32 then Ok b else Err bad_len)"

definition terms_of_order :: "AssetOrder \<Rightarrow> bytes \<Rightarrow> string \<Rightarrow> u16 \<Rightarrow> string \<Rightarrow> SettlementTerms" where
  "terms_of_order order k buyer bps roy =
     \<lparr> st_asset_id = k, st_amount = order_amount order, price_atoms = order_price order, st_royalty_bps = bps,
       st_royalty_addr = roy, seller_addr = order_seller order, buyer_addr = buyer, miner_fee_atoms = MIN_RELAY_FEE_ATOMS \<rparr>"

text \<open>The transaction of an order, built and checked\<close>

definition checked_settlement :: "ext \<Rightarrow> string \<Rightarrow> AssetOrder \<Rightarrow> SettlementTerms \<Rightarrow> (OutPoint \<times> u64) list \<Rightarrow> (Transaction, string) result" where
  "checked_settlement X complaint order terms buyer_inputs =
     res_bind (hex32_or X (seller_txid_hex order) ''bad seller txid hex'' ''seller txid must be 32 bytes'') (\<lambda>t.
     res_bind (map_err settle_error_text (build_settlement_tx X terms
         (\<lparr> op_txid = Hash256 t, output_index = seller_vout order \<rparr>, seller_value order) buyer_inputs)) (\<lambda>tx.
       if verify_settlement X tx terms \<noteq> [] then Err complaint else Ok tx))"

definition build_unsigned_settlement ::
  "ext \<Rightarrow> AssetOrder \<Rightarrow> string \<Rightarrow> (OutPoint \<times> u64) list \<Rightarrow> u16 \<Rightarrow> string \<Rightarrow> (UnsignedSettlement, string) result" where
  "build_unsigned_settlement X order buyer buyer_inputs bps roy =
     res_bind (hex32_or X (asset_id_hex order) ''bad asset_id hex'' ''asset_id must be 32 bytes'') (\<lambda>k.
       let terms = terms_of_order order k buyer bps roy in
       res_bind (checked_settlement X ''built settlement failed verify'' order terms buyer_inputs) (\<lambda>tx.
         Ok \<lparr> settle_tx = tx, settle_terms = terms, seller_indices = [0], buyer_indices = [1..<length (inputs tx)] \<rparr>))"

text \<open>The funding loop of the buyer: plain 64-bit sums\<close>

fun fund_buyer :: "u64 \<Rightarrow> (OutPoint \<times> u64) list \<Rightarrow> (OutPoint \<times> u64) list \<Rightarrow> u64 \<Rightarrow> (OutPoint \<times> u64) list \<times> u64" where
  "fund_buyer needed [] acc sum_atoms = (acc, sum_atoms)"
| "fund_buyer needed ((p, v) # us) acc sum_atoms =
     (let acc = acc @ [(p, v)]; sum_atoms = sum_atoms + v in
      if sum_atoms \<ge> needed then (acc, sum_atoms) else fund_buyer needed us acc sum_atoms)"

definition buyer_funds :: "u64 \<Rightarrow> (OutPoint \<times> u64) list \<Rightarrow> ((OutPoint \<times> u64) list, string) result" where
  "buyer_funds price us =
     (let needed = price + CARRIER_ATOMS + MIN_RELAY_FEE_ATOMS; (acc, sum_atoms) = fund_buyer needed us [] 0 in
      if sum_atoms < needed
      then Err (''insufficient buyer funds: have '' @ show_nat (unat sum_atoms) @ '', need '' @ show_nat (unat needed))
      else Ok acc)"

text \<open>The royalty terms of an asset, asked of the indexer\<close>

definition asset_royalty :: "wallet_env \<Rightarrow> string \<Rightarrow> (u16 \<times> string, string) result" where
  "asset_royalty E h =
     res_bind (map_err (\<lambda>e. ''indexer /asset lookup failed: '' @ e)
         (rpc_get E (or_default (indexer_var E) ''127.0.0.1:23340'') (''/asset/'' @ h)))
       (\<lambda>doc. case doc of AssetInfoDoc bps roy \<Rightarrow> Ok (bps, roy) | _ \<Rightarrow> Err ''parse asset info'')"

text \<open>\<open>for i in 1..tx.inputs.len() { keypair.sign_input(&mut tx, i)? }\<close>\<close>

fun sign_inputs :: "ext \<Rightarrow> WalletKeypair \<Rightarrow> nat list \<Rightarrow> Transaction \<Rightarrow> (Transaction, string) result" where
  "sign_inputs X k [] tx = Ok tx"
| "sign_inputs X k (i # is) tx = res_bind (map_err wallet_error_text (sign_input X k tx i)) (sign_inputs X k is)"

end
