(* ===== verification/Adapter.thy ===== *)
theory Adapter
  imports Wallet_Cli Rust_Float Rust_Store
begin

unbundle bit_operations_syntax

text \<open>
  The JSON-RPC adapter that exchanges run beside a node: \<open>crates/txm-rpc-adapter/src\<close>, with the client
  of the node (\<open>node.rs\<close>), the key store and withdrawals (\<open>wallet.rs\<close>), the deposit scanner
  (\<open>scan.rs\<close>) and the methods (\<open>main.rs\<close>). \<open>ureq\<close>, \<open>serde_json\<close>, the random secret of a new key and
  the outcome of writing a file are the surroundings of a call. A panic is \<open>None\<close>. A hash map is
  visited in the order of its list. The scanner and the requests take the lock in turn; a lock left
  poisoned by a panic is not modelled.
\<close>

record adapter_env =
  node_get :: "string \<Rightarrow> (string, http_failure) result"
  node_post :: "string \<Rightarrow> string \<Rightarrow> (string, http_failure) result"
  parse_json :: "string \<Rightarrow> (json, string) result"
  print_json :: "json \<Rightarrow> string"
  read_utxos :: "json \<Rightarrow> (RpcUtxo list, string) result"
  print_tx :: "Transaction \<Rightarrow> (string, string) result"
  fresh_secret :: bytes
  keys_outcome :: write_outcome
  ledger_outcome :: write_outcome

section \<open>Client of the node\<close>

definition Node_new :: "string \<Rightarrow> string" where
  "Node_new base =
     (let b = rev (dropWhile (\<lambda>c. c = CHR ''/'') (rev (trim base))) in
      if starts_with ''http://'' b \<or> starts_with ''https://'' b then b else ''http://'' @ b)"

definition node_json :: "adapter_env \<Rightarrow> string \<Rightarrow> string \<Rightarrow> (json, string) result" where
  "node_json E base path =
     (case node_get E (base @ path) of
        Ok s \<Rightarrow> map_err (\<lambda>e. ''node json: '' @ e) (parse_json E s)
      | Err (HttpRead e) \<Rightarrow> Err (''node read: '' @ e)
      | Err (HttpStatus c r) \<Rightarrow> Err (''node '' @ show_nat c @ '': '' @ r)
      | Err (HttpTransport e) \<Rightarrow> Err (''node connect: '' @ e))"

definition node_block_count :: "adapter_env \<Rightarrow> string \<Rightarrow> (u64, string) result" where
  "node_block_count E base =
     res_bind (node_json E base ''/getblockcount'') (\<lambda>v. ok_or (Option.bind (json_get v ''height'') as_u64) ''no height'')"

text \<open>\<open>filter_map(as_u64)\<close> and the cast to bytes\<close>

definition num_bytes :: "json list \<Rightarrow> bytes" where
  "num_bytes a = map ucast (List.map_filter as_u64 a)"

definition json_bytes :: "json \<Rightarrow> bytes" where
  "json_bytes v = (case v of JArr a \<Rightarrow> num_bytes a | _ \<Rightarrow> [])"

definition txid_to_hex :: "json \<Rightarrow> string" where
  "txid_to_hex v = (case v of JArr a \<Rightarrow> hex_string (num_bytes a) | JStr s \<Rightarrow> s | _ \<Rightarrow> [])"

definition node_block_at :: "adapter_env \<Rightarrow> string \<Rightarrow> u64 \<Rightarrow> (string \<times> json, string) result" where
  "node_block_at E base h =
     res_bind (node_json E base (''/getblock/'' @ show_nat (unat h))) (\<lambda>v.
       res_bind
         (case json_get v ''hash'' of
            Some (JArr a) \<Rightarrow> Ok (hex_string (num_bytes a))
          | Some (JStr s) \<Rightarrow> Ok s
          | _ \<Rightarrow> Err ''block missing hash'')
         (\<lambda>hash. res_bind (ok_or (json_get v ''block'') ''block missing body'') (\<lambda>block. Ok (hash, block))))"

definition node_utxos :: "adapter_env \<Rightarrow> string \<Rightarrow> string \<Rightarrow> (RpcUtxo list, string) result" where
  "node_utxos E base addr =
     res_bind (node_json E base (''/getutxos/'' @ addr)) (\<lambda>v. map_err (\<lambda>e. ''utxos parse: '' @ e) (read_utxos E v))"

definition send_raw :: "adapter_env \<Rightarrow> string \<Rightarrow> string \<Rightarrow> (string, string) result" where
  "send_raw E base tx_json =
     (case node_post E (base @ ''/sendrawtransaction'') tx_json of
        Ok s \<Rightarrow>
          res_bind (map_err (\<lambda>e. ''sendraw json: '' @ e) (parse_json E s)) (\<lambda>v.
            if Option.bind (json_get v ''accepted'') as_bool = Some True
            then Ok (case json_get v ''txid'' of Some t \<Rightarrow> txid_to_hex t | None \<Rightarrow> [])
            else Err (''node rejected tx: '' @ print_json E v))
      | Err (HttpRead e) \<Rightarrow> Err (''sendraw read: '' @ e)
      | Err (HttpStatus c r) \<Rightarrow> Err (''sendraw '' @ show_nat c @ '': '' @ r)
      | Err (HttpTransport e) \<Rightarrow> Err (''sendraw connect: '' @ e))"

section \<open>Amounts\<close>

definition SAT :: u64 where "SAT = 100000000"

definition checked_atoms :: "nat \<Rightarrow> nat \<Rightarrow> (u64, string) result" where
  "checked_atoms i f = (if i * 10 ^ 8 + f < 2 ^ 64 then Ok (of_nat (i * 10 ^ 8 + f)) else Err ''amount overflow'')"

definition txm_to_atoms :: "string \<Rightarrow> (u64, string) result" where
  "txm_to_atoms s =
     (let t = trim s; (int_part, frac) = (case split_once ''.'' t of Some p \<Rightarrow> p | None \<Rightarrow> (t, [])) in
      if length frac > 8 then Err ''too many decimals (max 8)''
      else
        res_bind (ok_or (parse_uint 64 int_part) ''bad integer part'') (\<lambda>i.
          res_bind (ok_or (parse_uint 64 (frac @ replicate (8 - length frac) CHR ''0'')) ''bad fraction'') (checked_atoms i)))"

definition atoms_to_txm_str :: "u64 \<Rightarrow> string" where
  "atoms_to_txm_str a = show_nat (unat (a div SAT)) @ ''.'' @ pad_zeros 8 (show_nat (unat (a mod SAT)))"

text \<open>\<open>parse::<f64>\<close> on a plain decimal: the nearest double\<close>

definition parse_f64 :: "string \<Rightarrow> rat option" where
  "parse_f64 s =
     (case split_once ''.'' s of
        Some (i, f) \<Rightarrow>
          (case (digits_val 0 i, digits_val 0 f) of
             (Some a, Some b) \<Rightarrow> Some (to_f64 (of_nat a + of_nat b / 10 ^ length f))
           | _ \<Rightarrow> None)
      | None \<Rightarrow> None)"

definition amount_num :: "u64 \<Rightarrow> json" where
  "amount_num atoms = JFloat (case parse_f64 (atoms_to_txm_str atoms) of Some x \<Rightarrow> x | None \<Rightarrow> 0)"

type_synonym rpc_error = "int \<times> string"

definition amount_to_atoms :: "json \<Rightarrow> (u64, rpc_error) result" where
  "amount_to_atoms v =
     res_bind
       (case v of
          JNum n \<Rightarrow> Ok (fixed8 (to_f64 (of_nat (unat n))))
        | JFloat x \<Rightarrow> Ok (fixed8 x)
        | JStr s \<Rightarrow> Ok s
        | _ \<Rightarrow> Err (- 8, ''bad amount''))
       (\<lambda>s. map_err (\<lambda>e. (- 3, e)) (txm_to_atoms s))"

section \<open>Key store\<close>

record Keystore =
  ks_keys :: "(string, string) hashmap"
  ks_change :: "string option"

definition keystore_default :: Keystore where
  "keystore_default = \<lparr> ks_keys = [], ks_change = None \<rparr>"

record HotWallet =
  hot_store :: Keystore
  hot_file :: "Keystore stored"

definition hot_load :: "Keystore stored \<Rightarrow> HotWallet" where
  "hot_load file = \<lparr> hot_store = stored_or keystore_default file, hot_file = file \<rparr>"

text \<open>Failures to save are ignored.\<close>

definition hot_save :: "adapter_env \<Rightarrow> HotWallet \<Rightarrow> HotWallet" where
  "hot_save E w = w\<lparr> hot_file := fst (store (keys_outcome E) (hot_store w) (hot_file w)) \<rparr>"

definition new_address :: "ext \<Rightarrow> adapter_env \<Rightarrow> HotWallet \<Rightarrow> (HotWallet \<times> string) option" where
  "new_address X E w =
     map_option (\<lambda>k.
       let s = (hot_store w)\<lparr> ks_keys := hm_insert (address k) (private_key_hex k) (ks_keys (hot_store w)) \<rparr>;
           s = (if ks_change s = None then s\<lparr> ks_change := Some (address k) \<rparr> else s) in
       (hot_save E (w\<lparr> hot_store := s \<rparr>), address k))
     (from_signing_key X (fresh_secret E))"

definition is_mine :: "HotWallet \<Rightarrow> string \<Rightarrow> bool" where
  "is_mine w addr \<longleftrightarrow> hm_get (ks_keys (hot_store w)) addr \<noteq> None"

definition change_address :: "ext \<Rightarrow> adapter_env \<Rightarrow> HotWallet \<Rightarrow> (HotWallet \<times> string) option" where
  "change_address X E w = (case ks_change (hot_store w) of Some c \<Rightarrow> Some (w, c) | None \<Rightarrow> new_address X E w)"

fun balance_loop :: "(string \<Rightarrow> (RpcUtxo list, string) result) \<Rightarrow> string list \<Rightarrow> u64 \<Rightarrow> (u64, string) result" where
  "balance_loop get [] tot = Ok tot"
| "balance_loop get (a # as) tot =
     res_bind (get a) (\<lambda>us. balance_loop get as (foldl sat_add tot (map ru_value (filter mature us))))"

definition balance_atoms :: "adapter_env \<Rightarrow> string \<Rightarrow> HotWallet \<Rightarrow> (u64, string) result" where
  "balance_atoms E base w = balance_loop (node_utxos E base) (map fst (ks_keys (hot_store w))) 0"

section \<open>Withdrawals\<close>

text \<open>The inner loop; the flag says that \<open>break 'outer\<close> was taken.\<close>

fun pick_owned :: "u64 \<Rightarrow> string \<Rightarrow> RpcUtxo list \<Rightarrow> (OutPoint \<times> string) list \<Rightarrow> u64 \<Rightarrow> ((OutPoint \<times> string) list \<times> u64 \<times> bool, string) result" where
  "pick_owned needed addr [] selected acc = Ok (selected, acc, False)"
| "pick_owned needed addr (u # us) selected acc =
     (if \<not> mature u then pick_owned needed addr us selected acc
      else if length (txid_bytes u) \<noteq> 32 then Err ''bad txid len''
      else
        let selected = selected @ [(utxo_point u, addr)]; acc = sat_add acc (ru_value u) in
        if acc \<ge> needed then Ok (selected, acc, True) else pick_owned needed addr us selected acc)"

fun gather :: "(string \<Rightarrow> (RpcUtxo list, string) result) \<Rightarrow> u64 \<Rightarrow> string list \<Rightarrow> (OutPoint \<times> string) list \<Rightarrow> u64
    \<Rightarrow> ((OutPoint \<times> string) list \<times> u64, string) result" where
  "gather get needed [] selected acc = Ok (selected, acc)"
| "gather get needed (a # as) selected acc =
     res_bind (get a) (\<lambda>us.
       res_bind (pick_owned needed a us selected acc) (\<lambda>(selected, acc, found).
         if found then Ok (selected, acc) else gather get needed as selected acc))"

fun wallet_error_debug :: "WalletError \<Rightarrow> string" where
  "wallet_error_debug InvalidPrivateKey = ''InvalidPrivateKey''"
| "wallet_error_debug AddressEncode = ''AddressEncode''"
| "wallet_error_debug SignatureEncode = ''SignatureEncode''"
| "wallet_error_debug InvalidPublicKey = ''InvalidPublicKey''"
| "wallet_error_debug WalletInvalidSignature = ''InvalidSignature''"
| "wallet_error_debug InputIndexOutOfRange = ''InputIndexOutOfRange''"

text \<open>The unlocking script of one input, with the key of its owner\<close>

definition owner_script :: "ext \<Rightarrow> Keystore \<Rightarrow> Hash256 \<Rightarrow> string \<Rightarrow> bytes attempt" where
  "owner_script X ks hsh owner =
     (case hm_get (ks_keys ks) owner of
        None \<Rightarrow> Some (Err ''missing key for input'')
      | Some pk_hex \<Rightarrow>
          and_then (map_option (map_err (\<lambda>e. ''key: '' @ wallet_error_debug e)) (from_private_key_hex X pk_hex)) (\<lambda>kp.
            Some (res_bind (map_err (\<lambda>e. ''sign: '' @ wallet_error_debug e) (sign_hash X kp hsh)) (\<lambda>der.
              res_bind (ok_or (hex_decode X (public_key_hex kp)) ''bad pubkey hex'') (\<lambda>pubkey. Ok (p2pkh_script_sig der pubkey))))))"

fun owner_scripts :: "ext \<Rightarrow> Keystore \<Rightarrow> Hash256 \<Rightarrow> string list \<Rightarrow> bytes list attempt" where
  "owner_scripts X ks hsh [] = Some (Ok [])"
| "owner_scripts X ks hsh (a # as) =
     and_then (owner_script X ks hsh a) (\<lambda>sc. and_then (owner_scripts X ks hsh as) (\<lambda>scs. Some (Ok (sc # scs))))"

definition stamped :: "ext \<Rightarrow> bytes list \<Rightarrow> Transaction \<Rightarrow> Transaction" where
  "stamped X scs tx = refresh_id X (tx\<lparr> inputs := map2 (\<lambda>i sc. i\<lparr> signature_script := sc \<rparr>) (inputs tx) scs \<rparr>)"

definition send_outputs :: "u64 \<Rightarrow> bytes \<Rightarrow> u64 \<Rightarrow> bytes \<Rightarrow> TxOutput list" where
  "send_outputs amount dest_spk change change_spk =
     \<lparr> value_atoms = amount, script_pubkey = dest_spk \<rparr> # (if change > 0 then [\<lparr> value_atoms = change, script_pubkey = change_spk \<rparr>] else [])"

definition hot_send ::
  "ext \<Rightarrow> adapter_env \<Rightarrow> string \<Rightarrow> HotWallet \<Rightarrow> string \<Rightarrow> u64 \<Rightarrow> u64 \<Rightarrow> (HotWallet \<times> (string, string) result) option" where
  "hot_send X E base w dest amount fee =
     (if unat amount + unat fee \<ge> 2 ^ 64 then Some (w, Err ''amount overflow'')
      else
        let needed = amount + fee in
        case gather (node_utxos E base) needed (map fst (ks_keys (hot_store w))) [] 0 of
          Err e \<Rightarrow> Some (w, Err e)
        | Ok (selected, sm) \<Rightarrow>
            if sm < needed
            then Some (w, Err (''insufficient funds: have '' @ atoms_to_txm_str sm @ '', need '' @ atoms_to_txm_str needed))
            else
              (case p2pkh_from_address X dest of
                 Err _ \<Rightarrow> Some (w, Err (''invalid address: '' @ dest))
               | Ok dest_spk \<Rightarrow>
                   Option.bind (change_address X E w) (\<lambda>(w, change_addr).
                     case p2pkh_from_address X change_addr of
                       Err _ \<Rightarrow> Some (w, Err ''bad change addr'')
                     | Ok change_spk \<Rightarrow>
                         let tx = payment X (map (blank_input \<circ> fst) selected) (send_outputs amount dest_spk (sm - needed) change_spk) in
                         map_option (Pair w)
                           (and_then (owner_scripts X (hot_store w) (signature_hash X tx) (map snd selected)) (\<lambda>scs.
                              let tx = stamped X scs tx in
                              Some (res_bind (map_err (\<lambda>e. ''serialize: '' @ e) (print_tx E tx)) (\<lambda>raw.
                                res_bind (send_raw E base raw) (\<lambda>_. Ok (to_hex X (tx_id tx))))))))))"

section \<open>Deposit scanner\<close>

record LedgerEntry =
  le_txid :: string
  le_address :: string
  category :: string
  amount_atoms :: u64
  vout :: u32
  le_block_height :: u64
  le_block_hash :: string
  le_time :: u64

text \<open>What the ledger file holds, and the ledger in memory with the keys of its entries\<close>

record LedgerDoc =
  last_height :: u64
  deposits :: "LedgerEntry list"
  heights :: "(u64, string) hashmap"

record DepositLedger = LedgerDoc +
  seen :: "string list"

definition ledger_doc_default :: LedgerDoc where
  "ledger_doc_default = \<lparr> last_height = 0, deposits = [], heights = [] \<rparr>"

text \<open>\<open>format!("{}:{}", txid, vout)\<close>\<close>

definition deposit_key :: "string \<Rightarrow> nat \<Rightarrow> string" where
  "deposit_key txid n = txid @ '':'' @ show_nat n"

definition deposits_load :: "LedgerDoc stored \<Rightarrow> DepositLedger" where
  "deposits_load file =
     (let d = stored_or ledger_doc_default file in
      LedgerDoc.extend d (DepositLedger.fields (map (\<lambda>e. deposit_key (le_txid e) (unat (vout e))) (deposits d))))"

definition deposits_save :: "adapter_env \<Rightarrow> DepositLedger \<Rightarrow> LedgerDoc stored \<Rightarrow> LedgerDoc stored" where
  "deposits_save E l file = fst (store (ledger_outcome E) (LedgerDoc.truncate l) file)"

definition json_atoms :: "json \<Rightarrow> string \<Rightarrow> u64" where
  "json_atoms v k = (case Option.bind (json_get v k) as_u64 of Some n \<Rightarrow> n | None \<Rightarrow> 0)"

definition json_items :: "json \<Rightarrow> string \<Rightarrow> json list" where
  "json_items v k = (case Option.bind (json_get v k) as_array of Some xs \<Rightarrow> xs | None \<Rightarrow> [])"

text \<open>One output: recorded when it pays a managed address and its key is new\<close>

definition scan_output ::
  "ext \<Rightarrow> HotWallet \<Rightarrow> u64 \<Rightarrow> string \<Rightarrow> u64 \<Rightarrow> string \<Rightarrow> DepositLedger \<times> u64 \<Rightarrow> nat \<times> json \<Rightarrow> DepositLedger \<times> u64" where
  "scan_output X w h hash time txid = (\<lambda>(l, new) (n, out).
     let spk = (case json_get out ''script_pubkey'' of Some v \<Rightarrow> json_bytes v | None \<Rightarrow> []); amount = json_atoms out ''value_atoms'' in
     case extract_address X spk of
       None \<Rightarrow> (l, new)
     | Some addr \<Rightarrow>
         if is_mine w addr \<and> deposit_key txid n \<notin> set (seen l)
         then (l\<lparr> seen := deposit_key txid n # seen l,
                  deposits := deposits l @ [\<lparr> le_txid = txid, le_address = addr, category = ''receive'', amount_atoms = amount,
                    vout = of_nat n, le_block_height = h, le_block_hash = hash, le_time = time \<rparr>] \<rparr>, new + 1)
         else (l, new))"

definition scan_tx :: "ext \<Rightarrow> HotWallet \<Rightarrow> u64 \<Rightarrow> string \<Rightarrow> u64 \<Rightarrow> DepositLedger \<times> u64 \<Rightarrow> json \<Rightarrow> DepositLedger \<times> u64" where
  "scan_tx X w h hash time acc tx =
     (let txid = (case json_get tx ''id'' of Some v \<Rightarrow> txid_to_hex v | None \<Rightarrow> []) in
      foldl (scan_output X w h hash time txid) acc (enumerate 0 (json_items tx ''outputs'')))"

definition scan_block :: "ext \<Rightarrow> HotWallet \<Rightarrow> u64 \<Rightarrow> string \<Rightarrow> json \<Rightarrow> DepositLedger \<times> u64 \<Rightarrow> DepositLedger \<times> u64" where
  "scan_block X w h hash block acc =
     (let time = (case json_get block ''header'' of Some hdr \<Rightarrow> json_atoms hdr ''timestamp_seconds'' | None \<Rightarrow> 0);
          (l, new) = acc; l = l\<lparr> heights := hm_insert h hash (heights l) \<rparr>;
          (l, new) = foldl (scan_tx X w h hash time) (l, new) (json_items block ''transactions'') in
      (l\<lparr> last_height := h \<rparr>, new))"

fun scan_heights :: "ext \<Rightarrow> adapter_env \<Rightarrow> string \<Rightarrow> HotWallet \<Rightarrow> u64 list \<Rightarrow> DepositLedger \<times> u64 \<Rightarrow> DepositLedger \<times> (u64, string) result" where
  "scan_heights X E base w [] acc = (fst acc, Ok (snd acc))"
| "scan_heights X E base w (h # hs) acc =
     (case node_block_at E base h of
        Err e \<Rightarrow> (fst acc, Err e)
      | Ok (hash, block) \<Rightarrow> scan_heights X E base w hs (scan_block X w h hash block acc))"

text \<open>\<open>start..=tip\<close>\<close>

definition heights_to :: "u64 \<Rightarrow> u64 \<Rightarrow> u64 list" where
  "heights_to a b = map of_nat [unat a..<Suc (unat b)]"

definition scan_start :: "DepositLedger \<Rightarrow> u64" where
  "scan_start l = (if last_height l = 0 \<and> deposits l = [] then max (last_height l) 0 else last_height l + 1)"

definition scan_deposits ::
  "ext \<Rightarrow> adapter_env \<Rightarrow> string \<Rightarrow> HotWallet \<Rightarrow> DepositLedger \<times> LedgerDoc stored \<Rightarrow> (DepositLedger \<times> LedgerDoc stored) \<times> (u64, string) result" where
  "scan_deposits X E base w = (\<lambda>(l, file).
     case node_block_count E base of
       Err e \<Rightarrow> ((l, file), Err e)
     | Ok tip \<Rightarrow>
         (case scan_heights X E base w (heights_to (scan_start l) tip) (l, 0) of
            (l', Err e) \<Rightarrow> ((l', file), Err e)
          | (l', Ok new) \<Rightarrow> ((l', deposits_save E l' file), Ok new)))"

definition confirmations :: "LedgerEntry \<Rightarrow> u64 \<Rightarrow> u64" where
  "confirmations e tip = sat_sub tip (le_block_height e) + 1"

definition height_of_hash :: "DepositLedger \<Rightarrow> string \<Rightarrow> u64 option" where
  "height_of_hash l hash = map_option fst (find (\<lambda>(_, hh). hh = hash) (heights l))"

definition since_block :: "DepositLedger \<Rightarrow> string \<Rightarrow> LedgerEntry list" where
  "since_block l hash =
     (case height_of_hash l hash of Some fh \<Rightarrow> filter (\<lambda>e. le_block_height e > fh) (deposits l) | None \<Rightarrow> deposits l)"

section \<open>Methods\<close>

record Adapter =
  ad_wallet :: HotWallet
  ad_ledger :: DepositLedger
  ad_file :: "LedgerDoc stored"

record Ctx =
  ctx_base :: string
  ctx_fee :: u64

definition entry_json :: "LedgerEntry \<Rightarrow> u64 \<Rightarrow> json" where
  "entry_json e tip =
     JObj [(''txid'', JStr (le_txid e)), (''address'', JStr (le_address e)), (''category'', JStr (category e)),
       (''amount'', amount_num (amount_atoms e)), (''vout'', JNum (ucast (vout e))), (''confirmations'', JNum (confirmations e tip)),
       (''blockhash'', JStr (le_block_hash e)), (''blockheight'', JNum (le_block_height e)), (''time'', JNum (le_time e))]"

type_synonym dispatched = "(Adapter \<times> (json, rpc_error) result) option"

definition or_code :: "int \<Rightarrow> ('a, string) result \<Rightarrow> ('a, rpc_error) result" where
  "or_code c r = map_err (Pair c) r"

text \<open>The tip of the node and its hash\<close>

definition tip_and_hash :: "adapter_env \<Rightarrow> string \<Rightarrow> (u64 \<times> string, rpc_error) result" where
  "tip_and_hash E base =
     res_bind (or_code (- 1) (node_block_count E base)) (\<lambda>tip.
       res_bind (or_code (- 1) (node_block_at E base tip)) (\<lambda>(hash, _). Ok (tip, hash)))"

definition getblock :: "adapter_env \<Rightarrow> string \<Rightarrow> DepositLedger \<Rightarrow> json option \<Rightarrow> (json, rpc_error) result" where
  "getblock E base l given =
     res_bind (ok_or given (- 8, ''hash/height required'')) (\<lambda>v.
       res_bind
         (case as_u64 v of
            Some h \<Rightarrow> Ok h
          | None \<Rightarrow>
              (case as_str v of
                 Some hs \<Rightarrow> ok_or (height_of_hash l hs) (- 5, ''block hash not in scanned range; use getblockhash(height)'')
               | None \<Rightarrow> Err (- 8, ''bad arg'')))
         (\<lambda>h. res_bind (or_code (- 1) (node_block_at E base h)) (\<lambda>(hash, block).
            Ok (JObj [(''hash'', JStr hash), (''height'', JNum h),
              (''tx'', case json_get block ''transactions'' of Some t \<Rightarrow> t | None \<Rightarrow> JNull)]))))"

definition listsinceblock :: "adapter_env \<Rightarrow> string \<Rightarrow> DepositLedger \<Rightarrow> string \<Rightarrow> (json, rpc_error) result" where
  "listsinceblock E base l bh =
     res_bind (tip_and_hash E base) (\<lambda>(tip, tiphash).
       Ok (JObj [(''transactions'', JArr (map (\<lambda>e. entry_json e tip) (since_block l bh))), (''lastblock'', JStr tiphash)]))"

definition listtransactions :: "adapter_env \<Rightarrow> string \<Rightarrow> DepositLedger \<Rightarrow> u64 \<Rightarrow> u64 \<Rightarrow> (json, rpc_error) result" where
  "listtransactions E base l cnt skip =
     res_bind (or_code (- 1) (node_block_count E base)) (\<lambda>tip.
       Ok (JArr (map (\<lambda>e. entry_json e tip) (take (unat cnt) (drop (unat skip) (rev (deposits l)))))))"

definition gettransaction :: "adapter_env \<Rightarrow> string \<Rightarrow> DepositLedger \<Rightarrow> string \<Rightarrow> (json, rpc_error) result" where
  "gettransaction E base l txid =
     res_bind (or_code (- 1) (node_block_count E base)) (\<lambda>tip.
       case filter (\<lambda>e. le_txid e = txid) (deposits l) of
         [] \<Rightarrow> Err (- 5, ''transaction not found in wallet ledger'')
       | m # ms \<Rightarrow>
           Ok (JObj [(''txid'', JStr txid), (''amount'', amount_num (sum_list (map amount_atoms (m # ms)))),
             (''confirmations'', JNum (confirmations m tip)), (''details'', JArr (map (\<lambda>e. entry_json e tip) (m # ms)))]))"

definition sendtoaddress :: "ext \<Rightarrow> adapter_env \<Rightarrow> Ctx \<Rightarrow> json option \<Rightarrow> json option \<Rightarrow> Adapter \<Rightarrow> dispatched" where
  "sendtoaddress X E ctx p0 p1 S =
     (case res_bind (ok_or (Option.bind p0 as_str) (- 8, ''address required'')) (\<lambda>dest.
             res_bind (ok_or p1 (- 8, ''amount required'')) (\<lambda>v. res_bind (amount_to_atoms v) (\<lambda>amt. Ok (dest, amt)))) of
        Err e \<Rightarrow> Some (S, Err e)
      | Ok (dest, amt) \<Rightarrow>
          map_option (\<lambda>(w, r). (S\<lparr> ad_wallet := w \<rparr>, or_code (- 4) (res_bind r (\<lambda>txid. Ok (JStr txid)))))
            (hot_send X E (ctx_base ctx) (ad_wallet S) dest amt (ctx_fee ctx)))"

definition help_text :: string where
  "help_text = ''Tensorium RPC adapter: getblockcount getblockhash getblock getbestblockhash getblockchaininfo getnetworkinfo getwalletinfo getnewaddress validateaddress getbalance sendtoaddress listsinceblock listtransactions gettransaction estimatesmartfee settxfee''"

text \<open>The methods that only read; \<open>None\<close> for a name that is none of them\<close>

definition query :: "ext \<Rightarrow> adapter_env \<Rightarrow> Ctx \<Rightarrow> string \<Rightarrow> json \<Rightarrow> Adapter \<Rightarrow> (json, rpc_error) result option" where
  "query X E ctx meth params S =
     (let p = json_nth params; base = ctx_base ctx; w = ad_wallet S; l = ad_ledger S in
      if meth = ''getblockcount'' then Some (res_bind (or_code (- 1) (node_block_count E base)) (\<lambda>n. Ok (JNum n)))
      else if meth = ''getbestblockhash'' then Some (res_bind (tip_and_hash E base) (\<lambda>(_, hash). Ok (JStr hash)))
      else if meth = ''getblockhash'' then
        Some (res_bind (ok_or (Option.bind (p 0) as_u64) (- 8, ''height required'')) (\<lambda>h.
          res_bind (or_code (- 1) (node_block_at E base h)) (\<lambda>(hash, _). Ok (JStr hash))))
      else if meth = ''getblock'' then Some (getblock E base l (p 0))
      else if meth = ''getblockchaininfo'' then
        Some (res_bind (tip_and_hash E base) (\<lambda>(tip, hash).
          Ok (JObj [(''chain'', JStr ''main''), (''blocks'', JNum tip), (''headers'', JNum tip), (''bestblockhash'', JStr hash),
            (''verificationprogress'', JFloat 1)])))
      else if meth = ''getnetworkinfo'' then
        Some (Ok (JObj [(''version'', JNum 10000), (''subversion'', JStr ''/tensorium-rpc-adapter:0.1.0/''), (''connections'', JNum 1),
          (''networkactive'', JBool True)]))
      else if meth = ''getwalletinfo'' then
        Some (res_bind (or_code (- 1) (balance_atoms E base w)) (\<lambda>bal.
          Ok (JObj [(''walletversion'', JNum 1), (''balance'', amount_num bal), (''txcount'', JNum (of_nat (length (deposits l))))])))
      else if meth = ''validateaddress'' then
        Some (res_bind (ok_or (Option.bind (p 0) as_str) (- 8, ''address required'')) (\<lambda>a.
          Ok (JObj [(''isvalid'', JBool (\<not> isl (p2pkh_from_address X a))), (''address'', JStr a), (''ismine'', JBool (is_mine w a))])))
      else if meth = ''getbalance'' then Some (res_bind (or_code (- 1) (balance_atoms E base w)) (\<lambda>bal. Ok (amount_num bal)))
      else if meth = ''settxfee'' then Some (Ok (JBool True))
      else if meth \<in> {''estimatesmartfee'', ''estimatefee''} then Some (Ok (JObj [(''feerate'', amount_num (ctx_fee ctx))]))
      else if meth = ''listsinceblock'' then
        Some (listsinceblock E base l (case Option.bind (p 0) as_str of Some b \<Rightarrow> b | None \<Rightarrow> []))
      else if meth = ''listtransactions'' then
        Some (listtransactions E base l (case Option.bind (p 1) as_u64 of Some n \<Rightarrow> n | None \<Rightarrow> 10)
          (case Option.bind (p 2) as_u64 of Some n \<Rightarrow> n | None \<Rightarrow> 0))
      else if meth = ''gettransaction'' then
        Some (res_bind (ok_or (Option.bind (p 0) as_str) (- 8, ''txid required'')) (gettransaction E base l))
      else if meth = ''help'' then Some (Ok (JStr help_text))
      else if meth = ''uptime'' then Some (Ok (JNum 0))
      else None)"

definition dispatch_rpc :: "ext \<Rightarrow> adapter_env \<Rightarrow> Ctx \<Rightarrow> string \<Rightarrow> json \<Rightarrow> Adapter \<Rightarrow> dispatched" where
  "dispatch_rpc X E ctx meth params S =
     (case query X E ctx meth params S of
        Some r \<Rightarrow> Some (S, r)
      | None \<Rightarrow>
          if meth = ''getnewaddress''
          then map_option (\<lambda>(w, a). (S\<lparr> ad_wallet := w \<rparr>, Ok (JStr a))) (new_address X E (ad_wallet S))
          else if meth = ''sendtoaddress'' then sendtoaddress X E ctx (json_nth params 0) (json_nth params 1) S
          else Some (S, Err (- 32601, ''method not found: '' @ meth)))"

section \<open>The service\<close>

definition b64_alphabet :: string where
  "b64_alphabet = ''ABCDEFGHIJKLMNOPQRSTUVWXYZabcdefghijklmnopqrstuvwxyz0123456789+/''"

definition b64_char :: "u8 \<Rightarrow> char" where
  "b64_char i = b64_alphabet ! unat i"

definition b64_chunk :: "u8 \<Rightarrow> u8 \<Rightarrow> u8 \<Rightarrow> nat \<Rightarrow> string" where
  "b64_chunk a b c n =
     [b64_char (drop_bit 2 a), b64_char (push_bit 4 (a AND 3) OR drop_bit 4 b),
      if n > 1 then b64_char (push_bit 2 (b AND 15) OR drop_bit 6 c) else CHR ''='',
      if n > 2 then b64_char (c AND 63) else CHR ''='']"

fun b64 :: "bytes \<Rightarrow> string" where
  "b64 [] = []"
| "b64 [a] = b64_chunk a 0 0 1"
| "b64 [a, b] = b64_chunk a b 0 2"
| "b64 (a # b # c # rest) = b64_chunk a b c 3 @ b64 rest"

definition expected_auth :: "string \<Rightarrow> string \<Rightarrow> string option" where
  "expected_auth user pass = (if user = [] then None else Some (''Basic '' @ b64 (str_bytes (user @ '':'' @ pass))))"

definition authorised :: "string option \<Rightarrow> (string \<times> string) list \<Rightarrow> bool" where
  "authorised expected headers =
     (case expected of
        None \<Rightarrow> True
      | Some e \<Rightarrow> list_ex (\<lambda>(field, v). eq_ignore_ascii_case field ''Authorization'' \<and> v = e) headers)"

text \<open>A reply carries its result or its error, and the identifier of the request.\<close>

datatype adapter_reply = Unauthorized | Answer json json | Failure int string json

definition handle_rpc ::
  "ext \<Rightarrow> adapter_env \<Rightarrow> Ctx \<Rightarrow> string option \<Rightarrow> (string \<times> string) list \<Rightarrow> string \<Rightarrow> Adapter \<Rightarrow> (Adapter \<times> adapter_reply) option" where
  "handle_rpc X E ctx expected headers body S =
     (if \<not> authorised expected headers then Some (S, Unauthorized)
      else
        let v = (case parse_json E body of Ok v \<Rightarrow> v | Err _ \<Rightarrow> JObj []);
            ident = (case json_get v ''id'' of Some i \<Rightarrow> i | None \<Rightarrow> JNull);
            meth = (case Option.bind (json_get v ''method'') as_str of Some m \<Rightarrow> m | None \<Rightarrow> []);
            params = (case json_get v ''params'' of Some p \<Rightarrow> p | None \<Rightarrow> JArr []) in
        map_option (\<lambda>(S', r).
          (S', case r of Ok res \<Rightarrow> Answer res ident | Err (code, msg) \<Rightarrow> Failure code msg ident))
          (dispatch_rpc X E ctx meth params S))"

text \<open>One turn of the scanner thread; an error is printed and the next turn tries again.\<close>

definition scan_tick :: "ext \<Rightarrow> adapter_env \<Rightarrow> Ctx \<Rightarrow> Adapter \<Rightarrow> Adapter" where
  "scan_tick X E ctx S =
     (let ((l, file), _) = scan_deposits X E (ctx_base ctx) (ad_wallet S) (ad_ledger S, ad_file S) in S\<lparr> ad_ledger := l, ad_file := file \<rparr>)"

definition adapter_start :: "Keystore stored \<Rightarrow> LedgerDoc stored \<Rightarrow> Adapter" where
  "adapter_start keys file = \<lparr> ad_wallet = hot_load keys, ad_ledger = deposits_load file, ad_file = file \<rparr>"

definition start_ctx :: "string option \<Rightarrow> string option \<Rightarrow> Ctx" where
  "start_ctx node_rpc fee_var =
     \<lparr> ctx_base = Node_new (case node_rpc of Some s \<Rightarrow> s | None \<Rightarrow> ''http://127.0.0.1:33332''),
       ctx_fee = (case Option.bind fee_var (parse_uint 64) of Some n \<Rightarrow> of_nat n | None \<Rightarrow> 10000) \<rparr>"

end
