(* ===== verification/Adapter_Amounts.thy ===== *)
theory Adapter_Amounts
  imports Adapter Utxo_Listing
begin

text \<open>
  Amounts and credentials on the adapter's wire: eight-decimal strings and doubles name every amount
  of the coin's supply exactly, and the header that a request must carry determines the credentials.
\<close>

section \<open>Decimal strings\<close>

lemma split_once_append: "c \<notin> set xs \<Longrightarrow> split_once [c] (xs @ c # ys) = Some (xs, ys)"
  by (induction xs) auto

lemma digits_val_zeros: "digits_val 0 (replicate k CHR ''0'' @ s) = digits_val 0 s"
  by (induction k) (simp_all add: digit_val_def)

lemma length_show_nat: "n < 10 ^ Suc k \<Longrightarrow> length (show_nat n) \<le> Suc k"
proof (induction k arbitrary: n)
  case 0
  then show ?case by (subst show_nat.simps) simp
next
  case (Suc k)
  then have "n div 10 < 10 ^ Suc k" by simp
  from Suc.IH [OF this] show ?case by (subst show_nat.simps) simp
qed

lemma pad_zeros_show:
  assumes "n < 10 ^ 8"
  shows "length (pad_zeros 8 (show_nat n)) = 8" "digits_val 0 (pad_zeros 8 (show_nat n)) = Some n"
    "\<forall>c \<in> set (pad_zeros 8 (show_nat n)). digit_val c \<noteq> None"
proof -
  have "length (show_nat n) \<le> 8" using length_show_nat [of n 7] assms by simp
  then show "length (pad_zeros 8 (show_nat n)) = 8" by (simp add: pad_zeros_def)
  show "digits_val 0 (pad_zeros 8 (show_nat n)) = Some n" by (simp add: pad_zeros_def digits_val_zeros digits_val_show)
  show "\<forall>c \<in> set (pad_zeros 8 (show_nat n)). digit_val c \<noteq> None" using show_nat_digits [of n] by (auto simp: pad_zeros_def digit_val_def)
qed

lemma parse_digits:
  assumes "digits_val 0 s = Some v" and "s \<noteq> []" and "\<forall>c \<in> set s. digit_val c \<noteq> None" and "v < 2 ^ n"
  shows "parse_uint n s = Some v"
proof -
  obtain c cs where "s = c # cs" using assms(2) by (cases s) auto
  moreover have "c \<noteq> CHR ''+''" using assms(3) calculation by (auto simp: digit_val_def)
  ultimately show ?thesis using assms(1,4) by (simp add: parse_uint_def)
qed

lemma digit_visible: "digit_val c \<noteq> None \<Longrightarrow> visible c \<and> c \<noteq> CHR ''.''"
  by (auto simp: digit_val_def visible_def Let_def split: if_splits)

text \<open>The string of \<open>n\<close> units of \<open>10^-8\<close>\<close>

definition decimal8 :: "nat \<Rightarrow> string" where
  "decimal8 n = show_nat (n div 10 ^ 8) @ ''.'' @ pad_zeros 8 (show_nat (n mod 10 ^ 8))"

lemma atoms_string: "atoms_to_txm_str a = decimal8 (unat a)"
  by (simp add: atoms_to_txm_str_def decimal8_def SAT_def unat_div unat_mod)

lemma decimal8_parts:
  "split_once ''.'' (decimal8 n) = Some (show_nat (n div 10 ^ 8), pad_zeros 8 (show_nat (n mod 10 ^ 8)))" "trim (decimal8 n) = decimal8 n"
proof -
  have m: "n mod 10 ^ 8 < 10 ^ 8" by simp
  note l = pad_zeros_show(1) [OF m] and f = pad_zeros_show(3) [OF m]
  have "CHR ''.'' \<notin> set (show_nat (n div 10 ^ 8))" using show_nat_digits digit_visible by blast
  from split_once_append [OF this] show "split_once ''.'' (decimal8 n) = Some (show_nat (n div 10 ^ 8), pad_zeros 8 (show_nat (n mod 10 ^ 8)))"
    by (simp add: decimal8_def)
  have "last (decimal8 n) = last (pad_zeros 8 (show_nat (n mod 10 ^ 8)))" using l by (auto simp: decimal8_def)
  moreover have "hd (decimal8 n) = hd (show_nat (n div 10 ^ 8))" using show_nat_nonempty by (simp add: decimal8_def)
  moreover have "digit_val (hd (show_nat (n div 10 ^ 8))) \<noteq> None" by (rule show_nat_digits [rule_format]) (rule hd_in_set [OF show_nat_nonempty])
  moreover have "digit_val (last (pad_zeros 8 (show_nat (n mod 10 ^ 8)))) \<noteq> None"
    using f l by (metis last_in_set length_0_conv zero_neq_numeral)
  ultimately show "trim (decimal8 n) = decimal8 n" using digit_visible by (intro trim_visible) (simp_all add: decimal8_def)
qed

lemma txm_to_atoms_decimal8:
  assumes "n < 2 ^ 64"
  shows "txm_to_atoms (decimal8 n) = Ok (of_nat n)"
proof -
  have f: "n mod 10 ^ 8 < 10 ^ 8" by simp
  note p = pad_zeros_show [OF f]
  have "pad_zeros 8 (show_nat (n mod 10 ^ 8)) \<noteq> []" using p(1) by (metis length_0_conv zero_neq_numeral)
  moreover have "n mod 10 ^ 8 < 2 ^ 64" by (rule less_trans [OF f]) simp
  ultimately have q: "parse_uint 64 (pad_zeros 8 (show_nat (n mod 10 ^ 8))) = Some (n mod 10 ^ 8)" using p by (intro parse_digits)
  have i: "parse_uint 64 (show_nat (n div 10 ^ 8)) = Some (n div 10 ^ 8)" by (rule parse_show) (rule le_less_trans [OF div_le_dividend assms])
  have "n div 10 ^ 8 * 10 ^ 8 + n mod 10 ^ 8 = n" by simp
  with assms have "checked_atoms (n div 10 ^ 8) (n mod 10 ^ 8) = Ok (of_nat n)" unfolding checked_atoms_def by presburger
  then show ?thesis unfolding txm_to_atoms_def decimal8_parts Let_def option.case prod.case p(1) i ok_or_simps res_bind_simps
    by (simp add: q [simplified])
qed

section \<open>Doubles\<close>

lemma amount_num_value: "amount_num a = JFloat (to_f64 (of_nat (unat a) / 10 ^ 8))"
proof -
  let ?n = "unat a"
  have f: "?n mod 10 ^ 8 < 10 ^ 8" by simp
  note p = pad_zeros_show [OF f]
  have "parse_f64 (decimal8 ?n) = Some (to_f64 (of_nat (?n div 10 ^ 8) + of_nat (?n mod 10 ^ 8) / 10 ^ 8))"
    unfolding parse_f64_def decimal8_parts by (simp only: p digits_val_show option.case prod.case)
  also have "of_nat (?n div 10 ^ 8) + of_nat (?n mod 10 ^ 8) / 10 ^ 8 = (of_nat ?n / 10 ^ 8 :: rat)"
  proof -
    have "of_nat ?n = (of_nat (?n div 10 ^ 8 * 10 ^ 8 + ?n mod 10 ^ 8) :: rat)" by simp
    then have "of_nat ?n = (of_nat (?n div 10 ^ 8) * 10 ^ 8 + of_nat (?n mod 10 ^ 8) :: rat)" by (simp only: of_nat_add of_nat_mult of_nat_power of_nat_numeral)
    then show ?thesis by (simp add: field_simps)
  qed
  finally show ?thesis by (simp add: amount_num_def atoms_string)
qed

lemma fixed8_near:
  assumes "0 \<le> x" and "\<bar>x * 10 ^ 8 - of_nat n\<bar> < 1 / 2"
  shows "fixed8 x = decimal8 n"
proof -
  have "round_even (x * 10 ^ 8) = int n" using assms(2) by (intro round_even_near) simp
  then show ?thesis using assms(1) by (simp add: fixed8_def decimal8_def Let_def)
qed

lemma to_f64_nonneg: "0 \<le> q \<Longrightarrow> 0 \<le> to_f64 q"
proof (cases "q = 0")
  case True
  then show ?thesis by (simp add: to_f64_def)
next
  case False
  assume "0 \<le> q"
  with False have q: "0 < q" by simp
  have "q / 2 ^ 53 \<le> q" using q by (simp add: field_simps)
  with to_f64_error [OF q] show ?thesis by linarith
qed

lemma double_names_amount:
  assumes "n < 2 ^ 52"
  shows "fixed8 (to_f64 (of_nat n / 10 ^ 8)) = decimal8 n"
proof (cases "n = 0")
  case True
  then show ?thesis by (intro fixed8_near) (simp_all add: to_f64_def)
next
  case False
  let ?q = "of_nat n / 10 ^ 8 :: rat"
  have q: "0 < ?q" using False by simp
  have "\<bar>to_f64 ?q - ?q\<bar> * 10 ^ 8 \<le> ?q / 2 ^ 53 * 10 ^ 8" using to_f64_error [OF q] by (intro mult_right_mono) simp_all
  also have "\<dots> = of_nat n / 2 ^ 53" by simp
  also have "\<dots> < 1 / 2"
  proof -
    have "(of_nat n :: rat) < of_nat (2 ^ 52)" using assms by (simp only: of_nat_less_iff)
    then show ?thesis by simp
  qed
  finally have "\<bar>to_f64 ?q - ?q\<bar> * 10 ^ 8 < 1 / 2" .
  moreover have "to_f64 ?q * 10 ^ 8 - of_nat n = (to_f64 ?q - ?q) * 10 ^ 8" by (simp add: left_diff_distrib)
  then have "\<bar>to_f64 ?q * 10 ^ 8 - of_nat n\<bar> = \<bar>to_f64 ?q - ?q\<bar> * 10 ^ 8" by (simp only: abs_mult) simp
  ultimately have "\<bar>to_f64 ?q * 10 ^ 8 - of_nat n\<bar> < 1 / 2" by simp
  then show ?thesis using to_f64_nonneg [of ?q] by (intro fixed8_near) simp_all
qed

text \<open>
  Amounts survive the wire: the string that the adapter prints for any number of atoms is read
  back as that number, and for every amount up to twice the coin's supply so is the double that it
  puts into its replies, although most amounts are not doubles: printed with eight decimals, the
  nearest double is the amount again.
\<close>

theorem amount_roundtrip:
  "amount_to_atoms (JStr (atoms_to_txm_str a)) = Ok a \<and> (unat a < 2 ^ 52 \<longrightarrow> amount_to_atoms (amount_num a) = Ok a)"
proof -
  have read: "txm_to_atoms (decimal8 (unat a)) = Ok a" using txm_to_atoms_decimal8 [OF unat_u64_lt [of a]] by simp
  have "amount_to_atoms (amount_num a) = Ok a" if "unat a < 2 ^ 52"
    unfolding amount_num_value amount_to_atoms_def json.case res_bind_simps double_names_amount [OF that] read by (simp add: map_err_def)
  then show ?thesis by (simp add: amount_to_atoms_def atoms_string read map_err_def)
qed

theorem amount_roundtrip_witness:
  "amount_to_atoms (amount_num (total_supply_atoms MAINNET)) = Ok (total_supply_atoms MAINNET)"
proof -
  have "unat (total_supply_atoms MAINNET) < 2 ^ 52" by (simp add: mainnet_defs)
  with amount_roundtrip [of "total_supply_atoms MAINNET"] show ?thesis by blast
qed

section \<open>Credentials\<close>

text \<open>The decoder that the standard prescribes, as a reference: the value of a character, and the three bytes of four values.\<close>

definition b64_value :: "char \<Rightarrow> u8" where
  "b64_value c = (case find (\<lambda>i. b64_alphabet ! i = c) [0..<64] of Some i \<Rightarrow> of_nat i | None \<Rightarrow> 0)"

definition unb64_chunk :: "char \<Rightarrow> char \<Rightarrow> char \<Rightarrow> char \<Rightarrow> bytes" where
  "unb64_chunk p q r s =
     take (if r = CHR ''='' then 1 else if s = CHR ''='' then 2 else 3)
       [push_bit 2 (b64_value p) OR drop_bit 4 (b64_value q), push_bit 4 (b64_value q) OR drop_bit 2 (b64_value r),
        push_bit 6 (b64_value r) OR b64_value s]"

fun unb64 :: "string \<Rightarrow> bytes" where
  "unb64 (p # q # r # s # rest) = unb64_chunk p q r s @ unb64 rest"
| "unb64 _ = []"

lemma b64_alphabet_values: "\<forall>i \<in> set [0..<64]. b64_value (b64_alphabet ! i) = of_nat i \<and> b64_alphabet ! i \<noteq> CHR ''=''"
  by code_simp

lemma b64_char_value:
  assumes "i < 64"
  shows "b64_value (b64_char i) = i" "b64_char i \<noteq> CHR ''=''"
proof -
  have "unat i \<in> set [0..<64]" using assms by (simp add: word_less_nat_alt)
  with b64_alphabet_values have "b64_value (b64_alphabet ! unat i) = of_nat (unat i) \<and> b64_alphabet ! unat i \<noteq> CHR ''=''" by blast
  then show "b64_value (b64_char i) = i" "b64_char i \<noteq> CHR ''=''" by (simp_all add: b64_char_def)
qed

lemma and_masks: "a AND 3 = take_bit 2 (a :: u8)" "a AND 15 = take_bit 4 a" "a AND 63 = take_bit 6 a"
  by (simp_all add: take_bit_eq_mask mask_eq_exp_minus_1)

lemma sextet_less:
  fixes a b :: u8
  shows "drop_bit 2 a < 64" "push_bit 4 (take_bit 2 a) OR drop_bit 4 b < 64" "push_bit 2 (take_bit 4 a) OR drop_bit 6 b < 64"
    "take_bit 6 a < 64"
proof -
  have no: "\<not> bit x m" if "8 \<le> m" for x :: u8 and m using bit_imp_le_length [of x m] that by auto
  have small: "x < 64" if "\<not> bit x 6" "\<not> bit x 7" for x :: u8
  proof -
    have "take_bit 6 x = x"
    proof (rule bit_eqI)
      fix m
      show "bit (take_bit 6 x) m \<longleftrightarrow> bit x m" using that no [of m x] by (cases "m = 6 \<or> m = 7 \<or> 8 \<le> m") (auto simp: bit_take_bit_iff)
    qed
    moreover have "unat (take_bit 6 x) < 2 ^ 6" unfolding unsigned_take_bit_eq by (rule take_bit_nat_less_exp)
    ultimately show ?thesis by (simp add: word_less_nat_alt)
  qed
  show "drop_bit 2 a < 64" "push_bit 4 (take_bit 2 a) OR drop_bit 4 b < 64" "push_bit 2 (take_bit 4 a) OR drop_bit 6 b < 64"
    "take_bit 6 a < 64" by (rule small; simp add: bit_simps no)+
qed

lemma sextets_join:
  fixes a b c :: u8
  shows "push_bit 2 (drop_bit 2 a) OR drop_bit 4 (push_bit 4 (take_bit 2 a) OR drop_bit 4 b) = a"
    "push_bit 4 (push_bit 4 (take_bit 2 a) OR drop_bit 4 b) OR drop_bit 2 (push_bit 2 (take_bit 4 b) OR drop_bit 6 c) = b"
    "push_bit 6 (push_bit 2 (take_bit 4 b) OR drop_bit 6 c) OR take_bit 6 c = c"
proof -
  have two: "2 \<le> n \<Longrightarrow> Suc (Suc (n - 2)) = n" for n by simp
  show "push_bit 2 (drop_bit 2 a) OR drop_bit 4 (push_bit 4 (take_bit 2 a) OR drop_bit 4 b) = a"
    "push_bit 4 (push_bit 4 (take_bit 2 a) OR drop_bit 4 b) OR drop_bit 2 (push_bit 2 (take_bit 4 b) OR drop_bit 6 c) = b"
    "push_bit 6 (push_bit 2 (take_bit 4 b) OR drop_bit 6 c) OR take_bit 6 c = c"
    by (auto intro!: bit_eqI simp: bit_simps two dest: bit_imp_le_length)
qed

lemma b64_chunks:
  "b64_chunk a b c 3 = [b64_char (drop_bit 2 a), b64_char (push_bit 4 (take_bit 2 a) OR drop_bit 4 b),
     b64_char (push_bit 2 (take_bit 4 b) OR drop_bit 6 c), b64_char (take_bit 6 c)]"
  "b64_chunk a b c 2 = [b64_char (drop_bit 2 a), b64_char (push_bit 4 (take_bit 2 a) OR drop_bit 4 b),
     b64_char (push_bit 2 (take_bit 4 b) OR drop_bit 6 c), CHR ''='']"
  "b64_chunk a b c 1 = [b64_char (drop_bit 2 a), b64_char (push_bit 4 (take_bit 2 a) OR drop_bit 4 b), CHR ''='', CHR ''='']"
  unfolding b64_chunk_def and_masks by simp_all

lemmas sextet_values = sextet_less [THEN b64_char_value(1)] sextet_less [THEN b64_char_value(2)]

lemma b64_chunk_back:
  "unb64 (b64_chunk a b c 3 @ rest) = a # b # c # unb64 rest"
  "unb64 (b64_chunk a b 0 2) = [a, b]" "unb64 (b64_chunk a 0 0 1) = [a]"
  unfolding b64_chunks append.simps unb64.simps unb64_chunk_def
  by (simp_all only: sextet_values sextets_join if_False if_True refl) simp_all

lemma unb64_b64: "unb64 (b64 bs) = bs"
  by (induction bs rule: b64.induct) (simp_all only: b64.simps b64_chunk_back, simp_all)

text \<open>
  The credentials guard every method: when a user name is configured, a request whose headers do
  not carry exactly the encoding of the user name, a colon and the password is answered
  \<open>Unauthorized\<close> and changes nothing; and the encoding determines what was encoded, so no other
  text passes for it.
\<close>

theorem unauthorised_rejected:
  assumes "user \<noteq> []"
    and "\<And>field v bs. (field, v) \<in> set headers \<Longrightarrow> eq_ignore_ascii_case field ''Authorization'' \<Longrightarrow> v = ''Basic '' @ b64 bs
      \<Longrightarrow> bs \<noteq> str_bytes (user @ '':'' @ pass)"
  shows "handle_rpc X E ctx (expected_auth user pass) headers body S = Some (S, Unauthorized) \<and> (\<forall>bs bs'. b64 bs = b64 bs' \<longrightarrow> bs = bs')"
proof -
  have "\<not> authorised (expected_auth user pass) headers"
    using assms by (auto simp: authorised_def expected_auth_def list_ex_iff)
  then show ?thesis by (simp add: handle_rpc_def) (metis unb64_b64)
qed

theorem unauthorised_rejected_witness:
  "\<forall>X E ctx body S. handle_rpc X E ctx (expected_auth ''u'' ''p'') [(''authorization'', ''Basic x'')] body S = Some (S, Unauthorized)"
proof -
  have "length (b64 bs) \<noteq> 1" for bs by (induction bs rule: b64.induct) (simp_all add: b64_chunk_def)
  then have "b64 bs \<noteq> ''x''" for bs by (metis One_nat_def length_Cons list.size(3))
  then show ?thesis using unauthorised_rejected [of "''u''" "[(''authorization'', ''Basic x'')]" "''p''"] by simp
qed

end
