(* ===== verification/Adapter_Deposits.thy ===== *)
theory Adapter_Deposits
  imports Adapter_Amounts Block_Json
begin

text \<open>
  The deposit scanner against the node: what it records from the chain that the node serves, and what
  it does when that chain was reorganised.
\<close>

section \<open>Blocks on the wire\<close>

lemma num_bytes_back [simp]: "num_bytes (map (JNum \<circ> ucast) bs) = bs"
proof -
  have "(ucast (ucast b :: u64) :: u8) = b" for b by (simp add: unsigned_ucast_eq take_bit_word_eq_self)
  then show ?thesis by (induction bs) (simp_all add: num_bytes_def)
qed

lemma enumerate_of_map: "enumerate n (map f xs) = map (apsnd f) (enumerate n xs)"
  by (induction xs arbitrary: n) simp_all

lemma wire_fields [simp]:
  "json_get (output_json out) ''script_pubkey'' = Some (byte_json (script_pubkey out))"
  "json_atoms (output_json out) ''value_atoms'' = value_atoms out"
  "json_get (tx_json tx) ''id'' = Some (hash_json (tx_id tx))" "json_items (tx_json tx) ''outputs'' = map output_json (outputs tx)"
  "json_get (block_json b) ''header'' = Some (header_json (header b))" "json_items (block_json b) ''transactions'' = map tx_json (transactions b)"
  "json_atoms (header_json hdr) ''timestamp_seconds'' = timestamp_seconds hdr"
  by (simp_all add: output_json_def json_atoms_def tx_json_def json_items_def block_json_def header_json_def)

lemma wire_values [simp]: "json_bytes (byte_json bs) = bs" "txid_to_hex (hash_json h) = hex_string (hash_bytes h)"
  by (simp_all add: json_bytes_def byte_json_def txid_to_hex_def hash_json_def)

section \<open>What a block pays to a wallet\<close>

definition entry_key :: "LedgerEntry \<Rightarrow> string" where
  "entry_key e = deposit_key (le_txid e) (unat (vout e))"

definition output_deposit :: "ext \<Rightarrow> HotWallet \<Rightarrow> Block \<Rightarrow> Transaction \<Rightarrow> nat \<times> TxOutput \<Rightarrow> LedgerEntry list" where
  "output_deposit X w b tx = (\<lambda>(n, out).
     case extract_address X (script_pubkey out) of
       Some addr \<Rightarrow>
         if is_mine w addr
         then [\<lparr> le_txid = hex_string (hash_bytes (tx_id tx)), le_address = addr, category = ''receive'', amount_atoms = value_atoms out,
           vout = of_nat n, le_block_height = height (header b), le_block_hash = hex_string (hash_bytes (block_hash X b)),
           le_time = timestamp_seconds (header b) \<rparr>]
         else []
     | None \<Rightarrow> [])"

definition block_deposits :: "ext \<Rightarrow> HotWallet \<Rightarrow> Block \<Rightarrow> LedgerEntry list" where
  "block_deposits X w b = concat (map (\<lambda>tx. concat (map (output_deposit X w b tx) (enumerate 0 (outputs tx)))) (transactions b))"

definition few_outputs :: "Block \<Rightarrow> bool" where
  "few_outputs b \<longleftrightarrow> (\<forall>tx \<in> set (transactions b). length (outputs tx) \<le> 2 ^ 32)"

text \<open>The ledger remembers the keys of exactly its entries, each once.\<close>

definition deposits_ok :: "'a DepositLedger_scheme \<Rightarrow> bool" where
  "deposits_ok l \<longleftrightarrow> distinct (map entry_key (deposits l)) \<and> set (seen l) = entry_key ` set (deposits l)"

text \<open>From one ledger and count to another over candidate entries: all of them are there afterwards, nothing else is added.\<close>

definition grown :: "DepositLedger \<times> u64 \<Rightarrow> LedgerEntry list \<Rightarrow> DepositLedger \<times> u64 \<Rightarrow> bool" where
  "grown acc cands acc' \<longleftrightarrow>
     (\<exists>fresh. deposits (fst acc') = deposits (fst acc) @ fresh \<and> snd acc' = snd acc + of_nat (length fresh)
       \<and> set fresh \<subseteq> set cands \<and> entry_key ` set cands \<subseteq> entry_key ` set (deposits (fst acc')) \<and> deposits_ok (fst acc'))"

lemma grown_refl: "deposits_ok (fst acc) \<Longrightarrow> grown acc [] acc"
  by (simp add: grown_def)

lemma grown_trans:
  assumes "grown acc c acc'" and "grown acc' c' acc''"
  shows "grown acc (c @ c') acc''"
proof -
  from assms(1) obtain f where f: "deposits (fst acc') = deposits (fst acc) @ f" "snd acc' = snd acc + of_nat (length f)" "set f \<subseteq> set c"
    "entry_key ` set c \<subseteq> entry_key ` set (deposits (fst acc'))" unfolding grown_def by blast
  from assms(2) obtain g where g: "deposits (fst acc'') = deposits (fst acc') @ g" "snd acc'' = snd acc' + of_nat (length g)" "set g \<subseteq> set c'"
    "entry_key ` set c' \<subseteq> entry_key ` set (deposits (fst acc''))" "deposits_ok (fst acc'')" unfolding grown_def by blast
  show ?thesis unfolding grown_def
  proof (intro exI [of _ "f @ g"] conjI)
    show "entry_key ` set (c @ c') \<subseteq> entry_key ` set (deposits (fst acc''))" using f(4) g(1,4) by auto
  qed (use f g in \<open>auto simp: algebra_simps\<close>)
qed

lemma grown_ok: "grown acc c acc' \<Longrightarrow> deposits_ok (fst acc')"
  by (auto simp: grown_def)

lemma grown_moved:
  "grown (l\<lparr> heights := m \<rparr>, k) c acc = grown (l, k) c acc"
  "grown acc c (l\<lparr> last_height := h \<rparr>, k) = grown acc c (l, k)"
  by (simp_all add: grown_def deposits_ok_def)

section \<open>Scanning\<close>

lemma scan_output_grown:
  assumes "deposits_ok (fst acc)" and "n < 2 ^ 32"
  shows "grown acc (output_deposit X w b tx (n, out))
    (scan_output X w (height (header b)) (hex_string (hash_bytes (block_hash X b))) (timestamp_seconds (header b)) (hex_string (hash_bytes (tx_id tx)))
      acc (n, output_json out))"
proof (cases "extract_address X (script_pubkey out)")
  case None
  then show ?thesis using assms(1) by (simp add: output_deposit_def scan_output_def split_beta grown_refl)
next
  case (Some addr)
  have n: "unat (of_nat n :: u32) = n" using assms(2) by (simp add: unat_of_nat)
  obtain l k where acc: "acc = (l, k)" by fastforce
  show ?thesis
  proof (cases "is_mine w addr")
    case False
    then show ?thesis using assms(1) Some by (simp add: output_deposit_def scan_output_def split_beta grown_refl)
  next
    case mine: True
    let ?e = "\<lparr> le_txid = hex_string (hash_bytes (tx_id tx)), le_address = addr, category = ''receive'', amount_atoms = value_atoms out,
      vout = of_nat n, le_block_height = height (header b), le_block_hash = hex_string (hash_bytes (block_hash X b)),
      le_time = timestamp_seconds (header b) \<rparr>"
    have key: "entry_key ?e = deposit_key (hex_string (hash_bytes (tx_id tx))) n" by (simp add: entry_key_def n)
    have cand: "output_deposit X w b tx (n, out) = [?e]" using mine Some by (simp add: output_deposit_def)
    show ?thesis
    proof (cases "entry_key ?e \<in> set (seen l)")
      case True
      then show ?thesis using assms(1) Some unfolding cand acc by (auto simp: scan_output_def key grown_def deposits_ok_def)
    next
      case False
      then show ?thesis using assms(1) Some mine unfolding cand acc
        by (auto simp: scan_output_def key [symmetric] grown_def deposits_ok_def)
    qed
  qed
qed

lemma foldl_grown:
  assumes "\<And>acc x. x \<in> set xs \<Longrightarrow> deposits_ok (fst acc) \<Longrightarrow> grown acc (c x) (f acc x)" and "deposits_ok (fst acc)"
  shows "grown acc (concat (map c xs)) (foldl f acc xs)"
  using assms
proof (induction xs arbitrary: acc)
  case Nil
  then show ?case by (simp add: grown_refl)
next
  case (Cons x xs)
  have "grown acc (c x) (f acc x)" using Cons.prems by simp
  moreover have "grown (f acc x) (concat (map c xs)) (foldl f (f acc x) xs)" using Cons.IH Cons.prems(1) grown_ok [OF calculation] by simp
  ultimately show ?case using grown_trans by simp
qed

lemma scan_block_grown:
  assumes "deposits_ok (fst acc)" and few: "few_outputs b"
  shows "grown acc (block_deposits X w b) (scan_block X w (height (header b)) (hex_string (hash_bytes (block_hash X b))) (block_json b) acc)"
    and "last_height (fst (scan_block X w h hash (block_json b) acc)) = h"
proof -
  let ?h = "height (header b)" and ?hash = "hex_string (hash_bytes (block_hash X b))" and ?t = "timestamp_seconds (header b)"
  have tx: "grown acc (concat (map (output_deposit X w b tx) (enumerate 0 (outputs tx)))) (scan_tx X w ?h ?hash ?t acc (tx_json tx))"
    if "tx \<in> set (transactions b)" "deposits_ok (fst acc)" for acc tx
  proof -
    have "(n, out) \<in> set (enumerate 0 (outputs tx)) \<Longrightarrow> n < 2 ^ 32" for n out
      using few that(1) by (auto simp: few_outputs_def in_set_enumerate_eq)
    then have "grown acc (concat (map (output_deposit X w b tx) (enumerate 0 (outputs tx))))
      (foldl (\<lambda>acc no. scan_output X w ?h ?hash ?t (hex_string (hash_bytes (tx_id tx))) acc (apsnd output_json no)) acc (enumerate 0 (outputs tx)))"
      using that(2) by (intro foldl_grown) (auto intro!: scan_output_grown)
    then show ?thesis by (simp add: scan_tx_def enumerate_of_map foldl_map)
  qed
  obtain l k where acc: "acc = (l, k)" by fastforce
  let ?l = "l\<lparr> heights := hm_insert ?h ?hash (heights l) \<rparr>"
  have "grown (?l, k) (block_deposits X w b) (foldl (\<lambda>acc tx. scan_tx X w ?h ?hash ?t acc (tx_json tx)) (?l, k) (transactions b))"
    unfolding block_deposits_def by (rule foldl_grown) (use tx assms(1) in \<open>simp_all add: acc deposits_ok_def\<close>)
  then show "grown acc (block_deposits X w b) (scan_block X w ?h ?hash (block_json b) acc)"
    by (simp add: scan_block_def acc foldl_map split_beta grown_moved Let_def)
  show "last_height (fst (scan_block X w h hash (block_json b) acc)) = h" by (simp add: scan_block_def split_beta Let_def)
qed

section \<open>The node's answers\<close>

text \<open>The values of the node's answers that the scanner reads\<close>

definition body_json :: "rpc_body \<Rightarrow> json" where
  "body_json body =
     (case body of
        CountBody ci h k \<Rightarrow> JObj [(''chain_id'', JStr ci), (''height'', case h of Some n \<Rightarrow> JNum n | None \<Rightarrow> JNull), (''blocks'', JNum (of_nat k))]
      | BlockBody h b \<Rightarrow> JObj [(''hash'', hash_json h), (''block'', block_json b)]
      | _ \<Rightarrow> JNull)"

text \<open>The client gets the node's answers.\<close>

definition hears :: "ext \<Rightarrow> ConsensusParams \<Rightarrow> adapter_env \<Rightarrow> string \<Rightarrow> rpc_env \<Rightarrow> Node \<Rightarrow> bool" where
  "hears X p E base env n \<longleftrightarrow>
     (\<forall>n' body. rpc_getblockcount p env n = Some (n', [(200, body)], Ok ()) \<longrightarrow> node_json E base ''/getblockcount'' = Ok (body_json body))
     \<and> (\<forall>h n' body. rpc_getblock X env (''/getblock/'' @ show_nat (unat (h :: u64))) n = Some (n', [(200, body)], Ok ()) \<longrightarrow>
          node_json E base (''/getblock/'' @ show_nat (unat h)) = Ok (body_json body))"

lemma trim_height: "trim_start_matches ''/getblock/'' (''/getblock/'' @ show_nat k) = show_nat k"
proof -
  have "\<not> starts_with ''/getblock/'' (show_nat k)"
    using show_nat_digits [of k] by (auto simp: starts_with_iff digit_val_def)
  then show ?thesis by (simp add: trim_start_matches.simps)
qed

lemma node_served:
  assumes X: "digest_len X" and n: "node_inv X p n" and lk: "rpc_lock env = None" and he: "hears X p E base env n"
  shows "\<exists>tip. node_block_count E base = Ok tip \<and> length (canonical_blocks_iter (node_chain n)) = Suc (unat tip)"
    and "unat h < length (canonical_blocks_iter (node_chain n)) \<Longrightarrow> b = canonical_blocks_iter (node_chain n) ! unat h \<Longrightarrow>
      node_block_at E base h = Ok (hex_string (hash_bytes (block_hash X b)), block_json b) \<and> height (header b) = h"
proof -
  from n obtain chain where inv: "state_inv X p (node_chain n) chain" using reachable_inv [OF X] by (auto simp: node_inv_def)
  let ?s = "(node_chain n)\<lparr> last_disconnected := [] \<rparr>"
  have iter: "canonical_blocks_iter (node_chain n) = chain" by (rule canonical_blocks_iter_chain [OF X inv])
  have inv': "state_inv X p ?s chain" using inv by simp
  from inv have path: "chain_path X (cf_blocks (node_chain n)) (tip_hash X (node_chain n)) chain"
    and hc: "height_cache (node_chain n) = Some (height (header (last chain)))" by (simp_all add: state_inv_def)
  have cnt: "rpc_getblockcount p env n = Some (n, [(200, CountBody (params_chain_id p) (Some (height (header (last chain)))) (chain_block_count ?s))], Ok ())"
    by (simp add: rpc_getblockcount_def load_state_def lk reopen_inv [OF X inv] reply_def hc)
  from he cnt have "node_json E base ''/getblockcount'' = Ok (body_json (CountBody (params_chain_id p) (Some (height (header (last chain)))) (chain_block_count ?s)))"
    unfolding hears_def by blast
  then have "node_block_count E base = Ok (height (header (last chain)))" by (simp add: node_block_count_def body_json_def)
  moreover have "length chain = Suc (unat (height (header (last chain))))" using chain_path_last [OF path] by (cases chain) auto
  ultimately show "\<exists>tip. node_block_count E base = Ok tip \<and> length (canonical_blocks_iter (node_chain n)) = Suc (unat tip)" by (auto simp: iter)
  assume h: "unat h < length (canonical_blocks_iter (node_chain n))" and b: "b = canonical_blocks_iter (node_chain n) ! unat h"
  have "get_block_by_height ?s h = Some b" using get_block_by_height_chain [OF X inv', of h] h b by (simp add: iter)
  then have "rpc_getblock X env (''/getblock/'' @ show_nat (unat h)) n = Some (n, [(200, BlockBody (block_hash X b) b)], Ok ())"
    unfolding rpc_getblock_def trim_height parse_show [OF unat_u64_lt]
    by (simp add: rpc_state_def load_state_def lk reopen_inv [OF X inv] reply_def)
  then have "node_json E base (''/getblock/'' @ show_nat (unat h)) = Ok (body_json (BlockBody (block_hash X b) b))"
    using he unfolding hears_def by blast
  moreover have "unat (height (header b)) = unat h"
    using chain_path_heights [OF path] h b iter by (metis (no_types, lifting) add_0 comp_apply length_map nth_map nth_upt)
  then have "height (header b) = h" by (simp only: word_unat_eq_iff)
  ultimately show "node_block_at E base h = Ok (hex_string (hash_bytes (block_hash X b)), block_json b) \<and> height (header b) = h"
    by (simp add: node_block_at_def body_json_def hash_json_def byte_json_def)
qed

section \<open>Scans of a served chain\<close>

lemma scan_heights_grown:
  assumes served: "\<And>h. h \<in> set hs \<Longrightarrow> node_block_at E base h = Ok (hex_string (hash_bytes (block_hash X (blk h))), block_json (blk h))
      \<and> height (header (blk h)) = h \<and> few_outputs (blk h)"
    and "deposits_ok (fst acc)"
  shows "\<exists>l k. scan_heights X E base w hs acc = (l, Ok k) \<and> grown acc (concat (map (\<lambda>h. block_deposits X w (blk h)) hs)) (l, k)
    \<and> last_height l = (if hs = [] then last_height (fst acc) else last hs)"
  using assms
proof (induction hs arbitrary: acc)
  case Nil
  then show ?case using grown_refl [of acc] by (cases acc) simp
next
  case (Cons h hs)
  have h: "node_block_at E base h = Ok (hex_string (hash_bytes (block_hash X (blk h))), block_json (blk h))"
    "height (header (blk h)) = h" "few_outputs (blk h)" using Cons.prems(1) by auto
  let ?acc = "scan_block X w h (hex_string (hash_bytes (block_hash X (blk h)))) (block_json (blk h)) acc"
  have g: "grown acc (block_deposits X w (blk h)) ?acc" using scan_block_grown(1) [OF Cons.prems(2) h(3), of X w] by (simp add: h(2))
  have lh: "last_height (fst ?acc) = h" by (rule scan_block_grown(2) [OF Cons.prems(2) h(3)])
  have "\<exists>l k. scan_heights X E base w hs ?acc = (l, Ok k) \<and> grown ?acc (concat (map (\<lambda>h. block_deposits X w (blk h)) hs)) (l, k)
    \<and> last_height l = (if hs = [] then last_height (fst ?acc) else last hs)"
    by (rule Cons.IH) (use Cons.prems(1) grown_ok [OF g] in simp_all)
  then obtain l k where "scan_heights X E base w hs ?acc = (l, Ok k)" "grown ?acc (concat (map (\<lambda>h. block_deposits X w (blk h)) hs)) (l, k)"
    "last_height l = (if hs = [] then h else last hs)" unfolding lh by blast
  then show ?case using h(1) grown_trans [OF g] by simp
qed

lemma heights_to_set: "h \<in> set (heights_to a b) \<longleftrightarrow> a \<le> h \<and> h \<le> b"
proof -
  have "\<exists>k \<in> set [unat a..<Suc (unat b)]. h = of_nat k" if "a \<le> h" "h \<le> b"
    using that by (intro bexI [of _ "unat h"]) (auto simp: word_le_nat_alt)
  moreover have "a \<le> of_nat k \<and> of_nat k \<le> b" if "k \<in> set [unat a..<Suc (unat b)]" for k
    using that unat_u64_lt [of b] by (auto simp: word_le_nat_alt unat_of_nat)
  ultimately show ?thesis by (auto simp: heights_to_def)
qed

lemma scan_grown:
  assumes X: "digest_len X" and n: "node_inv X p n" and lk: "rpc_lock env = None" and he: "hears X p E base env n"
    and few: "\<forall>b \<in> set (canonical_blocks_iter (node_chain n)). few_outputs b" and l: "deposits_ok l"
  obtains l' k tip where "scan_deposits X E base w (l, fl) = ((l', deposits_save E l' fl), Ok k)"
    and "node_block_count E base = Ok tip" and "length (canonical_blocks_iter (node_chain n)) = Suc (unat tip)"
    and "grown (l, 0) (concat (map (\<lambda>h. block_deposits X w (canonical_blocks_iter (node_chain n) ! unat h)) (heights_to (scan_start l) tip))) (l', k)"
    and "last_height l' = (if scan_start l \<le> tip then tip else last_height l)"
proof -
  let ?at = "\<lambda>h. canonical_blocks_iter (node_chain n) ! unat h"
  from node_served(1) [OF X n lk he] obtain tip where tip: "node_block_count E base = Ok tip"
    and len: "length (canonical_blocks_iter (node_chain n)) = Suc (unat tip)" by blast
  let ?hs = "heights_to (scan_start l) tip"
  have "node_block_at E base h = Ok (hex_string (hash_bytes (block_hash X (?at h))), block_json (?at h))
      \<and> height (header (?at h)) = h \<and> few_outputs (?at h)" if "h \<in> set ?hs" for h
  proof -
    have "unat h < length (canonical_blocks_iter (node_chain n))" using that len by (simp add: heights_to_set word_le_nat_alt)
    then show ?thesis using node_served(2) [OF X n lk he _ refl] few by simp
  qed
  note served = this
  have "\<exists>l' k. scan_heights X E base w ?hs (l, 0) = (l', Ok k) \<and> grown (l, 0) (concat (map (\<lambda>h. block_deposits X w (?at h)) ?hs)) (l', k)
    \<and> last_height l' = (if ?hs = [] then last_height (fst (l, 0)) else last ?hs)" 
    using scan_heights_grown [where blk = ?at and hs = ?hs and acc = "(l, 0)"] l served by fastforce
  then obtain l' k where
    run: "scan_heights X E base w ?hs (l, 0) = (l', Ok k)" and g: "grown (l, 0) (concat (map (\<lambda>h. block_deposits X w (?at h)) ?hs)) (l', k)"
    and lh: "last_height l' = (if ?hs = [] then last_height l else last ?hs)" unfolding fst_conv by blast
  have "last_height l' = (if scan_start l \<le> tip then tip else last_height l)"
    unfolding lh by (auto simp: heights_to_def word_le_nat_alt)
  moreover have "scan_deposits X E base w (l, fl) = ((l', deposits_save E l' fl), Ok k)" by (simp add: scan_deposits_def tip run)
  ultimately show ?thesis using that tip len g by simp
qed

lemma scanned_blocks:
  assumes "length chain = Suc (unat tip)" and "\<And>i. i < length chain \<Longrightarrow> unat (height (header (chain ! i))) = i"
  shows "set (map (\<lambda>h. chain ! unat h) (heights_to a tip)) = {b \<in> set chain. a \<le> height (header b)}"
proof (intro set_eqI iffI)
  fix b assume "b \<in> set (map (\<lambda>h. chain ! unat h) (heights_to a tip))"
  then obtain h where h: "a \<le> h" "h \<le> tip" "b = chain ! unat h" by (auto simp: heights_to_set)
  then have "unat h < length chain" using assms(1) by (simp add: word_le_nat_alt)
  with h assms(2) show "b \<in> {b \<in> set chain. a \<le> height (header b)}" by (auto simp: word_le_nat_alt)
next
  fix b assume b: "b \<in> {b \<in> set chain. a \<le> height (header b)}"
  then obtain i where i: "i < length chain" "b = chain ! i" by (auto simp: in_set_conv_nth)
  with assms have "height (header b) \<le> tip" "unat (height (header b)) = i" by (simp_all add: word_le_nat_alt)
  with b i show "b \<in> set (map (\<lambda>h. chain ! unat h) (heights_to a tip))"
    by (auto simp: heights_to_set intro!: image_eqI [of _ _ "height (header b)"])
qed

text \<open>A scan, in terms of the chain: new entries come from blocks at or above the start, and all their deposits are in the ledger.\<close>

lemma scan_served:
  assumes X: "digest_len X" and n: "node_inv X p n" and "rpc_lock env = None" and "hears X p E base env n"
    and "\<forall>b \<in> set (canonical_blocks_iter (node_chain n)). few_outputs b" and "deposits_ok l"
  obtains l' k tip fresh where "scan_deposits X E base w (l, fl) = ((l', deposits_save E l' fl), Ok k)"
    and "node_block_count E base = Ok tip" and "length (canonical_blocks_iter (node_chain n)) = Suc (unat tip)"
    and "deposits l' = deposits l @ fresh" and "k = of_nat (length fresh)" and "deposits_ok l'"
    and "last_height l' = (if scan_start l \<le> tip then tip else last_height l)"
    and "\<forall>e \<in> set fresh. \<exists>b \<in> set (canonical_blocks_iter (node_chain n)). scan_start l \<le> height (header b) \<and> e \<in> set (block_deposits X w b)"
    and "\<forall>b \<in> set (canonical_blocks_iter (node_chain n)). scan_start l \<le> height (header b) \<longrightarrow>
      entry_key ` set (block_deposits X w b) \<subseteq> entry_key ` set (deposits l')"
proof -
  let ?chain = "canonical_blocks_iter (node_chain n)"
  from scan_grown [OF assms, where w = w and fl = fl] obtain l' k tip where run: "scan_deposits X E base w (l, fl) = ((l', deposits_save E l' fl), Ok k)"
    and tip: "node_block_count E base = Ok tip" and len: "length ?chain = Suc (unat tip)"
    and g: "grown (l, 0) (concat (map (\<lambda>h. block_deposits X w (?chain ! unat h)) (heights_to (scan_start l) tip))) (l', k)"
    and lh: "last_height l' = (if scan_start l \<le> tip then tip else last_height l)" .
  have heights: "unat (height (header (?chain ! i))) = i" if "i < length ?chain" for i
  proof -
    have "unat (of_nat i :: u64) = i" using that len unat_u64_lt [of tip] by (simp add: unat_of_nat)
    with node_served(2) [OF assms(1-4), of "of_nat i" "?chain ! i"] that show ?thesis by simp
  qed
  have "set (concat (map (\<lambda>h. block_deposits X w (?chain ! unat h)) (heights_to (scan_start l) tip)))
      = \<Union> ((set \<circ> block_deposits X w) ` set (map (\<lambda>h. ?chain ! unat h) (heights_to (scan_start l) tip)))" by auto
  also have "\<dots> = \<Union> ((set \<circ> block_deposits X w) ` {b \<in> set ?chain. scan_start l \<le> height (header b)})"
    by (simp only: scanned_blocks [OF len heights])
  finally have cands: "set (concat (map (\<lambda>h. block_deposits X w (?chain ! unat h)) (heights_to (scan_start l) tip)))
      = \<Union> ((set \<circ> block_deposits X w) ` {b \<in> set ?chain. scan_start l \<le> height (header b)})" .
  from g obtain fresh where f: "deposits l' = deposits l @ fresh" "k = of_nat (length fresh)" "deposits_ok l'"
    "set fresh \<subseteq> \<Union> ((set \<circ> block_deposits X w) ` {b \<in> set ?chain. scan_start l \<le> height (header b)})"
    "entry_key ` (\<Union> ((set \<circ> block_deposits X w) ` {b \<in> set ?chain. scan_start l \<le> height (header b)})) \<subseteq> entry_key ` set (deposits l')"
    unfolding grown_def cands by auto
  show ?thesis
  proof (rule that [OF run tip len f(1-3) lh])
    show "\<forall>e \<in> set fresh. \<exists>b \<in> set ?chain. scan_start l \<le> height (header b) \<and> e \<in> set (block_deposits X w b)" using f(4) by fastforce
    show "\<forall>b \<in> set ?chain. scan_start l \<le> height (header b) \<longrightarrow> entry_key ` set (block_deposits X w b) \<subseteq> entry_key ` set (deposits l')"
      using f(5) by fastforce
  qed
qed

text \<open>A client whose node answers from the handlers of \<open>peek_node\<close>, for the witnesses\<close>

definition echo_env :: adapter_env where
  "echo_env =
     \<lparr> node_get = Ok, node_post = (\<lambda>_ _. Err (HttpRead [])),
       parse_json = (\<lambda>s. case (if s = ''/getblockcount'' then rpc_getblockcount MAINNET admin_env peek_node else rpc_getblock peek_ext admin_env s peek_node) of
         Some (_, [(_, body)], _) \<Rightarrow> Ok (body_json body) | _ \<Rightarrow> Err []),
       print_json = (\<lambda>_. []), read_utxos = (\<lambda>_. Ok []), print_tx = (\<lambda>_. Ok []), fresh_secret = [], keys_outcome = Written, ledger_outcome = Written \<rparr>"

lemma echo_hears: "hears peek_ext MAINNET echo_env [] admin_env peek_node"
  by (auto simp: hears_def node_json_def echo_env_def)

lemma peek_few: "\<forall>b \<in> set (canonical_blocks_iter (node_chain peek_node)). few_outputs b"
  unfolding peek_iter
  by (simp add: few_outputs_def peek_genesis_def sealed_def candidate_block_for_def Let_def genesis_coinbase_def coinbase_def mainnet_defs)

definition orphan_entry :: LedgerEntry where
  "orphan_entry = \<lparr> le_txid = ''t'', le_address = ''a'', category = ''receive'', amount_atoms = 5, vout = 0, le_block_height = 3,
     le_block_hash = ''x'', le_time = 0 \<rparr>"

definition orphan_ledger :: DepositLedger where
  "orphan_ledger = deposits_load (Holding \<lparr> last_height = 3, deposits = [orphan_entry], heights = [(3, ''x'')] \<rparr>)"

lemma load_ok: "distinct (map entry_key (deposits d)) \<Longrightarrow> deposits_ok (deposits_load (Holding d))"
  by (simp add: deposits_ok_def deposits_load_def stored_or_def LedgerDoc.defs DepositLedger.defs entry_key_def)



lemma deposit_height: "e \<in> set (block_deposits X w b) \<Longrightarrow> le_block_height e = height (header b)
    \<and> le_block_hash e = hex_string (hash_bytes (block_hash X b))"
  by (auto simp: block_deposits_def output_deposit_def split: option.splits if_splits)



end
