(* ===== verification/Wallet_Commands.thy ===== *)
theory Wallet_Commands
  imports Wallet_Cli
begin

text \<open>
  The commands of the wallet program: the arms of \<open>run\<close> in \<open>crates/txmwallet/src/main.rs\<close>, in its
  order, and the dispatch. \<open>args\<close> are the arguments of the process, the name of the program first.
  Paths are names of files in a directory that exists; \<open>with_extension\<close> is modelled on paths whose last
  component is a plain name.
\<close>

section \<open>Arguments\<close>

definition need_arg :: "nat \<Rightarrow> string list \<Rightarrow> string \<Rightarrow> string attempt" where
  "need_arg i args msg = Some (ok_or (arg i args) msg)"

definition need_uint :: "nat \<Rightarrow> nat \<Rightarrow> string list \<Rightarrow> string \<Rightarrow> string \<Rightarrow> nat attempt" where
  "need_uint bits i args missing bad =
     and_then (need_arg i args missing) (\<lambda>s. Some (ok_or (parse_uint bits s) bad))"

text \<open>\<open>args.get(5..).map(|s| s.join(" ")).unwrap_or_default()\<close>\<close>

fun join_words :: "string list \<Rightarrow> string" where
  "join_words [] = []"
| "join_words [w] = w"
| "join_words (w # v # ws) = w @ '' '' @ join_words (v # ws)"

definition words_from :: "nat \<Rightarrow> string list \<Rightarrow> string" where
  "words_from i args = join_words (drop i args)"

definition rpc_of_env :: "wallet_env \<Rightarrow> string" where
  "rpc_of_env E = or_default (rpc_var E) DEFAULT_RPC"

definition tx_line :: "ext \<Rightarrow> string \<Rightarrow> Transaction \<Rightarrow> string" where
  "tx_line X label tx = label @ to_hex X (tx_id tx)"

section \<open>Keys and passphrases\<close>

definition print_wallet_summary :: "WalletFile \<Rightarrow> string list" where
  "print_wallet_summary w =
     [''address='' @ wf_address w, ''public_key='' @ wf_public_key_hex w, ''wallet_version='' @ show_nat (unat (wf_version w)), ''encrypted=true'']"

text \<open>\<open>WalletKeypair::generate\<close> makes the key pair of a random secret.\<close>

definition cmd_create :: "ext \<Rightarrow> crypto \<Rightarrow> wallet_env \<Rightarrow> disk \<Rightarrow> cli_result option" where
  "cmd_create X C E d =
     (let path = wallet_path_from_env E in
      if hm_get d path \<noteq> None then stop d (''wallet already exists: '' @ path)
      else
        proceed d (Some (passphrase_from_env E)) (\<lambda>pw.
        Option.bind (from_signing_key X (fresh_key E)) (\<lambda>keypair.
        proceed d (wallet_encrypt X C (fresh_salt E) (fresh_nonce E) keypair pw) (\<lambda>w.
          write_and_say E d path (WalletDoc w) (print_wallet_summary w)))))"

definition backup_path :: "wallet_env \<Rightarrow> string" where
  "backup_path E = wallet_path_from_env E @ ''.bak-'' @ show_nat (unat (clock_secs E))"

text \<open>\<open>fs::copy\<close> writes what it read from the wallet file.\<close>

definition cmd_rekey :: "ext \<Rightarrow> crypto \<Rightarrow> wallet_env \<Rightarrow> disk \<Rightarrow> cli_result option" where
  "cmd_rekey X C E d =
     (let path = wallet_path_from_env E in
      proceed d (Some (passphrase_from_env E)) (\<lambda>old_pass.
      proceed d (Some (ok_or (new_passphrase_var E) ''set TENSORIUM_WALLET_NEW_PASSPHRASE to the new passphrase'')) (\<lambda>new_pass.
        if length new_pass < 8 then stop d ''new passphrase must be at least 8 characters''
        else if new_pass = old_pass then stop d ''new passphrase is the same as the current one''
        else
          proceed d (Some (load_wallet d path)) (\<lambda>w.
          proceed d (wallet_decrypt X C w old_pass) (\<lambda>keypair.
            case fs_write E (backup_path E) (WalletDoc w) d of
              (d1, False) \<Rightarrow> stop d1 ''backup failed''
            | (d1, True) \<Rightarrow>
                proceed d1 (wallet_encrypt X C (fresh_salt E) (fresh_nonce E) keypair new_pass) (\<lambda>new_wallet.
                  write_and_say E d1 path (WalletDoc new_wallet)
                    [''rekey ok'', ''address='' @ address keypair, ''backup='' @ backup_path E]))))))"

definition cmd_getnewaddress :: "wallet_env \<Rightarrow> disk \<Rightarrow> cli_result option" where
  "cmd_getnewaddress E d = proceed d (Some (load_wallet d (wallet_path_from_env E))) (\<lambda>w. say d [wf_address w])"

definition cmd_show :: "wallet_env \<Rightarrow> disk \<Rightarrow> cli_result option" where
  "cmd_show E d = proceed d (Some (load_wallet d (wallet_path_from_env E))) (\<lambda>w. say d (print_wallet_summary w))"

definition cmd_balance :: "ext \<Rightarrow> wallet_env \<Rightarrow> disk \<Rightarrow> cli_result option" where
  "cmd_balance X E d =
     proceed d (Some (load_wallet d (wallet_path_from_env E))) (\<lambda>w.
     proceed d (Some (local_state E)) (\<lambda>s.
     proceed d (print_balance X w s) (say d)))"

definition cmd_unlock_check :: "ext \<Rightarrow> crypto \<Rightarrow> wallet_env \<Rightarrow> disk \<Rightarrow> cli_result option" where
  "cmd_unlock_check X C E d =
     proceed d (Some (load_wallet d (wallet_path_from_env E))) (\<lambda>w.
     proceed d (Some (passphrase_from_env E)) (\<lambda>pw.
     proceed d (wallet_decrypt X C w pw) (\<lambda>keypair. say d [''address='' @ address keypair, ''unlocked=true''])))"

section \<open>Sending\<close>

definition position :: "string \<Rightarrow> string list \<Rightarrow> nat option" where
  "position s args = (if s \<in> set args then Some (length (takeWhile (\<lambda>a. a \<noteq> s) args)) else None)"

definition send_fee :: "string list \<Rightarrow> (u64, string) result" where
  "send_fee args =
     (if ''--priority'' \<in> set args then Ok PRIORITY_FEE_ATOMS
      else case position ''--fee'' args of
        Some pos \<Rightarrow>
          res_bind (ok_or (arg (pos + 1) args) ''--fee requires a value in atoms'') (\<lambda>v.
          res_bind (ok_or (parse_uint 64 v) ''--fee value must be a positive integer (atoms)'') (\<lambda>n. Ok (of_nat n)))
      | None \<Rightarrow> Ok MIN_RELAY_FEE_ATOMS)"

text \<open>The node first, the local database if that fails\<close>

definition payment_or_fallback ::
  "ext \<Rightarrow> wallet_env \<Rightarrow> WalletFile \<Rightarrow> WalletKeypair \<Rightarrow> string \<Rightarrow> u64 \<Rightarrow> u64 \<Rightarrow> Transaction attempt" where
  "payment_or_fallback X E w k to_address amount_atoms fee =
     (case build_signed_payment_via_rpc X E w k (rpc_of_env E) to_address amount_atoms fee of
        Ok tx \<Rightarrow> Some (Ok tx)
      | Err rpc_err \<Rightarrow>
          (case local_state E of
             Err e \<Rightarrow> Some (Err (''RPC path failed: '' @ rpc_err @ ''; state load failed: '' @ e))
           | Ok s \<Rightarrow> map_option (map_err (\<lambda>e. ''RPC path failed: '' @ rpc_err @ ''; local-state fallback failed: '' @ e))
               (build_signed_payment X w k s to_address amount_atoms fee)))"

definition send_usage :: string where
  "send_usage = ''usage: txmwallet send <to_address> <amount_atoms> [--fee <atoms>|--priority]''"

definition cmd_send :: "ext \<Rightarrow> crypto \<Rightarrow> wallet_env \<Rightarrow> string list \<Rightarrow> disk \<Rightarrow> cli_result option" where
  "cmd_send X C E args d =
     proceed d (need_arg 2 args send_usage) (\<lambda>to_address.
     proceed d (need_uint 64 3 args send_usage ''invalid amount_atoms'') (\<lambda>amt.
     proceed d (Some (send_fee args)) (\<lambda>fee.
     proceed d (unlock X C E d) (\<lambda>(w, k).
     proceed d (payment_or_fallback X E w k to_address (of_nat amt) fee) (\<lambda>tx.
       write_and_say E d DEFAULT_SIGNED_TX_PATH (TxDoc tx)
         [tx_line X ''txid='' tx, ''inputs='' @ show_nat (length (inputs tx)), ''outputs='' @ show_nat (length (outputs tx)),
          ''fee_atoms='' @ show_nat (unat fee), ''written='' @ DEFAULT_SIGNED_TX_PATH])))))"

definition cmd_broadcast :: "wallet_env \<Rightarrow> string list \<Rightarrow> disk \<Rightarrow> cli_result option" where
  "cmd_broadcast E args d =
     (let tx_path = or_default (arg 2 args) DEFAULT_SIGNED_TX_PATH; rpc = or_default (arg 3 args) DEFAULT_RPC in
      proceed d (Some (ok_or (hm_get d tx_path) (''failed to read '' @ tx_path))) (\<lambda>doc.
        Some \<lparr> disk_after = d, posted = [(normalize_rpc_url rpc @ ''/sendrawtransaction'', doc)],
          printed = res_bind (rpc_post E rpc ''/sendrawtransaction'' doc) (\<lambda>resp. Ok [resp]) \<rparr>))"

section \<open>Asset commands\<close>

text \<open>Unlock, fund from the node, write the signed transaction\<close>

definition asset_command ::
  "ext \<Rightarrow> crypto \<Rightarrow> wallet_env \<Rightarrow> disk \<Rightarrow> AssetOp \<Rightarrow> (string \<times> u64) option \<Rightarrow> (Transaction \<Rightarrow> string list) \<Rightarrow> cli_result option" where
  "asset_command X C E d x dest ls =
     proceed d (unlock X C E d) (\<lambda>(w, k).
     proceed d (Some (build_asset_tx_via_rpc X E w k (rpc_of_env E) x dest MIN_RELAY_FEE_ATOMS)) (\<lambda>tx.
       write_and_say E d DEFAULT_SIGNED_TX_PATH (TxDoc tx)
         (ls tx @ [tx_line X ''txid='' tx, ''written='' @ DEFAULT_SIGNED_TX_PATH, ''next: txmwallet broadcast''])))"

definition issue_op :: "string \<Rightarrow> nat \<Rightarrow> nat \<Rightarrow> string \<Rightarrow> AssetOp" where
  "issue_op tick decs units nm =
     Issue \<lparr> ticker = tick, decimals = of_nat decs, issue_supply = of_nat units, issue_name = nm, issue_flags = 0 \<rparr>"

definition cmd_asset_issue :: "ext \<Rightarrow> crypto \<Rightarrow> wallet_env \<Rightarrow> string list \<Rightarrow> disk \<Rightarrow> cli_result option" where
  "cmd_asset_issue X C E args d =
     proceed d (need_arg 2 args ''usage: txmwallet asset-issue <ticker> <decimals> <supply> <name...>'') (\<lambda>tick.
     proceed d (need_uint 8 3 args ''missing decimals'' ''decimals must be 0-18'') (\<lambda>decs.
     proceed d (need_uint 64 4 args ''missing supply'' ''supply must be a positive integer'') (\<lambda>units.
       asset_command X C E d (issue_op tick decs units (words_from 5 args)) None (\<lambda>tx. [tx_line X ''asset_id='' tx]))))"

text \<open>The royalty, the content hash and where the URI is taken from, shared by the two mint commands\<close>

definition mint_op :: "ext \<Rightarrow> string list \<Rightarrow> string \<Rightarrow> string attempt \<Rightarrow> AssetOp attempt" where
  "mint_op X args usage uri =
     and_then (need_uint 16 2 args usage ''royalty_bps must be 0-10000'') (\<lambda>bps.
       if bps > 10000 then Some (Err ''royalty_bps must be 0-10000'')
       else
         and_then (need_arg 3 args ''missing royalty_addr'') (\<lambda>roy.
         and_then (need_arg 4 args ''missing content_hash_hex'') (\<lambda>h.
         and_then (Some (hex32_or X h ''content_hash_hex must be hex'' ''content_hash must be 32 bytes (64 hex chars)'')) (\<lambda>ch.
         and_then uri (\<lambda>u.
           Some (Ok (NftMint \<lparr> collection_id = replicate 32 0, royalty_bps = of_nat bps, royalty_addr = roy, nft_uri = u, content_hash = ch \<rparr>)))))))"

definition mint_usage :: string where
  "mint_usage = ''usage: txmwallet asset-mint <royalty_bps> <royalty_addr> <content_hash_hex> <uri...>''"

definition cmd_asset_mint :: "ext \<Rightarrow> crypto \<Rightarrow> wallet_env \<Rightarrow> string list \<Rightarrow> disk \<Rightarrow> cli_result option" where
  "cmd_asset_mint X C E args d =
     proceed d (mint_op X args mint_usage (Some (Ok (words_from 5 args)))) (\<lambda>x.
       asset_command X C E d x None (\<lambda>tx. [tx_line X ''nft_asset_id='' tx]))"

definition cmd_asset_transfer :: "ext \<Rightarrow> crypto \<Rightarrow> wallet_env \<Rightarrow> string list \<Rightarrow> disk \<Rightarrow> cli_result option" where
  "cmd_asset_transfer X C E args d =
     proceed d (need_arg 2 args ''usage: txmwallet asset-transfer <asset_id_hex> <amount> <to_address>'') (\<lambda>h.
     proceed d (Some (hex32_or X h ''asset_id_hex must be hex'' ''asset_id must be 32 bytes (64 hex chars)'')) (\<lambda>k.
     proceed d (need_uint 64 3 args ''missing amount'' ''amount must be a positive integer'') (\<lambda>amt.
     proceed d (need_arg 4 args ''missing to_address'') (\<lambda>to_address.
       asset_command X C E d (Transfer \<lparr> asset_id = k, asset_amount = of_nat amt, dest_output_index = 0 \<rparr>)
         (Some (to_address, ASSET_CARRIER_ATOMS))
         (\<lambda>tx. [''asset_id='' @ h, ''amount='' @ show_nat amt, ''to='' @ to_address])))))"

text \<open>Without keys: the unsigned transaction is printed for the creator's wallet.\<close>

definition keyless_asset_command :: "ext \<Rightarrow> wallet_env \<Rightarrow> disk \<Rightarrow> AssetOp \<Rightarrow> string \<Rightarrow> cli_result option" where
  "keyless_asset_command X E d x creator =
     proceed d (Some (fetch_mature_utxos E (rpc_of_env E) creator)) (\<lambda>utxos.
     proceed d (Some (build_unsigned_asset_tx X x creator utxos MIN_RELAY_FEE_ATOMS)) (\<lambda>tx.
       Some \<lparr> disk_after = d, posted = [], printed = Ok [AssetTxDoc tx x MIN_RELAY_FEE_ATOMS] \<rparr>))"

definition build_issue_usage :: string where
  "build_issue_usage = ''usage: txmwallet asset-build-issue <ticker> <decimals> <supply> <name> <creator_addr>''"

definition cmd_asset_build_issue :: "ext \<Rightarrow> wallet_env \<Rightarrow> string list \<Rightarrow> disk \<Rightarrow> cli_result option" where
  "cmd_asset_build_issue X E args d =
     proceed d (need_arg 2 args build_issue_usage) (\<lambda>tick.
     proceed d (need_uint 8 3 args ''missing decimals'' ''decimals must be 0-18'') (\<lambda>decs.
     proceed d (need_uint 64 4 args ''missing supply'' ''supply must be a positive integer'') (\<lambda>units.
     proceed d (need_arg 5 args ''missing name'') (\<lambda>nm.
     proceed d (need_arg 6 args ''missing creator_addr'') (\<lambda>creator.
       keyless_asset_command X E d (issue_op tick decs units nm) creator)))))"

definition build_mint_usage :: string where
  "build_mint_usage =
     ''usage: txmwallet asset-build-mint <royalty_bps> <royalty_addr> <content_hash_hex> <uri> <creator_addr>''"

definition cmd_asset_build_mint :: "ext \<Rightarrow> wallet_env \<Rightarrow> string list \<Rightarrow> disk \<Rightarrow> cli_result option" where
  "cmd_asset_build_mint X E args d =
     proceed d (mint_op X args build_mint_usage (need_arg 5 args ''missing uri'')) (\<lambda>x.
     proceed d (need_arg 6 args ''missing creator_addr'') (\<lambda>creator. keyless_asset_command X E d x creator))"

section \<open>Selling and buying assets\<close>

text \<open>\<open>min_by_key\<close>: the first of the smallest\<close>

fun min_by_value :: "(OutPoint \<times> u64) list \<Rightarrow> (OutPoint \<times> u64) option" where
  "min_by_value [] = None"
| "min_by_value (u # us) = (case min_by_value us of None \<Rightarrow> Some u | Some m \<Rightarrow> Some (if snd m < snd u then m else u))"

definition cmd_asset_sell :: "ext \<Rightarrow> wallet_env \<Rightarrow> string list \<Rightarrow> disk \<Rightarrow> cli_result option" where
  "cmd_asset_sell X E args d =
     proceed d (need_arg 2 args ''usage: txmwallet asset-sell <asset_id_hex> <amount> <price_atoms>'') (\<lambda>h.
       if (case hex_decode X h of Some b \<Rightarrow> length b | None \<Rightarrow> 0) \<noteq> 32 then stop d ''asset_id must be 32 bytes (64 hex chars)''
       else
         proceed d (need_uint 64 3 args ''missing amount'' ''amount must be a positive integer'') (\<lambda>amt.
         proceed d (need_uint 64 4 args ''missing price_atoms'' ''price_atoms must be a positive integer'') (\<lambda>price.
         proceed d (Some (load_wallet d (wallet_path_from_env E))) (\<lambda>w.
         proceed d (Some (fetch_mature_utxos E (rpc_of_env E) (wf_address w))) (\<lambda>utxos.
         proceed d (Some (ok_or (min_by_value utxos) ''no mature UTXO to anchor the sale (fund the wallet first)'')) (\<lambda>(p, v).
           write_and_say E d ''asset-order.json''
             (OrderDoc \<lparr> asset_id_hex = h, order_amount = of_nat amt, order_price = of_nat price, order_seller = wf_address w,
                seller_txid_hex = to_hex X (op_txid p), seller_vout = output_index p, seller_value = v \<rparr>)
             [''order_written=asset-order.json'',
              ''send asset-order.json to the buyer; they run: txmwallet asset-buy asset-order.json'']))))))"

definition read_order :: "string \<Rightarrow> disk \<Rightarrow> string \<Rightarrow> (AssetOrder, string) result" where
  "read_order missing d path =
     (case hm_get d path of
        None \<Rightarrow> Err missing
      | Some (OrderDoc order) \<Rightarrow> Ok order
      | Some _ \<Rightarrow> Err ''parse order'')"

definition cmd_asset_build_settlement :: "ext \<Rightarrow> wallet_env \<Rightarrow> string list \<Rightarrow> disk \<Rightarrow> cli_result option" where
  "cmd_asset_build_settlement X E args d =
     proceed d (need_arg 2 args ''usage: txmwallet asset-build-settlement <order.json> <buyer_addr>'') (\<lambda>path.
     proceed d (need_arg 3 args ''missing buyer_addr'') (\<lambda>buyer.
     proceed d (Some (read_order ''read order'' d path)) (\<lambda>order.
     proceed d (Some (asset_royalty E (asset_id_hex order))) (\<lambda>(bps, roy).
     proceed d (Some (res_bind (fetch_mature_utxos E (rpc_of_env E) buyer) (buyer_funds (order_price order)))) (\<lambda>buyer_inputs.
     proceed d (Some (build_unsigned_settlement X order buyer buyer_inputs bps roy)) (\<lambda>u.
       Some \<lparr> disk_after = d, posted = [], printed = Ok [UnsignedSettlementDoc u] \<rparr>))))))"

definition cmd_asset_buy :: "ext \<Rightarrow> crypto \<Rightarrow> wallet_env \<Rightarrow> string list \<Rightarrow> disk \<Rightarrow> cli_result option" where
  "cmd_asset_buy X C E args d =
     (let path = or_default (arg 2 args) ''asset-order.json'' in
     proceed d (Some (read_order (''read '' @ path) d path)) (\<lambda>order.
     proceed d (unlock X C E d) (\<lambda>(w, k).
     proceed d (Some (asset_royalty E (asset_id_hex order))) (\<lambda>(bps, roy).
     proceed d (Some (hex32_or X (asset_id_hex order) ''bad asset_id hex'' ''asset_id must be 32 bytes'')) (\<lambda>aid.
     proceed d (Some (res_bind (fetch_mature_utxos E (rpc_of_env E) (wf_address w)) (buyer_funds (order_price order)))) (\<lambda>buyer_inputs.
       let terms = terms_of_order order aid (wf_address w) bps roy in
       proceed d (Some (checked_settlement X ''self-built settlement failed verify'' order terms buyer_inputs)) (\<lambda>tx0.
       proceed d (Some (sign_inputs X k [1..<length (inputs tx0)] tx0)) (\<lambda>tx.
         write_and_say E d ''asset-settlement.json'' (SettlementDoc \<lparr> settle_tx = tx, settle_terms = terms \<rparr>)
           [''settlement_written=asset-settlement.json'',
            ''send asset-settlement.json back to the seller; they run: txmwallet asset-accept asset-settlement.json'']))))))))"

text \<open>A file printed by \<open>asset-build-settlement\<close> has one field more and is read as well.\<close>

definition read_settlement :: "disk \<Rightarrow> string \<Rightarrow> (Transaction \<times> SettlementTerms, string) result" where
  "read_settlement d path =
     (case hm_get d path of
        None \<Rightarrow> Err (''read '' @ path)
      | Some (SettlementDoc f) \<Rightarrow> Ok (settle_tx f, settle_terms f)
      | Some (UnsignedSettlementDoc f) \<Rightarrow> Ok (settle_tx f, settle_terms f)
      | Some _ \<Rightarrow> Err ''parse settlement'')"

definition cmd_asset_accept :: "ext \<Rightarrow> crypto \<Rightarrow> wallet_env \<Rightarrow> string list \<Rightarrow> disk \<Rightarrow> cli_result option" where
  "cmd_asset_accept X C E args d =
     proceed d (Some (read_settlement d (or_default (arg 2 args) ''asset-settlement.json''))) (\<lambda>(tx0, terms).
       if verify_settlement X tx0 terms \<noteq> [] then stop d ''settlement failed verify, refusing to sign''
       else
         proceed d (unlock X C E d) (\<lambda>(w, k).
           if seller_addr terms \<noteq> wf_address w then stop d ''this wallet is not the seller for this settlement''
           else
             proceed d (Some (map_err wallet_error_text (sign_input X k tx0 0))) (\<lambda>tx.
               Some \<lparr> disk_after = d, posted = [(normalize_rpc_url (rpc_of_env E) @ ''/sendrawtransaction'', TxDoc tx)],
                 printed = res_bind (rpc_post E (rpc_of_env E) ''/sendrawtransaction'' (TxDoc tx)) (\<lambda>resp.
                   Ok [TextDoc (tx_line X ''settlement_txid='' tx), resp]) \<rparr>)))"

section \<open>Multisig commands\<close>

fun decode_keys :: "ext \<Rightarrow> string list \<Rightarrow> (bytes list, string) result" where
  "decode_keys X [] = Ok []"
| "decode_keys X (h # hs) =
     res_bind (ok_or (hex_decode X h) (''invalid pubkey hex: '' @ h)) (\<lambda>b. res_bind (decode_keys X hs) (\<lambda>bs. Ok (b # bs)))"

definition cmd_multisig_script :: "ext \<Rightarrow> string list \<Rightarrow> disk \<Rightarrow> cli_result option" where
  "cmd_multisig_script X args d =
     proceed d (need_uint 8 2 args ''usage: txmwallet multisig-script <m> <pubkey_hex1> ... <pubkey_hexN>'' ''invalid m: must be a number 1-16'') (\<lambda>m.
     proceed d (Some (decode_keys X (drop 3 args))) (\<lambda>keys.
     proceed d (Some (map_err (\<lambda>_. ''invalid multisig params'') (multisig_script (of_nat m) keys))) (\<lambda>script.
       say d [''scriptpubkey: '' @ hex_encode X script, ''m='' @ show_nat m @ ''  n='' @ show_nat (length keys),
         ''size='' @ show_nat (length script) @ '' bytes''])))"

definition cmd_p2sh_multisig_script :: "ext \<Rightarrow> string list \<Rightarrow> disk \<Rightarrow> cli_result option" where
  "cmd_p2sh_multisig_script X args d =
     proceed d (need_uint 8 2 args ''usage: txmwallet p2sh-multisig-script <m> <pubkey_hex1> ... <pubkey_hexN>'' ''invalid m'') (\<lambda>m.
     proceed d (Some (decode_keys X (drop 3 args))) (\<lambda>keys.
       if keys = [] then stop d ''p2sh-multisig-script requires at least one pubkey''
       else
         proceed d (Some (map_err (\<lambda>_. ''invalid multisig params'') (multisig_script (of_nat m) keys))) (\<lambda>redeem.
         Option.bind (p2sh_script_from_redeem X redeem) (\<lambda>spk.
         Option.bind (p2sh_address_from_redeem X redeem) (\<lambda>addr.
           say d [''redeem_script:    '' @ hex_encode X redeem, ''p2sh_scriptpubkey: '' @ hex_encode X spk,
             ''address:          '' @ addr, ''m='' @ show_nat m @ ''  n='' @ show_nat (length keys),
             ''note: save the redeem_script hex '' @ dash @ '' required to spend''])))))"

definition unsigned_lines :: "ext \<Rightarrow> string \<Rightarrow> Transaction \<Rightarrow> string list" where
  "unsigned_lines X path tx =
     [tx_line X ''unsigned_txid='' tx, ''inputs='' @ show_nat (length (inputs tx)), ''outputs='' @ show_nat (length (outputs tx)),
      ''written='' @ path]"

definition p2sh_spend_usage :: string where
  "p2sh_spend_usage = ''usage: txmwallet p2sh-multisig-spend <p2sh_spk_hex> <dest_addr> <redeem_script_hex> <amount_atoms> [rpc]''"

definition cmd_p2sh_multisig_spend :: "ext \<Rightarrow> wallet_env \<Rightarrow> string list \<Rightarrow> disk \<Rightarrow> cli_result option" where
  "cmd_p2sh_multisig_spend X E args d =
     proceed d (need_arg 2 args p2sh_spend_usage) (\<lambda>spk_hex.
     proceed d (need_arg 3 args p2sh_spend_usage) (\<lambda>dest.
     proceed d (need_arg 4 args p2sh_spend_usage) (\<lambda>redeem_hex.
     proceed d (need_uint 64 5 args p2sh_spend_usage ''invalid amount_atoms: must be a number'') (\<lambda>amt.
     proceed d (Some (ok_or (hex_decode X spk_hex) ''invalid p2sh_spk_hex: must be lowercase hex'')) (\<lambda>spk.
       if extract_p2sh_hash spk = None
       then stop d ''p2sh_spk_hex is not a valid P2SH scriptPubKey (expected OP_HASH160 <20 bytes> OP_EQUAL)''
       else
         proceed d (Some (ok_or (hex_decode X redeem_hex) ''invalid redeem_script_hex: must be lowercase hex'')) (\<lambda>redeem.
         Option.bind (p2sh_script_from_redeem X redeem) (\<lambda>expected.
           if expected \<noteq> spk then stop d ''redeem_script_hex does not hash to the given p2sh_spk_hex''
           else
             proceed d (Some (build_unsigned_multisig_tx X E (or_default (arg 6 args) DEFAULT_RPC) spk_hex dest (of_nat amt))) (\<lambda>tx.
               write_and_say E d ''p2sh-multisig-spend-tx.json'' (TxDoc tx)
                 (unsigned_lines X ''p2sh-multisig-spend-tx.json'' tx
                  @ [''next:'', ''  1. TENSORIUM_WALLET_PASSPHRASE=... txmwallet multisig-sign p2sh-multisig-spend-tx.json'',
                     ''     (run for each required signer, each produces a .sig... file)'',
                     ''  2. txmwallet multisig-combine p2sh-multisig-spend-tx.json <sig1> <sig2> --redeem '' @ redeem_hex])))))))))"

definition from_script_usage :: string where
  "from_script_usage = ''usage: txmwallet send-from-script <scriptpubkey_hex> <dest_addr> <atoms> [tx_file] [rpc]''"

definition cmd_send_from_script :: "ext \<Rightarrow> wallet_env \<Rightarrow> string list \<Rightarrow> disk \<Rightarrow> cli_result option" where
  "cmd_send_from_script X E args d =
     proceed d (need_arg 2 args from_script_usage) (\<lambda>spk_hex.
     proceed d (need_arg 3 args from_script_usage) (\<lambda>dest.
     proceed d (need_uint 64 4 args ''missing amount_atoms'' ''invalid amount_atoms'') (\<lambda>amt.
       let tx_path = or_default (arg 5 args) ''unsigned-tx.json'' in
       proceed d (Some (build_unsigned_multisig_tx X E (or_default (arg 6 args) DEFAULT_RPC) spk_hex dest (of_nat amt))) (\<lambda>tx.
         write_and_say E d tx_path (TxDoc tx) (unsigned_lines X tx_path tx @ [''next: txmwallet multisig-sign '' @ tx_path])))))"

definition read_tx :: "disk \<Rightarrow> string \<Rightarrow> (Transaction, string) result" where
  "read_tx d path =
     (case hm_get d path of None \<Rightarrow> Err (''read '' @ path) | Some (TxDoc tx) \<Rightarrow> Ok tx | Some _ \<Rightarrow> Err ''parse tx'')"

text \<open>\<open>&address[4..]\<close> panics inside a character or behind the end; \<open>chars().take(6)\<close>\<close>

definition is_cont :: "char \<Rightarrow> bool" where
  "is_cont c = (let n = of_char c :: nat in 128 \<le> n \<and> n < 192)"

fun take_chars :: "nat \<Rightarrow> string \<Rightarrow> string" where
  "take_chars (Suc n) (c # cs) = c # takeWhile is_cont cs @ take_chars n (dropWhile is_cont cs)"
| "take_chars _ _ = []"

definition addr_prefix :: "string \<Rightarrow> string option" where
  "addr_prefix a =
     (if length a < 4 \<or> (length a > 4 \<and> is_cont (a ! 4)) then None else Some (take_chars 6 (drop 4 a)))"

definition with_extension :: "string \<Rightarrow> string \<Rightarrow> string" where
  "with_extension path e =
     (let (dir, name) = (case rsplit_once (CHR ''/'') path of Some (p, n) \<Rightarrow> (p @ ''/'', n) | None \<Rightarrow> ([], path));
          stem = (case rsplit_once (CHR ''.'') name of Some (s, _) \<Rightarrow> if s = [] then name else s | None \<Rightarrow> name) in
      dir @ stem @ ''.'' @ e)"

definition cmd_multisig_sign :: "ext \<Rightarrow> crypto \<Rightarrow> wallet_env \<Rightarrow> string list \<Rightarrow> disk \<Rightarrow> cli_result option" where
  "cmd_multisig_sign X C E args d =
     proceed d (need_arg 2 args ''usage: txmwallet multisig-sign <tx_file>'') (\<lambda>tx_path.
     proceed d (unlock X C E d) (\<lambda>(w, k).
     proceed d (Some (read_tx d tx_path)) (\<lambda>tx.
     proceed d (Some (map_err (\<lambda>_. ''sign'') (sign_hash X k (signature_hash X tx)))) (\<lambda>der_sig.
     Option.bind (addr_prefix (wf_address w)) (\<lambda>prefix.
       let file = \<lparr> unsigned_txid = hex_encode X (hash_bytes (tx_id tx)),
              sigs = map (\<lambda>i. \<lparr> sig_input_index = i, der_sig_hex = hex_encode X der_sig \<rparr>) [0..<length (inputs tx)] \<rparr>;
           sig_path = with_extension tx_path (''sig'' @ prefix) in
       write_and_say E d sig_path (SigDoc file)
         [''signed_by='' @ wf_address w, ''unsigned_txid='' @ unsigned_txid file, ''written='' @ sig_path])))))"

fun combine_args :: "string list \<Rightarrow> string option \<Rightarrow> string list \<Rightarrow> (string option \<times> string list, string) result" where
  "combine_args [] redeem paths = Ok (redeem, paths)"
| "combine_args [a] redeem paths = (if a = ''--redeem'' then Err ''--redeem requires a hex value'' else Ok (redeem, paths @ [a]))"
| "combine_args (a # b # rest) redeem paths =
     (if a = ''--redeem'' then combine_args rest (Some b) paths else combine_args (b # rest) redeem (paths @ [a]))"

definition read_sig :: "ext \<Rightarrow> disk \<Rightarrow> string \<Rightarrow> string \<Rightarrow> (bytes, string) result" where
  "read_sig X d expected_txid path =
     (case hm_get d path of
        None \<Rightarrow> Err (''read '' @ path)
      | Some (SigDoc f) \<Rightarrow>
          if unsigned_txid f \<noteq> expected_txid
          then Err (''sig file '' @ path @ '' txid mismatch: expected '' @ expected_txid @ '', got '' @ unsigned_txid f)
          else
            res_bind (ok_or (find (\<lambda>s. sig_input_index s = 0) (sigs f)) (''no sig for input 0 in '' @ path)) (\<lambda>s.
              ok_or (hex_decode X (der_sig_hex s)) (''invalid sig hex in '' @ path))
      | Some _ \<Rightarrow> Err (''parse '' @ path))"

fun collect_sigs :: "ext \<Rightarrow> disk \<Rightarrow> string \<Rightarrow> string list \<Rightarrow> (bytes list, string) result" where
  "collect_sigs X d expected_txid [] = Ok []"
| "collect_sigs X d expected_txid (path # paths) =
     res_bind (read_sig X d expected_txid path) (\<lambda>b. res_bind (collect_sigs X d expected_txid paths) (\<lambda>bs. Ok (b # bs)))"

definition combined_script :: "ext \<Rightarrow> string option \<Rightarrow> bytes list \<Rightarrow> bytes attempt" where
  "combined_script X redeem_hex ss =
     (case redeem_hex of
        None \<Rightarrow> Some (Ok (multisig_script_sig ss))
      | Some h \<Rightarrow>
          and_then (Some (ok_or (hex_decode X h) ''invalid --redeem hex: must be lowercase hex'')) (\<lambda>redeem.
            map_option Ok (p2sh_multisig_script_sig ss redeem)))"

definition cmd_multisig_combine :: "ext \<Rightarrow> wallet_env \<Rightarrow> string list \<Rightarrow> disk \<Rightarrow> cli_result option" where
  "cmd_multisig_combine X E args d =
     proceed d (need_arg 2 args ''usage: txmwallet multisig-combine <tx_file> <sig_file1> <sig_file2> [...]'') (\<lambda>tx_path.
     proceed d (Some (combine_args (drop 3 args) None [])) (\<lambda>(redeem_hex, paths).
       if length paths < 2 then stop d ''multisig-combine requires at least 2 sig files''
       else
         proceed d (Some (read_tx d tx_path)) (\<lambda>tx0.
         proceed d (Some (collect_sigs X d (hex_encode X (hash_bytes (tx_id tx0))) paths)) (\<lambda>ss.
         proceed d (combined_script X redeem_hex ss) (\<lambda>script_sig.
           let tx = put_scripts X script_sig tx0 in
           write_and_say E d tx_path (TxDoc tx)
             [tx_line X ''combined_txid='' tx, ''inputs='' @ show_nat (length (inputs tx)), ''sigs_applied='' @ show_nat (length ss),
              ''written='' @ tx_path, ''ready to broadcast: txmwallet broadcast '' @ tx_path])))))"

section \<open>Hash time locks and vesting\<close>

definition cmd_htlc_secret :: "ext \<Rightarrow> wallet_env \<Rightarrow> disk \<Rightarrow> cli_result option" where
  "cmd_htlc_secret X E d =
     say d [''preimage: '' @ hex_encode X (fresh_preimage E), ''sha256:   '' @ hex_encode X (sha256 X (fresh_preimage E)),
       ''keep the preimage secret; share only the sha256 hash'']"

definition htlc_usage :: string where
  "htlc_usage = ''usage: txmwallet htlc-script <hash_hex> <recipient_addr> <refund_addr> <locktime_height>''"

definition cmd_htlc_script :: "ext \<Rightarrow> string list \<Rightarrow> disk \<Rightarrow> cli_result option" where
  "cmd_htlc_script X args d =
     proceed d (need_arg 2 args htlc_usage) (\<lambda>hash_hex.
     proceed d (need_arg 3 args htlc_usage) (\<lambda>recipient.
     proceed d (need_arg 4 args htlc_usage) (\<lambda>refund.
     proceed d (need_uint 64 5 args htlc_usage ''invalid locktime height'') (\<lambda>locktime.
     proceed d (Some (hex32_or X hash_hex ''invalid hash hex'' ''hash must be 32 bytes (SHA256)'')) (\<lambda>h.
     proceed d (Some (address_to_hash20 X recipient)) (\<lambda>recipient_hash.
     proceed d (Some (address_to_hash20 X refund)) (\<lambda>refund_hash.
       let script = htlc_script h recipient_hash refund_hash (of_nat locktime) in
       say d [''scriptpubkey: '' @ hex_encode X script, ''locktime_height: '' @ show_nat locktime,
         ''size='' @ show_nat (length script) @ '' bytes'',
         ''fund it by sending TXM to this scriptpubkey (send-from-script or a script output)''])))))))"

text \<open>Write the spending transaction and print its id\<close>

definition finish_spend :: "ext \<Rightarrow> wallet_env \<Rightarrow> disk \<Rightarrow> string \<Rightarrow> string \<Rightarrow> string list \<Rightarrow> string \<Rightarrow> Transaction \<Rightarrow> cli_result option" where
  "finish_spend X E d path label notes rpc tx =
     write_and_say E d path (TxDoc tx) ([tx_line X label tx, ''written='' @ path] @ notes @ [''broadcast: txmwallet broadcast '' @ path @ '' '' @ rpc])"

definition claim_usage :: string where
  "claim_usage = ''usage: txmwallet htlc-claim <spk_hex> <dest_addr> <preimage_hex> [rpc]''"

definition cmd_htlc_claim :: "ext \<Rightarrow> crypto \<Rightarrow> wallet_env \<Rightarrow> string list \<Rightarrow> disk \<Rightarrow> cli_result option" where
  "cmd_htlc_claim X C E args d =
     proceed d (need_arg 2 args claim_usage) (\<lambda>spk_hex.
     proceed d (need_arg 3 args claim_usage) (\<lambda>dest.
     proceed d (need_arg 4 args claim_usage) (\<lambda>preimage_hex.
       let rpc = or_default (arg 5 args) DEFAULT_RPC in
       proceed d (Some (ok_or (hex_decode X preimage_hex) ''invalid preimage hex'')) (\<lambda>preimage.
       proceed d (unlock X C E d) (\<lambda>(w, k).
       proceed d (signed_script_spend X E w k rpc spk_hex dest (\<lambda>sg pk. htlc_claim_script_sig sg pk preimage)) (\<lambda>tx.
         finish_spend X E d ''htlc-claim-tx.json'' ''claim_txid='' [] rpc tx))))))"

definition refund_usage :: string where
  "refund_usage = ''usage: txmwallet htlc-refund <spk_hex> <dest_addr> [rpc]''"

definition cmd_htlc_refund :: "ext \<Rightarrow> crypto \<Rightarrow> wallet_env \<Rightarrow> string list \<Rightarrow> disk \<Rightarrow> cli_result option" where
  "cmd_htlc_refund X C E args d =
     proceed d (need_arg 2 args refund_usage) (\<lambda>spk_hex.
     proceed d (need_arg 3 args refund_usage) (\<lambda>dest.
       let rpc = or_default (arg 4 args) DEFAULT_RPC in
       proceed d (unlock X C E d) (\<lambda>(w, k).
       proceed d (signed_script_spend X E w k rpc spk_hex dest (\<lambda>sg pk. Some (htlc_refund_script_sig sg pk))) (\<lambda>tx.
         finish_spend X E d ''htlc-refund-tx.json'' ''refund_txid=''
           [''note: the node only accepts this once chain height >= the HTLC locktime''] rpc tx))))"

text \<open>Post the transaction and print its id, some lines, and the answer\<close>

definition post_and_say :: "ext \<Rightarrow> wallet_env \<Rightarrow> disk \<Rightarrow> string \<Rightarrow> string \<Rightarrow> string list \<Rightarrow> Transaction \<Rightarrow> cli_result option" where
  "post_and_say X E d rpc label ls tx =
     Some \<lparr> disk_after = d, posted = [(normalize_rpc_url rpc @ ''/sendrawtransaction'', TxDoc tx)],
       printed = res_bind (rpc_post E rpc ''/sendrawtransaction'' (TxDoc tx)) (\<lambda>resp.
         Ok (map TextDoc (tx_line X label tx # ls) @ [resp])) \<rparr>"

text \<open>\<open>args.get(i).map(|s| s.parse().unwrap_or(v)).unwrap_or(v)\<close>\<close>

definition uint_or :: "nat \<Rightarrow> string list \<Rightarrow> nat \<Rightarrow> u64" where
  "uint_or i args v = of_nat (or_default (Option.bind (arg i args) (parse_uint 64)) v)"

definition schedule_line :: "string \<times> u64 \<times> u64 \<times> string \<Rightarrow> string" where
  "schedule_line = (\<lambda>(label, ht, atoms, spk_hex).
     label @ '': unlock_height='' @ show_nat (unat ht) @ '' atoms='' @ show_nat (unat atoms) @ '' spk='' @ spk_hex)"

definition get_tip :: "wallet_env \<Rightarrow> string \<Rightarrow> (u64, string) result" where
  "get_tip E rpc =
     res_bind (rpc_get E rpc ''/getblockcount'') (\<lambda>doc. case doc of TipDoc h \<Rightarrow> Ok h | _ \<Rightarrow> Err ''getblockcount parse'')"

definition lock_usage :: string where
  "lock_usage = ''usage: TENSORIUM_WALLET_PASSPHRASE=... txmwallet vesting-lock <recipient_addr> <total_atoms> [rpc] [tranches] [interval_blocks] [liquid_bps]''"

definition cmd_vesting_lock :: "ext \<Rightarrow> crypto \<Rightarrow> wallet_env \<Rightarrow> string list \<Rightarrow> disk \<Rightarrow> cli_result option" where
  "cmd_vesting_lock X C E args d =
     proceed d (need_arg 2 args lock_usage) (\<lambda>recipient.
     proceed d (need_uint 64 3 args lock_usage ''bad total_atoms'') (\<lambda>amt.
       let rpc = or_default (arg 4 args) DEFAULT_RPC;
           tranches = uint_or 5 args 6; interval = uint_or 6 args 43200; liquid_bps = uint_or 7 args 2000 in
       proceed d (unlock X C E d) (\<lambda>(w, k).
       proceed d (Some (get_tip E rpc)) (\<lambda>tip.
       proceed d (Some (build_signed_vesting_via_rpc X E w k rpc recipient (of_nat amt) MIN_RELAY_FEE_ATOMS (tip + interval)
           tranches interval liquid_bps)) (\<lambda>(tx, schedule).
         post_and_say X E d rpc ''vesting_lock_txid=''
           ([''recipient='' @ recipient @ '' total_atoms='' @ show_nat amt,
             ''--- vesting schedule (give these to the buyer; claim each with: txmwallet vesting-claim <spk_hex> <dest> '' @ rpc @ '') ---'']
            @ map schedule_line schedule) tx)))))"

definition vesting_claim_usage :: string where
  "vesting_claim_usage = ''usage: TENSORIUM_WALLET_PASSPHRASE=... txmwallet vesting-claim <spk_hex> <dest_addr> [rpc]''"

definition cmd_vesting_claim :: "ext \<Rightarrow> crypto \<Rightarrow> wallet_env \<Rightarrow> string list \<Rightarrow> disk \<Rightarrow> cli_result option" where
  "cmd_vesting_claim X C E args d =
     proceed d (need_arg 2 args vesting_claim_usage) (\<lambda>spk_hex.
     proceed d (need_arg 3 args vesting_claim_usage) (\<lambda>dest.
       let rpc = or_default (arg 4 args) DEFAULT_RPC in
       proceed d (unlock X C E d) (\<lambda>(w, k).
       proceed d (signed_script_spend X E w k rpc spk_hex dest (\<lambda>sg pk. Some (p2pkh_script_sig sg pk))) (\<lambda>tx.
         post_and_say X E d rpc ''vesting_claim_txid=''
           [''note: the node accepts this only once chain height >= the tranche's unlock height''] tx))))"

section \<open>The program\<close>

text \<open>Any other command prints the help text, which is left out.\<close>

definition run_wallet :: "ext \<Rightarrow> crypto \<Rightarrow> wallet_env \<Rightarrow> string list \<Rightarrow> disk \<Rightarrow> cli_result option" where
  "run_wallet X C E args d =
     (let c = or_default (arg 1 args) ''help'' in
      if c = ''create'' then cmd_create X C E d
      else if c = ''rekey'' then cmd_rekey X C E d
      else if c = ''getnewaddress'' then cmd_getnewaddress E d
      else if c = ''show'' then cmd_show E d
      else if c = ''balance'' then cmd_balance X E d
      else if c = ''send'' then cmd_send X C E args d
      else if c = ''asset-issue'' then cmd_asset_issue X C E args d
      else if c = ''asset-mint'' then cmd_asset_mint X C E args d
      else if c = ''asset-transfer'' then cmd_asset_transfer X C E args d
      else if c = ''asset-sell'' then cmd_asset_sell X E args d
      else if c = ''asset-build-issue'' then cmd_asset_build_issue X E args d
      else if c = ''asset-build-mint'' then cmd_asset_build_mint X E args d
      else if c = ''asset-build-settlement'' then cmd_asset_build_settlement X E args d
      else if c = ''asset-buy'' then cmd_asset_buy X C E args d
      else if c = ''asset-accept'' then cmd_asset_accept X C E args d
      else if c = ''unlock-check'' then cmd_unlock_check X C E d
      else if c = ''broadcast'' then cmd_broadcast E args d
      else if c = ''multisig-script'' then cmd_multisig_script X args d
      else if c = ''p2sh-multisig-script'' then cmd_p2sh_multisig_script X args d
      else if c = ''p2sh-multisig-spend'' then cmd_p2sh_multisig_spend X E args d
      else if c = ''send-from-script'' then cmd_send_from_script X E args d
      else if c = ''multisig-sign'' then cmd_multisig_sign X C E args d
      else if c = ''multisig-combine'' then cmd_multisig_combine X E args d
      else if c = ''htlc-secret'' then cmd_htlc_secret X E d
      else if c = ''htlc-script'' then cmd_htlc_script X args d
      else if c = ''htlc-claim'' then cmd_htlc_claim X C E args d
      else if c = ''htlc-refund'' then cmd_htlc_refund X C E args d
      else if c = ''vesting-lock'' then cmd_vesting_lock X C E args d
      else if c = ''vesting-claim'' then cmd_vesting_claim X C E args d
      else say d [])"

end
