(* ===== verification/Wallet_Safety.thy ===== *)
theory Wallet_Safety
  imports Wallet_Commands
begin

text \<open>
  What the wallet program does to its files: how one command's writes change the disk, and changing
  the passphrase, which never loses a key, whatever write fails.
\<close>

section \<open>Steps of a command\<close>

lemma proceed_simps [simp]:
  "proceed d None k = None" "proceed d (Some (Err e)) k = stop d e" "proceed d (Some (Ok a)) k = k a"
  by (simp_all add: proceed_def)

lemma write_and_say_disk:
  "\<exists>r. write_and_say E d path doc ls = Some r \<and> disk_after r = fst (fs_write E path doc d)
    \<and> printed r = (if snd (fs_write E path doc d) then Ok (map TextDoc ls) else Err (''failed to write '' @ path))"
  by (auto simp: write_and_say_def say_def stop_def split: prod.split bool.split)

lemma fs_write_frame: "path' \<noteq> path \<Longrightarrow> hm_get (fst (fs_write E path doc d)) path' = hm_get d path'"
  by (auto simp: fs_write_def split: option.split write_fault.split)

lemma fs_write_done: "snd (fs_write E path doc d) \<Longrightarrow> hm_get (fst (fs_write E path doc d)) path = Some doc"
  by (auto simp: fs_write_def split: option.splits write_fault.splits)

section \<open>Changing the passphrase\<close>

text \<open>A key that one of the two passphrases opens from some file on the disk.\<close>

definition recoverable :: "ext \<Rightarrow> crypto \<Rightarrow> wallet_env \<Rightarrow> disk \<Rightarrow> WalletKeypair \<Rightarrow> bool" where
  "recoverable X C E d k \<longleftrightarrow>
     (\<exists>path w pw. hm_get d path = Some (WalletDoc w) \<and> (passphrase_var E = Some pw \<or> new_passphrase_var E = Some pw)
        \<and> wallet_decrypt X C w pw = Some (Ok k))"

lemma backup_path_neq: "backup_path E \<noteq> wallet_path_from_env E"
  by (simp add: backup_path_def)

lemma run_rekey: "run_wallet X C E [prog, ''rekey''] d = cmd_rekey X C E d"
  by (simp add: run_wallet_def arg_def or_default_def)

text \<open>
  C19. Changing the passphrase never loses the key: when the wallet file opens under the current
  passphrase, \<open>rekey\<close> returns, and whatever happens (a missing, short or unchanged new passphrase, a
  backup or a wallet file that cannot be written or is cut short) some file on the disk still opens to
  the same key under the old or the new passphrase; no other file changes. When it reports success the
  wallet file opens under the new passphrase and the backup holds the old file.
\<close>

theorem rekey_never_loses_key:
  assumes X: "hex_laws X" "sign_laws X" and C: "crypto_laws C"
    and len: "length (fresh_salt E) = 16" "length (fresh_nonce E) = 24" "length (private_key_hex k) < 2 ^ 32"
    and pw: "passphrase_var E = Some old" "\<forall>new. new_passphrase_var E = Some new \<longrightarrow> length new < 2 ^ 32"
    and w: "hm_get d (wallet_path_from_env E) = Some (WalletDoc w)" and k: "wallet_decrypt X C w old = Some (Ok k)"
  shows "\<exists>r. run_wallet X C E [prog, ''rekey''] d = Some r \<and> recoverable X C E (disk_after r) k
    \<and> (\<forall>path. path \<noteq> wallet_path_from_env E \<and> path \<noteq> backup_path E \<longrightarrow> hm_get (disk_after r) path = hm_get d path)
    \<and> (\<forall>ls. printed r = Ok ls \<longrightarrow> hm_get (disk_after r) (backup_path E) = Some (WalletDoc w)
        \<and> (\<exists>new w'. new_passphrase_var E = Some new \<and> hm_get (disk_after r) (wallet_path_from_env E) = Some (WalletDoc w')
            \<and> wallet_decrypt X C w' new = Some (Ok k)))"
proof -
  let ?p = "wallet_path_from_env E" and ?b = "backup_path E"
  note run = run_rekey [of X C E prog d]
  have load: "load_wallet d ?p = Ok w" by (simp add: load_wallet_def w)
  have here: "recoverable X C E d' k" if "hm_get d' path = Some (WalletDoc w)" for d' path
    using that k pw(1) by (auto simp: recoverable_def)
  have early: ?thesis if "cmd_rekey X C E d = stop d e" for e
    using that here [OF w] by (simp add: run stop_def)
  show ?thesis
  proof (cases "length old < 8 \<or> new_passphrase_var E = None \<or> new_passphrase_var E = Some old \<or> (\<exists>n. new_passphrase_var E = Some n \<and> length n < 8)")
    case True
    then have "\<exists>e. cmd_rekey X C E d = stop d e"
      by (cases "length old < 8") (auto simp: cmd_rekey_def passphrase_from_env_def pw(1) Let_def ok_or_def)
    then show ?thesis using early by blast
  next
    case False
    then obtain new where new: "new_passphrase_var E = Some new" "\<not> length new < 8" "new \<noteq> old" "\<not> length old < 8" by auto
    obtain d1 ok where b: "fs_write E ?b (WalletDoc w) d = (d1, ok)" by fastforce
    have other: "hm_get d1 path = hm_get d path" if "path \<noteq> ?b" for path using fs_write_frame [OF that, of E "WalletDoc w" d] by (simp add: b)
    have w1: "hm_get d1 ?p = Some (WalletDoc w)" using other [of ?p] backup_path_neq [of E] w by simp
    have step: "cmd_rekey X C E d = (if ok then proceed d1 (wallet_encrypt X C (fresh_salt E) (fresh_nonce E) k new) (\<lambda>f.
        write_and_say E d1 ?p (WalletDoc f) [''rekey ok'', ''address='' @ address k, ''backup='' @ ?b]) else stop d1 ''backup failed'')"
      using new load k by (simp add: cmd_rekey_def passphrase_from_env_def pw(1) ok_or_def b Let_def)
    show ?thesis
    proof (cases ok)
      case False
      then show ?thesis using step here [OF w1] other by (simp add: run stop_def)
    next
      case True
      have b1: "hm_get d1 ?b = Some (WalletDoc w)" using fs_write_done [of E ?b "WalletDoc w" d] True by (simp add: b)
      from decrypt_loads(1) [OF k] obtain h where h: "from_private_key_hex X h = Some (Ok k)" by blast
      have nl: "length new < 2 ^ 32" using pw(2) new(1) by blast
      from encrypt_decrypt [OF X C h len(1,2) nl len(3)] obtain f where
        f: "wallet_encrypt X C (fresh_salt E) (fresh_nonce E) k new = Some (Ok f)" "wallet_decrypt X C f new = Some (Ok k)" .
      let ?d2 = "fst (fs_write E ?p (WalletDoc f) d1)"
      from write_and_say_disk [of E d1 ?p "WalletDoc f" "[''rekey ok'', ''address='' @ address k, ''backup='' @ ?b]"]
      obtain r where r: "cmd_rekey X C E d = Some r" "disk_after r = ?d2"
        and pr: "\<And>ls. printed r = Ok ls \<Longrightarrow> snd (fs_write E ?p (WalletDoc f) d1)"
        using step True f(1) by (auto split: if_splits)
      have b2: "hm_get ?d2 ?b = Some (WalletDoc w)" using fs_write_frame [OF backup_path_neq] b1 by metis
      have "hm_get ?d2 path = hm_get d path" if "path \<noteq> ?p" "path \<noteq> ?b" for path using fs_write_frame [OF that(1)] other [OF that(2)] by metis
      moreover have "hm_get ?d2 ?p = Some (WalletDoc f)" if "printed r = Ok ls" for ls by (rule fs_write_done [OF pr [OF that]])
      ultimately show ?thesis using r here [OF b2] b2 f(2) new(1) by (auto simp: run)
    qed
  qed
qed

text \<open>A disk on which writing the wallet file stops after its first byte, for the witness.\<close>

definition demo_wallet_env :: wallet_env where
  "demo_wallet_env = \<lparr> passphrase_var = Some ''correct horse'', new_passphrase_var = Some ''battery staple'', wallet_var = None,
     rpc_var = None, indexer_var = None, clock_secs = 1750000000, fresh_key = replicate 32 9, fresh_salt = replicate 16 1,
     fresh_nonce = replicate 24 2, fresh_preimage = replicate 32 3, http_get = (\<lambda>_. Err (HttpTransport [])),
     http_post = (\<lambda>_ _. Err (HttpTransport [])),
     write_faults = (\<lambda>path. if path = DEFAULT_WALLET_PATH then Some (CutShort (TextDoc ''{'') ''disk full'') else None),
     local_state = Err [] \<rparr>"

theorem rekey_never_loses_key_witness:
  "\<exists>k w r. wallet_decrypt key_ext demo_crypto w ''correct horse'' = Some (Ok k)
    \<and> run_wallet key_ext demo_crypto demo_wallet_env [''txmwallet'', ''rekey''] [(DEFAULT_WALLET_PATH, WalletDoc w)] = Some r
    \<and> recoverable key_ext demo_crypto demo_wallet_env (disk_after r) k"
proof -
  from key_ext_wallet obtain k where k: "from_private_key_hex key_ext (hex_string (replicate 32 9)) = Some (Ok k)"
    and l: "length (private_key_hex k) = 64" by blast
  then have lk: "length (private_key_hex k) < 2 ^ 32" by simp
  from encrypt_decrypt [OF key_ext_laws(3,4) demo_crypto_laws k _ _ _ lk, of "replicate 16 4" "replicate 24 5" "''correct horse''"]
  obtain w where w: "wallet_decrypt key_ext demo_crypto w ''correct horse'' = Some (Ok k)" by auto
  have p: "hm_get [(DEFAULT_WALLET_PATH, WalletDoc w)] (wallet_path_from_env demo_wallet_env) = Some (WalletDoc w)"
    by (simp add: wallet_path_from_env_def demo_wallet_env_def or_default_def)
  have e: "length (fresh_salt demo_wallet_env) = 16" "length (fresh_nonce demo_wallet_env) = 24"
    "passphrase_var demo_wallet_env = Some ''correct horse''" "\<forall>new. new_passphrase_var demo_wallet_env = Some new \<longrightarrow> length new < 2 ^ 32"
    by (simp_all add: demo_wallet_env_def)
  from rekey_never_loses_key [OF key_ext_laws(3,4) demo_crypto_laws e(1,2) lk e(3,4) p w, of "''txmwallet''"] w show ?thesis by blast
qed

end
