(* ===== verification/Asset_Payments.thy ===== *)
theory Asset_Payments
  imports Utxo_Listing Wallet_Keys
begin

text \<open>
  Asset transactions end to end: the coin selection of \<open>/buildAssetTx\<close>, the outputs of
  \<open>build_outputs\<close>, the wallet's signatures, the script interpreter and the mempool fit together.
\<close>

section \<open>Coin selection\<close>

lemma subseq_set: "subseq xs ys \<Longrightarrow> set xs \<subseteq> set ys"
  by (metis subseq_conv_nths set_nths_subset)

lemma pick_inputs_spec:
  assumes "pick_inputs p h needed us ins acc = (ins', tot)"
  shows "\<exists>sel. subseq sel us \<and> ins' = ins @ map (\<lambda>(out, e). \<lparr> previous_output = out, signature_script = [] \<rparr>) sel
    \<and> (\<forall>(out, e) \<in> set sel. mature_at p h e) \<and> tot = foldl sat_add acc (map (\<lambda>oe. value_atoms (entry_output (snd oe))) sel)"
  using assms
proof (induction us arbitrary: ins acc)
  case Nil
  then show ?case by simp
next
  case (Cons oe us)
  obtain out e where oe: "oe = (out, e)" by fastforce
  let ?acc = "sat_add acc (value_atoms (entry_output e))" and ?ins = "ins @ [\<lparr> previous_output = out, signature_script = [] \<rparr>]"
  show ?case
  proof (cases "mature_at p h e")
    case False
    with Cons oe obtain sel where "subseq sel us \<and> ins' = ins @ map (\<lambda>(out, e). \<lparr> previous_output = out, signature_script = [] \<rparr>) sel
      \<and> (\<forall>(out, e) \<in> set sel. mature_at p h e) \<and> tot = foldl sat_add acc (map (\<lambda>oe. value_atoms (entry_output (snd oe))) sel)"
      by fastforce
    then show ?thesis by (intro exI [of _ sel]) (simp add: list_emb_Cons)
  next
    case mat: True
    show ?thesis
    proof (cases "needed \<le> ?acc")
      case True
      then have "ins' = ?ins" "tot = ?acc" using Cons.prems mat by (simp_all add: oe Let_def)
      then show ?thesis using mat by (intro exI [of _ "[(out, e)]"]) (simp add: oe)
    next
      case False
      then have "pick_inputs p h needed us ?ins ?acc = (ins', tot)" using Cons.prems mat by (simp add: oe Let_def)
      from Cons.IH [OF this] obtain sel where "subseq sel us" "ins' = ?ins @ map (\<lambda>(out, e). \<lparr> previous_output = out, signature_script = [] \<rparr>) sel"
        "\<forall>(out, e) \<in> set sel. mature_at p h e" "tot = foldl sat_add ?acc (map (\<lambda>oe. value_atoms (entry_output (snd oe))) sel)" by blast
      then show ?thesis using mat by (intro exI [of _ "(out, e) # sel"]) (simp add: oe)
    qed
  qed
qed

section \<open>Signing\<close>

lemma wallet_signs:
  assumes "digest_len X" "bech32_laws X" "hex_laws X" "sign_laws X" "from_private_key_hex X kh = Some (Ok w)"
    and sg: "sign_transaction X w tx = Ok tx'" and a: "p2pkh_from_address X (address w) = Ok spk"
  shows "map previous_output (inputs tx') = map previous_output (inputs tx)" "outputs tx' = outputs tx"
    "\<forall>i \<in> set (inputs tx'). execute X (signature_script i) spk \<lparr> sig_hash = signature_hash X tx', block_height = ht \<rparr> = Ok True"
proof -
  from wallet_unlocks [OF assms(1-5)] a obtain pk hash where scr: "p2pkh_script hash = Some spk"
    and der: "\<forall>tx ht. \<exists>der. wallet_script_sig X w tx = Ok (p2pkh_script_sig der pk)
        \<and> unlocks X \<lparr> sig_hash = signature_hash X tx, block_height = ht \<rparr> pk der hash" by auto
  from der obtain d where ss: "wallet_script_sig X w tx = Ok (p2pkh_script_sig d pk)"
    and un: "unlocks X \<lparr> sig_hash = signature_hash X tx, block_height = ht \<rparr> pk d hash" by blast
  have tx': "tx' = refresh_id X (tx\<lparr> inputs := map (\<lambda>i. i\<lparr> signature_script := p2pkh_script_sig d pk \<rparr>) (inputs tx) \<rparr>)"
    using sg by (simp add: sign_transaction_def ss)
  then show "map previous_output (inputs tx') = map previous_output (inputs tx)" "outputs tx' = outputs tx" by simp_all
  show "\<forall>i \<in> set (inputs tx'). execute X (signature_script i) spk \<lparr> sig_hash = signature_hash X tx', block_height = ht \<rparr> = Ok True"
    unfolding sign_keeps_hash(1) [OF sg] using p2pkh_accepts [OF un scr] by (simp add: tx')
qed

section \<open>What the builder answers\<close>

lemma unat_foldl_sat: "unat (foldl sat_add (0 :: u64) xs) = min (sum_list (map unat xs)) (2 ^ 64 - 1)"
  by (simp add: unat_foldl_sat_add)

definition carried :: "(string \<times> u64) option \<Rightarrow> u64" where
  "carried dest = (case dest of None \<Rightarrow> 0 | Some (_, v) \<Rightarrow> v)"

lemma carried_small: "asset_request X env r = Ok (payer, x, dest) \<Longrightarrow> carried dest = 0 \<or> carried dest = ASSET_CARRIER_ATOMS"
  by (auto simp: asset_request_def carried_def split: BuildAssetTxRequest.splits if_splits option.splits sum.splits bool.splits)

lemma build_answer:
  assumes X: "digest_len X" and n: "node_inv X p n"
    and r: "request_from_json env body = Ok r" "asset_request X env r = Ok (payer, x, dest)"
    and ans: "rpc_buildAssetTx X p env body n = Some (n1, [(200, AssetTxBody tx nm desc fee)], Ok ())"
  obtains s uset script ins tot outs where "p2pkh_from_address X payer = Ok script" and "n1 = n\<lparr> node_chain := s \<rparr>"
    and "reachable X p s" and "utxo_cf_ok s" and "read_meta_utxo_tip s = Some (tip_hash X s)"
    and "pick_inputs p (height_or_0 s) (sat_add (carried dest) MIN_RELAY_FEE_ATOMS) (utxos_for_script s script) [] 0 = (ins, tot)"
    and "build_outputs X x dest payer tot MIN_RELAY_FEE_ATOMS = Ok outs"
    and "tx = payment X ins outs" and "fee = MIN_RELAY_FEE_ATOMS" and "ins \<noteq> []"
proof -
  from ans r obtain script where sc: "p2pkh_from_address X payer = Ok script"
    by (auto simp: rpc_buildAssetTx_def reply_def split: sum.splits)
  let ?k = "\<lambda>s. let n1 = n\<lparr> node_chain := s \<rparr>;
       needed = sat_add (carried dest) MIN_RELAY_FEE_ATOMS;
       (ins, total_in) = pick_inputs p (height_or_0 s) needed (utxos_for_script s script) [] 0 in
     if total_in < needed
     then reply n1 400 (ErrorBody (''insufficient mature balance: have '' @ show_nat (unat total_in)
            @ '', need '' @ show_nat (unat needed)))
     else case build_outputs X x dest payer total_in MIN_RELAY_FEE_ATOMS of
       Err e \<Rightarrow> reply n1 400 (ErrorBody (build_error_text e))
     | Ok outs \<Rightarrow> reply n1 200 (AssetTxBody (payment X ins outs) (op_name x)
         (op_description X x (case dest of Some (a, _) \<Rightarrow> a | None \<Rightarrow> [])) MIN_RELAY_FEE_ATOMS)"
  have "rpc_synced X p env n ?k = Some (n1, [(200, AssetTxBody tx nm desc fee)], Ok ())"
    using ans unfolding rpc_buildAssetTx_def r sum.case prod.case sc by (simp only: carried_def)
  from rpc_synced_reply [OF X n this] obtain s uset where k: "?k s = Some (n1, [(200, AssetTxBody tx nm desc fee)], Ok ())"
    and s: "reachable X p s" "utxo_cf_ok s" and stamp: "read_meta_utxo_tip s = Some (tip_hash X s)" .
  obtain ins tot where pick: "pick_inputs p (height_or_0 s) (sat_add (carried dest) MIN_RELAY_FEE_ATOMS) (utxos_for_script s script) [] 0 = (ins, tot)"
    by fastforce
  have enough: "\<not> tot < sat_add (carried dest) MIN_RELAY_FEE_ATOMS"
    using k by (auto simp: pick Let_def reply_def split: if_splits)
  with k obtain outs where out: "build_outputs X x dest payer tot MIN_RELAY_FEE_ATOMS = Ok outs"
    by (cases "build_outputs X x dest payer tot MIN_RELAY_FEE_ATOMS") (auto simp: pick Let_def reply_def)
  have "n1 = n\<lparr> node_chain := s \<rparr>" "tx = payment X ins outs" "fee = MIN_RELAY_FEE_ATOMS"
    using k enough by (auto simp: pick Let_def reply_def out)
  moreover have "ins \<noteq> []"
  proof
    assume "ins = []"
    with pick_inputs_spec [OF pick] have "tot = 0" by auto
    with enough carried_small [OF r(2)] show False
      by (auto simp: sat_add_def MIN_RELAY_FEE_ATOMS_def ASSET_CARRIER_ATOMS_def)
  qed
  ultimately show ?thesis using that sc s stamp pick out by blast
qed

section \<open>From selected coins to the mempool\<close>

text \<open>Mature outputs of one script, each with an unlocking script that opens it, are good inputs.\<close>

lemma selected_inputs:
  assumes cf: "utxo_cf_ok s" and sub: "subseq sel (utxos_for_script s script)" and mat: "\<forall>(out, e) \<in> set sel. mature_at p h e"
    and prev: "map previous_output (inputs tx) = map fst sel"
    and ex: "\<forall>i \<in> set (inputs tx). execute X (signature_script i) script \<lparr> sig_hash = signature_hash X tx, block_height = h \<rparr> = Ok True"
  shows "\<forall>i \<in> set (inputs tx). input_ok X p (utxo_lookup s) h tx i" "distinct (map previous_output (inputs tx))"
    "input_value (utxo_lookup s) tx = sum_list (map (\<lambda>oe. unat (value_atoms (entry_output (snd oe)))) sel)"
proof -
  have entry: "utxo_lookup s out = Some e \<and> script_pubkey (entry_output e) = script \<and> mature_at p h e" if "(out, e) \<in> set sel" for out e
    using that utxos_for_script_exact(2) [OF cf, of out e script] mat subseq_set [OF sub] by fastforce
  show "distinct (map previous_output (inputs tx))" unfolding prev
    using utxos_for_script_exact(1) [OF cf, of script] sub by (metis distinct_nthsI nths_map subseq_conv_nths)
  have val: "entry_value (utxo_lookup s) (fst oe) = unat (value_atoms (entry_output (snd oe)))" if "oe \<in> set sel" for oe
    using entry [of "fst oe" "snd oe"] that by (simp add: entry_value_def)
  have "input_value (utxo_lookup s) tx = sum_list (map (entry_value (utxo_lookup s)) (map previous_output (inputs tx)))"
    by (simp add: input_value_def)
  also have "\<dots> = sum_list (map (\<lambda>oe. unat (value_atoms (entry_output (snd oe)))) sel)"
    unfolding prev by (simp add: comp_def val cong: map_cong)
  finally show "input_value (utxo_lookup s) tx = sum_list (map (\<lambda>oe. unat (value_atoms (entry_output (snd oe)))) sel)" .
  show "\<forall>i \<in> set (inputs tx). input_ok X p (utxo_lookup s) h tx i"
  proof
    fix i assume i: "i \<in> set (inputs tx)"
    then have "previous_output i \<in> set (map fst sel)" by (metis prev image_eqI set_map)
    then obtain e where "(previous_output i, e) \<in> set sel" by auto
    from entry [OF this] show "input_ok X p (utxo_lookup s) h tx i"
      using ex i by (auto simp: input_ok_def mature_at_def immature_def)
  qed
qed

text \<open>A transaction whose inputs are good and cover outputs and fee is valid with exactly this fee.\<close>

lemma covered_valid:
  assumes "\<forall>i \<in> set (inputs tx). input_ok X p look h tx i" and "distinct (map previous_output (inputs tx))"
    and "output_value tx + unat fee = min (input_value look tx) (2 ^ 64 - 1)"
  shows "validate_transaction X p look h tx = Ok fee"
proof -
  have "output_value tx \<le> input_value look tx" "output_value tx \<le> 2 ^ 64 - 1"
    "min (input_value look tx) (2 ^ 64 - 1) - output_value tx = unat fee" using assms(3) by linarith+
  then have "tx_ok X p look h tx \<and> unat fee = tx_fee look tx" using assms(1,2) by (simp add: tx_ok_def tx_fee_def)
  then show ?thesis by (simp add: validate_transaction_Ok_iff)
qed

text \<open>A valid transaction that pays the relay fee is accepted by a node in step with its chain.\<close>

definition pool_takes :: "ext \<Rightarrow> mempool \<Rightarrow> Transaction \<Rightarrow> bool" where
  "pool_takes X pool tx \<longleftrightarrow> hm_get pool (to_hex X (tx_id tx)) = None \<and> \<not> conflicts_with_pending pool tx \<and> length pool < MAX_MEMPOOL_TXS"

lemma send_reply:
  assumes X: "digest_len X" and n1: "n1 = n\<lparr> node_chain := s \<rparr>" and rs: "reachable X p s" and sy: "read_meta_utxo_tip s = Some (tip_hash X s)"
    and send: "tx_from_json env body = Ok tx" "rpc_lock env = None"
  obtains s' where "utxo_lookup s' = utxo_lookup s" and "height_or_0 s' = height_or_0 s"
    and "rpc_sendrawtransaction X p env body n1 =
      (case mempool_add X p (hm_get (seed_utxos_for_tx s' tx)) (node_pool n) tx (height_or_0 s) of
         Err e \<Rightarrow> give_up (n\<lparr> node_chain := s' \<rparr>) (mempool_error_text e)
       | Ok pool \<Rightarrow> reply (n\<lparr> node_chain := s', node_pool := pool \<rparr>) 200 (PendingBody (tx_id tx) (length pool)))"
proof -
  from reachable_inv [OF X rs] obtain chain where inv: "state_inv X p s chain" by blast
  let ?s = "s\<lparr> last_disconnected := [] \<rparr>"
  have e: "ensure_utxo_synced X p ?s = (?s, Ok ())"
    using inv sy by (simp add: ensure_utxo_synced_def state_inv_def tip_hash_def read_meta_utxo_tip_def)
  have l: "utxo_lookup ?s = utxo_lookup s" "height_or_0 ?s = height_or_0 s"
    by (simp_all add: utxo_lookup_def [abs_def] utxo_get_def [abs_def] height_or_0_def)
  obtain s' where s': "reopen s = s'" "ensure_utxo_synced X p s' = (s', Ok ())"
    and l': "utxo_lookup s' = utxo_lookup s" "height_or_0 s' = height_or_0 s"
    using e l reopen_inv [OF X inv] by metis
  have "rpc_sendrawtransaction X p env body n1 =
      (case mempool_add X p (hm_get (seed_utxos_for_tx s' tx)) (node_pool n) tx (height_or_0 s') of
         Err e \<Rightarrow> give_up (n\<lparr> node_chain := s' \<rparr>) (mempool_error_text e)
       | Ok pool \<Rightarrow> reply (n\<lparr> node_chain := s', node_pool := pool \<rparr>) 200 (PendingBody (tx_id tx) (length pool)))"
    unfolding rpc_sendrawtransaction_def send rpc_synced_def rpc_state_def load_state_def n1 by (simp add: s' split: sum.split)
  with that [OF l'] show ?thesis by (simp only: l'(2))
qed

lemma valid_tx_sent:
  assumes X: "digest_len X" and n1: "n1 = n\<lparr> node_chain := s \<rparr>" and rs: "reachable X p s" and sy: "read_meta_utxo_tip s = Some (tip_hash X s)"
    and send: "tx_from_json env body = Ok tx" "rpc_lock env = None"
    and val: "validate_transaction X p (utxo_lookup s) (height_or_0 s) tx = Ok fee" and fee: "MIN_RELAY_FEE_ATOMS \<le> fee"
    and pool: "pool_takes X (node_pool n) tx" and cb: "\<not> is_coinbase tx"
  shows "\<exists>n2 k. rpc_sendrawtransaction X p env body n1 = Some (n2, [(200, PendingBody (tx_id tx) k)], Ok ())
    \<and> hm_get (node_pool n2) (to_hex X (tx_id tx)) = Some \<lparr> entry_tx = tx, fee_atoms = fee \<rparr>"
proof -
  from send_reply [OF X n1 rs sy send] obtain s' where l: "utxo_lookup s' = utxo_lookup s" and "height_or_0 s' = height_or_0 s"
    and r: "rpc_sendrawtransaction X p env body n1 =
      (case mempool_add X p (hm_get (seed_utxos_for_tx s' tx)) (node_pool n) tx (height_or_0 s) of
         Err e \<Rightarrow> give_up (n\<lparr> node_chain := s' \<rparr>) (mempool_error_text e)
       | Ok pool \<Rightarrow> reply (n\<lparr> node_chain := s', node_pool := pool \<rparr>) 200 (PendingBody (tx_id tx) (length pool)))" .
  have "validate_transaction X p (hm_get (seed_utxos_for_tx s' tx)) (height_or_0 s) tx = Ok fee"
    unfolding seed_utxos_for_tx_def l using val by (simp only: tx_view.seeded)
  then have "mempool_add X p (hm_get (seed_utxos_for_tx s' tx)) (node_pool n) tx (height_or_0 s)
      = Ok (hm_insert (to_hex X (tx_id tx)) \<lparr> entry_tx = tx, fee_atoms = fee \<rparr> (node_pool n))"
    using pool cb fee by (simp add: mempool_add_def Let_def pool_takes_def)
  then show ?thesis by (simp add: r reply_def)
qed

text \<open>
  C12. Asset transactions work end to end: if \<open>/buildAssetTx\<close> answers with a transaction for the
  address of a wallet, and the wallet signs it, then \<open>/sendrawtransaction\<close> accepts the result into the
  mempool (unless it is there already, conflicts with it, or the pool is full), with exactly the fee
  that was announced, and whoever reads the chain finds the requested operation in it. The coins
  picked are distinct, mature and owned by the wallet; inputs cover outputs and fee.
\<close>

theorem built_asset_tx_accepted:
  assumes X: "digest_len X" "bech32_laws X" "hex_laws X" "sign_laws X"
    and w: "from_private_key_hex X kh = Some (Ok w)" and n: "node_inv X p n"
    and r: "request_from_json env body = Ok r" "asset_request X env r = Ok (address w, x, dest)"
    and ans: "rpc_buildAssetTx X p env body n = Some (n1, [(200, AssetTxBody tx nm desc fee)], Ok ())"
    and fit: "op_typed x" "royalty_ok x" "fields_fit x"
    and sg: "sign_transaction X w tx = Ok tx'"
    and send: "tx_from_json env2 body2 = Ok tx'" "rpc_lock env2 = None"
    and pool: "pool_takes X (node_pool n) tx'"
  shows "extract_asset_op tx' = Some x \<and>
    (\<exists>n2 k. rpc_sendrawtransaction X p env2 body2 n1 = Some (n2, [(200, PendingBody (tx_id tx') k)], Ok ())
      \<and> hm_get (node_pool n2) (to_hex X (tx_id tx')) = Some \<lparr> entry_tx = tx', fee_atoms = fee \<rparr>)"
proof -
  from build_answer [OF X(1) n r ans] obtain s script ins tot outs where
    sc: "p2pkh_from_address X (address w) = Ok script" and n1: "n1 = n\<lparr> node_chain := s \<rparr>" and rs: "reachable X p s"
    and cf: "utxo_cf_ok s" and sy: "read_meta_utxo_tip s = Some (tip_hash X s)"
    and pick: "pick_inputs p (height_or_0 s) (sat_add (carried dest) MIN_RELAY_FEE_ATOMS) (utxos_for_script s script) [] 0 = (ins, tot)"
    and out: "build_outputs X x dest (address w) tot MIN_RELAY_FEE_ATOMS = Ok outs"
    and tx: "tx = payment X ins outs" and fee: "fee = MIN_RELAY_FEE_ATOMS" and ne: "ins \<noteq> []" .
  from pick_inputs_spec [OF pick] obtain sel where sub: "subseq sel (utxos_for_script s script)"
    and ins: "ins = map (\<lambda>(out, e). \<lparr> previous_output = out, signature_script = [] \<rparr>) sel"
    and mat: "\<forall>(out, e) \<in> set sel. mature_at p (height_or_0 s) e"
    and tot: "tot = foldl sat_add 0 (map (\<lambda>oe. value_atoms (entry_output (snd oe))) sel)" by auto
  note ws = wallet_signs [OF X w sg sc]
  have prev: "map previous_output (inputs tx') = map fst sel" using ws(1) by (simp add: tx payment_def Let_def ins comp_def case_prod_unfold)
  note f = selected_inputs [OF cf sub mat prev ws(3)]
  have "unat (carried dest) + unat MIN_RELAY_FEE_ATOMS < 2 ^ 64"
    using carried_small [OF r(2)] by (auto simp: MIN_RELAY_FEE_ATOMS_def ASSET_CARRIER_ATOMS_def)
  then have "extract_asset_op (payment X ins outs) = Some x \<and> sum_list (map (unat \<circ> value_atoms) outs) + unat MIN_RELAY_FEE_ATOMS = unat tot"
    using asset_tx_carries_op [OF fit _ out] by (simp add: carried_def)
  then have op: "extract_asset_op tx' = Some x" and sum: "output_value tx' + unat fee = unat tot"
    using ws(2) by (simp_all add: tx extract_asset_op_def payment_def Let_def output_value_def fee)
  have "output_value tx' + unat fee = min (input_value (utxo_lookup s) tx') (2 ^ 64 - 1)"
    using sum f(3) by (simp add: tot unat_foldl_sat comp_def)
  from covered_valid [OF f(1,2) this] have val: "validate_transaction X p (utxo_lookup s) (height_or_0 s) tx' = Ok fee" .
  have "inputs tx' \<noteq> []" using prev ne ins by auto
  then have "\<not> is_coinbase tx'" by (auto simp: is_coinbase_def)
  with valid_tx_sent [OF X(1) n1 rs sy send val _ pool] op show ?thesis by (simp add: fee)
qed


text \<open>A chain whose genesis block funds the wallet of one key, for the witness.\<close>

definition fund_ext :: ext where
  "fund_ext = peek_ext\<lparr> sk_from_slice := (\<lambda>b. if length b = 32 then Some b else None) \<rparr>"

lemma fund_laws: "digest_len fund_ext" "bech32_laws fund_ext" "hex_laws fund_ext" "sign_laws fund_ext"
proof -
  show "digest_len fund_ext" using peek_digest_len by (simp add: digest_len_def fund_ext_def)
  show "bech32_laws fund_ext" using demo_bech32_laws by (simp add: bech32_laws_def fund_ext_def peek_ext_def)
  show "hex_laws fund_ext" using demo_hex_laws by (simp add: hex_laws_def fund_ext_def peek_ext_def)
  show "sign_laws fund_ext" by (auto simp: sign_laws_def fund_ext_def peek_ext_def demo_ext_def)
qed

lemma fund_wallet: "\<exists>w. from_private_key_hex fund_ext (hex_string (replicate 32 9)) = Some (Ok w)"
proof -
  have "hex_decode fund_ext (hex_string (replicate 32 9)) = Some (replicate 32 9)" using fund_laws(3) by (simp add: hex_laws_def)
  moreover have "\<exists>a. bech32_encode fund_ext hrp d = Some a" for hrp d by (simp add: fund_ext_def peek_ext_def demo_ext_def)
  then have "\<exists>w. from_signing_key fund_ext sk = Some w" for sk
    by (auto simp: from_signing_key_def address_from_public_key_def Let_def split: option.splits)
  ultimately show ?thesis by (fastforce simp: from_private_key_hex_def fund_ext_def)
qed

definition fund_params :: "string \<Rightarrow> ConsensusParams" where
  "fund_params a = MAINNET\<lparr> initial_reward_atoms := 0, founder_allocation_atoms := 1000000, founder_address := a, coinbase_maturity_blocks := 0 \<rparr>"

definition fund_genesis :: "string \<Rightarrow> Block" where
  "fund_genesis a = sealed (candidate_block_for fund_ext (fund_params a) None 1000 ''genesis'' [] 0) 42 7"

definition fund_state :: "string \<Rightarrow> ChainState" where
  "fund_state a = install_tip fund_ext (fund_genesis a) new_state"

lemma fund_hash: "header_meets_work fund_ext h seed" "block_hash fund_ext b \<noteq> ZERO"
proof -
  have "header_meets_work fund_ext h seed = header_meets_work peek_ext h seed"
    by (simp add: header_meets_work_def pow_hash_def tensor_pow_hash_def Let_def fund_ext_def peek_ext_def)
  then show "header_meets_work fund_ext h seed" by simp
  have "block_hash fund_ext b = block_hash peek_ext b"
    by (simp add: block_hash_def header_hash_def double_sha256_def fund_ext_def)
  then show "block_hash fund_ext b \<noteq> ZERO" by simp
qed

lemma fund_init: "init_genesis_nonce fund_ext (fund_params a) 1000 7 new_state = Some (fund_state a, Ok (fund_genesis a))"
proof -
  have bits: "expected_leading_zero_bits_for new_state (fund_params a) None = Some 42"
    by (simp add: expected_leading_zero_bits_for_def next_height_def expected_leading_zero_bits_def fund_params_def mainnet_defs)
  have "validate_block fund_ext (fund_params a) None (fund_genesis a) 1000 42 seed = Ok ()" for seed
    unfolding fund_genesis_def by (rule sealed_validates) (simp_all add: fund_hash fund_params_def mainnet_defs)
  then show ?thesis
    by (simp add: init_genesis_nonce_def bits Let_def sealed_def [symmetric] fund_genesis_def [symmetric] fund_state_def fund_hash)
      (simp add: new_state_def)
qed

lemma fund_inv: "reachable fund_ext (fund_params a) (fund_state a)" "state_inv fund_ext (fund_params a) (fund_state a) [fund_genesis a]"
  using reachable.genesis_nonce [OF fund_init fund_hash(2)] init_genesis_nonce_inv [OF fund_laws(1) fund_init fund_hash(2)] by auto

lemma fund_txs:
  assumes "a \<noteq> []" and "p2pkh_from_address fund_ext a = Ok script"
  obtains t where "transactions (fund_genesis a) = [t]" "outputs t = [\<lparr> value_atoms = 1000000, script_pubkey = script \<rparr>]"
proof -
  have "reward_at_height (fund_params a) 0 = 0" by (simp add: reward_at_height_def Let_def fund_params_def)
  then show ?thesis using assms that
    by (simp add: fund_genesis_def sealed_def candidate_block_for_def Let_def next_height_def genesis_coinbase_def fund_params_def
        address_script_or_default_def mainnet_defs)
qed


lemma p2pkh_not_op_return: "p2pkh_from_address X a = Ok spk \<Longrightarrow> \<not> is_op_return spk"
  by (auto simp: p2pkh_from_address_def p2pkh_script_def is_op_return_def opcode_defs split: option.splits if_splits prod.splits)

lemma singleton_list: "set xs = {x} \<Longrightarrow> distinct xs \<Longrightarrow> xs = [x]"
  by (cases xs) (auto simp: subset_singleton_iff insert_eq_iff)

lemma fund_sync:
  assumes "a \<noteq> []" and "p2pkh_from_address fund_ext a = Ok script"
  obtains s op e where "ensure_utxo_synced fund_ext (fund_params a) (reopen (fund_state a)) = (s, Ok ())"
    and "height_or_0 s = 0" and "utxos_for_script s script = [(op, e)]" and "value_atoms (entry_output e) = 1000000" and "created_height e = 0"
proof -
  let ?p = "fund_params a" and ?g = "fund_genesis a"
  obtain t where t: "transactions ?g = [t]" "outputs t = [\<lparr> value_atoms = 1000000, script_pubkey = script \<rparr>]"
    using fund_txs [OF assms] .
  have h0: "height (header ?g) = 0" by (simp add: fund_genesis_def sealed_def candidate_header next_height_def)
  have "max_coinbase_atoms ?p 0 0 = 1000000"
    using assms(1) by (simp add: max_coinbase_atoms_def has_genesis_premint_def premint_atoms_def reward_at_height_def Let_def fund_params_def mainnet_defs)
  then have "apply_block fund_ext ?p [] ?g = Ok (apply_delta ?g [])"
    by (simp add: apply_block_def check_block_def t h0 total_output_atoms_def sat_sum_def)
  then have rep: "replay_utxo_from fund_ext ?p [] [?g] = Ok (apply_delta ?g [])" by simp
  obtain op e where ent: "created_entries ?g = [(op, e)]" and e: "entry_output e = \<lparr> value_atoms = 1000000, script_pubkey = script \<rparr>" "created_height e = 0"
    using t p2pkh_not_op_return [OF assms(2)] by (simp add: created_entries_def h0)
  have inv: "state_inv fund_ext ?p (reopen (fund_state a)) [?g]"
    using reopen_inv [OF fund_laws(1) fund_inv(2)] fund_inv(2) by simp
  obtain s r where sy: "ensure_utxo_synced fund_ext ?p (reopen (fund_state a)) = (s, r)" by fastforce
  note es = ensure_utxo_synced_inv [OF fund_laws(1) inv sy]
  have "r = Ok ()"
    using sy rep inv canonical_blocks_iter_chain [OF fund_laws(1) inv]
    by (auto simp: ensure_utxo_synced_def replay_utxo_def state_inv_def split: if_splits)
  with es rep have ui: "utxo_is s (apply_delta ?g [])" and um: "utxo_map_ok (apply_delta ?g [])" by (auto simp: synced_def)
  have um': "apply_delta ?g [] = [(op, e)]" by (simp add: apply_delta_def t ent)
  have cf: "utxo_cf_ok s"
    using reachable_cf_ok [OF fund_laws(1)] sync_reachable(1) [OF fund_laws(1) _ sy] reopen_reachable(1) [OF fund_laws(1) fund_inv(1)] by blast
  have ok: "outpoint_ok op" using um by (auto simp: um' utxo_map_ok_def)
  have "(o', e') \<in> set (utxos_for_script s script) \<longleftrightarrow> (o', e') = (op, e)" for o' e'
    unfolding utxos_for_script_exact(2) [OF cf] using ui ok e by (auto simp: utxo_is_def utxo_lookup_def um' split: if_splits)
  then have "set (utxos_for_script s script) = {(op, e)}" by auto
  moreover have "distinct (utxos_for_script s script)" using utxos_for_script_exact(1) [OF cf, of script] by (simp add: distinct_map)
  ultimately have "utxos_for_script s script = [(op, e)]" by (rule singleton_list)
  moreover have "height_or_0 s = 0" using es h0 by (simp add: height_or_0_def state_inv_def)
  ultimately show ?thesis using that sy \<open>r = Ok ()\<close> e by simp
qed

definition issue_env :: "string \<Rightarrow> rpc_env" where
  "issue_env a = admin_env\<lparr> request_from_json := (\<lambda>_. Ok (IssueRequest a ''AB'' 0 5 ''n'')) \<rparr>"

definition fund_node :: "string \<Rightarrow> Node" where
  "fund_node a = \<lparr> node_chain = fund_state a, node_pool = [], node_bans = [] \<rparr>"

definition sample_issue :: AssetOp where
  "sample_issue = Issue \<lparr> ticker = ''AB'', decimals = 0, issue_supply = 5, issue_name = ''n'', issue_flags = 0 \<rparr>"

lemma fund_build:
  assumes "a \<noteq> []" and "p2pkh_from_address fund_ext a = Ok script"
  shows "\<exists>n1 tx nm desc fee. rpc_buildAssetTx fund_ext (fund_params a) (issue_env a) [] (fund_node a)
    = Some (n1, [(200, AssetTxBody tx nm desc fee)], Ok ())"
proof -
  from fund_sync [OF assms] obtain s op e where sy: "ensure_utxo_synced fund_ext (fund_params a) (reopen (fund_state a)) = (s, Ok ())"
    and h: "height_or_0 s = 0" and us: "utxos_for_script s script = [(op, e)]" and e: "value_atoms (entry_output e) = 1000000" "created_height e = 0" .
  have m: "mature_at (fund_params a) 0 e" by (simp add: mature_at_def e fund_params_def)
  have "\<exists>outs. build_outputs fund_ext sample_issue None a 1000000 10000 = Ok outs" using assms(2) by (simp add: build_outputs_def)
  then show ?thesis using m e
    by (auto simp: rpc_buildAssetTx_def issue_env_def admin_env_def asset_request_def sample_issue_def rpc_synced_def rpc_state_def
        load_state_def fund_node_def sy h us assms(2) MIN_RELAY_FEE_ATOMS_def reply_def Let_def)
qed

lemma fund_node_inv: "node_inv fund_ext (fund_params a) (fund_node a)"
  using fund_inv by (simp add: node_inv_def fund_node_def bans_ok_def)

theorem built_asset_tx_accepted_witness:
  "\<exists>a n1 env tx nm desc tx' n2 k fee. rpc_buildAssetTx fund_ext (fund_params a) (issue_env a) [] (fund_node a)
      = Some (n1, [(200, AssetTxBody tx nm desc fee)], Ok ())
    \<and> extract_asset_op tx' = Some sample_issue
    \<and> rpc_sendrawtransaction fund_ext (fund_params a) env [] n1 = Some (n2, [(200, PendingBody (tx_id tx') k)], Ok ())"
proof -
  obtain w where w: "from_private_key_hex fund_ext (hex_string (replicate 32 9)) = Some (Ok w)" using fund_wallet by blast
  from wallet_unlocks [OF fund_laws w] obtain script where script: "p2pkh_from_address fund_ext (address w) = Ok script" by blast
  have ss: "\<exists>sg. wallet_script_sig fund_ext w tx = Ok sg" for tx using wallet_unlocks [OF fund_laws w] by blast
  let ?a = "address w"
  have ne: "?a \<noteq> []" using script by (auto simp: p2pkh_from_address_def fund_ext_def peek_ext_def demo_ext_def demo_decode_def)
  from fund_build [OF ne script] obtain n1 tx nm desc fee where
    b: "rpc_buildAssetTx fund_ext (fund_params ?a) (issue_env ?a) [] (fund_node ?a) = Some (n1, [(200, AssetTxBody tx nm desc fee)], Ok ())" by blast
  obtain tx' where sg: "sign_transaction fund_ext w tx = Ok tx'" using ss [of tx] by (auto simp: sign_transaction_def)
  have req: "request_from_json (issue_env ?a) [] = Ok (IssueRequest ?a ''AB'' 0 5 ''n'')"
    "asset_request fund_ext (issue_env ?a) (IssueRequest ?a ''AB'' 0 5 ''n'') = Ok (?a, sample_issue, None)"
    by (simp_all add: issue_env_def asset_request_def sample_issue_def)
  have fit: "op_typed sample_issue" "royalty_ok sample_issue" "fields_fit sample_issue"
    by (auto simp: sample_issue_def str_bytes_def intro!: utf8_valid_ascii)
  let ?env = "admin_env\<lparr> tx_from_json := (\<lambda>_. Ok tx') \<rparr>"
  from built_asset_tx_accepted [OF fund_laws w fund_node_inv req b fit sg, of ?env "[]"]
  have "extract_asset_op tx' = Some sample_issue \<and> (\<exists>n2 k. rpc_sendrawtransaction fund_ext (fund_params ?a) ?env [] n1
      = Some (n2, [(200, PendingBody (tx_id tx') k)], Ok ()))"
    by (auto simp: fund_node_def admin_env_def pool_takes_def conflicts_with_pending_def MAX_MEMPOOL_TXS_def)
  with b show ?thesis by blast
qed

end
