(* ===== verification/Wallet_Payments.thy ===== *)
theory Wallet_Payments
  imports Wallet_Safety Asset_Payments
begin

text \<open>
  The wallet and the node together: what the wallet builds from the node's answer to \<open>/getutxos\<close>
  is accepted by \<open>/sendrawtransaction\<close>. A row of the answer is read back by the wallet as \<open>rpc_utxo\<close>.
\<close>

section \<open>Coins\<close>

definition rpc_utxo :: "utxo_row \<Rightarrow> RpcUtxo" where
  "rpc_utxo row = \<lparr> txid_bytes = hash_bytes (op_txid (row_outpoint row)), ru_index = output_index (row_outpoint row),
     ru_value = row_value row, mature = row_mature row \<rparr>"

abbreviation listed :: "ext \<Rightarrow> ConsensusParams \<Rightarrow> u64 \<Rightarrow> OutPoint \<times> UtxoEntry \<Rightarrow> RpcUtxo" where
  "listed X p h oe \<equiv> rpc_utxo (utxo_row_of X p h oe)"

lemma listed_fields [simp]:
  "mature (listed X p h oe) = mature_at p h (snd oe)" "ru_value (listed X p h oe) = value_atoms (entry_output (snd oe))"
  "utxo_point (listed X p h oe) = fst oe" "txid_bytes (listed X p h oe) = hash_bytes (op_txid (fst oe))"
  by (simp_all add: rpc_utxo_def utxo_row_of_def utxo_point_def split: prod.splits)

lemma pick_mature_spec:
  assumes "\<forall>oe \<in> set us. length (hash_bytes (op_txid (fst oe))) = 32"
  shows "\<exists>sel tot. pick_mature bad needed (map (listed X p h) us) ops acc = Ok (ops @ map fst sel, tot) \<and> subseq sel us
    \<and> (\<forall>(out, e) \<in> set sel. mature_at p h e) \<and> tot = foldl sat_add acc (map (\<lambda>oe. value_atoms (entry_output (snd oe))) sel)
    \<and> (needed \<le> tot \<or> sel = filter (\<lambda>oe. mature_at p h (snd oe)) us)"
  using assms
proof (induction us arbitrary: ops acc)
  case Nil
  show ?case by (intro exI [of _ "[]"]) simp
next
  case (Cons oe us)
  let ?acc = "sat_add acc (value_atoms (entry_output (snd oe)))"
  show ?case
  proof (cases "mature_at p h (snd oe)")
    case False
    with Cons show ?thesis by (simp add: subseq_Cons') blast
  next
    case mat: True
    show ?thesis
    proof (cases "needed \<le> ?acc")
      case True
      with mat Cons.prems show ?thesis by (intro exI [of _ "[oe]"] exI [of _ ?acc]) (auto simp: Let_def)
    next
      case False
      from Cons.IH [of "ops @ [fst oe]" ?acc] Cons.prems obtain sel tot where
        "pick_mature bad needed (map (listed X p h) us) (ops @ [fst oe]) ?acc = Ok ((ops @ [fst oe]) @ map fst sel, tot)" "subseq sel us"
        "\<forall>(out, e) \<in> set sel. mature_at p h e" "tot = foldl sat_add ?acc (map (\<lambda>oe. value_atoms (entry_output (snd oe))) sel)"
        "needed \<le> tot \<or> sel = filter (\<lambda>oe. mature_at p h (snd oe)) us" by auto
      with mat False Cons.prems show ?thesis by (intro exI [of _ "oe # sel"] exI [of _ tot]) (auto simp: Let_def)
    qed
  qed
qed

section \<open>Funding\<close>

lemma trim_param: "a \<noteq> [] \<Longrightarrow> hd a \<noteq> CHR ''/'' \<Longrightarrow> trim_start_matches ''/getutxos/'' (''/getutxos/'' @ a) = a"
  by (cases a) (simp_all add: trim_start_matches.simps)

lemma mature_values:
  "sum_list (map (unat \<circ> row_value) (filter row_mature (map (utxo_row_of X p h) us)))
    = sum_list (map (\<lambda>oe. unat (value_atoms (entry_output (snd oe)))) (filter (\<lambda>oe. mature_at p h (snd oe)) us))"
  by (induction us) (auto simp: utxo_row_of_def)

lemma wallet_can_sign:
  assumes "digest_len X" "bech32_laws X" "hex_laws X" "sign_laws X" and "from_private_key_hex X kh = Some (Ok k)"
  shows "\<exists>tx'. sign_transaction X k tx = Ok tx'"
proof -
  from wallet_unlocks [OF assms] obtain sg where "wallet_script_sig X k tx = Ok sg" by blast
  then show ?thesis by (simp add: sign_transaction_def)
qed

text \<open>The node's answer for the address of a wallet, and the wallet's request for it.\<close>

definition lists_coins ::
  "ext \<Rightarrow> ConsensusParams \<Rightarrow> wallet_env \<Rightarrow> string \<Rightarrow> rpc_env \<Rightarrow> Node \<Rightarrow> string \<Rightarrow> Node \<Rightarrow> utxo_row list \<Rightarrow> bool" where
  "lists_coins X p E rpc env n param n1 rows \<longleftrightarrow>
     (\<exists>a h. rpc_getutxos X p env (''/getutxos/'' @ param) n = Some (n1, [(200, UtxosBody a h rows)], Ok ()))
     \<and> http_get E (normalize_rpc_url rpc @ ''/getutxos/'' @ param) = Ok (UtxosDoc (map rpc_utxo rows))"

lemma lists_coinsD:
  assumes X: "digest_len X" and n: "node_inv X p n" and ans: "lists_coins X p E rpc env n param n1 rows"
    and par: "param \<noteq> []" "hd param \<noteq> CHR ''/''"
  obtains s script where "param_script X param = Some script" and "n1 = n\<lparr> node_chain := s \<rparr>" and "reachable X p s" and "utxo_cf_ok s"
    and "read_meta_utxo_tip s = Some (tip_hash X s)" and "rows = map (utxo_row_of X p (height_or_0 s)) (utxos_for_script s script)"
    and "get_utxos E rpc param = Ok (map (listed X p (height_or_0 s)) (utxos_for_script s script))"
    and "\<forall>oe \<in> set (utxos_for_script s script). length (hash_bytes (op_txid (fst oe))) = 32"
proof -
  from ans obtain a h where g: "rpc_getutxos X p env (''/getutxos/'' @ param) n = Some (n1, [(200, UtxosBody a h rows)], Ok ())"
    and get: "http_get E (normalize_rpc_url rpc @ ''/getutxos/'' @ param) = Ok (UtxosDoc (map rpc_utxo rows))" unfolding lists_coins_def by blast
  from getutxos_answer [OF X n g] obtain s script where
    a: "param_script X a = Some script" "a = trim_start_matches ''/getutxos/'' (''/getutxos/'' @ param)"
    and s: "n1 = n\<lparr> node_chain := s \<rparr>" "reachable X p s" "utxo_cf_ok s" "read_meta_utxo_tip s = Some (tip_hash X s)"
    and h: "h = height_or_0 s" "rows = map (utxo_row_of X p h) (utxos_for_script s script)" .
  have "a = param" unfolding a(2) by (rule trim_param [OF par])
  moreover have "get_utxos E rpc param = Ok (map (listed X p (height_or_0 s)) (utxos_for_script s script))"
    unfolding get_utxos_def rpc_get_def Let_def get by (simp add: h comp_def)
  moreover have "\<forall>oe \<in> set (utxos_for_script s script). length (hash_bytes (op_txid (fst oe))) = 32"
    using utxos_for_script_exact(2) [OF s(3)] by (auto simp: outpoint_ok_def hash_ok_def)
  ultimately show ?thesis using that a(1) s h by blast
qed

text \<open>
  A wallet with enough mature coins: the selection succeeds, and whatever outputs the wallet then
  writes, if they leave exactly the fee, the signed transaction is valid.
\<close>

lemma wallet_funds:
  assumes X: "digest_len X" "bech32_laws X" "hex_laws X" "sign_laws X" and k: "from_private_key_hex X kh = Some (Ok k)"
    and addr: "starts_with ''txm1'' (address k)" and n: "node_inv X p n" and ans: "lists_coins X p E rpc env n (address k) n1 rows"
    and pos: "0 < unat needed" and enough: "unat needed \<le> sum_list (map (unat \<circ> row_value) (filter row_mature rows))"
  obtains s us ops tot own where "n1 = n\<lparr> node_chain := s \<rparr>" and "reachable X p s" and "read_meta_utxo_tip s = Some (tip_hash X s)"
    and "get_utxos E rpc (address k) = Ok us" and "pick_mature bad needed us [] 0 = Ok (ops, tot)" and "needed \<le> tot"
    and "p2pkh_from_address X (address k) = Ok own"
    and "\<forall>outs fee. sum_list (map (unat \<circ> value_atoms) outs) + unat fee = unat tot \<longrightarrow>
      (\<exists>tx. sign_all X k (payment X (map blank_input ops) outs) = Ok tx \<and> outputs tx = outs \<and> \<not> is_coinbase tx
        \<and> validate_transaction X p (utxo_lookup s) (height_or_0 s) tx = Ok fee)"
proof -
  have par: "address k \<noteq> []" "hd (address k) \<noteq> CHR ''/''" using addr by (auto simp: starts_with_iff)
  from lists_coinsD [OF X(1) n ans par] obtain s script where sc: "param_script X (address k) = Some script" and n1: "n1 = n\<lparr> node_chain := s \<rparr>"
    and s: "reachable X p s" "utxo_cf_ok s" "read_meta_utxo_tip s = Some (tip_hash X s)"
    and rows: "rows = map (utxo_row_of X p (height_or_0 s)) (utxos_for_script s script)"
    and get: "get_utxos E rpc (address k) = Ok (map (listed X p (height_or_0 s)) (utxos_for_script s script))"
    and l32: "\<forall>oe \<in> set (utxos_for_script s script). length (hash_bytes (op_txid (fst oe))) = 32" .
  have own: "p2pkh_from_address X (address k) = Ok script" using sc addr by (auto simp: param_script_def split: sum.splits)
  let ?v = "\<lambda>oe. value_atoms (entry_output (snd oe))"
  from pick_mature_spec [OF l32, of bad needed X p "height_or_0 s" "[]" 0] obtain sel tot where
    pick: "pick_mature bad needed (map (listed X p (height_or_0 s)) (utxos_for_script s script)) [] 0 = Ok (map fst sel, tot)"
    and sub: "subseq sel (utxos_for_script s script)" and mat: "\<forall>(out, e) \<in> set sel. mature_at p (height_or_0 s) e"
    and tot: "tot = foldl sat_add 0 (map ?v sel)"
    and all: "needed \<le> tot \<or> sel = filter (\<lambda>oe. mature_at p (height_or_0 s) (snd oe)) (utxos_for_script s script)" by auto
  have ut: "unat tot = min (sum_list (map (\<lambda>oe. unat (?v oe)) sel)) (2 ^ 64 - 1)" by (simp add: tot unat_foldl_sat comp_def)
  have le: "needed \<le> tot"
  proof (cases "needed \<le> tot")
    case False
    with all enough have "unat needed \<le> sum_list (map (\<lambda>oe. unat (?v oe)) sel)" by (simp add: rows mature_values)
    with ut unat_u64_lt [of needed] show ?thesis by (simp add: word_le_nat_alt)
  qed
  have ne: "sel \<noteq> []"
  proof
    assume "sel = []"
    with le pos tot show False by simp
  qed
  have "\<exists>tx. sign_all X k (payment X (map blank_input (map fst sel)) outs) = Ok tx \<and> outputs tx = outs \<and> \<not> is_coinbase tx
      \<and> validate_transaction X p (utxo_lookup s) (height_or_0 s) tx = Ok fee"
    if sum: "sum_list (map (unat \<circ> value_atoms) outs) + unat fee = unat tot" for outs fee
  proof -
    let ?t = "payment X (map blank_input (map fst sel)) outs"
    obtain tx where sg: "sign_transaction X k ?t = Ok tx" using wallet_can_sign [OF X k] by blast
    note ws = wallet_signs [OF X k sg own]
    have prev: "map previous_output (inputs tx) = map fst sel" using ws(1) by (simp add: payment_def Let_def blank_input_def comp_def)
    note f = selected_inputs [OF s(2) sub mat prev ws(3)]
    have o: "outputs tx = outs" using ws(2) by (simp add: payment_def Let_def)
    have "output_value tx + unat fee = min (input_value (utxo_lookup s) tx) (2 ^ 64 - 1)"
      using sum f(3) ut by (simp add: output_value_def o)
    from covered_valid [OF f(1,2) this] have "validate_transaction X p (utxo_lookup s) (height_or_0 s) tx = Ok fee" .
    moreover have "\<not> is_coinbase tx" using prev ne by (auto simp: is_coinbase_def)
    ultimately show ?thesis using o sg by (simp add: sign_all_def map_err_def)
  qed
  with that n1 s get pick le own show ?thesis by blast
qed

section \<open>Payments\<close>

lemma change_covers:
  fixes amt fee sel :: u64
  assumes "sat_add amt fee \<le> sel" and "unat amt + unat fee < 2 ^ 64"
  shows "unat amt + unat (sel - amt - fee) + unat fee = unat sel"
proof -
  have "unat (sat_add amt fee) = unat amt + unat fee" using assms(2) by (simp add: unat_sat_add)
  with assms(1) have le: "unat amt + unat fee \<le> unat sel" by (simp add: word_le_nat_alt)
  then have a: "unat (sel - amt) = unat sel - unat amt" by (simp add: unat_sub_if')
  then have "unat (sel - amt - fee) = unat sel - unat amt - unat fee" using le by (simp add: unat_sub_if')
  with le show ?thesis by linarith
qed

lemma payment_outputs_sum:
  assumes "payment_outputs X a to_addr amt fee sel = Ok outs" and "sat_add amt fee \<le> sel" and "unat amt + unat fee < 2 ^ 64"
  shows "sum_list (map (unat \<circ> value_atoms) outs) + unat fee = unat sel"
  using assms(1) change_covers [OF assms(2,3)] by (auto simp: payment_outputs_def Let_def res_bind_Ok_iff word_gt_0 split: if_splits)

text \<open>The payment the wallet builds is valid, and it spends the first mature coin of the answer.\<close>

lemma pick_mature_first:
  "pick_mature bad need us sel acc = Ok (ops, tot) \<Longrightarrow>
    set sel \<subseteq> set ops \<and> (filter mature us \<noteq> [] \<longrightarrow> utxo_point (hd (filter mature us)) \<in> set ops)"
  by (induction us arbitrary: sel acc) (fastforce simp: Let_def split: if_splits)+

lemma payment_built:
  assumes X: "digest_len X" "bech32_laws X" "hex_laws X" "sign_laws X" and k: "from_private_key_hex X kh = Some (Ok k)"
    and addr: "starts_with ''txm1'' (address k)" "wf_address w = address k" and n: "node_inv X p n"
    and ans: "lists_coins X p E rpc env n (address k) n1 rows"
    and amt: "unat amt + unat fee < 2 ^ 64" "MIN_RELAY_FEE_ATOMS \<le> fee"
      "unat amt + unat fee \<le> sum_list (map (unat \<circ> row_value) (filter row_mature rows))"
    and to_ok: "p2pkh_from_address X to_addr = Ok spk"
  shows "\<exists>s tx. n1 = n\<lparr> node_chain := s \<rparr> \<and> reachable X p s \<and> read_meta_utxo_tip s = Some (tip_hash X s)
    \<and> build_signed_payment_via_rpc X E w k rpc to_addr amt fee = Ok tx
    \<and> hd (outputs tx) = \<lparr> value_atoms = amt, script_pubkey = spk \<rparr> \<and> \<not> is_coinbase tx
    \<and> validate_transaction X p (utxo_lookup s) (height_or_0 s) tx = Ok fee
    \<and> utxo_point (hd (filter mature (map rpc_utxo rows))) \<in> previous_output ` set (inputs tx)"
proof -
  let ?need = "sat_add amt fee"
  have need: "unat ?need = unat amt + unat fee" using amt(1) by (simp add: unat_sat_add)
  then have pos: "0 < unat ?need" using amt(2) by (simp add: word_le_nat_alt MIN_RELAY_FEE_ATOMS_def)
  have enough: "unat ?need \<le> sum_list (map (unat \<circ> row_value) (filter row_mature rows))" using need amt(3) by simp
  from wallet_funds [OF X k addr(1) n ans pos enough, of "''invalid txid length from RPC''"] obtain s us ops tot own where
    n1: "n1 = n\<lparr> node_chain := s \<rparr>" "reachable X p s" "read_meta_utxo_tip s = Some (tip_hash X s)"
    and get: "get_utxos E rpc (address k) = Ok us" and pick: "pick_mature ''invalid txid length from RPC'' ?need us [] 0 = Ok (ops, tot)"
    and le: "?need \<le> tot" and own: "p2pkh_from_address X (address k) = Ok own"
    and valid: "\<forall>outs fee. sum_list (map (unat \<circ> value_atoms) outs) + unat fee = unat tot \<longrightarrow>
      (\<exists>tx. sign_all X k (payment X (map blank_input ops) outs) = Ok tx \<and> outputs tx = outs \<and> \<not> is_coinbase tx
        \<and> validate_transaction X p (utxo_lookup s) (height_or_0 s) tx = Ok fee)" .
  obtain rest where out: "payment_outputs X (address k) to_addr amt fee tot = Ok (\<lparr> value_atoms = amt, script_pubkey = spk \<rparr> # rest)"
    using to_ok own by (cases "0 < tot - amt - fee") (auto simp: payment_outputs_def Let_def map_err_def)
  from valid [rule_format, OF payment_outputs_sum [OF out le amt(1)]] obtain tx where
    sg: "sign_all X k (payment X (map blank_input ops) (\<lparr> value_atoms = amt, script_pubkey = spk \<rparr> # rest)) = Ok tx"
    and tx: "outputs tx = \<lparr> value_atoms = amt, script_pubkey = spk \<rparr> # rest" "\<not> is_coinbase tx"
      "validate_transaction X p (utxo_lookup s) (height_or_0 s) tx = Ok fee" by blast
  have "\<not> tot < ?need" using le by simp
  then have "build_signed_payment_via_rpc X E w k rpc to_addr amt fee = Ok tx"
    by (simp add: build_signed_payment_via_rpc_def addr(2) get pick out sg Let_def)
  moreover have "us = map rpc_utxo rows" using get ans by (simp add: lists_coins_def get_utxos_def rpc_get_def)
  moreover have "filter mature (map rpc_utxo rows) \<noteq> []"
    using enough pos by (auto simp: filter_map rpc_utxo_def comp_def)
  moreover have "map previous_output (inputs tx) = ops"
  proof -
    let ?t = "payment X (map blank_input ops) (\<lparr> value_atoms = amt, script_pubkey = spk \<rparr> # rest)"
    have "sign_transaction X k ?t = Ok tx" using sg by (cases "sign_transaction X k ?t") (auto simp: sign_all_def map_err_def)
    from wallet_signs(1) [OF X k this own] show ?thesis by (simp add: payment_def Let_def blank_input_def comp_def)
  qed
  then have "previous_output ` set (inputs tx) = set ops" by (metis set_map)
  ultimately show ?thesis using tx n1 pick_mature_first [OF pick] by auto
qed

text \<open>
  C16. A payment works end to end: when the node's answer to \<open>/getutxos\<close> shows mature coins worth the
  amount and the fee, \<open>send\<close> builds a transaction whose first output is the amount to the recipient, and
  \<open>/sendrawtransaction\<close> of the same node accepts it with exactly that fee, provided the mempool has room
  for it and no conflicting transaction. The wallet never overspends, whatever the order of the coins.
\<close>

theorem wallet_payment_accepted:
  assumes X: "digest_len X" "bech32_laws X" "hex_laws X" "sign_laws X" and k: "from_private_key_hex X kh = Some (Ok k)"
    and addr: "starts_with ''txm1'' (address k)" "wf_address w = address k" and n: "node_inv X p n"
    and ans: "lists_coins X p E rpc env n (address k) n1 rows"
    and amt: "unat amt + unat fee < 2 ^ 64" "MIN_RELAY_FEE_ATOMS \<le> fee"
      "unat amt + unat fee \<le> sum_list (map (unat \<circ> row_value) (filter row_mature rows))"
    and to_ok: "p2pkh_from_address X to_addr = Ok spk"
  shows "\<exists>tx. build_signed_payment_via_rpc X E w k rpc to_addr amt fee = Ok tx
    \<and> hd (outputs tx) = \<lparr> value_atoms = amt, script_pubkey = spk \<rparr>
    \<and> (\<forall>env2 body. tx_from_json env2 body = Ok tx \<and> rpc_lock env2 = None \<and> pool_takes X (node_pool n) tx \<longrightarrow>
        (\<exists>n2 m. rpc_sendrawtransaction X p env2 body n1 = Some (n2, [(200, PendingBody (tx_id tx) m)], Ok ())
          \<and> hm_get (node_pool n2) (to_hex X (tx_id tx)) = Some \<lparr> entry_tx = tx, fee_atoms = fee \<rparr>))"
  using payment_built [OF assms] valid_tx_sent [OF X(1) _ _ _ _ _ _ amt(2)] by metis

text \<open>The node of \<open>fund_node\<close> lists the coin of its genesis block, for the witnesses.\<close>

lemma fund_address: "from_private_key_hex fund_ext h = Some (Ok k) \<Longrightarrow> starts_with ''txm1'' (address k)"
  by (auto simp: from_private_key_hex_def from_signing_key_def address_from_public_key_def Let_def ADDRESS_HRP_def
      fund_ext_def peek_ext_def demo_ext_def starts_with_iff split: option.splits if_splits)

lemma fund_rows:
  assumes "starts_with ''txm1'' a" and "p2pkh_from_address fund_ext a = Ok script"
  obtains n1 rows where "rpc_getutxos fund_ext (fund_params a) admin_env (''/getutxos/'' @ a) (fund_node a) = Some (n1, [(200, UtxosBody a 0 rows)], Ok ())"
    and "sum_list (map (unat \<circ> row_value) (filter row_mature rows)) = 1000000"
proof -
  have a: "a \<noteq> []" "hd a \<noteq> CHR ''/''" using assms(1) by (auto simp: starts_with_iff)
  from fund_sync [OF a(1) assms(2)] obtain s op e where sy: "ensure_utxo_synced fund_ext (fund_params a) (reopen (fund_state a)) = (s, Ok ())"
    and h: "height_or_0 s = 0" and us: "utxos_for_script s script = [(op, e)]" and e: "value_atoms (entry_output e) = 1000000" "created_height e = 0" .
  let ?rows = "[utxo_row_of fund_ext (fund_params a) 0 (op, e)]"
  have "rpc_getutxos fund_ext (fund_params a) admin_env (''/getutxos/'' @ a) (fund_node a)
      = Some ((fund_node a)\<lparr> node_chain := s \<rparr>, [(200, UtxosBody a 0 ?rows)], Ok ())"
    unfolding rpc_getutxos_def trim_param [OF a] using assms a(1)
    by (simp add: rpc_synced_def rpc_state_def load_state_def admin_env_def fund_node_def sy h us reply_def)
  moreover have "mature_at (fund_params a) 0 e" by (simp add: mature_at_def e fund_params_def)
  then have "sum_list (map (unat \<circ> row_value) (filter row_mature ?rows)) = 1000000" by (simp add: utxo_row_of_def e)
  ultimately show ?thesis by (rule that)
qed

definition paying_env :: "utxo_row list \<Rightarrow> wallet_env" where
  "paying_env rows = demo_wallet_env\<lparr> http_get := (\<lambda>_. Ok (UtxosDoc (map rpc_utxo rows))) \<rparr>"

lemma fund_answers:
  assumes "rpc_getutxos fund_ext p env (''/getutxos/'' @ a) n = Some (n1, [(200, UtxosBody a h rows)], Ok ())"
  shows "lists_coins fund_ext p (paying_env rows) rpc env n a n1 rows"
  using assms by (auto simp: lists_coins_def paying_env_def)

lemma some_wallet_file: "\<exists>w :: WalletFile. wf_address w = a \<and> wf_public_key_hex w = h"
  by (metis WalletFile.select_convs(2,3))

theorem wallet_payment_accepted_witness:
  "\<exists>k (w :: WalletFile) a n1 rows tx env n2 m. wf_address w = address k \<and> a = address k
    \<and> build_signed_payment_via_rpc fund_ext (paying_env rows) w k DEFAULT_RPC a 500000 10000 = Ok tx
    \<and> value_atoms (hd (outputs tx)) = 500000
    \<and> rpc_sendrawtransaction fund_ext (fund_params a) env [] n1 = Some (n2, [(200, PendingBody (tx_id tx) m)], Ok ())"
proof -
  obtain k where k: "from_private_key_hex fund_ext (hex_string (replicate 32 9)) = Some (Ok k)" using fund_wallet by blast
  note pre = fund_address [OF k]
  from wallet_unlocks [OF fund_laws k] obtain script where script: "p2pkh_from_address fund_ext (address k) = Ok script" by blast
  let ?a = "address k"
  from fund_rows [OF pre script] obtain n1 rows where
    list: "rpc_getutxos fund_ext (fund_params ?a) admin_env (''/getutxos/'' @ ?a) (fund_node ?a) = Some (n1, [(200, UtxosBody ?a 0 rows)], Ok ())"
    and coins: "sum_list (map (unat \<circ> row_value) (filter row_mature rows)) = 1000000" .
  obtain w :: WalletFile where w: "wf_address w = ?a" using some_wallet_file by blast
  have amt: "unat (500000 :: u64) + unat (10000 :: u64) < 2 ^ 64" "MIN_RELAY_FEE_ATOMS \<le> 10000"
    "unat (500000 :: u64) + unat (10000 :: u64) \<le> sum_list (map (unat \<circ> row_value) (filter row_mature rows))"
    unfolding coins by (simp_all add: MIN_RELAY_FEE_ATOMS_def)
  from wallet_payment_accepted [OF fund_laws k pre w fund_node_inv fund_answers [OF list] amt script, of DEFAULT_RPC] obtain tx where
    tx: "build_signed_payment_via_rpc fund_ext (paying_env rows) w k DEFAULT_RPC ?a 500000 10000 = Ok tx"
      "hd (outputs tx) = \<lparr> value_atoms = 500000, script_pubkey = script \<rparr>"
    and send: "\<forall>env2 body. tx_from_json env2 body = Ok tx \<and> rpc_lock env2 = None \<and> pool_takes fund_ext (node_pool (fund_node ?a)) tx \<longrightarrow>
      (\<exists>n2 m. rpc_sendrawtransaction fund_ext (fund_params ?a) env2 body n1 = Some (n2, [(200, PendingBody (tx_id tx) m)], Ok ())
        \<and> hm_get (node_pool n2) (to_hex fund_ext (tx_id tx)) = Some \<lparr> entry_tx = tx, fee_atoms = 10000 \<rparr>)" by blast
  let ?env = "admin_env\<lparr> tx_from_json := (\<lambda>_. Ok tx) \<rparr>"
  have "tx_from_json ?env [] = Ok tx \<and> rpc_lock ?env = None \<and> pool_takes fund_ext (node_pool (fund_node ?a)) tx"
    by (simp add: admin_env_def fund_node_def pool_takes_def conflicts_with_pending_def MAX_MEMPOOL_TXS_def)
  with send have "\<exists>n2 m. rpc_sendrawtransaction fund_ext (fund_params ?a) ?env [] n1 = Some (n2, [(200, PendingBody (tx_id tx) m)], Ok ())" by blast
  with tx w show ?thesis by (metis TxOutput.select_convs(1))
qed

end
