(* ===== verification/Locked_Coins.thy ===== *)
theory Locked_Coins
  imports Wallet_Payments
begin

text \<open>
  A chain whose second block locks the coin of its genesis block to a given script, and what its node
  lists for that script: the concrete state on which the theorems about claims are exercised.
\<close>

section \<open>Listing one coin\<close>

text \<open>If exactly one unspent output pays to a script, the node lists it and nothing else.\<close>

lemma sync_lists:
  assumes X: "digest_len X" and r: "reachable X p s" and inv: "state_inv X p s chain"
    and rep: "replay_utxo_from X p [] chain = Ok uset"
    and one: "\<And>op' e'. hm_get uset op' = Some e' \<and> script_pubkey (entry_output e') = script \<longleftrightarrow> (op', e') = (op, e)"
  obtains s' where "ensure_utxo_synced X p (reopen s) = (s', Ok ())" and "height_or_0 s' = height (header (last chain))"
    and "utxos_for_script s' script = [(op, e)]"
proof -
  have ro: "reachable X p (reopen s)" "state_inv X p (reopen s) chain"
    using reopen_reachable(1) [OF X r] reopen_inv [OF X inv] inv by simp_all
  obtain s' res where sy: "ensure_utxo_synced X p (reopen s) = (s', res)" by fastforce
  note es = ensure_utxo_synced_inv [OF X ro(2) sy]
  have res: "res = Ok ()"
    using sy rep ro(2) canonical_blocks_iter_chain [OF X ro(2)]
    by (auto simp: ensure_utxo_synced_def replay_utxo_def state_inv_def split: if_splits)
  with es rep have ui: "utxo_is s' uset" "utxo_map_ok uset" by (auto simp: synced_def)
  have cf: "utxo_cf_ok s'" using reachable_cf_ok [OF X] sync_reachable(1) [OF X ro(1) sy] by blast
  have ok: "outpoint_ok op'" if "hm_get uset op' = Some e'" for op' e' using ui(2) that unfolding utxo_map_ok_def by blast
  have "(op', e') \<in> set (utxos_for_script s' script) \<longleftrightarrow> (op', e') = (op, e)" for op' e'
    unfolding utxos_for_script_exact(2) [OF cf] using ui(1) ok one [of op' e'] one [of op e] by (auto simp: utxo_is_def utxo_lookup_def)
  then have "set (utxos_for_script s' script) = {(op, e)}" by auto
  moreover have "distinct (utxos_for_script s' script)" using utxos_for_script_exact(1) [OF cf, of script] by (simp add: distinct_map)
  ultimately have "utxos_for_script s' script = [(op, e)]" by (rule singleton_list)
  moreover have "height_or_0 s' = height (header (last chain))" using es by (simp add: height_or_0_def state_inv_def)
  ultimately show ?thesis using that sy res by simp
qed

section \<open>The funded chain and its second block\<close>

lemma fund_replay:
  assumes "a \<noteq> []" and "p2pkh_from_address fund_ext a = Ok script"
  obtains op e where "replay_utxo_from fund_ext (fund_params a) [] [fund_genesis a] = Ok [(op, e)]"
    and "entry_output e = \<lparr> value_atoms = 1000000, script_pubkey = script \<rparr>" and "created_height e = 0"
proof -
  let ?p = "fund_params a" and ?g = "fund_genesis a"
  obtain t where t: "transactions ?g = [t]" "outputs t = [\<lparr> value_atoms = 1000000, script_pubkey = script \<rparr>]" using fund_txs [OF assms] .
  have h0: "height (header ?g) = 0" by (simp add: fund_genesis_def sealed_def candidate_header next_height_def)
  have "max_coinbase_atoms ?p 0 0 = 1000000"
    using assms(1) by (simp add: max_coinbase_atoms_def has_genesis_premint_def premint_atoms_def reward_at_height_def Let_def fund_params_def mainnet_defs)
  then have ap: "apply_block fund_ext ?p [] ?g = Ok (apply_delta ?g [])"
    by (simp add: apply_block_def check_block_def t h0 total_output_atoms_def sat_sum_def)
  obtain op e where ent: "created_entries ?g = [(op, e)]" and e: "entry_output e = \<lparr> value_atoms = 1000000, script_pubkey = script \<rparr>" "created_height e = 0"
    using t p2pkh_not_op_return [OF assms(2)] by (simp add: created_entries_def h0)
  have "apply_delta ?g [] = [(op, e)]" by (simp add: apply_delta_def t ent)
  with that ap e show ?thesis by simp
qed

lemma fund_header:
  "chain_id (header (fund_genesis a)) = ''tensorium-mainnet''" "height (header (fund_genesis a)) = 0"
  "leading_zero_bits (header (fund_genesis a)) = 42"
  by (simp_all add: fund_genesis_def sealed_def candidate_header next_height_def) (simp add: fund_params_def mainnet_defs)

lemma fund_hash_eq: "block_hash fund_ext b = block_hash peek_ext b"
  by (simp add: block_hash_def header_hash_def double_sha256_def fund_ext_def)

lemma fund_bits: "expected_leading_zero_bits_for s (fund_params a) (Some (fund_genesis a)) = Some 42"
  by (simp add: expected_leading_zero_bits_for_def next_height_def expected_leading_zero_bits_def fund_header)
    (simp add: expected_leading_zero_bits_def fund_params_def mainnet_defs)

text \<open>The block that carries one transaction on top of the funded genesis block.\<close>

definition lock_block :: "string \<Rightarrow> Transaction \<Rightarrow> Block" where
  "lock_block a tx = sealed (candidate_block_for fund_ext (fund_params a) (Some (fund_genesis a)) 1060 ''m'' [tx] 10000) 42 9"

lemma lock_block_header:
  "height (header (lock_block a tx)) = 1" "chain_id (header (lock_block a tx)) = ''tensorium-mainnet''"
  "previous_hash (header (lock_block a tx)) = block_hash fund_ext (fund_genesis a)"
  by (simp_all add: lock_block_def sealed_def candidate_header next_height_def fund_header) (simp add: fund_params_def mainnet_defs)

lemma lock_block_txs:
  "\<exists>t. transactions (lock_block a tx) = [t, tx] \<and> outputs t = [\<lparr> value_atoms = 10000, script_pubkey = [] \<rparr>] \<and> hash_ok (tx_id t) \<and> inputs t = []"
proof -
  have "reward_at_height (fund_params a) 1 = 0" by (simp add: reward_at_height_def Let_def fund_params_def)
  moreover have "p2pkh_from_address fund_ext ''m'' = Err InvalidAddress"
    by (simp add: p2pkh_from_address_def fund_ext_def peek_ext_def demo_ext_def demo_decode_def Let_def)
  moreover have "hash_ok (transaction_id fund_ext i o' pl)" for i o' pl
    using fund_laws(1) by (simp add: hash_ok_def transaction_id_def double_sha256_def digest_len_def)
  ultimately show ?thesis
    by (simp add: lock_block_def sealed_def candidate_block_for_def Let_def next_height_def fund_header coinbase_def address_script_or_default_def)
qed

text \<open>Signing sets an id of the right length.\<close>

lemma signed_id: "digest_len X \<Longrightarrow> sign_transaction X k t = Ok tx \<Longrightarrow> hash_ok (tx_id tx)"
  by (auto simp: sign_transaction_def res_bind_Ok_iff refresh_id_def hash_ok_def transaction_id_def double_sha256_def digest_len_def)

text \<open>The transaction that locks the coin, and the state after its block.\<close>

lemma lock_tx:
  assumes k: "from_private_key_hex fund_ext kh = Some (Ok k)" and own: "p2pkh_from_address fund_ext (address k) = Ok script"
    and s: "state_inv fund_ext p s [g]" "utxo_cf_ok s" "utxos_for_script s script = [(op, e)]"
    and e: "value_atoms (entry_output e) = 1000000" "mature_at p h e"
  obtains tx where "validate_transaction fund_ext p (utxo_lookup s) h tx = Ok 10000" and "map previous_output (inputs tx) = [op]"
    and "outputs tx = [\<lparr> value_atoms = 990000, script_pubkey = spk \<rparr>]" and "hash_ok (tx_id tx)"
proof -
  let ?t = "payment fund_ext [blank_input op] [\<lparr> value_atoms = 990000, script_pubkey = spk \<rparr>]"
  obtain tx where sg: "sign_transaction fund_ext k ?t = Ok tx" using wallet_can_sign [OF fund_laws k] by blast
  note ws = wallet_signs [OF fund_laws k sg own]
  have prev: "map previous_output (inputs tx) = map fst [(op, e)]" and out: "outputs tx = [\<lparr> value_atoms = 990000, script_pubkey = spk \<rparr>]"
    using ws(1,2) by (simp_all add: payment_def Let_def blank_input_def)
  have sub: "subseq [(op, e)] (utxos_for_script s script)" by (simp add: s(3))
  have m: "\<forall>(out, e) \<in> set [(op, e)]. mature_at p h e" using e(2) by simp
  note f = selected_inputs [OF s(2) sub m prev ws(3)]
  have "output_value tx + unat (10000 :: u64) = min (input_value (utxo_lookup s) tx) (2 ^ 64 - 1)"
    unfolding f(3) output_value_def out by (simp add: e(1))
  from covered_valid [OF f(1,2) this] prev out signed_id [OF fund_laws(1) sg] that show ?thesis by simp
qed

lemma locked_replay:
  assumes val: "validate_transaction fund_ext (fund_params a) (hm_get m) 0 tx = Ok 10000" and prev: "map previous_output (inputs tx) = [op]"
  shows "apply_block fund_ext (fund_params a) m (lock_block a tx) = Ok (apply_delta (lock_block a tx) m)"
proof -
  obtain t where t: "transactions (lock_block a tx) = [t, tx]" "outputs t = [\<lparr> value_atoms = 10000, script_pubkey = [] \<rparr>]"
    using lock_block_txs [of a tx] by blast
  have v: "validate_transaction fund_ext (fund_params a) (hm_get m) 1 tx = Ok 10000"
    by (rule validate_transaction_later [OF val]) simp
  have "max_coinbase_atoms (fund_params a) 1 10000 = 10000"
    by (simp add: max_coinbase_atoms_def has_genesis_premint_def reward_at_height_def Let_def fund_params_def)
  with v prev have "\<exists>m'. apply_block fund_ext (fund_params a) m (lock_block a tx) = Ok m'"
    unfolding apply_block_ok_iff lock_block_header t(1)
    by (intro exI [of _ t] exI [of _ "[tx]"] exI [of _ "[10000]"]) (simp add: spent_outpoints_def t(2) total_output_atoms_def sat_sum_def)
  then show ?thesis by (metis apply_block_OkE)
qed

lemma locked_chain:
  assumes k: "from_private_key_hex fund_ext kh = Some (Ok k)" and own: "p2pkh_from_address fund_ext (address k) = Ok script"
    and spk: "\<not> is_op_return spk" "spk \<noteq> []" "spk \<noteq> script"
  obtains s s' op e where "reachable fund_ext (fund_params (address k)) s"
    and "ensure_utxo_synced fund_ext (fund_params (address k)) (reopen s) = (s', Ok ())" and "height_or_0 s' = 1"
    and "utxos_for_script s' spk = [(op, e)]" and "value_atoms (entry_output e) = 990000" and "\<not> entry_coinbase e"
proof -
  let ?a = "address k" let ?p = "fund_params ?a" and ?g = "fund_genesis ?a" and ?X = fund_ext
  note D = fund_laws(1)
  have ne: "?a \<noteq> []" using fund_address [OF k] by auto
  obtain op0 e0 where rep: "replay_utxo_from ?X ?p [] [?g] = Ok [(op0, e0)]"
    and e0: "entry_output e0 = \<lparr> value_atoms = 1000000, script_pubkey = script \<rparr>" "created_height e0 = 0" using fund_replay [OF ne own] .
  have one: "hm_get [(op0, e0)] op' = Some e' \<and> script_pubkey (entry_output e') = script \<longleftrightarrow> (op', e') = (op0, e0)" for op' e'
    using e0 by auto
  obtain s1 where sy: "ensure_utxo_synced ?X ?p (reopen (fund_state ?a)) = (s1, Ok ())" and us: "utxos_for_script s1 script = [(op0, e0)]"
    using sync_lists [OF D fund_inv rep one] by metis
  have r1: "reachable ?X ?p s1" using sync_reachable(1) [OF D reopen_reachable(1) [OF D fund_inv(1)] sy] .
  have inv1: "state_inv ?X ?p s1 [?g]" and syn: "synced ?X ?p s1 [?g]"
    using ensure_utxo_synced_inv [OF D _ sy, of "[?g]"] reopen_inv [OF D fund_inv(2)] fund_inv(2) by auto
  have mat: "mature_at ?p 0 e0" by (simp add: mature_at_def e0 fund_params_def)
  have v0: "value_atoms (entry_output e0) = 1000000" by (simp add: e0)
  obtain tx where val: "validate_transaction ?X ?p (utxo_lookup s1) 0 tx = Ok 10000" and prev: "map previous_output (inputs tx) = [op0]"
    and out: "outputs tx = [\<lparr> value_atoms = 990000, script_pubkey = spk \<rparr>]" and id: "hash_ok (tx_id tx)"
    using lock_tx [OF k own inv1 reachable_cf_ok [OF D r1] us v0 mat] .
  from syn rep have ui: "utxo_is s1 [(op0, e0)]" and um: "utxo_map_ok [(op0, e0)]" by (auto simp: synced_def)
  have ok0: "outpoint_ok op0" using um by (auto simp: utxo_map_ok_def)
  have "validate_transaction ?X ?p (hm_get [(op0, e0)]) 0 tx = validate_transaction ?X ?p (utxo_lookup s1) 0 tx"
    using ui ok0 prev by (intro tx_view.agree) (auto simp: utxo_is_def utxo_lookup_def tx_refs_def simp flip: set_map)
  with val have app: "apply_block ?X ?p [(op0, e0)] (lock_block ?a tx) = Ok (apply_delta (lock_block ?a tx) [(op0, e0)])"
    using locked_replay [OF _ prev] by simp
  let ?b = "lock_block ?a tx"
  obtain t where t: "transactions ?b = [t, tx]" "outputs t = [\<lparr> value_atoms = 10000, script_pubkey = [] \<rparr>]" "hash_ok (tx_id t)" "inputs t = []"
    using lock_block_txs [of ?a tx] by blast
  have bok: "block_ok ?b" using t id ok0 prev by (auto simp: block_ok_def map_eq_Cons_conv)
  have "hash_bytes (block_hash ?X ?b) \<noteq> hash_bytes (block_hash ?X ?g)"
    using peek_hash_height [of ?b] peek_hash_height [of ?g] by (auto simp: fund_hash_eq fund_header lock_block_header)
  moreover have "cf_blocks s1 = cf_blocks (reopen (fund_state ?a))"
    using sy by (auto simp: ensure_utxo_synced_def rewrite_utxo_fields split: option.splits if_splits sum.splits)
  then have "cf_blocks s1 = [(hash_bytes (block_hash ?X ?g), ?g)]"
    by (simp add: reopen_inv [OF D fund_inv(2)]) (simp add: fund_state_def install_tip_fields new_state_def)
  ultimately have fresh: "\<not> block_known s1 (block_hash ?X ?b)" by (simp add: block_known_def)
  have "\<exists>s2. submit_block ?X ?p ?b 1060 s1 = Some (s2, Ok ?b) \<and> state_inv ?X ?p s2 ([?g] @ [?b]) \<and> last_disconnected s2 = []"
  proof (rule extending_block_accepted [OF D inv1 syn bok fund_hash(2) fresh])
    show "previous_hash (header ?b) = tip_hash ?X s1" using inv1 by (simp add: lock_block_header state_inv_def tip_hash_def)
    show "expected_leading_zero_bits_for s1 ?p (Some (last [?g])) = Some 42" by (simp add: fund_bits)
    show "validate_block ?X ?p (Some (last [?g])) ?b 1060 42 (epoch_seed_for_height ?X s1 (height (header ?b))) = Ok ()"
      unfolding lock_block_def by (simp, rule sealed_validates) (simp_all add: fund_hash fund_params_def mainnet_defs)
    show "\<exists>m. apply_block ?X ?p uset ?b = Ok m" if "replay_utxo_from ?X ?p [] [?g] = Ok uset" for uset using that rep app by simp
    show "unat (path_work [?g]) < 2 ^ 128 - 1" by (simp add: path_work_def block_work_def fund_header)
  qed (simp add: lock_block_header)
  then obtain s2 where sub: "submit_block ?X ?p ?b 1060 s1 = Some (s2, Ok ?b)" and inv2: "state_inv ?X ?p s2 [?g, ?b]" by auto
  have r2: "reachable ?X ?p s2" by (rule reachable.submit [OF r1 sub bok fund_hash(2)]) (simp_all add: lock_block_header)
  let ?op = "\<lparr> op_txid = tx_id tx, output_index = 0 \<rparr>"
  let ?e = "\<lparr> entry_output = \<lparr> value_atoms = 990000, script_pubkey = spk \<rparr>, created_height = 1, entry_coinbase = is_coinbase tx \<rparr>"
  have rep2: "replay_utxo_from ?X ?p [] [?g, ?b] = Ok (apply_delta ?b [(op0, e0)])"
  proof -
    have "apply_block ?X ?p [] ?g = Ok [(op0, e0)]" using rep by (auto split: sum.splits)
    then show ?thesis by (simp add: app)
  qed
  have one2: "hm_get (apply_delta ?b [(op0, e0)]) op' = Some e' \<and> script_pubkey (entry_output e') = spk \<longleftrightarrow> (op', e') = (?op, ?e)" for op' e'
    using spk e0 t out by (auto simp: hm_get_apply_delta created_at_def created_entries_def lock_block_header is_op_return_def split: if_splits)
  obtain s3 where "ensure_utxo_synced ?X ?p (reopen s2) = (s3, Ok ())" "height_or_0 s3 = height (header (last [?g, ?b]))"
    "utxos_for_script s3 spk = [(?op, ?e)]" using sync_lists [OF D r2 inv2 rep2 one2] .
  moreover have "\<not> is_coinbase tx" using prev by (auto simp: is_coinbase_def)
  ultimately show ?thesis using that [OF r2, of s3 ?op ?e] by (simp add: lock_block_header)
qed

end
