(* ===== verification/Wallet_Vesting.thy ===== *)
theory Wallet_Vesting
  imports Locked_Coins
begin

text \<open>
  Time locks through the wallet: what \<open>vesting-lock\<close> promises the recipient, and when the node
  accepts the claims that the wallet builds from locked outputs.
\<close>

section \<open>The schedule\<close>

text \<open>The amounts of a schedule in exact arithmetic: the liquid part, and what tranche \<open>i\<close> of \<open>t\<close> gets.\<close>

definition liquid_part :: "nat \<Rightarrow> nat \<Rightarrow> nat" where
  "liquid_part amount bps = amount * bps div 10000"

definition tranche_part :: "nat \<Rightarrow> nat \<Rightarrow> nat \<Rightarrow> nat" where
  "tranche_part vested t i = (if i = t - 1 then vested - vested div t * (t - 1) else vested div t)"

lemma liquid_part_le: "bps \<le> 10000 \<Longrightarrow> liquid_part amount bps \<le> amount"
  unfolding liquid_part_def using div_le_mono [OF mult_le_mono2 [of bps 10000 amount], of 10000] by simp

lemma tranche_sum:
  assumes "0 < t"
  shows "sum_list (map (tranche_part v t) [0..<t]) = v"
proof -
  obtain m where t: "t = Suc m" using assms by (cases t) auto
  have eq: "map (tranche_part v t) [0..<m] = map (\<lambda>_. v div t) [0..<m]" by (simp add: tranche_part_def t)
  have "sum_list (map (tranche_part v t) [0..<m]) = m * (v div t)" unfolding eq by (simp add: sum_list_triv)
  moreover have "tranche_part v t m = v - v div t * m" by (simp add: tranche_part_def t)
  ultimately have "sum_list (map (tranche_part v t) [0..<t]) = m * (v div t) + (v - v div t * m)" by (simp add: t)
  moreover have "v div t * m \<le> v" by (metis div_times_less_eq_dividend le_trans mult_le_mono2 t lessI less_imp_le)
  ultimately show ?thesis by (simp add: mult.commute)
qed

lemma tranche_word:
  fixes vested tranches start_height interval :: u64
  assumes i: "i < unat tranches" and nowrap: "unat start_height + unat tranches * unat interval < 2 ^ 64"
  shows "unat (value_atoms (fst (vesting_tranche vested (vested div tranches) tranches start_height interval h (of_nat i))))
      = tranche_part (unat vested) (unat tranches) i"
    and "unat (snd (vesting_tranche vested (vested div tranches) tranches start_height interval h (of_nat i)))
      = unat start_height + i * unat interval"
proof -
  let ?t = "unat tranches" and ?v = "unat vested"
  have t64: "?t < 2 ^ 64" by (rule unat_u64_lt)
  then have ui: "unat (of_nat i :: u64) = i" using i by (simp add: unat_of_nat_u64)
  have t1: "unat (tranches - 1) = ?t - 1" using i by (simp add: unat_sub_if')
  have eq: "of_nat i = tranches - 1 \<longleftrightarrow> i = ?t - 1" using ui t1 by (metis word_unat_eq_iff)
  have per: "unat (vested div tranches) = ?v div ?t" by (simp add: unat_div)
  have le: "?v div ?t * (?t - 1) \<le> ?v" by (metis diff_le_self div_times_less_eq_dividend le_trans mult_le_mono2)
  then have "?v div ?t * (?t - 1) < 2 ^ 64" using unat_u64_lt [of vested] by linarith
  then have prod: "unat (vested div tranches * (tranches - 1)) = ?v div ?t * (?t - 1)"
    using per t1 by (simp add: unat_word_ariths)
  then have "unat (vested - vested div tranches * (tranches - 1)) = ?v - ?v div ?t * (?t - 1)"
    using le by (simp add: unat_sub_if')
  then show "unat (value_atoms (fst (vesting_tranche vested (vested div tranches) tranches start_height interval h (of_nat i))))
      = tranche_part (unat vested) (unat tranches) i"
    by (simp add: vesting_tranche_def eq tranche_part_def per Let_def)
  have "i * unat interval \<le> ?t * unat interval" using i by simp
  then have "unat start_height + i * unat interval < 2 ^ 64" using nowrap by linarith
  then show "unat (snd (vesting_tranche vested (vested div tranches) tranches start_height interval h (of_nat i)))
      = unat start_height + i * unat interval"
    using ui by (simp add: vesting_tranche_def unat_word_ariths Let_def)
qed

type_synonym schedule_entry = "string \<times> u64 \<times> u64 \<times> string"

definition entry_terms :: "schedule_entry \<Rightarrow> nat \<times> nat" where
  "entry_terms = (\<lambda>(label, ht, atoms, spk_hex). (unat ht, unat atoms))"

definition entry_script :: "ext \<Rightarrow> schedule_entry \<Rightarrow> TxOutput" where
  "entry_script X = (\<lambda>(label, ht, atoms, spk_hex). \<lparr> value_atoms = atoms, script_pubkey = the (hex_decode X spk_hex) \<rparr>)"

lemma vesting_outputs_spec:
  assumes hex: "hex_laws X" and tr: "tranches \<noteq> 0" and bps: "unat liquid_bps \<le> 10000"
    and nosat: "unat total_amount * unat liquid_bps < 2 ^ 64"
    and nowrap: "unat start_height + unat tranches * unat interval < 2 ^ 64"
    and vo: "vesting_outputs X spk total_amount start_height tranches interval liquid_bps = (outs, schedule)"
  defines "l \<equiv> liquid_part (unat total_amount) (unat liquid_bps)"
  shows "map entry_terms schedule = (if l > 0 then [(0, l)] else [])
      @ map (\<lambda>i. (unat start_height + i * unat interval, tranche_part (unat total_amount - l) (unat tranches) i)) [0..<unat tranches]"
    and "outs = map (entry_script X) schedule"
    and "sum_list (map (unat \<circ> value_atoms) outs) = unat total_amount"
    and "(label, ht, atoms, h) \<in> set schedule \<Longrightarrow> label = ''liquid'' \<or> hex_decode X h = Some (cltv_p2pkh_script ht (take 20 (drop 3 spk)))"
proof -
  let ?liq = "sat_mul total_amount liquid_bps div 10000"
  let ?vt = "total_amount - ?liq"
  define tr_at where "tr_at = (\<lambda>i. vesting_tranche ?vt (?vt div tranches) tranches start_height interval (take 20 (drop 3 spk)) (of_nat i))"
  have ul: "unat ?liq = l" using nosat by (simp add: unat_div unat_sat_mul l_def liquid_part_def)
  have le: "l \<le> unat total_amount" using liquid_part_le [OF bps] by (simp add: l_def)
  then have uv: "unat ?vt = unat total_amount - l" by (simp add: unat_sub_if' ul)
  have pos: "0 < ?liq \<longleftrightarrow> 0 < l" using ul by (metis unat_gt_0 word_gt_0)
  have hd: "hex_decode X (hex_encode X b) = Some b" for b using hex by (simp add: hex_laws_def)
  let ?line = "\<lambda>i. (''tranche '' @ show_nat (i + 1), snd (tr_at i), value_atoms (fst (tr_at i)), hex_encode X (script_pubkey (fst (tr_at i))))"
  have sch: "schedule = (if 0 < l then [(''liquid'', 0, ?liq, hex_encode X spk)] else []) @ map ?line [0..<unat tranches]"
    and out: "outs = (if 0 < l then [\<lparr> value_atoms = ?liq, script_pubkey = spk \<rparr>] else []) @ map (fst \<circ> tr_at) [0..<unat tranches]"
    using vo unfolding vesting_outputs_def Let_def pos tr_at_def by (auto simp: comp_def)
  have w: "unat (value_atoms (fst (tr_at i))) = tranche_part (unat total_amount - l) (unat tranches) i \<and> unat (snd (tr_at i)) = unat start_height + i * unat interval"
    if "i < unat tranches" for i
    using tranche_word [OF that nowrap, of ?vt] by (simp add: tr_at_def uv)
  show terms: "map entry_terms schedule = (if l > 0 then [(0, l)] else [])
      @ map (\<lambda>i. (unat start_height + i * unat interval, tranche_part (unat total_amount - l) (unat tranches) i)) [0..<unat tranches]"
    using w ul by (simp add: sch entry_terms_def)
  show oe: "outs = map (entry_script X) schedule" by (simp add: sch out entry_script_def hd)
  have "map (unat \<circ> value_atoms) outs = map snd (map entry_terms schedule)"
    by (simp add: oe entry_script_def entry_terms_def case_prod_unfold)
  then have "sum_list (map (unat \<circ> value_atoms) outs) = l + sum_list (map (tranche_part (unat total_amount - l) (unat tranches)) [0..<unat tranches])"
    unfolding terms by (simp add: comp_def)
  moreover have "0 < unat tranches" using tr by (simp add: unat_gt_0)
  ultimately show "sum_list (map (unat \<circ> value_atoms) outs) = unat total_amount" using le by (simp add: tranche_sum)
  have "script_pubkey (fst (tr_at i)) = cltv_p2pkh_script (snd (tr_at i)) (take 20 (drop 3 spk))" for i
    by (simp add: tr_at_def vesting_tranche_def Let_def)
  then show "(label, ht, atoms, h) \<in> set schedule \<Longrightarrow> label = ''liquid'' \<or> hex_decode X h = Some (cltv_p2pkh_script ht (take 20 (drop 3 spk)))"
    by (auto simp: sch hd split: if_splits)
qed

section \<open>Locking\<close>

lemma address_hash:
  assumes "p2pkh_from_address X a = Ok spk"
  shows "length (take 20 (drop 3 spk)) = 20" and "p2pkh_script (take 20 (drop 3 spk)) = Some spk"
  using assms by (auto simp: p2pkh_from_address_def p2pkh_script_def split: option.splits if_splits prod.splits)

text \<open>The output for the change, if there is any, changes the sum as it should.\<close>

lemma change_sum:
  fixes sel amt fee :: u64
  assumes "sat_add amt fee \<le> sel" and "unat amt + unat fee < 2 ^ 64" and "sum_list (map (unat \<circ> value_atoms) outs) = unat amt"
  shows "sum_list (map (unat \<circ> value_atoms) (outs @ (if 0 < sel - amt - fee then [\<lparr> value_atoms = sel - amt - fee, script_pubkey = own \<rparr>] else [])))
      + unat fee = unat sel"
  using change_covers [OF assms(1,2)] assms(3) by (auto simp: word_gt_0)

text \<open>
  C21. A vesting lock keeps its promise: with enough mature coins the wallet builds a transaction that
  the node accepts, and its schedule is exact: the liquid share is the basis points of the total, the
  rest is split into equal tranches with the remainder in the last, tranche \<open>i\<close> unlocks \<open>i\<close> intervals after
  the start, and everything adds up to the total. The outputs are those of the schedule, and a locked one
  cannot be spent before its height, nor without the recipient's key, by any unlocking script.
\<close>

theorem vesting_lock_accepted:
  assumes X: "digest_len X" "bech32_laws X" "hex_laws X" "sign_laws X" and k: "from_private_key_hex X kh = Some (Ok k)"
    and addr: "starts_with ''txm1'' (address k)" "wf_address w = address k" and n: "node_inv X p n"
    and ans: "lists_coins X p E rpc env n (address k) n1 rows"
    and amt: "unat amt + unat fee < 2 ^ 64" "MIN_RELAY_FEE_ATOMS \<le> fee"
      "unat amt + unat fee \<le> sum_list (map (unat \<circ> row_value) (filter row_mature rows))"
    and to_ok: "p2pkh_from_address X recipient = Ok spk"
    and tr: "tranches \<noteq> 0" "unat liquid_bps \<le> 10000" "unat amt * unat liquid_bps < 2 ^ 64"
      "unat start_height + unat tranches * unat interval < 2 ^ 64"
  shows "\<exists>tx schedule change. build_signed_vesting_via_rpc X E w k rpc recipient amt fee start_height tranches interval liquid_bps = Ok (tx, schedule)
    \<and> map entry_terms schedule =
        (if liquid_part (unat amt) (unat liquid_bps) > 0 then [(0, liquid_part (unat amt) (unat liquid_bps))] else [])
        @ map (\<lambda>i. (unat start_height + i * unat interval,
            tranche_part (unat amt - liquid_part (unat amt) (unat liquid_bps)) (unat tranches) i)) [0..<unat tranches]
    \<and> sum_list (map (snd \<circ> entry_terms) schedule) = unat amt
    \<and> outputs tx = map (entry_script X) schedule @ change
    \<and> (\<forall>(label, ht, atoms, h) \<in> set schedule. label = ''liquid'' \<or> (\<forall>script_sig ctx.
        execute X script_sig (the (hex_decode X h)) ctx = Ok True \<longrightarrow> ht \<le> block_height ctx \<and> key_signed X ctx (take 20 (drop 3 spk))))
    \<and> (\<forall>env2 body. tx_from_json env2 body = Ok tx \<and> rpc_lock env2 = None \<and> pool_takes X (node_pool n) tx \<longrightarrow>
        (\<exists>n2 m. rpc_sendrawtransaction X p env2 body n1 = Some (n2, [(200, PendingBody (tx_id tx) m)], Ok ())
          \<and> hm_get (node_pool n2) (to_hex X (tx_id tx)) = Some \<lparr> entry_tx = tx, fee_atoms = fee \<rparr>))"
proof -
  let ?need = "sat_add amt fee"
  have need: "unat ?need = unat amt + unat fee" using amt(1) by (simp add: unat_sat_add)
  then have pos: "0 < unat ?need" using amt(2) by (simp add: word_le_nat_alt MIN_RELAY_FEE_ATOMS_def)
  have enough: "unat ?need \<le> sum_list (map (unat \<circ> row_value) (filter row_mature rows))" using need amt(3) by simp
  from wallet_funds [OF X k addr(1) n ans pos enough, of "''bad txid len''"] obtain s us ops tot own where
    n1: "n1 = n\<lparr> node_chain := s \<rparr>" "reachable X p s" "read_meta_utxo_tip s = Some (tip_hash X s)"
    and get: "get_utxos E rpc (address k) = Ok us" and pick: "pick_mature ''bad txid len'' ?need us [] 0 = Ok (ops, tot)"
    and le: "?need \<le> tot" and own: "p2pkh_from_address X (address k) = Ok own"
    and valid: "\<forall>outs fee. sum_list (map (unat \<circ> value_atoms) outs) + unat fee = unat tot \<longrightarrow>
      (\<exists>tx. sign_all X k (payment X (map blank_input ops) outs) = Ok tx \<and> outputs tx = outs \<and> \<not> is_coinbase tx
        \<and> validate_transaction X p (utxo_lookup s) (height_or_0 s) tx = Ok fee)" .
  obtain outs schedule where vo: "vesting_outputs X spk amt start_height tranches interval liquid_bps = (outs, schedule)" by fastforce
  note spec = vesting_outputs_spec [OF X(3) tr vo]
  let ?change = "if 0 < tot - amt - fee then [\<lparr> value_atoms = tot - amt - fee, script_pubkey = own \<rparr>] else []"
  from valid [rule_format, OF change_sum [OF le amt(1) spec(3)]] obtain tx where
    sg: "sign_all X k (payment X (map blank_input ops) (outs @ ?change)) = Ok tx"
    and tx: "outputs tx = outs @ ?change" "\<not> is_coinbase tx" "validate_transaction X p (utxo_lookup s) (height_or_0 s) tx = Ok fee" by blast
  have bps: "\<not> 10000 < liquid_bps" using tr(2) by (simp add: word_less_nat_alt)
  have "\<not> tot < ?need" using le by simp
  then have built: "build_signed_vesting_via_rpc X E w k rpc recipient amt fee start_height tranches interval liquid_bps = Ok (tx, schedule)"
    using sg by (simp add: build_signed_vesting_via_rpc_def tr(1) bps addr(2) get pick to_ok own vo map_err_def Let_def split: if_splits)
  have sum: "sum_list (map (snd \<circ> entry_terms) schedule) = unat amt"
    using spec(3) by (simp add: spec(2) entry_script_def entry_terms_def comp_def case_prod_unfold)
  have lock: "\<forall>(label, ht, atoms, h) \<in> set schedule. label = ''liquid'' \<or> (\<forall>script_sig ctx.
      execute X script_sig (the (hex_decode X h)) ctx = Ok True \<longrightarrow> ht \<le> block_height ctx \<and> key_signed X ctx (take 20 (drop 3 spk)))"
    using spec(4) cltv_sound [OF address_hash(1) [OF to_ok]] by fastforce
  have out: "outputs tx = map (entry_script X) schedule @ ?change" using tx(1) spec(2) by simp
  have sent: "\<forall>env2 body. tx_from_json env2 body = Ok tx \<and> rpc_lock env2 = None \<and> pool_takes X (node_pool n) tx \<longrightarrow>
      (\<exists>n2 m. rpc_sendrawtransaction X p env2 body n1 = Some (n2, [(200, PendingBody (tx_id tx) m)], Ok ())
        \<and> hm_get (node_pool n2) (to_hex X (tx_id tx)) = Some \<lparr> entry_tx = tx, fee_atoms = fee \<rparr>)"
    by (intro allI impI, elim conjE) (rule valid_tx_sent [OF X(1) n1 _ _ tx(3) amt(2) _ tx(2)])
  show ?thesis by (intro exI [of _ tx] exI [of _ schedule] exI [of _ ?change] conjI built spec(1) sum out lock sent)
qed

section \<open>Claiming from scripts\<close>

lemma wallet_signs_hash:
  assumes "digest_len X" "bech32_laws X" "hex_laws X" "sign_laws X" and "from_private_key_hex X kh = Some (Ok k)"
  obtains pk hash own where "hex_decode X (public_key_hex k) = Some pk" and "p2pkh_from_address X (address k) = Ok own"
    and "p2pkh_script hash = Some own"
    and "\<forall>tx. \<exists>der. sign_hash X k (signature_hash X tx) = Ok der
      \<and> (\<forall>ht. unlocks X \<lparr> sig_hash = signature_hash X tx, block_height = ht \<rparr> pk der hash)"
proof -
  from wallet_unlocks [OF assms] obtain pk hash own where pk: "hex_decode X (public_key_hex k) = Some pk"
    and own: "p2pkh_from_address X (address k) = Ok own" "p2pkh_script hash = Some own"
    and u: "\<forall>tx ht. \<exists>der. wallet_script_sig X k tx = Ok (p2pkh_script_sig der pk)
      \<and> unlocks X \<lparr> sig_hash = signature_hash X tx, block_height = ht \<rparr> pk der hash" by blast
  have "\<exists>der. sign_hash X k (signature_hash X tx) = Ok der
      \<and> (\<forall>ht. unlocks X \<lparr> sig_hash = signature_hash X tx, block_height = ht \<rparr> pk der hash)" for tx
  proof -
    from u obtain d where "wallet_script_sig X k tx = Ok (p2pkh_script_sig d pk)" by blast
    then obtain sk where sk: "wallet_signing_key X k = Ok sk" by (auto simp: wallet_script_sig_def res_bind_Ok_iff)
    let ?der = "sk_sign_der X sk (hash_bytes (signature_hash X tx))"
    have ss: "wallet_script_sig X k tx = Ok (p2pkh_script_sig ?der pk)" by (simp add: wallet_script_sig_def sk pk)
    have "d' = ?der" if "wallet_script_sig X k tx = Ok (p2pkh_script_sig d' pk)" for d'
      using that ss by (simp add: p2pkh_script_sig_def push_data_def)
    then have "\<forall>ht. unlocks X \<lparr> sig_hash = signature_hash X tx, block_height = ht \<rparr> pk ?der hash" using u by metis
    then show ?thesis by (simp add: sign_hash_def sk)
  qed
  with that pk own show ?thesis by blast
qed

lemma put_scripts_fields:
  "inputs (put_scripts X ss tx) = map (\<lambda>i. i\<lparr> signature_script := ss \<rparr>) (inputs tx)" "outputs (put_scripts X ss tx) = outputs tx"
  "signature_hash X (put_scripts X ss tx) = signature_hash X tx"
  unfolding put_scripts_def by (simp_all, intro signature_hash_ignores_scripts) (simp_all add: comp_def)

lemma hex_param:
  assumes "hex_laws X" and "spk \<noteq> []"
  shows "hex_string spk \<noteq> []" "hd (hex_string spk) \<noteq> CHR ''/''" "param_script X (hex_string spk) = Some spk"
    "\<not> starts_with ''txm1'' (hex_string spk)"
proof -
  obtain b bs where spk: "spk = b # bs" using assms(2) by (cases spk) auto
  have "unat b div 16 < 16" using unat_u8_lt [of b] by linarith
  then have d: "of_char (hex_digit (unat b div 16)) \<in> {48..<58} \<union> {97..<(103 :: nat)}" by (auto simp: hex_digit_def)
  have hex: "hex_string spk = hex_digit (unat b div 16) # hex_digit (unat b mod 16) # hex_string bs"
    by (simp add: spk hex_string_def hex_byte_def)
  have ne: "hex_digit (unat b div 16) \<noteq> CHR ''/''" "hex_digit (unat b div 16) \<noteq> CHR ''t''" using d by force+
  with hex show "hex_string spk \<noteq> []" "hd (hex_string spk) \<noteq> CHR ''/''" by simp_all
  show nt: "\<not> starts_with ''txm1'' (hex_string spk)" using ne by (simp add: hex)
  have "hex_decode X (hex_string spk) = Some spk" using assms(1) by (simp add: hex_laws_def)
  with nt show "param_script X (hex_string spk) = Some spk" by (simp add: param_script_def)
qed

lemma find_listed: "find mature (map (listed X p h) us) = map_option (listed X p h) (find (\<lambda>oe. mature_at p h (snd oe)) us)"
  by (induction us) auto

lemma find_rows: "find row_mature (map (utxo_row_of X p h) us) = map_option (utxo_row_of X p h) (find (\<lambda>oe. mature_at p h (snd oe)) us)"
  by (induction us) (auto simp: utxo_row_of_def split: prod.splits)

lemma added_valid: "mempool_add X p look pool tx h = Ok pool' \<Longrightarrow> \<exists>fee. validate_transaction X p look h tx = Ok fee"
  by (auto simp: mempool_add_def Let_def split: if_splits sum.splits option.splits)

text \<open>
  The wallet spends the first mature output of a script: it builds and signs the transaction, and
  the node accepts it exactly when the assembled unlocking script opens the output at the tip height.
\<close>

lemma script_spend:
  assumes X: "digest_len X" "bech32_laws X" "hex_laws X" "sign_laws X" and k: "from_private_key_hex X kh = Some (Ok k)"
    and w: "wf_public_key_hex w = public_key_hex k" and n: "node_inv X p n" and spk: "spk \<noteq> []"
    and ans: "lists_coins X p E rpc env n (hex_string spk) n1 rows"
    and coin: "find row_mature rows = Some row" "MIN_RELAY_FEE_ATOMS < row_value row"
    and dest: "p2pkh_from_address X dest_addr = Ok dest"
    and asm: "\<forall>der. assemble der pk = Some (sig_of der)" and pk: "hex_decode X (public_key_hex k) = Some pk"
    and key: "p2pkh_from_address X (address k) = Ok own" "p2pkh_script hash = Some own"
  obtains tx der where "signed_script_spend X E w k rpc (hex_string spk) dest_addr assemble = Some (Ok tx)"
    and "outputs tx = [\<lparr> value_atoms = row_value row - MIN_RELAY_FEE_ATOMS, script_pubkey = dest \<rparr>]"
    and "\<forall>ht. unlocks X \<lparr> sig_hash = signature_hash X tx, block_height = ht \<rparr> pk der hash"
    and "\<forall>env2 body. tx_from_json env2 body = Ok tx \<and> rpc_lock env2 = None \<and> pool_takes X (node_pool n) tx \<longrightarrow>
      ((\<exists>n2 m. rpc_sendrawtransaction X p env2 body n1 = Some (n2, [(200, PendingBody (tx_id tx) m)], Ok ()))
        \<longleftrightarrow> execute X (sig_of der) spk \<lparr> sig_hash = signature_hash X tx, block_height = height_or_0 (node_chain n1) \<rparr> = Ok True)"
proof -
  from lists_coinsD [OF X(1) n ans hex_param(1,2) [OF X(3) spk]] obtain s script where
    sc: "param_script X (hex_string spk) = Some script" and n1: "n1 = n\<lparr> node_chain := s \<rparr>" and s: "reachable X p s" "utxo_cf_ok s"
      "read_meta_utxo_tip s = Some (tip_hash X s)" and rows: "rows = map (utxo_row_of X p (height_or_0 s)) (utxos_for_script s script)"
    and get: "get_utxos E rpc (hex_string spk) = Ok (map (listed X p (height_or_0 s)) (utxos_for_script s script))"
    and l32: "\<forall>oe \<in> set (utxos_for_script s script). length (hash_bytes (op_txid (fst oe))) = 32" .
  have script: "script = spk" using sc hex_param(3) [OF X(3) spk] by simp
  from coin(1) obtain oe where oe: "find (\<lambda>oe. mature_at p (height_or_0 s) (snd oe)) (utxos_for_script s spk) = Some oe"
    and row: "row = utxo_row_of X p (height_or_0 s) oe" by (auto simp: rows find_rows script)
  then have mem: "oe \<in> set (utxos_for_script s spk)" and mat: "mature_at p (height_or_0 s) (snd oe)" by (auto simp: find_Some_iff)
  have val: "row_value row = value_atoms (entry_output (snd oe))" by (simp add: row utxo_row_of_def split: prod.splits)
  let ?t0 = "payment X [blank_input (fst oe)] [\<lparr> value_atoms = row_value row - MIN_RELAY_FEE_ATOMS, script_pubkey = dest \<rparr>]"
  have u: "build_unsigned_htlc_spend X E rpc (hex_string spk) dest_addr = Ok ?t0"
    using get coin(2) l32 mem dest
    by (simp add: build_unsigned_htlc_spend_def script find_listed oe val ok_or_def map_err_def not_le)
  from wallet_signs_hash [OF X k] obtain pk' hash' own' where u': "hex_decode X (public_key_hex k) = Some pk'"
    "p2pkh_from_address X (address k) = Ok own'" "p2pkh_script hash' = Some own'"
    and sg: "\<forall>tx. \<exists>der. sign_hash X k (signature_hash X tx) = Ok der
      \<and> (\<forall>ht. unlocks X \<lparr> sig_hash = signature_hash X tx, block_height = ht \<rparr> pk' der hash')" .
  have "pk' = pk" "hash' = hash" using u' pk key by (auto simp: p2pkh_script_def split: if_splits)
  with sg obtain der where der: "sign_hash X k (signature_hash X ?t0) = Ok der"
    and un: "\<forall>ht. unlocks X \<lparr> sig_hash = signature_hash X ?t0, block_height = ht \<rparr> pk der hash" by blast
  let ?tx = "put_scripts X (sig_of der) ?t0"
  have built: "signed_script_spend X E w k rpc (hex_string spk) dest_addr assemble = Some (Ok ?tx)"
    using asm by (simp add: signed_script_spend_def u der w pk ok_or_def map_err_def)
  have ins: "inputs ?tx = [\<lparr> previous_output = fst oe, signature_script = sig_of der \<rparr>]"
    and out: "outputs ?tx = [\<lparr> value_atoms = row_value row - MIN_RELAY_FEE_ATOMS, script_pubkey = dest \<rparr>]"
    by (simp_all add: put_scripts_fields payment_def Let_def blank_input_def)
  let ?ctx = "\<lparr> sig_hash = signature_hash X ?tx, block_height = height_or_0 s \<rparr>"
  have acc: "(\<exists>n2 m. rpc_sendrawtransaction X p env2 body n1 = Some (n2, [(200, PendingBody (tx_id ?tx) m)], Ok ()))
        \<longleftrightarrow> execute X (sig_of der) spk ?ctx = Ok True"
    if "tx_from_json env2 body = Ok ?tx" "rpc_lock env2 = None" "pool_takes X (node_pool n) ?tx" for env2 body
  proof -
    have vf: "unat (row_value row - MIN_RELAY_FEE_ATOMS) + unat MIN_RELAY_FEE_ATOMS = unat (row_value row)"
      using coin(2) by (simp add: unat_sub_if' word_less_nat_alt)
    have look: "utxo_lookup s (fst oe) = Some (snd oe)" "script_pubkey (entry_output (snd oe)) = spk"
      using utxos_for_script_exact(2) [OF s(2), of "fst oe" "snd oe" spk] mem by auto
    from send_reply [OF X(1) n1 s(1,3) that(1,2)] obtain s' where l: "utxo_lookup s' = utxo_lookup s" and "height_or_0 s' = height_or_0 s"
      and r: "rpc_sendrawtransaction X p env2 body n1 =
        (case mempool_add X p (hm_get (seed_utxos_for_tx s' ?tx)) (node_pool n) ?tx (height_or_0 s) of
           Err e \<Rightarrow> give_up (n\<lparr> node_chain := s' \<rparr>) (mempool_error_text e)
         | Ok pool \<Rightarrow> reply (n\<lparr> node_chain := s', node_pool := pool \<rparr>) 200 (PendingBody (tx_id ?tx) (length pool)))" .
    show ?thesis
    proof
      assume "\<exists>n2 m. rpc_sendrawtransaction X p env2 body n1 = Some (n2, [(200, PendingBody (tx_id ?tx) m)], Ok ())"
      then obtain pool where "mempool_add X p (hm_get (seed_utxos_for_tx s' ?tx)) (node_pool n) ?tx (height_or_0 s) = Ok pool"
        by (auto simp: r give_up_def split: sum.splits)
      then obtain fee where "validate_transaction X p (hm_get (seed_utxos_for_tx s' ?tx)) (height_or_0 s) ?tx = Ok fee"
        using added_valid by blast
      then have "validate_transaction X p (utxo_lookup s) (height_or_0 s) ?tx = Ok fee"
        unfolding seed_utxos_for_tx_def l by (simp only: tx_view.seeded)
      then have "input_ok X p (utxo_lookup s) (height_or_0 s) ?tx (hd (inputs ?tx))"
        by (simp add: validate_transaction_Ok_iff tx_ok_def ins)
      then show "execute X (sig_of der) spk ?ctx = Ok True" using look by (simp add: input_ok_def ins)
    next
      assume ex: "execute X (sig_of der) spk ?ctx = Ok True"
      have sub: "subseq [oe] (utxos_for_script s spk)" using mem by (simp add: subseq_singleton_left)
      have m: "\<forall>(out, e) \<in> set [oe]. mature_at p (height_or_0 s) e" using mat by auto
      have prev: "map previous_output (inputs ?tx) = map fst [oe]" by (simp only: ins list.map TxInput.simps)
      have e: "\<forall>i \<in> set (inputs ?tx). execute X (signature_script i) spk ?ctx = Ok True" unfolding ins using ex by simp
      note f = selected_inputs [OF s(2) sub m prev e]
      have iv: "input_value (utxo_lookup s) ?tx = unat (row_value row)" unfolding f(3) by (simp add: val)
      have "output_value ?tx + unat MIN_RELAY_FEE_ATOMS = min (input_value (utxo_lookup s) ?tx) (2 ^ 64 - 1)"
        unfolding iv output_value_def out using vf unat_u64_lt [of "row_value row"] by simp
      note v = covered_valid [OF f(1,2) this]
      have "\<not> is_coinbase ?tx" unfolding is_coinbase_def ins by simp
      from valid_tx_sent [OF X(1) n1 s(1,3) that(1,2) v order_refl that(3) this]
      show "\<exists>n2 m. rpc_sendrawtransaction X p env2 body n1 = Some (n2, [(200, PendingBody (tx_id ?tx) m)], Ok ())" by blast
    qed
  qed
  have "\<forall>ht. unlocks X \<lparr> sig_hash = signature_hash X ?tx, block_height = ht \<rparr> pk der hash" using un by (simp add: put_scripts_fields)
  from that [OF built out this] acc show ?thesis by (simp add: n1)
qed

lemma unlock_loads:
  assumes "unlock X C E d = Some (Ok (w, k))"
  shows "\<exists>kh. from_private_key_hex X kh = Some (Ok k)" and "wf_address w = address k"
  using assms decrypt_loads by (auto simp: unlock_def and_then_Ok_iff)

text \<open>The unlocking scripts of the wallet for its own key hash, and the locks they open.\<close>

lemma own_key:
  assumes "digest_len X" "bech32_laws X" "hex_laws X" "sign_laws X" and "from_private_key_hex X kh = Some (Ok k)"
    and "p2pkh_from_address X (address k) = Ok own"
  obtains pk where "hex_decode X (public_key_hex k) = Some pk"
  using wallet_unlocks [OF assms(1-5)] by blast

text \<open>
  C18. Vested coins can be claimed exactly from their height on: for an output locked by
  \<open>vesting-lock\<close> to the wallet's own key, \<open>vesting-claim\<close> posts a transaction that pays its whole value,
  less the relay fee, to the chosen address, and the node accepts it if and only if the height of its
  chain has reached the unlock height of the tranche.
\<close>

theorem vesting_claim_iff:
  assumes X: "digest_len X" "bech32_laws X" "hex_laws X" "sign_laws X" and un: "unlock X C E d = Some (Ok (w, k))"
    and w: "wf_public_key_hex w = public_key_hex k" and n: "node_inv X p n"
    and own: "p2pkh_from_address X (address k) = Ok own" and spk: "spk = cltv_p2pkh_script lt (take 20 (drop 3 own))"
    and ans: "lists_coins X p E rpc env n (hex_string spk) n1 rows"
    and coin: "find row_mature rows = Some row" "MIN_RELAY_FEE_ATOMS < row_value row"
    and dest: "p2pkh_from_address X dest_addr = Ok dest"
  shows "\<exists>r tx. run_wallet X C E [prog, ''vesting-claim'', hex_string spk, dest_addr, rpc] d = Some r
    \<and> posted r = [(normalize_rpc_url rpc @ ''/sendrawtransaction'', TxDoc tx)] \<and> disk_after r = d
    \<and> outputs tx = [\<lparr> value_atoms = row_value row - MIN_RELAY_FEE_ATOMS, script_pubkey = dest \<rparr>]
    \<and> (\<forall>env2 body. tx_from_json env2 body = Ok tx \<and> rpc_lock env2 = None \<and> pool_takes X (node_pool n) tx \<longrightarrow>
        ((\<exists>n2 m. rpc_sendrawtransaction X p env2 body n1 = Some (n2, [(200, PendingBody (tx_id tx) m)], Ok ()))
          \<longleftrightarrow> lt \<le> height_or_0 (node_chain n1)))"
proof -
  obtain kh where k: "from_private_key_hex X kh = Some (Ok k)" using unlock_loads [OF un] by blast
  obtain pk where pk: "hex_decode X (public_key_hex k) = Some pk" using own_key [OF X k own] .
  let ?asm = "\<lambda>sg pk. Some (p2pkh_script_sig sg pk)" and ?h = "take 20 (drop 3 own)"
  have ne: "spk \<noteq> []" by (simp add: spk cltv_p2pkh_script_def Let_def)
  have asm: "\<forall>der. ?asm der pk = Some (p2pkh_script_sig der pk)" by simp
  obtain tx der where built: "signed_script_spend X E w k rpc (hex_string spk) dest_addr ?asm = Some (Ok tx)"
    and out: "outputs tx = [\<lparr> value_atoms = row_value row - MIN_RELAY_FEE_ATOMS, script_pubkey = dest \<rparr>]"
    and u: "\<forall>ht. unlocks X \<lparr> sig_hash = signature_hash X tx, block_height = ht \<rparr> pk der ?h"
    and acc: "\<forall>env2 body. tx_from_json env2 body = Ok tx \<and> rpc_lock env2 = None \<and> pool_takes X (node_pool n) tx \<longrightarrow>
      ((\<exists>n2 m. rpc_sendrawtransaction X p env2 body n1 = Some (n2, [(200, PendingBody (tx_id tx) m)], Ok ()))
        \<longleftrightarrow> execute X (p2pkh_script_sig der pk) spk \<lparr> sig_hash = signature_hash X tx, block_height = height_or_0 (node_chain n1) \<rparr> = Ok True)"
    by (rule script_spend [where assemble = ?asm and sig_of = "\<lambda>der. p2pkh_script_sig der pk",
        OF X k w n ne ans coin dest asm pk own address_hash(2) [OF own]])
  let ?ctx = "\<lparr> sig_hash = signature_hash X tx, block_height = height_or_0 (node_chain n1) \<rparr>"
  have "execute X (p2pkh_script_sig der pk) spk ?ctx = Ok True \<longleftrightarrow> lt \<le> height_or_0 (node_chain n1)"
    using cltv_sound [OF address_hash(1) [OF own], of X "p2pkh_script_sig der pk" lt ?ctx]
      cltv_accepts [OF u [rule_format, of "height_or_0 (node_chain n1)"], of lt] unfolding spk by auto
  note acc = acc [unfolded this]
  have "run_wallet X C E [prog, ''vesting-claim'', hex_string spk, dest_addr, rpc] d = cmd_vesting_claim X C E [prog, ''vesting-claim'', hex_string spk, dest_addr, rpc] d"
    by (simp add: run_wallet_def arg_def or_default_def)
  also have "\<dots> = post_and_say X E d rpc ''vesting_claim_txid='' [''note: the node accepts this only once chain height >= the tranche's unlock height''] tx"
    by (simp add: cmd_vesting_claim_def need_arg_def arg_def ok_or_def or_default_def un built)
  finally show ?thesis using out acc by (auto simp: post_and_say_def)
qed

text \<open>
  C20. Atomic swaps through the wallet: for an HTLC output whose recipient (or refund) key is the
  wallet's, \<open>htlc-claim\<close> with the preimage writes a transaction that the node accepts at any height, and
  \<open>htlc-refund\<close> one that it accepts once the chain has reached the locktime; both pay the whole value, less
  the relay fee, to the chosen address.
\<close>

theorem htlc_commands_accepted:
  assumes X: "digest_len X" "bech32_laws X" "hex_laws X" "sign_laws X" and un: "unlock X C E d = Some (Ok (w, k))"
    and w: "wf_public_key_hex w = public_key_hex k" and n: "node_inv X p n"
    and own: "p2pkh_from_address X (address k) = Ok own" and other: "length other = 20"
    and ans: "lists_coins X p E rpc env n (hex_string spk) n1 rows"
    and coin: "find row_mature rows = Some row" "MIN_RELAY_FEE_ATOMS < row_value row"
    and dest: "p2pkh_from_address X dest_addr = Ok dest"
    and disk: "write_faults E ''htlc-claim-tx.json'' = None" "write_faults E ''htlc-refund-tx.json'' = None"
  shows "(spk = htlc_script (sha256 X preimage) (take 20 (drop 3 own)) other lt \<and> 1 \<le> length preimage \<and> length preimage \<le> 75 \<longrightarrow>
      (\<exists>r tx. run_wallet X C E [prog, ''htlc-claim'', hex_string spk, dest_addr, hex_string preimage, rpc] d = Some r
        \<and> hm_get (disk_after r) ''htlc-claim-tx.json'' = Some (TxDoc tx)
        \<and> outputs tx = [\<lparr> value_atoms = row_value row - MIN_RELAY_FEE_ATOMS, script_pubkey = dest \<rparr>]
        \<and> (\<forall>env2 body. tx_from_json env2 body = Ok tx \<and> rpc_lock env2 = None \<and> pool_takes X (node_pool n) tx \<longrightarrow>
            (\<exists>n2 m. rpc_sendrawtransaction X p env2 body n1 = Some (n2, [(200, PendingBody (tx_id tx) m)], Ok ())))))
    \<and> (spk = htlc_script hash other (take 20 (drop 3 own)) lt \<and> length hash = 32 \<and> lt \<le> height_or_0 (node_chain n1) \<longrightarrow>
      (\<exists>r tx. run_wallet X C E [prog, ''htlc-refund'', hex_string spk, dest_addr, rpc] d = Some r
        \<and> hm_get (disk_after r) ''htlc-refund-tx.json'' = Some (TxDoc tx)
        \<and> outputs tx = [\<lparr> value_atoms = row_value row - MIN_RELAY_FEE_ATOMS, script_pubkey = dest \<rparr>]
        \<and> (\<forall>env2 body. tx_from_json env2 body = Ok tx \<and> rpc_lock env2 = None \<and> pool_takes X (node_pool n) tx \<longrightarrow>
            (\<exists>n2 m. rpc_sendrawtransaction X p env2 body n1 = Some (n2, [(200, PendingBody (tx_id tx) m)], Ok ())))))"
    (is "(?A \<longrightarrow> ?claim) \<and> (?B \<longrightarrow> ?refund)")
proof -
  obtain kh where k: "from_private_key_hex X kh = Some (Ok k)" using unlock_loads [OF un] by blast
  obtain pk where pk: "hex_decode X (public_key_hex k) = Some pk" using own_key [OF X k own] .
  let ?h = "take 20 (drop 3 own)" and ?ctx = "\<lambda>tx. \<lparr> sig_hash = signature_hash X tx, block_height = height_or_0 (node_chain n1) \<rparr>"
  have spend: "\<exists>tx der. signed_script_spend X E w k rpc (hex_string spk) dest_addr asm = Some (Ok tx)
      \<and> outputs tx = [\<lparr> value_atoms = row_value row - MIN_RELAY_FEE_ATOMS, script_pubkey = dest \<rparr>] \<and> unlocks X (?ctx tx) pk der ?h
      \<and> (\<forall>env2 body. tx_from_json env2 body = Ok tx \<and> rpc_lock env2 = None \<and> pool_takes X (node_pool n) tx \<longrightarrow>
        ((\<exists>n2 m. rpc_sendrawtransaction X p env2 body n1 = Some (n2, [(200, PendingBody (tx_id tx) m)], Ok ()))
          \<longleftrightarrow> execute X (sig_of der) spk (?ctx tx) = Ok True))"
    if "spk \<noteq> []" "\<forall>der. asm der pk = Some (sig_of der)" for asm sig_of
    by (rule script_spend [where assemble = asm and sig_of = sig_of, OF X k w n that(1) ans coin dest that(2) pk own address_hash(2) [OF own]]) blast
  have ne: "htlc_script a b c l \<noteq> []" for a b c l by (simp add: htlc_script_def Let_def)
  have "?claim" if a: ?A
  proof -
    let ?sig = "\<lambda>der. push_data der @ push_data pk @ push_data preimage @ [OP_1]"
    have sig: "\<forall>der. htlc_claim_script_sig der pk preimage = Some (?sig der)" using a by (simp add: htlc_claim_script_sig_def)
    from spend [of "\<lambda>sg pk. htlc_claim_script_sig sg pk preimage" ?sig] sig a ne obtain tx der where built: "signed_script_spend X E w k rpc (hex_string spk) dest_addr (\<lambda>sg pk. htlc_claim_script_sig sg pk preimage) = Some (Ok tx)"
      and out: "outputs tx = [\<lparr> value_atoms = row_value row - MIN_RELAY_FEE_ATOMS, script_pubkey = dest \<rparr>]" and u: "unlocks X (?ctx tx) pk der ?h"
      and acc: "\<forall>env2 body. tx_from_json env2 body = Ok tx \<and> rpc_lock env2 = None \<and> pool_takes X (node_pool n) tx \<longrightarrow>
        ((\<exists>n2 m. rpc_sendrawtransaction X p env2 body n1 = Some (n2, [(200, PendingBody (tx_id tx) m)], Ok ()))
          \<longleftrightarrow> execute X (?sig der) spk (?ctx tx) = Ok True)" by auto
    have "execute X (?sig der) spk (?ctx tx) = Ok True" using htlc_claim_accepts [OF u X(1) other _ sig [rule_format]] a by blast
    moreover have "run_wallet X C E [prog, ''htlc-claim'', hex_string spk, dest_addr, hex_string preimage, rpc] d
        = finish_spend X E d ''htlc-claim-tx.json'' ''claim_txid='' [] rpc tx"
      using X(3) by (simp add: run_wallet_def cmd_htlc_claim_def need_arg_def arg_def ok_or_def or_default_def un built hex_laws_def)
    ultimately show ?thesis using out acc disk(1) by (simp add: finish_spend_def write_and_say_def fs_write_def say_def)
  qed
  moreover have "?refund" if b: ?B
  proof -
    from spend [of "\<lambda>sg pk. Some (htlc_refund_script_sig sg pk)" "\<lambda>der. htlc_refund_script_sig der pk"] b ne obtain tx der where
      built: "signed_script_spend X E w k rpc (hex_string spk) dest_addr (\<lambda>sg pk. Some (htlc_refund_script_sig sg pk)) = Some (Ok tx)"
      and out: "outputs tx = [\<lparr> value_atoms = row_value row - MIN_RELAY_FEE_ATOMS, script_pubkey = dest \<rparr>]" and u: "unlocks X (?ctx tx) pk der ?h"
      and acc: "\<forall>env2 body. tx_from_json env2 body = Ok tx \<and> rpc_lock env2 = None \<and> pool_takes X (node_pool n) tx \<longrightarrow>
        ((\<exists>n2 m. rpc_sendrawtransaction X p env2 body n1 = Some (n2, [(200, PendingBody (tx_id tx) m)], Ok ()))
          \<longleftrightarrow> execute X (htlc_refund_script_sig der pk) spk (?ctx tx) = Ok True)" by auto
    have "execute X (htlc_refund_script_sig der pk) spk (?ctx tx) = Ok True" using htlc_refund_accepts [OF u _ other, of hash lt] b by simp
    moreover have "run_wallet X C E [prog, ''htlc-refund'', hex_string spk, dest_addr, rpc] d
        = finish_spend X E d ''htlc-refund-tx.json'' ''refund_txid='' [''note: the node only accepts this once chain height >= the HTLC locktime''] rpc tx"
      by (simp add: run_wallet_def cmd_htlc_refund_def need_arg_def arg_def ok_or_def or_default_def un built)
    ultimately show ?thesis using out acc disk(2) by (simp add: finish_spend_def write_and_say_def fs_write_def say_def)
  qed
  ultimately show ?thesis by blast
qed

section \<open>Concrete runs\<close>

lemma fund_unlock:
  obtains k w where "from_private_key_hex fund_ext (hex_string (replicate 32 9)) = Some (Ok k)"
    and "wf_public_key_hex w = public_key_hex k" and "wf_address w = address k"
    and "\<forall>rows. unlock fund_ext demo_crypto (paying_env rows) [(DEFAULT_WALLET_PATH, WalletDoc w)] = Some (Ok (w, k))"
proof -
  obtain k where k: "from_private_key_hex fund_ext (hex_string (replicate 32 9)) = Some (Ok k)" using fund_wallet by blast
  have "hex_decode fund_ext (hex_string (replicate 32 9)) = Some (replicate 32 9)" "hex_encode fund_ext = hex_string"
    using fund_laws(3) by (auto simp: hex_laws_def)
  with k have "private_key_hex k = hex_string (replicate 32 9)"
    by (auto simp: from_private_key_hex_def from_signing_key_def Let_def fund_ext_def split: sum.splits)
  then have lk: "length (private_key_hex k) < 2 ^ 32" by (simp add: hex_string_def hex_byte_def length_concat sum_list_replicate)
  from encrypt_decrypt [OF fund_laws(3,4) demo_crypto_laws k _ _ _ lk, of "replicate 16 4" "replicate 24 5" "''correct horse''"]
  obtain w where w: "wf_address w = address k" "wf_public_key_hex w = public_key_hex k"
    "wallet_decrypt fund_ext demo_crypto w ''correct horse'' = Some (Ok k)" by auto
  have "unlock fund_ext demo_crypto (paying_env rows) [(DEFAULT_WALLET_PATH, WalletDoc w)] = Some (Ok (w, k))" for rows
    by (simp add: unlock_def passphrase_from_env_def load_wallet_def wallet_path_from_env_def or_default_def paying_env_def demo_wallet_env_def w)
  with that k w show ?thesis by blast
qed

lemma locked_node:
  assumes k: "from_private_key_hex fund_ext kh = Some (Ok k)" and own: "p2pkh_from_address fund_ext (address k) = Ok script"
    and spk: "\<not> is_op_return spk" "spk \<noteq> []" "spk \<noteq> script"
  obtains n n1 rows row where "node_inv fund_ext (fund_params (address k)) n" and "node_pool n = []"
    and "lists_coins fund_ext (fund_params (address k)) (paying_env rows) DEFAULT_RPC admin_env n (hex_string spk) n1 rows"
    and "find row_mature rows = Some row" and "row_value row = 990000" and "height_or_0 (node_chain n1) = 1"
proof -
  let ?p = "fund_params (address k)"
  from locked_chain [OF k own spk] obtain s s' op e where s: "reachable fund_ext ?p s" "ensure_utxo_synced fund_ext ?p (reopen s) = (s', Ok ())"
    "height_or_0 s' = 1" "utxos_for_script s' spk = [(op, e)]" "value_atoms (entry_output e) = 990000" "\<not> entry_coinbase e" .
  let ?n = "\<lparr> node_chain = s, node_pool = [], node_bans = [] \<rparr>" and ?row = "utxo_row_of fund_ext ?p 1 (op, e)"
  note hp = hex_param [OF fund_laws(3) spk(2)]
  have hd: "hex_decode fund_ext (hex_string spk) = Some spk" using fund_laws(3) by (simp add: hex_laws_def)
  have "rpc_getutxos fund_ext ?p admin_env (''/getutxos/'' @ hex_string spk) ?n
      = Some (?n\<lparr> node_chain := s' \<rparr>, [(200, UtxosBody (hex_string spk) 1 [?row])], Ok ())"
    unfolding rpc_getutxos_def trim_param [OF hp(1,2)] Let_def using hp(1)
    by (simp add: hp(4) hd rpc_synced_def rpc_state_def load_state_def admin_env_def s reply_def)
  note la = fund_answers [OF this, of DEFAULT_RPC]
  have row: "find row_mature [?row] = Some ?row" "row_value ?row = 990000" using s(5,6) by (simp_all add: utxo_row_of_def mature_at_def)
  have "node_inv fund_ext ?p ?n" using s(1) by (simp add: node_inv_def bans_ok_def)
  with that [OF _ _ la row] s(3) show ?thesis by simp
qed

theorem vesting_lock_accepted_witness:
  "\<exists>k (w :: WalletFile) rows tx schedule n1 env n2 m.
    build_signed_vesting_via_rpc fund_ext (paying_env rows) w k DEFAULT_RPC (address k) 900000 10000 100 3 50 2000 = Ok (tx, schedule)
    \<and> map entry_terms schedule = [(0, 180000), (100, 240000), (150, 240000), (200, 240000)]
    \<and> rpc_sendrawtransaction fund_ext (fund_params (address k)) env [] n1 = Some (n2, [(200, PendingBody (tx_id tx) m)], Ok ())"
proof -
  obtain k where k: "from_private_key_hex fund_ext (hex_string (replicate 32 9)) = Some (Ok k)" using fund_wallet by blast
  note pre = fund_address [OF k]
  from wallet_unlocks [OF fund_laws k] obtain script where script: "p2pkh_from_address fund_ext (address k) = Ok script" by blast
  let ?a = "address k"
  from fund_rows [OF pre script] obtain n1 rows where
    list: "rpc_getutxos fund_ext (fund_params ?a) admin_env (''/getutxos/'' @ ?a) (fund_node ?a) = Some (n1, [(200, UtxosBody ?a 0 rows)], Ok ())"
    and coins: "sum_list (map (unat \<circ> row_value) (filter row_mature rows)) = 1000000" .
  obtain w :: WalletFile where w: "wf_address w = ?a" using some_wallet_file by blast
  have amt: "unat (900000 :: u64) + unat (10000 :: u64) < 2 ^ 64" "MIN_RELAY_FEE_ATOMS \<le> 10000"
    "unat (900000 :: u64) + unat (10000 :: u64) \<le> sum_list (map (unat \<circ> row_value) (filter row_mature rows))"
    "(3 :: u64) \<noteq> 0" "unat (2000 :: u64) \<le> 10000" "unat (900000 :: u64) * unat (2000 :: u64) < 2 ^ 64"
    "unat (100 :: u64) + unat (3 :: u64) * unat (50 :: u64) < 2 ^ 64"
    unfolding coins by (simp_all add: MIN_RELAY_FEE_ATOMS_def)
  from vesting_lock_accepted [OF fund_laws k pre w fund_node_inv fund_answers [OF list] amt(1-3) script amt(4-7), of DEFAULT_RPC]
  obtain tx schedule where b: "build_signed_vesting_via_rpc fund_ext (paying_env rows) w k DEFAULT_RPC ?a 900000 10000 100 3 50 2000 = Ok (tx, schedule)"
    and t: "map entry_terms schedule = (if liquid_part (unat (900000 :: u64)) (unat (2000 :: u64)) > 0
        then [(0, liquid_part (unat (900000 :: u64)) (unat (2000 :: u64)))] else [])
      @ map (\<lambda>i. (unat (100 :: u64) + i * unat (50 :: u64), tranche_part (unat (900000 :: u64) - liquid_part (unat (900000 :: u64)) (unat (2000 :: u64)))
          (unat (3 :: u64)) i)) [0..<unat (3 :: u64)]"
    and send: "\<forall>env2 body. tx_from_json env2 body = Ok tx \<and> rpc_lock env2 = None \<and> pool_takes fund_ext (node_pool (fund_node ?a)) tx \<longrightarrow>
      (\<exists>n2 m. rpc_sendrawtransaction fund_ext (fund_params ?a) env2 body n1 = Some (n2, [(200, PendingBody (tx_id tx) m)], Ok ())
        \<and> hm_get (node_pool n2) (to_hex fund_ext (tx_id tx)) = Some \<lparr> entry_tx = tx, fee_atoms = 10000 \<rparr>)"
    by (elim exE conjE) (rule that)
  have c: "map entry_terms schedule = [(0, 180000), (100, 240000), (150, 240000), (200, 240000)]"
    unfolding t by (simp add: liquid_part_def tranche_part_def upt_rec)
  let ?env = "admin_env\<lparr> tx_from_json := (\<lambda>_. Ok tx) \<rparr>"
  have "tx_from_json ?env [] = Ok tx \<and> rpc_lock ?env = None \<and> pool_takes fund_ext (node_pool (fund_node ?a)) tx"
    by (simp add: admin_env_def fund_node_def pool_takes_def conflicts_with_pending_def MAX_MEMPOOL_TXS_def)
  with send obtain n2 m where "rpc_sendrawtransaction fund_ext (fund_params ?a) ?env [] n1 = Some (n2, [(200, PendingBody (tx_id tx) m)], Ok ())" by blast
  with b c show ?thesis by (intro exI conjI)
qed

lemma cltv_not_p2pkh: "p2pkh_from_address X a = Ok own \<Longrightarrow> cltv_p2pkh_script lt h \<noteq> own"
  using encode_locktime_length [of lt]
  by (auto simp: p2pkh_from_address_def p2pkh_script_def cltv_p2pkh_script_def Let_def OP_DUP_def unat_locktime_length
      dest!: arg_cong [where f = unat] split: option.splits if_splits prod.splits)

lemma cltv_shape: "\<not> is_op_return (cltv_p2pkh_script lt h)" "cltv_p2pkh_script lt h \<noteq> []"
  using encode_locktime_length [of lt]
  by (auto simp: is_op_return_def cltv_p2pkh_script_def Let_def OP_RETURN_def unat_locktime_length dest!: arg_cong [where f = unat])

text \<open>The node takes any transaction into an empty pool.\<close>

lemma empty_pool_takes: "node_pool n = [] \<Longrightarrow> pool_takes X (node_pool n) tx"
  by (simp add: pool_takes_def conflicts_with_pending_def MAX_MEMPOOL_TXS_def)

lemma posting_env: "tx_from_json (admin_env\<lparr> tx_from_json := (\<lambda>_. Ok tx) \<rparr>) [] = Ok tx" "rpc_lock (admin_env\<lparr> tx_from_json := (\<lambda>_. Ok tx) \<rparr>) = None"
  by (simp_all add: admin_env_def)

theorem vesting_claim_iff_witness:
  "\<exists>(k :: WalletKeypair) own rows d r tx n1 env n2 m. p2pkh_from_address fund_ext (address k) = Ok own
    \<and> run_wallet fund_ext demo_crypto (paying_env rows)
      [''txmwallet'', ''vesting-claim'', hex_string (cltv_p2pkh_script 1 (take 20 (drop 3 own))), address k, DEFAULT_RPC] d = Some r
    \<and> posted r = [(normalize_rpc_url DEFAULT_RPC @ ''/sendrawtransaction'', TxDoc tx)]
    \<and> rpc_sendrawtransaction fund_ext (fund_params (address k)) env [] n1 = Some (n2, [(200, PendingBody (tx_id tx) m)], Ok ())"
proof -
  obtain k w where k: "from_private_key_hex fund_ext (hex_string (replicate 32 9)) = Some (Ok k)"
    and w: "wf_public_key_hex w = public_key_hex k" "wf_address w = address k"
    and un: "\<forall>rows. unlock fund_ext demo_crypto (paying_env rows) [(DEFAULT_WALLET_PATH, WalletDoc w)] = Some (Ok (w, k))" using fund_unlock .
  from wallet_unlocks [OF fund_laws k] obtain own where own: "p2pkh_from_address fund_ext (address k) = Ok own" by blast
  let ?spk = "cltv_p2pkh_script 1 (take 20 (drop 3 own))" and ?p = "fund_params (address k)"
  obtain n n1 rows row where n: "node_inv fund_ext ?p n" "node_pool n = []"
    and la: "lists_coins fund_ext ?p (paying_env rows) DEFAULT_RPC admin_env n (hex_string ?spk) n1 rows"
    and row: "find row_mature rows = Some row" "row_value row = 990000" and h: "height_or_0 (node_chain n1) = 1"
    using locked_node [OF k own cltv_shape cltv_not_p2pkh [OF own]] .
  have v: "MIN_RELAY_FEE_ATOMS < row_value row" by (simp add: row(2) MIN_RELAY_FEE_ATOMS_def)
  from vesting_claim_iff [OF fund_laws un [rule_format] w(1) n(1) own refl la row(1) v own, of "''txmwallet''"] obtain r tx where
    r: "run_wallet fund_ext demo_crypto (paying_env rows) [''txmwallet'', ''vesting-claim'', hex_string ?spk, address k, DEFAULT_RPC]
        [(DEFAULT_WALLET_PATH, WalletDoc w)] = Some r"
      "posted r = [(normalize_rpc_url DEFAULT_RPC @ ''/sendrawtransaction'', TxDoc tx)]"
    and acc: "\<forall>env2 body. tx_from_json env2 body = Ok tx \<and> rpc_lock env2 = None \<and> pool_takes fund_ext (node_pool n) tx \<longrightarrow>
        ((\<exists>n2 m. rpc_sendrawtransaction fund_ext ?p env2 body n1 = Some (n2, [(200, PendingBody (tx_id tx) m)], Ok ()))
          \<longleftrightarrow> 1 \<le> height_or_0 (node_chain n1))" by (elim exE conjE) (rule that)
  from acc [rule_format, OF conjI, OF posting_env(1) conjI, OF posting_env(2) empty_pool_takes [OF n(2)]] h
  obtain n2 m where x: "rpc_sendrawtransaction fund_ext ?p (admin_env\<lparr> tx_from_json := (\<lambda>_. Ok tx) \<rparr>) [] n1
      = Some (n2, [(200, PendingBody (tx_id tx) m)], Ok ())" by auto
  from own r x show ?thesis by (intro exI conjI)
qed

lemma htlc_shape:
  assumes "p2pkh_from_address X a = Ok own"
  shows "\<not> is_op_return (htlc_script x y z lt)" "htlc_script x y z lt \<noteq> []" "htlc_script x y z lt \<noteq> own"
  using assms
  by (auto simp: is_op_return_def htlc_script_def p2pkh_from_address_def p2pkh_script_def Let_def opcode_defs
      split: option.splits if_splits prod.splits)

theorem htlc_commands_accepted_witness:
  "\<exists>(k :: WalletKeypair) own rows d r tx n1 env n2 m. p2pkh_from_address fund_ext (address k) = Ok own
    \<and> run_wallet fund_ext demo_crypto (paying_env rows) [''txmwallet'', ''htlc-claim'',
        hex_string (htlc_script (sha256 fund_ext [1, 2, 3]) (take 20 (drop 3 own)) (replicate 20 8) 500), address k, hex_string [1, 2, 3], DEFAULT_RPC] d = Some r
    \<and> hm_get (disk_after r) ''htlc-claim-tx.json'' = Some (TxDoc tx)
    \<and> rpc_sendrawtransaction fund_ext (fund_params (address k)) env [] n1 = Some (n2, [(200, PendingBody (tx_id tx) m)], Ok ())"
proof -
  obtain k w where k: "from_private_key_hex fund_ext (hex_string (replicate 32 9)) = Some (Ok k)"
    and w: "wf_public_key_hex w = public_key_hex k" "wf_address w = address k"
    and un: "\<forall>rows. unlock fund_ext demo_crypto (paying_env rows) [(DEFAULT_WALLET_PATH, WalletDoc w)] = Some (Ok (w, k))" using fund_unlock .
  from wallet_unlocks [OF fund_laws k] obtain own where own: "p2pkh_from_address fund_ext (address k) = Ok own" by blast
  let ?spk = "htlc_script (sha256 fund_ext [1, 2, 3]) (take 20 (drop 3 own)) (replicate 20 8) 500" and ?p = "fund_params (address k)"
  obtain n n1 rows row where n: "node_inv fund_ext ?p n" "node_pool n = []"
    and la: "lists_coins fund_ext ?p (paying_env rows) DEFAULT_RPC admin_env n (hex_string ?spk) n1 rows"
    and row: "find row_mature rows = Some row" "row_value row = 990000" and h: "height_or_0 (node_chain n1) = 1"
    using locked_node [OF k own htlc_shape [OF own]] .
  have v: "MIN_RELAY_FEE_ATOMS < row_value row" by (simp add: row(2) MIN_RELAY_FEE_ATOMS_def)
  have disk: "write_faults (paying_env rows) ''htlc-claim-tx.json'' = None" "write_faults (paying_env rows) ''htlc-refund-tx.json'' = None"
    by (simp_all add: paying_env_def demo_wallet_env_def DEFAULT_WALLET_PATH_def)
  have pre: "1 \<le> length [1, 2, 3 :: u8]" "length [1, 2, 3 :: u8] \<le> 75" "length (replicate 20 8 :: bytes) = 20" by simp_all
  note C = htlc_commands_accepted [OF fund_laws un [rule_format] w(1) n(1) own pre(3) la row(1) v own disk,
      of "[1, 2, 3]" 500 "''txmwallet''", THEN conjunct1, THEN mp, OF conjI, OF refl conjI, OF pre(1,2)]
  from C obtain r tx where
    r: "run_wallet fund_ext demo_crypto (paying_env rows) [''txmwallet'', ''htlc-claim'', hex_string ?spk, address k, hex_string [1, 2, 3], DEFAULT_RPC]
        [(DEFAULT_WALLET_PATH, WalletDoc w)] = Some r" "hm_get (disk_after r) ''htlc-claim-tx.json'' = Some (TxDoc tx)"
    and acc: "\<forall>env2 body. tx_from_json env2 body = Ok tx \<and> rpc_lock env2 = None \<and> pool_takes fund_ext (node_pool n) tx \<longrightarrow>
        (\<exists>n2 m. rpc_sendrawtransaction fund_ext ?p env2 body n1 = Some (n2, [(200, PendingBody (tx_id tx) m)], Ok ()))" by (elim exE conjE) (rule that)
  from acc [rule_format, OF conjI, OF posting_env(1) conjI, OF posting_env(2) empty_pool_takes [OF n(2)]]
  obtain n2 m where x: "rpc_sendrawtransaction fund_ext ?p (admin_env\<lparr> tx_from_json := (\<lambda>_. Ok tx) \<rparr>) [] n1
      = Some (n2, [(200, PendingBody (tx_id tx) m)], Ok ())" by blast
  from own r x show ?thesis by (intro exI conjI)
qed

end
