(* ===== verification/Adapter_Payments.thy ===== *)
theory Adapter_Payments
  imports Adapter_Deposits Wallet_Vesting
begin

text \<open>
  The key store of the adapter and its withdrawals: keys handed out are kept, and a withdrawal built
  from the coins of many addresses is accepted by the node.
\<close>

section \<open>Keys\<close>

text \<open>Every stored key loads, and its address is the one it is stored under.\<close>

definition keystore_ok :: "ext \<Rightarrow> Keystore \<Rightarrow> bool" where
  "keystore_ok X ks \<longleftrightarrow> distinct (map fst (ks_keys ks))
     \<and> (\<forall>(a, h) \<in> set (ks_keys ks). starts_with ''txm1'' a \<and> (\<exists>k. from_private_key_hex X h = Some (Ok k) \<and> address k = a))"

lemma key_script:
  assumes "digest_len X" "bech32_laws X" "from_private_key_hex X h = Some (Ok k)"
  obtains hash spk where "p2pkh_from_address X (address k) = Ok spk" and "p2pkh_script hash = Some spk"
    and "bech32_encode X ADDRESS_HRP (to_base32 X hash) = Some (address k)"
proof -
  from assms(3) obtain b sk where k: "from_signing_key X sk = Some k" by (auto simp: from_private_key_hex_def split: option.splits)
  let ?hash = "take 20 (sha256 X (sk_public X sk))"
  have enc: "bech32_encode X ADDRESS_HRP (to_base32 X ?hash) = Some (address k)"
    using k by (auto simp: from_signing_key_def address_from_public_key_def Let_def split: sum.splits option.splits)
  obtain s where "bech32_encode X ''txm'' (to_base32 X ?hash) = Some s" "bech32_decode X s = Some (''txm'', to_base32 X ?hash)"
    using assms(2) unfolding bech32_laws_def by blast
  with enc have "bech32_decode X (address k) = Some (ADDRESS_HRP, to_base32 X ?hash)" by (simp add: ADDRESS_HRP_def)
  moreover have "from_base32 X (to_base32 X ?hash) = Some ?hash" using assms(2) by (simp add: bech32_laws_def)
  moreover have len: "length ?hash = 20" using assms(1) by (simp add: digest_len_def)
  ultimately have "p2pkh_from_address X (address k) = Ok (the (p2pkh_script ?hash))" by (simp add: p2pkh_from_address_def)
  moreover have "p2pkh_script ?hash = Some (the (p2pkh_script ?hash))" using len by (simp add: p2pkh_script_def)
  ultimately show ?thesis using that enc by blast
qed

lemma p2pkh_script_inj: "p2pkh_script a = Some s \<Longrightarrow> p2pkh_script b = Some s \<Longrightarrow> a = b"
  by (auto simp: p2pkh_script_def split: if_splits)

lemma owner_key:
  assumes X: "digest_len X" "bech32_laws X" and ks: "keystore_ok X ks" and a: "a \<in> set (map fst (ks_keys ks))"
  obtains h k spk where "hm_get (ks_keys ks) a = Some h" and "from_private_key_hex X h = Some (Ok k)" and "address k = a"
    and "starts_with ''txm1'' a" and "p2pkh_from_address X a = Ok spk"
proof -
  from a ks obtain h where m: "(a, h) \<in> set (ks_keys ks)" and g: "hm_get (ks_keys ks) a = Some h" by (auto simp: keystore_ok_def)
  then obtain k where k: "from_private_key_hex X h = Some (Ok k)" "address k = a" "starts_with ''txm1'' a" using ks by (auto simp: keystore_ok_def)
  from key_script [OF X k(1)] obtain spk where "p2pkh_from_address X a = Ok spk" using k(2) by metis
  with that g k show ?thesis by blast
qed

lemma owners_differ:
  assumes X: "digest_len X" "bech32_laws X" and ks: "keystore_ok X ks" and "a \<in> set (map fst (ks_keys ks))" "b \<in> set (map fst (ks_keys ks))"
    and "p2pkh_from_address X a = Ok spk" "p2pkh_from_address X b = Ok spk"
  shows "a = b"
proof -
  from owner_key [OF X ks assms(4)] obtain h k where k: "from_private_key_hex X h = Some (Ok k)" "address k = a" by metis
  from owner_key [OF X ks assms(5)] obtain h' k' where k': "from_private_key_hex X h' = Some (Ok k')" "address k' = b" by metis
  from key_script [OF X k(1)] k'(2) assms(6) obtain x where x: "p2pkh_script x = Some spk" "bech32_encode X ADDRESS_HRP (to_base32 X x) = Some a"
    using k(2) by (metis sum.inject(2))
  from key_script [OF X k'(1)] assms(7) obtain y where y: "p2pkh_script y = Some spk" "bech32_encode X ADDRESS_HRP (to_base32 X y) = Some b"
    using k'(2) by (metis sum.inject(2))
  from p2pkh_script_inj [OF x(1) y(1)] x(2) y(2) show ?thesis by simp
qed

section \<open>Gathering coins\<close>

lemma pick_owned_mature:
  assumes "acc < needed"
  shows "pick_owned needed a us (sel @ map (\<lambda>out. (out, a)) ops) acc
    = res_bind (pick_mature ''bad txid len'' needed us ops acc) (\<lambda>(ops', tot). Ok (sel @ map (\<lambda>out. (out, a)) ops', tot, needed \<le> tot))"
  using assms
proof (induction us arbitrary: ops acc)
  case Nil
  then show ?case by simp
next
  case (Cons u us)
  let ?acc = "sat_add acc (ru_value u)"
  show ?case
  proof (cases "mature u \<and> length (txid_bytes u) = 32")
    case True
    show ?thesis
    proof (cases "needed \<le> ?acc")
      case False
      then have "pick_owned needed a us (sel @ map (\<lambda>out. (out, a)) (ops @ [utxo_point u])) ?acc
        = res_bind (pick_mature ''bad txid len'' needed us (ops @ [utxo_point u]) ?acc) (\<lambda>(ops', tot). Ok (sel @ map (\<lambda>out. (out, a)) ops', tot, needed \<le> tot))"
        by (intro Cons.IH) simp
      with False True show ?thesis by (simp add: Let_def)
    qed (use True in \<open>simp add: Let_def\<close>)
  qed (use Cons in auto)
qed

text \<open>All coins of a list of owners, each with its owner\<close>

definition owned_coins :: "(string \<Rightarrow> (OutPoint \<times> UtxoEntry) list) \<Rightarrow> string list \<Rightarrow> (OutPoint \<times> UtxoEntry \<times> string) list" where
  "owned_coins us as = concat (map (\<lambda>a. map (\<lambda>(out, e). (out, e, a)) (us a)) as)"

abbreviation coin_value :: "OutPoint \<times> UtxoEntry \<times> string \<Rightarrow> u64" where
  "coin_value c \<equiv> value_atoms (entry_output (fst (snd c)))"

lemma gather_spec:
  assumes "\<forall>a \<in> set as. get a = Ok (map (listed X p h) (us a)) \<and> (\<forall>oe \<in> set (us a). length (hash_bytes (op_txid (fst oe))) = 32)" and "acc < needed"
  shows "\<exists>sel tot. gather get needed as ops acc = Ok (ops @ map (\<lambda>(out, e, a). (out, a)) sel, tot) \<and> subseq sel (owned_coins us as)
    \<and> (\<forall>(out, e, a) \<in> set sel. mature_at p h e) \<and> tot = foldl sat_add acc (map coin_value sel)
    \<and> (needed \<le> tot \<or> sel = filter (\<lambda>c. mature_at p h (fst (snd c))) (owned_coins us as))"
  using assms
proof (induction as arbitrary: ops acc)
  case Nil
  show ?case by (intro exI [of _ "[]"]) (simp add: owned_coins_def)
next
  case (Cons a as)
  let ?tag = "\<lambda>(out, e). (out, e, a)" and ?v = "\<lambda>oe. value_atoms (entry_output (snd oe))"
  have l32: "\<forall>oe \<in> set (us a). length (hash_bytes (op_txid (fst oe))) = 32" using Cons.prems(1) by simp
  from pick_mature_spec [OF l32, of "''bad txid len''" needed X p h "[]" acc] obtain s1 t1 where
    pick: "pick_mature ''bad txid len'' needed (map (listed X p h) (us a)) [] acc = Ok (map fst s1, t1)" and s1: "subseq s1 (us a)"
    "\<forall>(out, e) \<in> set s1. mature_at p h e" and t1: "t1 = foldl sat_add acc (map ?v s1)"
    and all1: "needed \<le> t1 \<or> s1 = filter (\<lambda>oe. mature_at p h (snd oe)) (us a)" by auto
  have run: "pick_owned needed a (map (listed X p h) (us a)) ops acc = Ok (ops @ map (\<lambda>out. (out, a)) (map fst s1), t1, needed \<le> t1)"
    using pick_owned_mature [OF Cons.prems(2), of a "map (listed X p h) (us a)" ops "[]"] by (simp add: pick)
  have tags: "map (\<lambda>out. (out, a)) (map fst s1) = map (\<lambda>(out, e, a). (out, a)) (map ?tag s1)" by (simp add: split_beta)
  have sub1: "subseq (map ?tag s1) (map ?tag (us a))" using s1(1) by (rule subseq_map)
  have vals: "map coin_value (map ?tag s1) = map ?v s1" by (simp add: split_beta)
  have coins: "owned_coins us (a # as) = map ?tag (us a) @ owned_coins us as" by (simp add: owned_coins_def)
  have mat1: "\<forall>(out, e, a) \<in> set (map ?tag s1). mature_at p h e" using s1(2) by auto
  show ?case
  proof (cases "needed \<le> t1")
    case True
    have "subseq (map ?tag s1) (owned_coins us (a # as))" 
      unfolding coins using list_emb_append_mono [OF sub1 list_emb_Nil, of "owned_coins us as"] by simp
    moreover have "gather get needed (a # as) ops acc = Ok (ops @ map (\<lambda>(out, e, a). (out, a)) (map ?tag s1), t1)"
      using Cons.prems(1) run True by (simp add: tags [symmetric] del: map_map)
    ultimately show ?thesis using True mat1 t1 vals by (intro exI [of _ "map ?tag s1"] exI [of _ t1]) (simp del: map_map)
  next
    case False
    then have "t1 < needed" by simp
    from Cons.IH [OF _ this, of "ops @ map (\<lambda>out. (out, a)) (map fst s1)"] Cons.prems(1) obtain s2 t2 where
      g: "gather get needed as (ops @ map (\<lambda>out. (out, a)) (map fst s1)) t1 = Ok ((ops @ map (\<lambda>out. (out, a)) (map fst s1)) @ map (\<lambda>(out, e, a). (out, a)) s2, t2)"
      and s2: "subseq s2 (owned_coins us as)" "\<forall>(out, e, a) \<in> set s2. mature_at p h e" "t2 = foldl sat_add t1 (map coin_value s2)"
      "needed \<le> t2 \<or> s2 = filter (\<lambda>c. mature_at p h (fst (snd c))) (owned_coins us as)" by auto
    have "gather get needed (a # as) ops acc = Ok (ops @ map (\<lambda>(out, e, a). (out, a)) (map ?tag s1 @ s2), t2)"
      using Cons.prems(1) run False g by (simp add: tags [symmetric] del: map_map)
    moreover have "subseq (map ?tag s1 @ s2) (owned_coins us (a # as))" unfolding coins using sub1 s2(1) by (rule list_emb_append_mono)
    moreover have "filter (\<lambda>c. mature_at p h (fst (snd c))) (map ?tag (us a)) = map ?tag s1"
      using all1 False by (simp add: filter_map comp_def split_beta)
    then have "needed \<le> t2 \<or> map ?tag s1 @ s2 = filter (\<lambda>c. mature_at p h (fst (snd c))) (owned_coins us (a # as))"
      using s2(4) unfolding coins by auto
    moreover have "t2 = foldl sat_add acc (map coin_value (map ?tag s1 @ s2))" unfolding map_append vals using s2(3) t1 by simp
    moreover have "\<forall>(out, e, a) \<in> set (map ?tag s1 @ s2). mature_at p h e" using mat1 s2(2) by auto
    ultimately show ?thesis by (intro exI [of _ "map ?tag s1 @ s2"] exI [of _ t2] conjI)
  qed
qed

section \<open>Signing for many owners\<close>

lemma owner_scripts_spec:
  assumes X: "digest_len X" "bech32_laws X" "hex_laws X" "sign_laws X" and ks: "keystore_ok X ks" and "set owners \<subseteq> set (map fst (ks_keys ks))"
  shows "\<exists>scs. owner_scripts X ks (signature_hash X tx) owners = Some (Ok scs) \<and> length scs = length owners
    \<and> (\<forall>i < length owners. \<forall>spk ht. p2pkh_from_address X (owners ! i) = Ok spk \<longrightarrow>
        execute X (scs ! i) spk \<lparr> sig_hash = signature_hash X tx, block_height = ht \<rparr> = Ok True)"
  using assms(6)
proof (induction owners)
  case Nil
  then show ?case by simp
next
  case (Cons a owners)
  then have a: "a \<in> set (map fst (ks_keys ks))" by simp
  from owner_key [OF X(1,2) ks a] obtain h k where g: "hm_get (ks_keys ks) a = Some h"
    and k: "from_private_key_hex X h = Some (Ok k)" "address k = a" by metis
  from wallet_signs_hash [OF X k(1)] obtain pk hash own where pk: "hex_decode X (public_key_hex k) = Some pk"
    and own: "p2pkh_from_address X (address k) = Ok own" "p2pkh_script hash = Some own"
    and der: "\<forall>tx. \<exists>der. sign_hash X k (signature_hash X tx) = Ok der
      \<and> (\<forall>ht. unlocks X \<lparr> sig_hash = signature_hash X tx, block_height = ht \<rparr> pk der hash)" .
  from der obtain d where d: "sign_hash X k (signature_hash X tx) = Ok d"
    and un: "\<forall>ht. unlocks X \<lparr> sig_hash = signature_hash X tx, block_height = ht \<rparr> pk d hash" by blast
  have sc: "owner_script X ks (signature_hash X tx) a = Some (Ok (p2pkh_script_sig d pk))"
    by (simp add: owner_script_def g k(1) d pk)
  from Cons obtain scs where scs: "owner_scripts X ks (signature_hash X tx) owners = Some (Ok scs)" "length scs = length owners"
    "\<forall>i < length owners. \<forall>spk ht. p2pkh_from_address X (owners ! i) = Ok spk \<longrightarrow>
      execute X (scs ! i) spk \<lparr> sig_hash = signature_hash X tx, block_height = ht \<rparr> = Ok True" by auto
  have "execute X (p2pkh_script_sig d pk) spk \<lparr> sig_hash = signature_hash X tx, block_height = ht \<rparr> = Ok True"
    if "p2pkh_from_address X a = Ok spk" for spk ht
    using p2pkh_accepts [OF un [rule_format] own(2)] own(1) that k(2) by simp
  with sc scs show ?case by (intro exI [of _ "p2pkh_script_sig d pk # scs"]) (auto simp: less_Suc_eq_0_disj)
qed

lemma stamped_fields:
  assumes "length scs = length (inputs tx)"
  shows "map previous_output (inputs (stamped X scs tx)) = map previous_output (inputs tx)" "outputs (stamped X scs tx) = outputs tx"
    "signature_hash X (stamped X scs tx) = signature_hash X tx" "map signature_script (inputs (stamped X scs tx)) = scs"
proof -
  show prev: "map previous_output (inputs (stamped X scs tx)) = map previous_output (inputs tx)" "outputs (stamped X scs tx) = outputs tx"
    "map signature_script (inputs (stamped X scs tx)) = scs"
    using assms by (auto simp: stamped_def intro!: nth_equalityI)
  show "signature_hash X (stamped X scs tx) = signature_hash X tx"
    using prev by (intro signature_hash_ignores_scripts) (simp_all add: stamped_def)
qed

section \<open>Withdrawals\<close>

text \<open>The node's answers to \<open>/getutxos\<close> for every managed address, as the adapter reads them.\<close>

definition hears_coins ::
  "ext \<Rightarrow> ConsensusParams \<Rightarrow> adapter_env \<Rightarrow> string \<Rightarrow> rpc_env \<Rightarrow> Node \<Rightarrow> Node \<Rightarrow> (string \<Rightarrow> utxo_row list) \<Rightarrow> string list \<Rightarrow> bool" where
  "hears_coins X p E base env n n1 rows as \<longleftrightarrow>
     (\<forall>a \<in> set as. (\<exists>q h. rpc_getutxos X p env (''/getutxos/'' @ a) n = Some (n1, [(200, UtxosBody q h (rows a))], Ok ()))
        \<and> node_utxos E base a = Ok (map rpc_utxo (rows a)))"

lemma heard_coins:
  assumes X: "digest_len X" "bech32_laws X" and n: "node_inv X p n" and ks: "keystore_ok X ks" and ne: "ks_keys ks \<noteq> []"
    and he: "hears_coins X p E base env n n1 rows (map fst (ks_keys ks))"
  obtains s where "n1 = n\<lparr> node_chain := s \<rparr>" and "reachable X p s" and "utxo_cf_ok s" and "read_meta_utxo_tip s = Some (tip_hash X s)"
    and "\<forall>a \<in> set (map fst (ks_keys ks)). \<exists>spk. p2pkh_from_address X a = Ok spk
      \<and> rows a = map (utxo_row_of X p (height_or_0 s)) (utxos_for_script s spk)
      \<and> node_utxos E base a = Ok (map (listed X p (height_or_0 s)) (utxos_for_script s spk))"
proof -
  have one: "n1 = n\<lparr> node_chain := node_chain n1 \<rparr> \<and> reachable X p (node_chain n1) \<and> utxo_cf_ok (node_chain n1)
      \<and> read_meta_utxo_tip (node_chain n1) = Some (tip_hash X (node_chain n1))
      \<and> (\<exists>spk. p2pkh_from_address X a = Ok spk
      \<and> rows a = map (utxo_row_of X p (height_or_0 (node_chain n1))) (utxos_for_script (node_chain n1) spk)
      \<and> node_utxos E base a = Ok (map (listed X p (height_or_0 (node_chain n1))) (utxos_for_script (node_chain n1) spk)))"
    if a: "a \<in> set (map fst (ks_keys ks))" for a
  proof -
    from he a obtain q h where g: "rpc_getutxos X p env (''/getutxos/'' @ a) n = Some (n1, [(200, UtxosBody q h (rows a))], Ok ())"
      and get: "node_utxos E base a = Ok (map rpc_utxo (rows a))" unfolding hears_coins_def by blast
    from owner_key [OF X ks a] obtain spk where pre: "starts_with ''txm1'' a" and spk: "p2pkh_from_address X a = Ok spk" by metis
    have par: "a \<noteq> []" "hd a \<noteq> CHR ''/''" using pre by (auto simp: starts_with_iff)
    from getutxos_answer [OF X(1) n g] obtain s script where
      q: "param_script X q = Some script" "q = trim_start_matches ''/getutxos/'' (''/getutxos/'' @ a)"
      and s: "n1 = n\<lparr> node_chain := s \<rparr>" "reachable X p s" "utxo_cf_ok s" "read_meta_utxo_tip s = Some (tip_hash X s)"
      and h: "h = height_or_0 s" "rows a = map (utxo_row_of X p h) (utxos_for_script s script)" .
    have "q = a" unfolding q(2) by (rule trim_param [OF par])
    then have "script = spk" using q(1) pre spk by (auto simp: param_script_def split: sum.splits)
    then show ?thesis using s h spk get by (simp add: comp_def)
  qed
  obtain a where "a \<in> set (map fst (ks_keys ks))" using ne by (cases "ks_keys ks") auto
  with one have "n1 = n\<lparr> node_chain := node_chain n1 \<rparr>" "reachable X p (node_chain n1)" "utxo_cf_ok (node_chain n1)"
    "read_meta_utxo_tip (node_chain n1) = Some (tip_hash X (node_chain n1))" by blast+
  with that [of "node_chain n1"] one show ?thesis by blast
qed

lemma owned_coin:
  assumes "(out, e, a) \<in> set (owned_coins us as)"
  shows "a \<in> set as" "(out, e) \<in> set (us a)"
  using assms by (auto simp: owned_coins_def)

lemma owned_distinct:
  assumes "distinct as" and "\<And>a. a \<in> set as \<Longrightarrow> distinct (map fst (us a))"
    and "\<And>a b out e e'. a \<in> set as \<Longrightarrow> b \<in> set as \<Longrightarrow> (out, e) \<in> set (us a) \<Longrightarrow> (out, e') \<in> set (us b) \<Longrightarrow> a = b"
  shows "distinct (map fst (owned_coins us as))"
  using assms
proof (induction as)
  case Nil
  then show ?case by (simp add: owned_coins_def)
next
  case (Cons a as)
  have "distinct (map fst (owned_coins us as))" by (rule Cons.IH) (use Cons.prems in auto)
  moreover have split: "map fst (owned_coins us (a # as)) = map fst (us a) @ map fst (owned_coins us as)"
    by (simp add: owned_coins_def comp_def split_beta)
  moreover have "fst ` set (us a) \<inter> fst ` set (owned_coins us as) = {}"
  proof (rule ccontr)
    assume "fst ` set (us a) \<inter> fst ` set (owned_coins us as) \<noteq> {}"
    then obtain out e e' b where "(out, e) \<in> set (us a)" "(out, e', b) \<in> set (owned_coins us as)" by fastforce
    with Cons.prems(1) Cons.prems(3) [of a b out e e'] owned_coin [of out e' b us as] show False by auto
  qed
  ultimately show ?case using Cons.prems(2) [of a] unfolding split by simp
qed

lemma owned_sum:
  "sum_list (map (unat \<circ> coin_value) (filter (\<lambda>c. mature_at p h (fst (snd c))) (owned_coins us as)))
    = sum_list (map (\<lambda>a. sum_list (map (unat \<circ> row_value) (filter row_mature (map (utxo_row_of X p h) (us a))))) as)"
proof (induction as)
  case Nil
  then show ?case by (simp add: owned_coins_def)
next
  case (Cons a as)
  have "filter (\<lambda>c. mature_at p h (fst (snd c))) (map (\<lambda>(out, e). (out, e, a)) (us a))
      = map (\<lambda>(out, e). (out, e, a)) (filter (\<lambda>oe. mature_at p h (snd oe)) (us a))" by (simp add: filter_map comp_def split_beta)
  then have "sum_list (map (unat \<circ> coin_value) (filter (\<lambda>c. mature_at p h (fst (snd c))) (map (\<lambda>(out, e). (out, e, a)) (us a))))
      = sum_list (map (\<lambda>oe. unat (value_atoms (entry_output (snd oe)))) (filter (\<lambda>oe. mature_at p h (snd oe)) (us a)))"
    by (simp add: comp_def split_beta)
  with Cons show ?case unfolding mature_values by (simp add: owned_coins_def comp_def)
qed

text \<open>A transaction that spends coins of several owners, stamped with their scripts, is valid with the fee it leaves.\<close>

lemma stamped_valid:
  assumes coins: "\<forall>(out, e, a) \<in> set sel. utxo_lookup s out = Some e \<and> mature_at p h e \<and> p2pkh_from_address X a = Ok (script_pubkey (entry_output e))"
    and dist: "distinct (map fst sel)" and len: "length scs = length sel"
    and tx: "tx = payment X (map blank_input (map fst sel)) outs"
    and ex: "\<forall>i < length sel. \<forall>spk ht. p2pkh_from_address X (map (snd \<circ> snd) sel ! i) = Ok spk \<longrightarrow>
        execute X (scs ! i) spk \<lparr> sig_hash = signature_hash X tx, block_height = ht \<rparr> = Ok True"
    and sum: "sum_list (map (unat \<circ> value_atoms) outs) + unat fee = min (sum_list (map (unat \<circ> coin_value) sel)) (2 ^ 64 - 1)"
  shows "validate_transaction X p (utxo_lookup s) h (stamped X scs tx) = Ok fee"
proof (rule covered_valid)
  let ?t = "stamped X scs tx"
  have tin: "length scs = length (inputs tx)" "map previous_output (inputs tx) = map fst sel" "outputs tx = outs"
    using len by (simp_all add: tx payment_def Let_def blank_input_def comp_def)
  note f = stamped_fields [OF tin(1), of X]
  have prev: "map previous_output (inputs ?t) = map fst sel" using f(1) tin(2) by simp
  show "distinct (map previous_output (inputs ?t))" using prev dist by simp
  have val: "entry_value (utxo_lookup s) (fst c) = unat (coin_value c)" if "c \<in> set sel" for c
    using coins that by (auto simp: entry_value_def)
  have "input_value (utxo_lookup s) ?t = sum_list (map (entry_value (utxo_lookup s)) (map fst sel))" by (simp add: input_value_def prev [symmetric])
  also have "\<dots> = sum_list (map (unat \<circ> coin_value) sel)" by (simp add: comp_def val cong: map_cong)
  finally show "output_value ?t + unat fee = min (input_value (utxo_lookup s) ?t) (2 ^ 64 - 1)" using sum f(2) tin(3) by (simp add: output_value_def)
  show "\<forall>i \<in> set (inputs ?t). input_ok X p (utxo_lookup s) h ?t i"
  proof
    fix i assume "i \<in> set (inputs ?t)"
    then obtain j where j: "j < length (inputs ?t)" "i = inputs ?t ! j" by (auto simp: in_set_conv_nth)
    have n: "length (inputs ?t) = length sel" using arg_cong [OF prev, of length] by simp
    obtain out e a where c: "sel ! j = (out, e, a)" by (cases "sel ! j") auto
    have "previous_output i = out" using arg_cong [OF prev, of "\<lambda>xs. xs ! j"] j n c by simp
    moreover have "signature_script i = scs ! j" using arg_cong [OF f(4), of "\<lambda>xs. xs ! j"] j by simp
    moreover have "utxo_lookup s out = Some e \<and> mature_at p h e \<and> p2pkh_from_address X a = Ok (script_pubkey (entry_output e))"
      using bspec [OF coins nth_mem [of j sel]] j n c by simp
    moreover from this have "execute X (scs ! j) (script_pubkey (entry_output e)) \<lparr> sig_hash = signature_hash X ?t, block_height = h \<rparr> = Ok True"
      using ex j n c f(3) by auto
    ultimately show "input_ok X p (utxo_lookup s) h ?t i" by (auto simp: input_ok_def mature_at_def immature_def)
  qed
qed

text \<open>The coins that a withdrawal takes\<close>

lemma coins_gathered:
  assumes X: "digest_len X" "bech32_laws X" and n: "node_inv X p n" and ks: "keystore_ok X ks" and ne: "ks_keys ks \<noteq> []"
    and he: "hears_coins X p E base env n n1 rows (map fst (ks_keys ks))" and pos: "0 < needed"
    and enough: "unat needed \<le> sum_list (map (\<lambda>a. sum_list (map (unat \<circ> row_value) (filter row_mature (rows a)))) (map fst (ks_keys ks)))"
  obtains s sel tot where "n1 = n\<lparr> node_chain := s \<rparr>" and "reachable X p s" and "read_meta_utxo_tip s = Some (tip_hash X s)"
    and "gather (node_utxos E base) needed (map fst (ks_keys ks)) [] 0 = Ok (map (\<lambda>(out, e, a). (out, a)) sel, tot)"
    and "needed \<le> tot" and "unat tot = min (sum_list (map (unat \<circ> coin_value) sel)) (2 ^ 64 - 1)" and "sel \<noteq> []"
    and "distinct (map fst sel)" and "set (map (snd \<circ> snd) sel) \<subseteq> set (map fst (ks_keys ks))"
    and "\<forall>(out, e, a) \<in> set sel. utxo_lookup s out = Some e \<and> mature_at p (height_or_0 s) e \<and> p2pkh_from_address X a = Ok (script_pubkey (entry_output e))"
proof -
  let ?as = "map fst (ks_keys ks)"
  from heard_coins [OF X n ks ne he] obtain s where n1: "n1 = n\<lparr> node_chain := s \<rparr>" "reachable X p s" and cf: "utxo_cf_ok s"
    and sy: "read_meta_utxo_tip s = Some (tip_hash X s)"
    and each: "\<forall>a \<in> set ?as. \<exists>spk. p2pkh_from_address X a = Ok spk
      \<and> rows a = map (utxo_row_of X p (height_or_0 s)) (utxos_for_script s spk)
      \<and> node_utxos E base a = Ok (map (listed X p (height_or_0 s)) (utxos_for_script s spk))" .
  from bchoice [OF each] obtain spk_of where spk_of: "\<forall>a \<in> set ?as. p2pkh_from_address X a = Ok (spk_of a)
      \<and> rows a = map (utxo_row_of X p (height_or_0 s)) (utxos_for_script s (spk_of a))
      \<and> node_utxos E base a = Ok (map (listed X p (height_or_0 s)) (utxos_for_script s (spk_of a)))" by blast
  let ?us = "\<lambda>a. utxos_for_script s (spk_of a)" and ?h = "height_or_0 s"
  have coin: "utxo_lookup s out = Some e \<and> script_pubkey (entry_output e) = spk_of a \<and> outpoint_ok out" if "(out, e) \<in> set (?us a)" for out e a
    using that utxos_for_script_exact(2) [OF cf, of out e "spk_of a"] by blast
  have "\<forall>a \<in> set ?as. node_utxos E base a = Ok (map (listed X p ?h) (?us a)) \<and> (\<forall>oe \<in> set (?us a). length (hash_bytes (op_txid (fst oe))) = 32)"
    using spk_of coin by (force simp: outpoint_ok_def hash_ok_def)
  from gather_spec [OF this pos, of "[]"] obtain sel tot where
    g: "gather (node_utxos E base) needed ?as [] 0 = Ok (map (\<lambda>(out, e, a). (out, a)) sel, tot)" and sub: "subseq sel (owned_coins ?us ?as)"
    and mat: "\<forall>(out, e, a) \<in> set sel. mature_at p ?h e" and tot: "tot = foldl sat_add 0 (map coin_value sel)"
    and all: "needed \<le> tot \<or> sel = filter (\<lambda>c. mature_at p ?h (fst (snd c))) (owned_coins ?us ?as)" by auto
  have ut: "unat tot = min (sum_list (map (unat \<circ> coin_value) sel)) (2 ^ 64 - 1)" by (simp add: tot unat_foldl_sat comp_def)
  have rows: "map (\<lambda>a. sum_list (map (unat \<circ> row_value) (filter row_mature (rows a)))) ?as
      = map (\<lambda>a. sum_list (map (unat \<circ> row_value) (filter row_mature (map (utxo_row_of X p ?h) (?us a))))) ?as" using spk_of by simp
  have le: "needed \<le> tot"
  proof (cases "needed \<le> tot")
    case False
    with all enough have "unat needed \<le> sum_list (map (unat \<circ> coin_value) sel)" unfolding rows owned_sum [where X = X, symmetric] by simp
    with ut unat_u64_lt [of needed] show ?thesis by (simp add: word_le_nat_alt)
  qed
  then have some: "sel \<noteq> []" using pos tot by (auto simp: word_less_nat_alt word_le_nat_alt)
  have owners: "(out, e) \<in> set (?us a) \<and> a \<in> set ?as" if "(out, e, a) \<in> set sel" for out e a
    using owned_coin subseq_set [OF sub] that by blast
  have one: "a = b" if "a \<in> set ?as" "b \<in> set ?as" "(out, e) \<in> set (?us a)" "(out, e') \<in> set (?us b)" for a b out e e'
    using owners_differ [OF X ks that(1,2), of "spk_of a"] coin [OF that(3)] coin [OF that(4)] bspec [OF spk_of that(1)] bspec [OF spk_of that(2)] by simp
  have "distinct ?as" using ks unfolding keystore_ok_def by blast
  from owned_distinct [OF this utxos_for_script_exact(1) [OF cf] one] have "distinct (map fst (owned_coins ?us ?as))" .
  moreover obtain N where "map fst sel = nths (map fst (owned_coins ?us ?as)) N" using subseq_map [OF sub, of fst] unfolding subseq_conv_nths by blast
  ultimately have "distinct (map fst sel)" by (simp only: distinct_nthsI)
  moreover have "set (map (snd \<circ> snd) sel) \<subseteq> set ?as" using owners by auto
  moreover have "\<forall>(out, e, a) \<in> set sel. utxo_lookup s out = Some e \<and> mature_at p ?h e \<and> p2pkh_from_address X a = Ok (script_pubkey (entry_output e))"
    using mat owners coin spk_of by fastforce
  ultimately show ?thesis by (rule that [OF n1 sy g le ut some])
qed

text \<open>
  C23. A withdrawal works end to end: when the node lists mature coins worth the amount and the fee over
  all managed addresses, \<open>sendtoaddress\<close> builds one transaction from coins of as many addresses as it
  needs, each input signed by its owner's key, that pays the amount to the destination and the rest to
  the change address; the node accepts it with exactly that fee when its mempool has room and no
  conflict, and the adapter then answers with its id and keeps its keys as they were.
\<close>

theorem withdrawal_accepted:
  assumes X: "digest_len X" "bech32_laws X" "hex_laws X" "sign_laws X" and n: "node_inv X p n" and ks: "keystore_ok X (hot_store w)"
    and chg: "ks_change (hot_store w) = Some c" "c \<in> set (map fst (ks_keys (hot_store w)))"
    and he: "hears_coins X p E base env n n1 rows (map fst (ks_keys (hot_store w)))"
    and amt: "unat amt + unat fee < 2 ^ 64" "MIN_RELAY_FEE_ATOMS \<le> fee"
      "unat amt + unat fee \<le> sum_list (map (\<lambda>a. sum_list (map (unat \<circ> row_value) (filter row_mature (rows a)))) (map fst (ks_keys (hot_store w))))"
    and dest: "p2pkh_from_address X to_addr = Ok spk"
  shows "\<exists>tx rest cspk. p2pkh_from_address X c = Ok cspk \<and> outputs tx = \<lparr> value_atoms = amt, script_pubkey = spk \<rparr> # rest
    \<and> (\<forall>out \<in> set rest. script_pubkey out = cspk)
    \<and> (\<forall>env2 raw. tx_from_json env2 raw = Ok tx \<and> rpc_lock env2 = None \<and> pool_takes X (node_pool n) tx \<longrightarrow>
        (\<exists>n2 m. rpc_sendrawtransaction X p env2 raw n1 = Some (n2, [(200, PendingBody (tx_id tx) m)], Ok ())
          \<and> hm_get (node_pool n2) (to_hex X (tx_id tx)) = Some \<lparr> entry_tx = tx, fee_atoms = fee \<rparr>))
    \<and> (\<forall>raw t. print_tx E tx = Ok raw \<and> send_raw E base raw = Ok t \<longrightarrow>
        hot_send X E base w to_addr amt fee = Some (w, Ok (to_hex X (tx_id tx))))"
proof -
  let ?ks = "hot_store w" and ?as = "map fst (ks_keys (hot_store w))" and ?need = "amt + fee"
  have ne: "ks_keys ?ks \<noteq> []" using chg(2) by auto
  have need: "unat ?need = unat amt + unat fee" using amt(1) by (simp add: unat_plus_if')
  then have pos: "0 < ?need" using amt(2) by (simp add: word_less_nat_alt word_le_nat_alt MIN_RELAY_FEE_ATOMS_def)
  have enough: "unat ?need \<le> sum_list (map (\<lambda>a. sum_list (map (unat \<circ> row_value) (filter row_mature (rows a)))) ?as)"
    unfolding need by (rule amt(3))
  from coins_gathered [OF X(1,2) n ks ne he pos enough] obtain s sel tot where n1: "n1 = n\<lparr> node_chain := s \<rparr>" "reachable X p s"
    and sy: "read_meta_utxo_tip s = Some (tip_hash X s)" and g: "gather (node_utxos E base) ?need ?as [] 0 = Ok (map (\<lambda>(out, e, a). (out, a)) sel, tot)"
    and le: "?need \<le> tot" and ut: "unat tot = min (sum_list (map (unat \<circ> coin_value) sel)) (2 ^ 64 - 1)" and some: "sel \<noteq> []"
    and dist: "distinct (map fst sel)" and owners: "set (map (snd \<circ> snd) sel) \<subseteq> set ?as"
    and coins: "\<forall>(out, e, a) \<in> set sel. utxo_lookup s out = Some e \<and> mature_at p (height_or_0 s) e
      \<and> p2pkh_from_address X a = Ok (script_pubkey (entry_output e))" .
  let ?h = "height_or_0 s"
  obtain cspk where cspk: "p2pkh_from_address X c = Ok cspk" using owner_key [OF X(1,2) ks chg(2)] by metis
  let ?outs = "send_outputs amt spk (tot - ?need) cspk" and ?t = "payment X (map blank_input (map fst sel)) (send_outputs amt spk (tot - ?need) cspk)"
  from owner_scripts_spec [OF X ks owners, of ?t] obtain scs where scs: "owner_scripts X ?ks (signature_hash X ?t) (map (snd \<circ> snd) sel) = Some (Ok scs)"
    "length scs = length sel" "\<forall>i < length sel. \<forall>spk ht. p2pkh_from_address X (map (snd \<circ> snd) sel ! i) = Ok spk \<longrightarrow>
        execute X (scs ! i) spk \<lparr> sig_hash = signature_hash X ?t, block_height = ht \<rparr> = Ok True" by auto
  let ?tx = "stamped X scs ?t"
  have "unat (tot - ?need) = unat tot - unat ?need" using le by (simp add: unat_sub)
  moreover have "sum_list (map (unat \<circ> value_atoms) ?outs) = unat amt + unat (tot - ?need)" by (simp add: send_outputs_def word_gt_0)
  ultimately have sum: "sum_list (map (unat \<circ> value_atoms) ?outs) + unat fee = min (sum_list (map (unat \<circ> coin_value) sel)) (2 ^ 64 - 1)"
    using le need ut by (simp add: word_le_nat_alt)
  from stamped_valid [OF coins dist scs(2) refl scs(3) sum] have valid: "validate_transaction X p (utxo_lookup s) ?h ?tx = Ok fee" .
  have tin: "length scs = length (inputs ?t)" using scs(2) by (simp add: payment_def Let_def)
  have outs: "outputs ?tx = ?outs" using stamped_fields(2) [OF tin] by (simp add: payment_def Let_def)
  have cb: "\<not> is_coinbase ?tx" using some arg_cong [OF stamped_fields(1) [OF tin, of X], of length] by (auto simp: is_coinbase_def payment_def Let_def)
  have send: "hot_send X E base w to_addr amt fee = Some (w, Ok (to_hex X (tx_id ?tx)))" if "print_tx E ?tx = Ok raw" "send_raw E base raw = Ok t" for raw t
  proof -
    have "\<not> 2 ^ 64 \<le> unat amt + unat fee" "\<not> tot < ?need" using amt(1) le by simp_all
    moreover have "map snd (map (\<lambda>(out, e, a). (out, a)) sel) = map (snd \<circ> snd) sel"
      "map (blank_input \<circ> fst) (map (\<lambda>(out, e, a). (out, a)) sel) = map blank_input (map fst sel)" by (simp_all add: split_beta)
    ultimately show ?thesis using scs(1) that
      by (simp add: hot_send_def g Let_def dest change_address_def chg(1) cspk del: map_map)
  qed
  show ?thesis
  proof (intro exI [of _ ?tx] exI [of _ "tl ?outs"] exI [of _ cspk] conjI allI impI)
    show "p2pkh_from_address X c = Ok cspk" by (rule cspk)
    show "outputs ?tx = \<lparr> value_atoms = amt, script_pubkey = spk \<rparr> # tl ?outs" unfolding outs by (simp add: send_outputs_def)
    show "\<forall>out \<in> set (tl ?outs). script_pubkey out = cspk" by (simp add: send_outputs_def)
  next
    fix env2 :: rpc_env and raw assume "tx_from_json env2 raw = Ok ?tx \<and> rpc_lock env2 = None \<and> pool_takes X (node_pool n) ?tx"
    then show "\<exists>n2 m. rpc_sendrawtransaction X p env2 raw n1 = Some (n2, [(200, PendingBody (tx_id ?tx) m)], Ok ())
        \<and> hm_get (node_pool n2) (to_hex X (tx_id ?tx)) = Some \<lparr> entry_tx = ?tx, fee_atoms = fee \<rparr>"
      using valid_tx_sent [OF X(1) n1 sy _ _ valid amt(2) _ cb] by blast
  qed (use send in blast)
qed

definition exchange_env :: "utxo_row list \<Rightarrow> adapter_env" where
  "exchange_env rows = echo_env\<lparr> parse_json := (\<lambda>_. Ok (JObj [(''accepted'', JBool True)])), read_utxos := (\<lambda>_. Ok (map rpc_utxo rows)),
     node_post := (\<lambda>_ _. Ok []) \<rparr>"

theorem withdrawal_accepted_witness:
  "\<exists>w a rows n1 (tx :: Transaction) env n2 m. hot_send fund_ext (exchange_env rows) [] w a 500000 10000 = Some (w, Ok (to_hex fund_ext (tx_id tx)))
    \<and> value_atoms (hd (outputs tx)) = 500000
    \<and> rpc_sendrawtransaction fund_ext (fund_params a) env [] n1 = Some (n2, [(200, PendingBody (tx_id tx) m)], Ok ())"
proof -
  let ?h = "hex_string (replicate 32 9)"
  obtain k where k: "from_private_key_hex fund_ext ?h = Some (Ok k)" using fund_wallet by blast
  note pre = fund_address [OF k]
  from wallet_unlocks [OF fund_laws k] obtain script where script: "p2pkh_from_address fund_ext (address k) = Ok script" by blast
  let ?a = "address k"
  from fund_rows [OF pre script] obtain n1 rows where
    list: "rpc_getutxos fund_ext (fund_params ?a) admin_env (''/getutxos/'' @ ?a) (fund_node ?a) = Some (n1, [(200, UtxosBody ?a 0 rows)], Ok ())"
    and coins: "sum_list (map (unat \<circ> row_value) (filter row_mature rows)) = 1000000" .
  let ?w = "\<lparr> hot_store = \<lparr> ks_keys = [(?a, ?h)], ks_change = Some ?a \<rparr>, hot_file = Absent \<rparr>" and ?E = "exchange_env rows"
  have ks: "keystore_ok fund_ext (hot_store ?w)" using k pre by (simp add: keystore_ok_def)
  have chg: "ks_change (hot_store ?w) = Some ?a" "?a \<in> set (map fst (ks_keys (hot_store ?w)))" by simp_all
  have he: "hears_coins fund_ext (fund_params ?a) ?E [] admin_env (fund_node ?a) n1 (\<lambda>_. rows) (map fst (ks_keys (hot_store ?w)))"
    using list by (simp add: hears_coins_def node_utxos_def node_json_def exchange_env_def echo_env_def)
  have amt: "unat (500000 :: u64) + unat (10000 :: u64) < 2 ^ 64" "MIN_RELAY_FEE_ATOMS \<le> 10000"
    "unat (500000 :: u64) + unat (10000 :: u64)
      \<le> sum_list (map (\<lambda>a. sum_list (map (unat \<circ> row_value) (filter row_mature rows))) (map fst (ks_keys (hot_store ?w))))"
    unfolding coins by (simp_all add: MIN_RELAY_FEE_ATOMS_def)
  from withdrawal_accepted [OF fund_laws fund_node_inv ks chg he amt script] obtain tx rest where
    tx: "outputs tx = \<lparr> value_atoms = 500000, script_pubkey = script \<rparr> # rest"
    and send: "\<forall>env2 raw. tx_from_json env2 raw = Ok tx \<and> rpc_lock env2 = None \<and> pool_takes fund_ext (node_pool (fund_node ?a)) tx \<longrightarrow>
      (\<exists>n2 m. rpc_sendrawtransaction fund_ext (fund_params ?a) env2 raw n1 = Some (n2, [(200, PendingBody (tx_id tx) m)], Ok ())
        \<and> hm_get (node_pool n2) (to_hex fund_ext (tx_id tx)) = Some \<lparr> entry_tx = tx, fee_atoms = 10000 \<rparr>)"
    and built: "\<forall>raw t. print_tx ?E tx = Ok raw \<and> send_raw ?E [] raw = Ok t \<longrightarrow>
      hot_send fund_ext ?E [] ?w ?a 500000 10000 = Some (?w, Ok (to_hex fund_ext (tx_id tx)))" by blast
  let ?env = "admin_env\<lparr> tx_from_json := (\<lambda>_. Ok tx) \<rparr>"
  have "tx_from_json ?env [] = Ok tx \<and> rpc_lock ?env = None \<and> pool_takes fund_ext (node_pool (fund_node ?a)) tx"
    by (simp add: admin_env_def fund_node_def pool_takes_def conflicts_with_pending_def MAX_MEMPOOL_TXS_def)
  with send have "\<exists>n2 m. rpc_sendrawtransaction fund_ext (fund_params ?a) ?env [] n1 = Some (n2, [(200, PendingBody (tx_id tx) m)], Ok ())" by blast
  moreover have "print_tx ?E tx = Ok [] \<and> send_raw ?E [] [] = Ok []"
    by (simp add: exchange_env_def echo_env_def send_raw_def as_bool_def)
  with built have "hot_send fund_ext ?E [] ?w ?a 500000 10000 = Some (?w, Ok (to_hex fund_ext (tx_id tx)))" by blast
  moreover have "value_atoms (hd (outputs tx)) = 500000" by (simp add: tx)
  ultimately show ?thesis by blast
qed

section \<open>Handing out addresses\<close>

text \<open>
  C27. Addresses handed out stay spendable: \<open>getnewaddress\<close> keeps the invariant of the key store, leaves
  every other key as it was, and when the file could be written, a restart from that file has the key
  of the new address, from which the wallet loads the key pair of exactly this address.
\<close>

theorem new_address_kept:
  assumes laws: "hex_laws X" "sign_laws X" and ks: "keystore_ok X (hot_store w)"
    and sk: "sk_from_slice X (fresh_secret E) = Some (fresh_secret E)" and k: "from_signing_key X (fresh_secret E) = Some k"
    and pre: "starts_with ''txm1'' (address k)"
  shows "\<exists>w'. new_address X E w = Some (w', address k) \<and> keystore_ok X (hot_store w')
    \<and> (\<forall>b. b \<noteq> address k \<longrightarrow> hm_get (ks_keys (hot_store w')) b = hm_get (ks_keys (hot_store w)) b)
    \<and> (keys_outcome E = Written \<longrightarrow>
        (\<exists>h. hm_get (ks_keys (hot_store (hot_load (hot_file w')))) (address k) = Some h \<and> from_private_key_hex X h = Some (Ok k)))"
proof -
  have h: "private_key_hex k = hex_encode X (fresh_secret E)"
    using k by (auto simp: from_signing_key_def Let_def split: sum.splits)
  have load: "from_private_key_hex X (private_key_hex k) = Some (Ok k)"
    using laws(1) sk k by (simp add: h from_private_key_hex_def hex_laws_def)
  let ?s = "(hot_store w)\<lparr> ks_keys := hm_insert (address k) (private_key_hex k) (ks_keys (hot_store w)) \<rparr>"
  let ?s' = "if ks_change ?s = None then ?s\<lparr> ks_change := Some (address k) \<rparr> else ?s"
  have keys: "ks_keys ?s' = hm_insert (address k) (private_key_hex k) (ks_keys (hot_store w))" by simp
  have new: "new_address X E w = Some (hot_save E (w\<lparr> hot_store := ?s' \<rparr>), address k)" by (simp add: new_address_def k Let_def)
  have "distinct (map fst (hm_insert (address k) (private_key_hex k) (ks_keys (hot_store w))))"
    using ks by (simp add: keystore_ok_def distinct_update)
  moreover have "starts_with ''txm1'' a \<and> (\<exists>k. from_private_key_hex X x = Some (Ok k) \<and> address k = a)"
    if "(a, x) \<in> set (hm_insert (address k) (private_key_hex k) (ks_keys (hot_store w)))" for a x
  proof (cases "a = address k")
    case True
    with that ks have "x = private_key_hex k" by (metis calculation map_of_eq_Some_iff option.inject update_Some_unfold)
    with True load pre show ?thesis by auto
  next
    case False
    with that have "(a, x) \<in> set (ks_keys (hot_store w))"
      by (metis calculation ks keystore_ok_def map_of_eq_Some_iff update_Some_unfold)
    with ks show ?thesis by (auto simp: keystore_ok_def)
  qed
  ultimately have "keystore_ok X ?s'" unfolding keystore_ok_def keys by blast
  with new load show ?thesis
    by (auto simp: hot_save_def hot_load_def store_def stored_or_def keys)
qed

theorem new_address_kept_witness:
  "\<exists>w' a k. new_address fund_ext (echo_env\<lparr> fresh_secret := replicate 32 9 \<rparr>) (hot_load Absent) = Some (w', a)
    \<and> (\<exists>h. hm_get (ks_keys (hot_store (hot_load (hot_file w')))) a = Some h \<and> from_private_key_hex fund_ext h = Some (Ok (k :: WalletKeypair)))"
proof -
  let ?E = "echo_env\<lparr> fresh_secret := replicate 32 9 \<rparr>"
  obtain k where kh: "from_private_key_hex fund_ext (hex_string (replicate 32 9)) = Some (Ok k)" using fund_wallet by blast
  have "hex_decode fund_ext (hex_string (replicate 32 9)) = Some (replicate 32 9)" using fund_laws(3) by (simp add: hex_laws_def)
  then have k: "from_signing_key fund_ext (fresh_secret ?E) = Some k"
    using kh by (simp add: from_private_key_hex_def fund_ext_def split: option.splits)
  have sk: "sk_from_slice fund_ext (fresh_secret ?E) = Some (fresh_secret ?E)" by (simp add: fund_ext_def)
  have ks: "keystore_ok fund_ext (hot_store (hot_load Absent))" by (simp add: keystore_ok_def hot_load_def stored_or_def keystore_default_def)
  have "keys_outcome ?E = Written" by (simp add: echo_env_def)
  with new_address_kept [OF fund_laws(3,4) ks sk k fund_address [OF kh]] show ?thesis by blast
qed

text \<open>
  The key store is not durable when the file cannot be written: \<open>getnewaddress\<close> answers with an address
  all the same, and after a restart its key is gone.
\<close>

theorem unsaved_address_handed_out:
  assumes k: "from_signing_key X (fresh_secret E) = Some k" and bad: "keys_outcome E \<noteq> Written"
    and new: "\<not> is_mine (hot_load (hot_file (ad_wallet S))) (address k)"
  shows "\<exists>S'. dispatch_rpc X E ctx ''getnewaddress'' params S = Some (S', Ok (JStr (address k)))
    \<and> is_mine (ad_wallet S') (address k) \<and> \<not> is_mine (hot_load (hot_file (ad_wallet S'))) (address k)"
proof -
  from k obtain w' where w: "new_address X E (ad_wallet S) = Some (w', address k)" "is_mine w' (address k)"
    and f: "hot_file w' = fst (store (keys_outcome E) (hot_store w') (hot_file (ad_wallet S)))"
    by (auto simp: new_address_def Let_def hot_save_def is_mine_def)
  have "\<not> is_mine (hot_load (hot_file w')) (address k)"
    using bad new unfolding f by (cases "keys_outcome E") (simp_all add: store_def is_mine_def hot_load_def stored_or_def keystore_default_def)
  then show ?thesis using w by (simp add: dispatch_rpc_def query_def)
qed

end
