(* ===== verification/Asset_Sale.thy ===== *)
theory Asset_Sale
  imports Wallet_Vesting
begin

text \<open>
  A sale of an asset through the wallet program: the order of the seller, \<open>asset-buy\<close> on the buyer's
  computer, \<open>asset-accept\<close> on the seller's. The settlement file travels between the two by hand, so it
  is any file of the seller's disk.
\<close>

section \<open>Signing some inputs\<close>

text \<open>An unlocking script that opens an output of a transaction at any height.\<close>

definition opens :: "ext \<Rightarrow> Transaction \<Rightarrow> bytes \<Rightarrow> bytes \<Rightarrow> bool" where
  "opens X tx spk sg \<longleftrightarrow> (\<forall>ht. execute X sg spk \<lparr> sig_hash = signature_hash X tx, block_height = ht \<rparr> = Ok True)"

text \<open>Two transactions that differ in their unlocking scripts only.\<close>

definition same_but_scripts :: "Transaction \<Rightarrow> Transaction \<Rightarrow> bool" where
  "same_but_scripts tx tx' \<longleftrightarrow>
     outputs tx' = outputs tx \<and> payload tx' = payload tx \<and> map previous_output (inputs tx') = map previous_output (inputs tx)"

lemma same_but_scriptsD:
  assumes "same_but_scripts tx tx'"
  shows "outputs tx' = outputs tx" "map previous_output (inputs tx') = map previous_output (inputs tx)"
    "length (inputs tx') = length (inputs tx)" "signature_hash X tx' = signature_hash X tx" "opens X tx' = opens X tx"
proof -
  show o: "outputs tx' = outputs tx" and m: "map previous_output (inputs tx') = map previous_output (inputs tx)"
    using assms by (simp_all add: same_but_scripts_def)
  show "length (inputs tx') = length (inputs tx)" using arg_cong [OF m, of length] by simp
  show s: "signature_hash X tx' = signature_hash X tx"
    using signature_hash_ignores_scripts [OF m o] assms by (simp add: same_but_scripts_def)
  show "opens X tx' = opens X tx" by (intro ext) (simp add: opens_def s)
qed

lemma same_but_scripts_trans: "same_but_scripts a b \<Longrightarrow> same_but_scripts b c \<Longrightarrow> same_but_scripts a c"
  by (simp add: same_but_scripts_def)

lemma sign_one:
  assumes "digest_len X" "bech32_laws X" "hex_laws X" "sign_laws X" and "from_private_key_hex X kh = Some (Ok k)"
    and own: "p2pkh_from_address X (address k) = Ok own" and n: "n < length (inputs tx)"
  obtains tx' where "sign_input X k tx n = Ok tx'" and "same_but_scripts tx tx'"
    and "\<forall>j. j \<noteq> n \<longrightarrow> inputs tx' ! j = inputs tx ! j" and "opens X tx' own (signature_script (inputs tx' ! n))"
proof -
  from wallet_unlocks [OF assms(1-5)] own obtain pk hash where h: "p2pkh_script hash = Some own"
    and u: "\<forall>tx ht. \<exists>der. wallet_script_sig X k tx = Ok (p2pkh_script_sig der pk)
      \<and> unlocks X \<lparr> sig_hash = signature_hash X tx, block_height = ht \<rparr> pk der hash" by auto
  obtain sg where sg: "wallet_script_sig X k tx = Ok sg" using u by blast
  let ?tx = "refresh_id X (tx\<lparr> inputs := (inputs tx)[n := (inputs tx ! n)\<lparr> signature_script := sg \<rparr>] \<rparr>)"
  have upd: "(map previous_output (inputs tx))[n := previous_output (inputs tx ! n)] = map previous_output (inputs tx)"
    using n by (metis list_update_id map_update)
  have sb: "same_but_scripts tx ?tx" by (simp add: same_but_scripts_def map_update upd)
  have "opens X tx own sg" unfolding opens_def
  proof
    fix ht
    from u [rule_format, of tx ht] obtain der where "sg = p2pkh_script_sig der pk" "unlocks X \<lparr> sig_hash = signature_hash X tx, block_height = ht \<rparr> pk der hash"
      using sg by auto
    then show "execute X sg own \<lparr> sig_hash = signature_hash X tx, block_height = ht \<rparr> = Ok True" using p2pkh_accepts h by blast
  qed
  then have "opens X ?tx own (signature_script (inputs ?tx ! n))" using n by (simp add: same_but_scriptsD(5) [OF sb])
  from that [OF _ sb _ this] n sg show ?thesis by (simp add: sign_input_def)
qed

lemma sign_some:
  assumes "digest_len X" "bech32_laws X" "hex_laws X" "sign_laws X" and "from_private_key_hex X kh = Some (Ok k)"
    and "p2pkh_from_address X (address k) = Ok own" and "\<forall>i \<in> set is. i < length (inputs tx)"
  shows "\<exists>tx'. sign_inputs X k is tx = Ok tx' \<and> same_but_scripts tx tx' \<and> (\<forall>j. j \<notin> set is \<longrightarrow> inputs tx' ! j = inputs tx ! j)
    \<and> (\<forall>i \<in> set is. opens X tx' own (signature_script (inputs tx' ! i)))"
  using assms(7)
proof (induction "is" arbitrary: tx)
  case Nil
  show ?case by (simp add: same_but_scripts_def)
next
  case (Cons i "is")
  then have "i < length (inputs tx)" by simp
  then obtain t1 where t1: "sign_input X k tx i = Ok t1" "same_but_scripts tx t1" "\<forall>j. j \<noteq> i \<longrightarrow> inputs t1 ! j = inputs tx ! j"
    "opens X t1 own (signature_script (inputs t1 ! i))" using sign_one [OF assms(1-6)] by metis
  have "\<forall>i \<in> set is. i < length (inputs t1)" using Cons.prems same_but_scriptsD(3) [OF t1(2)] by simp
  from Cons.IH [OF this] obtain t2 where t2: "sign_inputs X k is t1 = Ok t2" "same_but_scripts t1 t2"
    "\<forall>j. j \<notin> set is \<longrightarrow> inputs t2 ! j = inputs t1 ! j" "\<forall>i \<in> set is. opens X t2 own (signature_script (inputs t2 ! i))" by blast
  have "opens X t2 own (signature_script (inputs t2 ! i))"
    using t2(3,4) t1(4) same_but_scriptsD(5) [OF t2(2)] by (cases "i \<in> set is") simp_all
  with t1 t2 same_but_scripts_trans [OF t1(2) t2(2)] show ?case by (simp add: map_err_def)
qed

section \<open>The parts of a sale\<close>

lemma verify_outputs: "outputs tx' = outputs tx \<Longrightarrow> verify_settlement X tx' terms = verify_settlement X tx terms"
  by (simp add: verify_settlement_def buyer_carrier_ok_def transfer_ok_def extract_asset_op_def has_output_exact_def has_output_at_least_def)

lemma wallet_address_canonical:
  assumes "digest_len X" and "from_private_key_hex X kh = Some (Ok k)"
  shows "canonical_address X (address k)"
proof -
  from assms(2) obtain sk where "from_signing_key X sk = Some k" by (auto simp: from_private_key_hex_def split: option.splits)
  then have "bech32_encode X ADDRESS_HRP (to_base32 X (take 20 (sha256 X (sk_public X sk)))) = Some (address k)"
    by (auto simp: from_signing_key_def address_from_public_key_def Let_def split: option.splits sum.splits)
  moreover have "length (take 20 (sha256 X (sk_public X sk))) = 20" using assms(1) by (simp add: digest_len_def)
  ultimately show ?thesis unfolding canonical_address_def by blast
qed

abbreviation coin_sum :: "(OutPoint \<times> u64) list \<Rightarrow> nat" where
  "coin_sum us \<equiv> sum_list (map (unat \<circ> snd) us)"

lemma fund_buyer_spec:
  "unat s + coin_sum us < 2 ^ 64 \<Longrightarrow>
    \<exists>sel. prefix sel us \<and> fund_buyer needed us acc s = (acc @ sel, foldl (+) s (map snd sel))
      \<and> (sel = us \<or> unat needed \<le> unat s + coin_sum sel)"
proof (induction us arbitrary: acc s)
  case Nil
  show ?case by simp
next
  case (Cons u us)
  obtain p v where u: "u = (p, v)" by fastforce
  have s: "unat (s + v) = unat s + unat v" using Cons.prems by (simp add: unat_word_ariths u)
  show ?case
  proof (cases "needed \<le> s + v")
    case True
    then have "unat needed \<le> unat s + unat v" using s by (simp add: word_le_nat_alt)
    with True show ?thesis by (intro exI [of _ "[u]"]) (simp add: u)
  next
    case False
    have "unat (s + v) + coin_sum us < 2 ^ 64" using Cons.prems s by (simp add: u comp_def)
    from Cons.IH [OF this, of "acc @ [u]"] obtain sel where "prefix sel us"
      "fund_buyer needed us (acc @ [u]) (s + v) = ((acc @ [u]) @ sel, foldl (+) (s + v) (map snd sel))"
      "sel = us \<or> unat needed \<le> unat (s + v) + coin_sum sel" by blast
    with False s show ?thesis by (intro exI [of _ "u # sel"]) (simp add: u comp_def add.assoc)
  qed
qed

lemma prefix_coin_sum: "prefix sel us \<Longrightarrow> coin_sum sel \<le> coin_sum us"
  by (auto simp: prefix_def)

lemma buyer_funds_spec:
  assumes "unat price + 11000 \<le> coin_sum us" and "coin_sum us < 2 ^ 63"
  obtains sel where "buyer_funds price us = Ok sel" and "prefix sel us" and "price + CARRIER_ATOMS + MIN_RELAY_FEE_ATOMS \<le> foldl (+) 0 (map snd sel)"
proof -
  let ?need = "price + CARRIER_ATOMS + MIN_RELAY_FEE_ATOMS"
  have n: "unat ?need = unat price + 11000"
    using assms by (simp add: unat_word_ariths CARRIER_ATOMS_def MIN_RELAY_FEE_ATOMS_def)
  from fund_buyer_spec [of 0 us ?need "[]"] assms(2) obtain sel where p: "prefix sel us"
    and f: "fund_buyer ?need us [] 0 = (sel, foldl (+) 0 (map snd sel))" and c: "sel = us \<or> unat ?need \<le> coin_sum sel" by auto
  have "unat (foldl (+) (0 :: u64) (map snd sel)) = coin_sum sel"
    using foldl_plus_u64 [of 0 "map snd sel"] prefix_coin_sum [OF p] assms(2) by simp
  then have "?need \<le> foldl (+) 0 (map snd sel)" using c n assms(1) unfolding word_le_nat_alt by auto
  then have "buyer_funds price us = Ok sel" "?need \<le> foldl (+) 0 (map snd sel)"
    by (simp_all add: buyer_funds_def f Let_def not_less)
  with p that show ?thesis by blast
qed

lemma fees_within_price:
  assumes "fee_split price bps seller to = (pf, ro)" and "unat bps + 250 \<le> 10000"
  shows "pf + ro \<le> price"
proof -
  have b: "unat bps \<le> 10000" using assms(2) by simp
  have ro: "unat ro \<le> unat price * unat bps div 10000"
    using assms(1) unat_bps_of [OF b, of price] by (auto simp: fee_split_def Let_def split: if_splits)
  have "unat price * 250 div 10000 + unat price * unat bps div 10000 \<le> (unat price * 250 + unat price * unat bps) div 10000"
    unfolding div_add1_eq [of "unat price * 250"] by simp
  also have "\<dots> \<le> unat price * 10000 div 10000"
    using mult_le_mono2 [OF assms(2), of "unat price"] by (intro div_le_mono) (simp add: algebra_simps)
  finally have le: "unat pf + unat ro \<le> unat price" using fee_split_unat(1) [OF assms(1) b] ro by simp
  then show ?thesis using unat_u64_lt [of price] by (simp add: word_le_nat_alt unat_word_ariths)
qed

lemma run_asset_accept:
  assumes "hm_get d path = Some (SettlementDoc f)" and "unlock X C E d = Some (Ok (w, k))"
  shows "run_wallet X C E [prog, ''asset-accept'', path] d =
    (if verify_settlement X (settle_tx f) (settle_terms f) \<noteq> [] then stop d ''settlement failed verify, refusing to sign''
     else if seller_addr (settle_terms f) \<noteq> wf_address w then stop d ''this wallet is not the seller for this settlement''
     else proceed d (Some (map_err wallet_error_text (sign_input X k (settle_tx f) 0))) (\<lambda>tx.
       Some \<lparr> disk_after = d, posted = [(normalize_rpc_url (rpc_of_env E) @ ''/sendrawtransaction'', TxDoc tx)],
         printed = res_bind (rpc_post E (rpc_of_env E) ''/sendrawtransaction'' (TxDoc tx)) (\<lambda>resp.
           Ok [TextDoc (tx_line X ''settlement_txid='' tx), resp]) \<rparr>))"
  using assms by (simp add: run_wallet_def cmd_asset_accept_def arg_def or_default_def read_settlement_def)

text \<open>
  C22. What \<open>asset-accept\<close> checks before it signs, exactly: with a settlement file and a wallet that
  opens, the command returns and posts a transaction if and only if the file's transaction pays what the
  file's own terms say (\<open>verify_settlement\<close>), those terms name this wallet as the seller, and there is an
  input to sign. What it posts is the buyer's transaction with the first input's script replaced by one
  that opens an output of the wallet; nothing else in it changes and no file is written. In particular
  the order the seller published is not consulted: the price is the one in the buyer's file.
\<close>

theorem asset_accept_signs_iff:
  assumes X: "digest_len X" "bech32_laws X" "hex_laws X" "sign_laws X" and un: "unlock X C E d = Some (Ok (w, k))"
    and own: "p2pkh_from_address X (address k) = Ok own" and f: "hm_get d path = Some (SettlementDoc f)"
  shows "\<exists>r. run_wallet X C E [prog, ''asset-accept'', path] d = Some r \<and> disk_after r = d
    \<and> (posted r \<noteq> [] \<longleftrightarrow> verify_settlement X (settle_tx f) (settle_terms f) = [] \<and> seller_addr (settle_terms f) = address k
        \<and> inputs (settle_tx f) \<noteq> [])
    \<and> (posted r \<noteq> [] \<longrightarrow> (\<exists>tx. posted r = [(normalize_rpc_url (rpc_of_env E) @ ''/sendrawtransaction'', TxDoc tx)]
        \<and> same_but_scripts (settle_tx f) tx \<and> (\<forall>j > 0. inputs tx ! j = inputs (settle_tx f) ! j)
        \<and> opens X tx own (signature_script (inputs tx ! 0))))"
proof -
  obtain kh where k: "from_private_key_hex X kh = Some (Ok k)" and a: "wf_address w = address k" using unlock_loads [OF un] by blast
  note run = run_asset_accept [OF f un, of prog, unfolded a]
  show ?thesis
  proof (cases "verify_settlement X (settle_tx f) (settle_terms f) = [] \<and> seller_addr (settle_terms f) = address k
      \<and> inputs (settle_tx f) \<noteq> []")
    case True
    then have "0 < length (inputs (settle_tx f))" by simp
    then obtain tx where "sign_input X k (settle_tx f) 0 = Ok tx" "same_but_scripts (settle_tx f) tx"
      "\<forall>j. j \<noteq> 0 \<longrightarrow> inputs tx ! j = inputs (settle_tx f) ! j" "opens X tx own (signature_script (inputs tx ! 0))"
      using sign_one [OF X k own] by metis
    with True show ?thesis by (simp add: run map_err_def)
  next
    case False
    then have "\<exists>e. run_wallet X C E [prog, ''asset-accept'', path] d = stop d e"
      by (auto simp: run sign_input_def map_err_def)
    with False show ?thesis by (auto simp: stop_def)
  qed
qed

text \<open>
  C17. A sale goes through between two honest wallets: given the seller's order, the royalty of the
  asset, and a buyer whose mature coins cover the price, the carrier and the fee, \<open>asset-buy\<close> writes a
  settlement; whatever disk of the seller that file is copied to, \<open>asset-accept\<close> there posts one
  transaction. It passes \<open>verify_settlement\<close> for the terms of the order, spends the seller's coin and coins
  of the buyer only, and every input is signed: the first opens for the seller, the others for the buyer.
  The seller receives the coin back plus the price less the two fees, and the miner exactly the relay fee.
\<close>

theorem asset_sale_completes:
  assumes X: "digest_len X" "bech32_laws X" "hex_laws X" "sign_laws X"
    and buyer: "unlock X C E d = Some (Ok (w, k))" "p2pkh_from_address X (address k) = Ok own"
    and order: "hm_get d opath = Some (OrderDoc order)" "hex_decode X (asset_id_hex order) = Some aid" "length aid = 32"
      "hex_decode X (seller_txid_hex order) = Some t" "length t = 32"
    and seller: "from_private_key_hex X skh = Some (Ok sk)" "order_seller order = address sk" "p2pkh_from_address X (address sk) = Ok sown"
    and roy: "asset_royalty E (asset_id_hex order) = Ok (bps, roy)" "unat bps + 250 \<le> 10000" "bps \<noteq> 0 \<longrightarrow> canonical_address X roy"
      "canonical_address X PLATFORM_FEE_ADDRESS"
    and coins: "fetch_mature_utxos E (rpc_of_env E) (address k) = Ok us" "unat (order_price order) + 11000 \<le> coin_sum us"
      "unat (seller_value order) + coin_sum us < 2 ^ 63"
    and disk: "write_faults E ''asset-settlement.json'' = None"
    and fs: "fee_split (order_price order) bps (address sk) roy = (pf, ro)"
  shows "\<exists>r f. run_wallet X C E [prog, ''asset-buy'', opath] d = Some r
    \<and> hm_get (disk_after r) ''asset-settlement.json'' = Some (SettlementDoc f)
    \<and> settle_terms f = terms_of_order order aid (address k) bps roy
    \<and> (\<forall>E2 d2 w2 path. unlock X C E2 d2 = Some (Ok (w2, sk)) \<and> hm_get d2 path = Some (SettlementDoc f) \<longrightarrow>
        (\<exists>r2 tx sel. run_wallet X C E2 [prog, ''asset-accept'', path] d2 = Some r2
          \<and> posted r2 = [(normalize_rpc_url (rpc_of_env E2) @ ''/sendrawtransaction'', TxDoc tx)]
          \<and> verify_settlement X tx (settle_terms f) = [] \<and> prefix sel us
          \<and> map previous_output (inputs tx) = \<lparr> op_txid = Hash256 t, output_index = seller_vout order \<rparr> # map fst sel
          \<and> opens X tx sown (signature_script (inputs tx ! 0))
          \<and> (\<forall>i \<in> {1..length sel}. opens X tx own (signature_script (inputs tx ! i)))
          \<and> unat (value_atoms (outputs tx ! 2)) + unat pf + unat ro = unat (seller_value order) + unat (order_price order)
          \<and> sum_list (map (unat \<circ> value_atoms) (outputs tx)) + 10000 = unat (seller_value order) + coin_sum sel))"
proof -
  obtain kh where k: "from_private_key_hex X kh = Some (Ok k)" and a: "wf_address w = address k" using unlock_loads [OF buyer(1)] by blast
  let ?terms = "terms_of_order order aid (address k) bps roy"
    and ?coin = "(\<lparr> op_txid = Hash256 t, output_index = seller_vout order \<rparr>, seller_value order)"
  have T: "price_atoms ?terms = order_price order" "miner_fee_atoms ?terms = MIN_RELAY_FEE_ATOMS" "st_asset_id ?terms = aid"
    "seller_addr ?terms = address sk" "buyer_addr ?terms = address k" "st_royalty_bps ?terms = bps" "st_royalty_addr ?terms = roy"
    by (simp_all add: terms_of_order_def seller(2))
  have can: "canonical_address X (buyer_addr ?terms)" "canonical_address X (seller_addr ?terms)"
    "st_royalty_bps ?terms \<noteq> 0 \<longrightarrow> canonical_address X (st_royalty_addr ?terms)"
    unfolding T using wallet_address_canonical [OF X(1)] k seller(1) roy(3) by blast+
  have fs': "fee_split (price_atoms ?terms) (st_royalty_bps ?terms) (seller_addr ?terms) (st_royalty_addr ?terms) = (pf, ro)"
    unfolding T by (rule fs)
  have small: "coin_sum us < 2 ^ 63" using coins(3) by simp
  obtain sel where sel: "buyer_funds (order_price order) us = Ok sel" "prefix sel us"
    "price_atoms ?terms + CARRIER_ATOMS + miner_fee_atoms ?terms \<le> foldl (+) 0 (map snd sel)"
    unfolding T using buyer_funds_spec [OF coins(2) small] .
  have ro: "canonical_address X (st_royalty_addr ?terms) \<or> ro = 0"
    unfolding T using fee_split_unat(3) [OF fs] roy(2,3) by (cases "ro = 0") (auto simp: word_gt_0)
  have fees: "pf + ro \<le> price_atoms ?terms" unfolding T by (rule fees_within_price [OF fs roy(2)])
  obtain t0 where t0: "build_settlement_tx X ?terms ?coin sel = Ok t0"
    using build_settlement_total [OF X(2) can(1,2) roy(4) ro fs' fees sel(3)] by blast
  have m: "unat MIN_RELAY_FEE_ATOMS = 10000" by (simp add: MIN_RELAY_FEE_ATOMS_def)
  have b: "length (st_asset_id ?terms) = 32" "unat (st_royalty_bps ?terms) \<le> 10000"
    "unat (price_atoms ?terms) + 1000 + unat (miner_fee_atoms ?terms) < 2 ^ 63" "unat (snd ?coin) + coin_sum sel < 2 ^ 63"
    unfolding T m using order(3) roy(2) coins(2,3) prefix_coin_sum [OF sel(2)] by simp_all
  note B = built_settlement_facts [OF X(2) can(1,2) roy(4) can(3) b t0]
  have len: "length (inputs t0) = Suc (length sel)" using arg_cong [OF B [THEN conjunct2, THEN conjunct1], of length] by simp
  have "\<forall>i \<in> set [1..<length (inputs t0)]. i < length (inputs t0)" by simp
  from sign_some [OF X k buyer(2) this] obtain t1 where t1: "sign_inputs X k [1..<length (inputs t0)] t0 = Ok t1"
    and s1: "same_but_scripts t0 t1" and o: "\<forall>i \<in> set [1..<length (inputs t0)]. opens X t1 own (signature_script (inputs t1 ! i))" by blast
  have "set [1..<length (inputs t0)] = {1..length sel}" unfolding len by auto
  note o1 = o [unfolded this]
  let ?f = "\<lparr> settle_tx = t1, settle_terms = ?terms \<rparr>"
  have buy: "\<exists>r. run_wallet X C E [prog, ''asset-buy'', opath] d = Some r
      \<and> hm_get (disk_after r) ''asset-settlement.json'' = Some (SettlementDoc ?f)"
  proof -
    have "checked_settlement X c order ?terms sel = Ok t0" for c
      unfolding checked_settlement_def hex32_or_def ok_or_def order(4) using order(5) t0 B by (simp add: map_err_def)
    then have "run_wallet X C E [prog, ''asset-buy'', opath] d = write_and_say E d ''asset-settlement.json'' (SettlementDoc ?f)
        [''settlement_written=asset-settlement.json'',
         ''send asset-settlement.json back to the seller; they run: txmwallet asset-accept asset-settlement.json'']"
      using order(1-3) buyer(1) roy(1) coins(1) sel(1) t1
      by (simp add: run_wallet_def cmd_asset_buy_def arg_def or_default_def read_order_def hex32_or_def ok_or_def a)
    then show ?thesis by (simp add: write_and_say_def fs_write_def disk say_def)
  qed
  have "\<exists>r2 tx sel. run_wallet X C E2 [prog, ''asset-accept'', path] d2 = Some r2
          \<and> posted r2 = [(normalize_rpc_url (rpc_of_env E2) @ ''/sendrawtransaction'', TxDoc tx)]
          \<and> verify_settlement X tx ?terms = [] \<and> prefix sel us
          \<and> map previous_output (inputs tx) = \<lparr> op_txid = Hash256 t, output_index = seller_vout order \<rparr> # map fst sel
          \<and> opens X tx sown (signature_script (inputs tx ! 0))
          \<and> (\<forall>i \<in> {1..length sel}. opens X tx own (signature_script (inputs tx ! i)))
          \<and> unat (value_atoms (outputs tx ! 2)) + unat pf + unat ro = unat (seller_value order) + unat (order_price order)
          \<and> sum_list (map (unat \<circ> value_atoms) (outputs tx)) + 10000 = unat (seller_value order) + coin_sum sel"
    if un2: "unlock X C E2 d2 = Some (Ok (w2, sk))" and f2: "hm_get d2 path = Some (SettlementDoc ?f)" for E2 d2 w2 path
  proof -
    have n0: "0 < length (inputs t1)" using len same_but_scriptsD(3) [OF s1] by simp
    obtain tx where tx: "sign_input X sk t1 0 = Ok tx" "same_but_scripts t1 tx" "\<forall>j. j \<noteq> 0 \<longrightarrow> inputs tx ! j = inputs t1 ! j"
      "opens X tx sown (signature_script (inputs tx ! 0))" using sign_one [OF X seller(1,3) n0] .
    note s2 = same_but_scripts_trans [OF s1 tx(2)]
    note S = same_but_scriptsD [OF s2]
    have v: "verify_settlement X t1 ?terms = []" using B verify_outputs [OF same_but_scriptsD(1) [OF s1]] by simp
    have "wf_address w2 = address sk" using unlock_loads(2) [OF un2] .
    then have r: "\<exists>r2. run_wallet X C E2 [prog, ''asset-accept'', path] d2 = Some r2
        \<and> posted r2 = [(normalize_rpc_url (rpc_of_env E2) @ ''/sendrawtransaction'', TxDoc tx)]"
      using v tx(1) by (simp add: run_asset_accept [OF f2 un2] T map_err_def)
    have "\<forall>i \<in> {1..length sel}. opens X tx own (signature_script (inputs tx ! i))"
      using o1 tx(3) by (simp add: same_but_scriptsD(5) [OF tx(2)])
    moreover have "verify_settlement X tx ?terms = []" using B verify_outputs [OF S(1)] by simp
    moreover have "unat (value_atoms (outputs tx ! 2)) + unat pf + unat ro = unat (seller_value order) + unat (order_price order)"
      "map previous_output (inputs tx) = \<lparr> op_txid = Hash256 t, output_index = seller_vout order \<rparr> # map fst sel"
      "sum_list (map (unat \<circ> value_atoms) (outputs tx)) + 10000 = unat (seller_value order) + coin_sum sel"
      using B fs' unfolding S(1,2) T m by simp_all
    moreover obtain r2 where "run_wallet X C E2 [prog, ''asset-accept'', path] d2 = Some r2"
      "posted r2 = [(normalize_rpc_url (rpc_of_env E2) @ ''/sendrawtransaction'', TxDoc tx)]" using r by blast
    moreover note tx(4) sel(2)
    ultimately show ?thesis by (intro exI conjI)
  qed
  with buy show ?thesis by (metis (no_types, lifting) SettlementFile.select_convs(2))
qed

section \<open>Witnesses\<close>

text \<open>A bech32 codec in which the platform address decodes, with 32-byte keys; a seller and a buyer.\<close>

definition sale_ext :: ext where
  "sale_ext = swap_ext\<lparr> sk_from_slice := (\<lambda>b. if length b = 32 then Some b else None) \<rparr>"

lemma sale_laws: "digest_len sale_ext" "bech32_laws sale_ext" "hex_laws sale_ext" "sign_laws sale_ext"
proof -
  show "digest_len sale_ext" using demo_digest_len by (simp add: digest_len_def sale_ext_def swap_ext_def)
  show "bech32_laws sale_ext" using swap_ext_laws by (simp add: bech32_laws_def sale_ext_def)
  show "hex_laws sale_ext" using demo_hex_laws by (simp add: hex_laws_def sale_ext_def swap_ext_def)
  show "sign_laws sale_ext" by (auto simp: sign_laws_def sale_ext_def swap_ext_def demo_ext_def)
qed

lemma sale_platform: "canonical_address sale_ext PLATFORM_FEE_ADDRESS"
  using platform_canonical by (simp add: canonical_address_def sale_ext_def)

definition sale_env :: wallet_env where
  "sale_env = demo_wallet_env\<lparr> indexer_var := Some DEFAULT_RPC,
     http_get := (\<lambda>url. if starts_with (normalize_rpc_url DEFAULT_RPC @ ''/asset/'') url then Ok (AssetInfoDoc 0 [])
     else Ok (UtxosDoc [\<lparr> txid_bytes = replicate 32 1, ru_index = 1, ru_value = 1100000, mature = True \<rparr>])) \<rparr>"

lemma starts_with_same: "starts_with (u @ xs) (u @ ys) = starts_with xs ys"
  by (simp add: starts_with_iff)

lemma sale_answers:
  "asset_royalty sale_env h = Ok (0, [])"
  "fetch_mature_utxos sale_env (rpc_of_env sale_env) a = Ok [(\<lparr> op_txid = Hash256 (replicate 32 1), output_index = 1 \<rparr>, 1100000)]"
  by (simp_all add: asset_royalty_def fetch_mature_utxos_def get_utxos_def rpc_get_def sale_env_def demo_wallet_env_def rpc_of_env_def
      or_default_def starts_with_same map_err_def utxo_point_def Let_def)

lemma sale_wallet:
  obtains k w where "from_private_key_hex sale_ext (hex_string (replicate 32 b)) = Some (Ok k)"
    and "\<forall>d. hm_get d DEFAULT_WALLET_PATH = Some (WalletDoc w) \<longrightarrow> unlock sale_ext demo_crypto sale_env d = Some (Ok (w, k))"
proof -
  have hex: "hex_decode sale_ext (hex_string (replicate 32 b)) = Some (replicate 32 b)" "hex_encode sale_ext = hex_string"
    using sale_laws(3) by (auto simp: hex_laws_def)
  have "\<exists>a. bech32_encode sale_ext hrp d = Some a" for hrp d by (simp add: sale_ext_def swap_ext_def demo_ext_def)
  then have "\<exists>k. from_signing_key sale_ext sk = Some k" for sk
    by (auto simp: from_signing_key_def address_from_public_key_def Let_def split: option.splits)
  then obtain k where f: "from_signing_key sale_ext (replicate 32 b) = Some k" by blast
  then have k: "from_private_key_hex sale_ext (hex_string (replicate 32 b)) = Some (Ok k)"
    by (simp add: from_private_key_hex_def hex) (simp add: sale_ext_def)
  from f have "private_key_hex k = hex_string (replicate 32 b)" by (auto simp: from_signing_key_def Let_def hex split: sum.splits)
  then have lk: "length (private_key_hex k) < 2 ^ 32" by (simp add: hex_string_def hex_byte_def length_concat sum_list_replicate)
  from encrypt_decrypt [OF sale_laws(3,4) demo_crypto_laws k _ _ _ lk, of "replicate 16 4" "replicate 24 5" "''correct horse''"]
  obtain w where w: "wallet_decrypt sale_ext demo_crypto w ''correct horse'' = Some (Ok k)" by auto
  have "unlock sale_ext demo_crypto sale_env d = Some (Ok (w, k))" if "hm_get d DEFAULT_WALLET_PATH = Some (WalletDoc w)" for d
    using that by (simp add: unlock_def passphrase_from_env_def load_wallet_def wallet_path_from_env_def or_default_def
        sale_env_def demo_wallet_env_def w)
  with that k show ?thesis by blast
qed

definition sale_order :: "string \<Rightarrow> AssetOrder" where
  "sale_order a = \<lparr> asset_id_hex = hex_string (replicate 32 7), order_amount = 5, order_price = 1000000, order_seller = a,
     seller_txid_hex = hex_string (replicate 32 0), seller_vout = 0, seller_value = 3000 \<rparr>"

theorem asset_sale_completes_witness:
  "\<exists>d (seller :: WalletKeypair) d2 r f r2 tx. hm_get d ''asset-order.json'' = Some (OrderDoc (sale_order (address seller)))
    \<and> run_wallet sale_ext demo_crypto sale_env [''txmwallet'', ''asset-buy'', ''asset-order.json''] d = Some r
    \<and> hm_get (disk_after r) ''asset-settlement.json'' = Some (SettlementDoc f)
    \<and> hm_get d2 ''asset-settlement.json'' = Some (SettlementDoc f)
    \<and> run_wallet sale_ext demo_crypto sale_env [''txmwallet'', ''asset-accept'', ''asset-settlement.json''] d2 = Some r2
    \<and> posted r2 = [(normalize_rpc_url (rpc_of_env sale_env) @ ''/sendrawtransaction'', TxDoc tx)]
    \<and> verify_settlement sale_ext tx (settle_terms f) = [] \<and> unat (value_atoms (outputs tx ! 2)) = 978000"
proof -
  obtain k w where k: "from_private_key_hex sale_ext (hex_string (replicate 32 9)) = Some (Ok k)"
    and un: "\<forall>d. hm_get d DEFAULT_WALLET_PATH = Some (WalletDoc w) \<longrightarrow> unlock sale_ext demo_crypto sale_env d = Some (Ok (w, k))"
    using sale_wallet .
  obtain sk sw where sk: "from_private_key_hex sale_ext (hex_string (replicate 32 8)) = Some (Ok sk)"
    and sun: "\<forall>d. hm_get d DEFAULT_WALLET_PATH = Some (WalletDoc sw) \<longrightarrow> unlock sale_ext demo_crypto sale_env d = Some (Ok (sw, sk))"
    using sale_wallet .
  from wallet_unlocks [OF sale_laws k] obtain own where own: "p2pkh_from_address sale_ext (address k) = Ok own" by blast
  from wallet_unlocks [OF sale_laws sk] obtain sown where sown: "p2pkh_from_address sale_ext (address sk) = Ok sown" by blast
  let ?o = "sale_order (address sk)"
  let ?d = "[(DEFAULT_WALLET_PATH, WalletDoc w), (''asset-order.json'', OrderDoc ?o)]"
    and ?us = "[(\<lparr> op_txid = Hash256 (replicate 32 1), output_index = 1 \<rparr>, 1100000 :: u64)]"
  have d: "hm_get ?d DEFAULT_WALLET_PATH = Some (WalletDoc w)" "hm_get ?d ''asset-order.json'' = Some (OrderDoc ?o)"
    by (simp_all add: DEFAULT_WALLET_PATH_def)
  have hex: "hex_decode sale_ext (asset_id_hex ?o) = Some (replicate 32 7)" "hex_decode sale_ext (seller_txid_hex ?o) = Some (replicate 32 0)"
    using sale_laws(3) by (simp_all add: hex_laws_def sale_order_def)
  have len: "length (replicate 32 7 :: bytes) = 32" "length (replicate 32 0 :: bytes) = 32" by simp_all
  have amt: "unat (order_price ?o) + 11000 \<le> coin_sum ?us" "unat (seller_value ?o) + coin_sum ?us < 2 ^ 63" "order_seller ?o = address sk"
    by (simp_all add: sale_order_def)
  have fs: "fee_split (order_price ?o) 0 (address sk) [] = (25000, 0)"
    by (simp add: fee_split_def sale_order_def bps_of_def PLATFORM_FEE_BPS_def)
  have wr: "write_faults sale_env ''asset-settlement.json'' = None" by (simp add: sale_env_def demo_wallet_env_def DEFAULT_WALLET_PATH_def)
  have bps: "unat (0 :: u16) + 250 \<le> 10000" "(0 :: u16) \<noteq> 0 \<longrightarrow> canonical_address sale_ext []" by simp_all
  from asset_sale_completes [OF sale_laws un [rule_format, OF d(1)] own d(2) hex(1) len(1) hex(2) len(2) sk amt(3) sown sale_answers(1) bps sale_platform
      sale_answers(2) amt(1,2) wr fs, of "''txmwallet''"]
  obtain r f where r: "run_wallet sale_ext demo_crypto sale_env [''txmwallet'', ''asset-buy'', ''asset-order.json''] ?d = Some r"
      "hm_get (disk_after r) ''asset-settlement.json'' = Some (SettlementDoc f)"
    and acc: "\<forall>E2 d2 w2 path. unlock sale_ext demo_crypto E2 d2 = Some (Ok (w2, sk)) \<and> hm_get d2 path = Some (SettlementDoc f) \<longrightarrow>
        (\<exists>r2 tx sel. run_wallet sale_ext demo_crypto E2 [''txmwallet'', ''asset-accept'', path] d2 = Some r2
          \<and> posted r2 = [(normalize_rpc_url (rpc_of_env E2) @ ''/sendrawtransaction'', TxDoc tx)]
          \<and> verify_settlement sale_ext tx (settle_terms f) = [] \<and> prefix sel ?us
          \<and> map previous_output (inputs tx) = \<lparr> op_txid = Hash256 (replicate 32 0), output_index = seller_vout ?o \<rparr> # map fst sel
          \<and> opens sale_ext tx sown (signature_script (inputs tx ! 0))
          \<and> (\<forall>i \<in> {1..length sel}. opens sale_ext tx own (signature_script (inputs tx ! i)))
          \<and> unat (value_atoms (outputs tx ! 2)) + unat (25000 :: u64) + unat (0 :: u64) = unat (seller_value ?o) + unat (order_price ?o)
          \<and> sum_list (map (unat \<circ> value_atoms) (outputs tx)) + 10000 = unat (seller_value ?o) + coin_sum sel)"
    by (elim exE conjE) (rule that)
  let ?d2 = "[(DEFAULT_WALLET_PATH, WalletDoc sw), (''asset-settlement.json'', SettlementDoc f)]"
  have d2: "hm_get ?d2 DEFAULT_WALLET_PATH = Some (WalletDoc sw)" "hm_get ?d2 ''asset-settlement.json'' = Some (SettlementDoc f)"
    by (simp_all add: DEFAULT_WALLET_PATH_def)
  from acc [rule_format, OF conjI, OF sun [rule_format, OF d2(1)] d2(2)] obtain r2 tx where
    r2: "run_wallet sale_ext demo_crypto sale_env [''txmwallet'', ''asset-accept'', ''asset-settlement.json''] ?d2 = Some r2"
      "posted r2 = [(normalize_rpc_url (rpc_of_env sale_env) @ ''/sendrawtransaction'', TxDoc tx)]"
      "verify_settlement sale_ext tx (settle_terms f) = []"
    and v: "unat (value_atoms (outputs tx ! 2)) + unat (25000 :: u64) + unat (0 :: u64) = unat (seller_value ?o) + unat (order_price ?o)"
    by (elim exE conjE) (rule that)
  have "unat (value_atoms (outputs tx ! 2)) = 978000" using v by (simp add: sale_order_def)
  with d(2) r d2(2) r2 show ?thesis by (intro exI conjI)
qed

text \<open>
  A file of the buyer's with the price struck out and nothing for the seller: it is signed and posted
  although the order next to it asks for a million atoms.
\<close>

theorem asset_accept_signs_iff_witness:
  "\<exists>d (seller :: WalletKeypair) f r tx. hm_get d ''asset-order.json'' = Some (OrderDoc (sale_order (address seller)))
    \<and> hm_get d ''asset-settlement.json'' = Some (SettlementDoc f)
    \<and> run_wallet sale_ext demo_crypto sale_env [''txmwallet'', ''asset-accept'', ''asset-settlement.json''] d = Some r
    \<and> posted r = [(normalize_rpc_url (rpc_of_env sale_env) @ ''/sendrawtransaction'', TxDoc tx)]
    \<and> extract_asset_op tx = Some (Transfer \<lparr> asset_id = replicate 32 7, asset_amount = 5, dest_output_index = 0 \<rparr>)
    \<and> (\<forall>out \<in> set (outputs tx). extract_address sale_ext (script_pubkey out) = Some (address seller) \<longrightarrow> value_atoms out = 0)"
proof -
  obtain k w where k: "from_private_key_hex sale_ext (hex_string (replicate 32 8)) = Some (Ok k)"
    and un: "\<forall>d. hm_get d DEFAULT_WALLET_PATH = Some (WalletDoc w) \<longrightarrow> unlock sale_ext demo_crypto sale_env d = Some (Ok (w, k))"
    using sale_wallet .
  from wallet_unlocks [OF sale_laws k] obtain own where own: "p2pkh_from_address sale_ext (address k) = Ok own" by blast
  let ?a = "address k"
  have "canonical_address sale_ext (demo_addr 5)" using demo_addr_canonical [of 5] by (simp add: canonical_address_def sale_ext_def)
  with sale_platform obtain b where b: "canonical_address sale_ext b" "b \<noteq> ?a" by (metis demo_addr_simps(1))
  let ?terms = "\<lparr> st_asset_id = replicate 32 7, st_amount = 5, price_atoms = 0, st_royalty_bps = 0, st_royalty_addr = [],
    seller_addr = ?a, buyer_addr = b, miner_fee_atoms = 10000 \<rparr>"
  have can: "canonical_address sale_ext ?a" using wallet_address_canonical [OF sale_laws(1) k] .
  obtain o0 where o0: "pay_out sale_ext b CARRIER_ATOMS = Ok o0" using pay_out_canonical [OF sale_laws(2) b(1)] by blast
  obtain o2 where o2: "pay_out sale_ext ?a 0 = Ok o2" using pay_out_canonical [OF sale_laws(2) can] by blast
  note P = pay_out_Ok(1,2) [OF o0] pay_out_Ok(3) [OF o0 sale_laws(2) b(1)]
    pay_out_Ok(1) [OF o2] pay_out_Ok(3) [OF o2 sale_laws(2) can]
  let ?tx = "payment sale_ext [blank_input \<lparr> op_txid = ZERO, output_index = 0 \<rparr>] [o0, carrier (settlement_op ?terms), o2]"
  let ?f = "\<lparr> settle_tx = ?tx, settle_terms = ?terms \<rparr>"
  let ?d = "[(DEFAULT_WALLET_PATH, WalletDoc w), (''asset-order.json'', OrderDoc (sale_order ?a)), (''asset-settlement.json'', SettlementDoc ?f)]"
  have outs: "outputs ?tx = [o0, carrier (settlement_op ?terms), o2]" by (simp add: payment_def Let_def)
  have op: "extract_asset_op tx = Some (settlement_op ?terms)" if "outputs tx = outputs ?tx" for tx
    unfolding extract_asset_op_def that outs using op_return_carries [of "settlement_op ?terms" 0 "[o2]"]
    by (simp add: P settlement_op_def)
  have v: "verify_settlement sale_ext ?tx ?terms = []"
  proof -
    have "buyer_carrier_ok sale_ext ?tx ?terms" unfolding buyer_carrier_ok_def outs by (simp add: P)
    moreover have "transfer_ok ?tx ?terms" unfolding transfer_ok_def op [OF refl] by (simp add: settlement_op_def)
    moreover have "has_output_at_least sale_ext ?tx ?a (sat_sub 0 0)"
      unfolding has_output_at_least_def outs by (simp add: P sat_sub_def)
    ultimately show ?thesis by (simp add: verify_settlement_def fee_split_def bps_of_def PLATFORM_FEE_BPS_def)
  qed
  have d: "hm_get ?d DEFAULT_WALLET_PATH = Some (WalletDoc w)" "hm_get ?d ''asset-order.json'' = Some (OrderDoc (sale_order ?a))"
    "hm_get ?d ''asset-settlement.json'' = Some (SettlementDoc ?f)" by (simp_all add: DEFAULT_WALLET_PATH_def)
  have n: "inputs ?tx \<noteq> []" by (simp add: payment_def Let_def)
  from asset_accept_signs_iff [OF sale_laws un [rule_format, OF d(1)] own d(3), of "''txmwallet''"] v n obtain r tx where
    r: "run_wallet sale_ext demo_crypto sale_env [''txmwallet'', ''asset-accept'', ''asset-settlement.json''] ?d = Some r"
      "posted r = [(normalize_rpc_url (rpc_of_env sale_env) @ ''/sendrawtransaction'', TxDoc tx)]" and s: "same_but_scripts ?tx tx"
    unfolding SettlementFile.simps SettlementTerms.simps by blast
  have o: "outputs tx = outputs ?tx" using same_but_scriptsD(1) [OF s] .
  have "\<forall>out \<in> set (outputs tx). extract_address sale_ext (script_pubkey out) = Some ?a \<longrightarrow> value_atoms out = 0"
    unfolding o outs using b(2) by (simp add: P)
  moreover have "extract_asset_op tx = Some (Transfer \<lparr> asset_id = replicate 32 7, asset_amount = 5, dest_output_index = 0 \<rparr>)"
    using op [OF o] by (simp add: settlement_op_def)
  moreover note d(2,3) r
  ultimately show ?thesis by (intro exI conjI)
qed

end
