(* ===== verification/Chain_Migration.thy ===== *)
theory Chain_Migration
  imports Chain_Ledger
begin

text \<open>
  The one-time migration of a node from its old JSON state file: \<open>storage/migration.rs\<close>. What reading
  and parsing the file gives is an argument, and so is the outcome of the database write.
\<close>

section \<open>Operation\<close>

definition migration_blocks :: "ext \<Rightarrow> Block list \<Rightarrow> WriteOp list" where
  "migration_blocks X blocks =
     concat (map (\<lambda>b. [PutBlock (hash_bytes (block_hash X b)) b,
       PutCanonical (encode_height (height (header b))) (hash_bytes (block_hash X b))]) blocks)"

definition migration_batch :: "ext \<Rightarrow> Block list \<Rightarrow> WriteOp list" where
  "migration_batch X blocks =
     (let tip = last blocks in
      migration_blocks X blocks
        @ [PutMeta META_TIP (hash_bytes (block_hash X tip)), PutMeta META_HEIGHT (encode_height (height (header tip)))])"

definition migrate_json_to_rocksdb ::
  "ext \<Rightarrow> (Block list, string) result \<Rightarrow> (unit, string) result \<Rightarrow> ChainState \<Rightarrow> ChainState \<times> (unit, string) result" where
  "migrate_json_to_rocksdb X source written s =
     (case source of
        Err e \<Rightarrow> (s, Err e)
      | Ok blocks \<Rightarrow>
          if blocks = [] then (s, Err ''source JSON has no blocks'')
          else
            let s = reopen s in
            case written of
              Err e \<Rightarrow> (s, Err (''RocksDB write: '' @ e))
            | Ok _ \<Rightarrow> (reload_caches (write_batch (migration_batch X blocks) s), Ok ()))"

section \<open>A migrated chain\<close>

lemma write_blocks_snoc:
  "write_batch (migration_blocks X (chain @ [b])) s =
     (write_batch (migration_blocks X chain) s)
       \<lparr> cf_blocks := hm_insert (hash_bytes (block_hash X b)) b (cf_blocks (write_batch (migration_blocks X chain) s)),
         cf_canonical := hm_insert (encode_height (height (header b))) (hash_bytes (block_hash X b)) (cf_canonical (write_batch (migration_blocks X chain) s)) \<rparr>"
  by (simp add: migration_blocks_def write_batch_def)

lemma migrated_path:
  assumes X: "digest_len X" and bs: "db_inv X bs" and path: "chain_path X bs h chain"
  defines "t \<equiv> write_batch (migration_blocks X chain) new_state"
  shows "db_inv X (cf_blocks t) \<and> chain_path X (cf_blocks t) h chain \<and> hm_ok (cf_canonical t)
    \<and> hm_get (cf_canonical t) = hm_get (canonical_entries X chain) \<and> cf_meta t = [] \<and> cf_utxo t = [] \<and> last_disconnected t = []
    \<and> (\<forall>k c. hm_get (cf_blocks t) k = Some c \<longrightarrow> c \<in> set chain)"
  using path unfolding t_def
proof (induction rule: chain_path.induct)
  case (genesis h b)
  let ?t = "write_batch (migration_blocks X [b]) new_state"
  have nz: "block_hash X b \<noteq> ZERO" "block_ok b" using genesis(1,2) bs by (auto simp: db_inv_def)
  have blocks: "cf_blocks ?t = [(hash_bytes (block_hash X b), b)]" by (simp add: migration_blocks_def write_batch_def new_state_def)
  have p: "chain_path X (cf_blocks ?t) h [b]" using genesis by (intro chain_path.genesis) (simp_all add: blocks)
  have "hash_bytes ZERO \<noteq> hash_bytes (block_hash X b)" using nz(1) by (metis Hash256.expand)
  then have "db_inv X (cf_blocks ?t)" using p genesis(2) nz(2) by (auto simp: db_inv_def blocks split: if_splits)
  with p show ?case unfolding blocks by (simp add: migration_blocks_def write_batch_def new_state_def canonical_entries_def)
next
  case (extend b chain h)
  let ?t = "write_batch (migration_blocks X chain) new_state"
  have nz: "block_hash X b \<noteq> ZERO" "block_ok b" using extend(2,3) bs by (auto simp: db_inv_def)
  have new: "hm_get (cf_blocks ?t) (hash_bytes (block_hash X b)) = None"
  proof (rule ccontr)
    assume "hm_get (cf_blocks ?t) (hash_bytes (block_hash X b)) \<noteq> None"
    then obtain c where c: "hm_get (cf_blocks ?t) (hash_bytes (block_hash X b)) = Some c" "c \<in> set chain" using extend.IH by auto
    then have "hash_bytes (block_hash X c) = hash_bytes (block_hash X b)" using extend.IH by (auto simp: db_inv_def)
    then have "c = b" using chain_path_stored [OF extend.hyps(1) c(2)] extend.hyps(2,3) by simp
    then show False using chain_path_height_less [OF extend.hyps(1) c(2)] extend.hyps(5) by simp
  qed
  have heights: "\<forall>c \<in> set chain. height (header c) \<noteq> height (header b)"
    using chain_path_height_less [OF extend.hyps(1)] extend.hyps(5) by fastforce
  have ins: "db_inv X (hm_insert (hash_bytes (block_hash X b)) b (cf_blocks ?t))
    \<and> chain_path X (hm_insert (hash_bytes (block_hash X b)) b (cf_blocks ?t)) (block_hash X b) (chain @ [b])"
    using extend.IH by (intro db_inv_insert [OF _ new nz]) (use extend.hyps(5) in auto)
  show ?case unfolding write_blocks_snoc
    using ins extend.IH extend.hyps(3) canonical_entries_snoc [OF heights] by (auto simp: distinct_update update_conv')
qed

text \<open>
  C26. Migration keeps the ledger: from the blocks of a node's canonical chain, in order, the migration
  writes a database whose canonical chain, tip and height are those of the old node, that satisfies
  the invariant of reachable states, and whose UTXO set, built on first use, agrees with the old one
  outpoint by outpoint.
\<close>

theorem migration_keeps_ledger:
  assumes X: "digest_len X" and s: "reachable X p s" and sync: "read_meta_utxo_tip s = Some (tip_hash X s)"
  shows "\<exists>m m'. migrate_json_to_rocksdb X (Ok (canonical_blocks_iter s)) (Ok ()) new_state = (m, Ok ())
    \<and> state_inv X p m (canonical_blocks_iter s) \<and> canonical_blocks_iter m = canonical_blocks_iter s
    \<and> tip_cache m = tip_cache s \<and> height_cache m = height_cache s
    \<and> ensure_utxo_synced X p m = (m', Ok ()) \<and> canonical_blocks_iter m' = canonical_blocks_iter s
    \<and> (\<forall>op. outpoint_ok op \<longrightarrow> utxo_lookup m' op = utxo_lookup s op)"
proof -
  from reachable_inv [OF X s] obtain chain where inv: "state_inv X p s chain" by blast
  have iter: "canonical_blocks_iter s = chain" by (rule canonical_blocks_iter_chain [OF X inv])
  from inv have db: "db_inv X (cf_blocks s)" and path: "chain_path X (cf_blocks s) (tip_hash X s) chain"
    and tip: "tip_cache s = Some (last chain)" "height_cache s = Some (height (header (last chain)))" by (simp_all add: state_inv_def)
  have ne: "chain \<noteq> []" and th: "block_hash X (last chain) = tip_hash X s" using chain_path_last [OF path] by auto
  let ?t = "write_batch (migration_blocks X chain) new_state"
  let ?u = "?t\<lparr> cf_meta := [(META_TIP, hash_bytes (tip_hash X s)), (META_HEIGHT, encode_height (height (header (last chain))))] \<rparr>"
  let ?m = "?u\<lparr> height_cache := Some (height (header (last chain))), tip_cache := Some (last chain) \<rparr>"
  note t = migrated_path [OF X db path]
  have "write_batch (migration_batch X chain) new_state = ?u"
    using t by (simp add: migration_batch_def write_batch_def Let_def th META_TIP_def META_HEIGHT_def)
  moreover have "reopen new_state = new_state" by (simp add: reopen_def reload_caches_def new_state_def)
  moreover have "to_hash (hash_bytes (tip_hash X s)) = Some (tip_hash X s)" using block_hash_ok [OF X, of "last chain"] th by simp
  moreover have "get_block_by_hash ?u (tip_hash X s) = Some (last chain)" using t chain_path_last by (auto simp: get_block_by_hash_def)
  ultimately have mig: "migrate_json_to_rocksdb X (Ok chain) (Ok ()) new_state = (?m, Ok ())"
    using ne by (simp add: migrate_json_to_rocksdb_def reload_caches_def)
  have no: "read_meta_utxo_tip ?m = None" by (simp add: read_meta_utxo_tip_def META_TIP_def META_HEIGHT_def META_UTXO_TIP_def)
  have inv': "state_inv X p ?m chain"
    using t no th by (simp add: state_inv_def tip_hash_def)
  obtain uset where r: "replay_utxo_from X p [] chain = Ok uset" and us: "utxo_is s uset" using inv sync by (auto simp: state_inv_def)
  obtain m' r' where en: "ensure_utxo_synced X p ?m = (m', r')" by fastforce
  have iter': "canonical_blocks_iter ?m = chain" by (rule canonical_blocks_iter_chain [OF X inv'])
  have "r' = Ok ()" using en no r iter' by (auto simp: ensure_utxo_synced_def replay_utxo_def Let_def)
  with ensure_utxo_synced_inv [OF X inv' en] have m': "state_inv X p m' chain" "synced X p m' chain" by simp_all
  then obtain uset' where "replay_utxo_from X p [] chain = Ok uset'" "utxo_is m' uset'" by (auto simp: synced_def)
  with r us have "\<forall>op. outpoint_ok op \<longrightarrow> utxo_lookup m' op = utxo_lookup s op" by (simp add: utxo_is_def utxo_lookup_def)
  moreover have "canonical_blocks_iter m' = chain" by (rule canonical_blocks_iter_chain [OF X m'(1)])
  ultimately show ?thesis using mig inv' iter' tip en \<open>r' = Ok ()\<close> unfolding iter by auto
qed

theorem migration_keeps_ledger_witness:
  "\<exists>m. migrate_json_to_rocksdb peek_ext (Ok (canonical_blocks_iter peek_synced)) (Ok ()) new_state = (m, Ok ())
    \<and> canonical_blocks_iter m = canonical_blocks_iter peek_synced \<and> tip_cache m = tip_cache peek_synced"
  using migration_keeps_ledger [OF peek_digest_len peek_synced_reachable peek_synced_stamp] by blast

end
