(* ===== verification/Indexer_Process.thy ===== *)
theory Indexer_Process
  imports Asset_Indexer Rust_Store
begin

text \<open>
  The indexer as a process: its client of the node (\<open>tensorium-indexer/src/rpc.rs\<close>), the snapshot file
  (\<open>save\<close> and \<open>load\<close> of \<open>store.rs\<close>) and one turn of the scanner thread (\<open>tick\<close> of \<open>main.rs\<close>). What
  the node answers to a request text, the readers of \<open>serde_json\<close> and the outcome of the two steps of
  saving are the surroundings.
\<close>

section \<open>Client of the node\<close>

datatype save_outcome = Saved | TmpFailed string | RenameFailed string

record indexer_env =
  node_replies :: "string \<Rightarrow> (string, string) result"
  read_count :: "string \<Rightarrow> (u64 option, string) result"
  read_block :: "string \<Rightarrow> (Hash256 \<times> Block, string) result"
  saving :: save_outcome

definition parse_block_response :: "indexer_env \<Rightarrow> string \<Rightarrow> (Hash256 \<times> Block, string) result" where
  "parse_block_response R body = map_err (\<lambda>e. ''getblock parse: '' @ e) (read_block R body)"

definition parse_count_response :: "indexer_env \<Rightarrow> string \<Rightarrow> (u64 option, string) result" where
  "parse_count_response R body = map_err (\<lambda>e. ''getblockcount parse: '' @ e) (read_count R body)"

definition line_end :: string where "line_end = [CHR 0x0D, CHR 0x0A]"

definition indexer_get :: "indexer_env \<Rightarrow> string \<Rightarrow> string \<Rightarrow> (string, string) result" where
  "indexer_get R addr path =
     res_bind (node_replies R (''GET '' @ path @ '' HTTP/1.1'' @ line_end @ ''host: '' @ addr @ line_end @ ''connection: close'' @ line_end @ line_end))
       (\<lambda>response. case split_once (line_end @ line_end) response of
          None \<Rightarrow> Err ''invalid HTTP response''
        | Some (head, body) \<Rightarrow>
            if \<not> starts_with ''HTTP/1.1 200'' head then Err (''RPC error ('' @ path @ ''): '' @ body) else Ok body)"

definition indexer_block_count :: "indexer_env \<Rightarrow> string \<Rightarrow> (u64 option, string) result" where
  "indexer_block_count R addr = res_bind (indexer_get R addr ''/getblockcount'') (parse_count_response R)"

definition indexer_block_at :: "indexer_env \<Rightarrow> string \<Rightarrow> u64 \<Rightarrow> (Hash256 \<times> Block, string) result" where
  "indexer_block_at R addr h = res_bind (indexer_get R addr (''/getblock/'' @ show_nat (unat h))) (parse_block_response R)"

section \<open>The snapshot file\<close>

text \<open>The snapshot is written beside the file and renamed over it.\<close>

definition snapshot_save :: "ext \<Rightarrow> indexer_env \<Rightarrow> string \<Rightarrow> Indexer \<Rightarrow> Snapshot stored \<Rightarrow> Snapshot stored \<times> (unit, string) result" where
  "snapshot_save X R path idx db =
     (let tmp = path @ ''.tmp'' in
      case saving R of
        Saved \<Rightarrow> (Holding (from_indexer X idx), Ok ())
      | TmpFailed e \<Rightarrow> (db, Err (''write '' @ tmp @ '': '' @ e))
      | RenameFailed e \<Rightarrow> (db, Err (''rename '' @ tmp @ ''->'' @ path @ '': '' @ e)))"

definition snapshot_load :: "string \<Rightarrow> (Snapshot stored, string) result \<Rightarrow> (Indexer, string) result" where
  "snapshot_load path file =
     (case file of
        Err e \<Rightarrow> Err (''read '' @ path @ '': '' @ e)
      | Ok Absent \<Rightarrow> Ok indexer_default
      | Ok Unreadable \<Rightarrow> Err ''parse snapshot''
      | Ok (Holding sn) \<Rightarrow> Ok (apply_to sn indexer_default))"

section \<open>One turn\<close>

definition tick ::
  "ext \<Rightarrow> indexer_env \<Rightarrow> string \<Rightarrow> string \<Rightarrow> Indexer \<times> Snapshot stored \<Rightarrow> (Indexer \<times> Snapshot stored) \<times> (unit, string) result" where
  "tick X R addr path = (\<lambda>(idx, db).
     case indexer_block_count R addr of
       Err e \<Rightarrow> ((idx, db), Err e)
     | Ok None \<Rightarrow> ((idx, db), Ok ())
     | Ok (Some tip) \<Rightarrow>
         if scanned_any idx \<and> last_height idx \<ge> tip then ((idx, db), Ok ())
         else
           (case scan X (\<lambda>w h. (indexer_block_at R addr h, w)) idx tip () of
              (Err e, idx, _) \<Rightarrow> ((idx, db), Err e)
            | (Ok applied, idx, _) \<Rightarrow>
                if applied > 0 then (let (db, r) = snapshot_save X R path idx db in ((idx, db), r))
                else ((idx, db), Ok ())))"

text \<open>
  C28. What one turn of the scanner does: when the node's tip is above the last indexed height, a turn
  that reports success leaves exactly the replay of the node's chain to the tip, whatever
  reorganisation lies between; every turn leaves a consistent index of the old or the new chain, and a
  file that is the old one or the snapshot of the index. But when the tip is not above the last indexed height, nothing happens
  at all: after a reorganisation to a chain that is not longer the index stays the one of the
  abandoned chain, although \<open>sync.rs\<close> would detect it.
\<close>

theorem tick_follows_or_stays:
  assumes hex: "hex_laws X" and ab: "linked a b" and serves: "\<And>h r. indexer_block_at R addr h = Ok r \<Longrightarrow> r = b h"
    and ix: "indexed X a idx" and count: "indexer_block_count R addr = Ok (Some tip)" and tip: "unat tip + 5 < 2 ^ 64"
    and t: "tick X R addr path (idx, db) = ((idx', db'), res)"
  shows "if scanned_any idx \<and> tip \<le> last_height idx then idx' = idx \<and> db' = db \<and> res = Ok ()
    else (indexed X a idx' \<or> indexed X b idx') \<and> (db' = db \<or> db' = Holding (from_indexer X idx'))
      \<and> (res = Ok () \<longrightarrow> scanned_any idx' \<and> snapshot idx' = snapshot (replay X b tip))"
proof (cases "scanned_any idx \<and> tip \<le> last_height idx")
  case True
  then show ?thesis using t count by (simp add: tick_def)
next
  case False
  let ?f = "\<lambda>w h. (indexer_block_at R addr h, w :: unit)"
  have ans: "answers ?f b" using serves by (simp add: answers_def)
  have low: "scanned_any idx \<longrightarrow> last_height idx \<le> tip" using False by auto
  obtain r i w where s: "scan X ?f idx tip () = (r, i, w)" by (metis prod_cases3)
  note f = scan_follows [OF hex ab ans ix tip low s]
  have "idx' = i \<and> (db' = db \<or> db' = Holding (from_indexer X idx')) \<and> (res = Ok () \<longrightarrow> (\<exists>n. r = Ok n))"
    using t count s False
    by (cases r) (auto simp: tick_def snapshot_save_def Let_def split: if_splits save_outcome.splits prod.splits)
  with f False show ?thesis by auto
qed

text \<open>A node that answers from the second of the two chains of empty blocks\<close>

definition fork_env :: indexer_env where
  "fork_env = \<lparr> node_replies = (\<lambda>_. Ok (''HTTP/1.1 200 OK'' @ line_end @ line_end)), read_count = (\<lambda>_. Ok (Some 3)),
     read_block = (\<lambda>_. Err []), saving = Saved \<rparr>"

theorem tick_follows_or_stays_witness:
  "tick demo_ext fork_env [] [] (replay demo_ext (fork_chain 1) 3, Absent) = ((replay demo_ext (fork_chain 1) 3, Absent), Ok ())
    \<and> last_hash (replay demo_ext (fork_chain 1) 3) \<noteq> to_hex demo_ext (fst (fork_chain 2 3))"
proof -
  let ?i = "replay demo_ext (fork_chain 1) 3"
  have lk: "linked (fork_chain 1) (fork_chain 2)" by (auto simp: linked_def fork_chain_def)
  have "height_range 0 3 = [0, 1, 2, 3]" by (simp add: height_range_def upt_rec)
  then have "checkpoint ?i = None" by (simp add: replay_def) (simp add: indexer_default_def)
  then have ix: "indexed demo_ext (fork_chain 1) ?i" by (simp add: indexed_def)
  have get: "indexer_get fork_env [] p = Ok []" for p by (simp add: indexer_get_def fork_env_def line_end_def)
  have count: "indexer_block_count fork_env [] = Ok (Some 3)"
    by (simp add: indexer_block_count_def get parse_count_response_def) (simp add: fork_env_def)
  have no: "r = fork_chain 2 h" if "indexer_block_at fork_env [] h = Ok r" for h r
    using that by (simp add: indexer_block_at_def get parse_block_response_def) (simp add: fork_env_def)
  obtain idx' db' res where t: "tick demo_ext fork_env [] [] (?i, Absent) = ((idx', db'), res)" by (metis surj_pair)
  have "last_hash ?i \<noteq> to_hex demo_ext (fst (fork_chain 2 3))" using demo_hex_laws by (simp add: to_hex_inject fork_chain_def)
  with tick_follows_or_stays [OF demo_hex_laws lk no ix count _ t] t show ?thesis by simp
qed

end
