(* ===== verification/Spec2Isabelle.thy ===== *)
theory Spec2Isabelle
  imports Stratum_Invariant Pool_Payout Adapter_Payments Asset_Sale Chain_Migration Indexer_Process
begin

text \<open>
  A verification library for Tensorium, a proof-of-work chain with a UTXO ledger, a stack-based
  script language, an asset layer in \<open>OP_RETURN\<close> outputs, a full node, an asset indexer, a mining pool,
  a command-line wallet and an RPC adapter for exchanges. The program is a Rust workspace; this development models the code under \<open>src/crates/\<close>.

  \<^bold>\<open>The parts and how they interact.\<close> Miners and peers hand blocks to the node
  (\<open>tensorium-node/src/main.rs\<close>). The node opens the chain database (\<open>tensorium-core/src/state.rs\<close>),
  which checks a block's header against its parent (\<open>validation.rs\<close>, \<open>difficulty.rs\<close>, \<open>pow.rs\<close> and the
  TensorHash crate), stores it, chooses the branch with the most work, and keeps the UTXO set
  (\<open>utxo.rs\<close>) in step; spending runs the script interpreter (\<open>script/vm.rs\<close>). Transactions wait in the
  mempool (\<open>mempool.rs\<close>) until a template takes them; a reorganisation puts orphaned ones back. The
  indexer (\<open>tensorium-indexer\<close>) follows the canonical chain and computes the asset ledger
  (\<open>assets/state.rs\<close>) from the operations that transactions carry (\<open>assets/codec.rs\<close>); the node asks it
  before it builds a transfer. The pool (\<open>tensorium-pool\<close>) hands jobs to workers, credits shares and
  pays miners; its HTTP service passes templates and blocks between solo miners and the node and keeps
  the ledger of what it owes. The adapter (\<open>txm-rpc-adapter\<close>) offers an exchange the calls of a Bitcoin
  node: it manages deposit addresses, scans blocks for deposits and pays withdrawals through the node's
  RPC interface. The wallet program (\<open>txmwallet\<close>) keeps an encrypted key file, asks the node for coins,
  builds and signs payments, asset operations, vesting locks, hash-locked swaps and sales of assets,
  and posts them to the node.

  \<^bold>\<open>Theories and sources\<close>, in the order of their imports:

  \<^item> \<open>Txm_Prelude\<close>: the collections of simplification rules, saturating arithmetic, results
    (\<open>Ok\<close>/\<open>Err\<close> of \<open>Result\<close>), byte strings and text, and hash maps as association lists.
  \<^item> \<open>Chain_Params\<close>: \<open>chain.rs\<close>, \<open>emission.rs\<close>. \<open>Ext_Crates\<close>: the third-party crates (digests, ECDSA,
    bech32, hex) as the fields of a record that every definition takes as an argument, and
    \<open>hash.rs\<close>. Theorems that need more of them have the hypotheses \<open>digest_len\<close>, \<open>bech32_laws\<close>,
    \<open>hex_laws\<close> or \<open>sign_laws\<close>, and witnesses on a concrete record.
  \<^item> \<open>Script_Standard\<close>: \<open>script/mod.rs\<close>, \<open>script/standard.rs\<close>. \<open>Block_Model\<close>: \<open>block.rs\<close>, \<open>pow.rs\<close> and
    \<open>tensorium-tensorhash\<close>. \<open>Script_VM\<close>: \<open>script/vm.rs\<close>. \<open>Block_Validation\<close>: \<open>difficulty.rs\<close>,
    \<open>validation.rs\<close>. \<open>Utxo_Set\<close>: \<open>utxo.rs\<close>. \<open>Storage_Keys\<close>: \<open>storage/mod.rs\<close>. \<open>Chain_State\<close>: \<open>state.rs\<close>.
    \<open>Mem_Pool\<close>: \<open>mempool.rs\<close>. \<open>Wallet_Keys\<close>: \<open>wallet.rs\<close>.
  \<^item> \<open>Asset_Codec\<close>: \<open>assets/mod.rs\<close>, \<open>assets/codec.rs\<close>. \<open>Asset_State\<close>: \<open>assets/state.rs\<close>.
    \<open>Asset_Indexer\<close>: the indexer's \<open>index.rs\<close>, \<open>sync.rs\<close>, \<open>store.rs\<close>. \<open>Asset_Settlement\<close>:
    \<open>settlement.rs\<close>. \<open>Asset_Api\<close>: the indexer's \<open>api.rs\<close> and the node's client of it.
  \<^item> \<open>Pool_Accounting\<close>: the pool's \<open>accounting.rs\<close>, \<open>payout.rs\<close>. \<open>Stratum_Server\<close>: its \<open>stratum.rs\<close>.
    \<open>Pool_Http\<close>: its \<open>main.rs\<close> (the HTTP service, the custody commands). \<open>Stratum_Protocol\<close>: the rest
    of \<open>stratum.rs\<close> (jobs from the node's templates, posting blocks, the messages and turns of a
    connection). \<open>Pool_Payout\<close>: the rest of \<open>payout.rs\<close> (running the wallet program) and the states that
    \<open>serve\<close> starts with.
  \<^item> \<open>Rust_Text\<close>: the functions of the standard library's \<open>str\<close> and of JSON values that the servers
    use. \<open>Rust_Float\<close>: the \<open>f64\<close> arithmetic and printing of amounts. \<open>Rust_Store\<close>: a file that is
    read, written whole, and whose write may fail. \<open>Block_Json\<close>: the JSON of blocks and templates.
    \<open>Node_Peers\<close>: the peer-to-peer half of the node's \<open>main.rs\<close> (ban list, handshake, messages,
    synchronisation). \<open>Node_Rpc\<close>: its HTTP half (reading requests, authorisation, every endpoint).
  \<^item> \<open>Wallet_File\<close>: the encrypted key file of \<open>txmwallet/src/main.rs\<close>, with the crates \<open>argon2\<close> and
    \<open>chacha20poly1305\<close> as the record \<open>crypto\<close> and their documented behaviour as \<open>crypto_laws\<close>.
    \<open>Wallet_Cli\<close>: what the program reads and writes, and the builders of its transactions.
    \<open>Wallet_Commands\<close>: every command of \<open>run\<close>. A run takes the files, the arguments and its
    surroundings (environment variables, clock, random bytes, answers over HTTP, write faults) and gives
    the files it leaves, what it posted and what it printed; \<open>None\<close> is a panic.
  \<^item> \<open>Adapter\<close>: \<open>txm-rpc-adapter\<close> (amounts, the key and ledger files, the deposit scanner, every RPC
    method, authorisation). \<open>Chain_Migration\<close>: \<open>storage/migration.rs\<close>. \<open>Indexer_Process\<close>: the indexer's
    \<open>main.rs\<close>, \<open>rpc.rs\<close> and the saving and loading of \<open>store.rs\<close>.

  The state of the program appears as records with the fields of the code: \<open>ChainState\<close> (the column
  families of the database, the caches, the blocks disconnected last), \<open>AssetState\<close>, \<open>Indexer\<close>,
  \<open>StratumState\<close>, and \<open>Node\<close>, which joins the chain database, the mempool and the ban list that the
  node keeps in files. An operation takes and returns the state; an error is a value. Rust's
  integers are words, so overflow is visible: where the code saturates the model does, where it uses
  plain \<open>+\<close> the model wraps as a release build does.

  \<^bold>\<open>What the lemmas show.\<close>

  \<^item> Scripts (\<open>Script_Security\<close>): no unlocking script spends a standard output without what the
    template asks for (signature, preimage, lock height, m of n signatures), what the wallet builds
    is accepted, limits are kept, and a later block height only helps.
  \<^item> Ledger (\<open>Utxo_Set\<close>, \<open>Chain_Invariant\<close>, \<open>Chain_Ledger\<close>): a block creates at most its subsidy,
    spends each output once and only with its script; \<open>chain_path\<close> and \<open>state_inv\<close> describe the states
    that blocks alone can produce (\<open>reachable\<close>), in which the canonical index, the parent links, the
    caches and the UTXO column family all describe one chain, the one of most work; the supply cap
    follows. The locale \<open>reads_only\<close> lets a check run on a partial set; \<open>key_codec\<close> and
    \<open>ordered_key_codec\<close> are the contract between the database and its key encodings.
  \<^item> Mempool and mining (\<open>Mem_Pool\<close>, \<open>Mining_Liveness\<close>): the pool never holds a double spend, and a
    template from the RPC interface, once mined, is accepted and becomes the tip.
  \<^item> Assets (\<open>Asset_State\<close>, \<open>Asset_Indexer\<close>, \<open>Asset_Settlement\<close>, \<open>Asset_Api\<close>, \<open>Asset_Payments\<close>):
    units are conserved and only their holder moves them, the indexer refines the replay of the
    canonical chain across reorganisations and failing fetches, settlements pay who they should, the
    node's balance check is exact, and an asset transaction built by the node and signed by the
    wallet is accepted.
  \<^item> Pool (\<open>Pool_Accounting\<close>, \<open>Stratum_Server\<close>): shares are credited in proportion, payouts stay
    within the mature balance, and a share has exactly the effects described. \<open>Pool_Safety\<close>: a block
    posted to the pool is credited exactly when the node takes it, with nothing lost to rounding; and
    what a block posted twice or a failing ledger write does to the accounts. \<open>Stratum_Mining\<close>: a
    template of the node, solved by a worker, becomes the node's tip and is credited. \<open>Stratum_Invariant\<close>:
    the step relation \<open>stratum_step\<close> of the server and what every interleaving keeps.
  \<^item> Node (\<open>Node_Safety\<close>, \<open>Rpc_Safety\<close>, \<open>Utxo_Listing\<close>): the locale \<open>node_service\<close> says what one event
    may do to a node; it is interpreted for connections, messages, synchronisation, RPC requests and
    the whole node, so that any interleaving keeps the invariant. Further: the ban policy, requeueing
    after reorganisations, termination of synchronisation, reading requests in pieces, the admin
    token, and the exactness of \<open>/getutxos\<close>.

  \<^item> Wallet (\<open>Wallet_Safety\<close>, \<open>Wallet_Payments\<close>, \<open>Locked_Coins\<close>, \<open>Wallet_Vesting\<close>, \<open>Asset_Sale\<close>): the
    key file opens again under its passphrase, changing the passphrase never loses the key whatever
    write fails, and the wallet and the node work together: payments, vesting locks, swap claims and
    refunds built from \<open>/getutxos\<close> are accepted by \<open>/sendrawtransaction\<close>, a vested coin exactly from
    its height on; a sale between two wallets ends in one fully signed settlement, and what the
    seller's command checks before signing is stated exactly. \<open>Locked_Coins\<close> builds the chain with
    coins under a lock on which the witnesses run.
  \<^item> Adapter (\<open>Adapter_Amounts\<close>, \<open>Adapter_Deposits\<close>, \<open>Adapter_Payments\<close>): amounts survive printing and
    parsing, no call works without the password, a scan to the tip of a chain that only grows records
    every deposit once, withdrawals signed with several keys are accepted by the node, and an address
    whose key was saved is still there after a restart.
  \<^item> Processes (\<open>Chain_Migration\<close>, \<open>Indexer_Process\<close>): migrating the JSON database gives the state it
    described, and one turn of the indexer follows the node's chain or keeps its state.

  Some lemmas show behaviour that the comments of the code do not promise or contradict (declared
  transaction ids, blocks stored before their transactions are checked, bans of honest peers while
  the database is locked, a synchronisation that does not end, a seller's check that trusts the terms
  the buyer wrote, a panic on a damaged key file, a pool block credited each time it is posted, a
  payment mark lost with its file, deposits that a reorganisation removed but the scanner keeps,
  addresses handed out whose key was never saved, an indexer blind to a reorganisation at equal
  height); their text says so.

  \<^bold>\<open>Loops and bounds.\<close> Loops over lists are structural recursion or have a \<open>termination\<close> proof. The
  loops that follow parent hashes and the synchronisation loop need not end on arbitrary input, so
  they are \<open>partial_function (option)\<close>, with \<open>None\<close> for not returning; on reachable states they are
  proved to return, and synchronisation is proved to return when the peer answers finitely often.
  No fuel is used. Heights are assumed below \<open>2^64 - 1\<close> and the total work below \<open>2^128 - 1\<close> where
  the statement says so.

  \<^bold>\<open>Not modelled.\<close> Sockets, threads and their interleaving inside one message (one message or
  request is one step; the database lock that threads contend for is an input of the step), the text
  of JSON and of HTTP responses (a response is its status and its values), RocksDB itself (a column
  family is an association list read in key order), failures of the node's own file writes (those of
  the wallet, the pool, the adapter and the indexer are modelled), logging, the command lines and
  start-up of node, indexer and adapter, the operating system's source of random bytes, the wallet's help text and
  its opening of the local database, and the miners: they
  are input and output around the operations above.
\<close>

end
